(* ===== verification/Js_Prelude.thy ===== *)
theory Js_Prelude
  imports Complex_Main "HOL-Library.AList" "HOL-Library.Sublist"
begin

text \<open>
  The part of JavaScript that the modelled code uses, and the generic lemmas the components share.

  Strings are lists of UTF-16 code units in the source; here they are HOL strings, so a code unit
  ranges over 0 to 255 (the Latin-1 block of Unicode). On that block \<open>trim\<close>, \<open>toLowerCase\<close> and the
  UTF-8 encoding below are the ones of the language, and all three stay inside it or inside bytes.
  Numbers are exact rationals with the three non-finite values; the code modelled here only compares,
  counts and rounds them. A \<open>Map\<close> is an association list in insertion order (\<open>AList.update\<close>
  overwrites in place or appends, as \<open>Map.prototype.set\<close> does), a \<open>Set\<close> a distinct list.
  A thrown exception is the left part of a sum.
\<close>

named_theorems js_simps
named_theorems js_defs

section \<open>Values\<close>

datatype jsnum = Fin rat | PInf | NInf | NaN

datatype jsval =
    JUndef
  | JNull
  | JBool bool
  | JNum jsnum
  | JStr string
  | JArr "jsval list"
  | JObj "(string \<times> jsval) list"

type_synonym js_record = "(string \<times> jsval) list"

abbreviation jint :: "int \<Rightarrow> jsval" where
  "jint n \<equiv> JNum (Fin (of_int n))"

definition prop_of :: "js_record \<Rightarrow> string \<Rightarrow> jsval" where
  "prop_of r k = (case map_of r k of None \<Rightarrow> JUndef | Some v \<Rightarrow> v)"

text \<open>\<open>Number.isInteger\<close> and the integer it recognises.\<close>

fun num_as_int :: "jsnum \<Rightarrow> int option" where
  "num_as_int (Fin q) = (if of_int \<lfloor>q\<rfloor> = q then Some \<lfloor>q\<rfloor> else None)"
| "num_as_int _ = None"

definition max_safe_integer :: int where
  "max_safe_integer = 9007199254740991"

fun isSafeInteger :: "jsval \<Rightarrow> bool" where
  "isSafeInteger (JNum n) =
     (case num_as_int n of None \<Rightarrow> False | Some i \<Rightarrow> \<bar>i\<bar> \<le> max_safe_integer)"
| "isSafeInteger _ = False"

fun as_str :: "jsval \<Rightarrow> string option" where
  "as_str (JStr s) = Some s"
| "as_str _ = None"

fun as_int :: "jsval \<Rightarrow> int option" where
  "as_int (JNum n) = num_as_int n"
| "as_int _ = None"

lemma num_as_int_of_int [simp]: "num_as_int (Fin (of_int i)) = Some i"
  by simp

lemma num_as_int_Some [simp]: "num_as_int n = Some i \<longleftrightarrow> n = Fin (of_int i)"
  by (cases n) auto

section \<open>Strings\<close>

definition is_ws :: "char \<Rightarrow> bool" where
  "is_ws c \<longleftrightarrow> of_char c \<in> ({9, 10, 11, 12, 13, 32, 160} :: nat set)"

definition trim :: "string \<Rightarrow> string" where
  "trim s = rev (dropWhile is_ws (rev (dropWhile is_ws s)))"

definition lower_char :: "char \<Rightarrow> char" where
  "lower_char c =
     (let n = (of_char c :: nat) in
      if 65 \<le> n \<and> n \<le> 90 \<or> 192 \<le> n \<and> n \<le> 222 \<and> n \<noteq> 215 then char_of (n + 32) else c)"

definition toLowerCase :: "string \<Rightarrow> string" where
  "toLowerCase s = map lower_char s"

definition is_digit :: "char \<Rightarrow> bool" where
  "is_digit c \<longleftrightarrow> 48 \<le> (of_char c :: nat) \<and> (of_char c :: nat) \<le> 57"

definition is_alnum :: "char \<Rightarrow> bool" where
  "is_alnum c \<longleftrightarrow> is_digit c \<or> 65 \<le> (of_char c :: nat) \<and> (of_char c :: nat) \<le> 90
     \<or> 97 \<le> (of_char c :: nat) \<and> (of_char c :: nat) \<le> 122"

definition startsWith :: "string \<Rightarrow> string \<Rightarrow> bool" where
  "startsWith s p \<longleftrightarrow> take (length p) s = p"

definition endsWith :: "string \<Rightarrow> string \<Rightarrow> bool" where
  "endsWith s p \<longleftrightarrow> startsWith (rev s) (rev p)"

fun str_includes :: "string \<Rightarrow> string \<Rightarrow> bool" where
  "str_includes [] p = (p = [])"
| "str_includes (c # s) p = (startsWith (c # s) p \<or> str_includes s p)"

fun indexOf :: "string \<Rightarrow> char \<Rightarrow> nat option" where
  "indexOf [] c = None"
| "indexOf (x # xs) c = (if x = c then Some 0 else map_option Suc (indexOf xs c))"

fun split_on :: "char \<Rightarrow> string \<Rightarrow> string list" where
  "split_on c [] = [[]]"
| "split_on c (x # xs) =
     (if x = c then [] # split_on c xs
      else (case split_on c xs of [] \<Rightarrow> [[x]] | y # ys \<Rightarrow> (x # y) # ys))"

fun join :: "string \<Rightarrow> string list \<Rightarrow> string" where
  "join sep [] = []"
| "join sep [x] = x"
| "join sep (x # y # zs) = x @ sep @ join sep (y # zs)"

text \<open>
  \<open>Number.parseInt(s, 10)\<close>: leading white space, an optional sign, the longest run of digits;
  \<open>NaN\<close> without a digit, and the infinity that a digit string too long for a double rounds to.
\<close>

fun digits_val :: "int \<Rightarrow> string \<Rightarrow> int" where
  "digits_val acc [] = acc"
| "digits_val acc (c # cs) = digits_val (10 * acc + (int (of_char c) - 48)) cs"

definition double_overflow :: int where
  "double_overflow = 2 ^ 1024 - 2 ^ 970"

definition parseInt :: "string \<Rightarrow> jsnum" where
  "parseInt s =
     (let t = dropWhile is_ws s;
          neg = startsWith t ''-'';
          u = (if startsWith t ''-'' \<or> startsWith t ''+'' then tl t else t);
          ds = takeWhile is_digit u;
          n = digits_val 0 ds
      in if ds = [] then NaN
         else if double_overflow \<le> n then (if neg then NInf else PInf)
         else Fin (of_int (if neg then - n else n)))"

text \<open>UTF-8, on the code units a HOL character has.\<close>

definition utf8_char :: "char \<Rightarrow> nat list" where
  "utf8_char c =
     (let n = of_char c in if n < 128 then [n] else [192 + n div 64, 128 + n mod 64])"

definition utf8_encode :: "string \<Rightarrow> nat list" where
  "utf8_encode s = concat (map utf8_char s)"

definition byteLength :: "string \<Rightarrow> int" where
  "byteLength s = int (length (utf8_encode s))"

subsection \<open>Facts about strings\<close>

lemma startsWith_prefix [js_simps]: "startsWith s p \<longleftrightarrow> (\<exists>t. s = p @ t)"
  unfolding startsWith_def by (metis append_eq_conv_conj append_take_drop_id)

lemma startsWith_Nil [simp]: "startsWith s []"
  by (simp add: startsWith_def)

lemma startsWith_append [simp]: "startsWith (p @ t) p"
  by (simp add: startsWith_def)

lemma startsWith_refl [simp]: "startsWith s s"
  by (simp add: startsWith_def)

lemma endsWith_suffix [js_simps]: "endsWith s p \<longleftrightarrow> (\<exists>t. s = t @ p)"
  unfolding endsWith_def startsWith_prefix by (metis rev_append rev_rev_ident)

lemma includes_iff [js_simps]: "str_includes s p \<longleftrightarrow> (\<exists>a b. s = a @ p @ b)"
proof (induction s)
  case Nil
  then show ?case by auto
next
  case (Cons c s)
  have "(\<exists>a b. c # s = a @ p @ b) \<longleftrightarrow> (\<exists>b. c # s = p @ b) \<or> (\<exists>a b. s = a @ p @ b)"
    by (metis append_Cons append_Nil list.exhaust list.inject)
  then show ?case by (simp add: Cons.IH startsWith_prefix)
qed

lemma includes_self [simp]: "str_includes s s"
  by (auto simp: includes_iff intro: exI [of _ "[]"])

lemma hd_dropWhile_not: "dropWhile P s \<noteq> [] \<Longrightarrow> \<not> P (hd (dropWhile P s))"
  by (rule hd_dropWhile)

lemma trim_Nil [simp]: "trim [] = []"
  by (simp add: trim_def)

lemma dropWhile_id: "s = [] \<or> \<not> P (hd s) \<Longrightarrow> dropWhile P s = s"
  by (cases s) auto

lemma trim_hd: "trim s \<noteq> [] \<Longrightarrow> \<not> is_ws (hd (trim s))"
proof -
  let ?t = "dropWhile is_ws s"
  assume ne: "trim s \<noteq> []"
  then have t: "?t \<noteq> []" by (auto simp: trim_def simp del: dropWhile_eq_Nil_conv)
  then have h: "\<not> is_ws (hd ?t)" by (rule hd_dropWhile)
  have "\<exists>u. ?t = trim s @ u"
    unfolding trim_def
    by (metis rev_append rev_rev_ident takeWhile_dropWhile_id)
  then obtain u where "?t = trim s @ u" by blast
  with ne h show ?thesis by simp
qed

lemma trim_last: "trim s \<noteq> [] \<Longrightarrow> \<not> is_ws (last (trim s))"
  unfolding trim_def by (metis hd_dropWhile hd_rev rev_is_Nil_conv rev_rev_ident)

lemma trim_fixed: "s = [] \<or> \<not> is_ws (hd s) \<and> \<not> is_ws (last s) \<Longrightarrow> trim s = s"
  unfolding trim_def by (metis dropWhile_id hd_rev rev_is_Nil_conv rev_rev_ident)

lemma trim_idem [simp]: "trim (trim s) = trim s"
  using trim_hd [of s] trim_last [of s] by (intro trim_fixed) blast

lemma trim_eq_iff: "trim s = s \<longleftrightarrow> s = [] \<or> \<not> is_ws (hd s) \<and> \<not> is_ws (last s)"
  using trim_hd [of s] trim_last [of s] trim_fixed [of s] by metis

lemma set_trim: "set (trim s) \<subseteq> set s"
  unfolding trim_def by (metis set_dropWhileD set_rev subsetI)

lemma split_on_ne [simp]: "split_on c s \<noteq> []"
  by (induction s) (auto split: list.splits)

lemma join_split_on [simp]: "join [c] (split_on c s) = s"
proof (induction s)
  case Nil
  then show ?case by simp
next
  case (Cons x s)
  obtain y ys where "split_on c s = y # ys" by (metis list.exhaust split_on_ne)
  with Cons.IH show ?case by (cases ys) auto
qed

lemma split_on_parts: "p \<in> set (split_on c s) \<Longrightarrow> c \<notin> set p"
proof (induction s arbitrary: p)
  case Nil
  then show ?case by simp
next
  case (Cons x s)
  obtain y ys where "split_on c s = y # ys" by (metis list.exhaust split_on_ne)
  with Cons show ?case by (auto split: if_splits)
qed

lemma split_on_free: "c \<notin> set s \<Longrightarrow> split_on c s = [s]"
  by (induction s) auto

lemma split_on_append_sep: "c \<notin> set a \<Longrightarrow> split_on c (a @ c # b) = a # split_on c b"
  by (induction a) auto

lemma split_on_join:
  "ps \<noteq> [] \<Longrightarrow> \<forall>p \<in> set ps. c \<notin> set p \<Longrightarrow> split_on c (join [c] ps) = ps"
  by (induction "[c]" ps rule: join.induct) (auto simp: split_on_free split_on_append_sep)

lemma indexOf_None: "indexOf s c = None \<longleftrightarrow> c \<notin> set s"
  by (induction s) auto

lemma indexOf_Some:
  "indexOf s c = Some i \<longleftrightarrow> i < length s \<and> s ! i = c \<and> c \<notin> set (take i s)"
proof (induction s arbitrary: i)
  case Nil
  then show ?case by simp
next
  case (Cons x s)
  show ?case by (cases i) (auto simp: Cons.IH)
qed

lemma indexOf_append: "c \<notin> set a \<Longrightarrow> indexOf (a @ c # b) c = Some (length a)"
  by (induction a) auto

lemma of_char_less [simp]: "(of_char c :: nat) < 256"
  using of_char_mod_256 [of c, where 'a = nat] mod_less_divisor [of 256 "of_char c"] by simp

lemma utf8_char_ne [simp]: "utf8_char c \<noteq> []"
  by (simp add: utf8_char_def Let_def)

lemma div_mod_64_eq: "(a::nat) div 64 = b div 64 \<Longrightarrow> a mod 64 = b mod 64 \<Longrightarrow> a = b"
  by (metis div_mult_mod_eq)

lemma utf8_char_prefix_free:
  "utf8_char c @ s = utf8_char d @ t \<Longrightarrow> c = d \<and> s = t"
proof -
  assume eq: "utf8_char c @ s = utf8_char d @ t"
  have "(of_char c :: nat) = of_char d \<and> s = t"
    using eq
    by (auto simp: utf8_char_def Let_def simp del: of_char_eq_iff split: if_splits
        dest: div_mod_64_eq)
  then show ?thesis by simp
qed

lemma utf8_encode_inj: "utf8_encode s = utf8_encode t \<Longrightarrow> s = t"
proof (induction s arbitrary: t)
  case Nil
  then show ?case by (cases t) (auto simp: utf8_encode_def)
next
  case (Cons c s)
  then obtain d t' where t: "t = d # t'"
    by (cases t) (auto simp: utf8_encode_def)
  with Cons.prems have "utf8_char c @ utf8_encode s = utf8_char d @ utf8_encode t'"
    by (simp add: utf8_encode_def)
  then have "c = d" and "utf8_encode s = utf8_encode t'"
    by (auto dest: utf8_char_prefix_free)
  with Cons.IH t show ?case by blast
qed

lemma length_utf8_encode: "length s \<le> length (utf8_encode s)"
  by (induction s) (auto simp: utf8_encode_def utf8_char_def Let_def)

section \<open>Maps and sets in insertion order\<close>

abbreviation mput :: "('k \<times> 'v) list \<Rightarrow> 'k \<Rightarrow> 'v \<Rightarrow> ('k \<times> 'v) list" where
  "mput m k v \<equiv> AList.update k v m"

abbreviation mdelete :: "('k \<times> 'v) list \<Rightarrow> 'k \<Rightarrow> ('k \<times> 'v) list" where
  "mdelete m k \<equiv> AList.delete k m"

abbreviation keys_distinct :: "('k \<times> 'v) list \<Rightarrow> bool" where
  "keys_distinct m \<equiv> distinct (map fst m)"

definition sadd :: "'a list \<Rightarrow> 'a \<Rightarrow> 'a list" where
  "sadd s x = (if x \<in> set s then s else s @ [x])"

definition sdelete :: "'a list \<Rightarrow> 'a \<Rightarrow> 'a list" where
  "sdelete s x = filter (\<lambda>y. y \<noteq> x) s"

lemma set_sadd [simp]: "set (sadd s x) = insert x (set s)"
  by (auto simp: sadd_def)

lemma set_sdelete [simp]: "set (sdelete s x) = set s - {x}"
  by (auto simp: sdelete_def)

lemma distinct_sadd [simp]: "distinct (sadd s x) = distinct s"
  by (auto simp: sadd_def)

lemma distinct_sdelete [simp]: "distinct s \<Longrightarrow> distinct (sdelete s x)"
  by (simp add: sdelete_def)

lemma length_sadd_le: "length (sadd s x) \<le> length s + 1"
  by (simp add: sadd_def)

lemma length_sdelete_le: "length (sdelete s x) \<le> length s"
  by (simp add: sdelete_def)

lemma map_of_mput [simp]: "map_of (mput m k v) = (map_of m)(k \<mapsto> v)"
  by (simp add: update_conv')

lemma map_of_mdelete [simp]: "map_of (mdelete m k) = (map_of m)(k := None)"
  by (simp add: delete_conv')

lemma keys_distinct_mput [simp]: "keys_distinct m \<Longrightarrow> keys_distinct (mput m k v)"
  by (rule distinct_update)

lemma keys_distinct_mdelete [simp]: "keys_distinct m \<Longrightarrow> keys_distinct (mdelete m k)"
  by (rule distinct_delete)

lemma keys_distinct_filter [simp]: "keys_distinct m \<Longrightarrow> keys_distinct (filter P m)"
  by (metis distinct_map_filter)

text \<open>
  Deleting, during one pass over a \<open>Map\<close>, the entries that fail a test: the result of
  the source's loops of the form \<open>for (const [k, v] of m) \<dots> m.delete(k)\<close>.
\<close>

fun delete_while_iterating :: "('k \<Rightarrow> 'v \<Rightarrow> bool) \<Rightarrow> ('k \<times> 'v) list \<Rightarrow> ('k \<times> 'v) list \<Rightarrow> ('k \<times> 'v) list" where
  "delete_while_iterating drop_it [] m = m"
| "delete_while_iterating drop_it ((k, v) # rest) m =
     delete_while_iterating drop_it rest (if drop_it k v then mdelete m k else m)"

lemma filter_fst_noop: "k \<notin> fst ` set m \<Longrightarrow> filter (\<lambda>(k', v). k \<noteq> k') m = m"
  by (rule filter_True) force

lemma delete_while_iterating_aux:
  "keys_distinct (xs @ ys) \<Longrightarrow>
   delete_while_iterating P xs (xs @ ys) = filter (\<lambda>(k, v). \<not> P k v) xs @ ys"
proof (induction xs arbitrary: ys)
  case Nil
  then show ?case by simp
next
  case (Cons p xs)
  obtain k v where p: "p = (k, v)" by (cases p)
  have fresh: "k \<notin> fst ` set (xs @ ys)" and d: "keys_distinct (xs @ ys)"
    using Cons.prems p by (auto simp: image_Un)
  show ?case
  proof (cases "P k v")
    case True
    then have "delete_while_iterating P (p # xs) ((p # xs) @ ys)
        = delete_while_iterating P xs (xs @ ys)"
      using filter_fst_noop [OF fresh] p by (simp add: AList.delete_eq)
    then show ?thesis using Cons.IH [OF d] True p by simp
  next
    case False
    have gen: "delete_while_iterating P xs (p # zs) = p # delete_while_iterating P xs zs"
      if "k \<notin> fst ` set xs" for zs
      using that p
      by (induction xs arbitrary: zs) (auto simp: AList.delete_eq split: if_splits)
    have "k \<notin> fst ` set xs" using fresh by auto
    then show ?thesis using gen [of "xs @ ys"] Cons.IH [OF d] False p by simp
  qed
qed

lemma delete_while_iterating_filter:
  "keys_distinct m \<Longrightarrow> delete_while_iterating P m m = filter (\<lambda>(k, v). \<not> P k v) m"
  using delete_while_iterating_aux [of m "[]" P] by simp

lemma map_of_filter_pair:
  "keys_distinct m \<Longrightarrow>
   map_of (filter (\<lambda>(k, v). P k v) m) k = (case map_of m k of None \<Rightarrow> None | Some v \<Rightarrow> if P k v then Some v else None)"
proof (induction m)
  case Nil
  then show ?case by simp
next
  case (Cons p m)
  obtain a b where "p = (a, b)" by (cases p)
  with Cons show ?case
    by (auto split: option.splits simp: map_of_eq_None_iff)
qed

section \<open>Results of operations that may throw\<close>

type_synonym ('e, 'a) result = "'e + 'a"

definition bind_result :: "('e, 'a) result \<Rightarrow> ('a \<Rightarrow> ('e, 'b) result) \<Rightarrow> ('e, 'b) result" where
  "bind_result r f = (case r of Inl e \<Rightarrow> Inl e | Inr x \<Rightarrow> f x)"

lemma bind_result_simps [simp]:
  "bind_result (Inl e) f = Inl e"
  "bind_result (Inr x) f = f x"
  by (simp_all add: bind_result_def)

lemma bind_result_Inr: "bind_result r f = Inr y \<longleftrightarrow> (\<exists>x. r = Inr x \<and> f x = Inr y)"
  by (cases r) auto

lemma bind_result_Inl: "bind_result r f = Inl e \<longleftrightarrow> r = Inl e \<or> (\<exists>x. r = Inr x \<and> f x = Inl e)"
  by (cases r) auto

end
