(* ===== verification/Bridge_Engine.thy ===== *)
theory Bridge_Engine
  imports Js_Prelude
begin

text \<open>
  The polling bridge engine, \<^verbatim>\<open>src/bridge/bridge-engine.ts\<close>.

  A pane watcher is a mutable object that an attach or a poll keeps using across an \<open>await\<close>, also
  after the pane's entry has been removed from the \<open>panes\<close> map. The watchers therefore live in a
  store addressed by references, and \<open>panes\<close> maps a pane id to a reference. Each asynchronous
  operation is cut at its \<open>await\<close>s: \<open>attach_begin\<close>, then \<open>attach_captured\<close> or \<open>attach_failed\<close>;
  \<open>poll_begin\<close>, then one \<open>poll_pane\<close> per pane, then \<open>poll_end\<close>. The outcome of
  \<open>tmux.capturePane\<close> is an argument. The callbacks \<open>onOutput\<close> and \<open>onError\<close> are the list of
  calls an operation makes, in order.
\<close>

section \<open>Data\<close>

datatype event_mode = Snapshot | Delta

record pane_event =
  ev_mode :: event_mode
  ev_paneId :: string
  ev_chunk :: string
  ev_streamSeq :: int

record replay_metadata =
  md_paneId :: string
  md_requestedLastSeq :: "int option"
  md_latestSeq :: int
  md_oldestHistorySeq :: "int option"
  md_latestHistorySeq :: "int option"
  md_replayedCount :: int
  md_replayUsed :: bool
  md_fallbackToSnapshot :: bool
  md_replayGapDetected :: bool

record pane_watcher =
  subscribers :: "string list"
  lastOutput :: string
  streamSeq :: int
  history :: "pane_event list"

record bridge_engine =
  panes :: "(string \<times> nat) list"
  watchers :: "nat \<Rightarrow> pane_watcher"
  next_ref :: nat
  pollTimer :: bool
  isPolling :: bool

datatype 'e engine_call = OnOutput string pane_event | OnError string string 'e

datatype attach_state = Attached replay_metadata | Capturing nat "int option"

definition new_watcher :: pane_watcher where
  "new_watcher = \<lparr>subscribers = [], lastOutput = [], streamSeq = 0, history = []\<rparr>"

definition new_engine :: bridge_engine where
  "new_engine = \<lparr>panes = [], watchers = (\<lambda>_. new_watcher), next_ref = 0,
     pollTimer = False, isPolling = False\<rparr>"

definition default_maxHistoryEvents :: "int option \<Rightarrow> int" where
  "default_maxHistoryEvents m = (case m of None \<Rightarrow> 300 | Some n \<Rightarrow> n)"

section \<open>Operations\<close>

definition upd_watcher :: "nat \<Rightarrow> (pane_watcher \<Rightarrow> pane_watcher) \<Rightarrow> bridge_engine \<Rightarrow> bridge_engine" where
  "upd_watcher r f e = e\<lparr>watchers := (watchers e)(r := f (watchers e r))\<rparr>"

definition ensureStarted :: "bridge_engine \<Rightarrow> bridge_engine" where
  "ensureStarted e = (if pollTimer e then e else e\<lparr>pollTimer := True\<rparr>)"

definition stopIfIdle :: "bridge_engine \<Rightarrow> bridge_engine" where
  "stopIfIdle e = (if length (panes e) > 0 \<or> \<not> pollTimer e then e else e\<lparr>pollTimer := False\<rparr>)"

definition getStats :: "bridge_engine \<Rightarrow> nat \<times> bool" where
  "getStats e = (length (panes e), pollTimer e)"

text \<open>\<open>localeCompare\<close> compares the collation keys of two strings; the collation is a parameter.\<close>

definition getReplayOffsetsSnapshot ::
  "(string \<Rightarrow> 'k::linorder) \<Rightarrow> bridge_engine \<Rightarrow> (string \<times> int) list" where
  "getReplayOffsetsSnapshot collate e =
     sort_key (\<lambda>row. collate (fst row)) (map (\<lambda>(p, r). (p, streamSeq (watchers e r))) (panes e))"

definition computeDelta :: "string \<Rightarrow> string \<Rightarrow> (event_mode \<times> string) option" where
  "computeDelta previous current =
     (if current = previous then None
      else if startsWith current previous then
        (let chunk = drop (length previous) current
         in if chunk = [] then None else Some (Delta, chunk))
      else Some (Snapshot, current))"

definition nextEvent ::
  "int \<Rightarrow> pane_watcher \<Rightarrow> string \<Rightarrow> event_mode \<Rightarrow> string \<Rightarrow> pane_event \<times> pane_watcher" where
  "nextEvent maxHistory w paneId mode chunk =
     (let w1 = w\<lparr>streamSeq := streamSeq w + 1\<rparr>;
          event = \<lparr>ev_mode = mode, ev_paneId = paneId, ev_chunk = chunk, ev_streamSeq = streamSeq w1\<rparr>;
          h = history w1 @ [event]
      in (event, w1\<lparr>history := (if int (length h) > maxHistory then tl h else h)\<rparr>))"

definition seq_at :: "pane_event list \<Rightarrow> nat \<Rightarrow> int option" where
  "seq_at h i = (if i < length h then Some (ev_streamSeq (h ! i)) else None)"

definition history_by_seq :: "pane_watcher \<Rightarrow> pane_event list" where
  "history_by_seq w = sort_key ev_streamSeq (history w)"

definition attach_metadata ::
  "pane_watcher \<Rightarrow> string \<Rightarrow> int option \<Rightarrow> int \<Rightarrow> bool \<Rightarrow> bool \<Rightarrow> bool \<Rightarrow> replay_metadata" where
  "attach_metadata w paneId requested count used fallback gap =
     (let h = history_by_seq w in
      \<lparr>md_paneId = paneId, md_requestedLastSeq = requested, md_latestSeq = streamSeq w,
       md_oldestHistorySeq = seq_at h 0, md_latestHistorySeq = seq_at h (length h - 1),
       md_replayedCount = count, md_replayUsed = used, md_fallbackToSnapshot = fallback,
       md_replayGapDetected = gap\<rparr>)"

definition snapshot_event :: "pane_watcher \<Rightarrow> string \<Rightarrow> pane_event" where
  "snapshot_event w paneId =
     \<lparr>ev_mode = Snapshot, ev_paneId = paneId, ev_chunk = lastOutput w, ev_streamSeq = streamSeq w\<rparr>"

definition attach_watcher :: "bridge_engine \<Rightarrow> string \<Rightarrow> string \<Rightarrow> bridge_engine \<times> nat" where
  "attach_watcher e clientId paneId =
     (let (e1, r) =
        (case map_of (panes e) paneId of
           Some r \<Rightarrow> (e, r)
         | None \<Rightarrow> (let r = next_ref e in
             (e\<lparr>panes := mput (panes e) paneId r, watchers := (watchers e)(r := new_watcher),
                next_ref := Suc r\<rparr>, r)))
      in (upd_watcher r (\<lambda>w. w\<lparr>subscribers := sadd (subscribers w) clientId\<rparr>) e1, r))"

definition replayed_events :: "pane_watcher \<Rightarrow> int \<Rightarrow> pane_event list" where
  "replayed_events w s = filter (\<lambda>ev. ev_streamSeq ev > s) (history_by_seq w)"

definition replay_gap :: "pane_watcher \<Rightarrow> int \<Rightarrow> bool" where
  "replay_gap w s =
     (case replayed_events w s of
        [] \<Rightarrow> s < streamSeq w
      | ev # _ \<Rightarrow> ev_streamSeq ev \<noteq> s + 1)"

definition attach_begin ::
  "bridge_engine \<Rightarrow> string \<Rightarrow> string \<Rightarrow> jsnum option
     \<Rightarrow> bridge_engine \<times> 'e engine_call list \<times> attach_state" where
  "attach_begin e clientId paneId sinceSeq =
     (let (e1, r) = attach_watcher e clientId paneId;
          w = watchers e1 r;
          requested = Option.bind sinceSeq num_as_int
      in if streamSeq w > 0 then
           (case requested of
              Some s \<Rightarrow>
                (let replayed = replayed_events w s; gap = replay_gap w s
                 in if replayed \<noteq> [] \<and> \<not> gap then
                      (ensureStarted e1, map (OnOutput clientId) replayed,
                       Attached (attach_metadata w paneId requested (int (length replayed)) True False False))
                    else
                      (ensureStarted e1, [OnOutput clientId (snapshot_event w paneId)],
                       Attached (attach_metadata w paneId requested 0 False True gap)))
            | None \<Rightarrow>
                (ensureStarted e1, [OnOutput clientId (snapshot_event w paneId)],
                 Attached (attach_metadata w paneId requested 0 False False False)))
         else (e1, [], Capturing r requested))"

definition attach_captured ::
  "int \<Rightarrow> bridge_engine \<Rightarrow> string \<Rightarrow> string \<Rightarrow> nat \<Rightarrow> int option \<Rightarrow> string
     \<Rightarrow> bridge_engine \<times> 'e engine_call list \<times> replay_metadata" where
  "attach_captured maxHistory e clientId paneId r requested snapshot =
     (let (event, w) = nextEvent maxHistory ((watchers e r)\<lparr>lastOutput := snapshot\<rparr>) paneId Snapshot snapshot
      in (ensureStarted (e\<lparr>watchers := (watchers e)(r := w)\<rparr>), [OnOutput clientId event],
          attach_metadata w paneId requested 0 False False False))"

definition attach_failed :: "bridge_engine \<Rightarrow> string \<Rightarrow> string \<Rightarrow> nat \<Rightarrow> bridge_engine" where
  "attach_failed e clientId paneId r =
     (let e1 = upd_watcher r (\<lambda>w. w\<lparr>subscribers := sdelete (subscribers w) clientId\<rparr>) e;
          w = watchers e1 r;
          e2 = (if subscribers w = [] \<and> streamSeq w = 0 then e1\<lparr>panes := mdelete (panes e1) paneId\<rparr> else e1)
      in stopIfIdle e2)"

text \<open>An attach whose capture is not interleaved with other operations.\<close>

definition attach ::
  "int \<Rightarrow> bridge_engine \<Rightarrow> string \<Rightarrow> string \<Rightarrow> jsnum option \<Rightarrow> ('e, string) result
     \<Rightarrow> bridge_engine \<times> 'e engine_call list \<times> ('e, replay_metadata) result" where
  "attach maxHistory e clientId paneId sinceSeq capture =
     (case attach_begin e clientId paneId sinceSeq of
        (e1, calls, Attached md) \<Rightarrow> (e1, calls, Inr md)
      | (e1, calls, Capturing r requested) \<Rightarrow>
          (case capture of
             Inl err \<Rightarrow> (attach_failed e1 clientId paneId r, calls, Inl err)
           | Inr snapshot \<Rightarrow>
               (let (e2, calls', md) = attach_captured maxHistory e1 clientId paneId r requested snapshot
                in (e2, calls @ calls', Inr md))))"

definition detach :: "bridge_engine \<Rightarrow> string \<Rightarrow> string \<Rightarrow> bridge_engine" where
  "detach e clientId paneId =
     (case map_of (panes e) paneId of
        None \<Rightarrow> e
      | Some r \<Rightarrow>
          (let e1 = upd_watcher r (\<lambda>w. w\<lparr>subscribers := sdelete (subscribers w) clientId\<rparr>) e;
               e2 = (if subscribers (watchers e1 r) = [] then e1\<lparr>panes := mdelete (panes e1) paneId\<rparr> else e1)
           in stopIfIdle e2))"

definition detachAll :: "bridge_engine \<Rightarrow> string \<Rightarrow> bridge_engine" where
  "detachAll e clientId = fold (\<lambda>paneId e'. detach e' clientId paneId) (map fst (panes e)) e"

definition poll_begin :: "bridge_engine \<Rightarrow> (bridge_engine \<times> (string \<times> nat) list) option" where
  "poll_begin e =
     (if isPolling e \<or> length (panes e) = 0 then None else Some (e\<lparr>isPolling := True\<rparr>, panes e))"

definition poll_pane ::
  "int \<Rightarrow> bridge_engine \<Rightarrow> string \<Rightarrow> nat \<Rightarrow> ('e, string) result
     \<Rightarrow> bridge_engine \<times> 'e engine_call list" where
  "poll_pane maxHistory e paneId r capture =
     (let w = watchers e r in
      case capture of
        Inl err \<Rightarrow> (e, map (\<lambda>c. OnError c paneId err) (subscribers w))
      | Inr output \<Rightarrow>
          (case computeDelta (lastOutput w) output of
             None \<Rightarrow> (e, [])
           | Some (mode, chunk) \<Rightarrow>
               (let (event, w2) = nextEvent maxHistory (w\<lparr>lastOutput := output\<rparr>) paneId mode chunk
                in (e\<lparr>watchers := (watchers e)(r := w2)\<rparr>,
                    map (\<lambda>c. OnOutput c event) (subscribers w2)))))"

definition poll_end :: "bridge_engine \<Rightarrow> bridge_engine" where
  "poll_end e = e\<lparr>isPolling := False\<rparr>"

fun poll_panes ::
  "int \<Rightarrow> (string \<Rightarrow> ('e, string) result) \<Rightarrow> bridge_engine \<Rightarrow> (string \<times> nat) list
     \<Rightarrow> bridge_engine \<times> 'e engine_call list" where
  "poll_panes maxHistory capture e [] = (e, [])"
| "poll_panes maxHistory capture e ((paneId, r) # rest) =
     (let (e1, calls) = poll_pane maxHistory e paneId r (capture paneId);
          (e2, calls') = poll_panes maxHistory capture e1 rest
      in (e2, calls @ calls'))"

text \<open>A poll that is not interleaved with other operations.\<close>

definition pollOnce ::
  "int \<Rightarrow> (string \<Rightarrow> ('e, string) result) \<Rightarrow> bridge_engine \<Rightarrow> bridge_engine \<times> 'e engine_call list" where
  "pollOnce maxHistory capture e =
     (case poll_begin e of
        None \<Rightarrow> (e, [])
      | Some (e1, entries) \<Rightarrow>
          (let (e2, calls) = poll_panes maxHistory capture e1 entries in (poll_end e2, calls)))"

section \<open>What a client shows, and the log a watcher stands for\<close>

definition apply_event :: "string \<Rightarrow> pane_event \<Rightarrow> string" where
  "apply_event screen ev =
     (case ev_mode ev of Snapshot \<Rightarrow> ev_chunk ev | Delta \<Rightarrow> screen @ ev_chunk ev)"

definition render :: "string \<Rightarrow> pane_event list \<Rightarrow> string" where
  "render screen evs = foldl apply_event screen evs"

text \<open>
  The specification of a watcher is an unbounded, append-only log of events numbered from 1. The
  watcher keeps the length of the log, its last \<open>maxHistory\<close> events and the text it renders to.
\<close>

definition watcher_log :: "int \<Rightarrow> string \<Rightarrow> pane_event list \<Rightarrow> pane_watcher \<Rightarrow> bool" where
  "watcher_log maxHistory paneId lg w \<longleftrightarrow>
     streamSeq w = int (length lg) \<and>
     history w = drop (length lg - nat maxHistory) lg \<and>
     lastOutput w = render [] lg \<and>
     map ev_streamSeq lg = [1..int (length lg)] \<and>
     (\<forall>ev \<in> set lg. ev_paneId ev = paneId) \<and>
     distinct (subscribers w)"

lemma render_Nil [simp]: "render screen [] = screen"
  by (simp add: render_def)

lemma render_append [simp]: "render screen (a @ b) = render (render screen a) b"
  by (simp add: render_def)

lemma render_single [simp]: "render screen [ev] = apply_event screen ev"
  by (simp add: render_def)

lemma watcher_log_new: "watcher_log m p [] new_watcher"
  by (simp add: watcher_log_def new_watcher_def)

lemma computeDelta_render:
  "computeDelta prev cur = Some (mode, chunk) \<Longrightarrow>
   apply_event prev \<lparr>ev_mode = mode, ev_paneId = p, ev_chunk = chunk, ev_streamSeq = n\<rparr> = cur"
  by (auto simp: computeDelta_def apply_event_def Let_def startsWith_prefix split: if_splits)

lemma computeDelta_None: "computeDelta prev cur = None \<longleftrightarrow> cur = prev"
  by (auto simp: computeDelta_def Let_def startsWith_prefix)

lemma computeDelta_chunk:
  "computeDelta prev cur = Some (Delta, chunk) \<longleftrightarrow> chunk \<noteq> [] \<and> cur = prev @ chunk"
  by (auto simp: computeDelta_def Let_def startsWith_prefix)

lemma retained_suffix_push:
  fixes m :: int
  assumes "h = drop (length lg - nat m) lg"
  shows "(if int (length (h @ [ev])) > m then tl (h @ [ev]) else h @ [ev])
       = drop (length (lg @ [ev]) - nat m) (lg @ [ev])"
proof (cases "nat m \<le> length lg")
  case True
  then have len: "length h = nat m" and eq: "h @ [ev] = drop (length lg - nat m) (lg @ [ev])"
    using assms by auto
  have "int (length (h @ [ev])) > m" using len by simp
  moreover have "tl (h @ [ev]) = drop (Suc (length lg - nat m)) (lg @ [ev])"
    unfolding eq by (simp only: tl_drop drop_Suc)
  moreover have "Suc (length lg - nat m) = length (lg @ [ev]) - nat m"
    using True by simp
  ultimately show ?thesis by presburger
next
  case False
  then have "h = lg" and "\<not> int (length (h @ [ev])) > m" and "length (lg @ [ev]) - nat m = 0"
    using assms by auto
  then show ?thesis by simp
qed

lemma watcher_log_nextEvent:
  assumes "watcher_log m p lg w"
    and "nextEvent m (w\<lparr>lastOutput := out\<rparr>) p mode chunk = (ev, w')"
    and "apply_event (lastOutput w) ev = out"
  shows "watcher_log m p (lg @ [ev]) w'" and "subscribers w' = subscribers w"
    and "lastOutput w' = out" and "ev_paneId ev = p" and "ev_mode ev = mode"
    and "ev_chunk ev = chunk" and "ev_streamSeq ev = streamSeq w + 1"
proof -
  have h: "history w = drop (length lg - nat m) lg" and seq: "streamSeq w = int (length lg)"
    and nums: "map ev_streamSeq lg = [1..int (length lg)]"
    using assms(1) by (auto simp: watcher_log_def)
  have ev: "ev = \<lparr>ev_mode = mode, ev_paneId = p, ev_chunk = chunk, ev_streamSeq = streamSeq w + 1\<rparr>"
    and w': "w' = w\<lparr>lastOutput := out, streamSeq := streamSeq w + 1,
        history := (if int (length (history w @ [ev])) > m then tl (history w @ [ev]) else history w @ [ev])\<rparr>"
    using assms(2) by (auto simp: nextEvent_def Let_def)
  have "[1..int (length (lg @ [ev]))] = [1..int (length lg)] @ [int (length lg) + 1]"
    by (simp add: upto_rec2)
  then have "map ev_streamSeq (lg @ [ev]) = [1..int (length (lg @ [ev]))]"
    using nums seq ev by simp
  moreover have "history w' = drop (length (lg @ [ev]) - nat m) (lg @ [ev])"
    using retained_suffix_push [OF h, of ev] w' by simp
  ultimately show "watcher_log m p (lg @ [ev]) w'"
    using assms(1,3) w' ev by (auto simp: watcher_log_def)
  show "subscribers w' = subscribers w" "lastOutput w' = out" using w' by simp_all
  show "ev_paneId ev = p" "ev_mode ev = mode" "ev_chunk ev = chunk" "ev_streamSeq ev = streamSeq w + 1"
    using ev by simp_all
qed

end
