(* ===== verification/Engine_Replay.thy ===== *)
theory Engine_Replay
  imports Bridge_Engine
begin

text \<open>
  Replay on attach, against the log a watcher stands for. The interface \<open>replay_source\<close> is what
  the attach code relies on: a number of events, a retained suffix of the log, consecutive event
  numbers, and the text the whole log renders to. Its client lemmas say which events a resume
  delivers and that they bring the client to the current text. The watcher provides the interface.
\<close>

section \<open>The interface\<close>

locale replay_source =
  fixes rel :: "'e list \<Rightarrow> 'w \<Rightarrow> bool"
    and seq :: "'w \<Rightarrow> int"
    and hist :: "'w \<Rightarrow> 'e list"
    and out :: "'w \<Rightarrow> 's"
    and no :: "'e \<Rightarrow> int"
    and app :: "'s \<Rightarrow> 'e \<Rightarrow> 's"
    and start :: "'s"
    and cap :: nat
  assumes seq_length: "rel lg w \<Longrightarrow> seq w = int (length lg)"
    and numbered: "rel lg w \<Longrightarrow> map no lg = [1..int (length lg)]"
    and retained: "rel lg w \<Longrightarrow> hist w = drop (length lg - cap) lg"
    and rendered: "rel lg w \<Longrightarrow> out w = foldl app start lg"
begin

lemma no_nth: "rel lg w \<Longrightarrow> i < length lg \<Longrightarrow> no (lg ! i) = int i + 1"
proof -
  assume rel: "rel lg w" and i: "i < length lg"
  have "no (lg ! i) = map no lg ! i" using i by simp
  also have "\<dots> = [1..int (length lg)] ! i" using numbered [OF rel] by simp
  also have "\<dots> = int i + 1" using i by simp
  finally show ?thesis .
qed

lemma sorted_hist: "rel lg w \<Longrightarrow> sort_key no (hist w) = hist w"
proof -
  assume rel: "rel lg w"
  have "map no (hist w) = drop (length lg - cap) [1..int (length lg)]"
    using retained [OF rel] numbered [OF rel] by (metis drop_map)
  then have "sorted (map no (hist w))"
    by (simp add: sorted_wrt_drop)
  then show ?thesis by (rule sort_key_id_if_sorted)
qed

lemma newer_than:
  assumes rel: "rel lg w"
  shows "filter (\<lambda>e. s < no e) (drop k lg) = drop (max k (nat s)) lg"
proof -
  let ?d = "nat s - k" and ?n = "max k (nat s)"
  have "?d + k = ?n" by (simp add: max_def)
  then have split: "drop k lg = take ?d (drop k lg) @ drop ?n lg"
    by (metis append_take_drop_id drop_drop)
  have "\<not> s < no e" if "e \<in> set (take ?d (drop k lg))" for e
  proof -
    from that obtain i where "i < ?d" "k + i < length lg" "e = lg ! (k + i)"
      by (auto simp: in_set_conv_nth)
    then show ?thesis using no_nth [OF rel, of "k + i"] by simp
  qed
  then have old: "filter (\<lambda>e. s < no e) (take ?d (drop k lg)) = []" by simp
  have "s < no e" if "e \<in> set (drop ?n lg)" for e
  proof -
    from that obtain i where i: "i < length lg - ?n" and e: "e = drop ?n lg ! i"
      by (auto simp: in_set_conv_nth)
    have "?n \<le> length lg" using i by linarith
    then have "e = lg ! (?n + i)" and "?n + i < length lg"
      using i e by (simp only: nth_drop, linarith)
    then show ?thesis using no_nth [OF rel, of "?n + i"] by simp
  qed
  then have new: "filter (\<lambda>e. s < no e) (drop ?n lg) = drop ?n lg"
    by (simp add: filter_id_conv)
  have "filter (\<lambda>e. s < no e) (drop k lg)
      = filter (\<lambda>e. s < no e) (take ?d (drop k lg)) @ filter (\<lambda>e. s < no e) (drop ?n lg)"
    by (subst split) (rule filter_append)
  then show ?thesis by (simp only: old new append_Nil)
qed

lemma resume_events:
  assumes rel: "rel lg w"
  shows "filter (\<lambda>e. s < no e) (sort_key no (hist w)) = drop (max (length lg - cap) (nat s)) lg"
  using newer_than [OF rel] retained [OF rel] sorted_hist [OF rel] by simp

lemma resume_head:
  assumes rel: "rel lg w"
    and "filter (\<lambda>e. s < no e) (sort_key no (hist w)) = e # es"
  shows "no e = int (max (length lg - cap) (nat s)) + 1"
    and "max (length lg - cap) (nat s) < length lg"
proof -
  let ?k = "max (length lg - cap) (nat s)"
  have eq: "drop ?k lg = e # es" using assms resume_events by metis
  then show lt: "?k < length lg" by (metis drop_eq_Nil list.distinct(1) not_less)
  have "e = lg ! ?k" using eq lt by (metis hd_drop_conv_nth list.sel(1))
  then show "no e = int ?k + 1" using no_nth [OF rel lt] by simp
qed

lemma resume_exact_iff:
  assumes rel: "rel lg w"
  shows "(case filter (\<lambda>e. s < no e) (sort_key no (hist w)) of [] \<Rightarrow> False | e # _ \<Rightarrow> no e = s + 1)
     \<longleftrightarrow> int (length lg - cap) \<le> s \<and> s < int (length lg)"
proof (cases "filter (\<lambda>e. s < no e) (sort_key no (hist w))")
  case Nil
  then have "length lg \<le> max (length lg - cap) (nat s)"
    using resume_events [OF rel] by (metis drop_eq_Nil)
  then show ?thesis using Nil by (auto simp: max_def split: if_splits)
next
  case (Cons e es)
  note head = resume_head [OF rel Cons]
  show ?thesis
  proof
    assume "case filter (\<lambda>e. s < no e) (sort_key no (hist w)) of [] \<Rightarrow> False | e # _ \<Rightarrow> no e = s + 1"
    then have "s = int (max (length lg - cap) (nat s))" using Cons head(1) by simp
    then show "int (length lg - cap) \<le> s \<and> s < int (length lg)" using head(2) by linarith
  next
    assume "int (length lg - cap) \<le> s \<and> s < int (length lg)"
    then have "max (length lg - cap) (nat s) = nat s" and "0 \<le> s" by linarith+
    then have "int (max (length lg - cap) (nat s)) = s" by simp
    then show "case filter (\<lambda>e. s < no e) (sort_key no (hist w)) of [] \<Rightarrow> False | e # _ \<Rightarrow> no e = s + 1"
      using Cons head(1) by simp
  qed
qed

lemma resume_resyncs:
  assumes rel: "rel lg w" and "int (length lg - cap) \<le> s" and "s < int (length lg)"
    and "scr = foldl app start (take (nat s) lg)"
  shows "foldl app scr (filter (\<lambda>e. s < no e) (sort_key no (hist w))) = out w"
proof -
  have "max (length lg - cap) (nat s) = nat s" using assms(2) by linarith
  then show ?thesis
    using resume_events [OF rel, of s] rendered [OF rel] assms(4)
    by (metis append_take_drop_id foldl_append)
qed

lemma resume_numbers:
  assumes rel: "rel lg w" and "int (length lg - cap) \<le> s" and "s < int (length lg)"
  shows "map no (filter (\<lambda>e. s < no e) (sort_key no (hist w))) = [s + 1..seq w]"
proof -
  have k: "max (length lg - cap) (nat s) = nat s" using assms(2) by linarith
  have "map no (drop (nat s) lg) = drop (nat s) [1..int (length lg)]"
    using numbered [OF rel] by (metis drop_map)
  also have "\<dots> = [s + 1..int (length lg)]"
  proof -
    have "[1..int (length lg)] = [1..s] @ [s + 1..int (length lg)]"
      using upto_split1 [of 1 "s + 1" "int (length lg)"] assms(2,3) by simp
    moreover have "length [1..s] = nat s" by simp
    ultimately show ?thesis by (metis append_eq_conv_conj)
  qed
  finally show ?thesis using resume_events [OF rel, of s] k seq_length [OF rel] by simp
qed

end

interpretation watcher: replay_source "watcher_log m p" streamSeq history lastOutput
  ev_streamSeq apply_event "[]" "nat m" for m p
  by unfold_locales (auto simp: watcher_log_def render_def)

end
