(* ===== verification/Engine_Stream.thy ===== *)
theory Engine_Stream
  imports Engine_Replay
begin

text \<open>
  The engine as a system: well-formedness under every interleaving of its asynchronous operations,
  and the text each subscribed client shows. \<open>engine_step\<close> is one synchronous fragment of the
  engine between two \<open>await\<close>s; \<open>atomic_step\<close> is a whole operation with no other one in between.
\<close>

section \<open>Events a client receives\<close>

fun delivered :: "string \<Rightarrow> string \<Rightarrow> 'e engine_call list \<Rightarrow> pane_event list" where
  "delivered c p [] = []"
| "delivered c p (OnOutput d ev # calls) =
     (if d = c \<and> ev_paneId ev = p then ev # delivered c p calls else delivered c p calls)"
| "delivered c p (OnError d q err # calls) = delivered c p calls"

lemma delivered_append [simp]: "delivered c p (a @ b) = delivered c p a @ delivered c p b"
  by (induction c p a rule: delivered.induct) auto

lemma delivered_map_self:
  "\<forall>ev \<in> set evs. ev_paneId ev = p \<Longrightarrow> delivered c p (map (OnOutput c) evs) = evs"
  by (induction evs) auto

lemma delivered_map_other:
  "\<forall>ev \<in> set evs. ev_paneId ev = q \<Longrightarrow> d \<noteq> c \<or> q \<noteq> p \<Longrightarrow> delivered c p (map (OnOutput d) evs) = []"
  by (induction evs) auto

lemma delivered_broadcast:
  "distinct subs \<Longrightarrow> delivered c p (map (\<lambda>d. OnOutput d ev) subs)
     = (if c \<in> set subs \<and> ev_paneId ev = p then [ev] else [])"
  by (induction subs) auto

lemma delivered_errors [simp]: "delivered c p (map (\<lambda>d. OnError d q err) subs) = []"
  by (induction subs) auto

section \<open>Well-formed engines\<close>

text \<open>\<open>home r\<close> is the pane the watcher \<open>r\<close> was created for.\<close>

definition engine_wf :: "int \<Rightarrow> (nat \<Rightarrow> string) \<Rightarrow> bridge_engine \<Rightarrow> bool" where
  "engine_wf m home e \<longleftrightarrow>
     keys_distinct (panes e) \<and>
     (\<forall>p r. map_of (panes e) p = Some r \<longrightarrow> home r = p \<and> r < next_ref e) \<and>
     (\<forall>r < next_ref e. \<exists>lg. watcher_log m (home r) lg (watchers e r))"

lemma engine_wf_new: "engine_wf m home new_engine"
  by (simp add: engine_wf_def new_engine_def)

lemma engine_wf_watcher:
  "engine_wf m home e \<Longrightarrow> map_of (panes e) p = Some r \<Longrightarrow>
     r < next_ref e \<and> home r = p \<and> (\<exists>lg. watcher_log m p lg (watchers e r))"
  unfolding engine_wf_def by blast

lemma engine_wf_timer [simp]:
  "engine_wf m home (ensureStarted e) = engine_wf m home e"
  "engine_wf m home (stopIfIdle e) = engine_wf m home e"
  "engine_wf m home (poll_end e) = engine_wf m home e"
  "engine_wf m home (e\<lparr>isPolling := b\<rparr>) = engine_wf m home e"
  by (simp_all add: engine_wf_def ensureStarted_def stopIfIdle_def poll_end_def)

lemma engine_wf_mdelete:
  "engine_wf m home e \<Longrightarrow> engine_wf m home (e\<lparr>panes := mdelete (panes e) p\<rparr>)"
  by (auto simp: engine_wf_def)

lemma engine_wf_write:
  assumes "engine_wf m home e" and "watcher_log m (home r) lg w"
  shows "engine_wf m home (e\<lparr>watchers := (watchers e)(r := w)\<rparr>)"
  using assms by (auto simp: engine_wf_def)

lemma watcher_log_subscribers:
  "watcher_log m p lg w \<Longrightarrow> distinct subs \<Longrightarrow> watcher_log m p lg (w\<lparr>subscribers := subs\<rparr>)"
  by (simp add: watcher_log_def)

lemma watcher_log_distinct: "watcher_log m p lg w \<Longrightarrow> distinct (subscribers w)"
  by (simp add: watcher_log_def)

lemma engine_wf_subscribers:
  assumes wf: "engine_wf m home e" and r: "r < next_ref e"
    and f: "\<And>s. distinct s \<Longrightarrow> distinct (f s)"
  shows "engine_wf m home (upd_watcher r (\<lambda>w. w\<lparr>subscribers := f (subscribers w)\<rparr>) e)"
proof -
  obtain lg where lg: "watcher_log m (home r) lg (watchers e r)"
    using wf r by (auto simp: engine_wf_def)
  then have "watcher_log m (home r) lg
      ((watchers e r)\<lparr>subscribers := f (subscribers (watchers e r))\<rparr>)"
    by (intro watcher_log_subscribers f) (auto dest: watcher_log_distinct)
  with wf show ?thesis unfolding upd_watcher_def by (rule engine_wf_write)
qed

lemma attach_watcher_wf:
  assumes wf: "engine_wf m home e" and aw: "attach_watcher e c p = (e1, r)"
  shows "engine_wf m (home(r := p)) e1 \<and> r < next_ref e1 \<and> next_ref e \<le> next_ref e1
    \<and> (\<forall>q < next_ref e. (home(r := p)) q = home q) \<and> map_of (panes e1) p = Some r"
proof (cases "map_of (panes e) p")
  case (Some r0)
  then have e1: "e1 = upd_watcher r (\<lambda>w. w\<lparr>subscribers := sadd (subscribers w) c\<rparr>) e" and "r = r0"
    using aw by (auto simp: attach_watcher_def Let_def)
  have r: "r < next_ref e" "home r = p"
    using engine_wf_watcher [OF wf Some] \<open>r = r0\<close> by auto
  then have "home(r := p) = home" by auto
  moreover have "engine_wf m home e1"
    unfolding e1 by (rule engine_wf_subscribers [OF wf r(1)]) simp
  ultimately show ?thesis
    using e1 r Some \<open>r = r0\<close> by (simp add: upd_watcher_def)
next
  case None
  let ?e = "e\<lparr>panes := mput (panes e) p (next_ref e),
      watchers := (watchers e)(next_ref e := new_watcher), next_ref := Suc (next_ref e)\<rparr>"
  have e1: "e1 = upd_watcher r (\<lambda>w. w\<lparr>subscribers := sadd (subscribers w) c\<rparr>) ?e"
    and r: "r = next_ref e"
    using aw None by (auto simp: attach_watcher_def Let_def)
  have "engine_wf m (home(r := p)) ?e"
    using wf r watcher_log_new by (auto simp: engine_wf_def less_Suc_eq) (metis less_irrefl)
  then have "engine_wf m (home(r := p)) e1"
    unfolding e1 by (rule engine_wf_subscribers) (simp_all add: r)
  then show ?thesis
    using e1 r by (simp add: upd_watcher_def)
qed

lemma attach_begin_engine:
  "attach_begin e c p since = (e', calls, st) \<Longrightarrow>
   \<exists>e1 r. attach_watcher e c p = (e1, r) \<and> (e' = e1 \<or> e' = ensureStarted e1) \<and>
     (\<forall>q req. st = Capturing q req \<longrightarrow> q = r)"
  by (auto simp: attach_begin_def Let_def split: prod.splits if_splits option.splits)

lemma attach_captured_wf:
  assumes wf: "engine_wf m home e" and "r < next_ref e" and "home r = p"
    and cap: "attach_captured m e c p r req snap = (e', calls, md)"
  shows "engine_wf m home e'" and "next_ref e' = next_ref e" and "panes e' = panes e"
proof -
  obtain lg where lg: "watcher_log m p lg (watchers e r)"
    using wf assms(2,3) by (auto simp: engine_wf_def)
  obtain ev w where ne: "nextEvent m ((watchers e r)\<lparr>lastOutput := snap\<rparr>) p Snapshot snap = (ev, w)"
    by (cases "nextEvent m ((watchers e r)\<lparr>lastOutput := snap\<rparr>) p Snapshot snap")
  have "apply_event (lastOutput (watchers e r)) ev = snap"
    using ne by (auto simp: nextEvent_def Let_def apply_event_def)
  then have "watcher_log m (home r) (lg @ [ev]) w"
    using watcher_log_nextEvent(1) [OF lg ne] assms(3) by simp
  then show "engine_wf m home e'"
    using engine_wf_write [OF wf] cap ne by (auto simp: attach_captured_def Let_def)
  show "next_ref e' = next_ref e" "panes e' = panes e"
    using cap ne by (auto simp: attach_captured_def Let_def ensureStarted_def)
qed

lemma attach_failed_wf:
  assumes "engine_wf m home e" and "r < next_ref e"
  shows "engine_wf m home (attach_failed e c p r)"
    and "next_ref (attach_failed e c p r) = next_ref e"
proof -
  have "engine_wf m home (upd_watcher r (\<lambda>w. w\<lparr>subscribers := sdelete (subscribers w) c\<rparr>) e)"
    by (rule engine_wf_subscribers [OF assms]) simp
  then show "engine_wf m home (attach_failed e c p r)"
    by (auto simp: attach_failed_def Let_def intro: engine_wf_mdelete)
  show "next_ref (attach_failed e c p r) = next_ref e"
    by (simp add: attach_failed_def Let_def stopIfIdle_def upd_watcher_def)
qed

lemma detach_wf:
  assumes "engine_wf m home e"
  shows "engine_wf m home (detach e c p)" and "next_ref (detach e c p) = next_ref e"
proof -
  show "engine_wf m home (detach e c p)"
  proof (cases "map_of (panes e) p")
    case None
    then show ?thesis using assms by (simp add: detach_def)
  next
    case (Some r)
    then have "engine_wf m home (upd_watcher r (\<lambda>w. w\<lparr>subscribers := sdelete (subscribers w) c\<rparr>) e)"
      using engine_wf_watcher [OF assms Some] by (intro engine_wf_subscribers [OF assms]) auto
    then show ?thesis
      using Some by (auto simp: detach_def Let_def intro: engine_wf_mdelete)
  qed
  show "next_ref (detach e c p) = next_ref e"
    by (simp add: detach_def Let_def stopIfIdle_def upd_watcher_def split: option.splits)
qed

lemma fold_detach_wf:
  "engine_wf m home e \<Longrightarrow> engine_wf m home (fold (\<lambda>p e'. detach e' c p) ps e)
     \<and> next_ref (fold (\<lambda>p e'. detach e' c p) ps e) = next_ref e"
  by (induction ps arbitrary: e) (auto simp: detach_wf)

lemma detachAll_wf:
  "engine_wf m home e \<Longrightarrow> engine_wf m home (detachAll e c) \<and> next_ref (detachAll e c) = next_ref e"
  by (simp add: detachAll_def fold_detach_wf)

lemma poll_pane_wf:
  assumes wf: "engine_wf m home e" and "r < next_ref e" and "home r = p"
    and poll: "poll_pane m e p r res = (e', calls)"
  shows "engine_wf m home e'" and "next_ref e' = next_ref e" and "panes e' = panes e"
proof -
  obtain lg where lg: "watcher_log m p lg (watchers e r)"
    using wf assms(2,3) by (auto simp: engine_wf_def)
  have "engine_wf m home e' \<and> next_ref e' = next_ref e \<and> panes e' = panes e"
  proof (cases "\<exists>out mode chunk. res = Inr out \<and>
      computeDelta (lastOutput (watchers e r)) out = Some (mode, chunk)")
    case False
    then have "e' = e"
      using poll by (auto simp: poll_pane_def Let_def split: sum.splits option.splits)
    then show ?thesis using wf by simp
  next
    case True
    then obtain out mode chunk where res: "res = Inr out"
      and cd: "computeDelta (lastOutput (watchers e r)) out = Some (mode, chunk)" by blast
    obtain ev w where ne: "nextEvent m ((watchers e r)\<lparr>lastOutput := out\<rparr>) p mode chunk = (ev, w)"
      by (cases "nextEvent m ((watchers e r)\<lparr>lastOutput := out\<rparr>) p mode chunk")
    have "apply_event (lastOutput (watchers e r)) ev = out"
      using ne computeDelta_render [OF cd] by (auto simp: nextEvent_def Let_def)
    then have "watcher_log m (home r) (lg @ [ev]) w"
      using watcher_log_nextEvent(1) [OF lg ne] assms(3) by simp
    then show ?thesis
      using engine_wf_write [OF wf] poll res cd ne by (auto simp: poll_pane_def Let_def)
  qed
  then show "engine_wf m home e'" "next_ref e' = next_ref e" "panes e' = panes e" by auto
qed

section \<open>All interleavings\<close>

record engine_sys =
  eng :: bridge_engine
  inflight :: "(string \<times> string \<times> nat \<times> int option) list"
  polling :: "(string \<times> nat) list option"
  shown :: "string \<Rightarrow> string \<Rightarrow> string"

definition show_calls ::
  "(string \<Rightarrow> string \<Rightarrow> string) \<Rightarrow> string engine_call list \<Rightarrow> string \<Rightarrow> string \<Rightarrow> string" where
  "show_calls sh calls c p = render (sh c p) (delivered c p calls)"

definition init_sys :: engine_sys where
  "init_sys = \<lparr>eng = new_engine, inflight = [], polling = None, shown = (\<lambda>_ _. [])\<rparr>"

inductive engine_step :: "int \<Rightarrow> engine_sys \<Rightarrow> engine_sys \<Rightarrow> bool" for m where
  attach_now: "attach_begin (eng s) c p since = (e, calls, Attached md) \<Longrightarrow>
     engine_step m s (s\<lparr>eng := e, shown := show_calls (shown s) calls\<rparr>)"
| attach_wait: "attach_begin (eng s) c p since = (e, calls, Capturing r req) \<Longrightarrow>
     engine_step m s (s\<lparr>eng := e, inflight := inflight s @ [(c, p, r, req)],
       shown := show_calls (shown s) calls\<rparr>)"
| attach_ok: "(c, p, r, req) \<in> set (inflight s) \<Longrightarrow>
     attach_captured m (eng s) c p r req snap = (e, calls, md) \<Longrightarrow>
     engine_step m s (s\<lparr>eng := e, inflight := remove1 (c, p, r, req) (inflight s),
       shown := show_calls (shown s) calls\<rparr>)"
| attach_err: "(c, p, r, req) \<in> set (inflight s) \<Longrightarrow>
     engine_step m s (s\<lparr>eng := attach_failed (eng s) c p r,
       inflight := remove1 (c, p, r, req) (inflight s)\<rparr>)"
| detach_one: "engine_step m s (s\<lparr>eng := detach (eng s) c p\<rparr>)"
| detach_client: "engine_step m s (s\<lparr>eng := detachAll (eng s) c\<rparr>)"
| poll_start: "polling s = None \<Longrightarrow> poll_begin (eng s) = Some (e, entries) \<Longrightarrow>
     engine_step m s (s\<lparr>eng := e, polling := Some entries\<rparr>)"
| poll_next: "polling s = Some ((p, r) # rest) \<Longrightarrow> poll_pane m (eng s) p r res = (e, calls) \<Longrightarrow>
     engine_step m s (s\<lparr>eng := e, polling := Some rest, shown := show_calls (shown s) calls\<rparr>)"
| poll_done: "polling s = Some [] \<Longrightarrow>
     engine_step m s (s\<lparr>eng := poll_end (eng s), polling := None\<rparr>)"

inductive engine_reach :: "int \<Rightarrow> engine_sys \<Rightarrow> bool" for m where
  reach_init: "engine_reach m init_sys"
| reach_step: "engine_reach m s \<Longrightarrow> engine_step m s t \<Longrightarrow> engine_reach m t"

definition sys_inv :: "int \<Rightarrow> engine_sys \<Rightarrow> bool" where
  "sys_inv m s \<longleftrightarrow> (\<exists>home. engine_wf m home (eng s) \<and>
     (\<forall>(c, p, r, req) \<in> set (inflight s). r < next_ref (eng s) \<and> home r = p) \<and>
     (\<forall>entries. polling s = Some entries \<longrightarrow>
        (\<forall>(p, r) \<in> set entries. r < next_ref (eng s) \<and> home r = p))) \<and>
     (isPolling (eng s) \<longleftrightarrow> polling s \<noteq> None)"

lemma isPolling_ops:
  "isPolling (ensureStarted e) = isPolling e" "isPolling (stopIfIdle e) = isPolling e"
  "isPolling (upd_watcher r f e) = isPolling e" "isPolling (detach e c p) = isPolling e"
  "isPolling (attach_failed e c p r) = isPolling e"
  by (simp_all add: ensureStarted_def stopIfIdle_def upd_watcher_def detach_def attach_failed_def
      Let_def split: option.splits)

lemma isPolling_detachAll: "isPolling (detachAll e c) = isPolling e"
proof -
  have "isPolling (fold (\<lambda>p e'. detach e' c p) ps e) = isPolling e" for ps
    by (induction ps arbitrary: e) (simp_all add: isPolling_ops)
  then show ?thesis by (simp add: detachAll_def)
qed

lemma isPolling_attach_watcher: "attach_watcher e c p = (e1, r) \<Longrightarrow> isPolling e1 = isPolling e"
  by (auto simp: attach_watcher_def Let_def isPolling_ops split: option.splits)

lemma isPolling_attach_begin: "attach_begin e c p since = (e', calls, st) \<Longrightarrow> isPolling e' = isPolling e"
  by (auto dest!: attach_begin_engine isPolling_attach_watcher simp: isPolling_ops)

lemma isPolling_attach_captured:
  "attach_captured m e c p r req snap = (e', calls, md) \<Longrightarrow> isPolling e' = isPolling e"
  by (auto simp: attach_captured_def Let_def isPolling_ops split: prod.splits)

lemma isPolling_poll_pane: "poll_pane m e p r res = (e', calls) \<Longrightarrow> isPolling e' = isPolling e"
  by (auto simp: poll_pane_def Let_def split: sum.splits option.splits prod.splits)

lemmas isPolling_simps = isPolling_ops isPolling_detachAll

lemma sys_inv_init: "sys_inv m init_sys"
  by (auto simp: sys_inv_def init_sys_def engine_wf_new) (simp add: new_engine_def)

lemma sys_invI:
  assumes "engine_wf m home (eng s)"
    and "\<And>c p r req. (c, p, r, req) \<in> set (inflight s) \<Longrightarrow> r < next_ref (eng s) \<and> home r = p"
    and "\<And>entries p r. polling s = Some entries \<Longrightarrow> (p, r) \<in> set entries \<Longrightarrow>
      r < next_ref (eng s) \<and> home r = p"
    and "isPolling (eng s) \<longleftrightarrow> polling s \<noteq> None"
  shows "sys_inv m s"
  using assms unfolding sys_inv_def by (intro conjI exI [of _ home]) auto

lemma sys_invE:
  assumes "sys_inv m s"
  obtains home where "engine_wf m home (eng s)"
    and "\<And>c p r req. (c, p, r, req) \<in> set (inflight s) \<Longrightarrow> r < next_ref (eng s) \<and> home r = p"
    and "\<And>entries p r. polling s = Some entries \<Longrightarrow> (p, r) \<in> set entries \<Longrightarrow>
      r < next_ref (eng s) \<and> home r = p"
    and "isPolling (eng s) \<longleftrightarrow> polling s \<noteq> None"
  using assms unfolding sys_inv_def by fastforce

lemma sys_inv_attach:
  assumes inv: "sys_inv m s" and ab: "attach_begin (eng s) c p since = (e, calls, st)"
    and fl: "fl = inflight s \<or> (\<exists>r req. st = Capturing r req \<and> fl = inflight s @ [(c, p, r, req)])"
  shows "sys_inv m (s\<lparr>eng := e, inflight := fl, shown := sh\<rparr>)"
proof -
  obtain home where h: "engine_wf m home (eng s)"
    and i: "\<And>c p r req. (c, p, r, req) \<in> set (inflight s) \<Longrightarrow> r < next_ref (eng s) \<and> home r = p"
    and q: "\<And>entries p r. polling s = Some entries \<Longrightarrow> (p, r) \<in> set entries \<Longrightarrow>
      r < next_ref (eng s) \<and> home r = p"
    and b: "isPolling (eng s) \<longleftrightarrow> polling s \<noteq> None"
    using inv by (rule sys_invE) blast
  obtain e1 r where aw: "attach_watcher (eng s) c p = (e1, r)" and e: "e = e1 \<or> e = ensureStarted e1"
    and st: "\<forall>q req. st = Capturing q req \<longrightarrow> q = r"
    using attach_begin_engine [OF ab] by blast
  have nr: "next_ref e = next_ref e1" using e by (auto simp: ensureStarted_def)
  note wf = attach_watcher_wf [OF h aw]
  show ?thesis
  proof (rule sys_invI)
    show "engine_wf m (home(r := p)) (eng (s\<lparr>eng := e, inflight := fl, shown := sh\<rparr>))"
      using wf e by auto
  next
    fix c' p' r' req'
    assume "(c', p', r', req') \<in> set (inflight (s\<lparr>eng := e, inflight := fl, shown := sh\<rparr>))"
    then have "(c', p', r', req') \<in> set (inflight s) \<or> r' = r \<and> p' = p" using fl st by auto
    then show "r' < next_ref (eng (s\<lparr>eng := e, inflight := fl, shown := sh\<rparr>)) \<and> (home(r := p)) r' = p'"
      using i wf nr by fastforce
  next
    fix entries p' r'
    assume "polling (s\<lparr>eng := e, inflight := fl, shown := sh\<rparr>) = Some entries" "(p', r') \<in> set entries"
    then show "r' < next_ref (eng (s\<lparr>eng := e, inflight := fl, shown := sh\<rparr>)) \<and> (home(r := p)) r' = p'"
      using q [of entries p' r'] wf nr by fastforce
  next
    show "isPolling (eng (s\<lparr>eng := e, inflight := fl, shown := sh\<rparr>))
        \<longleftrightarrow> polling (s\<lparr>eng := e, inflight := fl, shown := sh\<rparr>) \<noteq> None"
      using b isPolling_attach_begin [OF ab] by simp
  qed
qed

lemma sys_inv_step: "engine_step m s t \<Longrightarrow> sys_inv m s \<Longrightarrow> sys_inv m t"
proof (induction rule: engine_step.induct)
  case (attach_now s c p since e calls md)
  then show ?case using sys_inv_attach [of m s c p since e calls _ "inflight s"] by simp
next
  case (attach_wait s c p since e calls r req)
  then show ?case
    using sys_inv_attach [of m s c p since e calls _ "inflight s @ [(c, p, r, req)]"] by simp
next
  case (attach_ok c p r req s snap e calls md)
  from attach_ok.prems show ?case
  proof (rule sys_invE)
    fix home assume h: "engine_wf m home (eng s)"
      and i: "\<And>c p r req. (c, p, r, req) \<in> set (inflight s) \<Longrightarrow> r < next_ref (eng s) \<and> home r = p"
      and q: "\<And>entries p r. polling s = Some entries \<Longrightarrow> (p, r) \<in> set entries \<Longrightarrow>
        r < next_ref (eng s) \<and> home r = p"
      and b: "isPolling (eng s) \<longleftrightarrow> polling s \<noteq> None"
    have "r < next_ref (eng s)" "home r = p" using i attach_ok.hyps(1) by blast+
    note wf = attach_captured_wf [OF h this attach_ok.hyps(2)]
    show ?thesis
      using wf i q b isPolling_attach_captured [OF attach_ok.hyps(2)]
      by (intro sys_invI [of m home]) (auto dest!: set_remove1_subset [THEN subsetD])
  qed
next
  case (attach_err c p r req s)
  from attach_err.prems show ?case
  proof (rule sys_invE)
    fix home assume h: "engine_wf m home (eng s)"
      and i: "\<And>c p r req. (c, p, r, req) \<in> set (inflight s) \<Longrightarrow> r < next_ref (eng s) \<and> home r = p"
      and q: "\<And>entries p r. polling s = Some entries \<Longrightarrow> (p, r) \<in> set entries \<Longrightarrow>
        r < next_ref (eng s) \<and> home r = p"
      and b: "isPolling (eng s) \<longleftrightarrow> polling s \<noteq> None"
    have "r < next_ref (eng s)" using i attach_err.hyps(1) by blast
    then show ?thesis
      using attach_failed_wf [OF h] i q b isPolling_simps
      by (intro sys_invI [of m home]) (auto dest!: set_remove1_subset [THEN subsetD])
  qed
next
  case (detach_one s c p)
  then show ?case
    by (elim sys_invE, intro sys_invI) (auto simp: detach_wf isPolling_simps)
next
  case (detach_client s c)
  then show ?case
    by (elim sys_invE, intro sys_invI) (auto simp: detachAll_wf isPolling_simps)
next
  case (poll_start s e entries)
  then have e: "e = (eng s)\<lparr>isPolling := True\<rparr>" and en: "entries = panes (eng s)"
    by (auto simp: poll_begin_def split: if_splits)
  from poll_start.prems show ?case
  proof (rule sys_invE)
    fix home assume h: "engine_wf m home (eng s)"
      and i: "\<And>c p r req. (c, p, r, req) \<in> set (inflight s) \<Longrightarrow> r < next_ref (eng s) \<and> home r = p"
    have "r < next_ref (eng s) \<and> home r = p" if "(p, r) \<in> set (panes (eng s))" for p r
      using that h engine_wf_watcher [OF h, of p r] by (simp add: engine_wf_def)
    then show ?thesis
      using h i e en by (intro sys_invI [of m home]) simp_all
  qed
next
  case (poll_next s p r rest res e calls)
  from poll_next.prems show ?case
  proof (rule sys_invE)
    fix home assume h: "engine_wf m home (eng s)"
      and i: "\<And>c p r req. (c, p, r, req) \<in> set (inflight s) \<Longrightarrow> r < next_ref (eng s) \<and> home r = p"
      and q: "\<And>entries p r. polling s = Some entries \<Longrightarrow> (p, r) \<in> set entries \<Longrightarrow>
        r < next_ref (eng s) \<and> home r = p"
      and b: "isPolling (eng s) \<longleftrightarrow> polling s \<noteq> None"
    have "r < next_ref (eng s)" "home r = p" using q poll_next.hyps(1) by (metis list.set_intros(1))+
    note wf = poll_pane_wf [OF h this poll_next.hyps(2)]
    have "r' < next_ref (eng s) \<and> home r' = p'" if "(p', r') \<in> set rest" for p' r'
      using q [OF poll_next.hyps(1), of p' r'] that by simp
    then show ?thesis
      using wf i b isPolling_poll_pane [OF poll_next.hyps(2)] poll_next.hyps(1)
      by (intro sys_invI [of m home]) auto
  qed
next
  case (poll_done s)
  from poll_done.prems show ?case
  proof (rule sys_invE)
    fix home assume "engine_wf m home (eng s)"
      and "\<And>c p r req. (c, p, r, req) \<in> set (inflight s) \<Longrightarrow> r < next_ref (eng s) \<and> home r = p"
    then show ?thesis by (intro sys_invI [of m home]) (simp_all add: poll_end_def)
  qed
qed

lemma engine_reach_inv: "engine_reach m s \<Longrightarrow> sys_inv m s"
  by (induction rule: engine_reach.induct) (auto intro: sys_inv_init sys_inv_step)

end
