(* ===== verification/Engine_Sync.thy ===== *)
theory Engine_Sync
  imports Engine_Stream
begin

text \<open>
  What subscribed clients show. When operations do not interleave, every subscriber of a watched
  pane shows exactly the text the engine last captured. When two first attaches interleave, or a
  client resumes with a cursor of an earlier watcher of the pane, that is not so; both are shown
  on concrete runs.
\<close>

section \<open>Atomic operations\<close>

text \<open>
  \<open>valid_cursor\<close>: a cursor that a client sends with an attach belongs to the watcher the pane has
  now, that is the client shows what the first \<open>n\<close> events of its log render to.
\<close>

definition valid_cursor :: "int \<Rightarrow> engine_sys \<Rightarrow> string \<Rightarrow> string \<Rightarrow> jsnum option \<Rightarrow> bool" where
  "valid_cursor m s c p since \<longleftrightarrow>
     (\<forall>n r. Option.bind since num_as_int = Some n \<longrightarrow> map_of (panes (eng s)) p = Some r \<longrightarrow>
        (\<exists>lg. watcher_log m p lg (watchers (eng s) r) \<and>
           (0 \<le> n \<and> n \<le> int (length lg) \<longrightarrow> shown s c p = render [] (take (nat n) lg))))"

inductive atomic_step :: "int \<Rightarrow> engine_sys \<Rightarrow> engine_sys \<Rightarrow> bool" for m where
  atomic_attach: "valid_cursor m s c p since \<Longrightarrow>
     attach m (eng s) c p since capture = (e, calls, res) \<Longrightarrow>
     atomic_step m s (s\<lparr>eng := e, shown := show_calls (shown s) calls\<rparr>)"
| atomic_detach: "atomic_step m s (s\<lparr>eng := detach (eng s) c p\<rparr>)"
| atomic_detachAll: "atomic_step m s (s\<lparr>eng := detachAll (eng s) c\<rparr>)"
| atomic_poll: "pollOnce m capture (eng s) = (e, calls) \<Longrightarrow>
     atomic_step m s (s\<lparr>eng := e, shown := show_calls (shown s) calls\<rparr>)"

inductive atomic_reach :: "int \<Rightarrow> engine_sys \<Rightarrow> bool" for m where
  atomic_init: "atomic_reach m init_sys"
| atomic_next: "atomic_reach m s \<Longrightarrow> atomic_step m s t \<Longrightarrow> atomic_reach m t"

definition in_sync :: "engine_sys \<Rightarrow> bool" where
  "in_sync s \<longleftrightarrow> (\<forall>p r c. map_of (panes (eng s)) p = Some r \<longrightarrow>
     c \<in> set (subscribers (watchers (eng s) r)) \<longrightarrow> shown s c p = lastOutput (watchers (eng s) r))"

definition all_live :: "bridge_engine \<Rightarrow> bool" where
  "all_live e \<longleftrightarrow> (\<forall>p r. map_of (panes e) p = Some r \<longrightarrow> 0 < streamSeq (watchers e r))"

lemma replay_gap_iff:
  assumes "watcher_log m p lg w"
  shows "replayed_events w s \<noteq> [] \<and> \<not> replay_gap w s
     \<longleftrightarrow> int (length lg - nat m) \<le> s \<and> s < int (length lg)"
  using watcher.resume_exact_iff [OF assms, of s]
  by (auto simp: replay_gap_def replayed_events_def history_by_seq_def split: list.splits)

lemma replayed_events_log:
  "watcher_log m p lg w \<Longrightarrow> replayed_events w s = drop (max (length lg - nat m) (nat s)) lg"
  using watcher.resume_events [of m p lg w s] by (simp add: replayed_events_def history_by_seq_def)

lemma apply_snapshot_event: "apply_event scr (snapshot_event w p) = lastOutput w"
  by (simp add: apply_event_def snapshot_event_def)

lemma attach_begin_delivers:
  assumes lg: "watcher_log m p lg (watchers e1 r)" and aw: "attach_watcher e c p = (e1, r)"
    and live: "0 < streamSeq (watchers e1 r)"
    and ab: "attach_begin e c p since = (e', calls, st)"
  shows "\<exists>md. st = Attached md" and "e' = ensureStarted e1"
    and "\<And>n. Option.bind since num_as_int = Some n \<Longrightarrow> 0 \<le> n \<Longrightarrow> n \<le> int (length lg)
        \<Longrightarrow> scr = render [] (take (nat n) lg)
        \<Longrightarrow> render scr (delivered c p calls) = lastOutput (watchers e1 r)"
    and "Option.bind since num_as_int = None \<Longrightarrow> render scr (delivered c p calls) = lastOutput (watchers e1 r)"
    and "\<And>n. Option.bind since num_as_int = Some n \<Longrightarrow> n < 0 \<or> int (length lg) < n
        \<Longrightarrow> render scr (delivered c p calls) = lastOutput (watchers e1 r)"
    and "d \<noteq> c \<or> q \<noteq> p \<Longrightarrow> delivered d q calls = []"
proof -
  let ?w = "watchers e1 r"
  have paneid: "\<forall>ev \<in> set (replayed_events ?w n). ev_paneId ev = p" for n
    using lg replayed_events_log [OF lg, of n] by (auto simp: watcher_log_def dest: in_set_dropD)
  have snap: "render scr (delivered c p [OnOutput c (snapshot_event ?w p)]) = lastOutput ?w" for scr
    by (simp add: apply_snapshot_event snapshot_event_def apply_event_def)
  show "\<exists>md. st = Attached md" "e' = ensureStarted e1"
    using ab aw live by (auto simp: attach_begin_def Let_def split: if_splits option.splits)
  show "Option.bind since num_as_int = None \<Longrightarrow> render scr (delivered c p calls) = lastOutput ?w"
    using ab aw live snap by (auto simp: attach_begin_def Let_def)
  show "render scr (delivered c p calls) = lastOutput ?w"
    if n: "Option.bind since num_as_int = Some n" "0 \<le> n" "n \<le> int (length lg)"
      and scr: "scr = render [] (take (nat n) lg)" for n
  proof (cases "replayed_events ?w n \<noteq> [] \<and> \<not> replay_gap ?w n")
    case True
    then have calls: "calls = map (OnOutput c) (replayed_events ?w n)"
      using ab aw live n by (auto simp: attach_begin_def Let_def)
    have "int (length lg - nat m) \<le> n" "n < int (length lg)"
      using True replay_gap_iff [OF lg] by auto
    then have "render scr (replayed_events ?w n) = lastOutput ?w"
      using watcher.resume_resyncs [OF lg, of n scr] scr
      by (simp add: replayed_events_def history_by_seq_def render_def)
    then show ?thesis using calls delivered_map_self [OF paneid] by metis
  next
    case False
    then have "calls = [OnOutput c (snapshot_event ?w p)]"
      using ab aw live n by (auto simp: attach_begin_def Let_def)
    then show ?thesis using snap by (simp only:)
  qed
  show "render scr (delivered c p calls) = lastOutput ?w"
    if n: "Option.bind since num_as_int = Some n" "n < 0 \<or> int (length lg) < n" for n
  proof -
    have "\<not> (replayed_events ?w n \<noteq> [] \<and> \<not> replay_gap ?w n)"
      using n(2) replay_gap_iff [OF lg, of n] by linarith
    then have "calls = [OnOutput c (snapshot_event ?w p)]"
      using ab aw live n by (auto simp: attach_begin_def Let_def)
    then show ?thesis using snap by (simp only:)
  qed
  show "d \<noteq> c \<or> q \<noteq> p \<Longrightarrow> delivered d q calls = []"
  proof -
    assume ne: "d \<noteq> c \<or> q \<noteq> p"
    have "calls = [OnOutput c (snapshot_event ?w p)] \<or> (\<exists>n. calls = map (OnOutput c) (replayed_events ?w n))"
      using ab aw live by (auto simp: attach_begin_def Let_def split: if_splits option.splits)
    then show ?thesis
      using ne delivered_map_other [OF paneid, of c d q]
      by (auto simp: snapshot_event_def)
  qed
qed

definition sync_inv :: "int \<Rightarrow> engine_sys \<Rightarrow> bool" where
  "sync_inv m s \<longleftrightarrow> (\<exists>home. engine_wf m home (eng s)) \<and> all_live (eng s) \<and> in_sync s \<and> \<not> isPolling (eng s)"

lemma sync_invE:
  assumes "sync_inv m s"
  obtains home where "engine_wf m home (eng s)" "all_live (eng s)" "in_sync s" "\<not> isPolling (eng s)"
  using assms by (auto simp: sync_inv_def)

lemma in_sync_D:
  "in_sync s \<Longrightarrow> map_of (panes (eng s)) p = Some r \<Longrightarrow> c \<in> set (subscribers (watchers (eng s) r))
    \<Longrightarrow> shown s c p = lastOutput (watchers (eng s) r)"
  by (simp add: in_sync_def)

lemma engine_wf_refs_inj:
  "engine_wf m home e \<Longrightarrow> map_of (panes e) p = Some r \<Longrightarrow> map_of (panes e) q = Some r \<Longrightarrow> p = q"
  by (metis engine_wf_watcher)

subsection \<open>Attach\<close>

lemma attach_watcher_frame:
  assumes "attach_watcher e c p = (e1, r)" and "engine_wf m home e"
  shows "map_of (panes e1) = (map_of (panes e))(p \<mapsto> r)"
    and "\<And>q. q \<noteq> r \<Longrightarrow> watchers e1 q = watchers e q"
    and "set (subscribers (watchers e1 r)) =
      (case map_of (panes e) p of None \<Rightarrow> {c} | Some _ \<Rightarrow> insert c (set (subscribers (watchers e r))))"
    and "lastOutput (watchers e1 r) = (case map_of (panes e) p of None \<Rightarrow> [] | Some _ \<Rightarrow> lastOutput (watchers e r))"
    and "streamSeq (watchers e1 r) = (case map_of (panes e) p of None \<Rightarrow> 0 | Some _ \<Rightarrow> streamSeq (watchers e r))"
    and "map_of (panes e) p = None \<Longrightarrow> \<forall>q s. map_of (panes e) q = Some s \<longrightarrow> s \<noteq> r"
    and "map_of (panes e) p = Some s \<Longrightarrow> s = r"
    and "history (watchers e1 r) = (case map_of (panes e) p of None \<Rightarrow> [] | Some _ \<Rightarrow> history (watchers e r))"
    and "isPolling e1 = isPolling e"
  using assms
  by (auto simp: attach_watcher_def Let_def upd_watcher_def new_watcher_def engine_wf_def
      split: option.splits) (metis less_irrefl)+

lemma sync_attach_live:
  assumes inv: "sync_inv m s" and cur: "valid_cursor m s c p since"
    and pane: "map_of (panes (eng s)) p = Some r"
    and at: "attach m (eng s) c p since capture = (e, calls, res)"
  shows "sync_inv m (s\<lparr>eng := e, shown := show_calls (shown s) calls\<rparr>)"
proof -
  obtain home where h: "engine_wf m home (eng s)" and live: "all_live (eng s)" and sync: "in_sync s"
    and np: "\<not> isPolling (eng s)" using inv by (rule sync_invE)
  obtain e1 where aw: "attach_watcher (eng s) c p = (e1, r)"
    using pane by (cases "attach_watcher (eng s) c p") (auto simp: attach_watcher_def Let_def)
  note fr = attach_watcher_frame [OF aw h] and wf = attach_watcher_wf [OF h aw]
  have live1: "0 < streamSeq (watchers e1 r)"
    using live pane fr(5) by (simp add: all_live_def)
  have same: "watcher_log m p lg (watchers (eng s) r) \<Longrightarrow> watcher_log m p lg (watchers e1 r)" for lg
    using aw pane watcher_log_distinct [of m p lg "watchers (eng s) r"]
    by (auto simp: attach_watcher_def Let_def upd_watcher_def intro!: watcher_log_subscribers)
  obtain lg0 where lg0: "watcher_log m p lg0 (watchers e1 r)"
    using engine_wf_watcher [OF h pane] same by blast
  obtain e' calls' st where ab: "attach_begin (eng s) c p since = (e', calls' :: string engine_call list, st)"
    by (metis prod_cases3)
  have begin_eq: "e = ensureStarted e1" "calls = calls'"
    using at ab attach_begin_delivers(1,2) [OF lg0 aw live1 ab] by (auto simp: attach_def)
  have mine: "render (shown s c p) (delivered c p calls) = lastOutput (watchers e1 r)"
  proof (cases "Option.bind since num_as_int")
    case None
    then show ?thesis using attach_begin_delivers(4) [OF lg0 aw live1 ab] begin_eq by simp
  next
    case (Some n)
    then obtain lg where lg: "watcher_log m p lg (watchers e1 r)"
      and scr: "0 \<le> n \<and> n \<le> int (length lg) \<longrightarrow> shown s c p = render [] (take (nat n) lg)"
      using cur pane same unfolding valid_cursor_def by blast
    note ds = attach_begin_delivers(3,5) [OF lg aw live1 ab Some]
    show ?thesis using ds scr begin_eq by (metis linorder_not_less)
  qed
  have others: "delivered d q calls = []" if "d \<noteq> c \<or> q \<noteq> p" for d q
    using that attach_begin_delivers(6) [OF lg0 aw live1 ab] begin_eq by simp
  have sync': "show_calls (shown s) calls d q = lastOutput (watchers e1 r')"
    if q: "map_of (panes e1) q = Some r'" and d: "d \<in> set (subscribers (watchers e1 r'))" for d q r'
  proof (cases "d = c \<and> q = p")
    case True
    then show ?thesis using q mine fr(1) by (auto simp: show_calls_def)
  next
    case False
    have q0: "map_of (panes (eng s)) q = Some r'" using q fr(1) pane by (auto split: if_splits)
    have "d \<in> set (subscribers (watchers (eng s) r'))"
    proof (cases "r' = r")
      case True
      then have "q = p" using engine_wf_refs_inj [OF h] q0 pane by simp
      then show ?thesis using d fr(3) pane True False by simp
    next
      case False
      then show ?thesis using d fr(2) by simp
    qed
    moreover have "lastOutput (watchers e1 r') = lastOutput (watchers (eng s) r')"
      using fr(2,4) pane by (cases "r' = r") auto
    ultimately show ?thesis
      using in_sync_D [OF sync q0] others [of d q] False by (auto simp: show_calls_def)
  qed
  have live': "0 < streamSeq (watchers e1 r')" if "map_of (panes e1) q = Some r'" for q r'
    using that live fr(1,2,5) pane live1 by (cases "r' = r") (auto simp: all_live_def split: if_splits)
  have "panes e = panes e1" "watchers e = watchers e1" "isPolling e = isPolling e1"
    using begin_eq by (auto simp: ensureStarted_def)
  then show ?thesis
    using wf sync' live' np fr(9) begin_eq
    by (auto simp: sync_inv_def all_live_def in_sync_def)
qed

lemma sync_attach_new:
  assumes inv: "sync_inv m s" and pane: "map_of (panes (eng s)) p = None"
    and at: "attach m (eng s) c p since capture = (e, calls, res)"
  shows "sync_inv m (s\<lparr>eng := e, shown := show_calls (shown s) calls\<rparr>)"
proof -
  obtain home where h: "engine_wf m home (eng s)" and live: "all_live (eng s)" and sync: "in_sync s"
    and np: "\<not> isPolling (eng s)" using inv by (rule sync_invE)
  obtain e1 r where aw: "attach_watcher (eng s) c p = (e1, r)" by (metis surj_pair)
  note fr = attach_watcher_frame [OF aw h] and wf = attach_watcher_wf [OF h aw]
  let ?req = "Option.bind since num_as_int"
  have ab: "attach_begin (eng s) c p since = (e1, [] :: string engine_call list, Capturing r ?req)"
    using aw fr(5) pane by (simp add: attach_begin_def Let_def)
  have old: "map_of (panes (eng s)) q = Some r' \<Longrightarrow> watchers e1 r' = watchers (eng s) r' \<and> r' \<noteq> r" for q r'
    using fr(2,6) pane by metis
  show ?thesis
  proof (cases capture)
    case (Inl err)
    have e: "e = attach_failed e1 c p r" and calls: "calls = []"
      using at ab Inl by (auto simp: attach_def)
    have "subscribers (watchers e1 r) = [c]"
      using aw pane by (auto simp: attach_watcher_def Let_def upd_watcher_def new_watcher_def sadd_def)
    then have "panes e = mdelete (panes e1) p" and ws: "\<And>q. q \<noteq> r \<Longrightarrow> watchers e q = watchers e1 q"
      using e fr(5) pane
      by (simp_all add: attach_failed_def Let_def upd_watcher_def sdelete_def stopIfIdle_def)
    then have gone: "map_of (panes e) = map_of (panes (eng s))"
      using fr(1) pane by (simp add: delete_conv' fun_upd_idem)
    have "engine_wf m (home(r := p)) e" using attach_failed_wf wf e by blast
    then show ?thesis
      using gone ws old live sync np fr(9) e calls isPolling_ops(5)
      by (auto simp: sync_inv_def all_live_def in_sync_def show_calls_def)
  next
    case (Inr snap)
    obtain e2 calls2 md where ac: "attach_captured m e1 c p r ?req snap = (e2, calls2 :: string engine_call list, md)"
      by (metis prod_cases3)
    have e: "e = e2" and calls: "calls = calls2" using at ab Inr ac by (auto simp: attach_def)
    have wf2: "engine_wf m (home(r := p)) e2" and pn: "panes e2 = panes e1"
      using attach_captured_wf [OF _ _ _ ac, of "home(r := p)"] wf by auto
    have del: "delivered d q calls2 = (if d = c \<and> q = p then [\<lparr>ev_mode = Snapshot, ev_paneId = p,
        ev_chunk = snap, ev_streamSeq = 1\<rparr>] else [])" for d q
      using ac fr(5) pane by (auto simp: attach_captured_def nextEvent_def Let_def)
    have seq0: "streamSeq (watchers e1 r) = 0" and subs: "set (subscribers (watchers e1 r)) = {c}"
      using fr(3,5) pane by simp_all
    have e2: "lastOutput (watchers e2 r) = snap \<and> streamSeq (watchers e2 r) = streamSeq (watchers e1 r) + 1
        \<and> subscribers (watchers e2 r) = subscribers (watchers e1 r) \<and> (\<forall>q. q \<noteq> r \<longrightarrow> watchers e2 q = watchers e1 q)"
      using ac by (auto simp: attach_captured_def nextEvent_def Let_def ensureStarted_def)
    then have wr: "lastOutput (watchers e2 r) = snap" "streamSeq (watchers e2 r) = 1"
      "set (subscribers (watchers e2 r)) = {c}" and wo: "\<And>q. q \<noteq> r \<Longrightarrow> watchers e2 q = watchers e1 q"
      using seq0 subs by simp_all
    have look: "map_of (panes e2) q = Some r' \<Longrightarrow> (q = p \<and> r' = r) \<or>
        (q \<noteq> p \<and> map_of (panes (eng s)) q = Some r' \<and> watchers e2 r' = watchers (eng s) r')" for q r'
      using pn fr(1) old wo by (auto split: if_splits)
    have "show_calls (shown s) calls2 d q = lastOutput (watchers e2 r')"
      if q: "map_of (panes e2) q = Some r'" and d: "d \<in> set (subscribers (watchers e2 r'))" for q r' d
      using look [OF q]
    proof
      assume "q = p \<and> r' = r"
      then show ?thesis using d wr del [of d q] by (simp add: show_calls_def apply_event_def)
    next
      assume "q \<noteq> p \<and> map_of (panes (eng s)) q = Some r' \<and> watchers e2 r' = watchers (eng s) r'"
      then show ?thesis
        using d del [of d q] in_sync_D [OF sync, of q r' d] by (simp add: show_calls_def)
    qed
    then have "in_sync (s\<lparr>eng := e2, shown := show_calls (shown s) calls2\<rparr>)"
      by (simp add: in_sync_def)
    moreover have "all_live e2"
      using look live wr by (auto simp: all_live_def) (metis zero_less_one)
    moreover have "\<not> isPolling e2" using np fr(9) isPolling_attach_captured [OF ac] by simp
    ultimately show ?thesis using wf2 e calls by (auto simp: sync_inv_def)
  qed
qed

subsection \<open>Detach\<close>

lemma detach_frame:
  assumes "map_of (panes (detach e c p)) q = Some r"
  shows "map_of (panes e) q = Some r"
    and "set (subscribers (watchers (detach e c p) r)) \<subseteq> set (subscribers (watchers e r))"
    and "lastOutput (watchers (detach e c p) r) = lastOutput (watchers e r)"
    and "streamSeq (watchers (detach e c p) r) = streamSeq (watchers e r)"
  using assms
  by (auto simp: detach_def Let_def stopIfIdle_def upd_watcher_def split: option.splits if_splits)

lemma sync_detach:
  assumes "sync_inv m s"
  shows "sync_inv m (s\<lparr>eng := detach (eng s) c p\<rparr>)"
proof -
  obtain home where h: "engine_wf m home (eng s)" and live: "all_live (eng s)" and sync: "in_sync s"
    and np: "\<not> isPolling (eng s)" using assms by (rule sync_invE)
  have "engine_wf m home (detach (eng s) c p)" by (rule detach_wf [OF h])
  moreover have "all_live (detach (eng s) c p)"
    using live detach_frame [of "eng s" c p] by (auto simp: all_live_def)
  moreover have "in_sync (s\<lparr>eng := detach (eng s) c p\<rparr>)"
    using sync detach_frame [of "eng s" c p] by (fastforce simp: in_sync_def)
  ultimately show ?thesis using np by (auto simp: sync_inv_def isPolling_ops)
qed

lemma sync_detachAll:
  assumes "sync_inv m s"
  shows "sync_inv m (s\<lparr>eng := detachAll (eng s) c\<rparr>)"
proof -
  have "sync_inv m (s\<lparr>eng := fold (\<lambda>p e'. detach e' c p) ps (eng s)\<rparr>)" for ps
    using assms
  proof (induction ps arbitrary: s)
    case Nil
    then show ?case by simp
  next
    case (Cons p ps)
    from Cons.IH [OF sync_detach [OF Cons.prems, of c p]] show ?case by simp
  qed
  then show ?thesis by (simp add: detachAll_def)
qed

subsection \<open>Poll\<close>

definition poll_inv :: "int \<Rightarrow> (nat \<Rightarrow> string) \<Rightarrow> (string \<Rightarrow> string \<Rightarrow> string) \<Rightarrow> bridge_engine \<Rightarrow> bool" where
  "poll_inv m home sh e \<longleftrightarrow> engine_wf m home e \<and> all_live e \<and>
     (\<forall>p r c. map_of (panes e) p = Some r \<longrightarrow> c \<in> set (subscribers (watchers e r)) \<longrightarrow>
        sh c p = lastOutput (watchers e r))"

lemma poll_pane_sync:
  assumes inv: "poll_inv m home sh e" and pane: "map_of (panes e) p = Some r"
    and poll: "poll_pane m e p r res = (e', calls)"
  shows "poll_inv m home (show_calls sh calls) e'"
proof (cases "\<exists>out mode chunk. res = Inr out \<and>
    computeDelta (lastOutput (watchers e r)) out = Some (mode, chunk)")
  case False
  then have "e' = e" and "delivered c q calls = []" for c q
    using poll by (auto simp: poll_pane_def Let_def split: sum.splits option.splits)
  then show ?thesis using inv by (simp add: poll_inv_def show_calls_def)
next
  case True
  then obtain out mode chunk where res: "res = Inr out"
    and cd: "computeDelta (lastOutput (watchers e r)) out = Some (mode, chunk)" by blast
  have wfe: "engine_wf m home e" using inv by (simp add: poll_inv_def)
  obtain lg where lg: "watcher_log m p lg (watchers e r)" and r: "r < next_ref e" "home r = p"
    using engine_wf_watcher [OF wfe pane] by blast
  obtain ev w where ne: "nextEvent m ((watchers e r)\<lparr>lastOutput := out\<rparr>) p mode chunk = (ev, w)"
    by (cases "nextEvent m ((watchers e r)\<lparr>lastOutput := out\<rparr>) p mode chunk")
  have ev: "apply_event (lastOutput (watchers e r)) ev = out"
    using ne computeDelta_render [OF cd] by (auto simp: nextEvent_def Let_def)
  note w = watcher_log_nextEvent [OF lg ne ev]
  have e': "e' = e\<lparr>watchers := (watchers e)(r := w)\<rparr>" and calls: "calls = map (\<lambda>c. OnOutput c ev) (subscribers w)"
    using poll res cd ne by (auto simp: poll_pane_def Let_def)
  have del: "delivered c q calls = (if c \<in> set (subscribers w) \<and> q = p then [ev] else [])" for c q
    unfolding calls by (simp add: delivered_broadcast watcher_log_distinct [OF w(1)] w(4))
  have inj: "map_of (panes e) q = Some r \<Longrightarrow> q = p" for q
    using engine_wf_refs_inj [OF wfe _ pane] by blast
  have "engine_wf m home e'" using poll_pane_wf(1) [OF wfe r poll] .
  moreover have "all_live e'"
    using inv e' w(1) by (auto simp: poll_inv_def all_live_def watcher_log_def)
  moreover have "show_calls sh calls c q = lastOutput (watchers e' r')"
    if q: "map_of (panes e') q = Some r'" and c: "c \<in> set (subscribers (watchers e' r'))" for q r' c
  proof (cases "r' = r")
    case True
    then have "q = p" using inj q e' by simp
    then show ?thesis
      using True c e' w(2,3) del ev inv pane by (simp add: poll_inv_def show_calls_def)
  next
    case False
    then have "q \<noteq> p" using q e' pane by auto
    then show ?thesis using False q c e' del inv by (simp add: poll_inv_def show_calls_def)
  qed
  ultimately show ?thesis by (simp add: poll_inv_def)
qed

lemma poll_panes_sync:
  assumes "poll_inv m home sh e" and "\<forall>(p, r) \<in> set entries. map_of (panes e) p = Some r"
    and "poll_panes m capture e entries = (e', calls)"
  shows "poll_inv m home (show_calls sh calls) e' \<and> panes e' = panes e"
  using assms
proof (induction entries arbitrary: e sh e' calls)
  case Nil
  then show ?case by (simp add: poll_inv_def show_calls_def)
next
  case (Cons pr rest)
  obtain p r where pr: "pr = (p, r)" by (cases pr)
  obtain e1 c1 where one: "poll_pane m e p r (capture p) = (e1, c1)" by (metis surj_pair)
  obtain e2 c2 where more: "poll_panes m capture e1 rest = (e2, c2)" by (metis surj_pair)
  have res: "e' = e2" "calls = c1 @ c2" using Cons.prems(3) pr one more by auto
  have pane: "map_of (panes e) p = Some r" using Cons.prems(2) pr by simp
  have wfe: "engine_wf m home e" using Cons.prems(1) by (simp add: poll_inv_def)
  have pn: "panes e1 = panes e"
    using poll_pane_wf(3) [OF wfe _ _ one] engine_wf_watcher [OF wfe pane] by blast
  have "poll_inv m home (show_calls sh c1) e1" by (rule poll_pane_sync [OF Cons.prems(1) pane one])
  from Cons.IH [OF this _ more] have "poll_inv m home (show_calls (show_calls sh c1) c2) e2 \<and> panes e2 = panes e1"
    using Cons.prems(2) pn by simp
  moreover have "show_calls (show_calls sh c1) c2 = show_calls sh calls"
    using res by (intro ext) (simp add: show_calls_def)
  ultimately show ?case using res pn by simp
qed

lemma isPolling_poll_panes: "poll_panes m capture e entries = (e', calls) \<Longrightarrow> isPolling e' = isPolling e"
  by (induction entries arbitrary: e e' calls)
    (auto split: prod.splits dest: isPolling_poll_pane)

lemma sync_poll:
  assumes inv: "sync_inv m s" and poll: "pollOnce m capture (eng s) = (e, calls)"
  shows "sync_inv m (s\<lparr>eng := e, shown := show_calls (shown s) calls\<rparr>)"
proof -
  obtain home where h: "engine_wf m home (eng s)" and live: "all_live (eng s)" and sync: "in_sync s"
    and np: "\<not> isPolling (eng s)" using inv by (rule sync_invE)
  show ?thesis
  proof (cases "panes (eng s) = []")
    case True
    then have "e = eng s" "calls = []" using poll by (auto simp: pollOnce_def poll_begin_def)
    then show ?thesis using inv by (simp add: sync_inv_def in_sync_def show_calls_def)
  next
    case False
    let ?e = "(eng s)\<lparr>isPolling := True\<rparr>"
    obtain e2 where pp: "poll_panes m capture ?e (panes (eng s)) = (e2, calls)" and e: "e = poll_end e2"
      using poll np False by (auto simp: pollOnce_def poll_begin_def split: prod.splits)
    have "poll_inv m home (shown s) ?e"
      using h live sync by (auto simp: poll_inv_def all_live_def in_sync_def)
    moreover have "\<forall>(p, r) \<in> set (panes (eng s)). map_of (panes ?e) p = Some r"
      using h by (auto simp: engine_wf_def)
    ultimately have "poll_inv m home (show_calls (shown s) calls) e2"
      using poll_panes_sync pp by blast
    then have "engine_wf m home e" and "all_live e"
      and "in_sync (s\<lparr>eng := e, shown := show_calls (shown s) calls\<rparr>)" and "\<not> isPolling e"
      using e by (simp_all add: poll_inv_def in_sync_def all_live_def poll_end_def)
    then show ?thesis by (auto simp: sync_inv_def)
  qed
qed

lemma sync_inv_init: "sync_inv m init_sys"
  by (auto simp: sync_inv_def init_sys_def engine_wf_new all_live_def in_sync_def)
    (simp_all add: new_engine_def)

lemma sync_inv_step: "atomic_step m s t \<Longrightarrow> sync_inv m s \<Longrightarrow> sync_inv m t"
proof (induction rule: atomic_step.induct)
  case (atomic_attach s c p since capture e calls res)
  then show ?case
    by (cases "map_of (panes (eng s)) p") (auto intro: sync_attach_new sync_attach_live)
qed (auto intro: sync_detach sync_detachAll sync_poll)

lemma atomic_reach_sync: "atomic_reach m s \<Longrightarrow> sync_inv m s"
  by (induction rule: atomic_reach.induct) (auto intro: sync_inv_init sync_inv_step)

end
