(* ===== verification/Engine_Guarantees.thy ===== *)
theory Engine_Guarantees
  imports Engine_Sync
begin

text \<open>
  The guarantees of the polling bridge engine: what holds of every watcher in every interleaving,
  what a subscribed client shows when operations do not interleave, which attaches replay, what a
  failed attach and a disconnect leave behind, and two runs in which a client's screen departs
  from the pane.
\<close>

section \<open>Consequences of the watcher log\<close>

lemma drop_upto_int: "drop k [i..j] = [i + int k..j]"
  by (rule nth_equalityI) (simp_all add: nth_upto)

lemma watcher_log_history_numbers:
  assumes "watcher_log m p lg w"
  shows "map ev_streamSeq (history w) = [streamSeq w - int (length (history w)) + 1..streamSeq w]"
    and "int (length (history w)) = min (streamSeq w) (max 0 m)"
proof -
  let ?k = "length lg - nat m"
  have h: "history w = drop ?k lg" and seq: "streamSeq w = int (length lg)"
    and nums: "map ev_streamSeq lg = [1..int (length lg)]"
    using assms by (auto simp: watcher_log_def)
  have len: "int (length (history w)) = int (length lg) - int ?k" using h by simp
  have "map ev_streamSeq (history w) = drop ?k [1..int (length lg)]"
    using h nums by (metis drop_map)
  also have "\<dots> = [int ?k + 1..int (length lg)]"
    by (simp add: drop_upto_int add.commute)
  finally show "map ev_streamSeq (history w) = [streamSeq w - int (length (history w)) + 1..streamSeq w]"
    using len seq by simp
  show "int (length (history w)) = min (streamSeq w) (max 0 m)"
    using len seq by (auto simp: min_def max_def)
qed

lemma engine_reach_watcher:
  assumes "engine_reach m s" and "map_of (panes (eng s)) p = Some r"
  obtains lg where "watcher_log m p lg (watchers (eng s) r)"
proof -
  obtain home where "engine_wf m home (eng s)" using engine_reach_inv [OF assms(1)] by (rule sys_invE)
  then show thesis using engine_wf_watcher assms(2) that by blast
qed

section \<open>Every interleaving\<close>

text \<open>
  C3: whatever way attaches, detaches and polls interleave, the watcher of every watched pane keeps
  a history that is the last \<open>min streamSeq maxHistoryEvents\<close> events of its stream, numbered without
  a gap up to \<open>streamSeq\<close>, all of that pane; its subscribers are a set; and as long as nothing has
  been dropped, the history renders to the text last captured.
\<close>

theorem engine_history_contiguous:
  assumes "engine_reach m s" and "map_of (panes (eng s)) p = Some r"
  shows "map ev_streamSeq (history (watchers (eng s) r))
       = [streamSeq (watchers (eng s) r) - int (length (history (watchers (eng s) r))) + 1
          ..streamSeq (watchers (eng s) r)]
    \<and> int (length (history (watchers (eng s) r))) = min (streamSeq (watchers (eng s) r)) (max 0 m)
    \<and> (\<forall>ev \<in> set (history (watchers (eng s) r)). ev_paneId ev = p)
    \<and> distinct (subscribers (watchers (eng s) r))
    \<and> (streamSeq (watchers (eng s) r) \<le> m \<longrightarrow>
        render [] (history (watchers (eng s) r)) = lastOutput (watchers (eng s) r))"
proof -
  obtain lg where lg: "watcher_log m p lg (watchers (eng s) r)"
    using engine_reach_watcher assms by blast
  have "\<forall>ev \<in> set (history (watchers (eng s) r)). ev_paneId ev = p"
    and "streamSeq (watchers (eng s) r) \<le> m \<longrightarrow>
        render [] (history (watchers (eng s) r)) = lastOutput (watchers (eng s) r)"
    using lg by (auto simp: watcher_log_def dest: in_set_dropD)
  then show ?thesis
    using watcher_log_history_numbers [OF lg] watcher_log_distinct [OF lg] by blast
qed

section \<open>Whole operations are runs\<close>

text \<open>Between two whole operations no attach is in flight and no poll is running.\<close>

definition quiescent :: "engine_sys \<Rightarrow> bool" where
  "quiescent s \<longleftrightarrow> inflight s = [] \<and> polling s = None"

lemma show_calls_Nil [simp]: "show_calls sh [] = sh"
  by (simp add: show_calls_def fun_eq_iff)

lemma attach_reach:
  fixes capture :: "(string, string) result"
  assumes reach: "engine_reach m s" and q: "inflight s = []"
    and at: "attach m (eng s) c p since capture = (e, calls, res)"
  shows "engine_reach m (s\<lparr>eng := e, shown := show_calls (shown s) calls\<rparr>)"
proof -
  obtain e1 calls1 st where ab: "attach_begin (eng s) c p since = (e1, calls1 :: string engine_call list, st)"
    by (metis prod_cases3)
  show ?thesis
  proof (cases st)
    case (Attached md)
    then show ?thesis
      using at ab reach by (auto simp: attach_def intro: reach_step attach_now)
  next
    case (Capturing r req)
    have none: "calls1 = []" using ab Capturing
      by (auto simp: attach_begin_def Let_def split: prod.splits if_splits option.splits)
    define s1 where "s1 = s\<lparr>eng := e1, inflight := [(c, p, r, req)], shown := show_calls (shown s) []\<rparr>"
    have r1: "engine_reach m s1"
      using reach_step [OF reach attach_wait [OF ab [unfolded Capturing]]] none q by (simp add: s1_def)
    have fl: "(c, p, r, req) \<in> set (inflight s1)" by (simp add: s1_def)
    show ?thesis
    proof (cases capture)
      case (Inl err)
      have e: "e = attach_failed e1 c p r" "calls = []"
        using at ab Capturing Inl none by (auto simp: attach_def)
      show ?thesis using reach_step [OF r1 attach_err [OF fl]] q e by (cases s) (simp add: s1_def)
    next
      case (Inr snap)
      obtain md where ac: "attach_captured m e1 c p r req snap = (e, calls, md)"
        using at ab Capturing Inr none by (auto simp: attach_def split: prod.splits)
      have "attach_captured m (eng s1) c p r req snap = (e, calls, md)" using ac by (simp add: s1_def)
      from reach_step [OF r1 attach_ok [OF fl this]] show ?thesis
        using q by (cases s) (simp add: s1_def)
    qed
  qed
qed

lemma poll_panes_reach:
  assumes "engine_reach m s" and "polling s = Some entries"
    and "poll_panes m capture (eng s) entries = (e, calls)"
  shows "engine_reach m (s\<lparr>eng := e, polling := Some [], shown := show_calls (shown s) calls\<rparr>)"
  using assms
proof (induction entries arbitrary: s e calls)
  case Nil
  then show ?case by (cases s) (simp add: show_calls_Nil)
next
  case (Cons pr rest)
  obtain p r where pr: "pr = (p, r)" by (cases pr)
  obtain e1 c1 where one: "poll_pane m (eng s) p r (capture p) = (e1, c1)" by (metis surj_pair)
  obtain e2 c2 where more: "poll_panes m capture e1 rest = (e2, c2)" by (metis surj_pair)
  define s1 where "s1 = s\<lparr>eng := e1, polling := Some rest, shown := show_calls (shown s) c1\<rparr>"
  have "engine_reach m s1"
    using reach_step [OF Cons.prems(1) poll_next [OF Cons.prems(2) [unfolded pr] one]] by (simp add: s1_def)
  then have "engine_reach m (s1\<lparr>eng := e2, polling := Some [], shown := show_calls (shown s1) c2\<rparr>)"
    using Cons.IH [of s1] more by (simp add: s1_def)
  moreover have "show_calls (shown s1) c2 = show_calls (shown s) (c1 @ c2)"
    by (simp add: show_calls_def fun_eq_iff s1_def)
  moreover have "e = e2" "calls = c1 @ c2" using Cons.prems(3) pr one more by auto
  ultimately show ?case by (simp add: s1_def)
qed

lemma poll_reach:
  assumes reach: "engine_reach m s" and q: "polling s = None"
    and poll: "pollOnce m capture (eng s) = (e, calls)"
  shows "engine_reach m (s\<lparr>eng := e, shown := show_calls (shown s) calls\<rparr>)"
proof (cases "poll_begin (eng s)")
  case None
  then show ?thesis using poll reach by (cases s) (simp add: pollOnce_def show_calls_Nil)
next
  case (Some b)
  obtain e1 entries where b: "b = (e1, entries)" by (cases b)
  obtain e2 where pp: "poll_panes m capture e1 entries = (e2, calls)" and e: "e = poll_end e2"
    using poll Some b by (auto simp: pollOnce_def split: prod.splits)
  define s1 where "s1 = s\<lparr>eng := e1, polling := Some entries\<rparr>"
  have r1: "engine_reach m s1"
    using reach_step [OF reach poll_start [OF q Some [unfolded b]]] by (simp add: s1_def)
  define s2 where "s2 = s1\<lparr>eng := e2, polling := Some [], shown := show_calls (shown s1) calls\<rparr>"
  have "engine_reach m s2"
    using poll_panes_reach [OF r1, of entries capture e2 calls] pp by (simp add: s1_def s2_def)
  from reach_step [OF this poll_done] show ?thesis
    using q e by (cases s) (simp add: s1_def s2_def)
qed

lemma atomic_step_reach:
  "atomic_step m s t \<Longrightarrow> engine_reach m s \<Longrightarrow> quiescent s \<Longrightarrow> engine_reach m t \<and> quiescent t"
proof (induction rule: atomic_step.induct)
  case (atomic_attach s c p since capture e calls res)
  then show ?case using attach_reach [of m s c p since capture e calls res] by (simp add: quiescent_def)
next
  case (atomic_poll capture s e calls)
  then show ?case using poll_reach [of m s capture e calls] by (simp add: quiescent_def)
qed (auto simp: quiescent_def intro: reach_step detach_one detach_client)

lemma atomic_reach_engine_reach: "atomic_reach m s \<Longrightarrow> engine_reach m s \<and> quiescent s"
proof (induction rule: atomic_reach.induct)
  case atomic_init
  then show ?case using reach_init by (simp add: quiescent_def) (simp add: init_sys_def)
next
  case (atomic_next s t)
  then show ?case using atomic_step_reach by blast
qed

section \<open>Concrete runs\<close>

definition run_attach ::
  "int \<Rightarrow> string \<Rightarrow> string \<Rightarrow> jsnum option \<Rightarrow> (string, string) result \<Rightarrow> engine_sys \<Rightarrow> engine_sys" where
  "run_attach m c p since capture s =
     (let (e, calls, res) = attach m (eng s) c p since capture
      in s\<lparr>eng := e, shown := show_calls (shown s) calls\<rparr>)"

definition run_poll :: "int \<Rightarrow> (string \<Rightarrow> (string, string) result) \<Rightarrow> engine_sys \<Rightarrow> engine_sys" where
  "run_poll m capture s =
     (let (e, calls) = pollOnce m capture (eng s) in s\<lparr>eng := e, shown := show_calls (shown s) calls\<rparr>)"

lemma run_attach_reach:
  "atomic_reach m s \<Longrightarrow> valid_cursor m s c p since \<Longrightarrow> atomic_reach m (run_attach m c p since capture s)"
  unfolding run_attach_def Let_def
  by (auto split: prod.splits intro: atomic_next atomic_attach)

lemma run_poll_reach: "atomic_reach m s \<Longrightarrow> atomic_reach m (run_poll m capture s)"
  unfolding run_poll_def Let_def
  by (auto split: prod.splits intro: atomic_next atomic_poll)

lemma valid_cursor_None [simp]: "valid_cursor m s c p None"
  by (simp add: valid_cursor_def)

text \<open>Client \<open>A\<close> attaches to a pane that shows \<open>a\<close>; the next poll sees \<open>ab\<close>.\<close>

definition ab_run :: engine_sys where
  "ab_run = run_poll 2 (\<lambda>_. Inr ''ab'') (run_attach 2 ''A'' ''p'' None (Inr ''a'') init_sys)"

lemma ab_run_reach: "atomic_reach 2 ab_run"
  unfolding ab_run_def by (intro run_poll_reach run_attach_reach atomic_init) simp

lemmas engine_eval = run_attach_def run_poll_def attach_def attach_begin_def attach_watcher_def
  attach_captured_def attach_failed_def nextEvent_def pollOnce_def poll_begin_def poll_pane_def
  poll_end_def computeDelta_def ensureStarted_def stopIfIdle_def upd_watcher_def new_watcher_def
  new_engine_def init_sys_def detach_def startsWith_def sadd_def sdelete_def show_calls_def
  apply_event_def snapshot_event_def Let_def

lemma ab_run_facts:
  "map_of (panes (eng ab_run)) ''p'' = Some 0"
  "subscribers (watchers (eng ab_run) 0) = [''A'']"
  "lastOutput (watchers (eng ab_run) 0) = ''ab''"
  "streamSeq (watchers (eng ab_run) 0) = 2"
  "shown ab_run ''A'' ''p'' = ''ab''"
  by (simp_all add: ab_run_def engine_eval)

theorem engine_history_contiguous_witness:
  "engine_reach 2 ab_run \<and> map_of (panes (eng ab_run)) ''p'' = Some 0 \<and>
   int (length (history (watchers (eng ab_run) 0))) = min (streamSeq (watchers (eng ab_run) 0)) (max 0 2)"
  using engine_history_contiguous [of 2 ab_run "''p''" 0]
    atomic_reach_engine_reach [OF ab_run_reach] ab_run_facts(1) by blast

section \<open>Whole operations\<close>



lemma attach_begin_replay_exact:
  assumes lg: "watcher_log m p lg (watchers e1 r)" and aw: "attach_watcher e c p = (e1, r)"
    and live: "0 < streamSeq (watchers e1 r)" and n: "Option.bind since num_as_int = Some n"
  shows "\<exists>md. attach_begin e c p since =
      (ensureStarted e1,
       map (OnOutput c) (if max 0 (streamSeq (watchers e1 r) - max 0 m) \<le> n \<and> n < streamSeq (watchers e1 r)
          then replayed_events (watchers e1 r) n else [snapshot_event (watchers e1 r) p]),
       Attached md) \<and>
     (if max 0 (streamSeq (watchers e1 r) - max 0 m) \<le> n \<and> n < streamSeq (watchers e1 r)
      then map ev_streamSeq (replayed_events (watchers e1 r) n) = [n + 1..streamSeq (watchers e1 r)] \<and>
        md_replayUsed md \<and> md_replayedCount md = streamSeq (watchers e1 r) - n \<and>
        \<not> md_replayGapDetected md \<and> \<not> md_fallbackToSnapshot md
      else \<not> md_replayUsed md \<and> md_replayedCount md = 0 \<and> md_fallbackToSnapshot md \<and>
        (md_replayGapDetected md \<longleftrightarrow> n < streamSeq (watchers e1 r)))"
proof -
  let ?w = "watchers e1 r"
  have seq: "streamSeq ?w = int (length lg)" using lg by (simp add: watcher_log_def)
  have lo: "int (length lg - nat m) = max 0 (streamSeq ?w - max 0 m)" using seq by linarith
  have used: "replayed_events ?w n \<noteq> [] \<and> \<not> replay_gap ?w n \<longleftrightarrow>
      max 0 (streamSeq ?w - max 0 m) \<le> n \<and> n < streamSeq ?w"
    using replay_gap_iff [OF lg, of n] lo seq by simp
  show ?thesis
  proof (cases "max 0 (streamSeq ?w - max 0 m) \<le> n \<and> n < streamSeq ?w")
    case True
    have nums: "map ev_streamSeq (replayed_events ?w n) = [n + 1..streamSeq ?w]"
      using watcher.resume_numbers [OF lg, of n] True lo seq
      by (simp add: replayed_events_def history_by_seq_def)
    then have "length (replayed_events ?w n) = nat (streamSeq ?w - n)"
      by (metis length_map length_upto add_diff_cancel_right diff_add_eq)
    then show ?thesis
      using True used nums aw live n
      by (auto simp: attach_begin_def Let_def attach_metadata_def)
  next
    case False
    have "replay_gap ?w n \<longleftrightarrow> n < streamSeq ?w"
    proof (cases "replayed_events ?w n")
      case Nil
      then show ?thesis by (simp add: replay_gap_def)
    next
      case (Cons ev evs)
      then have "ev \<in> set (replayed_events ?w n)" by simp
      then have "ev \<in> set lg" and "n < ev_streamSeq ev"
        by (metis replayed_events_log [OF lg] in_set_dropD) (use Cons in \<open>auto simp: replayed_events_def filter_eq_Cons_iff\<close>)
      moreover have "\<forall>ev \<in> set lg. ev_streamSeq ev \<le> int (length lg)"
        using lg unfolding watcher_log_def by (metis atLeastAtMost_iff image_eqI image_set set_upto)
      ultimately have "n < streamSeq ?w" using seq by fastforce
      then show ?thesis using False used Cons by auto
    qed
    then show ?thesis
      using False used aw live n
      by (auto simp: attach_begin_def Let_def attach_metadata_def)
  qed
qed

text \<open>
  C18: in every reachable state, an attach with cursor \<open>n\<close> to a pane whose watcher has events replays
  exactly when the cursor is behind and the event after it is still retained. It then delivers
  the events numbered \<open>n + 1\<close> to \<open>streamSeq\<close> and reports that count; otherwise it delivers one
  snapshot of the last output numbered \<open>streamSeq\<close> and reports a gap exactly when the cursor is
  behind. In both cases the polling timer runs and no capture is started.
\<close>

theorem attach_replay_exact:
  assumes "engine_reach m s" and "map_of (panes (eng s)) p = Some r"
    and "0 < streamSeq (watchers (eng s) r)" and "Option.bind since num_as_int = Some n"
    and "attach_begin (eng s) c p since = (e, calls, st)"
  shows "\<exists>md. st = Attached md \<and> pollTimer e \<and>
     (if max 0 (streamSeq (watchers (eng s) r) - max 0 m) \<le> n \<and> n < streamSeq (watchers (eng s) r)
      then (\<exists>evs. calls = map (OnOutput c) evs \<and> set evs \<subseteq> set (history (watchers (eng s) r)) \<and>
             map ev_streamSeq evs = [n + 1..streamSeq (watchers (eng s) r)]) \<and>
        md_replayUsed md \<and> md_replayedCount md = streamSeq (watchers (eng s) r) - n \<and>
        \<not> md_replayGapDetected md \<and> \<not> md_fallbackToSnapshot md
      else calls = [OnOutput c \<lparr>ev_mode = Snapshot, ev_paneId = p,
             ev_chunk = lastOutput (watchers (eng s) r), ev_streamSeq = streamSeq (watchers (eng s) r)\<rparr>] \<and>
        \<not> md_replayUsed md \<and> md_replayedCount md = 0 \<and> md_fallbackToSnapshot md \<and>
        (md_replayGapDetected md \<longleftrightarrow> n < streamSeq (watchers (eng s) r)))"
proof -
  let ?w = "watchers (eng s) r" and ?w1 = "\<lambda>w. w\<lparr>subscribers := sadd (subscribers w) c\<rparr>"
  obtain lg where lg: "watcher_log m p lg ?w" using engine_reach_watcher assms(1,2) by blast
  define e1 where "e1 = upd_watcher r ?w1 (eng s)"
  have aw: "attach_watcher (eng s) c p = (e1, r)"
    using assms(2) by (simp add: attach_watcher_def e1_def)
  have w1: "watchers e1 r = ?w1 ?w" by (simp add: e1_def upd_watcher_def)
  have lg1: "watcher_log m p lg (watchers e1 r)"
    unfolding w1 using lg watcher_log_distinct [OF lg] by (auto intro!: watcher_log_subscribers)
  have sub: "set (replayed_events (watchers e1 r) n) \<subseteq> set (history ?w)"
    by (auto simp: replayed_events_def history_by_seq_def w1)
  have pt: "pollTimer (ensureStarted e1)" by (simp add: ensureStarted_def)
  note ex = attach_begin_replay_exact [OF lg1 aw _ assms(4), where ?'a = 'a]
  show ?thesis
    using ex assms(3,5) sub pt by (auto simp: w1 snapshot_event_def split: if_splits)
qed

text \<open>Client \<open>B\<close> resumes on the pane of \<open>ab_run\<close> after event 1 and gets event 2 as a delta.\<close>

theorem attach_replay_exact_witness:
  "\<exists>md. engine_reach 2 ab_run \<and>
     snd (snd (attach_begin (eng ab_run) ''B'' ''p'' (Some (Fin 1)) ::
       bridge_engine \<times> string engine_call list \<times> attach_state)) = Attached md \<and>
     md_replayUsed md \<and> md_replayedCount md = 1"
proof -
  obtain e calls st where ab: "attach_begin (eng ab_run) ''B'' ''p'' (Some (Fin 1))
      = (e, calls :: string engine_call list, st)" by (metis prod_cases3)
  show ?thesis
    using attach_replay_exact [of 2 ab_run "''p''" 0 "Some (Fin 1)" 1 "''B''" e calls st]
      atomic_reach_engine_reach [OF ab_run_reach] ab_run_facts ab by auto
qed

section \<open>Failed attaches and disconnects\<close>

lemma mdelete_mput: "p \<notin> fst ` set ps \<Longrightarrow> mdelete (mput ps p r) p = ps"
  by (induction ps) auto

text \<open>
  A first attach whose capture fails changes nothing that can be observed: the watched panes are
  those from before, with the same watchers, nobody is called, the error is passed on, and the
  polling timer keeps running exactly when other panes are watched.
\<close>

theorem failed_attach_rolls_back:
  assumes "map_of (panes e) p = None" and "\<forall>q r. map_of (panes e) q = Some r \<longrightarrow> r < next_ref e"
    and "attach m e c p since (Inl err) = (e', calls, res)"
  shows "panes e' = panes e \<and> calls = [] \<and> res = Inl err
    \<and> (\<forall>q r. map_of (panes e) q = Some r \<longrightarrow> watchers e' r = watchers e r)
    \<and> (pollTimer e' \<longleftrightarrow> pollTimer e \<and> panes e \<noteq> [])"
proof -
  let ?r = "next_ref e"
  let ?e1 = "e\<lparr>panes := mput (panes e) p ?r,
      watchers := (watchers e)(?r := new_watcher\<lparr>subscribers := [c]\<rparr>), next_ref := Suc ?r\<rparr>"
  have "attach_watcher e c p = (?e1, ?r)"
    using assms(1) by (simp add: attach_watcher_def Let_def upd_watcher_def new_watcher_def sadd_def)
  then have "attach_begin e c p since = (?e1, [] :: 'a engine_call list, Capturing ?r (Option.bind since num_as_int))"
    by (simp add: attach_begin_def Let_def new_watcher_def)
  then have e': "e' = attach_failed ?e1 c p ?r" and "calls = []" "res = Inl err"
    using assms(3) by (auto simp: attach_def)
  moreover have del: "mdelete (mput (panes e) p ?r) p = panes e"
    using assms(1) by (auto intro!: mdelete_mput simp: map_of_eq_None_iff)
  moreover have "e' = stopIfIdle (e\<lparr>next_ref := Suc ?r, watchers := (watchers e)(?r := new_watcher),
      panes := mdelete (mput (panes e) p ?r) p\<rparr>)"
    using e' by (simp add: attach_failed_def Let_def upd_watcher_def sdelete_def new_watcher_def)
  then have "panes e' = panes e" and "watchers e' = (watchers e)(?r := new_watcher)"
    and "pollTimer e' \<longleftrightarrow> pollTimer e \<and> panes e \<noteq> []"
    unfolding del by (simp_all add: stopIfIdle_def) blast
  moreover have "\<forall>q r. map_of (panes e) q = Some r \<longrightarrow> r \<noteq> ?r" using assms(2) by blast
  ultimately show ?thesis by simp
qed

theorem failed_attach_rolls_back_witness:
  "panes (fst (attach 2 (eng ab_run) ''B'' ''q'' None (Inl ''no such pane''))) = panes (eng ab_run)"
proof -
  obtain e calls res where at: "attach 2 (eng ab_run) ''B'' ''q'' None (Inl ''no such pane'') = (e, calls, res)"
    by (metis prod_cases3)
  have q: "map_of (panes (eng ab_run)) ''q'' = None"
    and refs: "\<forall>q r. map_of (panes (eng ab_run)) q = Some r \<longrightarrow> r < next_ref (eng ab_run)"
    by (simp_all add: ab_run_def engine_eval)
  show ?thesis using failed_attach_rolls_back [OF q refs at] at by simp
qed

lemma detach_Some:
  assumes "map_of (panes e) p = Some r0"
  shows "panes (detach e c p) = (if set (subscribers (watchers e r0)) \<subseteq> {c} then mdelete (panes e) p else panes e)"
    and "watchers (detach e c p) = (watchers e)(r0 := (watchers e r0)\<lparr>subscribers := sdelete (subscribers (watchers e r0)) c\<rparr>)"
proof -
  have "sdelete (subscribers (watchers e r0)) c = [] \<longleftrightarrow> set (subscribers (watchers e r0)) \<subseteq> {c}"
    by (auto simp: sdelete_def filter_empty_conv)
  then show "panes (detach e c p) = (if set (subscribers (watchers e r0)) \<subseteq> {c} then mdelete (panes e) p else panes e)"
    "watchers (detach e c p) = (watchers e)(r0 := (watchers e r0)\<lparr>subscribers := sdelete (subscribers (watchers e r0)) c\<rparr>)"
    using assms by (simp_all add: detach_def Let_def stopIfIdle_def upd_watcher_def)
qed

lemma detach_None: "map_of (panes e) p = None \<Longrightarrow> detach e c p = e"
  by (simp add: detach_def)

lemma detach_lookup:
  "map_of (panes (detach e c p)) q = (case map_of (panes e) q of None \<Rightarrow> None
     | Some r \<Rightarrow> if q = p \<and> set (subscribers (watchers e r)) \<subseteq> {c} then None else Some r)"
proof (cases "map_of (panes e) p")
  case None
  then show ?thesis by (auto simp: detach_None split: option.splits)
next
  case (Some r0)
  then show ?thesis by (auto simp: detach_Some(1) [OF Some] delete_conv' split: option.splits)
qed

lemma detach_absent:
  assumes wf: "engine_wf m home e" and q: "map_of (panes e) q = Some r"
  shows "set (subscribers (watchers (detach e c p) r)) =
      (if q = p then set (subscribers (watchers e r)) - {c} else set (subscribers (watchers e r)))"
proof (cases "map_of (panes e) p")
  case None
  then show ?thesis using q by (auto simp: detach_None)
next
  case (Some r0)
  have "r = r0 \<longleftrightarrow> q = p" using engine_wf_refs_inj [OF wf] q Some by auto
  then show ?thesis by (auto simp: detach_Some(2) [OF Some])
qed

lemma detach_fold:
  "engine_wf m home e \<Longrightarrow>
   map_of (panes (fold (\<lambda>p e'. detach e' c p) ps e)) q = (case map_of (panes e) q of None \<Rightarrow> None
      | Some r \<Rightarrow> if q \<in> set ps \<and> set (subscribers (watchers e r)) \<subseteq> {c} then None else Some r) \<and>
   (\<forall>r. map_of (panes (fold (\<lambda>p e'. detach e' c p) ps e)) q = Some r \<longrightarrow>
      set (subscribers (watchers (fold (\<lambda>p e'. detach e' c p) ps e) r)) =
      (if q \<in> set ps then set (subscribers (watchers e r)) - {c} else set (subscribers (watchers e r))))"
proof (induction ps arbitrary: e)
  case Nil
  then show ?case by (auto split: option.splits)
next
  case (Cons p ps)
  note ih = Cons.IH [OF detach_wf(1) [OF Cons.prems, of c p]]
  show ?case
  proof (cases "map_of (panes e) q")
    case None
    then show ?thesis using ih detach_lookup [of e c p q] by simp
  next
    case (Some r)
    then show ?thesis
      using ih detach_lookup [of e c p q] detach_absent [OF Cons.prems Some, of c p]
      by (auto split: if_splits)
  qed
qed

lemma fold_detach_timer:
  "panes (fold (\<lambda>p e'. detach e' c p) ps e) = [] \<Longrightarrow> panes e \<noteq> [] \<Longrightarrow>
    \<not> pollTimer (fold (\<lambda>p e'. detach e' c p) ps e)"
proof (induction ps arbitrary: e)
  case Nil
  then show ?case by simp
next
  case (Cons p ps)
  have off: "pollTimer e = False \<Longrightarrow> pollTimer (fold (\<lambda>p e'. detach e' c p) ps e) = False" for e
    by (induction ps arbitrary: e)
      (auto simp: detach_def Let_def stopIfIdle_def upd_watcher_def split: option.splits)
  show ?case
  proof (cases "panes (detach e c p) = []")
    case True
    then have "\<not> pollTimer (detach e c p)"
      using Cons.prems(2) by (auto simp: detach_def Let_def stopIfIdle_def upd_watcher_def split: option.splits if_splits)
    then show ?thesis using off by simp
  next
    case False
    then show ?thesis using Cons by simp
  qed
qed

text \<open>
  When a client disconnects, in whatever state, it is subscribed nowhere afterwards, every other
  subscription stays, a pane stays watched exactly when someone else is subscribed to it, and the
  polling timer is stopped if the last watched pane went away.
\<close>

theorem disconnect_unsubscribes:
  assumes "engine_reach m s"
  shows "(\<forall>p r. map_of (panes (detachAll (eng s) c)) p = Some r \<longleftrightarrow>
        map_of (panes (eng s)) p = Some r \<and> \<not> set (subscribers (watchers (eng s) r)) \<subseteq> {c}) \<and>
    (\<forall>p r. map_of (panes (detachAll (eng s) c)) p = Some r \<longrightarrow>
        set (subscribers (watchers (detachAll (eng s) c) r)) = set (subscribers (watchers (eng s) r)) - {c}) \<and>
    (panes (eng s) \<noteq> [] \<longrightarrow> panes (detachAll (eng s) c) = [] \<longrightarrow> \<not> pollTimer (detachAll (eng s) c))"
proof -
  obtain home where wf: "engine_wf m home (eng s)" using engine_reach_inv [OF assms] by (rule sys_invE)
  have mem: "map_of (panes (eng s)) p = Some r \<Longrightarrow> p \<in> set (map fst (panes (eng s)))" for p r
    by (metis image_set map_of_eq_None_iff option.distinct(1))
  show ?thesis
    using detach_fold [OF wf, of c "map fst (panes (eng s))"] mem
      fold_detach_timer [of c "map fst (panes (eng s))" "eng s"]
    unfolding detachAll_def by (auto split: option.splits if_splits)
qed

theorem disconnect_unsubscribes_witness:
  "engine_reach 2 ab_run \<and> map_of (panes (detachAll (eng ab_run) ''A'')) ''p'' = None"
proof -
  have r: "engine_reach 2 ab_run" using atomic_reach_engine_reach [OF ab_run_reach] by simp
  then have "map_of (panes (detachAll (eng ab_run) ''A'')) ''p'' \<noteq> Some r" for r
    using disconnect_unsubscribes [OF r, of "''A''"] ab_run_facts by (cases "r = 0") auto
  then show ?thesis using r by (cases "map_of (panes (detachAll (eng ab_run) ''A'')) ''p''") auto
qed

section \<open>Two runs in which a client departs from the pane\<close>

text \<open>
  Two clients whose first attaches to a pane overlap. \<open>A\<close> receives the snapshot \<open>a\<close>; the capture
  of \<open>B\<close> returns \<open>ab\<close> and is delivered to \<open>B\<close> alone, though it replaces the watcher's output.
  The next poll captures \<open>abc\<close> and sends both the delta \<open>c\<close>, and with nothing in flight any more
  \<open>A\<close> shows \<open>ac\<close> while the pane shows \<open>abc\<close>.
\<close>

theorem overlapping_first_attaches_diverge:
  "\<exists>s r. engine_reach 300 s \<and> quiescent s \<and> map_of (panes (eng s)) ''p'' = Some r \<and>
     ''A'' \<in> set (subscribers (watchers (eng s) r)) \<and>
     lastOutput (watchers (eng s) r) = ''abc'' \<and> shown s ''A'' ''p'' = ''ac''"
proof -
  define ev where "ev mode chunk n = \<lparr>ev_mode = mode, ev_paneId = ''p'', ev_chunk = chunk, ev_streamSeq = n\<rparr>"
    for mode chunk and n :: int
  define e where "e w started = \<lparr>panes = [(''p'', 0)], watchers = (\<lambda>_. new_watcher)(0 := w), next_ref = 1,
      pollTimer = started, isPolling = False\<rparr>" for w started
  let ?w1 = "new_watcher\<lparr>subscribers := [''A'']\<rparr>" and ?w2 = "new_watcher\<lparr>subscribers := [''A'', ''B'']\<rparr>"
  let ?w3 = "?w2\<lparr>lastOutput := ''a'', streamSeq := 1, history := [ev Snapshot ''a'' 1]\<rparr>"
  let ?w4 = "?w2\<lparr>lastOutput := ''ab'', streamSeq := 2, history := [ev Snapshot ''a'' 1, ev Snapshot ''ab'' 2]\<rparr>"
  let ?A = "(''A'', ''p'', 0, None)" and ?B = "(''B'', ''p'', 0, None)"
  define st where "st w started fl sh = \<lparr>eng = e w started, inflight = fl, polling = None, shown = sh\<rparr>"
    for w started fl sh
  define sh3 sh4 where "sh3 = show_calls (\<lambda>_ _. []) [OnOutput ''A'' (ev Snapshot ''a'' 1)]"
    and "sh4 = show_calls sh3 [OnOutput ''B'' (ev Snapshot ''ab'' 2)]"
  note evals = engine_eval e_def st_def ev_def fun_eq_iff
  have "attach_begin (eng init_sys) ''A'' ''p'' None = (e ?w1 False, [], Capturing 0 None)"
    by (simp add: evals)
  from reach_step [OF reach_init attach_wait [OF this]]
  have 1: "engine_reach 300 (st ?w1 False [?A] (\<lambda>_ _. []))"
    by (simp add: init_sys_def st_def)
  have "attach_begin (eng (st ?w1 False [?A] (\<lambda>_ _. []))) ''B'' ''p'' None = (e ?w2 False, [], Capturing 0 None)"
    by (simp add: evals)
  from reach_step [OF 1 attach_wait [OF this]]
  have 2: "engine_reach 300 (st ?w2 False [?A, ?B] (\<lambda>_ _. []))"
    by (simp add: st_def)
  obtain md where "attach_captured 300 (eng (st ?w2 False [?A, ?B] (\<lambda>_ _. []))) ''A'' ''p'' 0 None ''a''
      = (e ?w3 True, [OnOutput ''A'' (ev Snapshot ''a'' 1) :: string engine_call], md)"
    by (simp add: evals)
  from reach_step [OF 2 attach_ok [OF _ this]]
  have 3: "engine_reach 300 (st ?w3 True [?B] sh3)"
    by (simp add: st_def sh3_def)
  obtain md where "attach_captured 300 (eng (st ?w3 True [?B] sh3)) ''B'' ''p'' 0 None ''ab''
      = (e ?w4 True, [OnOutput ''B'' (ev Snapshot ''ab'' 2) :: string engine_call], md)"
    by (simp add: evals)
  from reach_step [OF 3 attach_ok [OF _ this]]
  have 4: "engine_reach 300 (st ?w4 True [] sh4)"
    by (simp add: st_def sh4_def)
  define s where "s = run_poll 300 (\<lambda>_. Inr ''abc'') (st ?w4 True [] sh4)"
  have "engine_reach 300 s"
    unfolding s_def run_poll_def Let_def using poll_reach [OF 4]
    by (auto simp: st_def split: prod.splits)
  moreover have "quiescent s \<and> map_of (panes (eng s)) ''p'' = Some 0 \<and>
     ''A'' \<in> set (subscribers (watchers (eng s) 0)) \<and>
     lastOutput (watchers (eng s) 0) = ''abc'' \<and> shown s ''A'' ''p'' = ''ac''"
    by (simp add: s_def evals sh4_def sh3_def quiescent_def)
  ultimately show ?thesis by blast
qed

text \<open>
  A cursor of an earlier watcher of the same pane. \<open>A\<close> attaches while the pane shows \<open>x\<close> (event
  1) and leaves; the watcher is dropped. \<open>B\<close> attaches while the pane shows \<open>y\<close>, the first event of
  a new watcher, and a poll sees \<open>yz\<close>. When \<open>A\<close> returns with its cursor 1, the engine reports a
  gapless replay and sends the delta \<open>z\<close> only: \<open>A\<close> shows \<open>xz\<close> while the pane shows \<open>yz\<close>.
\<close>

definition stale_run :: engine_sys where
  "stale_run =
     run_poll 300 (\<lambda>_. Inr ''yz'')
       (run_attach 300 ''B'' ''p'' None (Inr ''y'')
         ((run_attach 300 ''A'' ''p'' None (Inr ''x'') init_sys)
            \<lparr>eng := detach (eng (run_attach 300 ''A'' ''p'' None (Inr ''x'') init_sys)) ''A'' ''p''\<rparr>))"

theorem stale_cursor_replays_wrongly:
  "atomic_reach 300 stale_run \<and>
   (\<exists>e md r. attach 300 (eng stale_run) ''A'' ''p'' (Some (Fin 1)) (Inl ''unused'') =
       (e, [OnOutput ''A'' \<lparr>ev_mode = Delta, ev_paneId = ''p'', ev_chunk = ''z'', ev_streamSeq = 2\<rparr>], Inr md) \<and>
     md_replayUsed md \<and> \<not> md_replayGapDetected md \<and>
     map_of (panes e) ''p'' = Some r \<and> lastOutput (watchers e r) = ''yz'' \<and>
     shown (run_attach 300 ''A'' ''p'' (Some (Fin 1)) (Inl ''unused'') stale_run) ''A'' ''p'' = ''xz'')"
proof
  show "atomic_reach 300 stale_run"
    unfolding stale_run_def
    by (intro run_poll_reach run_attach_reach atomic_init valid_cursor_None
        atomic_next [OF _ atomic_detach])
  have floor1: "num_as_int (Fin 1) = Some 1" by simp
  show "\<exists>e md r. attach 300 (eng stale_run) ''A'' ''p'' (Some (Fin 1)) (Inl ''unused'') =
       (e, [OnOutput ''A'' \<lparr>ev_mode = Delta, ev_paneId = ''p'', ev_chunk = ''z'', ev_streamSeq = 2\<rparr>], Inr md) \<and>
     md_replayUsed md \<and> \<not> md_replayGapDetected md \<and>
     map_of (panes e) ''p'' = Some r \<and> lastOutput (watchers e r) = ''yz'' \<and>
     shown (run_attach 300 ''A'' ''p'' (Some (Fin 1)) (Inl ''unused'') stale_run) ''A'' ''p'' = ''xz''"
    by (simp add: stale_run_def engine_eval replayed_events_def replay_gap_def history_by_seq_def
        attach_metadata_def)
qed

end
