(* ===== verification/Runtime_Failures.thy ===== *)
theory Runtime_Failures
  imports Engine_Guarantees
begin

text \<open>
  Classification of failures for clients and the audit log,
  \<^verbatim>\<open>src/server/bridge-runtime-failures.ts\<close>. A thrown value is a \<open>jsval\<close>; \<open>String(error)\<close> is the
  parameter \<open>to_str\<close>.
\<close>

section \<open>Classifiers\<close>

record runtime_failure =
  rf_code :: string
  rf_reason :: string
  rf_recoverable :: bool
  rf_message :: string

record close_failure =
  cf_code :: string
  cf_reason :: string
  cf_recoverable :: bool

definition isTmuxSessionUnavailable :: "string \<Rightarrow> bool" where
  "isTmuxSessionUnavailable value \<longleftrightarrow>
     str_includes value ''no server running'' \<or> str_includes value ''error connecting to''
     \<or> str_includes value ''failed to connect to server''"

definition isTransportDrop :: "string \<Rightarrow> bool" where
  "isTransportDrop value \<longleftrightarrow>
     str_includes value ''broken pipe'' \<or> str_includes value ''connection reset''
     \<or> str_includes value ''connection closed'' \<or> str_includes value ''econnreset''
     \<or> str_includes value ''ehostunreach'' \<or> str_includes value ''econnrefused''
     \<or> str_includes value ''etimedout'' \<or> str_includes value ''timed out''"

definition extractErrorDetails :: "(jsval \<Rightarrow> string) \<Rightarrow> jsval \<Rightarrow> string \<times> string \<times> string" where
  "extractErrorDetails to_str error =
     (let props = (case error of JObj r \<Rightarrow> Some r | JArr _ \<Rightarrow> Some [] | _ \<Rightarrow> None)
      in case props of
           None \<Rightarrow> (to_str error, [], [])
         | Some r \<Rightarrow>
             ((case prop_of r ''message'' of JStr m \<Rightarrow> (if length m > 0 then m else to_str error)
               | _ \<Rightarrow> to_str error),
              (case prop_of r ''stderr'' of JStr m \<Rightarrow> m | _ \<Rightarrow> []),
              (case prop_of r ''code'' of JStr m \<Rightarrow> m | _ \<Rightarrow> [])))"

definition classifyBridgeRuntimeFailure :: "(jsval \<Rightarrow> string) \<Rightarrow> jsval \<Rightarrow> runtime_failure" where
  "classifyBridgeRuntimeFailure to_str error =
     (let (message, stderr, code) = extractErrorDetails to_str error;
          combined = toLowerCase (message @ [CHR 0x0A] @ stderr @ [CHR 0x0A] @ code)
      in if str_includes combined ''invalid_token'' \<or> str_includes combined ''auth_required'' then
           \<lparr>rf_code = ''auth_rejected'', rf_reason = ''invalid_token'', rf_recoverable = True, rf_message = message\<rparr>
         else if isTmuxSessionUnavailable combined then
           \<lparr>rf_code = ''runtime_session_unavailable'', rf_reason = ''tmux_session_unavailable'',
            rf_recoverable = True, rf_message = message\<rparr>
         else if isTransportDrop combined then
           \<lparr>rf_code = ''transport_drop'', rf_reason = ''transport_closed'', rf_recoverable = True,
            rf_message = message\<rparr>
         else if str_includes combined ''unknown runtime backend'' then
           \<lparr>rf_code = ''invalid_pane_target'', rf_reason = ''unknown_runtime_backend'', rf_recoverable = False,
            rf_message = message\<rparr>
         else if str_includes combined ''must be namespaced'' then
           \<lparr>rf_code = ''invalid_pane_target'', rf_reason = ''invalid_namespaced_pane_id'',
            rf_recoverable = False, rf_message = message\<rparr>
         else
           \<lparr>rf_code = ''handler_failed'', rf_reason = ''internal_error'', rf_recoverable = False,
            rf_message = message\<rparr>)"

definition or_default :: "string \<Rightarrow> string \<Rightarrow> string" where
  "or_default s d = (if s = [] then d else s)"

definition classifyBridgeCloseFailure :: "int \<Rightarrow> string \<Rightarrow> close_failure" where
  "classifyBridgeCloseFailure code reason =
     (let normalizedReason = toLowerCase reason
      in if code = 1008 \<and> (str_includes normalizedReason ''auth'' \<or> str_includes normalizedReason ''token''
              \<or> str_includes normalizedReason ''credential'' \<or> str_includes normalizedReason ''permission'') then
           \<lparr>cf_code = ''auth_rejected'', cf_reason = or_default normalizedReason ''authentication rejected'',
            cf_recoverable = False\<rparr>
         else if code \<ge> 1001 \<and> code \<le> 1011 then
           \<lparr>cf_code = ''transport_closed'', cf_reason = or_default normalizedReason ''transport closed'',
            cf_recoverable = True\<rparr>
         else if code \<ge> 3000 \<and> code \<le> 3999 then
           \<lparr>cf_code = ''transport_closed'', cf_reason = or_default normalizedReason ''application close'',
            cf_recoverable = True\<rparr>
         else
           \<lparr>cf_code = ''normal'', cf_reason = or_default normalizedReason ''normal close'', cf_recoverable = False\<rparr>)"

definition classifyReplaySnapshotFallbackReason :: "replay_metadata \<Rightarrow> string" where
  "classifyReplaySnapshotFallbackReason md =
     (case md_requestedLastSeq md of
        None \<Rightarrow> ''empty_resume_window''
      | Some requested \<Rightarrow>
          (if requested > md_latestSeq md then ''ahead_of_stream''
           else if md_replayGapDetected md
             \<or> (case md_oldestHistorySeq md of None \<Rightarrow> False | Some oldest \<Rightarrow> requested < oldest - 1)
           then ''outside_retained_window''
           else ''empty_resume_window''))"

section \<open>Properties\<close>

text \<open>
  The reason reported for a resume that fell back to a snapshot describes the cursor exactly:
  ahead of the stream, older than what the engine still retains, or already up to date.
\<close>

theorem fallback_reason_exact:
  assumes "engine_reach m s" and "map_of (panes (eng s)) p = Some r"
    and "0 < streamSeq (watchers (eng s) r)" and "Option.bind since num_as_int = Some n"
    and "attach_begin (eng s) c p since = (e, calls, Attached md)" and "md_fallbackToSnapshot md"
  shows "classifyReplaySnapshotFallbackReason md =
    (if n > streamSeq (watchers (eng s) r) then ''ahead_of_stream''
     else if n < streamSeq (watchers (eng s) r) then ''outside_retained_window''
     else ''empty_resume_window'')"
proof -
  let ?w = "watchers (eng s) r" and ?w1 = "\<lambda>w. w\<lparr>subscribers := sadd (subscribers w) c\<rparr>"
  obtain lg where lg: "watcher_log m p lg ?w" using engine_reach_watcher assms(1,2) by blast
  define e1 where "e1 = upd_watcher r ?w1 (eng s)"
  have aw: "attach_watcher (eng s) c p = (e1, r)" using assms(2) by (simp add: attach_watcher_def e1_def)
  have w1: "watchers e1 r = ?w1 ?w" by (simp add: e1_def upd_watcher_def)
  have lg1: "watcher_log m p lg (watchers e1 r)"
    unfolding w1 using lg watcher_log_distinct [OF lg] by (auto intro!: watcher_log_subscribers)
  have gap: "md_replayGapDetected md \<longleftrightarrow> n < streamSeq ?w"
    using attach_begin_replay_exact [OF lg1 aw _ assms(4), where ?'a = 'a] assms(3,5,6)
    by (auto simp: w1 split: if_splits)
  have md: "md_requestedLastSeq md = Some n" "md_latestSeq md = streamSeq ?w"
    "md_oldestHistorySeq md = seq_at (history_by_seq (watchers e1 r)) 0"
    using assms(3,4,5) aw w1
    by (auto simp: attach_begin_def Let_def attach_metadata_def history_by_seq_def split: if_splits)
  have old: "oldest \<le> streamSeq ?w" if "md_oldestHistorySeq md = Some oldest" for oldest
  proof -
    from that md(3) obtain ev where ev: "ev \<in> set (history ?w)" "oldest = ev_streamSeq ev"
      by (auto simp: seq_at_def history_by_seq_def w1 split: if_splits)
        (metis length_sort nth_mem set_sort length_greater_0_conv)
    then have "oldest \<in> set (map ev_streamSeq (history ?w))" by simp
    then show ?thesis using watcher_log_history_numbers(1) [OF lg] by simp
  qed
  show ?thesis
    using md gap old by (auto simp: classifyReplaySnapshotFallbackReason_def split: option.splits)
qed

theorem fallback_reason_exact_witness:
  "\<exists>e calls md. attach_begin (eng ab_run) ''B'' ''p'' (Some (Fin 7)) = (e, calls :: string engine_call list, Attached md) \<and>
     md_fallbackToSnapshot md \<and> classifyReplaySnapshotFallbackReason md = ''ahead_of_stream''"
proof -
  have r: "engine_reach 2 ab_run" using atomic_reach_engine_reach [OF ab_run_reach] by simp
  have "\<exists>e md. attach_begin (eng ab_run) ''B'' ''p'' (Some (Fin 7)) =
      (e, [OnOutput ''B'' \<lparr>ev_mode = Snapshot, ev_paneId = ''p'', ev_chunk = ''ab'', ev_streamSeq = 2\<rparr> :: string engine_call],
       Attached md) \<and> md_fallbackToSnapshot md"
    by (simp add: ab_run_def engine_eval replayed_events_def replay_gap_def history_by_seq_def attach_metadata_def)
  then obtain e md calls where ab: "attach_begin (eng ab_run) ''B'' ''p'' (Some (Fin 7)) = (e, calls :: string engine_call list, Attached md)"
    and fb: "md_fallbackToSnapshot md" by blast
  have "classifyReplaySnapshotFallbackReason md = ''ahead_of_stream''"
    using fallback_reason_exact [OF r ab_run_facts(1) _ _ ab fb, of 7] ab_run_facts(4) by simp
  then show ?thesis using ab fb by blast
qed

end
