(* ===== verification/Tmux_Adapter.thy ===== *)
theory Tmux_Adapter
  imports Runtime_Failures
begin

text \<open>
  The local tmux adapter, \<^verbatim>\<open>src/tmux/tmux-adapter.ts\<close>, and the contract of every runtime backend that
  types text into panes.

  External programs are run by \<open>runCommand\<close>, which is outside the model: a \<open>runner\<close> says what the
  \<open>n\<close>-th command that is run returns (its standard output) or throws. The state of an adapter is the
  log of the commands it ran with their outcomes, and the flag an SSH adapter keeps.
\<close>

section \<open>Running commands\<close>

record command =
  c_program :: string
  c_args :: "string list"
  c_input :: "string option"
  c_timeout :: jsnum

type_synonym outcome = "(jsval, string) result"
type_synonym runner = "nat \<Rightarrow> command \<Rightarrow> outcome"

record shell =
  sh_log :: "(command \<times> outcome) list"
  sh_verified :: bool

definition run_command :: "runner \<Rightarrow> command \<Rightarrow> shell \<Rightarrow> shell \<times> outcome" where
  "run_command run c s =
     (let r = run (length (sh_log s)) c in (s\<lparr>sh_log := sh_log s @ [(c, r)]\<rparr>, r))"

text \<open>\<open>String(n)\<close> for an integer.\<close>

fun nat_digits :: "nat \<Rightarrow> string" where
  "nat_digits n = (if n < 10 then [char_of (48 + n)] else nat_digits (n div 10) @ [char_of (48 + n mod 10)])"

declare nat_digits.simps [simp del]

definition int_str :: "int \<Rightarrow> string" where
  "int_str i = (if i < 0 then ''-'' @ nat_digits (nat (- i)) else nat_digits (nat i))"

section \<open>Listing panes\<close>

definition TAB :: string where "TAB = [char_of (9 :: nat)]"

definition NL :: char where "NL = char_of (10 :: nat)"

definition PANE_FORMAT :: string where
  "PANE_FORMAT = join TAB [''#{session_name}'', ''#{window_index}'', ''#{window_name}'', ''#{pane_index}'',
     ''#{pane_id}'', ''#{pane_title}'', ''#{pane_current_command}'']"

record tmux_pane =
  tp_sessionName :: string
  tp_windowIndex :: jsnum
  tp_windowName :: string
  tp_paneIndex :: jsnum
  tp_paneId :: string
  tp_paneTitle :: string
  tp_currentCommand :: string

definition field :: "string list \<Rightarrow> nat \<Rightarrow> string option" where
  "field fs i = (if i < length fs then Some (fs ! i) else None)"

definition str_field :: "string list \<Rightarrow> nat \<Rightarrow> string" where
  "str_field fs i = (case field fs i of None \<Rightarrow> [] | Some s \<Rightarrow> s)"

definition int_field :: "string list \<Rightarrow> nat \<Rightarrow> jsnum" where
  "int_field fs i = (case field fs i of None \<Rightarrow> Fin 0
     | Some s \<Rightarrow> (case parseInt s of NaN \<Rightarrow> Fin 0 | n \<Rightarrow> n))"

definition parse_pane_line :: "string \<Rightarrow> tmux_pane option" where
  "parse_pane_line line =
     (let fs = split_on (hd TAB) line
      in if str_field fs 4 = [] then None
         else Some \<lparr>tp_sessionName = str_field fs 0, tp_windowIndex = int_field fs 1,
           tp_windowName = str_field fs 2, tp_paneIndex = int_field fs 3, tp_paneId = str_field fs 4,
           tp_paneTitle = str_field fs 5, tp_currentCommand = str_field fs 6\<rparr>)"

definition parse_panes :: "string \<Rightarrow> tmux_pane list" where
  "parse_panes out =
     List.map_filter parse_pane_line (filter (\<lambda>l. l \<noteq> []) (map trim (split_on NL out)))"

text \<open>
  The pattern \<^verbatim>\<open>/error connecting to .*default/i\<close>: the dot matches no line terminator.
\<close>

definition is_line_end :: "char \<Rightarrow> bool" where
  "is_line_end c \<longleftrightarrow> of_char c \<in> ({10, 13} :: nat set)"

fun connecting_error :: "string \<Rightarrow> bool" where
  "connecting_error [] = False"
| "connecting_error (c # s) =
     ((startsWith (c # s) ''error connecting to '' \<and>
       str_includes (takeWhile (\<lambda>x. \<not> is_line_end x) (drop 20 (c # s))) ''default'') \<or> connecting_error s)"

definition no_server_text :: "string \<Rightarrow> bool" where
  "no_server_text t \<longleftrightarrow> str_includes (toLowerCase t) ''no server running'' \<or> connecting_error (toLowerCase t)"

definition isNoServerError :: "(jsval \<Rightarrow> string) \<Rightarrow> jsval \<Rightarrow> bool" where
  "isNoServerError str error =
     (case error of
        JObj r \<Rightarrow> no_server_text (case prop_of r ''stderr'' of JUndef \<Rightarrow> [] | JNull \<Rightarrow> [] | JStr s \<Rightarrow> s | v \<Rightarrow> str v)
      | _ \<Rightarrow> False)"

section \<open>The adapter\<close>

type_synonym tmux_run = "string list \<Rightarrow> shell \<Rightarrow> shell \<times> outcome"

definition local_tmux :: "runner \<Rightarrow> jsnum \<Rightarrow> tmux_run" where
  "local_tmux run timeout args = run_command run \<lparr>c_program = ''tmux'', c_args = args, c_input = None, c_timeout = timeout\<rparr>"

definition default_timeout :: "jsnum option \<Rightarrow> jsnum" where
  "default_timeout t = (case t of None \<Rightarrow> Fin 6000 | Some v \<Rightarrow> v)"

definition tmux_isAvailable :: "tmux_run \<Rightarrow> shell \<Rightarrow> shell \<times> bool" where
  "tmux_isAvailable tmux s = (case tmux [''-V''] s of (t, Inr _) \<Rightarrow> (t, True) | (t, Inl _) \<Rightarrow> (t, False))"

definition tmux_listPanes :: "(jsval \<Rightarrow> bool) \<Rightarrow> tmux_run \<Rightarrow> shell \<Rightarrow> shell \<times> (jsval, tmux_pane list) result" where
  "tmux_listPanes no_server tmux s =
     (case tmux [''list-panes'', ''-a'', ''-F'', PANE_FORMAT] s of
        (t, Inl err) \<Rightarrow> (t, if no_server err then Inr [] else Inl err)
      | (t, Inr out) \<Rightarrow> (t, Inr (parse_panes out)))"

definition tmux_capturePane :: "tmux_run \<Rightarrow> string \<Rightarrow> int \<Rightarrow> shell \<Rightarrow> shell \<times> outcome" where
  "tmux_capturePane tmux paneId lines =
     tmux [''capture-pane'', ''-p'', ''-J'', ''-S'', int_str (min (-1) (- \<bar>lines\<bar>)), ''-t'', paneId]"

definition send_literal :: "tmux_run \<Rightarrow> string \<Rightarrow> string \<Rightarrow> shell \<Rightarrow> shell \<times> (jsval, unit) result" where
  "send_literal tmux paneId line s =
     (if line = [] then (s, Inr ())
      else (case tmux [''send-keys'', ''-t'', paneId, ''-l'', ''--'', line] s of
              (t, Inl err) \<Rightarrow> (t, Inl err) | (t, Inr _) \<Rightarrow> (t, Inr ())))"

text \<open>The loop over the lines; a carriage return follows every line but the last.\<close>

fun send_lines :: "tmux_run \<Rightarrow> string \<Rightarrow> string list \<Rightarrow> shell \<Rightarrow> shell \<times> (jsval, unit) result" where
  "send_lines tmux paneId [] s = (s, Inr ())"
| "send_lines tmux paneId [line] s = send_literal tmux paneId line s"
| "send_lines tmux paneId (line # line2 # rest) s =
     (case send_literal tmux paneId line s of
        (t, Inl err) \<Rightarrow> (t, Inl err)
      | (t, Inr _) \<Rightarrow>
          (case tmux [''send-keys'', ''-t'', paneId, ''C-m''] t of
             (u, Inl err) \<Rightarrow> (u, Inl err)
           | (u, Inr _) \<Rightarrow> send_lines tmux paneId (line2 # rest) u))"

definition tmux_sendInput :: "tmux_run \<Rightarrow> string \<Rightarrow> string \<Rightarrow> shell \<Rightarrow> shell \<times> (jsval, unit) result" where
  "tmux_sendInput tmux paneId rawInput = send_lines tmux paneId (split_on NL rawInput)"

section \<open>What a terminal receives\<close>

text \<open>
  The keys a tmux command types: literal text, or a line end for \<open>C-m\<close>. A command that failed types
  nothing.
\<close>

definition tmux_keys :: "string list \<Rightarrow> (string \<times> string) list" where
  "tmux_keys args =
     (case args of
        [sub, t, p, l, dashes, text] \<Rightarrow>
          (if sub = ''send-keys'' \<and> t = ''-t'' \<and> l = ''-l'' \<and> dashes = ''--'' then [(p, text)] else [])
      | [sub, t, p, key] \<Rightarrow> (if sub = ''send-keys'' \<and> t = ''-t'' \<and> key = ''C-m'' then [(p, [NL])] else [])
      | _ \<Rightarrow> [])"

text \<open>
  The contract of a backend that types: what a successful send adds to the keys typed is the input,
  into that pane; a send that fails has typed a prefix of it.
\<close>

locale input_backend =
  fixes send :: "string \<Rightarrow> string \<Rightarrow> 's \<Rightarrow> 's \<times> (jsval, unit) result"
    and keys :: "'s \<Rightarrow> (string \<times> string) list"
    and ready :: "'s \<Rightarrow> bool"
  assumes send_ok: "ready s \<Longrightarrow> send p d s = (t, Inr u) \<Longrightarrow>
      ready t \<and> (\<exists>cs. keys t = keys s @ map (Pair p) cs \<and> concat cs = d)"
    and send_err: "ready s \<Longrightarrow> send p d s = (t, Inl e) \<Longrightarrow>
      ready t \<and> (\<exists>cs rest. keys t = keys s @ map (Pair p) cs \<and> d = concat cs @ rest)"
begin

definition text_of :: "string \<Rightarrow> (string \<times> string) list \<Rightarrow> string" where
  "text_of p ks = concat (map snd (filter (\<lambda>k. fst k = p) ks))"

lemma text_of_append [simp]: "text_of p (a @ b) = text_of p a @ text_of p b"
  by (simp add: text_of_def)

lemma text_of_pane: "text_of p (map (Pair q) cs) = (if q = p then concat cs else [])"
  by (induction cs) (auto simp: text_of_def)

fun send_all :: "(string \<times> string) list \<Rightarrow> 's \<Rightarrow> 's \<times> (jsval, unit) result" where
  "send_all [] s = (s, Inr ())"
| "send_all ((p, d) # xs) s =
     (case send p d s of (t, Inl e) \<Rightarrow> (t, Inl e) | (t, Inr _) \<Rightarrow> send_all xs t)"

lemma send_all_types:
  "ready s \<Longrightarrow> send_all xs s = (t, Inr u) \<Longrightarrow>
   text_of p (keys t) = text_of p (keys s) @ concat (map snd (filter (\<lambda>x. fst x = p) xs))"
proof (induction xs arbitrary: s)
  case Nil
  then show ?case by simp
next
  case (Cons x xs)
  obtain q d where x: "x = (q, d)" by (cases x)
  obtain s1 r where one: "send q d s = (s1, r)" by (cases "send q d s")
  from Cons.prems(2) x one obtain v where r: "r = Inr v" and rest: "send_all xs s1 = (t, Inr u)"
    by (cases r) auto
  from send_ok [OF Cons.prems(1) one [unfolded r]] obtain cs where
    "ready s1" and k: "keys s1 = keys s @ map (Pair q) cs" and d: "concat cs = d" by blast
  from Cons.IH [OF this(1) rest] show ?case using k d x by (auto simp: text_of_pane)
qed

end

text \<open>
  A tmux command line, wherever it runs: a command that succeeds types the keys of its arguments, one
  that fails types none.
\<close>

locale tmux_transport =
  fixes tmux :: tmux_run
    and keys :: "shell \<Rightarrow> (string \<times> string) list"
    and ready :: "shell \<Rightarrow> bool"
  assumes run_ok: "ready s \<Longrightarrow> tmux args s = (t, Inr out) \<Longrightarrow> ready t \<and> keys t = keys s @ tmux_keys args"
    and run_err: "ready s \<Longrightarrow> tmux args s = (t, Inl e) \<Longrightarrow> ready t \<and> keys t = keys s"
begin

lemma send_literal_types:
  assumes "ready s" and "send_literal tmux p line s = (t, r)"
  shows "ready t \<and> keys t = keys s @ (case r of Inr _ \<Rightarrow> if line = [] then [] else [(p, line)] | Inl _ \<Rightarrow> [])"
proof (cases "line = []")
  case True
  then show ?thesis using assms by (auto simp: send_literal_def)
next
  case False
  obtain t' r' where one: "tmux [''send-keys'', ''-t'', p, ''-l'', ''--'', line] s = (t', r')"
    by (cases "tmux [''send-keys'', ''-t'', p, ''-l'', ''--'', line] s")
  show ?thesis
  proof (cases r')
    case (Inl e)
    then show ?thesis using assms False one run_err [OF assms(1)] by (auto simp: send_literal_def)
  next
    case (Inr out)
    then show ?thesis
      using assms False one run_ok [OF assms(1), of _ t' out] by (auto simp: send_literal_def tmux_keys_def)
  qed
qed

lemma enter_types:
  assumes "ready s" and "tmux [''send-keys'', ''-t'', p, ''C-m''] s = (t, r)"
  shows "ready t \<and> keys t = keys s @ (case r of Inr _ \<Rightarrow> [(p, [NL])] | Inl _ \<Rightarrow> [])"
  using assms run_ok [OF assms(1), of _ t] run_err [OF assms(1), of _ t] by (cases r) (auto simp: tmux_keys_def)

lemma send_lines_types:
  "ready s \<Longrightarrow> ls \<noteq> [] \<Longrightarrow> send_lines tmux p ls s = (t, r) \<Longrightarrow>
   ready t \<and> (\<exists>cs. keys t = keys s @ map (Pair p) cs \<and>
     (case r of Inr _ \<Rightarrow> concat cs = join [NL] ls | Inl _ \<Rightarrow> \<exists>rest. join [NL] ls = concat cs @ rest))"
proof (induction ls arbitrary: s rule: induct_list012)
  case (2 line)
  from send_literal_types [OF 2(1), of p line t r] 2(3) have "ready t"
    and k: "keys t = keys s @ (case r of Inr _ \<Rightarrow> if line = [] then [] else [(p, line)] | Inl _ \<Rightarrow> [])" by auto
  then show ?case
    by (cases r) (auto intro: exI [of _ "[line]"] exI [of _ "[]"])
next
  case (3 line line2 rest)
  obtain s1 r1 where one: "send_literal tmux p line s = (s1, r1)" by (cases "send_literal tmux p line s")
  note k1 = send_literal_types [OF 3(3) one]
  show ?case
  proof (cases r1)
    case (Inl e)
    then show ?thesis using 3(5) one k1 by (auto intro!: exI [of _ "[]"])
  next
    case (Inr u)
    obtain s2 r2 where two: "tmux [''send-keys'', ''-t'', p, ''C-m''] s1 = (s2, r2)"
      by (cases "tmux [''send-keys'', ''-t'', p, ''C-m''] s1")
    have "ready s1" using k1 by simp
    note k2 = enter_types [OF this two]
    let ?pre = "if line = [] then [] else [line]"
    have pre: "keys s1 = keys s @ map (Pair p) ?pre" using k1 Inr by auto
    show ?thesis
    proof (cases r2)
      case (Inl e)
      then have "t = s2" "r = Inl e" using 3(5) one Inr \<open>r1 = Inr u\<close> two by auto
      then show ?thesis using k2 pre Inl by (auto intro!: exI [of _ ?pre])
    next
      case (Inr v)
      then have tail: "send_lines tmux p (line2 # rest) s2 = (t, r)" using 3(5) one \<open>r1 = Inr u\<close> two by auto
      have "ready s2" using k2 by simp
      from 3(2) [OF this _ tail] obtain cs where
        "ready t" and cs: "keys t = keys s2 @ map (Pair p) cs"
        and c: "case r of Inr _ \<Rightarrow> concat cs = join [NL] (line2 # rest)
          | Inl _ \<Rightarrow> \<exists>rest'. join [NL] (line2 # rest) = concat cs @ rest'" by auto
      have "keys t = keys s @ map (Pair p) (?pre @ [[NL]] @ cs)" using cs k2 pre Inr by simp
      moreover have "concat (?pre @ [[NL]] @ cs) = line @ NL # concat cs" by simp
      ultimately show ?thesis using \<open>ready t\<close> c by (cases r) (auto intro!: exI [of _ "?pre @ [[NL]] @ cs"])
    qed
  qed
qed simp

end

sublocale tmux_transport \<subseteq> input_backend "tmux_sendInput tmux" keys ready
proof
  fix p d s t u
  assume "ready s" and "tmux_sendInput tmux p d s = (t, Inr u)"
  then show "ready t \<and> (\<exists>cs. keys t = keys s @ map (Pair p) cs \<and> concat cs = d)"
    using send_lines_types [of s "split_on NL d" p t "Inr u"] by (simp add: tmux_sendInput_def)
next
  fix p d s t e
  assume "ready s" and "tmux_sendInput tmux p d s = (t, Inl e)"
  then show "ready t \<and> (\<exists>cs rest. keys t = keys s @ map (Pair p) cs \<and> d = concat cs @ rest)"
    using send_lines_types [of s "split_on NL d" p t "Inl e"] by (auto simp: tmux_sendInput_def)
qed

section \<open>The local adapter keeps the contract\<close>

definition local_keys :: "shell \<Rightarrow> (string \<times> string) list" where
  "local_keys s = concat (map (\<lambda>(c, r). case r of Inr _ \<Rightarrow> tmux_keys (c_args c) | Inl _ \<Rightarrow> []) (sh_log s))"

interpretation local_backend: tmux_transport "local_tmux run timeout" local_keys "\<lambda>_. True" for run timeout
  by unfold_locales (auto simp: local_tmux_def run_command_def local_keys_def Let_def)

end
