(* ===== verification/Ssh_Tmux.thy ===== *)
theory Ssh_Tmux
  imports Tmux_Adapter
begin

text \<open>
  The tmux adapter over SSH, \<^verbatim>\<open>src/runtime/ssh-tmux-adapter.ts\<close>: the options and their normalization, the
  host-key fingerprint check that precedes the first command, and the remote command line. The pane
  operations are those of \<open>Tmux_Adapter\<close> over \<open>runTmux\<close>, as the source repeats them.
\<close>

section \<open>Options\<close>

record ssh_options =
  so_sshTarget :: string
  so_sshPort :: "jsnum option"
  so_sshCommand :: "string option"
  so_strictHostKeyChecking :: "bool option"
  so_knownHostsFile :: "string option"
  so_expectedFingerprintSha256 :: "string option"
  so_commandTimeoutMs :: "jsnum option"
  so_connectTimeoutSeconds :: "jsnum option"

record ssh_adapter =
  sshTarget :: string
  sshPort :: "int option"
  sshCommand :: string
  strictHostKeyChecking :: bool
  knownHostsFile :: "string option"
  expectedFingerprintSha256 :: "string option"
  commandTimeoutMs :: int
  connectTimeoutSeconds :: int

definition err :: "string \<Rightarrow> jsval" where
  "err msg = JObj [(''message'', JStr msg)]"

definition trunc_rat :: "rat \<Rightarrow> int" where
  "trunc_rat q = (if q \<ge> 0 then \<lfloor>q\<rfloor> else \<lceil>q\<rceil>)"

definition normalizeTarget :: "string \<Rightarrow> (jsval, string) result" where
  "normalizeTarget t = (if trim t = [] then Inl (err ''sshTarget must be a non-empty string'') else Inr (trim t))"

definition normalizePort :: "jsnum option \<Rightarrow> (jsval, int option) result" where
  "normalizePort p =
     (case p of
        None \<Rightarrow> Inr None
      | Some (Fin q) \<Rightarrow> (if q \<le> 0 then Inl (err ''sshPort must be a positive number when provided'') else Inr (Some (trunc_rat q)))
      | Some _ \<Rightarrow> Inl (err ''sshPort must be a positive number when provided''))"

definition normalizeSshCommand :: "string option \<Rightarrow> string" where
  "normalizeSshCommand c = (let t = (case c of None \<Rightarrow> [] | Some s \<Rightarrow> trim s) in if t = [] then ''ssh'' else t)"

definition normalizeOptionalString :: "string option \<Rightarrow> string option" where
  "normalizeOptionalString v =
     (case v of None \<Rightarrow> None | Some s \<Rightarrow> (if trim s = [] then None else Some (trim s)))"

definition upper_char :: "char \<Rightarrow> char" where
  "upper_char c = (let n = (of_char c :: nat) in if 97 \<le> n \<and> n \<le> 122 then char_of (n - 32) else c)"

text \<open>
  Only whether the upper-cased text starts with the ASCII prefix matters, so upper case is needed on
  ASCII letters alone; no other character of the Latin-1 block maps to an ASCII letter.
\<close>

definition normalizeFingerprint :: "string option \<Rightarrow> string option" where
  "normalizeFingerprint v =
     (case normalizeOptionalString v of
        None \<Rightarrow> None
      | Some s \<Rightarrow> (if startsWith (map upper_char s) ''SHA256:'' then Some (''SHA256:'' @ drop 7 s)
                   else Some (''SHA256:'' @ s)))"

definition normalizeTimeoutMs :: "jsnum option \<Rightarrow> int" where
  "normalizeTimeoutMs t =
     (case t of Some (Fin q) \<Rightarrow> (if q \<le> 0 then 6000 else max 1 (trunc_rat q)) | _ \<Rightarrow> 6000)"

definition normalizeConnectTimeoutSeconds :: "jsnum option \<Rightarrow> (jsval, int) result" where
  "normalizeConnectTimeoutSeconds t =
     (case t of
        None \<Rightarrow> Inr 8
      | Some n \<Rightarrow>
          (case num_as_int n of
             Some i \<Rightarrow> (if i < 1 \<or> i > 60
               then Inl (err ''connectTimeoutSeconds must be an integer between 1 and 60 when provided'') else Inr i)
           | None \<Rightarrow> Inl (err ''connectTimeoutSeconds must be an integer between 1 and 60 when provided'')))"

definition new_ssh_adapter :: "ssh_options \<Rightarrow> (jsval, ssh_adapter) result" where
  "new_ssh_adapter o1 =
     bind_result (normalizeTarget (so_sshTarget o1)) (\<lambda>target.
     bind_result (normalizePort (so_sshPort o1)) (\<lambda>port.
     bind_result (normalizeConnectTimeoutSeconds (so_connectTimeoutSeconds o1)) (\<lambda>secs.
     Inr \<lparr>sshTarget = target, sshPort = port, sshCommand = normalizeSshCommand (so_sshCommand o1),
       strictHostKeyChecking = (case so_strictHostKeyChecking o1 of None \<Rightarrow> True | Some b \<Rightarrow> b),
       knownHostsFile = normalizeOptionalString (so_knownHostsFile o1),
       expectedFingerprintSha256 = normalizeFingerprint (so_expectedFingerprintSha256 o1),
       commandTimeoutMs = normalizeTimeoutMs (so_commandTimeoutMs o1), connectTimeoutSeconds = secs\<rparr>)))"

section \<open>Command lines\<close>

definition shell_safe :: "char \<Rightarrow> bool" where
  "shell_safe c \<longleftrightarrow> is_alnum c \<or> c \<in> set ''_@%+=:,./-''"

fun quote_quotes :: "string \<Rightarrow> string" where
  "quote_quotes [] = []"
| "quote_quotes (c # s) =
     (if c = CHR 0x27 then [CHR 0x27, CHR 0x22, CHR 0x27, CHR 0x22, CHR 0x27] else [c]) @ quote_quotes s"

definition shellEscape :: "string \<Rightarrow> string" where
  "shellEscape v =
     (if v \<noteq> [] \<and> list_all shell_safe v then v else [CHR 0x27] @ quote_quotes v @ [CHR 0x27])"

definition buildRemoteCommand :: "string list \<Rightarrow> string" where
  "buildRemoteCommand parts = join '' '' (map shellEscape parts)"

definition buildSshArgs :: "ssh_adapter \<Rightarrow> string \<Rightarrow> string list" where
  "buildSshArgs a remoteCommand =
     (case sshPort a of None \<Rightarrow> [] | Some p \<Rightarrow> [''-p'', int_str p])
     @ [''-T'', ''-o'', ''BatchMode=yes'', ''-o'', ''ConnectTimeout='' @ int_str (connectTimeoutSeconds a),
        ''-o'', ''StrictHostKeyChecking='' @ (if strictHostKeyChecking a then ''yes'' else ''no'')]
     @ (case knownHostsFile a of
          Some f \<Rightarrow> [''-o'', ''UserKnownHostsFile='' @ f]
        | None \<Rightarrow> (if \<not> strictHostKeyChecking a then [''-o'', ''UserKnownHostsFile=/dev/null''] else []))
     @ [sshTarget a, remoteCommand]"

fun last_index :: "string \<Rightarrow> char \<Rightarrow> nat option" where
  "last_index [] c = None"
| "last_index (x # xs) c =
     (case last_index xs c of Some i \<Rightarrow> Some (Suc i) | None \<Rightarrow> (if x = c then Some 0 else None))"

definition extractKeyscanHost :: "string \<Rightarrow> string" where
  "extractKeyscanHost target =
     (let host = (case last_index target CHR ''@'' of Some i \<Rightarrow> drop (i + 1) target | None \<Rightarrow> target)
      in if startsWith host ''['' \<and> endsWith host '']'' then butlast (tl host) else host)"

definition buildKeyscanArgs :: "ssh_adapter \<Rightarrow> string list" where
  "buildKeyscanArgs a =
     [''-T'', int_str (connectTimeoutSeconds a)]
     @ (case sshPort a of None \<Rightarrow> [] | Some p \<Rightarrow> [''-p'', int_str p]) @ [extractKeyscanHost (sshTarget a)]"

definition is_base64 :: "char \<Rightarrow> bool" where
  "is_base64 c \<longleftrightarrow> is_alnum c \<or> c \<in> set ''+/=''"

text \<open>The matches of \<^verbatim>\<open>/SHA256:[A-Za-z0-9+/=]+/g\<close>, from left to right.\<close>

function fingerprint_matches :: "string \<Rightarrow> string list" where
  "fingerprint_matches s =
     (if s = [] then []
      else (let tok = takeWhile is_base64 (drop 7 s)
            in if startsWith s ''SHA256:'' \<and> tok \<noteq> []
               then (''SHA256:'' @ tok) # fingerprint_matches (drop (7 + length tok) s)
               else fingerprint_matches (tl s)))"
  by pat_completeness auto

termination
  by (relation "measure length") auto

definition parseSha256Fingerprints :: "string \<Rightarrow> string list" where
  "parseSha256Fingerprints out = fold (\<lambda>x acc. sadd acc x) (fingerprint_matches out) []"

definition toErrorMessage :: "(jsval \<Rightarrow> string) \<Rightarrow> jsval \<Rightarrow> string" where
  "toErrorMessage str e =
     (case e of JObj r \<Rightarrow> (case prop_of r ''message'' of JStr m \<Rightarrow> (if m = [] then str e else m) | _ \<Rightarrow> str e) | _ \<Rightarrow> str e)"

definition ssh_isNoServerError :: "jsval \<Rightarrow> bool" where
  "ssh_isNoServerError e =
     (case e of
        JObj r \<Rightarrow> no_server_text ((case prop_of r ''stderr'' of JStr s \<Rightarrow> s | _ \<Rightarrow> []) @ [NL] @
                                  (case prop_of r ''message'' of JStr s \<Rightarrow> s | _ \<Rightarrow> []))
      | _ \<Rightarrow> False)"

section \<open>Running tmux\<close>

definition unresolved :: "ssh_adapter \<Rightarrow> string \<Rightarrow> jsval" where
  "unresolved a why = err (''Unable to resolve SSH host fingerprint for '' @ sshTarget a @ '': '' @ why)"

definition verifyExpectedHostFingerprint ::
  "(jsval \<Rightarrow> string) \<Rightarrow> runner \<Rightarrow> ssh_adapter \<Rightarrow> shell \<Rightarrow> shell \<times> (jsval, unit) result" where
  "verifyExpectedHostFingerprint str run a s =
     (case expectedFingerprintSha256 a of
        None \<Rightarrow> (s, Inr ())
      | Some expected \<Rightarrow>
          (if expected = [] then (s, Inr ()) else
           case run_command run \<lparr>c_program = ''ssh-keyscan'', c_args = buildKeyscanArgs a, c_input = None,
                c_timeout = Fin (of_int (commandTimeoutMs a))\<rparr> s of
             (s1, Inl e) \<Rightarrow> (s1, Inl (unresolved a (''ssh-keyscan failed ('' @ toErrorMessage str e @ '')'')))
           | (s1, Inr keyscanOutput) \<Rightarrow>
               (if trim keyscanOutput = [] then (s1, Inl (unresolved a ''ssh-keyscan returned no host keys''))
                else
                  case run_command run \<lparr>c_program = ''ssh-keygen'', c_args = [''-lf'', ''-''],
                       c_input = Some keyscanOutput, c_timeout = Fin (of_int (commandTimeoutMs a))\<rparr> s1 of
                    (s2, Inl e) \<Rightarrow> (s2, Inl (unresolved a (''ssh-keygen failed ('' @ toErrorMessage str e @ '')'')))
                  | (s2, Inr keygenOutput) \<Rightarrow>
                      (let fingerprints = parseSha256Fingerprints keygenOutput
                       in if fingerprints = [] then
                            (s2, Inl (unresolved a ''ssh-keygen output did not contain SHA256 fingerprints''))
                          else if expected \<notin> set fingerprints then
                            (s2, Inl (err (''SSH host fingerprint mismatch for '' @ sshTarget a @ '': expected '' @
                               expected @ '', resolved '' @ join '', '' fingerprints)))
                          else (s2, Inr ())))))"

definition ssh_command :: "ssh_adapter \<Rightarrow> string list \<Rightarrow> command" where
  "ssh_command a tmuxArgs =
     \<lparr>c_program = sshCommand a, c_args = buildSshArgs a (buildRemoteCommand (''tmux'' # tmuxArgs)), c_input = None,
      c_timeout = Fin (of_int (commandTimeoutMs a))\<rparr>"

definition runTmux :: "(jsval \<Rightarrow> string) \<Rightarrow> runner \<Rightarrow> ssh_adapter \<Rightarrow> tmux_run" where
  "runTmux str run a tmuxArgs s =
     (case (if expectedFingerprintSha256 a \<noteq> None \<and> \<not> sh_verified s
            then (case verifyExpectedHostFingerprint str run a s of
                    (t, Inl e) \<Rightarrow> (t, Inl e) | (t, Inr _) \<Rightarrow> (t\<lparr>sh_verified := True\<rparr>, Inr ()))
            else (s, Inr ())) of
        (t, Inl e) \<Rightarrow> (t, Inl e)
      | (t, Inr _) \<Rightarrow> run_command run (ssh_command a tmuxArgs) t)"

declare fingerprint_matches.simps [simp del]

section \<open>What the remote shell reads\<close>

text \<open>
  The words a POSIX shell makes of a command line, on the characters that have no other meaning to
  it: blanks separate words, single quotes quote everything, double quotes everything but the four
  characters that stay special in them. On any other unquoted character, and on an unterminated
  quote, the result is \<open>None\<close>.
\<close>

datatype quoting = Plain | Single | Double

definition word :: "string option \<Rightarrow> string" where
  "word cur = (case cur of None \<Rightarrow> [] | Some w \<Rightarrow> w)"

fun sh_lex :: "quoting \<Rightarrow> string option \<Rightarrow> string \<Rightarrow> string list option" where
  "sh_lex q cur [] = (if q = Plain then Some (case cur of None \<Rightarrow> [] | Some w \<Rightarrow> [w]) else None)"
| "sh_lex Plain cur (c # s) =
     (if c = CHR '' '' then (case cur of None \<Rightarrow> sh_lex Plain None s | Some w \<Rightarrow> map_option (Cons w) (sh_lex Plain None s))
      else if c = CHR 0x27 then sh_lex Single (Some (word cur)) s
      else if c = CHR 0x22 then sh_lex Double (Some (word cur)) s
      else if shell_safe c then sh_lex Plain (Some (word cur @ [c])) s else None)"
| "sh_lex Single cur (c # s) =
     (if c = CHR 0x27 then sh_lex Plain cur s else sh_lex Single (Some (word cur @ [c])) s)"
| "sh_lex Double cur (c # s) =
     (if c = CHR 0x22 then sh_lex Plain cur s
      else if c \<in> {CHR ''$'', CHR 0x60, CHR 0x5C, CHR ''!''} then None else sh_lex Double (Some (word cur @ [c])) s)"

definition sh_words :: "string \<Rightarrow> string list option" where
  "sh_words s = sh_lex Plain None s"

lemma word_Some [simp]: "word (Some w) = w"
  by (simp add: word_def)

lemma shell_safe_special: "shell_safe c \<Longrightarrow> c \<noteq> CHR '' '' \<and> c \<noteq> CHR 0x27 \<and> c \<noteq> CHR 0x22"
  by (auto simp: shell_safe_def is_alnum_def is_digit_def)

lemma sh_lex_safe: "list_all shell_safe v \<Longrightarrow> v \<noteq> [] \<Longrightarrow> sh_lex Plain cur (v @ rest) = sh_lex Plain (Some (word cur @ v)) rest"
proof (induction v arbitrary: cur)
  case (Cons c v)
  then show ?case using shell_safe_special [of c] by (cases "v = []") auto
qed simp

lemma sh_lex_quoted:
  "sh_lex Single (Some w) (quote_quotes v @ CHR 0x27 # rest) = sh_lex Plain (Some (w @ v)) rest"
  by (induction v arbitrary: w) auto

lemma sh_lex_escaped: "sh_lex Plain cur (shellEscape v @ rest) = sh_lex Plain (Some (word cur @ v)) rest"
  by (auto simp: shellEscape_def sh_lex_safe sh_lex_quoted)

lemma sh_lex_join:
  "ps \<noteq> [] \<Longrightarrow> sh_lex Plain None (join '' '' (map shellEscape ps)) = Some ps"
proof (induction ps rule: induct_list012)
  case (2 p)
  then show ?case using sh_lex_escaped [of None p "[]"] by (simp add: word_def)
next
  case (3 p q ps)
  then show ?case using sh_lex_escaped [of None p] by (simp add: word_def)
qed simp

lemma remote_words: "sh_words (buildRemoteCommand parts) = Some parts"
  using sh_lex_join [of parts] by (cases "parts = []") (simp_all add: sh_words_def buildRemoteCommand_def)


section \<open>The SSH adapter keeps the contract\<close>

definition ssh_named_apart :: "ssh_adapter \<Rightarrow> bool" where
  "ssh_named_apart a \<longleftrightarrow> sshCommand a \<noteq> ''ssh-keyscan'' \<and> sshCommand a \<noteq> ''ssh-keygen''"

definition remote_keys :: "command \<Rightarrow> (string \<times> string) list" where
  "remote_keys c = (case sh_words (last (c_args c)) of Some (t # args) \<Rightarrow> (if t = ''tmux'' then tmux_keys args else []) | _ \<Rightarrow> [])"

definition ssh_keys :: "ssh_adapter \<Rightarrow> shell \<Rightarrow> (string \<times> string) list" where
  "ssh_keys a s = concat (map (\<lambda>(c, r). case r of Inl _ \<Rightarrow> []
     | Inr _ \<Rightarrow> if c_program c = sshCommand a then remote_keys c else []) (sh_log s))"

lemma remote_keys_ssh [simp]: "remote_keys (ssh_command a args) = tmux_keys args"
  by (simp add: remote_keys_def ssh_command_def buildSshArgs_def remote_words)

lemma ssh_keys_verified [simp]: "ssh_keys a (s\<lparr>sh_verified := b\<rparr>) = ssh_keys a s"
  by (simp add: ssh_keys_def)

lemma ssh_keys_run:
  "run_command run c s = (t, r) \<Longrightarrow>
   ssh_keys a t = ssh_keys a s @ (case r of Inl _ \<Rightarrow> [] | Inr _ \<Rightarrow> if c_program c = sshCommand a then remote_keys c else [])"
  by (auto simp: run_command_def ssh_keys_def Let_def split: sum.splits)

lemma verify_types_nothing:
  assumes "ssh_named_apart a" and "verifyExpectedHostFingerprint str run a s = (t, r)"
  shows "ssh_keys a t = ssh_keys a s"
proof -
  have quiet: "ssh_keys a u' = ssh_keys a u"
    if "run_command run c u = (u', r')" "c_program c = ''ssh-keyscan'' \<or> c_program c = ''ssh-keygen''" for c u u' r'
    using ssh_keys_run [OF that(1), of a] that(2) assms(1) by (auto simp: ssh_named_apart_def split: sum.splits)
  show ?thesis
    using assms(2) by (auto simp: verifyExpectedHostFingerprint_def Let_def dest!: quiet
        split: option.splits if_splits sum.splits prod.splits)
qed

interpretation ssh_backend: tmux_transport "runTmux str run a" "ssh_keys a" "\<lambda>_. ssh_named_apart a" for str run a
proof
  fix s args t out
  assume apart: "ssh_named_apart a" and rt: "runTmux str run a args s = (t, Inr out)"
  then obtain u where u: "run_command run (ssh_command a args) u = (t, Inr out)" and "ssh_keys a u = ssh_keys a s"
    by (auto simp: runTmux_def split: if_splits prod.splits sum.splits dest!: verify_types_nothing [OF apart])
  then show "ssh_named_apart a \<and> ssh_keys a t = ssh_keys a s @ tmux_keys args"
    using apart ssh_keys_run [OF u, of a] by (simp add: ssh_command_def [of a args, symmetric]) (simp add: ssh_command_def)
next
  fix s args t e
  assume apart: "ssh_named_apart a" and rt: "runTmux str run a args s = (t, Inl e)"
  then show "ssh_named_apart a \<and> ssh_keys a t = ssh_keys a s"
    by (auto simp: runTmux_def split: if_splits prod.splits sum.splits dest!: verify_types_nothing [OF apart]
        dest: ssh_keys_run [where a = a])
qed


section \<open>The host is verified first\<close>

definition key_confirmed :: "ssh_adapter \<Rightarrow> (command \<times> outcome) list \<Rightarrow> bool" where
  "key_confirmed a lg \<longleftrightarrow> (\<exists>c out kc kout. (c, Inr out) \<in> set lg \<and> c_program c = ''ssh-keygen'' \<and>
     the (expectedFingerprintSha256 a) \<in> set (parseSha256Fingerprints out) \<and> c_input c = Some kout \<and>
     (kc, Inr kout) \<in> set lg \<and> c_program kc = ''ssh-keyscan'' \<and> c_args kc = buildKeyscanArgs a)"

definition host_first :: "ssh_adapter \<Rightarrow> shell \<Rightarrow> bool" where
  "host_first a s \<longleftrightarrow> (sh_verified s \<longrightarrow> key_confirmed a (sh_log s)) \<and>
     (\<forall>n < length (sh_log s). c_program (fst (sh_log s ! n)) = sshCommand a \<longrightarrow> key_confirmed a (take n (sh_log s)))"

lemma key_confirmed_append [simp]: "key_confirmed a lg \<Longrightarrow> key_confirmed a (lg @ lg2)"
  by (fastforce simp: key_confirmed_def)

lemma host_first_run:
  assumes "host_first a s" and "run_command run c s = (t, r)"
    and "c_program c = sshCommand a \<Longrightarrow> key_confirmed a (sh_log s)"
  shows "host_first a t"
  using assms by (auto simp: host_first_def run_command_def Let_def nth_append less_Suc_eq)

lemma verify_host_first:
  assumes "ssh_named_apart a" and "expectedFingerprintSha256 a = Some f" and "f \<noteq> []" and "host_first a s"
    and "verifyExpectedHostFingerprint str run a s = (t, r)"
  shows "host_first a t" and "r = Inr u \<Longrightarrow> key_confirmed a (sh_log t)"
proof -
  let ?scan = "\<lparr>c_program = ''ssh-keyscan'', c_args = buildKeyscanArgs a, c_input = None, c_timeout = Fin (of_int (commandTimeoutMs a))\<rparr>"
  obtain s1 r1 where one: "run_command run ?scan s = (s1, r1)" by (cases "run_command run ?scan s")
  have h1: "host_first a s1" using host_first_run [OF assms(4) one] assms(1) by (auto simp: ssh_named_apart_def)
  have l1: "(?scan, r1) \<in> set (sh_log s1)" using one by (auto simp: run_command_def Let_def)
  let ?gen = "\<lambda>out. \<lparr>c_program = ''ssh-keygen'', c_args = [''-lf'', ''-''], c_input = Some out, c_timeout = Fin (of_int (commandTimeoutMs a))\<rparr>"
  have two: "host_first a s2 \<and> (?gen out, r2) \<in> set (sh_log s2) \<and> set (sh_log s1) \<subseteq> set (sh_log s2)"
    if "run_command run (?gen out) s1 = (s2, r2)" for out s2 r2
    using host_first_run [OF h1 that] that assms(1) by (auto simp: ssh_named_apart_def run_command_def Let_def)
  show "host_first a t"
    using assms(2,3,5) one h1 two by (auto simp: verifyExpectedHostFingerprint_def Let_def split: if_splits sum.splits prod.splits)
  show "key_confirmed a (sh_log t)" if ok: "r = Inr u"
  proof -
    obtain out s2 out2 where "r1 = Inr out" and g: "run_command run (?gen out) s1 = (s2, Inr out2)"
      and "t = s2" and "f \<in> set (parseSha256Fingerprints out2)"
      using assms(2,3,5) one ok
      by (auto simp: verifyExpectedHostFingerprint_def Let_def split: if_splits sum.splits prod.splits)
    moreover have "(?scan, Inr out) \<in> set (sh_log s2)" using l1 two [OF g] \<open>r1 = Inr out\<close> by blast
    moreover have "(?gen out, Inr out2) \<in> set (sh_log s2)" using two [OF g] by blast
    ultimately show ?thesis
      unfolding key_confirmed_def using assms(2)
      by (intro exI [of _ "?gen out"] exI [of _ out2] exI [of _ ?scan] exI [of _ out]) simp
  qed
qed

lemma runTmux_host_first:
  assumes "ssh_named_apart a" and "expectedFingerprintSha256 a = Some f" and "f \<noteq> []"
    and "host_first a s" and "runTmux str run a args s = (t, r)"
  shows "host_first a t"
proof (cases "sh_verified s")
  case True
  then have "run_command run (ssh_command a args) s = (t, r)" using assms(5) by (simp add: runTmux_def)
  moreover have "key_confirmed a (sh_log s)" using assms(4) True by (simp add: host_first_def)
  ultimately show ?thesis by (rule host_first_run [OF assms(4)])
next
  case False
  obtain s1 r1 where v: "verifyExpectedHostFingerprint str run a s = (s1, r1)"
    by (cases "verifyExpectedHostFingerprint str run a s")
  note vf = verify_host_first [OF assms(1-4) v]
  show ?thesis
  proof (cases r1)
    case (Inl e)
    then show ?thesis using assms(2,5) False v vf by (auto simp: runTmux_def)
  next
    case (Inr u)
    then have kc: "key_confirmed a (sh_log s1)" by (rule vf(2))
    then have "host_first a (s1\<lparr>sh_verified := True\<rparr>)" using vf(1) by (simp add: host_first_def)
    moreover have "run_command run (ssh_command a args) (s1\<lparr>sh_verified := True\<rparr>) = (t, r)"
      using assms(2,5) False v Inr by (auto simp: runTmux_def)
    moreover have "key_confirmed a (sh_log (s1\<lparr>sh_verified := True\<rparr>))" using kc by simp
    ultimately show ?thesis by (rule host_first_run)
  qed
qed

datatype ssh_op = IsAvailable | ListPanes | CapturePane string int | SendInput string string

fun ssh_exec :: "(jsval \<Rightarrow> string) \<Rightarrow> runner \<Rightarrow> ssh_adapter \<Rightarrow> ssh_op \<Rightarrow> shell \<Rightarrow> shell" where
  "ssh_exec str run a IsAvailable s = fst (tmux_isAvailable (runTmux str run a) s)"
| "ssh_exec str run a ListPanes s = fst (tmux_listPanes ssh_isNoServerError (runTmux str run a) s)"
| "ssh_exec str run a (CapturePane p n) s = fst (tmux_capturePane (runTmux str run a) p n s)"
| "ssh_exec str run a (SendInput p d) s = fst (tmux_sendInput (runTmux str run a) p d s)"

definition new_shell :: shell where
  "new_shell = \<lparr>sh_log = [], sh_verified = False\<rparr>"

text \<open>What every tmux command keeps, every operation keeps.\<close>

lemma send_literal_keeps:
  assumes "\<And>args s t r. P s \<Longrightarrow> tmux args s = (t, r) \<Longrightarrow> P t" and "P s" and "send_literal tmux p l s = (t, r)"
  shows "P t"
  using assms(3) assms(1) [OF assms(2)] assms(2)
  by (auto simp: send_literal_def split: if_splits prod.splits sum.splits)

lemma send_lines_keeps:
  assumes keep: "\<And>args s t r. P s \<Longrightarrow> tmux args s = (t, r) \<Longrightarrow> P t"
  shows "P s \<Longrightarrow> send_lines tmux p ls s = (t, r) \<Longrightarrow> P t"
proof (induction ls arbitrary: s rule: induct_list012)
  case (2 line)
  have lit: "send_literal tmux p line s = (t, r)" using 2(2) by simp
  show ?case by (rule send_literal_keeps [of P, OF keep 2(1) lit])
next
  case (3 line line2 rest)
  obtain s1 r1 where one: "send_literal tmux p line s = (s1, r1)" by (cases "send_literal tmux p line s")
  have p1: "P s1" by (rule send_literal_keeps [of P, OF keep 3(3) one])
  obtain s2 r2 where two: "tmux [''send-keys'', ''-t'', p, ''C-m''] s1 = (s2, r2)"
    by (cases "tmux [''send-keys'', ''-t'', p, ''C-m''] s1")
  have p2: "P s2" by (rule keep [OF p1 two])
  show ?case using 3(4) one two p1 p2 3(2) [OF p2] by (auto split: sum.splits)
qed simp

lemma ssh_exec_keeps:
  assumes keep: "\<And>args s t r. P s \<Longrightarrow> runTmux str run a args s = (t, r) \<Longrightarrow> P t" and "P s"
  shows "P (ssh_exec str run a op s)"
proof (cases op)
  case IsAvailable
  then show ?thesis using keep [OF assms(2)] by (auto simp: tmux_isAvailable_def split: prod.splits sum.splits)
next
  case ListPanes
  then show ?thesis using keep [OF assms(2)] by (auto simp: tmux_listPanes_def split: prod.splits sum.splits)
next
  case (CapturePane p n)
  have "P (fst (tmux_capturePane (runTmux str run a) p n s))"
    unfolding tmux_capturePane_def by (rule keep [OF assms(2) surjective_pairing])
  then show ?thesis using CapturePane by simp
next
  case (SendInput p d)
  have "P (fst (tmux_sendInput (runTmux str run a) p d s))"
    unfolding tmux_sendInput_def by (rule send_lines_keeps [of P, OF keep assms(2) surjective_pairing])
  then show ?thesis using SendInput by simp
qed

lemma ssh_history_host_first:
  assumes "ssh_named_apart a" and "expectedFingerprintSha256 a = Some f" and "f \<noteq> []"
  shows "host_first a s \<Longrightarrow> host_first a (fold (ssh_exec str run a) ops s)"
proof (induction ops arbitrary: s)
  case (Cons op ops)
  have "host_first a (ssh_exec str run a op s)"
    by (rule ssh_exec_keeps [of "host_first a", OF _ Cons.prems]) (rule runTmux_host_first [OF assms])
  then show ?case using Cons.IH by simp
qed simp

lemma new_ssh_adapter_fingerprint:
  "new_ssh_adapter opts = Inr a \<Longrightarrow> expectedFingerprintSha256 a = normalizeFingerprint (so_expectedFingerprintSha256 opts)"
  by (auto simp: new_ssh_adapter_def bind_result_Inr)

text \<open>
  C16: with an expected fingerprint, an SSH adapter runs no SSH command before the host is verified. In
  every history of operations, each SSH command comes after a key scan of that host whose keys
  \<open>ssh-keygen\<close> listed with the expected fingerprint.
\<close>

theorem host_verified_before_ssh:
  assumes "new_ssh_adapter opts = Inr a" and "so_expectedFingerprintSha256 opts = Some fp" and "trim fp \<noteq> []"
    and "ssh_named_apart a" and "s = fold (ssh_exec str run a) ops new_shell"
    and "n < length (sh_log s)" and "c_program (fst (sh_log s ! n)) = sshCommand a"
  shows "key_confirmed a (take n (sh_log s))"
proof -
  obtain f where f: "expectedFingerprintSha256 a = Some f" "f \<noteq> []"
    using new_ssh_adapter_fingerprint [OF assms(1)] assms(2,3)
    by (auto simp: normalizeFingerprint_def normalizeOptionalString_def split: if_splits)
  have "host_first a new_shell" by (simp add: host_first_def new_shell_def)
  from ssh_history_host_first [OF assms(4) f this] have "host_first a s" unfolding assms(5) .
  then show ?thesis using assms(6,7) by (simp add: host_first_def)
qed

definition demo_ssh_options :: ssh_options where
  "demo_ssh_options = \<lparr>so_sshTarget = ''me@host'', so_sshPort = None, so_sshCommand = None, so_strictHostKeyChecking = None,
     so_knownHostsFile = None, so_expectedFingerprintSha256 = Some ''SHA256:abc'', so_commandTimeoutMs = None,
     so_connectTimeoutSeconds = None\<rparr>"

definition demo_ssh :: ssh_adapter where
  "demo_ssh = \<lparr>sshTarget = ''me@host'', sshPort = None, sshCommand = ''ssh'', strictHostKeyChecking = True,
     knownHostsFile = None, expectedFingerprintSha256 = Some ''SHA256:abc'', commandTimeoutMs = 6000,
     connectTimeoutSeconds = 8\<rparr>"

definition demo_runner :: runner where
  "demo_runner n c = (if c_program c = ''ssh-keygen'' then Inr ''256 SHA256:abc host'' else Inr ''ok'')"

lemma demo_ssh_new: "new_ssh_adapter demo_ssh_options = Inr demo_ssh"
  by code_simp

lemma demo_ssh_log:
  "map (\<lambda>(c, _). c_program c) (sh_log (fold (ssh_exec (\<lambda>_. []) demo_runner demo_ssh) [IsAvailable] new_shell))
     = [''ssh-keyscan'', ''ssh-keygen'', ''ssh'']"
  by code_simp

theorem host_verified_before_ssh_witness:
  "key_confirmed demo_ssh (take 2 (sh_log (fold (ssh_exec (\<lambda>_. []) demo_runner demo_ssh) [IsAvailable] new_shell)))"
proof -
  let ?s = "fold (ssh_exec (\<lambda>_. []) demo_runner demo_ssh) [IsAvailable] new_shell"
  have "length (sh_log ?s) = 3" using arg_cong [OF demo_ssh_log, of length] by simp
  moreover have "c_program (fst (sh_log ?s ! 2)) = sshCommand demo_ssh"
    using arg_cong [OF demo_ssh_log, of "\<lambda>l. l ! 2"] calculation by (simp add: split_def demo_ssh_def)
  ultimately show ?thesis
    using host_verified_before_ssh [OF demo_ssh_new, of "''SHA256:abc''" ?s "\<lambda>_. []" demo_runner "[IsAvailable]" 2]
    by (simp add: demo_ssh_options_def trim_def is_ws_def ssh_named_apart_def demo_ssh_def)
qed


end
