(* ===== verification/Ssh_Target.thy ===== *)
theory Ssh_Target
  imports Ssh_Tmux
begin

text \<open>
  The parser of SSH targets and profile names, \<^verbatim>\<open>src/ssh/ssh-target.ts\<close>, with the part of \<open>isIP\<close> of Node
  that it uses.
\<close>

section \<open>IP addresses\<close>

definition ipv4_octet :: "string \<Rightarrow> bool" where
  "ipv4_octet s \<longleftrightarrow> s \<noteq> [] \<and> length s \<le> 3 \<and> list_all is_digit s \<and> (length s = 1 \<or> hd s \<noteq> CHR ''0'') \<and> digits_val 0 s \<le> 255"

definition is_ipv4 :: "string \<Rightarrow> bool" where
  "is_ipv4 s \<longleftrightarrow> (let ps = split_on CHR ''.'' s in length ps = 4 \<and> list_all ipv4_octet ps)"

definition is_hex :: "char \<Rightarrow> bool" where
  "is_hex c \<longleftrightarrow> is_digit c \<or> c \<in> set ''abcdefABCDEF''"

definition hex_group :: "string \<Rightarrow> bool" where
  "hex_group s \<longleftrightarrow> s \<noteq> [] \<and> length s \<le> 4 \<and> list_all is_hex s"

text \<open>The number of 16-bit groups a list of parts stands for; an IPv4 address may end it.\<close>

fun group_count :: "string list \<Rightarrow> nat option" where
  "group_count [] = Some 0"
| "group_count [p] = (if hex_group p then Some 1 else if is_ipv4 p then Some 2 else None)"
| "group_count (p # q # ps) = (if hex_group p then map_option Suc (group_count (q # ps)) else None)"

fun split_gap :: "string \<Rightarrow> (string \<times> string) option" where
  "split_gap (a # b # s) =
     (if a = CHR '':'' \<and> b = CHR '':'' then Some ([], s)
      else map_option (\<lambda>(l, r). (a # l, r)) (split_gap (b # s)))"
| "split_gap _ = None"

definition colon_parts :: "string \<Rightarrow> string list" where
  "colon_parts s = (if s = [] then [] else split_on CHR '':'' s)"

definition ipv6_body :: "string \<Rightarrow> bool" where
  "ipv6_body s \<longleftrightarrow>
     (case split_gap s of
        None \<Rightarrow> group_count (colon_parts s) = Some 8
      | Some (l, r) \<Rightarrow>
          list_all hex_group (colon_parts l) \<and>
          (case group_count (colon_parts r) of None \<Rightarrow> False | Some n \<Rightarrow> length (colon_parts l) + n \<le> 7))"

definition zone_char :: "char \<Rightarrow> bool" where
  "zone_char c \<longleftrightarrow> is_alnum c \<or> c \<in> set ''-.:''"

definition is_ipv6 :: "string \<Rightarrow> bool" where
  "is_ipv6 s \<longleftrightarrow>
     (case indexOf s CHR ''%'' of
        None \<Rightarrow> ipv6_body s
      | Some i \<Rightarrow> ipv6_body (take i s) \<and> drop (i + 1) s \<noteq> [] \<and> list_all zone_char (drop (i + 1) s))"

section \<open>Targets\<close>

record parsed_target =
  pt_user :: "string option"
  pt_host :: string
  pt_raw :: string

definition user_char :: "char \<Rightarrow> bool" where
  "user_char c \<longleftrightarrow> is_alnum c \<or> c \<in> set ''._-''"

definition host_label_char :: "char \<Rightarrow> bool" where
  "host_label_char c \<longleftrightarrow> is_alnum c \<or> c = CHR ''-''"

definition valid_label :: "string \<Rightarrow> bool" where
  "valid_label l \<longleftrightarrow> \<not> (length l = 0 \<or> length l > 63) \<and> list_all host_label_char l \<and>
     \<not> (startsWith l ''-'' \<or> endsWith l ''-'')"

definition isValidHostname :: "string \<Rightarrow> bool" where
  "isValidHostname h \<longleftrightarrow> \<not> (length h = 0 \<or> length h > 253) \<and> \<not> (startsWith h ''.'' \<or> endsWith h ''.'') \<and>
     list_all valid_label (split_on CHR ''.'' h)"

definition dotted_digits :: "string \<Rightarrow> bool" where
  "dotted_digits h \<longleftrightarrow> (let ps = split_on CHR ''.'' h in length ps = 4 \<and> list_all (\<lambda>p. p \<noteq> [] \<and> list_all is_digit p) ps)"

definition isValidSshHost :: "string \<Rightarrow> bool" where
  "isValidSshHost h =
     (if startsWith h ''['' \<or> endsWith h '']'' then
        (if \<not> startsWith h ''['' \<or> \<not> endsWith h '']'' then False
         else butlast (tl h) \<noteq> [] \<and> is_ipv6 (butlast (tl h)))
      else if CHR '':'' \<in> set h then False
      else if is_ipv4 h then True
      else if dotted_digits h then False
      else isValidHostname h)"

definition parseSshTarget :: "string \<Rightarrow> (jsval, parsed_target) result" where
  "parseSshTarget raw =
     (if raw = [] then Inl (err ''SSH target must not be empty.'')
      else if list_ex is_ws raw then Inl (err ''SSH target must not contain whitespace.'')
      else
        let finish = (\<lambda>user host.
              if host = [] then Inl (err ''SSH target host is missing.'')
              else if \<not> isValidSshHost host then Inl (err ''SSH target host is invalid.'')
              else Inr \<lparr>pt_user = user, pt_host = host, pt_raw = raw\<rparr>)
        in case indexOf raw CHR ''@'' of
             None \<Rightarrow> finish None raw
           | Some firstAt \<Rightarrow>
               (if last_index raw CHR ''@'' \<noteq> Some firstAt then
                  Inl (err (''SSH target must contain at most one '' @ [CHR 0x27] @ ''@'' @ [CHR 0x27] @ '' separator.''))
                else let user = take firstAt raw
                  in if user = [] then Inl (err (''SSH target user is missing before '' @ [CHR 0x27] @ ''@'' @ [CHR 0x27] @ ''.''))
                     else if \<not> list_all user_char user then Inl (err ''SSH target user contains unsupported characters.'')
                     else finish (Some user) (drop (firstAt + 1) raw)))"

definition isValidSshProfileName :: "string \<Rightarrow> bool" where
  "isValidSshProfileName raw \<longleftrightarrow>
     (case raw of [] \<Rightarrow> False | c # cs \<Rightarrow> is_alnum c \<and> length cs \<le> 127 \<and> list_all user_char cs) \<and>
     \<not> list_ex is_ws raw \<and> CHR ''@'' \<notin> set raw"

section \<open>What is accepted\<close>

definition render_target :: "string option \<Rightarrow> string \<Rightarrow> string" where
  "render_target user host = (case user of None \<Rightarrow> host | Some u \<Rightarrow> u @ ''@'' @ host)"

definition target_char :: "char \<Rightarrow> bool" where
  "target_char c \<longleftrightarrow> is_alnum c \<or> c \<in> set ''._-:%[]''"

lemma indexOf_split: "indexOf s c = Some i \<Longrightarrow> s = take i s @ c # drop (i + 1) s"
  by (simp add: indexOf_Some) (metis Cons_nth_drop_Suc append_take_drop_id)

lemma last_index_None: "last_index s c = None \<longleftrightarrow> c \<notin> set s"
  by (induction s) (auto split: option.splits)

lemma last_index_append: "c \<notin> set b \<Longrightarrow> last_index (a @ c # b) c = Some (length a)"
  by (induction a) (simp_all add: last_index_None [THEN iffD2])

lemma is_digit_alnum: "is_digit c \<Longrightarrow> is_alnum c"
  by (simp add: is_alnum_def)

lemma is_hex_alnum: "is_hex c \<Longrightarrow> is_alnum c"
  by (auto simp: is_hex_def is_alnum_def is_digit_def)

lemma split_on_all:
  "list_all (list_all P) (split_on c s) \<Longrightarrow> list_all (\<lambda>x. P x \<or> x = c) s"
proof (induction s)
  case (Cons x s)
  then show ?case by (cases "split_on c s") (auto simp: list_all_iff split: if_splits)
qed simp

lemma ipv4_chars: "is_ipv4 s \<Longrightarrow> list_all target_char s"
proof -
  assume "is_ipv4 s"
  then have "list_all (list_all is_digit) (split_on CHR ''.'' s)"
    by (auto simp: is_ipv4_def Let_def ipv4_octet_def list_all_iff)
  from split_on_all [OF this] show ?thesis by (auto simp: list_all_iff target_char_def is_digit_alnum)
qed

lemma group_count_chars: "group_count ps = Some n \<Longrightarrow> list_all (list_all target_char) ps"
proof (induction ps arbitrary: n rule: group_count.induct)
  case (2 p)
  then show ?case
    using ipv4_chars [of p] by (auto simp: hex_group_def target_char_def list_all_iff is_hex_alnum split: if_splits)
next
  case (3 p q ps)
  then show ?case by (auto simp: hex_group_def target_char_def list_all_iff is_hex_alnum split: if_splits)
qed simp

lemma colon_parts_chars: "list_all (list_all target_char) (colon_parts s) \<Longrightarrow> list_all target_char s"
  using split_on_all [of target_char "CHR '':''" s] by (auto simp: colon_parts_def list_all_iff target_char_def split: if_splits)

lemma split_gap_append: "split_gap s = Some (l, r) \<Longrightarrow> s = l @ ''::'' @ r"
  by (induction s arbitrary: l rule: split_gap.induct) (auto split: if_splits)

lemma ipv6_body_chars:
  assumes "ipv6_body s"
  shows "list_all target_char s"
proof (cases "split_gap s")
  case None
  then have "group_count (colon_parts s) = Some 8" using assms by (simp add: ipv6_body_def)
  then show ?thesis by (intro colon_parts_chars group_count_chars)
next
  case (Some lr)
  obtain l r where lr: "lr = (l, r)" by (cases lr)
  from Some lr assms have l: "list_all hex_group (colon_parts l)" and "\<exists>n. group_count (colon_parts r) = Some n"
    by (auto simp: ipv6_body_def split: option.splits)
  then have "list_all target_char r" using group_count_chars colon_parts_chars by blast
  moreover have "list_all target_char l"
    by (rule colon_parts_chars) (use l in \<open>auto simp: list_all_iff hex_group_def target_char_def is_hex_alnum\<close>)
  moreover have "s = l @ ''::'' @ r" by (rule split_gap_append) (simp add: Some lr)
  ultimately show ?thesis by (simp add: target_char_def)
qed

lemma ipv6_chars: "is_ipv6 s \<Longrightarrow> list_all target_char s"
proof (cases "indexOf s CHR ''%''")
  case None
  then show "is_ipv6 s \<Longrightarrow> ?thesis" using ipv6_body_chars by (simp add: is_ipv6_def)
next
  case (Some i)
  assume v: "is_ipv6 s"
  have s: "s = take i s @ CHR ''%'' # drop (i + 1) s" by (rule indexOf_split [OF Some])
  have "list_all target_char (take i s)" using v Some ipv6_body_chars by (simp add: is_ipv6_def)
  moreover have "list_all target_char (drop (i + 1) s)"
    using v Some by (auto simp: is_ipv6_def list_all_iff zone_char_def target_char_def)
  ultimately show ?thesis by (subst s) (simp add: target_char_def)
qed

lemma valid_host_chars: "isValidSshHost h \<Longrightarrow> list_all target_char h"
proof -
  assume v: "isValidSshHost h"
  consider (v6) m where "h = ''['' @ m @ '']''" "is_ipv6 m" | (v4) "is_ipv4 h" | (name) "isValidHostname h"
  proof (cases "startsWith h ''['' \<or> endsWith h '']''")
    case True
    then have "startsWith h ''[''" "endsWith h '']''" and m: "is_ipv6 (butlast (tl h))" "butlast (tl h) \<noteq> []"
      using v by (auto simp: isValidSshHost_def split: if_splits)
    then obtain a b where a: "h = ''['' @ a" and b: "h = b @ '']''" unfolding js_simps by blast
    then have "a \<noteq> []" using m(2) by auto
    then have "last a = last h" using a by simp
    also have "\<dots> = CHR '']''" using b by simp
    finally have "a = butlast a @ '']''" using append_butlast_last_id [OF \<open>a \<noteq> []\<close>] by simp
    then have "h = ''['' @ butlast (tl h) @ '']''" using a by simp
    then show ?thesis using m(1) that(1) by blast
  next
    case False
    then show ?thesis using v that by (auto simp: isValidSshHost_def split: if_splits)
  qed
  then show ?thesis
  proof cases
    case v6
    then show ?thesis using ipv6_chars [of m] by (simp add: target_char_def)
  next
    case v4
    then show ?thesis by (rule ipv4_chars)
  next
    case name
    then have "list_all (list_all host_label_char) (split_on CHR ''.'' h)"
      by (auto simp: isValidHostname_def valid_label_def list_all_iff)
    from split_on_all [OF this] show ?thesis by (auto simp: list_all_iff host_label_char_def target_char_def)
  qed
qed

lemma target_char_plain: "target_char c \<Longrightarrow> c \<noteq> CHR ''@'' \<and> \<not> is_ws c"
  by (auto simp: target_char_def is_alnum_def is_digit_def is_ws_def)

lemma user_char_target: "user_char c \<Longrightarrow> target_char c"
  by (auto simp: user_char_def target_char_def)

lemma list_ex_ws_target: "list_all target_char s \<Longrightarrow> \<not> list_ex is_ws s \<and> CHR ''@'' \<notin> set s"
  using target_char_plain by (fastforce simp: list_all_iff list_ex_iff)

lemma parseSshTarget_render:
  assumes "\<And>u. user = Some u \<Longrightarrow> u \<noteq> [] \<and> list_all user_char u" and "host \<noteq> []" and "isValidSshHost host"
  shows "parseSshTarget (render_target user host) =
    Inr \<lparr>pt_user = user, pt_host = host, pt_raw = render_target user host\<rparr>"
proof -
  have h: "\<not> list_ex is_ws host" "CHR ''@'' \<notin> set host" using list_ex_ws_target [OF valid_host_chars [OF assms(3)]] by auto
  show ?thesis
  proof (cases user)
    case None
    then show ?thesis
      using h assms(2,3) by (simp add: parseSshTarget_def render_target_def indexOf_None [THEN iffD2])
  next
    case (Some u)
    then have u: "u \<noteq> []" "list_all user_char u" using assms(1) by auto
    then have "list_all target_char u" by (simp add: list_all_iff user_char_target)
    then have uc: "\<not> list_ex is_ws u" "CHR ''@'' \<notin> set u" using list_ex_ws_target by auto
    have i: "indexOf (u @ CHR ''@'' # host) CHR ''@'' = Some (length u)" by (rule indexOf_append [OF uc(2)])
    have l: "last_index (u @ CHR ''@'' # host) CHR ''@'' = Some (length u)" by (rule last_index_append [OF h(2)])
    show ?thesis
      using Some u uc h assms(2,3) i l by (simp add: parseSshTarget_def render_target_def Let_def is_ws_def)
  qed
qed

text \<open>
  The target parser accepts exactly the targets it documents. It succeeds on a text just when the
  text is a valid host, or a non-empty user of letters, digits, dots, underscores and hyphens, an
  \<open>@\<close> and a valid host, and it returns these parts; so no accepted target holds white space, a second
  \<open>@\<close> or any character with a meaning to a shell.
\<close>

theorem parseSshTarget_exact:
  "parseSshTarget raw = Inr t \<longleftrightarrow>
     pt_raw t = raw \<and> raw = render_target (pt_user t) (pt_host t) \<and> pt_host t \<noteq> [] \<and> isValidSshHost (pt_host t) \<and>
     (\<forall>u. pt_user t = Some u \<longrightarrow> u \<noteq> [] \<and> list_all user_char u) \<and>
     list_all (\<lambda>c. target_char c \<or> c = CHR ''@'') raw"
  (is "_ \<longleftrightarrow> ?ok")
proof
  assume acc: "parseSshTarget raw = Inr t"
  have parts: "pt_raw t = raw \<and> raw = render_target (pt_user t) (pt_host t) \<and> pt_host t \<noteq> [] \<and> isValidSshHost (pt_host t) \<and>
     (\<forall>u. pt_user t = Some u \<longrightarrow> u \<noteq> [] \<and> list_all user_char u)"
  proof (cases "indexOf raw CHR ''@''")
    case None
    then show ?thesis using acc by (auto simp: parseSshTarget_def render_target_def Let_def split: if_splits)
  next
    case (Some i)
    from indexOf_split [OF Some] have "raw = take i raw @ ''@'' @ drop (i + 1) raw" by simp
    then show ?thesis using acc Some by (auto simp: parseSshTarget_def render_target_def Let_def split: if_splits)
  qed
  moreover have "list_all (\<lambda>c. target_char c \<or> c = CHR ''@'') raw"
    using parts valid_host_chars [of "pt_host t"] user_char_target
    by (auto simp: render_target_def list_all_iff split: option.splits)
  ultimately show ?ok by blast
next
  assume ?ok
  then show "parseSshTarget raw = Inr t" using parseSshTarget_render [of "pt_user t" "pt_host t"] by (cases t) auto
qed

theorem parseSshTarget_exact_witness:
  "\<exists>t. parseSshTarget ''me@[::1]'' = Inr t \<and> pt_user t = Some ''me'' \<and> pt_host t = ''[::1]''"
proof -
  have v: "isValidSshHost ''[::1]''" by code_simp
  have u: "list_all user_char ''me''" by code_simp
  have c: "list_all (\<lambda>c. target_char c \<or> c = CHR ''@'') ''me@[::1]''" by code_simp
  show ?thesis
    using parseSshTarget_exact [of "''me@[::1]''" "\<lparr>pt_user = Some ''me'', pt_host = ''[::1]'', pt_raw = ''me@[::1]''\<rparr>"] v u c
    by (simp add: render_target_def)
qed

text \<open>
  A user may start with a hyphen, and the target stands on the command line where \<open>ssh\<close> still reads
  options: this accepted target is an option to it.
\<close>

lemma dash_target_accepted:
  "\<exists>t. parseSshTarget ''-v@host'' = Inr t \<and> ''-v@host'' \<in> set (buildSshArgs (a\<lparr>sshTarget := pt_raw t\<rparr>) cmd)"
proof -
  have v: "isValidSshHost ''host''" by code_simp
  have u: "list_all user_char ''-v''" by code_simp
  from parseSshTarget_render [of "Some ''-v''" "''host''"] u v
  show ?thesis by (auto simp: render_target_def buildSshArgs_def)
qed

end
