(* ===== verification/Rate_Limiter.thy ===== *)
theory Rate_Limiter
  imports Js_Prelude
begin

text \<open>
  The sliding-window rate limiter, \<^verbatim>\<open>src/server/rate-limiter.ts\<close>, and its reference: an unbounded
  log of the admitted events, in which a call is admitted when fewer than \<open>maxEvents\<close> events of its
  key lie in the window that ends now. The clock \<open>this.now()\<close> is an argument.
\<close>

section \<open>The limiter\<close>

record rate_limit_decision =
  allowed :: bool
  limit :: int
  window_ms :: int
  retryAfterMs :: int
  remaining :: int

record rate_limiter =
  maxEvents :: int
  windowMs :: int
  timestamps :: "(string \<times> int list) list"

definition new_rate_limiter :: "int \<Rightarrow> int \<Rightarrow> rate_limiter" where
  "new_rate_limiter m w = \<lparr>maxEvents = m, windowMs = w, timestamps = []\<rparr>"

fun shift_older :: "int \<Rightarrow> int list \<Rightarrow> int list" where
  "shift_older minTs [] = []"
| "shift_older minTs (t # ts) = (if t < minTs then shift_older minTs ts else t # ts)"

definition stored_times :: "rate_limiter \<Rightarrow> string \<Rightarrow> int list" where
  "stored_times l key = (case map_of (timestamps l) key of Some ts \<Rightarrow> ts | None \<Rightarrow> [])"

definition consume :: "rate_limiter \<Rightarrow> int \<Rightarrow> string \<Rightarrow> rate_limiter \<times> rate_limit_decision" where
  "consume l now key =
     (let minTs = now - windowMs l;
          hist = shift_older minTs (stored_times l key)
      in if int (length hist) \<ge> maxEvents l then
           (let oldest = (case hist of [] \<Rightarrow> now | t # _ \<Rightarrow> t)
            in (l\<lparr>timestamps := mput (timestamps l) key hist\<rparr>,
                \<lparr>allowed = False, limit = maxEvents l, window_ms = windowMs l,
                 retryAfterMs = max 0 (oldest + windowMs l - now), remaining = 0\<rparr>))
         else
           (let hist' = hist @ [now]
            in (l\<lparr>timestamps := mput (timestamps l) key hist'\<rparr>,
                \<lparr>allowed = True, limit = maxEvents l, window_ms = windowMs l,
                 retryAfterMs = 0, remaining = max 0 (maxEvents l - int (length hist'))\<rparr>)))"

definition allow :: "rate_limiter \<Rightarrow> int \<Rightarrow> string \<Rightarrow> rate_limiter \<times> bool" where
  "allow l now key = (let (l', d) = consume l now key in (l', allowed d))"

definition clear :: "rate_limiter \<Rightarrow> string \<Rightarrow> rate_limiter" where
  "clear l key = l\<lparr>timestamps := mdelete (timestamps l) key\<rparr>"

section \<open>The reference\<close>

text \<open>The limiter on a sequence of calls, each a time and a key.\<close>

fun run_calls :: "rate_limiter \<Rightarrow> (int \<times> string) list \<Rightarrow> bool list" where
  "run_calls l [] = []"
| "run_calls l ((now, key) # calls) = (let (l', d) = consume l now key in allowed d # run_calls l' calls)"

definition in_window :: "int \<Rightarrow> int \<Rightarrow> string \<Rightarrow> (int \<times> string) list \<Rightarrow> int" where
  "in_window a b key lg = int (length (filter (\<lambda>(t, k). k = key \<and> a \<le> t \<and> t \<le> b) lg))"

fun reference :: "int \<Rightarrow> int \<Rightarrow> (int \<times> string) list \<Rightarrow> (int \<times> string) list \<Rightarrow> bool list" where
  "reference m w lg [] = []"
| "reference m w lg ((now, key) # calls) =
     (let ok = in_window (now - w) now key lg < m
      in ok # reference m w (if ok then lg @ [(now, key)] else lg) calls)"

definition admitted :: "(int \<times> string) list \<Rightarrow> bool list \<Rightarrow> (int \<times> string) list" where
  "admitted calls oks = map fst (filter snd (zip calls oks))"

definition key_times :: "string \<Rightarrow> (int \<times> string) list \<Rightarrow> int list" where
  "key_times key lg = map fst (filter (\<lambda>(t, k). k = key) lg)"

text \<open>
  The limiter holds, for every key, the log's events of that key from some cut on, and the cut is
  not in the window that ends at or after \<open>now\<close>.
\<close>

definition limiter_rel :: "rate_limiter \<Rightarrow> int \<Rightarrow> (int \<times> string) list \<Rightarrow> bool" where
  "limiter_rel l now lg \<longleftrightarrow> sorted (map fst lg) \<and> (\<forall>(t, k) \<in> set lg. t \<le> now) \<and>
     (\<forall>key. \<exists>old. key_times key lg = old @ stored_times l key \<and> (\<forall>t \<in> set old. t < now - windowMs l))"

lemma shift_older_dropWhile: "shift_older a ts = dropWhile (\<lambda>t. t < a) ts"
  by (induction ts) auto

lemma shift_older_sorted: "sorted ts \<Longrightarrow> shift_older a ts = filter (\<lambda>t. a \<le> t) ts"
proof (induction ts)
  case Nil
  then show ?case by simp
next
  case (Cons t ts)
  then have "a \<le> t \<Longrightarrow> filter (\<lambda>t. a \<le> t) ts = ts" by (auto simp: filter_id_conv)
  with Cons show ?case by (cases "t < a") auto
qed

lemma sorted_key_times: "sorted (map fst lg) \<Longrightarrow> sorted (key_times key lg)"
  unfolding key_times_def by (rule sorted_filter)

lemma in_window_key_times:
  "\<forall>(t, k) \<in> set lg. t \<le> now \<Longrightarrow>
   in_window a now key lg = int (length (filter (\<lambda>t. a \<le> t) (key_times key lg)))"
  unfolding in_window_def key_times_def by (induction lg) (auto split: if_splits)

lemma in_window_mono:
  "\<forall>(t, k) \<in> set lg. t \<le> now \<Longrightarrow> c \<le> a \<Longrightarrow> in_window a b key lg \<le> in_window c now key lg"
  unfolding in_window_def by (induction lg) auto

lemma limiter_rel_init: "limiter_rel (new_rate_limiter m w) now []"
  by (simp add: limiter_rel_def new_rate_limiter_def key_times_def stored_times_def)

lemma sorted_partition:
  "sorted ts \<Longrightarrow> filter (\<lambda>t. t < a) ts @ filter (\<lambda>t. a \<le> t) ts = (ts :: int list)"
proof (induction ts)
  case Nil
  then show ?case by simp
next
  case (Cons t ts)
  then have "a \<le> t \<Longrightarrow> filter (\<lambda>t. t < a) ts = [] \<and> filter (\<lambda>t. a \<le> t) ts = ts"
    by (auto simp: filter_empty_conv filter_id_conv)
  with Cons show ?case by (cases "t < a") auto
qed

lemma limiter_rel_hist:
  assumes "limiter_rel l now0 lg" and "now0 \<le> now"
  shows "shift_older (now - windowMs l) (stored_times l key)
    = filter (\<lambda>t. now - windowMs l \<le> t) (key_times key lg)"
proof -
  obtain old where old: "key_times key lg = old @ stored_times l key" "\<forall>t \<in> set old. t < now0 - windowMs l"
    using assms(1) unfolding limiter_rel_def by blast
  have "sorted (stored_times l key)" using sorted_key_times [of lg key] assms(1) old(1)
    by (simp add: limiter_rel_def sorted_append)
  moreover have "filter (\<lambda>t. now - windowMs l \<le> t) old = []"
    using old(2) assms(2) by (auto simp: filter_empty_conv)
  ultimately show ?thesis using old(1) by (simp add: shift_older_sorted)
qed

lemma limiter_rel_consume:
  assumes rel: "limiter_rel l now0 lg" and le: "now0 \<le> now" and c: "consume l now key = (l', d)"
  shows "allowed d \<longleftrightarrow> in_window (now - windowMs l) now key lg < maxEvents l"
    and "limiter_rel l' now (if allowed d then lg @ [(now, key)] else lg)"
    and "maxEvents l' = maxEvents l" and "windowMs l' = windowMs l"
proof -
  let ?a = "now - windowMs l"
  let ?h = "filter (\<lambda>t. ?a \<le> t) (key_times key lg)"
  have hist: "shift_older ?a (stored_times l key) = ?h" using limiter_rel_hist [OF rel le] .
  have lgle: "\<forall>(t, k) \<in> set lg. t \<le> now" using rel le by (fastforce simp: limiter_rel_def)
  have win: "in_window ?a now key lg = int (length ?h)" by (rule in_window_key_times [OF lgle])
  have al: "allowed d \<longleftrightarrow> int (length ?h) < maxEvents l"
    and l': "l' = l\<lparr>timestamps := mput (timestamps l) key (if allowed d then ?h @ [now] else ?h)\<rparr>"
    using c hist by (auto simp: consume_def Let_def split: if_splits)
  then show "allowed d \<longleftrightarrow> in_window ?a now key lg < maxEvents l" "maxEvents l' = maxEvents l"
    "windowMs l' = windowMs l" using win by auto
  have srt: "sorted (map fst lg)" using rel by (simp add: limiter_rel_def)
  let ?lg = "if allowed d then lg @ [(now, key)] else lg"
  have "sorted (map fst ?lg)" using srt lgle by (auto simp: sorted_append)
  moreover have "\<forall>(t, k) \<in> set ?lg. t \<le> now" using lgle by auto
  moreover have "\<exists>old. key_times k ?lg = old @ stored_times l' k \<and> (\<forall>t \<in> set old. t < now - windowMs l')" for k
  proof (cases "k = key")
    case True
    have "key_times key lg = filter (\<lambda>t. t < ?a) (key_times key lg) @ ?h"
      using sorted_partition [OF sorted_key_times [OF srt]] by simp
    then have "key_times k ?lg = filter (\<lambda>t. t < ?a) (key_times key lg) @ stored_times l' k"
      using True l' by (auto simp: stored_times_def key_times_def)
    then show ?thesis using l' by auto
  next
    case False
    obtain old where "key_times k lg = old @ stored_times l k" "\<forall>t \<in> set old. t < now0 - windowMs l"
      using rel unfolding limiter_rel_def by blast
    moreover have "key_times k ?lg = key_times k lg" "stored_times l' k = stored_times l k" "windowMs l' = windowMs l"
      using False l' by (auto simp: key_times_def stored_times_def)
    ultimately show ?thesis using le by fastforce
  qed
  ultimately show "limiter_rel l' now ?lg" unfolding limiter_rel_def by blast
qed

lemma run_calls_reference:
  "limiter_rel l now0 lg \<Longrightarrow> sorted (now0 # map fst calls) \<Longrightarrow>
   run_calls l calls = reference (maxEvents l) (windowMs l) lg calls"
proof (induction calls arbitrary: l now0 lg)
  case Nil
  then show ?case by simp
next
  case (Cons c calls)
  obtain now key where c: "c = (now, key)" by (cases c)
  obtain l' d where cd: "consume l now key = (l', d)" by (metis surj_pair)
  have le: "now0 \<le> now" "sorted (now # map fst calls)" using Cons.prems(2) c by auto
  note r = limiter_rel_consume [OF Cons.prems(1) le(1) cd]
  show ?case using Cons.IH [OF r(2) le(2)] r(1,3,4) c cd by (simp add: Let_def)
qed

lemma reference_window:
  assumes "sorted (now0 # map fst calls)" and "\<forall>(t, k) \<in> set lg. t \<le> now0" and "0 \<le> m"
    and "\<forall>a. in_window a (a + w) key lg \<le> m"
  shows "in_window a (a + w) key (lg @ admitted calls (reference m w lg calls)) \<le> m"
  using assms
proof (induction calls arbitrary: lg now0)
  case Nil
  then show ?case by (simp add: admitted_def)
next
  case (Cons c calls)
  obtain now k where c: "c = (now, k)" by (cases c)
  let ?ok = "in_window (now - w) now k lg < m"
  let ?lg = "if ?ok then lg @ [(now, k)] else lg"
  have le: "now0 \<le> now" and srt: "sorted (now # map fst calls)" using Cons.prems(1) c by auto
  have lgle: "\<forall>(t, k) \<in> set ?lg. t \<le> now" using Cons.prems(2) le by (auto split: if_splits)
  have "in_window a (a + w) key (lg @ [(now, k)]) \<le> m" if ok: ?ok for a
  proof (cases "k = key \<and> a \<le> now \<and> now \<le> a + w")
    case True
    have "in_window a (a + w) key lg \<le> in_window (now - w) now key lg"
      using Cons.prems(2) le True by (intro in_window_mono) fastforce+
    then show ?thesis using ok True by (simp add: in_window_def)
  next
    case False
    then show ?thesis using Cons.prems(4) by (auto simp: in_window_def)
  qed
  then have "\<forall>a. in_window a (a + w) key ?lg \<le> m" using Cons.prems(4) by simp
  from Cons.IH [OF srt lgle Cons.prems(3) this]
  show ?case using c by (cases ?ok) (simp_all add: admitted_def Let_def)
qed

section \<open>Properties\<close>

text \<open>
  C29: with a clock that does not run backwards, the limiter with its trimmed per-key histories
  decides every call exactly as the reference does on the log of everything admitted so far.
\<close>

theorem limiter_refines_reference:
  assumes "sorted (map fst calls)"
  shows "run_calls (new_rate_limiter m w) calls = reference m w [] calls"
proof (cases calls)
  case Nil
  then show ?thesis by simp
next
  case (Cons c rest)
  then show ?thesis
    using run_calls_reference [OF limiter_rel_init [of m w "fst c"]] assms
    by (auto simp: new_rate_limiter_def)
qed

theorem limiter_refines_reference_witness:
  "run_calls (new_rate_limiter 2 1000) [(0, ''a''), (10, ''a''), (20, ''a''), (20, ''b''), (1001, ''a'')]
     = [True, True, False, True, True] \<and>
   reference 2 1000 [] [(0, ''a''), (10, ''a''), (20, ''a''), (20, ''b''), (1001, ''a'')]
     = [True, True, False, True, True]"
  using limiter_refines_reference [of "[(0, ''a''), (10, ''a''), (20, ''a''), (20, ''b''), (1001, ''a'')]" 2 1000]
  by (simp add: in_window_def Let_def)

text \<open>
  With a clock that does not run backwards, in no window of \<open>windowMs\<close> milliseconds, both ends
  included and wherever it starts, does the limiter admit more than \<open>maxEvents\<close> calls of a key.
\<close>

theorem limiter_window_bound:
  assumes "sorted (map fst calls)" and "0 \<le> m"
  shows "in_window a (a + w) key (admitted calls (run_calls (new_rate_limiter m w) calls)) \<le> m"
proof (cases calls)
  case Nil
  then show ?thesis using assms(2) by (simp add: admitted_def in_window_def)
next
  case (Cons c rest)
  have srt: "sorted (fst c # map fst calls)" using assms(1) Cons by simp
  have "run_calls (new_rate_limiter m w) calls = reference m w [] calls"
    using run_calls_reference [OF limiter_rel_init [of m w "fst c"] srt]
    by (simp add: new_rate_limiter_def)
  then show ?thesis
    using reference_window [OF srt, of "[]" m w key a] assms(2) by (simp add: in_window_def)
qed

theorem limiter_window_bound_witness:
  "in_window 0 1000 ''a'' (admitted [(0, ''a''), (10, ''a''), (20, ''a'')]
     (run_calls (new_rate_limiter 2 1000) [(0, ''a''), (10, ''a''), (20, ''a'')])) \<le> 2"
  using limiter_window_bound [of "[(0, ''a''), (10, ''a''), (20, ''a'')]" 2 0 1000 "''a''"] by simp

text \<open>
  What \<open>retryAfterMs\<close> promises. When a call is refused, the next call of that key at a time
  \<open>t\<close> is admitted exactly when \<open>t\<close> is strictly later than the refusal by \<open>retryAfterMs\<close>; a
  client that waits exactly \<open>retryAfterMs\<close> is refused once more, with \<open>retryAfterMs\<close> 0.
\<close>

theorem retry_after_exact:
  assumes "limiter_rel l now0 lg" and "now0 \<le> now" and "0 < maxEvents l" and "0 \<le> windowMs l"
    and "int (length (stored_times l key)) \<le> maxEvents l"
    and "consume l now key = (l', d)" and "\<not> allowed d" and "now \<le> t"
  shows "allowed (snd (consume l' t key)) \<longleftrightarrow> now + retryAfterMs d < t"
proof -
  let ?h = "shift_older (now - windowMs l) (stored_times l key)"
  have "length ?h \<le> length (stored_times l key)"
    unfolding shift_older_dropWhile by (rule length_dropWhile_le)
  moreover have full: "maxEvents l \<le> int (length ?h)"
    and l': "l' = l\<lparr>timestamps := mput (timestamps l) key ?h\<rparr>"
    and ra: "retryAfterMs d = max 0 ((case ?h of [] \<Rightarrow> now | t # _ \<Rightarrow> t) + windowMs l - now)"
    using assms(6,7) by (auto simp: consume_def Let_def split: if_splits)
  ultimately have len: "int (length ?h) = maxEvents l" using assms(5) by linarith
  then obtain h hs where h: "?h = h # hs" using assms(3) by (cases ?h) auto
  have "\<not> h < now - windowMs l"
    using h hd_dropWhile [of "\<lambda>t. t < now - windowMs l" "stored_times l key"]
    by (simp add: shift_older_dropWhile)
  then have r: "retryAfterMs d = h + windowMs l - now" using ra h by simp
  have st: "stored_times l' key = h # hs" using l' h by (simp add: stored_times_def)
  have "int (length (shift_older (t - windowMs l) (h # hs))) < maxEvents l \<longleftrightarrow> h < t - windowMs l"
    using len h length_dropWhile_le [of "\<lambda>u. u < t - windowMs l" hs]
    by (auto simp: shift_older_dropWhile)
  moreover have "maxEvents l' = maxEvents l" "windowMs l' = windowMs l" using l' by simp_all
  ultimately show ?thesis using st r by (auto simp: consume_def Let_def)
qed

theorem retry_after_exact_witness:
  "\<exists>l' d. consume \<lparr>maxEvents = 1, windowMs = 100, timestamps = [(''a'', [0])]\<rparr> 40 ''a'' = (l', d) \<and>
     \<not> allowed d \<and> retryAfterMs d = 60 \<and>
     \<not> allowed (snd (consume l' 100 ''a'')) \<and> allowed (snd (consume l' 101 ''a''))"
proof -
  let ?l = "\<lparr>maxEvents = 1, windowMs = 100, timestamps = [(''a'', [0])]\<rparr>"
  obtain l' d where c: "consume ?l 40 ''a'' = (l', d)" by (metis surj_pair)
  then have d: "\<not> allowed d" "retryAfterMs d = 60"
    by (auto simp: consume_def stored_times_def Let_def)
  have rel: "limiter_rel ?l 0 [(0, ''a'')]"
    by (auto simp: limiter_rel_def stored_times_def key_times_def)
  have st: "int (length (stored_times ?l ''a'')) \<le> maxEvents ?l" by (simp add: stored_times_def)
  note ra = retry_after_exact [OF rel _ _ _ st c d(1), simplified]
  show ?thesis using ra [of 100] ra [of 101] c d by auto
qed

end
