(* ===== verification/Protocol.thy ===== *)
theory Protocol
  imports Js_Prelude
begin

text \<open>
  The wire protocol, \<^verbatim>\<open>packages/commandrelay-protocol/src/index.ts\<close>: envelopes, and the lenient and
  strict parsers of incoming frames. \<open>JSON.parse\<close> is the parameter \<open>json_parse\<close>, which returns no
  value when it throws; \<open>Date.now()\<close> is the argument \<open>now\<close>.
\<close>

section \<open>Envelopes and parsing\<close>

definition PROTOCOL_V1 :: int where
  "PROTOCOL_V1 = 1"

definition PROTOCOL_V1_REQUIRED_EVENT_TYPES :: "string list" where
  "PROTOCOL_V1_REQUIRED_EVENT_TYPES =
     [''auth'', ''list_sessions'', ''attach'', ''output'', ''input'', ''ack'', ''error'', ''heartbeat'',
      ''policy_update'']"

definition PROTOCOL_V1_RUNTIME_EVENT_TYPES :: "string list" where
  "PROTOCOL_V1_RUNTIME_EVENT_TYPES =
     [''detach'', ''enable_input'', ''disable_input'', ''disconnect'', ''hello'', ''session_list'',
      ''auth_ok'', ''auth_error'', ''heartbeat_ack'']"

definition PROTOCOL_V1_ALLOWED_EVENT_TYPES :: "string list" where
  "PROTOCOL_V1_ALLOWED_EVENT_TYPES = PROTOCOL_V1_REQUIRED_EVENT_TYPES @ PROTOCOL_V1_RUNTIME_EVENT_TYPES"

record wire_envelope =
  env_v :: int
  env_type :: string
  env_requestId :: "string option"
  env_timestamp :: int
  env_payload :: js_record

definition MAX_V1_ENVELOPE_BYTES :: int where
  "MAX_V1_ENVELOPE_BYTES = 64 * 1024"

definition REQUEST_ID_MAX_LENGTH :: nat where
  "REQUEST_ID_MAX_LENGTH = 128"

definition V1_REQUEST_ID_REQUIRED_TYPES :: "string list" where
  "V1_REQUEST_ID_REQUIRED_TYPES =
     [''auth'', ''list_sessions'', ''attach'', ''detach'', ''enable_input'', ''disable_input'',
      ''disconnect'', ''input'', ''ack'', ''error'']"

definition envelope :: "int \<Rightarrow> string \<Rightarrow> js_record \<Rightarrow> string option \<Rightarrow> wire_envelope" where
  "envelope now type payload requestId =
     \<lparr>env_v = PROTOCOL_V1, env_type = type, env_requestId = requestId, env_timestamp = now,
      env_payload = payload\<rparr>"

text \<open>A record is an object that is neither \<open>null\<close> nor an array; \<open>isRecord\<close> returns its properties.\<close>

fun isRecord :: "jsval \<Rightarrow> js_record option" where
  "isRecord (JObj r) = Some r"
| "isRecord _ = None"

text \<open>\<open>Inl ()\<close> is the invalid outcome of the source's pair \<open>{valid, value}\<close>.\<close>

definition request_id_char :: "char \<Rightarrow> bool" where
  "request_id_char ch \<longleftrightarrow> \<not> ((of_char ch :: nat) < 32 \<or> (of_char ch :: nat) > 126)"

definition validateRequestId :: "jsval \<Rightarrow> (unit, string option) result" where
  "validateRequestId value =
     (case value of
        JUndef \<Rightarrow> Inr None
      | JStr s \<Rightarrow>
          (if length s < 1 \<or> length s > REQUEST_ID_MAX_LENGTH then Inl ()
           else if trim s \<noteq> s then Inl ()
           else if \<not> list_all request_id_char s then Inl ()
           else Inr (Some s))
      | _ \<Rightarrow> Inl ())"

text \<open>\<open>Number.isSafeInteger(x) && x >= 0\<close>, and the integer.\<close>

definition safe_timestamp :: "jsval \<Rightarrow> int option" where
  "safe_timestamp value =
     (case as_int value of
        Some t \<Rightarrow> (if isSafeInteger value \<and> \<not> t < 0 then Some t else None)
      | None \<Rightarrow> None)"

text \<open>\<open>!requestId.value\<close>: absent or empty.\<close>

definition no_value :: "string option \<Rightarrow> bool" where
  "no_value r \<longleftrightarrow> r = None \<or> r = Some []"

definition parseStrictV1 :: "js_record \<Rightarrow> string \<Rightarrow> (string, wire_envelope) result" where
  "parseStrictV1 parsed parsedType =
     (if prop_of parsed ''v'' \<noteq> jint PROTOCOL_V1 then Inl ''invalid_version''
      else if parsedType \<notin> set PROTOCOL_V1_ALLOWED_EVENT_TYPES then Inl ''unsupported_type''
      else case safe_timestamp (prop_of parsed ''timestamp'') of
        None \<Rightarrow> Inl ''invalid_timestamp''
      | Some t \<Rightarrow>
          (case isRecord (prop_of parsed ''payload'') of
             None \<Rightarrow> Inl ''invalid_payload''
           | Some payload \<Rightarrow>
               (case validateRequestId (prop_of parsed ''requestId'') of
                  Inl _ \<Rightarrow> Inl ''invalid_request_id''
                | Inr requestId \<Rightarrow>
                    (if (\<exists>ty \<in> set V1_REQUEST_ID_REQUIRED_TYPES. prop_of parsed ''type'' = JStr ty)
                        \<and> no_value requestId
                     then Inl ''missing_request_id''
                     else Inr \<lparr>env_v = PROTOCOL_V1, env_type = parsedType, env_requestId = requestId,
                            env_timestamp = t, env_payload = payload\<rparr>))))"

definition parseLenient :: "int \<Rightarrow> js_record \<Rightarrow> string \<Rightarrow> (string, wire_envelope) result" where
  "parseLenient now parsed parsedType =
     (if prop_of parsed ''type'' \<noteq> JStr parsedType then Inl ''invalid_type''
      else Inr \<lparr>env_v = PROTOCOL_V1, env_type = parsedType,
             env_requestId = as_str (prop_of parsed ''requestId''),
             env_timestamp = (case safe_timestamp (prop_of parsed ''timestamp'') of Some t \<Rightarrow> t | None \<Rightarrow> now),
             env_payload = (case isRecord (prop_of parsed ''payload'') of Some p \<Rightarrow> p | None \<Rightarrow> [])\<rparr>)"

definition parseMessage ::
  "(string \<Rightarrow> jsval option) \<Rightarrow> bool \<Rightarrow> int \<Rightarrow> string \<Rightarrow> (string, wire_envelope) result" where
  "parseMessage json_parse strictV1 now raw =
     (if strictV1 \<and> byteLength raw > MAX_V1_ENVELOPE_BYTES then Inl ''message_too_large''
      else case json_parse raw of
        None \<Rightarrow> Inl ''invalid_json''
      | Some v \<Rightarrow>
          (case isRecord v of
             None \<Rightarrow> Inl ''invalid_json_object''
           | Some parsed \<Rightarrow>
               (case prop_of parsed ''type'' of
                  JStr ty \<Rightarrow>
                    (let parsedType = trim ty in
                     if parsedType = [] then Inl ''missing_type''
                     else if strictV1 then parseStrictV1 parsed parsedType
                     else parseLenient now parsed parsedType)
                | _ \<Rightarrow> Inl ''missing_type'')))"

text \<open>The value an envelope serialises to: \<open>JSON.stringify\<close> leaves an undefined \<open>requestId\<close> out.\<close>

definition envelope_json :: "wire_envelope \<Rightarrow> jsval" where
  "envelope_json m =
     JObj ([(''v'', jint (env_v m)), (''type'', JStr (env_type m))]
       @ (case env_requestId m of None \<Rightarrow> [] | Some r \<Rightarrow> [(''requestId'', JStr r)])
       @ [(''timestamp'', jint (env_timestamp m)), (''payload'', JObj (env_payload m))])"

section \<open>What the parsers accept\<close>

definition valid_request_id :: "string \<Rightarrow> bool" where
  "valid_request_id s \<longleftrightarrow> 1 \<le> length s \<and> length s \<le> 128 \<and> list_all request_id_char s \<and>
     hd s \<noteq> CHR '' '' \<and> last s \<noteq> CHR '' ''"

lemma printable_ws: "request_id_char c \<Longrightarrow> is_ws c \<longleftrightarrow> c = CHR '' ''"
proof -
  assume c: "request_id_char c"
  have "is_ws c \<longleftrightarrow> (of_char c :: nat) = of_char (CHR '' '')"
    using c by (auto simp: request_id_char_def is_ws_def)
  then show ?thesis by (simp only: of_char_eq_iff)
qed

lemma trim_printable:
  "list_all request_id_char s \<Longrightarrow> s \<noteq> [] \<Longrightarrow> trim s = s \<longleftrightarrow> hd s \<noteq> CHR '' '' \<and> last s \<noteq> CHR '' ''"
  by (auto simp: trim_eq_iff printable_ws list_all_iff)

lemma validateRequestId_Some [simp]:
  "validateRequestId v = Inr (Some s) \<longleftrightarrow> v = JStr s \<and> valid_request_id s"
proof -
  have "validateRequestId (JStr t) = Inr (Some s) \<longleftrightarrow> t = s \<and> valid_request_id s" for t
    using trim_printable [of t]
    by (cases "t = []") (auto simp: validateRequestId_def valid_request_id_def REQUEST_ID_MAX_LENGTH_def Suc_le_eq)
  then show ?thesis by (cases v) (auto simp: validateRequestId_def)
qed

lemma validateRequestId_None [simp]: "validateRequestId v = Inr None \<longleftrightarrow> v = JUndef"
  by (cases v) (auto simp: validateRequestId_def)

lemma validateRequestId_Inr:
  "validateRequestId v = Inr r \<longleftrightarrow>
     (case r of None \<Rightarrow> v = JUndef | Some s \<Rightarrow> v = JStr s \<and> valid_request_id s)"
  by (cases r) auto

lemma safe_timestamp_Some [simp]:
  "safe_timestamp v = Some t \<longleftrightarrow> v = jint t \<and> 0 \<le> t \<and> t \<le> max_safe_integer"
  by (cases v) (auto simp: safe_timestamp_def split: option.splits)

lemma safe_timestamp_jint [simp]:
  "safe_timestamp (jint t) = (if 0 \<le> t \<and> t \<le> max_safe_integer then Some t else None)"
  by (auto simp: safe_timestamp_def)

lemma isRecord_Some [simp]: "isRecord v = Some r \<longleftrightarrow> v = JObj r"
  by (cases v) auto

lemma allowed_types_trimmed: "ty \<in> set PROTOCOL_V1_ALLOWED_EVENT_TYPES \<Longrightarrow> trim ty = ty \<and> ty \<noteq> []"
  by (auto simp: PROTOCOL_V1_ALLOWED_EVENT_TYPES_def PROTOCOL_V1_REQUIRED_EVENT_TYPES_def
      PROTOCOL_V1_RUNTIME_EVENT_TYPES_def trim_eq_iff is_ws_def)

lemma required_id_types_allowed:
  "set V1_REQUEST_ID_REQUIRED_TYPES \<subseteq> set PROTOCOL_V1_ALLOWED_EVENT_TYPES"
  by (simp add: PROTOCOL_V1_ALLOWED_EVENT_TYPES_def PROTOCOL_V1_REQUIRED_EVENT_TYPES_def
      PROTOCOL_V1_RUNTIME_EVENT_TYPES_def V1_REQUEST_ID_REQUIRED_TYPES_def)

lemma valid_request_id_value: "valid_request_id r \<Longrightarrow> \<not> no_value (Some r)"
  by (auto simp: valid_request_id_def no_value_def)

lemma parseStrictV1_Inr:
  "parseStrictV1 parsed ty = Inr m \<longleftrightarrow>
     prop_of parsed ''v'' = jint PROTOCOL_V1 \<and> ty \<in> set PROTOCOL_V1_ALLOWED_EVENT_TYPES \<and>
     prop_of parsed ''timestamp'' = jint (env_timestamp m) \<and>
     0 \<le> env_timestamp m \<and> env_timestamp m \<le> max_safe_integer \<and>
     prop_of parsed ''payload'' = JObj (env_payload m) \<and>
     validateRequestId (prop_of parsed ''requestId'') = Inr (env_requestId m) \<and>
     ((\<exists>t \<in> set V1_REQUEST_ID_REQUIRED_TYPES. prop_of parsed ''type'' = JStr t) \<longrightarrow> env_requestId m \<noteq> None) \<and>
     env_v m = PROTOCOL_V1 \<and> env_type m = ty"
proof -
  have ids: "no_value r \<longleftrightarrow> r = None" if "validateRequestId v = Inr r" for v r
    using that valid_request_id_value by (cases r) (auto simp: no_value_def)
  show ?thesis
    by (cases m)
      (auto simp: parseStrictV1_def ids split: if_splits option.splits sum.splits dest: ids)
qed

section \<open>Properties\<close>

text \<open>
  C36: the strict parser accepts a frame exactly when it is at most 64 KiB of UTF-8, parses to an
  object with version 1, an allowed type (white space around it aside), a timestamp that is a
  non-negative safe integer, an object payload, and a request id that is absent or 1 to 128
  printable ASCII characters not surrounded by blanks, and present if the type as written is one of
  those that need it. The envelope it returns carries exactly these fields.
\<close>

theorem parseMessage_strict_accepts:
  "parseMessage json_parse True now raw = Inr m \<longleftrightarrow>
     byteLength raw \<le> 65536 \<and> env_v m = 1 \<and> env_type m \<in> set PROTOCOL_V1_ALLOWED_EVENT_TYPES \<and>
     0 \<le> env_timestamp m \<and> env_timestamp m \<le> max_safe_integer \<and>
     (\<forall>r. env_requestId m = Some r \<longrightarrow> valid_request_id r) \<and>
     (\<exists>obj ty. json_parse raw = Some (JObj obj) \<and> prop_of obj ''v'' = jint 1 \<and>
        prop_of obj ''type'' = JStr ty \<and> trim ty = env_type m \<and>
        prop_of obj ''timestamp'' = jint (env_timestamp m) \<and>
        prop_of obj ''payload'' = JObj (env_payload m) \<and>
        prop_of obj ''requestId'' = (case env_requestId m of None \<Rightarrow> JUndef | Some r \<Rightarrow> JStr r) \<and>
        (ty \<in> set V1_REQUEST_ID_REQUIRED_TYPES \<longrightarrow> env_requestId m \<noteq> None))"
proof -
  have strict: "parseMessage json_parse True now raw = Inr m \<longleftrightarrow>
      byteLength raw \<le> 65536 \<and> (\<exists>obj ty. json_parse raw = Some (JObj obj) \<and> prop_of obj ''type'' = JStr ty \<and>
        parseStrictV1 obj (trim ty) = Inr m)"
    using allowed_types_trimmed
    by (auto simp: parseMessage_def MAX_V1_ENVELOPE_BYTES_def Let_def parseStrictV1_Inr
        split: option.splits jsval.splits if_splits)
  show ?thesis
    unfolding strict parseStrictV1_Inr validateRequestId_Inr PROTOCOL_V1_def
    by (cases "env_requestId m") auto
qed

definition hello_envelope :: wire_envelope where
  "hello_envelope = envelope 1700000000000 ''hello'' [(''clientId'', JStr ''c1'')] None"

lemma byteLength_ascii: "list_all (\<lambda>c. (of_char c :: nat) < 128) s \<Longrightarrow> byteLength s = int (length s)"
  by (induction s) (auto simp: byteLength_def utf8_encode_def utf8_char_def Let_def)

theorem parseMessage_strict_accepts_witness:
  "parseMessage (\<lambda>_. Some (envelope_json hello_envelope)) True 0 ''{}'' = Inr hello_envelope"
  unfolding parseMessage_strict_accepts
  by (simp add: hello_envelope_def envelope_def envelope_json_def prop_of_def PROTOCOL_V1_def
      byteLength_ascii max_safe_integer_def PROTOCOL_V1_ALLOWED_EVENT_TYPES_def
      PROTOCOL_V1_REQUIRED_EVENT_TYPES_def PROTOCOL_V1_RUNTIME_EVENT_TYPES_def
      V1_REQUEST_ID_REQUIRED_TYPES_def trim_eq_iff is_ws_def)

lemma parse_sent_envelope:
  assumes "m = envelope t ty payload rid" and "ty \<in> set PROTOCOL_V1_ALLOWED_EVENT_TYPES"
    and "0 \<le> t" and "t \<le> max_safe_integer" and "\<forall>r. rid = Some r \<longrightarrow> valid_request_id r"
    and "ty \<in> set V1_REQUEST_ID_REQUIRED_TYPES \<Longrightarrow> rid \<noteq> None"
    and "json_parse raw = Some (envelope_json m)" and "byteLength raw \<le> 65536"
  shows "parseMessage json_parse True now raw = Inr m"
proof -
  have ty: "trim ty = ty" "ty \<noteq> []" using allowed_types_trimmed assms(2) by auto
  obtain obj where obj: "envelope_json m = JObj obj" by (simp add: envelope_json_def)
  then have props: "prop_of obj ''v'' = jint 1" "prop_of obj ''type'' = JStr ty"
    "prop_of obj ''timestamp'' = jint t" "prop_of obj ''payload'' = JObj payload"
    "prop_of obj ''requestId'' = (case rid of None \<Rightarrow> JUndef | Some r \<Rightarrow> JStr r)"
    using assms(1)
    by (auto simp: envelope_json_def envelope_def prop_of_def PROTOCOL_V1_def split: option.splits)
  have "parseStrictV1 obj ty = Inr m"
    unfolding parseStrictV1_Inr validateRequestId_Inr
    using assms props by (auto simp: envelope_def PROTOCOL_V1_def split: option.splits)
  then show ?thesis
    using assms(7,8) obj props(2) ty
    by (simp add: parseMessage_def MAX_V1_ENVELOPE_BYTES_def)
qed



text \<open>
  The request-id requirement looks at the type as written, not at the trimmed type that the
  envelope carries: a frame whose type is \<open>auth\<close> with a blank before it is accepted as an \<open>auth\<close>
  message without a request id.
\<close>

theorem padded_type_skips_request_id:
  "\<exists>obj m. parseMessage (\<lambda>_. Some (JObj obj)) True 0 ''{}'' = Inr m \<and> env_type m = ''auth'' \<and>
     ''auth'' \<in> set V1_REQUEST_ID_REQUIRED_TYPES \<and> env_requestId m = None"
proof -
  let ?obj = "[(''v'', jint 1), (''type'', JStr '' auth''), (''timestamp'', jint 0), (''payload'', JObj [])]"
  have tr: "trim '' auth'' = ''auth''" by (simp add: trim_def is_ws_def)
  have "parseMessage (\<lambda>_. Some (JObj ?obj)) True 0 ''{}'' = Inr (envelope 0 ''auth'' [] None)"
    unfolding parseMessage_def
    by (simp add: Let_def byteLength_ascii MAX_V1_ENVELOPE_BYTES_def prop_of_def tr parseStrictV1_Inr
        envelope_def PROTOCOL_V1_def max_safe_integer_def PROTOCOL_V1_ALLOWED_EVENT_TYPES_def
        PROTOCOL_V1_REQUIRED_EVENT_TYPES_def V1_REQUEST_ID_REQUIRED_TYPES_def)
  moreover have "env_type (envelope 0 ''auth'' [] None) = ''auth'' \<and> env_requestId (envelope 0 ''auth'' [] None) = None"
    by (simp add: envelope_def)
  moreover have "''auth'' \<in> set V1_REQUEST_ID_REQUIRED_TYPES" by (simp add: V1_REQUEST_ID_REQUIRED_TYPES_def)
  ultimately show ?thesis by blast
qed

end
