(* ===== verification/Message_Validation.thy ===== *)
theory Message_Validation
  imports Js_Prelude
begin

text \<open>
  Field validation and input policy: \<^verbatim>\<open>src/server/message-validation.ts\<close> and
  \<^verbatim>\<open>src/server/input-policy.ts\<close>.
\<close>

section \<open>Message fields\<close>

definition parseNonEmptyString :: "jsval \<Rightarrow> string option" where
  "parseNonEmptyString value =
     (case value of
        JStr s \<Rightarrow> (let trimmed = trim s in if trimmed \<noteq> [] then Some trimmed else None)
      | _ \<Rightarrow> None)"

definition parseOptionalInt :: "jsval \<Rightarrow> jsnum option" where
  "parseOptionalInt value =
     (case value of
        JNull \<Rightarrow> None
      | JUndef \<Rightarrow> None
      | JNum n \<Rightarrow> (if num_as_int n \<noteq> None then Some n else None)
      | JStr s \<Rightarrow>
          (if trim s = [] then None
           else (case parseInt s of Fin q \<Rightarrow> Some (Fin q) | _ \<Rightarrow> None))
      | _ \<Rightarrow> None)"

definition parseOptionalBoolean :: "jsval \<Rightarrow> bool option" where
  "parseOptionalBoolean value =
     (case value of
        JNull \<Rightarrow> None
      | JUndef \<Rightarrow> None
      | JBool b \<Rightarrow> Some b
      | JStr s \<Rightarrow>
          (if trim s = [] then None
           else (let normalized = toLowerCase (trim s) in
             if normalized \<in> set [''1'', ''true'', ''yes'', ''on''] then Some True
             else if normalized \<in> set [''0'', ''false'', ''no'', ''off''] then Some False
             else None))
      | _ \<Rightarrow> None)"

lemma parseNonEmptyString_Some:
  "parseNonEmptyString v = Some s \<longleftrightarrow> (\<exists>t. v = JStr t \<and> s = trim t \<and> s \<noteq> [])"
  by (cases v) (auto simp: parseNonEmptyString_def Let_def)

lemma parseNonEmptyString_trimmed: "parseNonEmptyString v = Some s \<Longrightarrow> trim s = s \<and> s \<noteq> []"
  by (auto simp: parseNonEmptyString_Some)

lemma parseOptionalInt_integral: "parseOptionalInt v = Some n \<Longrightarrow> \<exists>i. n = Fin (of_int i)"
proof (cases v)
  case (JStr s)
  assume "parseOptionalInt v = Some n"
  then have "\<exists>q. parseInt s = Fin q \<and> n = Fin q"
    using JStr by (cases "parseInt s") (auto simp: parseOptionalInt_def split: if_splits)
  then show ?thesis by (auto simp: parseInt_def Let_def simp flip: of_int_minus split: if_splits)
qed (auto simp: parseOptionalInt_def split: if_splits)

section \<open>Input policy\<close>

record input_policy_context =
  globalInputDisabled :: bool
  clientInputEnabled :: bool

record input_policy_state =
  ps_inputEnabled :: bool
  ps_globalInputDisabled :: bool

definition buildInputPolicyState :: "input_policy_context \<Rightarrow> input_policy_state" where
  "buildInputPolicyState ctx =
     \<lparr>ps_inputEnabled = (clientInputEnabled ctx \<and> \<not> globalInputDisabled ctx),
      ps_globalInputDisabled = globalInputDisabled ctx\<rparr>"

definition isInputAllowed :: "input_policy_context \<Rightarrow> bool" where
  "isInputAllowed ctx \<longleftrightarrow> clientInputEnabled ctx \<and> \<not> globalInputDisabled ctx"

text \<open>What a client is told is what the server enforces.\<close>

lemma policy_state_truthful: "ps_inputEnabled (buildInputPolicyState ctx) = isInputAllowed ctx"
  by (simp add: buildInputPolicyState_def isInputAllowed_def)

end
