(* ===== verification/Server_Utils.thy ===== *)
theory Server_Utils
  imports Protocol Message_Validation
begin

text \<open>
  Helpers of the bridge server, \<^verbatim>\<open>src/server/bridge-server-utils.ts\<close>: sending an envelope on a
  socket that may be closed or fail, grouping panes into sessions, token comparison, and the
  attach-lag records of a disconnected client.
\<close>

section \<open>Sending\<close>

text \<open>
  What the code sees of a socket: its state and the constants it compares with, and what \<open>send\<close> and
  \<open>close\<close> do when they are called (\<open>sock_close\<close> is absent when the method is, else whether it
  throws; \<open>sock_destroy\<close> whether the transport has a \<open>destroy\<close> method).
\<close>

record socket_view =
  OPEN :: int
  CLOSING :: "int option"
  CLOSED :: "int option"
  readyState :: int
  send_throws :: bool
  sock_close :: "bool option"
  sock_destroy :: bool

datatype socket_call = Sent wire_envelope | SendFailure | CloseCall int string | Destroy

definition sendEnvelope :: "socket_view \<Rightarrow> wire_envelope \<Rightarrow> socket_call list" where
  "sendEnvelope s message =
     (if readyState s \<noteq> OPEN s then
        (if (CLOSING s \<noteq> None \<and> Some (readyState s) = CLOSING s)
             \<or> (CLOSED s \<noteq> None \<and> Some (readyState s) = CLOSED s)
         then [SendFailure] else [])
      else if \<not> send_throws s then [Sent message]
      else SendFailure #
        (case sock_close s of
           None \<Rightarrow> []
         | Some False \<Rightarrow> [CloseCall 1011 ''send_failed'']
         | Some True \<Rightarrow> CloseCall 1011 ''send_failed'' # (if sock_destroy s then [Destroy] else [])))"

definition policy_payload :: "input_policy_state \<Rightarrow> js_record" where
  "policy_payload st = [(''inputEnabled'', JBool (ps_inputEnabled st)),
     (''globalInputDisabled'', JBool (ps_globalInputDisabled st))]"

definition policyUpdateEnvelope :: "int \<Rightarrow> bool \<Rightarrow> bool \<Rightarrow> string option \<Rightarrow> wire_envelope" where
  "policyUpdateEnvelope now clientEnabled globalDisabled requestId =
     envelope now ''policy_update''
       (policy_payload (buildInputPolicyState
          \<lparr>globalInputDisabled = globalDisabled, clientInputEnabled = clientEnabled\<rparr>)) requestId"

definition sendPolicyUpdateEnvelope ::
  "socket_view \<Rightarrow> int \<Rightarrow> bool \<Rightarrow> bool \<Rightarrow> string option \<Rightarrow> socket_call list" where
  "sendPolicyUpdateEnvelope s now clientEnabled globalDisabled requestId =
     sendEnvelope s (policyUpdateEnvelope now clientEnabled globalDisabled requestId)"

section \<open>Sessions\<close>

record session_bucket =
  sb_sessionName :: string
  sb_paneIds :: "string list"
  sb_backendId :: "string option"

definition str_or :: "string \<Rightarrow> jsval \<Rightarrow> string" where
  "str_or d v = (case v of JStr s \<Rightarrow> s | _ \<Rightarrow> d)"

definition row_session :: "js_record \<Rightarrow> string" where
  "row_session pane = str_or ''unknown'' (prop_of pane ''sessionName'')"

definition row_pane :: "js_record \<Rightarrow> string" where
  "row_pane pane = str_or [] (prop_of pane ''paneId'')"

definition row_backend :: "js_record \<Rightarrow> string" where
  "row_backend pane = str_or [] (prop_of pane ''backendId'')"

definition bucketKey :: "js_record \<Rightarrow> string" where
  "bucketKey pane = row_backend pane @ '':'' @ row_session pane"

definition group_pane :: "js_record \<Rightarrow> (string \<times> session_bucket) list \<Rightarrow> (string \<times> session_bucket) list" where
  "group_pane pane grouped =
     (if row_pane pane = [] then grouped
      else case map_of grouped (bucketKey pane) of
        Some b \<Rightarrow> mput grouped (bucketKey pane) (b\<lparr>sb_paneIds := sb_paneIds b @ [row_pane pane]\<rparr>)
      | None \<Rightarrow> mput grouped (bucketKey pane)
          \<lparr>sb_sessionName = row_session pane, sb_paneIds = [row_pane pane],
           sb_backendId = (if row_backend pane \<noteq> [] then Some (row_backend pane) else None)\<rparr>)"

definition groupSessionsByName :: "js_record list \<Rightarrow> session_bucket list" where
  "groupSessionsByName panes = map snd (fold group_pane panes [])"

section \<open>Tokens and attach lag\<close>

definition tokenEquals :: "string \<Rightarrow> string \<Rightarrow> bool" where
  "tokenEquals expected candidate =
     (let a = utf8_encode expected; b = utf8_encode candidate
      in if length a \<noteq> length b then False else list_all2 (=) a b)"

definition clearClientAttachLag :: "(string \<times> 'v) list \<Rightarrow> string \<Rightarrow> (string \<times> 'v) list" where
  "clearClientAttachLag pending client =
     delete_while_iterating (\<lambda>key _. startsWith key (client @ '':'')) pending pending"

section \<open>Lemmas\<close>

lemma tokenEquals_iff: "tokenEquals expected candidate \<longleftrightarrow> expected = candidate"
  by (auto simp: tokenEquals_def Let_def list_all2_eq [symmetric] dest: utf8_encode_inj)

lemma keys_distinct_group: "keys_distinct g \<Longrightarrow> keys_distinct (fold group_pane panes g)"
  by (induction panes arbitrary: g) (auto simp: group_pane_def split: option.splits)

definition in_bucket :: "string \<Rightarrow> js_record \<Rightarrow> bool" where
  "in_bucket k pane \<longleftrightarrow> row_pane pane \<noteq> [] \<and> bucketKey pane = k"

lemma grouped_lookup:
  "map_of (fold group_pane panes []) k =
     (case filter (in_bucket k) panes of
        [] \<Rightarrow> None
      | p # ps \<Rightarrow> Some \<lparr>sb_sessionName = row_session p, sb_paneIds = map row_pane (p # ps),
           sb_backendId = (if row_backend p \<noteq> [] then Some (row_backend p) else None)\<rparr>)"
proof (induction panes rule: rev_induct)
  case Nil
  then show ?case by simp
next
  case (snoc x xs)
  let ?f = "filter (in_bucket k) xs"
  show ?case
  proof (cases "in_bucket k x")
    case True
    then have "row_pane x \<noteq> []" "bucketKey x = k" by (simp_all add: in_bucket_def)
    then show ?thesis using snoc True by (cases ?f) (auto simp: group_pane_def)
  next
    case False
    then have "row_pane x = [] \<or> bucketKey x \<noteq> k" by (auto simp: in_bucket_def)
    then have "map_of (fold group_pane (xs @ [x]) []) k = map_of (fold group_pane xs []) k"
      by (auto simp: group_pane_def split: option.splits)
    then show ?thesis using snoc False by simp
  qed
qed

lemma bucketKey_inj:
  assumes "CHR '':'' \<notin> set (row_backend p)" and "CHR '':'' \<notin> set (row_backend q)"
  shows "bucketKey p = bucketKey q \<longleftrightarrow> row_backend p = row_backend q \<and> row_session p = row_session q"
  using split_on_append_sep [OF assms(1), of "row_session p"] split_on_append_sep [OF assms(2), of "row_session q"]
  by (auto simp: bucketKey_def)

definition bucket_of :: "js_record list \<Rightarrow> js_record \<Rightarrow> session_bucket" where
  "bucket_of panes p =
     \<lparr>sb_sessionName = row_session p,
      sb_paneIds = map row_pane (filter (\<lambda>q. row_pane q \<noteq> [] \<and> row_backend q = row_backend p
        \<and> row_session q = row_session p) panes),
      sb_backendId = (if row_backend p \<noteq> [] then Some (row_backend p) else None)\<rparr>"

lemma grouped_entries:
  assumes colon: "\<forall>p \<in> set panes. CHR '':'' \<notin> set (row_backend p)"
  shows "map_of (fold group_pane panes []) k = Some b \<longleftrightarrow>
    (\<exists>p \<in> set panes. row_pane p \<noteq> [] \<and> bucketKey p = k \<and> b = bucket_of panes p)"
proof -
  have same: "filter (in_bucket (bucketKey p)) panes =
      filter (\<lambda>q. row_pane q \<noteq> [] \<and> row_backend q = row_backend p \<and> row_session q = row_session p) panes"
    if "p \<in> set panes" for p
    using bucketKey_inj colon that by (intro filter_cong) (auto simp: in_bucket_def)
  have first: "bucket_of panes p = \<lparr>sb_sessionName = row_session q, sb_paneIds = map row_pane (q # qs),
      sb_backendId = (if row_backend q \<noteq> [] then Some (row_backend q) else None)\<rparr>"
    if p: "p \<in> set panes" "in_bucket k p" and f: "filter (in_bucket k) panes = q # qs" for p q qs
  proof -
    have k: "k = bucketKey p" using p by (simp add: in_bucket_def)
    have "q \<in> set (filter (in_bucket k) panes)" using f by simp
    then have "q \<in> set panes" "bucketKey q = bucketKey p" using k by (auto simp: in_bucket_def)
    then have "row_backend q = row_backend p" "row_session q = row_session p"
      using bucketKey_inj colon p(1) by blast+
    then show ?thesis using same [OF p(1)] f k by (simp add: bucket_of_def)
  qed
  have ex: "(\<exists>p \<in> set panes. row_pane p \<noteq> [] \<and> bucketKey p = k \<and> b = bucket_of panes p)
      \<longleftrightarrow> (\<exists>p \<in> set panes. in_bucket k p \<and> b = bucket_of panes p)"
    by (auto simp: in_bucket_def)
  show ?thesis
  proof (cases "filter (in_bucket k) panes")
    case Nil
    then show ?thesis unfolding ex grouped_lookup by (auto simp: filter_empty_conv)
  next
    case (Cons q qs)
    then have "q \<in> set panes" "in_bucket k q" by (auto simp: filter_eq_Cons_iff)
    then show ?thesis unfolding ex grouped_lookup Cons using first [OF _ _ Cons] by auto
  qed
qed

section \<open>Properties\<close>

text \<open>
  Sessions are grouped by backend and session name. When no backend id contains a colon, the
  buckets are exactly one per pair of backend and session name of a listed pane, each with all the
  pane ids of that pair in the order listed, and no two buckets are for the same pair.
\<close>

theorem session_groups_exact:
  assumes "\<forall>p \<in> set panes. CHR '':'' \<notin> set (row_backend p)"
  shows "set (groupSessionsByName panes) = bucket_of panes ` {p \<in> set panes. row_pane p \<noteq> []}
    \<and> distinct (map (\<lambda>b. (sb_backendId b, sb_sessionName b)) (groupSessionsByName panes))"
proof
  let ?g = "fold group_pane panes []"
  have kd: "keys_distinct ?g" by (rule keys_distinct_group) simp
  have "set (groupSessionsByName panes) = {b. \<exists>k. map_of ?g k = Some b}"
    using kd by (force simp: groupSessionsByName_def)
  then show "set (groupSessionsByName panes) = bucket_of panes ` {p \<in> set panes. row_pane p \<noteq> []}"
    using grouped_entries [OF assms] by auto
  have "inj_on (\<lambda>(k, b). (sb_backendId b, sb_sessionName b)) (set ?g)"
  proof (rule inj_onI)
    fix x y assume "x \<in> set ?g" "y \<in> set ?g"
      and eq: "(case x of (k, b) \<Rightarrow> (sb_backendId b, sb_sessionName b)) = (case y of (k, b) \<Rightarrow> (sb_backendId b, sb_sessionName b))"
    then have "map_of ?g (fst x) = Some (snd x)" "map_of ?g (fst y) = Some (snd y)" using kd by simp_all
    then obtain p q where "p \<in> set panes" "bucketKey p = fst x" "snd x = bucket_of panes p"
      and "q \<in> set panes" "bucketKey q = fst y" "snd y = bucket_of panes q"
      using grouped_entries [OF assms] by metis
    moreover from this eq have "row_backend p = row_backend q \<and> row_session p = row_session q"
      by (cases x, cases y) (auto simp: bucket_of_def split: if_splits)
    ultimately show "x = y" by (cases x, cases y) (auto simp: bucket_of_def bucketKey_def)
  qed
  moreover have "distinct ?g" using kd by (simp add: distinct_map)
  ultimately have "distinct (map (\<lambda>(k, b). (sb_backendId b, sb_sessionName b)) ?g)"
    by (simp add: distinct_map)
  then show "distinct (map (\<lambda>b. (sb_backendId b, sb_sessionName b)) (groupSessionsByName panes))"
    by (simp add: groupSessionsByName_def comp_def case_prod_unfold)
qed

theorem session_groups_exact_witness:
  "groupSessionsByName
     [[(''paneId'', JStr ''p1''), (''sessionName'', JStr ''s''), (''backendId'', JStr ''tmux'')],
      [(''paneId'', JStr ''p2''), (''sessionName'', JStr ''s''), (''backendId'', JStr ''cmux'')]]
    = [\<lparr>sb_sessionName = ''s'', sb_paneIds = [''p1''], sb_backendId = Some ''tmux''\<rparr>,
       \<lparr>sb_sessionName = ''s'', sb_paneIds = [''p2''], sb_backendId = Some ''cmux''\<rparr>]
   \<and> distinct (map (\<lambda>b. (sb_backendId b, sb_sessionName b)) (groupSessionsByName
     [[(''paneId'', JStr ''p1''), (''sessionName'', JStr ''s''), (''backendId'', JStr ''tmux'')],
      [(''paneId'', JStr ''p2''), (''sessionName'', JStr ''s''), (''backendId'', JStr ''cmux'')]]))"
  (is "?a \<and> ?b")
proof
  show ?a
    by (simp add: groupSessionsByName_def group_pane_def row_pane_def row_backend_def row_session_def
        bucketKey_def prop_of_def str_or_def)
  show ?b
    by (rule session_groups_exact [THEN conjunct2])
      (simp add: row_backend_def prop_of_def str_or_def)
qed

lemma clearClientAttachLag_filter:
  "keys_distinct m \<Longrightarrow> clearClientAttachLag m client = filter (\<lambda>(k, v). \<not> startsWith k (client @ '':'')) m"
  by (simp add: clearClientAttachLag_def delete_while_iterating_filter)

lemma lag_key_prefix:
  assumes "CHR '':'' \<notin> set c" and "CHR '':'' \<notin> set d"
  shows "startsWith (d @ '':'' @ p) (c @ '':'') \<longleftrightarrow> d = c"
proof
  assume "startsWith (d @ '':'' @ p) (c @ '':'')"
  then obtain t where "d @ CHR '':'' # p = c @ CHR '':'' # t" by (auto simp: startsWith_prefix)
  then have "indexOf (d @ CHR '':'' # p) CHR '':'' = indexOf (c @ CHR '':'' # t) CHR '':''" by simp
  then have "length d = length c" using indexOf_append assms by simp
  then show "d = c" using \<open>d @ CHR '':'' # p = c @ CHR '':'' # t\<close> by simp
qed (auto simp: startsWith_prefix)

text \<open>The lag records of other clients stay when one disconnects, and its own go.\<close>

lemma clearClientAttachLag_exact:
  assumes "keys_distinct m" and "CHR '':'' \<notin> set c" and "CHR '':'' \<notin> set d"
  shows "map_of (clearClientAttachLag m c) (d @ '':'' @ p) = (if d = c then None else map_of m (d @ '':'' @ p))"
  using map_of_filter_pair [OF assms(1), of "\<lambda>k v. \<not> startsWith k (c @ '':'')" "d @ '':'' @ p"]
    lag_key_prefix [OF assms(2,3), of p]
  by (auto simp: clearClientAttachLag_filter [OF assms(1)] split: option.splits)

end
