(* ===== verification/Lane_Arbiter.thy ===== *)
theory Lane_Arbiter
  imports Js_Prelude
begin

text \<open>
  Arbitration of a pane's input lane, \<^verbatim>\<open>src/server/bridge-server-utils.ts\<close>: the lease-based
  \<open>PaneInputOwnershipArbiter\<close>, the legacy \<open>Map\<close> of owners, and the functions that dispatch on the
  two. The interface \<open>lane_store\<close> is what the server relies on; both containers provide it.
  Clock readings are arguments.
\<close>

section \<open>The arbiter\<close>

datatype claim_result = Claimed bool | Refused string bool

definition DEFAULT_PANE_INPUT_LEASE_DURATION_MS :: rat where
  "DEFAULT_PANE_INPUT_LEASE_DURATION_MS = 30000"

record owner_lease =
  clientId :: string
  expiresAtMs :: rat

record ownership_row =
  row_paneId :: string
  row_ownerClientId :: string
  row_expiresAtMs :: "rat option"

record lane_arbiter =
  paneOwners :: "(string \<times> owner_lease) list"
  leaseDurationMs :: rat

definition resolveLeaseDurationMs :: "jsval \<Rightarrow> rat" where
  "resolveLeaseDurationMs v =
     (case v of
        JNum (Fin q) \<Rightarrow> (if q \<le> 0 then DEFAULT_PANE_INPUT_LEASE_DURATION_MS else q)
      | _ \<Rightarrow> DEFAULT_PANE_INPUT_LEASE_DURATION_MS)"

definition new_arbiter :: "jsval \<Rightarrow> lane_arbiter" where
  "new_arbiter lease = \<lparr>paneOwners = [], leaseDurationMs = resolveLeaseDurationMs lease\<rparr>"

definition setOwner :: "lane_arbiter \<Rightarrow> rat \<Rightarrow> string \<Rightarrow> string \<Rightarrow> lane_arbiter" where
  "setOwner a now paneId client =
     a\<lparr>paneOwners := mput (paneOwners a) paneId
          \<lparr>clientId = client, expiresAtMs = now + leaseDurationMs a\<rparr>\<rparr>"

definition expireStaleOwners :: "lane_arbiter \<Rightarrow> rat \<Rightarrow> lane_arbiter" where
  "expireStaleOwners a now =
     a\<lparr>paneOwners := delete_while_iterating (\<lambda>paneId lease. \<not> expiresAtMs lease > now)
          (paneOwners a) (paneOwners a)\<rparr>"

text \<open>\<open>!currentOwner || currentOwner === clientId\<close>: an empty string is no owner either.\<close>

definition owner_free :: "string option \<Rightarrow> string \<Rightarrow> bool" where
  "owner_free owner client \<longleftrightarrow> owner = None \<or> owner = Some [] \<or> owner = Some client"

text \<open>A claim reads the clock twice, when it expires leases and when it grants one.\<close>

definition arbiter_claim ::
  "lane_arbiter \<Rightarrow> rat \<Rightarrow> rat \<Rightarrow> string \<Rightarrow> string \<Rightarrow> bool \<Rightarrow> bool \<Rightarrow> lane_arbiter \<times> claim_result" where
  "arbiter_claim a now now' paneId client overrideRequested overrideAllowed =
     (let a1 = expireStaleOwners a now;
          currentOwner = map_option clientId (map_of (paneOwners a1) paneId)
      in if owner_free currentOwner client then (setOwner a1 now' paneId client, Claimed False)
         else if overrideRequested \<and> overrideAllowed then (setOwner a1 now' paneId client, Claimed True)
         else (a1, Refused (the currentOwner) overrideAllowed))"

definition releasePaneIfOwnedBy :: "lane_arbiter \<Rightarrow> rat \<Rightarrow> string \<Rightarrow> string \<Rightarrow> lane_arbiter \<times> bool" where
  "releasePaneIfOwnedBy a now paneId client =
     (let a1 = expireStaleOwners a now
      in if map_option clientId (map_of (paneOwners a1) paneId) = Some client
         then (a1\<lparr>paneOwners := mdelete (paneOwners a1) paneId\<rparr>, True)
         else (a1, False))"

fun release_loop :: "('v \<Rightarrow> bool) \<Rightarrow> (string \<times> 'v) list \<Rightarrow> (string \<times> 'v) list \<Rightarrow> nat \<Rightarrow> (string \<times> 'v) list \<times> nat" where
  "release_loop mine [] m released = (m, released)"
| "release_loop mine ((p, v) # rest) m released =
     (if \<not> mine v then release_loop mine rest m released
      else release_loop mine rest (mdelete m p) (released + 1))"

definition releaseClient :: "lane_arbiter \<Rightarrow> rat \<Rightarrow> string \<Rightarrow> lane_arbiter \<times> nat" where
  "releaseClient a now client =
     (let a1 = expireStaleOwners a now;
          (m, released) = release_loop (\<lambda>lease. clientId lease = client) (paneOwners a1) (paneOwners a1) 0
      in (a1\<lparr>paneOwners := m\<rparr>, released))"

definition arbiter_snapshot ::
  "(string \<Rightarrow> 'k::linorder) \<Rightarrow> lane_arbiter \<Rightarrow> rat \<Rightarrow> lane_arbiter \<times> ownership_row list" where
  "arbiter_snapshot collate a now =
     (let a1 = expireStaleOwners a now
      in (a1, sort_key (\<lambda>row. collate (row_paneId row))
            (map (\<lambda>(p, lease). \<lparr>row_paneId = p, row_ownerClientId = clientId lease,
                row_expiresAtMs = Some (expiresAtMs lease)\<rparr>) (paneOwners a1))))"

section \<open>The legacy map and the dispatch\<close>

datatype ownership_state = Arbiter lane_arbiter | Legacy "(string \<times> string) list" | Unowned

definition legacy_claim ::
  "(string \<times> string) list \<Rightarrow> string \<Rightarrow> string \<Rightarrow> bool \<Rightarrow> bool \<Rightarrow> (string \<times> string) list \<times> claim_result" where
  "legacy_claim m paneId client overrideRequested overrideAllowed =
     (let currentOwner = map_of m paneId
      in if owner_free currentOwner client then (mput m paneId client, Claimed False)
         else if overrideRequested \<and> overrideAllowed then (mput m paneId client, Claimed True)
         else (m, Refused (the currentOwner) overrideAllowed))"

definition legacy_release :: "(string \<times> string) list \<Rightarrow> string \<Rightarrow> string \<Rightarrow> (string \<times> string) list \<times> bool" where
  "legacy_release m paneId client =
     (if map_of m paneId = Some client then (mdelete m paneId, True) else (m, False))"

definition legacy_release_client :: "(string \<times> string) list \<Rightarrow> string \<Rightarrow> (string \<times> string) list \<times> nat" where
  "legacy_release_client m client = release_loop (\<lambda>owner. owner = client) m m 0"

definition claimPaneInputOwnership ::
  "ownership_state \<Rightarrow> rat \<Rightarrow> rat \<Rightarrow> string \<Rightarrow> string \<Rightarrow> bool \<Rightarrow> bool
     \<Rightarrow> ownership_state \<times> claim_result option" where
  "claimPaneInputOwnership st now now' paneId client ovr al =
     (case st of
        Unowned \<Rightarrow> (Unowned, None)
      | Arbiter a \<Rightarrow> (let (a', r) = arbiter_claim a now now' paneId client ovr al in (Arbiter a', Some r))
      | Legacy m \<Rightarrow> (let (m', r) = legacy_claim m paneId client ovr al in (Legacy m', Some r)))"

definition releasePaneInputOwnership ::
  "ownership_state \<Rightarrow> rat \<Rightarrow> string \<Rightarrow> string \<Rightarrow> ownership_state \<times> bool" where
  "releasePaneInputOwnership st now paneId client =
     (case st of
        Unowned \<Rightarrow> (Unowned, False)
      | Arbiter a \<Rightarrow> (let (a', r) = releasePaneIfOwnedBy a now paneId client in (Arbiter a', r))
      | Legacy m \<Rightarrow> (let (m', r) = legacy_release m paneId client in (Legacy m', r)))"

definition releaseClientInputOwnership ::
  "ownership_state \<Rightarrow> rat \<Rightarrow> string \<Rightarrow> ownership_state \<times> nat" where
  "releaseClientInputOwnership st now client =
     (case st of
        Unowned \<Rightarrow> (Unowned, 0)
      | Arbiter a \<Rightarrow> (let (a', n) = releaseClient a now client in (Arbiter a', n))
      | Legacy m \<Rightarrow> (let (m', n) = legacy_release_client m client in (Legacy m', n)))"

definition snapshotPaneInputOwnership ::
  "(string \<Rightarrow> 'k::linorder) \<Rightarrow> ownership_state \<Rightarrow> rat \<Rightarrow> ownership_state \<times> ownership_row list" where
  "snapshotPaneInputOwnership collate st now =
     (case st of
        Unowned \<Rightarrow> (Unowned, [])
      | Arbiter a \<Rightarrow> (let (a', rows) = arbiter_snapshot collate a now in (Arbiter a', rows))
      | Legacy m \<Rightarrow> (Legacy m, sort_key (\<lambda>row. collate (row_paneId row))
            (map (\<lambda>(p, owner). \<lparr>row_paneId = p, row_ownerClientId = owner, row_expiresAtMs = None\<rparr>) m)))"

section \<open>The interface\<close>

text \<open>
  The specification of a lane store is a map from panes to owners. \<open>lane_op\<close> are the operations,
  \<open>spec_op\<close> what each does to the map and what it returns.
\<close>

datatype lane_op = ClaimOp string string bool bool | ReleaseOp string string | ReleaseAllOp string

datatype lane_answer = ClaimAns claim_result | ReleaseAns bool | ReleaseAllAns nat

fun spec_op :: "(string \<Rightarrow> string option) \<Rightarrow> lane_op \<Rightarrow> (string \<Rightarrow> string option) \<times> lane_answer" where
  "spec_op m (ClaimOp p c ovr al) =
     (case m p of
        Some d \<Rightarrow> (if d = c then (m(p \<mapsto> c), ClaimAns (Claimed False))
                   else if ovr \<and> al then (m(p \<mapsto> c), ClaimAns (Claimed True))
                   else (m, ClaimAns (Refused d al)))
      | None \<Rightarrow> (m(p \<mapsto> c), ClaimAns (Claimed False)))"
| "spec_op m (ReleaseOp p c) =
     (if m p = Some c then (m(p := None), ReleaseAns True) else (m, ReleaseAns False))"
| "spec_op m (ReleaseAllOp c) =
     ((\<lambda>p. if m p = Some c then None else m p), ReleaseAllAns (card {p. m p = Some c}))"

fun op_client :: "lane_op \<Rightarrow> string" where
  "op_client (ClaimOp p c ovr al) = c"
| "op_client (ReleaseOp p c) = c"
| "op_client (ReleaseAllOp c) = c"

fun run_ops :: "('s \<Rightarrow> lane_op \<Rightarrow> 's \<times> lane_answer) \<Rightarrow> 's \<Rightarrow> lane_op list \<Rightarrow> 's \<times> lane_answer list" where
  "run_ops f s [] = (s, [])"
| "run_ops f s (x # xs) = (let (s1, r) = f s x; (s2, rs) = run_ops f s1 xs in (s2, r # rs))"

locale lane_store =
  fixes inv :: "'s \<Rightarrow> bool"
    and owner :: "'s \<Rightarrow> string \<Rightarrow> string option"
    and exec :: "'s \<Rightarrow> lane_op \<Rightarrow> 's \<times> lane_answer"
  assumes exec_inv: "inv s \<Longrightarrow> op_client x \<noteq> [] \<Longrightarrow> exec s x = (s', r) \<Longrightarrow> inv s'"
    and exec_spec: "inv s \<Longrightarrow> op_client x \<noteq> [] \<Longrightarrow> exec s x = (s', r) \<Longrightarrow> spec_op (owner s) x = (owner s', r)"
begin

lemma run_refines_spec:
  "inv s \<Longrightarrow> \<forall>x \<in> set xs. op_client x \<noteq> [] \<Longrightarrow> run_ops exec s xs = (s', rs) \<Longrightarrow>
   inv s' \<and> run_ops spec_op (owner s) xs = (owner s', rs)"
proof (induction xs arbitrary: s rs)
  case Nil
  then show ?case by simp
next
  case (Cons x xs)
  obtain s1 r where x: "exec s x = (s1, r)" by (metis surj_pair)
  obtain s2 rs2 where xs: "run_ops exec s1 xs = (s2, rs2)" by (metis surj_pair)
  have "inv s1" "spec_op (owner s) x = (owner s1, r)"
    using exec_inv [OF _ _ x] exec_spec [OF _ _ x] Cons.prems by auto
  with Cons.IH [of s1 rs2] show ?case using Cons.prems x xs by auto
qed

lemma claim_grants:
  "inv s \<Longrightarrow> c \<noteq> [] \<Longrightarrow> exec s (ClaimOp p c ovr al) = (s', ClaimAns (Claimed b)) \<Longrightarrow>
   owner s' = (owner s)(p \<mapsto> c) \<and> (b \<longleftrightarrow> (\<exists>d. owner s p = Some d \<and> d \<noteq> c \<and> ovr \<and> al))"
  using exec_spec [of s "ClaimOp p c ovr al" s' "ClaimAns (Claimed b)"]
  by (auto split: option.splits if_splits)

lemma claim_excludes:
  assumes "inv s" and "c \<noteq> []" and "d \<noteq> []" and "d \<noteq> c" and "\<not> (ovr' \<and> al')"
    and "exec s (ClaimOp p c ovr al) = (s1, ClaimAns (Claimed b))"
    and "exec s1 (ClaimOp p d ovr' al') = (s2, r)"
  shows "r = ClaimAns (Refused c al') \<and> owner s2 = owner s1"
proof -
  have "owner s1 p = Some c" using claim_grants [OF assms(1,2,6)] by simp
  moreover have "inv s1" using exec_inv [OF assms(1) _ assms(6)] assms(2) by simp
  ultimately have "owner s1 p = Some c" and "inv s1" by simp_all
  then show ?thesis using exec_spec [OF _ _ assms(7)] assms(3,4,5) by auto
qed

end

section \<open>Both containers provide it\<close>

definition live_owner :: "rat \<Rightarrow> lane_arbiter \<Rightarrow> string \<Rightarrow> string option" where
  "live_owner now a p =
     (case map_of (paneOwners a) p of
        Some lease \<Rightarrow> (if now < expiresAtMs lease then Some (clientId lease) else None)
      | None \<Rightarrow> None)"

definition arbiter_ok :: "lane_arbiter \<Rightarrow> bool" where
  "arbiter_ok a \<longleftrightarrow> keys_distinct (paneOwners a) \<and> 0 < leaseDurationMs a \<and>
     (\<forall>p lease. map_of (paneOwners a) p = Some lease \<longrightarrow> clientId lease \<noteq> [])"

definition legacy_ok :: "(string \<times> string) list \<Rightarrow> bool" where
  "legacy_ok m \<longleftrightarrow> keys_distinct m \<and> (\<forall>p. map_of m p \<noteq> Some [])"

fun arbiter_exec :: "rat \<Rightarrow> lane_arbiter \<Rightarrow> lane_op \<Rightarrow> lane_arbiter \<times> lane_answer" where
  "arbiter_exec now a (ClaimOp p c ovr al) = map_prod id ClaimAns (arbiter_claim a now now p c ovr al)"
| "arbiter_exec now a (ReleaseOp p c) = map_prod id ReleaseAns (releasePaneIfOwnedBy a now p c)"
| "arbiter_exec now a (ReleaseAllOp c) = map_prod id ReleaseAllAns (releaseClient a now c)"

fun legacy_exec :: "(string \<times> string) list \<Rightarrow> lane_op \<Rightarrow> (string \<times> string) list \<times> lane_answer" where
  "legacy_exec m (ClaimOp p c ovr al) = map_prod id ClaimAns (legacy_claim m p c ovr al)"
| "legacy_exec m (ReleaseOp p c) = map_prod id ReleaseAns (legacy_release m p c)"
| "legacy_exec m (ReleaseAllOp c) = map_prod id ReleaseAllAns (legacy_release_client m c)"

lemma release_loop_count:
  "release_loop mine es m n = (m', n') \<Longrightarrow>
   m' = delete_while_iterating (\<lambda>_. mine) es m \<and> n' = n + length (filter (\<lambda>(p, v). mine v) es)"
  by (induction mine es m n rule: release_loop.induct) (auto split: if_splits)

lemma release_loop_filter:
  assumes "keys_distinct m" and "release_loop mine m m 0 = (m', n)"
  shows "m' = filter (\<lambda>(p, v). \<not> mine v) m" and "n = card {p. \<exists>v. map_of m p = Some v \<and> mine v}"
proof -
  have m': "m' = delete_while_iterating (\<lambda>_. mine) m m" and n: "n = length (filter (\<lambda>(p, v). mine v) m)"
    using release_loop_count [OF assms(2)] by auto
  show "m' = filter (\<lambda>(p, v). \<not> mine v) m" using m' delete_while_iterating_filter [OF assms(1)] by simp
  have "distinct (map fst (filter (\<lambda>(p, v). mine v) m))" using assms(1) by (rule keys_distinct_filter)
  then have "n = card (fst ` set (filter (\<lambda>(p, v). mine v) m))"
    using n by (metis distinct_card length_map set_map)
  moreover have "fst ` set (filter (\<lambda>(p, v). mine v) m) = {p. \<exists>v. map_of m p = Some v \<and> mine v}"
    using assms(1) by force
  ultimately show "n = card {p. \<exists>v. map_of m p = Some v \<and> mine v}" by simp
qed

lemma legacy_ok_ops:
  "legacy_ok m \<Longrightarrow> legacy_ok (filter (\<lambda>(p, c). P p c) m)"
  "legacy_ok m \<Longrightarrow> c \<noteq> [] \<Longrightarrow> legacy_ok (mput m p c)"
  "legacy_ok m \<Longrightarrow> legacy_ok (mdelete m p)"
  by (auto simp: legacy_ok_def map_of_filter_pair split: option.splits)

lemma claim_decision:
  "m p \<noteq> Some [] \<Longrightarrow> spec_op m (ClaimOp p c ovr al) =
     (if owner_free (m p) c then (m(p \<mapsto> c), ClaimAns (Claimed False))
      else if ovr \<and> al then (m(p \<mapsto> c), ClaimAns (Claimed True))
      else (m, ClaimAns (Refused (the (m p)) al)))"
  by (auto simp: owner_free_def split: option.splits)

lemma legacy_exec_lane:
  assumes "legacy_ok m" and "op_client x \<noteq> []" and "legacy_exec m x = (m', r)"
  shows "legacy_ok m' \<and> spec_op (map_of m) x = (map_of m', r)"
proof (cases x)
  case (ClaimOp p c ovr al)
  have ne: "map_of m p \<noteq> Some []" using assms(1) by (simp add: legacy_ok_def)
  show ?thesis
    using assms legacy_ok_ops(2) [OF assms(1)] ClaimOp
    unfolding ClaimOp claim_decision [where m = "map_of m", OF ne]
    by (auto simp: legacy_claim_def Let_def split: if_splits)
next
  case (ReleaseOp p c)
  then show ?thesis
    using assms legacy_ok_ops(3) [OF assms(1)] by (auto simp: legacy_release_def split: if_splits)
next
  case (ReleaseAllOp c)
  then obtain n where loop: "release_loop (\<lambda>owner. owner = c) m m 0 = (m', n)" and r: "r = ReleaseAllAns n"
    using assms(3) by (auto simp: legacy_release_client_def map_prod_def split: prod.splits)
  have kd: "keys_distinct m" using assms(1) by (simp add: legacy_ok_def)
  note f = release_loop_filter [OF kd loop]
  have "map_of m' = (\<lambda>p. if map_of m p = Some c then None else map_of m p)"
    unfolding f(1) using map_of_filter_pair [OF kd, of "\<lambda>p v. v \<noteq> c"] by (auto split: option.splits)
  then show ?thesis
    using legacy_ok_ops(1) [OF assms(1)] f r ReleaseAllOp by simp
qed

interpretation legacy: lane_store legacy_ok map_of legacy_exec
  by unfold_locales (use legacy_exec_lane in blast)+

lemma map_of_expired:
  "keys_distinct (paneOwners a) \<Longrightarrow>
   map_of (paneOwners (expireStaleOwners a now)) p =
     (case map_of (paneOwners a) p of None \<Rightarrow> None | Some l \<Rightarrow> if now < expiresAtMs l then Some l else None)"
  by (simp add: expireStaleOwners_def delete_while_iterating_filter map_of_filter_pair)

lemma arbiter_ok_expire:
  "arbiter_ok a \<Longrightarrow> arbiter_ok (expireStaleOwners a now)"
  using map_of_expired [of a now]
  by (auto simp: arbiter_ok_def expireStaleOwners_def delete_while_iterating_filter split: option.splits if_splits)

lemma live_owner_expire:
  "arbiter_ok a \<Longrightarrow> map_option clientId (map_of (paneOwners (expireStaleOwners a now)) p) = live_owner now a p"
  by (auto simp: map_of_expired live_owner_def arbiter_ok_def split: option.splits)

lemma live_owner_expired [simp]:
  "arbiter_ok a \<Longrightarrow> live_owner now (expireStaleOwners a now) = live_owner now a"
  by (rule ext) (auto simp: map_of_expired live_owner_def arbiter_ok_def split: option.splits)

lemma leaseDuration_expire [simp]: "leaseDurationMs (expireStaleOwners a now) = leaseDurationMs a"
  by (simp add: expireStaleOwners_def)

lemma setOwner_ok: "arbiter_ok a \<Longrightarrow> c \<noteq> [] \<Longrightarrow> arbiter_ok (setOwner a now p c)"
  by (auto simp: arbiter_ok_def setOwner_def split: if_splits)

lemma setOwner_live:
  "arbiter_ok a \<Longrightarrow> now \<le> now' \<Longrightarrow> live_owner now (setOwner a now' p c) = (live_owner now a)(p \<mapsto> c)"
  by (rule ext) (auto simp: live_owner_def setOwner_def arbiter_ok_def)

lemma live_owner_ne: "arbiter_ok a \<Longrightarrow> live_owner now a p \<noteq> Some []"
  by (auto simp: live_owner_def arbiter_ok_def split: option.splits)

lemma arbiter_exec_lane:
  assumes ok: "arbiter_ok a" and "op_client x \<noteq> []" and "arbiter_exec now a x = (a', r)"
  shows "arbiter_ok a' \<and> spec_op (live_owner now a) x = (live_owner now a', r)"
proof -
  let ?e = "expireStaleOwners a now"
  have oke: "arbiter_ok ?e" by (rule arbiter_ok_expire [OF ok])
  show ?thesis
  proof (cases x)
    case (ClaimOp p c ovr al)
    have ex: "arbiter_exec now a x = map_prod id ClaimAns
        (if owner_free (live_owner now a p) c then (setOwner ?e now p c, Claimed False)
         else if ovr \<and> al then (setOwner ?e now p c, Claimed True)
         else (?e, Refused (the (live_owner now a p)) al))"
      unfolding ClaimOp arbiter_exec.simps arbiter_claim_def Let_def live_owner_expire [OF ok] ..
    have c: "c \<noteq> []" using assms(2) ClaimOp by simp
    note so = setOwner_ok [OF oke c, of now p] setOwner_live [OF oke order_refl, of now p c]
      live_owner_expired [OF ok, of now]
    show ?thesis
      unfolding ClaimOp claim_decision [where m = "live_owner now a", OF live_owner_ne [OF ok]]
      using assms(3) so oke unfolding ex by (auto split: if_splits)
  next
    case (ReleaseOp p c)
    have "live_owner now (?e\<lparr>paneOwners := mdelete (paneOwners ?e) p\<rparr>) = (live_owner now a)(p := None)"
      using live_owner_expired [OF ok, of now] by (auto simp: live_owner_def fun_eq_iff)
    moreover have "arbiter_ok (?e\<lparr>paneOwners := mdelete (paneOwners ?e) p\<rparr>)"
      using oke by (auto simp: arbiter_ok_def split: if_splits)
    moreover have "arbiter_exec now a x = map_prod id ReleaseAns
        (if live_owner now a p = Some c then (?e\<lparr>paneOwners := mdelete (paneOwners ?e) p\<rparr>, True) else (?e, False))"
      unfolding ReleaseOp arbiter_exec.simps releasePaneIfOwnedBy_def Let_def live_owner_expire [OF ok] ..
    ultimately show ?thesis
      using assms(3) ReleaseOp oke live_owner_expired [OF ok, of now] by (auto split: if_splits)
  next
    case (ReleaseAllOp c)
    then obtain m n where loop: "release_loop (\<lambda>l. clientId l = c) (paneOwners ?e) (paneOwners ?e) 0 = (m, n)"
      and r: "r = ReleaseAllAns n" and a': "a' = ?e\<lparr>paneOwners := m\<rparr>"
      using assms(3) by (auto simp: releaseClient_def Let_def split: prod.splits)
    have kd: "keys_distinct (paneOwners ?e)" using oke by (simp add: arbiter_ok_def)
    note f = release_loop_filter [OF kd loop]
    have mo: "map_of m p = (case map_of (paneOwners ?e) p of None \<Rightarrow> None
        | Some l \<Rightarrow> if clientId l \<noteq> c then Some l else None)" for p
      unfolding f(1) using map_of_filter_pair [OF kd, of "\<lambda>p l. clientId l \<noteq> c"] by simp
    have "live_owner now a' = (\<lambda>p. if live_owner now a p = Some c then None else live_owner now a p)"
      unfolding live_owner_expired [OF ok, symmetric] using mo a'
      by (auto simp: live_owner_def fun_eq_iff split: option.splits)
    moreover have "{p. \<exists>v. map_of (paneOwners ?e) p = Some v \<and> clientId v = c} = {p. live_owner now a p = Some c}"
      by (auto simp: live_owner_expire [OF ok, symmetric])
    moreover have "arbiter_ok a'"
      using oke a' mo f(1) by (auto simp: arbiter_ok_def split: option.splits if_splits)
    ultimately show ?thesis using f(2) r ReleaseAllOp by simp
  qed
qed

interpretation arbiter: lane_store arbiter_ok "live_owner now" "arbiter_exec now" for now
  by unfold_locales (use arbiter_exec_lane in blast)+

section \<open>Properties\<close>

lemma new_arbiter_ok: "arbiter_ok (new_arbiter lease)"
  by (auto simp: new_arbiter_def arbiter_ok_def resolveLeaseDurationMs_def
      DEFAULT_PANE_INPUT_LEASE_DURATION_MS_def split: jsval.splits jsnum.splits)

text \<open>
  Within one instant the lease arbiter and the legacy map are interchangeable: any sequence of
  claims, overrides and releases gets the same answers from both, whatever the lease.
\<close>

theorem arbiter_agrees_with_legacy_map:
  assumes "\<forall>x \<in> set xs. op_client x \<noteq> []"
  shows "snd (run_ops (arbiter_exec now) (new_arbiter lease) xs) = snd (run_ops legacy_exec [] xs)"
proof -
  obtain a as where a: "run_ops (arbiter_exec now) (new_arbiter lease) xs = (a, as)" by (metis surj_pair)
  obtain m ms where m: "run_ops legacy_exec [] xs = (m, ms)" by (metis surj_pair)
  have "live_owner now (new_arbiter lease) = map_of []"
    by (simp add: live_owner_def new_arbiter_def fun_eq_iff)
  moreover have "legacy_ok []" by (simp add: legacy_ok_def)
  ultimately show ?thesis
    using arbiter.run_refines_spec [OF new_arbiter_ok assms a] legacy.run_refines_spec [OF _ assms m] a m by simp
qed

theorem arbiter_agrees_with_legacy_map_witness:
  "snd (run_ops (arbiter_exec 5) (new_arbiter JUndef)
      [ClaimOp ''p'' ''A'' False False, ClaimOp ''p'' ''B'' True True, ReleaseOp ''p'' ''A'', ReleaseAllOp ''B''])
   = [ClaimAns (Claimed False), ClaimAns (Claimed True), ReleaseAns False, ReleaseAllAns 1]"
  using arbiter_agrees_with_legacy_map [of "[ClaimOp ''p'' ''A'' False False, ClaimOp ''p'' ''B'' True True,
    ReleaseOp ''p'' ''A'', ReleaseAllOp ''B'']" 5 JUndef]
  by (simp add: legacy_claim_def legacy_release_def legacy_release_client_def owner_free_def)

text \<open>
  C30: a granted lane is exclusive for the length of the lease. After \<open>c\<close> was granted the lane of a
  pane at \<open>now'\<close>, another client that may not override is refused, and told who owns the lane, before
  \<open>now' + leaseDurationMs\<close>, and is granted the lane, not as an override, from then on.
\<close>

theorem lane_lease_exclusive:
  assumes "arbiter_ok a" and "c \<noteq> []" and "d \<noteq> []" and "d \<noteq> c" and "now \<le> now'" and "now' \<le> t"
    and "\<not> (ovr' \<and> al')" and "arbiter_claim a now now' p c ovr al = (a1, Claimed b)"
  shows "snd (arbiter_claim a1 t t' p d ovr' al') =
    (if t < now' + leaseDurationMs a then Refused c al' else Claimed False)"
proof -
  let ?e = "expireStaleOwners a now"
  have oke: "arbiter_ok ?e" by (rule arbiter_ok_expire [OF assms(1)])
  have a1: "a1 = setOwner ?e now' p c"
    using assms(8) by (auto simp: arbiter_claim_def Let_def split: if_splits)
  then have ok1: "arbiter_ok a1" using setOwner_ok [OF oke assms(2)] by simp
  have own: "live_owner t a1 p = (if t < now' + leaseDurationMs a then Some c else None)"
    using a1 by (simp add: live_owner_def setOwner_def)
  show ?thesis
    unfolding arbiter_claim_def Let_def live_owner_expire [OF ok1] own
    using assms(2,3,4,7) by (auto simp: owner_free_def)
qed

theorem lane_lease_exclusive_witness:
  "snd (arbiter_claim (fst (arbiter_claim (new_arbiter (jint 1000)) 0 1 ''p'' ''A'' False False)) 1000 1000 ''p'' ''B'' True False)
     = Refused ''A'' False \<and>
   snd (arbiter_claim (fst (arbiter_claim (new_arbiter (jint 1000)) 0 1 ''p'' ''A'' False False)) 1001 1001 ''p'' ''B'' True False)
     = Claimed False"
proof -
  obtain a1 r where c: "arbiter_claim (new_arbiter (jint 1000)) 0 1 ''p'' ''A'' False False = (a1, r)"
    by (metis surj_pair)
  then have r: "r = Claimed False"
    by (auto simp: arbiter_claim_def new_arbiter_def expireStaleOwners_def owner_free_def Let_def)
  have d: "leaseDurationMs (new_arbiter (jint 1000)) = 1000"
    by (simp add: new_arbiter_def resolveLeaseDurationMs_def)
  note ex = lane_lease_exclusive [OF new_arbiter_ok _ _ _ _ _ _ c [unfolded r], of "''B''" _ True False]
  show ?thesis using ex [of 1000 1000] ex [of 1001 1001] c d by simp
qed

end
