(* ===== verification/Session_Metadata.thy ===== *)
theory Session_Metadata
  imports Engine_Stream Lane_Arbiter
begin

text \<open>
  The host metadata of a session listing, \<^verbatim>\<open>src/server/session-list-runtime-metadata.ts\<close>: for every
  listed pane, who owns its input lane and how far its stream has got.
\<close>

section \<open>The builder\<close>

record list_capabilities =
  cap_laneOwnership :: bool
  cap_replayOffset :: bool
  cap_inputOwnershipOverride :: bool

record pane_metadata =
  pm_paneId :: string
  pm_laneOwnerClientId :: "string option"
  pm_replayOffset :: int

record list_metadata =
  lmd_generatedAt :: int
  lmd_capabilities :: list_capabilities
  lmd_panes :: "pane_metadata list"

definition set_rows :: "(string \<times> 'v) list \<Rightarrow> (string \<times> 'v) list" where
  "set_rows rows = fold (\<lambda>(k, v) m. mput m k v) rows []"

fun pane_runtime ::
  "(string \<times> string) list \<Rightarrow> (string \<times> int) list \<Rightarrow> string list \<Rightarrow> js_record list \<Rightarrow> pane_metadata list" where
  "pane_runtime laneOwners replayOffsets seen [] = []"
| "pane_runtime laneOwners replayOffsets seen (pane # rows) =
     (case prop_of pane ''paneId'' of
        JStr paneId \<Rightarrow>
          (if paneId = [] \<or> paneId \<in> set seen then pane_runtime laneOwners replayOffsets seen rows
           else \<lparr>pm_paneId = paneId, pm_laneOwnerClientId = map_of laneOwners paneId,
                 pm_replayOffset = (case map_of replayOffsets paneId of None \<Rightarrow> 0 | Some n \<Rightarrow> n)\<rparr>
             # pane_runtime laneOwners replayOffsets (sadd seen paneId) rows)
      | _ \<Rightarrow> pane_runtime laneOwners replayOffsets seen rows)"

definition buildSessionListRuntimeMetadata ::
  "js_record list \<Rightarrow> (string \<times> string) list \<Rightarrow> (string \<times> int) list \<Rightarrow> list_capabilities \<Rightarrow> int \<Rightarrow> list_metadata" where
  "buildSessionListRuntimeMetadata rows laneOwnershipSnapshot replayOffsetSnapshot capabilities now =
     \<lparr>lmd_generatedAt = now, lmd_capabilities = capabilities,
      lmd_panes = pane_runtime (set_rows laneOwnershipSnapshot) (set_rows replayOffsetSnapshot) [] rows\<rparr>"

section \<open>Lemmas\<close>

lemma map_of_set_rows_acc:
  "map_of (fold (\<lambda>(k, v) m. mput m k v) rows acc) k =
     (case map_of (rev rows) k of None \<Rightarrow> map_of acc k | Some v \<Rightarrow> Some v)"
  by (induction rows arbitrary: acc) (auto split: option.splits)

lemma map_of_same_set:
  assumes "keys_distinct xs" and "keys_distinct ys" and "set xs = set ys"
  shows "map_of xs = map_of ys"
proof
  fix k show "map_of xs k = map_of ys k"
    using map_of_eq_Some_iff [OF assms(1), of k] map_of_eq_Some_iff [OF assms(2), of k] assms(3)
    by (metis not_None_eq)
qed

lemma map_of_set_rows: "keys_distinct rows \<Longrightarrow> map_of (set_rows rows) = map_of rows"
proof -
  assume kd: "keys_distinct rows"
  have "map_of (rev rows) = map_of rows"
    by (rule map_of_same_set) (use kd in \<open>simp_all add: rev_map [symmetric]\<close>)
  then show ?thesis by (intro ext) (auto simp: set_rows_def map_of_set_rows_acc split: option.splits)
qed

lemma distinct_map_sort_key: "distinct (map g xs) \<Longrightarrow> distinct (map g (sort_key f xs))"
  by (simp add: distinct_map)

lemma pane_runtime_rows:
  "m \<in> set (pane_runtime lo ro seen rows) \<Longrightarrow>
    pm_laneOwnerClientId m = map_of lo (pm_paneId m) \<and>
    pm_replayOffset m = (case map_of ro (pm_paneId m) of None \<Rightarrow> 0 | Some n \<Rightarrow> n)"
  by (induction rows arbitrary: seen) (auto split: jsval.splits if_splits)

lemma pane_runtime_ids:
  "pm_paneId ` set (pane_runtime lo ro seen rows) =
     {p. p \<noteq> [] \<and> p \<notin> set seen \<and> (\<exists>pane \<in> set rows. prop_of pane ''paneId'' = JStr p)}"
  by (induction rows arbitrary: seen) (auto split: jsval.splits if_splits)

lemma pane_runtime_distinct: "distinct (map pm_paneId (pane_runtime lo ro seen rows))"
proof (induction rows arbitrary: seen)
  case Nil
  then show ?case by simp
next
  case (Cons pane rows)
  show ?case
    using Cons.IH pane_runtime_ids [of lo ro _ rows] by (auto split: jsval.splits)
qed

lemma replay_offsets_lookup:
  assumes "keys_distinct (panes e)"
  shows "map_of (set_rows (getReplayOffsetsSnapshot collate e)) p =
    map_option (\<lambda>r. streamSeq (watchers e r)) (map_of (panes e) p)"
proof -
  let ?rows = "map (\<lambda>(p, r). (p, streamSeq (watchers e r))) (panes e)"
  have d: "keys_distinct ?rows" using assms by (simp add: comp_def case_prod_unfold)
  then have "map_of (getReplayOffsetsSnapshot collate e) = map_of ?rows"
    unfolding getReplayOffsetsSnapshot_def by (intro map_of_same_set distinct_map_sort_key) simp_all
  moreover have "keys_distinct (getReplayOffsetsSnapshot collate e)"
    unfolding getReplayOffsetsSnapshot_def using d by (rule distinct_map_sort_key)
  ultimately have "map_of (set_rows (getReplayOffsetsSnapshot collate e)) p = map_of ?rows p"
    by (simp add: map_of_set_rows)
  then show ?thesis by (simp add: map_of_map)
qed

definition owner_rows :: "ownership_row list \<Rightarrow> (string \<times> string) list" where
  "owner_rows rows = map (\<lambda>row. (row_paneId row, row_ownerClientId row)) rows"

lemma arbiter_rows_lookup:
  assumes ok: "arbiter_ok a"
  shows "map_of (set_rows (owner_rows (snd (arbiter_snapshot collate a now)))) p = live_owner now a p"
proof -
  let ?e = "expireStaleOwners a now"
  let ?rows = "map (\<lambda>(p, lease). \<lparr>row_paneId = p, row_ownerClientId = clientId lease,
      row_expiresAtMs = Some (expiresAtMs lease)\<rparr>) (paneOwners ?e)"
  let ?srt = "sort_key (\<lambda>row. collate (row_paneId row)) ?rows"
  let ?own = "map (\<lambda>(p, lease). (p, clientId lease)) (paneOwners ?e)"
  have kd: "keys_distinct (paneOwners ?e)" using arbiter_ok_expire [OF ok] by (simp add: arbiter_ok_def)
  have own: "owner_rows ?rows = ?own" by (simp add: owner_rows_def case_prod_unfold)
  have d: "keys_distinct ?own" using kd by (simp add: comp_def case_prod_unfold)
  have dm: "distinct (map row_paneId ?srt)"
  proof -
    have "distinct (map row_paneId ?rows)" using kd by (simp add: comp_def case_prod_unfold)
    then show ?thesis by (rule distinct_map_sort_key)
  qed
  then have d': "keys_distinct (owner_rows ?srt)" by (simp add: owner_rows_def comp_def)
  have "set (owner_rows ?srt) = set (owner_rows ?rows)" by (simp add: owner_rows_def image_image)
  then have "set (owner_rows ?srt) = set ?own" unfolding own .
  then have "map_of (owner_rows ?srt) = map_of ?own" by (rule map_of_same_set [OF d' d])
  then have "map_of (set_rows (owner_rows ?srt)) p = map_of ?own p" using map_of_set_rows [OF d'] by simp
  also have "\<dots> = map_option clientId (map_of (paneOwners ?e) p)" by (simp add: map_of_map)
  finally show ?thesis using live_owner_expire [OF ok] by (simp add: arbiter_snapshot_def Let_def)
qed

section \<open>Properties\<close>

text \<open>
  The metadata of a session listing is what the host holds at that moment: every listed pane
  with a non-empty id appears exactly once, its owner is the holder of the live lease of its input
  lane, if any, and its replay offset is the sequence number its stream has reached, 0 when the pane
  is not watched.
\<close>

theorem session_list_metadata_truthful:
  assumes "arbiter_ok a" and "keys_distinct (panes e)"
    and "md = buildSessionListRuntimeMetadata rows (owner_rows (snd (arbiter_snapshot collate a now)))
      (getReplayOffsetsSnapshot collate e) caps now'"
  shows "distinct (map pm_paneId (lmd_panes md))
    \<and> set (map pm_paneId (lmd_panes md)) = {p. p \<noteq> [] \<and> (\<exists>row \<in> set rows. prop_of row ''paneId'' = JStr p)}
    \<and> (\<forall>m \<in> set (lmd_panes md). pm_laneOwnerClientId m = live_owner now a (pm_paneId m)
        \<and> pm_replayOffset m = (case map_of (panes e) (pm_paneId m) of None \<Rightarrow> 0 | Some r \<Rightarrow> streamSeq (watchers e r)))"
proof -
  have "m \<in> set (lmd_panes md) \<Longrightarrow> pm_laneOwnerClientId m = live_owner now a (pm_paneId m)
        \<and> pm_replayOffset m = (case map_of (panes e) (pm_paneId m) of None \<Rightarrow> 0 | Some r \<Rightarrow> streamSeq (watchers e r))" for m
    unfolding assms(3) buildSessionListRuntimeMetadata_def list_metadata.simps
    by (drule pane_runtime_rows)
      (auto simp: arbiter_rows_lookup [OF assms(1)] replay_offsets_lookup [OF assms(2)] split: option.splits)
  moreover have "set (map pm_paneId (lmd_panes md)) = {p. p \<noteq> [] \<and> (\<exists>row \<in> set rows. prop_of row ''paneId'' = JStr p)}"
    unfolding assms(3) buildSessionListRuntimeMetadata_def list_metadata.simps set_map
    using pane_runtime_ids [of _ _ "[]" rows] by simp
  moreover have "distinct (map pm_paneId (lmd_panes md))"
    unfolding assms(3) buildSessionListRuntimeMetadata_def list_metadata.simps by (rule pane_runtime_distinct)
  ultimately show ?thesis by blast
qed

definition two_rows :: "js_record list" where
  "two_rows = [[(''paneId'', JStr ''p'')], [(''paneId'', JStr ''p'')], [(''paneId'', JStr [])]]"

definition two_rows_metadata :: list_metadata where
  "two_rows_metadata = buildSessionListRuntimeMetadata two_rows
     (owner_rows (snd (arbiter_snapshot length (new_arbiter JUndef) 0))) (getReplayOffsetsSnapshot length new_engine)
     \<lparr>cap_laneOwnership = True, cap_replayOffset = True, cap_inputOwnershipOverride = True\<rparr> 0"

theorem session_list_metadata_truthful_witness:
  "map pm_paneId (lmd_panes two_rows_metadata) = [''p''] \<and>
   pm_laneOwnerClientId (hd (lmd_panes two_rows_metadata)) = live_owner 0 (new_arbiter JUndef) ''p''"
proof -
  have kd: "keys_distinct (panes new_engine)" by (simp add: new_engine_def)
  have one: "map pm_paneId (lmd_panes two_rows_metadata) = [''p'']"
    by (simp add: two_rows_metadata_def buildSessionListRuntimeMetadata_def two_rows_def prop_of_def sadd_def)
  then obtain m where m: "lmd_panes two_rows_metadata = [m]" "pm_paneId m = ''p''" by auto
  from session_list_metadata_truthful [OF new_arbiter_ok kd two_rows_metadata_def]
  have "\<forall>m \<in> set (lmd_panes two_rows_metadata). pm_laneOwnerClientId m = live_owner 0 (new_arbiter JUndef) (pm_paneId m)"
    by blast
  then have "pm_laneOwnerClientId m = live_owner 0 (new_arbiter JUndef) ''p''" using m by simp
  then show ?thesis using one m by simp
qed

end
