(* ===== verification/Telemetry.thy ===== *)
theory Telemetry
  imports Js_Prelude "HOL-Library.Multiset"
begin

text \<open>
  The telemetry collector, \<^verbatim>\<open>src/telemetry/bridge-telemetry.ts\<close>: latency windows kept in ring
  buffers, counters, and the health snapshot. A millisecond value is a rational number, \<open>minMs\<close> is
  absent while it is the positive infinity of a fresh window.
\<close>

section \<open>Latency windows\<close>

definition DEFAULT_WINDOW_SIZE :: nat where
  "DEFAULT_WINDOW_SIZE = 256"

record latency_metric =
  lm_count :: nat
  lm_lastMs :: "rat option"
  lm_minMs :: "rat option"
  lm_maxMs :: "rat option"
  lm_avgMs :: "rat option"
  lm_p50Ms :: "rat option"
  lm_p95Ms :: "rat option"

record latency_window =
  lw_values :: "rat list"
  lw_size :: nat
  lw_writeIndex :: nat
  lw_totalCount :: nat
  lw_totalMs :: rat
  lw_minMs :: "rat option"
  lw_maxMs :: rat
  lw_lastMs :: rat

definition createLatencyWindow :: "nat \<Rightarrow> latency_window" where
  "createLatencyWindow n =
     \<lparr>lw_values = replicate n 0, lw_size = 0, lw_writeIndex = 0, lw_totalCount = 0, lw_totalMs = 0,
      lw_minMs = None, lw_maxMs = 0, lw_lastMs = 0\<rparr>"

definition sanitizeLatency :: "jsnum \<Rightarrow> rat" where
  "sanitizeLatency latencyMs =
     (case latencyMs of Fin q \<Rightarrow> (if q < 0 then 0 else q) | _ \<Rightarrow> 0)"

definition recordLatency :: "latency_window \<Rightarrow> jsnum \<Rightarrow> latency_window" where
  "recordLatency window latencyMs =
     (let v = sanitizeLatency latencyMs in
      window\<lparr>
        lw_values := (lw_values window)[lw_writeIndex window := v],
        lw_writeIndex := (lw_writeIndex window + 1) mod length (lw_values window),
        lw_size := min (lw_size window + 1) (length (lw_values window)),
        lw_totalCount := lw_totalCount window + 1,
        lw_totalMs := lw_totalMs window + v,
        lw_lastMs := v,
        lw_minMs := Some (case lw_minMs window of None \<Rightarrow> v | Some m \<Rightarrow> min m v),
        lw_maxMs := max (lw_maxMs window) v\<rparr>)"

text \<open>\<open>Math.round\<close> rounds halves up.\<close>

definition roundMetric :: "rat \<Rightarrow> rat" where
  "roundMetric v = of_int \<lfloor>v * 100 + 1 / 2\<rfloor> / 100"

definition percentile_index :: "nat \<Rightarrow> rat \<Rightarrow> int" where
  "percentile_index n ratio = max 0 (min (int n - 1) (\<lceil>of_nat n * ratio\<rceil> - 1))"

definition percentile :: "rat list \<Rightarrow> rat \<Rightarrow> rat option" where
  "percentile sortedValues ratio =
     (if length sortedValues = 0 then None
      else Some (roundMetric (sortedValues ! nat (percentile_index (length sortedValues) ratio))))"

definition snapshotLatency :: "latency_window \<Rightarrow> latency_metric" where
  "snapshotLatency window =
     (if lw_totalCount window = 0 then
        \<lparr>lm_count = 0, lm_lastMs = None, lm_minMs = None, lm_maxMs = None, lm_avgMs = None,
         lm_p50Ms = None, lm_p95Ms = None\<rparr>
      else
        (let recent = sort (take (lw_size window) (lw_values window)) in
        \<lparr>lm_count = lw_totalCount window,
         lm_lastMs = Some (roundMetric (lw_lastMs window)),
         lm_minMs = map_option roundMetric (lw_minMs window),
         lm_maxMs = Some (roundMetric (lw_maxMs window)),
         lm_avgMs = Some (roundMetric (lw_totalMs window / of_nat (lw_totalCount window))),
         lm_p50Ms = percentile recent (1 / 2),
         lm_p95Ms = percentile recent (19 / 20)\<rparr>))"

section \<open>What a window holds\<close>

text \<open>
  The specification of a window is the list of all samples recorded, oldest first; the ring buffer
  holds the most recent ones in some order.
\<close>

definition window_holds :: "nat \<Rightarrow> rat list \<Rightarrow> latency_window \<Rightarrow> bool" where
  "window_holds cap xs w \<longleftrightarrow>
     0 < cap \<and> length (lw_values w) = cap \<and> lw_writeIndex w = length xs mod cap \<and>
     lw_size w = min (length xs) cap \<and> lw_totalCount w = length xs \<and> lw_totalMs w = sum_list xs \<and>
     (\<forall>j < length xs. length xs \<le> j + cap \<longrightarrow> lw_values w ! (j mod cap) = xs ! j) \<and>
     mset (take (lw_size w) (lw_values w)) = mset (drop (length xs - cap) xs) \<and>
     (\<forall>x \<in> set xs. 0 \<le> x) \<and>
     lw_minMs w = (if xs = [] then None else Some (Min (set xs))) \<and>
     lw_maxMs w = Max (insert 0 (set xs)) \<and> (xs \<noteq> [] \<longrightarrow> lw_lastMs w = last xs)"

lemma sanitize_nonneg [simp]: "0 \<le> sanitizeLatency v"
  by (cases v) (auto simp: sanitizeLatency_def)

lemma window_holds_new: "0 < cap \<Longrightarrow> window_holds cap [] (createLatencyWindow cap)"
  by (simp add: window_holds_def createLatencyWindow_def)

lemma mod_window_ne: "(j::nat) < n \<Longrightarrow> n < j + cap \<Longrightarrow> j mod cap \<noteq> n mod cap"
proof
  assume a: "j < n" "n < j + cap" "j mod cap = n mod cap"
  then have "cap dvd n - j" by (metis mod_eq_dvd_iff_nat less_imp_le)
  moreover have "0 < n - j" "n - j < cap" using a by auto
  ultimately show False by (metis dvd_imp_le not_le)
qed

lemma window_holds_record:
  assumes w: "window_holds cap xs w"
  shows "window_holds cap (xs @ [sanitizeLatency v]) (recordLatency w v)"
proof -
  let ?n = "length xs" and ?v = "sanitizeLatency v" and ?vals = "lw_values w"
  have cap: "0 < cap" and len: "length ?vals = cap" and wi: "lw_writeIndex w = ?n mod cap"
    and size: "lw_size w = min ?n cap"
    and at: "\<And>j. j < ?n \<Longrightarrow> ?n \<le> j + cap \<Longrightarrow> ?vals ! (j mod cap) = xs ! j"
    and ms: "mset (take (lw_size w) ?vals) = mset (drop (?n - cap) xs)"
    and nn: "\<forall>x \<in> set xs. 0 \<le> x"
    and mn: "lw_minMs w = (if xs = [] then None else Some (Min (set xs)))"
    and mx: "lw_maxMs w = Max (insert 0 (set xs))"
    using w by (auto simp: window_holds_def)
  have idx: "?n mod cap < cap" using cap by simp
  have at': "?vals[?n mod cap := ?v] ! (j mod cap) = (xs @ [?v]) ! j"
    if j: "j < Suc ?n" "Suc ?n \<le> j + cap" for j
  proof (cases "j = ?n")
    case True
    then show ?thesis using idx len by simp
  next
    case False
    then have "j < ?n" "?n < j + cap" using j by auto
    then show ?thesis using mod_window_ne [of j ?n cap] at [of j] by (simp add: nth_append)
  qed
  have ms': "mset (take (min (Suc ?n) cap) (?vals[?n mod cap := ?v])) = mset (drop (Suc ?n - cap) (xs @ [?v]))"
  proof (cases "?n < cap")
    case True
    then have "take (Suc ?n) (?vals[?n := ?v]) = take ?n ?vals @ [?v]"
      using len by (simp add: take_Suc_conv_app_nth)
    then show ?thesis using True ms size by simp
  next
    case False
    have hd: "?vals ! (?n mod cap) = xs ! (?n - cap)"
      using at [of "?n - cap"] False cap by (simp add: le_mod_geq)
    have drop: "drop (?n - cap) xs = xs ! (?n - cap) # drop (Suc ?n - cap) xs"
      using False cap Cons_nth_drop_Suc [of "?n - cap" xs] by (simp add: Suc_diff_le)
    have "mset (?vals[?n mod cap := ?v]) = add_mset ?v (mset ?vals - {#?vals ! (?n mod cap)#})"
      using idx len by (simp add: mset_update)
    also have "\<dots> = add_mset ?v (mset (drop (Suc ?n - cap) xs))"
      using ms size False len hd drop by simp
    finally show ?thesis using False len cap by (simp add: Suc_diff_le)
  qed
  have "Max (insert 0 (set (xs @ [?v]))) = max (Max (insert 0 (set xs))) ?v"
    by (simp add: max.commute insert_commute [of 0])
  moreover have "xs \<noteq> [] \<Longrightarrow> Min (set (xs @ [?v])) = min (Min (set xs)) ?v"
    by (simp add: min.commute)
  ultimately show ?thesis
    using cap len wi size at' ms' nn mn mx w
    by (auto simp: window_holds_def recordLatency_def Let_def mod_Suc_eq min_def Suc_le_eq)
qed

text \<open>All samples of a collector's window, in the order they were recorded.\<close>

definition record_all :: "nat \<Rightarrow> jsnum list \<Rightarrow> latency_window" where
  "record_all cap samples = foldl recordLatency (createLatencyWindow cap) samples"

lemma record_all_holds: "0 < cap \<Longrightarrow> window_holds cap (map sanitizeLatency samples) (record_all cap samples)"
  unfolding record_all_def
  by (induction samples rule: rev_induct) (auto simp: window_holds_new intro: window_holds_record)

lemma roundMetric_mono: "a \<le> b \<Longrightarrow> roundMetric a \<le> roundMetric b"
  by (simp add: roundMetric_def divide_right_mono floor_mono)

lemma percentile_index_bounds:
  assumes "0 < n"
  shows "0 \<le> percentile_index n r" and "nat (percentile_index n r) < n"
  using assms by (auto simp: percentile_index_def)

lemma percentile_index_mono: "r \<le> r' \<Longrightarrow> percentile_index n r \<le> percentile_index n r'"
proof -
  assume "r \<le> r'"
  then have "\<lceil>of_nat n * r\<rceil> \<le> \<lceil>of_nat n * r'\<rceil>" by (intro ceiling_mono mult_left_mono) auto
  then show ?thesis by (auto simp: percentile_index_def)
qed

lemma percentile_index_rank:
  assumes "0 < n" and "0 \<le> r" and "r \<le> 1"
  shows "of_nat n * r \<le> of_int (percentile_index n r) + 1"
proof -
  have "of_nat n * r \<le> of_nat n" using assms by (simp add: mult_left_le)
  then have "\<lceil>of_nat n * r\<rceil> \<le> int n" by (simp add: ceiling_le_iff)
  then have "\<lceil>of_nat n * r\<rceil> \<le> percentile_index n r + 1" by (auto simp: percentile_index_def)
  then have "of_int \<lceil>of_nat n * r\<rceil> \<le> (of_int (percentile_index n r + 1) :: rat)"
    by (simp only: of_int_le_iff)
  from order_trans [OF le_of_int_ceiling this] show ?thesis by simp
qed

lemma sorted_count_le:
  assumes "sorted xs" and "i < length xs"
  shows "Suc i \<le> length (filter (\<lambda>x. x \<le> xs ! i) xs)"
proof -
  have "\<forall>x \<in> set (take (Suc i) xs). x \<le> xs ! i"
    using assms by (auto simp: in_set_conv_nth sorted_iff_nth_mono)
  then have "filter (\<lambda>x. x \<le> xs ! i) (take (Suc i) xs) = take (Suc i) xs" by (simp add: filter_id_conv)
  then have "length (filter (\<lambda>x. x \<le> xs ! i) xs) = Suc i + length (filter (\<lambda>x. x \<le> xs ! i) (drop (Suc i) xs))"
    using assms(2) by (metis append_take_drop_id filter_append length_append length_take min.absorb2 Suc_leI)
  then show ?thesis by simp
qed

section \<open>Properties\<close>

text \<open>
  After any sequence of samples, a latency window of capacity \<open>cap\<close> holds exactly the most
  recent \<open>min n cap\<close> of them, negative and non-finite ones as 0, and its count, total, minimum,
  maximum and last value are those of all samples recorded.
\<close>

theorem latency_window_refines_samples:
  assumes "0 < cap" and "xs = map sanitizeLatency samples" and "w = record_all cap samples"
  shows "mset (take (lw_size w) (lw_values w)) = mset (drop (length xs - cap) xs)
    \<and> lw_totalCount w = length samples \<and> lw_totalMs w = sum_list xs
    \<and> (samples \<noteq> [] \<longrightarrow> lw_minMs w = Some (Min (set xs)) \<and> lw_maxMs w = Max (set xs) \<and> lw_lastMs w = last xs)"
proof -
  have h: "window_holds cap xs w" using record_all_holds [OF assms(1)] assms(2,3) by simp
  have "Max (insert 0 (set xs)) = Max (set xs)" if "samples \<noteq> []"
  proof -
    have ne: "set xs \<noteq> {}" using that assms(2) by simp
    then obtain x where "x \<in> set xs" by (metis ex_in_conv)
    then have "0 \<le> Max (set xs)" using h by (metis List.finite_set Max_ge order_trans window_holds_def)
    then show ?thesis using ne by (simp add: max_def)
  qed
  then show ?thesis using h assms(2) by (auto simp: window_holds_def)
qed

theorem latency_window_refines_samples_witness:
  "mset (take (lw_size (record_all 2 [Fin 5, NaN, Fin 7])) (lw_values (record_all 2 [Fin 5, NaN, Fin 7]))) = {#0, 7#}
   \<and> lw_totalMs (record_all 2 [Fin 5, NaN, Fin 7]) = 12"
  using latency_window_refines_samples [of 2 "[5, 0, 7]" "[Fin 5, NaN, Fin 7]" "record_all 2 [Fin 5, NaN, Fin 7]"]
  by (simp add: sanitizeLatency_def)

text \<open>
  The percentile of a non-empty sorted window is a nearest-rank percentile: its index is in
  range, at least the fraction \<open>ratio\<close> of the samples lie at or below the value it rounds, and it
  grows with the ratio, so a snapshot's median never exceeds its 95th percentile.
\<close>

theorem percentile_nearest_rank:
  assumes "sorted xs" and "xs \<noteq> []" and "0 \<le> r" and "r \<le> r'" and "r' \<le> 1"
  shows "\<exists>v v'. v \<in> set xs \<and> percentile xs r = Some (roundMetric v) \<and>
      of_nat (length xs) * r \<le> of_nat (length (filter (\<lambda>x. x \<le> v) xs)) \<and>
      percentile xs r' = Some v' \<and> roundMetric v \<le> v'"
proof -
  let ?i = "nat (percentile_index (length xs) r)" and ?j = "nat (percentile_index (length xs) r')"
  have n: "0 < length xs" using assms(2) by simp
  note b = percentile_index_bounds [OF n]
  have ij: "?i \<le> ?j" using percentile_index_mono [OF assms(4)] by (simp add: nat_mono)
  have "of_nat (length xs) * r \<le> of_int (percentile_index (length xs) r) + 1"
    using percentile_index_rank [OF n assms(3)] assms(4,5) by linarith
  also have "\<dots> = of_nat (Suc ?i)" using b(1) [of r] by simp
  also have "\<dots> \<le> of_nat (length (filter (\<lambda>x. x \<le> xs ! ?i) xs))"
    using sorted_count_le [OF assms(1) b(2)] by (simp only: of_nat_le_iff)
  finally have rank: "of_nat (length xs) * r \<le> of_nat (length (filter (\<lambda>x. x \<le> xs ! ?i) xs))" .
  have "xs ! ?i \<le> xs ! ?j" using assms(1) ij b(2) [of r'] by (simp add: sorted_iff_nth_mono)
  then have "roundMetric (xs ! ?i) \<le> roundMetric (xs ! ?j)" by (rule roundMetric_mono)
  moreover have "percentile xs r = Some (roundMetric (xs ! ?i))" "percentile xs r' = Some (roundMetric (xs ! ?j))"
    using n by (simp_all add: percentile_def)
  moreover have "xs ! ?i \<in> set xs" using b(2) by simp
  ultimately show ?thesis using rank by blast
qed

theorem percentile_nearest_rank_witness:
  "\<exists>v v'. v \<in> set [1, 2, 3, 4] \<and> percentile [1, 2, 3, 4] (1 / 2) = Some (roundMetric v) \<and>
      of_nat (length [1, 2, 3, 4 :: rat]) * (1 / 2) \<le> (of_nat (length (filter (\<lambda>x. x \<le> v) [1, 2, 3, 4])) :: rat) \<and>
      percentile [1, 2, 3, 4] (19 / 20) = Some v' \<and> roundMetric v \<le> v'"
  by (rule percentile_nearest_rank) simp_all

end
