(* ===== verification/Bridge_Status.thy ===== *)
theory Bridge_Status
  imports Telemetry
begin

text \<open>
  The collector of \<^verbatim>\<open>src/telemetry/bridge-telemetry.ts\<close> and the layered status derived from it,
  \<^verbatim>\<open>src/telemetry/bridge-status.ts\<close>. A number in a message text is printed by the parameter
  \<open>show_num\<close>; the clock is an argument.
\<close>

section \<open>Status\<close>

datatype severity = Ok_sev | Warn_sev | Fail_sev

datatype layer = Transport | Runtime | Replay | Safety | Observability

record status_issue =
  is_layer :: layer
  is_severity :: severity
  is_code :: string
  is_message :: string

record status_layer =
  sl_severity :: severity
  sl_metrics :: "(string \<times> rat option) list"

record status_counters =
  connectionsOpened :: nat
  connectionsClosed :: nat
  listRequests :: nat
  attachRequests :: nat
  reconnectAttaches :: nat
  inputAcks :: nat
  streamLagSamples :: nat

record latency_metrics =
  l_connect :: latency_metric
  l_reconnect :: latency_metric
  l_list :: latency_metric
  l_attach :: latency_metric
  l_inputAck :: latency_metric
  l_streamLag :: latency_metric

record status_snapshot =
  st_generatedAt :: int
  st_overall :: severity
  st_layers :: "(layer \<times> status_layer) list"
  st_issues :: "status_issue list"

definition deriveLatencySeverity ::
  "(rat \<Rightarrow> string) \<Rightarrow> rat option \<Rightarrow> rat \<Rightarrow> rat \<Rightarrow> layer \<Rightarrow> string \<Rightarrow> status_issue list
     \<Rightarrow> severity \<times> status_issue list" where
  "deriveLatencySeverity show_num p95Ms warnAt failAt ly code issues =
     (case p95Ms of
        None \<Rightarrow> (Ok_sev, issues)
      | Some p \<Rightarrow>
          (if p > failAt then
             (Fail_sev, issues @ [\<lparr>is_layer = ly, is_severity = Fail_sev, is_code = code,
                is_message = code @ '' exceeded fail threshold ('' @ show_num p @ ''ms)''\<rparr>])
           else if p > warnAt then
             (Warn_sev, issues @ [\<lparr>is_layer = ly, is_severity = Warn_sev, is_code = code,
                is_message = code @ '' exceeded warn threshold ('' @ show_num p @ ''ms)''\<rparr>])
           else (Ok_sev, issues)))"

definition maxSeverity :: "severity list \<Rightarrow> severity" where
  "maxSeverity severities =
     (if Fail_sev \<in> set severities then Fail_sev
      else if Warn_sev \<in> set severities then Warn_sev else Ok_sev)"

definition num_metric :: "nat \<Rightarrow> rat option" where
  "num_metric n = Some (of_nat n)"

definition buildBridgeStatusSnapshot ::
  "(rat \<Rightarrow> string) \<Rightarrow> nat \<Rightarrow> nat \<Rightarrow> status_counters \<Rightarrow> latency_metrics \<Rightarrow> int \<Rightarrow> status_snapshot" where
  "buildBridgeStatusSnapshot show_num activeClients windowSize counters lat now =
     (let (transport, i1) = deriveLatencySeverity show_num (lm_p95Ms (l_connect lat)) 500 1000 Transport
            ''connect_latency_p95'' [];
          (replay, i2) = deriveLatencySeverity show_num (lm_p95Ms (l_streamLag lat)) 200 500 Replay
            ''stream_lag_p95'' i1;
          (safety, i3) = deriveLatencySeverity show_num (lm_p95Ms (l_inputAck lat)) 250 500 Safety
            ''input_ack_latency_p95'' i2;
          runtime = (if activeClients > 0 \<and> attachRequests counters = 0 then Warn_sev else Ok_sev);
          i4 = (if runtime = Warn_sev then i3 @ [\<lparr>is_layer = Runtime, is_severity = Warn_sev,
              is_code = ''active_clients_without_attach'',
              is_message = ''active clients observed with no attach requests in current telemetry window''\<rparr>]
            else i3);
          observability = (if streamLagSamples counters = 0 \<and> activeClients > 0 then Warn_sev else Ok_sev);
          i5 = (if observability = Warn_sev then i4 @ [\<lparr>is_layer = Observability, is_severity = Warn_sev,
              is_code = ''missing_stream_lag_samples'',
              is_message = ''stream lag samples are missing while clients are connected''\<rparr>]
            else i4)
      in \<lparr>st_generatedAt = now,
          st_overall = maxSeverity [transport, runtime, replay, safety, observability],
          st_layers =
            [(Transport, \<lparr>sl_severity = transport, sl_metrics =
                [(''activeClients'', num_metric activeClients), (''connectP95Ms'', lm_p95Ms (l_connect lat)),
                 (''reconnectP95Ms'', lm_p95Ms (l_reconnect lat)),
                 (''connectionsOpened'', num_metric (connectionsOpened counters)),
                 (''connectionsClosed'', num_metric (connectionsClosed counters))]\<rparr>),
             (Runtime, \<lparr>sl_severity = runtime, sl_metrics =
                [(''activeClients'', num_metric activeClients),
                 (''attachRequests'', num_metric (attachRequests counters)),
                 (''listRequests'', num_metric (listRequests counters))]\<rparr>),
             (Replay, \<lparr>sl_severity = replay, sl_metrics =
                [(''reconnectAttaches'', num_metric (reconnectAttaches counters)),
                 (''streamLagP95Ms'', lm_p95Ms (l_streamLag lat)),
                 (''streamLagSamples'', num_metric (streamLagSamples counters))]\<rparr>),
             (Safety, \<lparr>sl_severity = safety, sl_metrics =
                [(''inputAcks'', num_metric (inputAcks counters)),
                 (''inputAckP95Ms'', lm_p95Ms (l_inputAck lat))]\<rparr>),
             (Observability, \<lparr>sl_severity = observability, sl_metrics =
                [(''telemetrySchemaVersion'', num_metric 1),
                 (''streamLagSamples'', num_metric (streamLagSamples counters)),
                 (''windowSize'', num_metric windowSize)]\<rparr>)],
          st_issues = i5\<rparr>)"

section \<open>The collector\<close>

record telemetry_collector =
  windowSize :: nat
  counters :: status_counters
  w_connect :: latency_window
  w_reconnect :: latency_window
  w_list :: latency_window
  w_attach :: latency_window
  w_inputAck :: latency_window
  w_streamLag :: latency_window

definition zero_counters :: status_counters where
  "zero_counters = \<lparr>connectionsOpened = 0, connectionsClosed = 0, listRequests = 0, attachRequests = 0,
     reconnectAttaches = 0, inputAcks = 0, streamLagSamples = 0\<rparr>"

definition resolve_window_size :: "jsnum \<Rightarrow> nat" where
  "resolve_window_size n =
     (case num_as_int n of
        Some i \<Rightarrow> (if i > 0 then nat i else DEFAULT_WINDOW_SIZE)
      | None \<Rightarrow> DEFAULT_WINDOW_SIZE)"

definition new_collector :: "jsnum \<Rightarrow> telemetry_collector" where
  "new_collector n =
     (let size = resolve_window_size n; w = createLatencyWindow size
      in \<lparr>windowSize = size, counters = zero_counters, w_connect = w, w_reconnect = w, w_list = w,
          w_attach = w, w_inputAck = w, w_streamLag = w\<rparr>)"

definition recordConnectLatency :: "telemetry_collector \<Rightarrow> jsnum \<Rightarrow> telemetry_collector" where
  "recordConnectLatency t ms =
     t\<lparr>counters := (counters t)\<lparr>connectionsOpened := connectionsOpened (counters t) + 1\<rparr>,
       w_connect := recordLatency (w_connect t) ms\<rparr>"

definition recordConnectionClosed :: "telemetry_collector \<Rightarrow> telemetry_collector" where
  "recordConnectionClosed t =
     t\<lparr>counters := (counters t)\<lparr>connectionsClosed := connectionsClosed (counters t) + 1\<rparr>\<rparr>"

definition recordListLatency :: "telemetry_collector \<Rightarrow> jsnum \<Rightarrow> telemetry_collector" where
  "recordListLatency t ms =
     t\<lparr>counters := (counters t)\<lparr>listRequests := listRequests (counters t) + 1\<rparr>,
       w_list := recordLatency (w_list t) ms\<rparr>"

definition recordAttachLatency :: "telemetry_collector \<Rightarrow> jsnum \<Rightarrow> telemetry_collector" where
  "recordAttachLatency t ms =
     t\<lparr>counters := (counters t)\<lparr>attachRequests := attachRequests (counters t) + 1\<rparr>,
       w_attach := recordLatency (w_attach t) ms\<rparr>"

definition recordReconnectLatency :: "telemetry_collector \<Rightarrow> jsnum \<Rightarrow> telemetry_collector" where
  "recordReconnectLatency t ms =
     t\<lparr>counters := (counters t)\<lparr>reconnectAttaches := reconnectAttaches (counters t) + 1\<rparr>,
       w_reconnect := recordLatency (w_reconnect t) ms\<rparr>"

definition recordInputAckLatency :: "telemetry_collector \<Rightarrow> jsnum \<Rightarrow> telemetry_collector" where
  "recordInputAckLatency t ms =
     t\<lparr>counters := (counters t)\<lparr>inputAcks := inputAcks (counters t) + 1\<rparr>,
       w_inputAck := recordLatency (w_inputAck t) ms\<rparr>"

definition recordStreamLag :: "telemetry_collector \<Rightarrow> jsnum \<Rightarrow> telemetry_collector" where
  "recordStreamLag t ms =
     t\<lparr>counters := (counters t)\<lparr>streamLagSamples := streamLagSamples (counters t) + 1\<rparr>,
       w_streamLag := recordLatency (w_streamLag t) ms\<rparr>"

record telemetry_snapshot =
  ts_generatedAt :: int
  ts_activeClients :: nat
  ts_windowSize :: nat
  ts_counters :: status_counters
  ts_latenciesMs :: latency_metrics
  ts_status :: status_snapshot

definition getSafeSnapshot ::
  "(rat \<Rightarrow> string) \<Rightarrow> telemetry_collector \<Rightarrow> nat \<Rightarrow> int \<Rightarrow> int \<Rightarrow> telemetry_snapshot" where
  "getSafeSnapshot show_num t activeClients now now' =
     (let lat = \<lparr>l_connect = snapshotLatency (w_connect t), l_reconnect = snapshotLatency (w_reconnect t),
                 l_list = snapshotLatency (w_list t), l_attach = snapshotLatency (w_attach t),
                 l_inputAck = snapshotLatency (w_inputAck t), l_streamLag = snapshotLatency (w_streamLag t)\<rparr>
      in \<lparr>ts_generatedAt = now, ts_activeClients = activeClients, ts_windowSize = windowSize t,
          ts_counters = counters t, ts_latenciesMs = lat,
          ts_status = buildBridgeStatusSnapshot show_num activeClients (windowSize t) (counters t) lat now'\<rparr>)"

section \<open>Lemmas\<close>

fun sev_rank :: "severity \<Rightarrow> nat" where
  "sev_rank Ok_sev = 0"
| "sev_rank Warn_sev = 1"
| "sev_rank Fail_sev = 2"

instantiation severity :: linorder
begin

definition less_eq_severity :: "severity \<Rightarrow> severity \<Rightarrow> bool" where
  "less_eq_severity a b \<longleftrightarrow> sev_rank a \<le> sev_rank b"

definition less_severity :: "severity \<Rightarrow> severity \<Rightarrow> bool" where
  "less_severity a b \<longleftrightarrow> sev_rank a < sev_rank b"

instance
proof
  fix x y z :: severity
  show "(x < y) = (x \<le> y \<and> \<not> y \<le> x)" by (auto simp: less_eq_severity_def less_severity_def)
  show "x \<le> x" by (simp add: less_eq_severity_def)
  show "x \<le> y \<Longrightarrow> y \<le> z \<Longrightarrow> x \<le> z" by (simp add: less_eq_severity_def)
  show "x \<le> y \<Longrightarrow> y \<le> x \<Longrightarrow> x = y" by (cases x; cases y) (auto simp: less_eq_severity_def)
  show "x \<le> y \<or> y \<le> x" by (auto simp: less_eq_severity_def)
qed

end

lemma maxSeverity_Max: "ss \<noteq> [] \<Longrightarrow> maxSeverity ss = Max (set ss)"
proof (rule Max_eqI [symmetric])
  assume ne: "ss \<noteq> []"
  show "maxSeverity ss \<in> set ss"
  proof (cases ss)
    case (Cons a as)
    then show ?thesis by (cases a) (auto simp: maxSeverity_def)
  qed (use ne in simp)
  show "y \<le> maxSeverity ss" if "y \<in> set ss" for y
    using that by (cases y rule: severity.exhaust) (auto simp: maxSeverity_def less_eq_severity_def)
qed simp

lemma maxSeverity_Ok: "maxSeverity ss = Ok_sev \<longleftrightarrow> (\<forall>x \<in> set ss. x = Ok_sev)"
proof
  assume "maxSeverity ss = Ok_sev"
  then have "Fail_sev \<notin> set ss" "Warn_sev \<notin> set ss" by (auto simp: maxSeverity_def split: if_splits)
  then show "\<forall>x \<in> set ss. x = Ok_sev" by (metis severity.exhaust)
qed (auto simp: maxSeverity_def)

text \<open>The severity a latency derives and the issues it adds, apart from the list they are added to.\<close>

definition lat_sev :: "rat option \<Rightarrow> rat \<Rightarrow> rat \<Rightarrow> severity" where
  "lat_sev p w f = (case p of None \<Rightarrow> Ok_sev | Some v \<Rightarrow> if v > f then Fail_sev else if v > w then Warn_sev else Ok_sev)"

definition lat_new :: "(rat \<Rightarrow> string) \<Rightarrow> rat option \<Rightarrow> rat \<Rightarrow> rat \<Rightarrow> layer \<Rightarrow> string \<Rightarrow> status_issue list" where
  "lat_new sn p w f ly code = snd (deriveLatencySeverity sn p w f ly code [])"

lemma derive_eq: "deriveLatencySeverity sn p w f ly code is0 = (lat_sev p w f, is0 @ lat_new sn p w f ly code)"
  by (auto simp: deriveLatencySeverity_def lat_sev_def lat_new_def split: option.splits)

lemma lat_new_props:
  "(\<forall>i \<in> set (lat_new sn p w f ly code). is_layer i = ly \<and> is_severity i = lat_sev p w f) \<and>
   (lat_new sn p w f ly code = [] \<longleftrightarrow> lat_sev p w f = Ok_sev)"
  by (auto simp: deriveLatencySeverity_def lat_sev_def lat_new_def split: option.splits if_splits)

text \<open>One row per layer: its severity and the issues it contributes.\<close>

definition row_ok :: "layer \<times> severity \<times> status_issue list \<Rightarrow> bool" where
  "row_ok row = (case row of (ly, sev, new) \<Rightarrow>
     (\<forall>i \<in> set new. is_layer i = ly \<and> is_severity i = sev) \<and> (new = [] \<longleftrightarrow> sev = Ok_sev))"

lemma row_ok_lat [simp]: "row_ok (ly, lat_sev p w f, lat_new sn p w f ly code)"
  using lat_new_props [of sn p w f ly code] by (simp add: row_ok_def)

lemma row_ok_flag [simp]:
  "is_layer i = ly \<Longrightarrow> is_severity i = Warn_sev \<Longrightarrow>
   row_ok (ly, if b then Warn_sev else Ok_sev, if b then [i] else [])"
  by (simp add: row_ok_def)

definition row_sevs :: "(layer \<times> severity \<times> status_issue list) list \<Rightarrow> (layer \<times> severity) list" where
  "row_sevs rows = map (\<lambda>(ly, sev, new). (ly, sev)) rows"

definition row_issues :: "(layer \<times> severity \<times> status_issue list) list \<Rightarrow> status_issue list" where
  "row_issues rows = concat (map (\<lambda>(ly, sev, new). new) rows)"

lemma rows_explained:
  assumes "distinct (map fst rows)" and "list_all row_ok rows"
  shows "i \<in> set (row_issues rows) \<Longrightarrow> is_severity i \<noteq> Ok_sev \<and> map_of (row_sevs rows) (is_layer i) = Some (is_severity i)"
    and "(ly, sev) \<in> set (row_sevs rows) \<Longrightarrow> sev \<noteq> Ok_sev \<Longrightarrow> \<exists>i \<in> set (row_issues rows). is_layer i = ly"
    and "(\<forall>p \<in> set (row_sevs rows). snd p = Ok_sev) \<longleftrightarrow> row_issues rows = []"
proof -
  have dist: "distinct (map fst (row_sevs rows))" using assms(1)
    by (simp add: row_sevs_def comp_def case_prod_unfold)
  have ok: "(\<forall>i \<in> set new. is_layer i = ly \<and> is_severity i = sev) \<and> (new = [] \<longleftrightarrow> sev = Ok_sev)"
    if "(ly, sev, new) \<in> set rows" for ly sev new
    using that assms(2) by (auto simp: list_all_iff row_ok_def)
  show "i \<in> set (row_issues rows) \<Longrightarrow> is_severity i \<noteq> Ok_sev \<and> map_of (row_sevs rows) (is_layer i) = Some (is_severity i)"
  proof -
    assume "i \<in> set (row_issues rows)"
    then obtain ly sev new where r: "(ly, sev, new) \<in> set rows" and i: "i \<in> set new"
      by (auto simp: row_issues_def)
    then have "(ly, sev) \<in> set (row_sevs rows)" unfolding row_sevs_def set_map by (auto intro: rev_image_eqI)
    moreover have "is_layer i = ly" "is_severity i = sev" "sev \<noteq> Ok_sev" using ok [OF r] i by auto
    ultimately show ?thesis using dist by simp
  qed
  show "(ly, sev) \<in> set (row_sevs rows) \<Longrightarrow> sev \<noteq> Ok_sev \<Longrightarrow> \<exists>i \<in> set (row_issues rows). is_layer i = ly"
  proof -
    assume "(ly, sev) \<in> set (row_sevs rows)" and sev: "sev \<noteq> Ok_sev"
    then obtain new where r: "(ly, sev, new) \<in> set rows" by (auto simp: row_sevs_def)
    have "new \<noteq> []" using ok [OF r] sev by blast
    then have i: "hd new \<in> set new" "is_layer (hd new) = ly" using ok [OF r] by auto
    then have "hd new \<in> set (row_issues rows)" using r unfolding row_issues_def set_concat set_map by auto
    then show ?thesis using i by blast
  qed
  show "(\<forall>p \<in> set (row_sevs rows). snd p = Ok_sev) \<longleftrightarrow> row_issues rows = []"
  proof -
    have "row_issues rows = [] \<longleftrightarrow> (\<forall>(ly, sev, new) \<in> set rows. new = [])" by (auto simp: row_issues_def)
    also have "\<dots> \<longleftrightarrow> (\<forall>(ly, sev, new) \<in> set rows. sev = Ok_sev)"
      by (rule ball_cong [OF refl]) (use ok in auto)
    finally show ?thesis by (auto simp: row_sevs_def)
  qed
qed

section \<open>Properties\<close>

text \<open>
  The overall status is the worst of the five layers, and the issue list explains it: every
  issue is reported at the severity of its layer and is not \<open>ok\<close>, every layer that is not \<open>ok\<close> has
  an issue, so the overall status is \<open>ok\<close> exactly when there is no issue.
\<close>

theorem status_explained_by_issues:
  assumes "st = buildBridgeStatusSnapshot show_num active win cnt lat now"
    and "sevs = map (\<lambda>(ly, l). (ly, sl_severity l)) (st_layers st)"
  shows "st_overall st = Max (snd ` set sevs)
    \<and> (\<forall>i \<in> set (st_issues st). is_severity i \<noteq> Ok_sev \<and> map_of sevs (is_layer i) = Some (is_severity i))
    \<and> (\<forall>(ly, sev) \<in> set sevs. sev \<noteq> Ok_sev \<longrightarrow> (\<exists>i \<in> set (st_issues st). is_layer i = ly))
    \<and> (st_overall st = Ok_sev \<longleftrightarrow> st_issues st = [])"
proof -
  let ?tr = "lm_p95Ms (l_connect lat)" and ?re = "lm_p95Ms (l_streamLag lat)" and ?sa = "lm_p95Ms (l_inputAck lat)"
  let ?b = "active > 0 \<and> attachRequests cnt = 0" and ?c = "streamLagSamples cnt = 0 \<and> active > 0"
  define iru where "iru = \<lparr>is_layer = Runtime, is_severity = Warn_sev, is_code = ''active_clients_without_attach'',
      is_message = ''active clients observed with no attach requests in current telemetry window''\<rparr>"
  define iob where "iob = \<lparr>is_layer = Observability, is_severity = Warn_sev, is_code = ''missing_stream_lag_samples'',
      is_message = ''stream lag samples are missing while clients are connected''\<rparr>"
  define ru where "ru = (if ?b then Warn_sev else Ok_sev)"
  define ob where "ob = (if ?c then Warn_sev else Ok_sev)"
  define tr where "tr = lat_sev ?tr 500 1000"
  define re where "re = lat_sev ?re 200 500"
  define sa where "sa = lat_sev ?sa 250 500"
  define rows where "rows =
    [(Transport, tr, lat_new show_num ?tr 500 1000 Transport ''connect_latency_p95''),
     (Replay, re, lat_new show_num ?re 200 500 Replay ''stream_lag_p95''),
     (Safety, sa, lat_new show_num ?sa 250 500 Safety ''input_ack_latency_p95''),
     (Runtime, ru, if ?b then [iru] else []),
     (Observability, ob, if ?c then [iob] else [])]"
  have ok: "list_all row_ok rows" "distinct (map fst rows)"
    by (simp_all add: rows_def iru_def iob_def tr_def re_def sa_def ru_def ob_def)
  have flags: "ru = Warn_sev \<longleftrightarrow> ?b" "ob = Warn_sev \<longleftrightarrow> ?c" by (simp_all add: ru_def ob_def)
  note folded = assms(1) [unfolded buildBridgeStatusSnapshot_def derive_eq Let_def prod.case,
      folded tr_def re_def sa_def, folded ru_def ob_def, unfolded flags]
  have issues: "st_issues st = row_issues rows"
    unfolding folded by (simp add: rows_def row_issues_def iru_def iob_def)
  have sevs: "sevs = [(Transport, tr), (Runtime, ru), (Replay, re), (Safety, sa), (Observability, ob)]"
    unfolding assms(2) folded by simp
  have ov: "st_overall st = maxSeverity (map snd sevs)" unfolding folded sevs by simp
  have sset: "set sevs = set (row_sevs rows)" by (auto simp: sevs rows_def row_sevs_def)
  have smap: "map_of sevs = map_of (row_sevs rows)" by (auto simp: sevs rows_def row_sevs_def fun_eq_iff)
  have ne: "sevs \<noteq> []" by (simp add: sevs)
  note ex = rows_explained [OF ok(2,1)]
  have mx: "st_overall st = Max (snd ` set sevs)" using ov maxSeverity_Max [of "map snd sevs"] ne by simp
  have okall: "st_overall st = Ok_sev \<longleftrightarrow> (\<forall>p \<in> set sevs. snd p = Ok_sev)"
    unfolding ov maxSeverity_Ok by auto
  have "\<forall>i \<in> set (st_issues st). is_severity i \<noteq> Ok_sev \<and> map_of sevs (is_layer i) = Some (is_severity i)"
    using ex(1) unfolding issues smap by blast
  moreover have "\<forall>(ly, sev) \<in> set sevs. sev \<noteq> Ok_sev \<longrightarrow> (\<exists>i \<in> set (st_issues st). is_layer i = ly)"
    using ex(2) unfolding issues sset by blast
  moreover have "st_overall st = Ok_sev \<longleftrightarrow> st_issues st = []"
    using ex(3) unfolding okall issues sset .
  ultimately show ?thesis using mx by blast
qed

definition slow_metric :: latency_metric where
  "slow_metric = \<lparr>lm_count = 1, lm_lastMs = Some 2000, lm_minMs = Some 2000, lm_maxMs = Some 2000,
     lm_avgMs = Some 2000, lm_p50Ms = Some 2000, lm_p95Ms = Some 2000\<rparr>"

definition idle_metric :: latency_metric where
  "idle_metric = snapshotLatency (createLatencyWindow 4)"

definition slow_connect :: latency_metrics where
  "slow_connect = \<lparr>l_connect = slow_metric, l_reconnect = idle_metric, l_list = idle_metric,
     l_attach = idle_metric, l_inputAck = idle_metric, l_streamLag = idle_metric\<rparr>"

theorem status_explained_by_issues_witness:
  "st_overall (buildBridgeStatusSnapshot (\<lambda>_. ''2000'') 0 4 zero_counters slow_connect 0) = Fail_sev \<and>
   st_issues (buildBridgeStatusSnapshot (\<lambda>_. ''2000'') 0 4 zero_counters slow_connect 0) \<noteq> []"
proof -
  let ?st = "buildBridgeStatusSnapshot (\<lambda>_. ''2000'') 0 4 zero_counters slow_connect 0"
  have "lm_p95Ms idle_metric = None"
    by (simp add: idle_metric_def snapshotLatency_def createLatencyWindow_def)
  then have "st_overall ?st = Fail_sev"
    by (simp add: buildBridgeStatusSnapshot_def derive_eq lat_sev_def slow_connect_def slow_metric_def
        maxSeverity_def)
  moreover have "st_overall ?st = Ok_sev \<longleftrightarrow> st_issues ?st = []"
    using status_explained_by_issues [OF refl refl, of "\<lambda>_. ''2000''" 0 4 zero_counters slow_connect 0] by blast
  ultimately show ?thesis by (metis severity.distinct(3) severity.distinct(4))
qed

end
