(* ===== verification/Bridge_Server.thy ===== *)
theory Bridge_Server
  imports Runtime_Failures Rate_Limiter Server_Utils Session_Metadata Bridge_Status
begin

text \<open>
  The bridge server, \<^verbatim>\<open>src/server/bridge-server.ts\<close>: its state, the callbacks it gives the engine,
  one definition per message type, the dispatch, and the handlers of the socket events.

  The state holds what the closures of \<open>startBridgeServer\<close> share. A handler returns the new state,
  the effects it has in order (audit records, envelopes for a client's socket, input for a pane), and
  whether it threw. One handler runs to its end before the next starts; the fragments of the
  engine between awaits are in \<open>Engine_Stream\<close>. What a handler gets from outside while it runs is its
  \<open>handler_env\<close>: the clock before and after its awaits, the panes listed, the pane captured, the
  outcome of sending input. \<open>host\<close> holds the functions of the platform: \<open>JSON.parse\<close>, \<open>String\<close>, the
  SHA-256 digest, and a collation key for \<open>localeCompare\<close> (every linear order of strings embeds in
  the rationals).
\<close>

section \<open>State\<close>

record server_config =
  authToken :: "string option"
  maxMessagesPerMinute :: int
  maxInputsPerMinute :: int
  maxInputBytes :: int
  maxAttachedPanes :: int
  killSwitch :: bool
  allowInputOwnershipOverride :: "bool option"
  strictProtocolParsing :: bool
  maxHistoryEvents :: "int option"
  inputLaneLeaseMs :: jsval

record client_state =
  authenticated :: bool
  inputEnabled :: bool
  attachedPanes :: "string list"

record server =
  clients :: "(string \<times> client_state) list"
  engine :: bridge_engine
  lanes :: ownership_state
  messageLimiter :: rate_limiter
  inputLimiter :: rate_limiter
  telemetry :: telemetry_collector
  pendingAttachLag :: "(string \<times> int) list"

record host =
  json_parse :: "string \<Rightarrow> jsval option"
  to_str :: "jsval \<Rightarrow> string"
  sha256 :: "string \<Rightarrow> string"
  collate :: "string \<Rightarrow> rat"

record handler_env =
  he_now :: int
  he_done :: int
  he_panes :: "(jsval, js_record list) result"
  he_capture :: "(jsval, string) result"
  he_sendInput :: "(jsval, unit) result"

datatype effect =
    Audit string string js_record
  | Send string wire_envelope
  | TmuxSend string string

type_synonym handled = "server \<times> effect list \<times> (jsval, unit) result"

definition token_required :: "server_config \<Rightarrow> bool" where
  "token_required cfg \<longleftrightarrow> authToken cfg \<noteq> None \<and> authToken cfg \<noteq> Some []"

definition history_limit :: "server_config \<Rightarrow> int" where
  "history_limit cfg = default_maxHistoryEvents (maxHistoryEvents cfg)"

definition start_server :: "server_config \<Rightarrow> server" where
  "start_server cfg =
     \<lparr>clients = [], engine = new_engine, lanes = Arbiter (new_arbiter (inputLaneLeaseMs cfg)),
      messageLimiter = new_rate_limiter (maxMessagesPerMinute cfg) 60000,
      inputLimiter = new_rate_limiter (maxInputsPerMinute cfg) 60000,
      telemetry = new_collector (Fin 256), pendingAttachLag = []\<rparr>"

definition upd_client :: "string \<Rightarrow> (client_state \<Rightarrow> client_state) \<Rightarrow> server \<Rightarrow> server" where
  "upd_client cid f s =
     (case map_of (clients s) cid of
        None \<Rightarrow> s
      | Some c \<Rightarrow> s\<lparr>clients := mput (clients s) cid (f c)\<rparr>)"

definition lag_key :: "string \<Rightarrow> string \<Rightarrow> string" where
  "lag_key cid paneId = cid @ '':'' @ paneId"

definition jopt_str :: "string option \<Rightarrow> jsval" where
  "jopt_str v = (case v of None \<Rightarrow> JNull | Some s \<Rightarrow> JStr s)"

definition jopt_num :: "jsnum option \<Rightarrow> jsval" where
  "jopt_num v = (case v of None \<Rightarrow> JNull | Some n \<Rightarrow> JNum n)"

section \<open>Engine callbacks\<close>

definition event_json :: "pane_event \<Rightarrow> js_record" where
  "event_json ev =
     [(''mode'', JStr (case ev_mode ev of Snapshot \<Rightarrow> ''snapshot'' | Delta \<Rightarrow> ''delta'')),
      (''paneId'', JStr (ev_paneId ev)), (''chunk'', JStr (ev_chunk ev)), (''streamSeq'', jint (ev_streamSeq ev))]"

definition onOutput :: "int \<Rightarrow> server \<Rightarrow> string \<Rightarrow> pane_event \<Rightarrow> server \<times> effect list" where
  "onOutput now s cid ev =
     (case map_of (clients s) cid of
        None \<Rightarrow> (s, [])
      | Some _ \<Rightarrow>
          (let key = lag_key cid (ev_paneId ev);
               s1 = (case map_of (pendingAttachLag s) key of
                       None \<Rightarrow> s
                     | Some lagStart \<Rightarrow>
                         s\<lparr>telemetry := recordStreamLag (telemetry s) (Fin (of_int (now - lagStart))),
                           pendingAttachLag := mdelete (pendingAttachLag s) key\<rparr>)
           in (s1, [Send cid (envelope now ''output'' (event_json ev) None)])))"

definition error_text :: "host \<Rightarrow> jsval \<Rightarrow> string" where
  "error_text h err =
     (case err of JObj r \<Rightarrow> (case prop_of r ''message'' of JStr m \<Rightarrow> m | _ \<Rightarrow> to_str h err) | _ \<Rightarrow> to_str h err)"

definition onError :: "host \<Rightarrow> int \<Rightarrow> server \<Rightarrow> string \<Rightarrow> string \<Rightarrow> jsval \<Rightarrow> server \<times> effect list" where
  "onError h now s cid paneId err =
     (case map_of (clients s) cid of
        None \<Rightarrow> (s, [])
      | Some _ \<Rightarrow>
          (s\<lparr>pendingAttachLag := mdelete (pendingAttachLag s) (lag_key cid paneId)\<rparr>,
           [Send cid (envelope now ''error''
              [(''code'', JStr ''pane_poll_failed''), (''paneId'', JStr paneId),
               (''message'', JStr (error_text h err))] None)]))"

fun engine_callbacks :: "host \<Rightarrow> int \<Rightarrow> server \<Rightarrow> jsval engine_call list \<Rightarrow> server \<times> effect list" where
  "engine_callbacks h now s [] = (s, [])"
| "engine_callbacks h now s (call # calls) =
     (let (s1, fx) = (case call of
            OnOutput cid ev \<Rightarrow> onOutput now s cid ev
          | OnError cid paneId err \<Rightarrow> onError h now s cid paneId err);
          (s2, fx') = engine_callbacks h now s1 calls
      in (s2, fx @ fx'))"

section \<open>Message handlers\<close>

definition latency :: "handler_env \<Rightarrow> int \<Rightarrow> jsnum" where
  "latency env startedAt = Fin (of_int (he_done env - startedAt))"

definition handle_auth ::
  "server_config \<Rightarrow> handler_env \<Rightarrow> server \<Rightarrow> string \<Rightarrow> js_record \<Rightarrow> string option \<Rightarrow> handled" where
  "handle_auth cfg env s cid payload rid =
     (if \<not> token_required cfg then
        (upd_client cid (\<lambda>c. c\<lparr>authenticated := True\<rparr>) s,
         [Audit ''auth_ok'' cid [(''mode'', JStr ''open'')],
          Send cid (envelope (he_done env) ''auth_ok'' [(''mode'', JStr ''open'')] rid)], Inr ())
      else
        (let token = (case parseNonEmptyString (prop_of payload ''token'') of None \<Rightarrow> [] | Some t \<Rightarrow> t)
         in if \<not> tokenEquals (the (authToken cfg)) token then
              (s, [Audit ''auth_fail'' cid [(''reason'', JStr ''invalid_token'')],
                   Send cid (envelope (he_done env) ''auth_error''
                     [(''code'', JStr ''invalid_token''), (''recoverable'', JBool True)] rid)], Inr ())
            else
              (upd_client cid (\<lambda>c. c\<lparr>authenticated := True\<rparr>) s,
               [Audit ''auth_ok'' cid [(''mode'', JStr ''token'')],
                Send cid (envelope (he_done env) ''auth_ok'' [(''mode'', JStr ''token'')] rid)], Inr ())))"

definition bucket_json :: "session_bucket \<Rightarrow> jsval" where
  "bucket_json b = JObj ([(''sessionName'', JStr (sb_sessionName b)), (''paneIds'', JArr (map JStr (sb_paneIds b)))]
     @ (case sb_backendId b of None \<Rightarrow> [] | Some i \<Rightarrow> [(''backendId'', JStr i)]))"

definition metadata_json :: "list_metadata \<Rightarrow> jsval" where
  "metadata_json md =
     JObj [(''source'', JStr ''host''), (''generatedAt'', jint (lmd_generatedAt md)),
       (''capabilities'', JObj [(''laneOwnership'', JBool (cap_laneOwnership (lmd_capabilities md))),
          (''replayOffset'', JBool (cap_replayOffset (lmd_capabilities md))),
          (''inputOwnershipOverride'', JBool (cap_inputOwnershipOverride (lmd_capabilities md)))]),
       (''panes'', JArr (map (\<lambda>m. JObj [(''paneId'', JStr (pm_paneId m)),
          (''laneOwnerClientId'', jopt_str (pm_laneOwnerClientId m)),
          (''replayOffset'', jint (pm_replayOffset m))]) (lmd_panes md)))]"

definition lane_override_allowed :: "server_config \<Rightarrow> bool" where
  "lane_override_allowed cfg = (case allowInputOwnershipOverride cfg of None \<Rightarrow> True | Some b \<Rightarrow> b)"

definition list_metadata_of :: "server_config \<Rightarrow> host \<Rightarrow> handler_env \<Rightarrow> server \<Rightarrow> js_record list \<Rightarrow> server \<times> list_metadata" where
  "list_metadata_of cfg h env s rows =
     (let (lanes', owners) = snapshotPaneInputOwnership (collate h) (lanes s) (of_int (he_done env))
      in (s\<lparr>lanes := lanes'\<rparr>,
          buildSessionListRuntimeMetadata rows (owner_rows owners)
            (getReplayOffsetsSnapshot (collate h) (engine s))
            \<lparr>cap_laneOwnership = (lanes s \<noteq> Unowned), cap_replayOffset = True,
             cap_inputOwnershipOverride = lane_override_allowed cfg\<rparr> (he_done env)))"

definition handle_list_sessions ::
  "server_config \<Rightarrow> host \<Rightarrow> handler_env \<Rightarrow> server \<Rightarrow> string \<Rightarrow> int \<Rightarrow> string option \<Rightarrow> handled" where
  "handle_list_sessions cfg h env s cid startedAt rid =
     (case he_panes env of
        Inl err \<Rightarrow> (s, [], Inl err)
      | Inr rows \<Rightarrow>
          (let sessions = groupSessionsByName rows;
               (s1, runtime) = list_metadata_of cfg h env s rows;
               s2 = s1\<lparr>telemetry := recordListLatency (telemetry s1) (latency env startedAt)\<rparr>
           in (s2, [Send cid (envelope (he_done env) ''session_list''
                 [(''panes'', JArr (map JObj rows)), (''sessions'', JArr (map bucket_json sessions)),
                  (''runtime'', metadata_json runtime)] rid)], Inr ())))"

definition code_error :: "int \<Rightarrow> string \<Rightarrow> string \<Rightarrow> string option \<Rightarrow> effect" where
  "code_error now cid code rid = Send cid (envelope now ''error'' [(''code'', JStr code)] rid)"

definition attach_audits :: "string \<Rightarrow> string \<Rightarrow> jsnum option \<Rightarrow> replay_metadata \<Rightarrow> effect list" where
  "attach_audits cid paneId lastSeq md =
     (case lastSeq of
        Some (Fin q) \<Rightarrow>
          (if md_replayUsed md \<and> md_replayedCount md > 0 then
             [Audit ''replay_resume'' cid
                [(''paneId'', JStr paneId), (''lastSeq'', JNum (Fin q)),
                 (''replayedCount'', jint (md_replayedCount md)), (''replayStartSeq'', JNum (Fin (q + 1))),
                 (''replayEndSeq'', JNum (Fin (q + of_int (md_replayedCount md)))),
                 (''latestSeq'', jint (md_latestSeq md)), (''result'', JStr ''allowed''),
                 (''reason'', JStr ''resume'')]]
           else if md_fallbackToSnapshot md then
             [Audit ''replay_gap_snapshot_fallback'' cid
                [(''paneId'', JStr paneId), (''lastSeq'', JNum (Fin q)), (''streamSeq'', jint (md_latestSeq md)),
                 (''latestSeq'', jint (md_latestSeq md)), (''result'', JStr ''allowed''),
                 (''reason'', JStr (classifyReplaySnapshotFallbackReason md))]]
           else [])
      | _ \<Rightarrow> [])
     @ [Audit ''attach'' cid [(''paneId'', JStr paneId), (''lastSeq'', jopt_num lastSeq)]]"

definition handle_attach ::
  "server_config \<Rightarrow> host \<Rightarrow> handler_env \<Rightarrow> server \<Rightarrow> string \<Rightarrow> client_state \<Rightarrow> int \<Rightarrow> js_record \<Rightarrow> string option \<Rightarrow> handled" where
  "handle_attach cfg h env s cid client startedAt payload rid =
     (case parseNonEmptyString (prop_of payload ''paneId'') of
        None \<Rightarrow> (s, [code_error (he_now env) cid ''invalid_pane_id'' rid], Inr ())
      | Some paneId \<Rightarrow>
          (if paneId \<notin> set (attachedPanes client) \<and> int (length (attachedPanes client)) \<ge> maxAttachedPanes cfg then
             (s, [code_error (he_now env) cid ''max_attached_panes_exceeded'' rid], Inr ())
           else
             (let lastSeq = parseOptionalInt (prop_of payload ''lastSeq'');
                  s1 = upd_client cid (\<lambda>c. c\<lparr>attachedPanes := sadd (attachedPanes c) paneId\<rparr>) s;
                  s2 = s1\<lparr>pendingAttachLag := mput (pendingAttachLag s1) (lag_key cid paneId) startedAt\<rparr>;
                  (e, calls, res) = attach (history_limit cfg) (engine s2) cid paneId lastSeq (he_capture env);
                  (s3, fx) = engine_callbacks h (he_done env) (s2\<lparr>engine := e\<rparr>) calls
              in case res of
                   Inl err \<Rightarrow> (s3, fx, Inl err)
                 | Inr md \<Rightarrow>
                     (let t1 = recordAttachLatency (telemetry s3) (latency env startedAt);
                          t2 = (if lastSeq \<noteq> None then recordReconnectLatency t1 (latency env startedAt) else t1)
                      in (s3\<lparr>telemetry := t2\<rparr>,
                          fx @ attach_audits cid paneId lastSeq md @
                            [Send cid (envelope (he_done env) ''ack''
                               [(''action'', JStr ''attach''), (''paneId'', JStr paneId)] rid)],
                          Inr ())))))"

definition handle_detach ::
  "handler_env \<Rightarrow> server \<Rightarrow> string \<Rightarrow> js_record \<Rightarrow> string option \<Rightarrow> handled" where
  "handle_detach env s cid payload rid =
     (case parseNonEmptyString (prop_of payload ''paneId'') of
        None \<Rightarrow> (s, [code_error (he_now env) cid ''invalid_pane_id'' rid], Inr ())
      | Some paneId \<Rightarrow>
          (let s1 = upd_client cid (\<lambda>c. c\<lparr>attachedPanes := sdelete (attachedPanes c) paneId\<rparr>) s;
               (lanes', released) = releasePaneInputOwnership (lanes s1) (of_int (he_now env)) paneId cid;
               s2 = s1\<lparr>lanes := lanes', engine := detach (engine s1) cid paneId\<rparr>
           in (s2,
               [Audit ''detach'' cid [(''paneId'', JStr paneId)]] @
               (if released then [Audit ''lane_owner_released'' cid [(''paneId'', JStr paneId),
                  (''result'', JStr ''allowed''), (''reason'', JStr ''detach'')]] else []) @
               [Send cid (envelope (he_done env) ''ack''
                  [(''action'', JStr ''detach''), (''paneId'', JStr paneId)] rid)], Inr ())))"

definition handle_enable_input ::
  "server_config \<Rightarrow> handler_env \<Rightarrow> server \<Rightarrow> string \<Rightarrow> string option \<Rightarrow> handled" where
  "handle_enable_input cfg env s cid rid =
     (let nextInputEnabled = (\<not> killSwitch cfg)
      in (upd_client cid (\<lambda>c. c\<lparr>inputEnabled := nextInputEnabled\<rparr>) s,
          [Audit ''enable_input'' cid
             [(''result'', JStr (if nextInputEnabled then ''allowed'' else ''denied'')),
              (''reason'', JStr (if nextInputEnabled then ''client_enabled'' else ''global_input_kill_switch''))],
           Send cid (policyUpdateEnvelope (he_done env) nextInputEnabled (killSwitch cfg) rid)], Inr ()))"

definition handle_disable_input ::
  "server_config \<Rightarrow> handler_env \<Rightarrow> server \<Rightarrow> string \<Rightarrow> string option \<Rightarrow> handled" where
  "handle_disable_input cfg env s cid rid =
     (upd_client cid (\<lambda>c. c\<lparr>inputEnabled := False\<rparr>) s,
      [Audit ''disable_input'' cid [(''result'', JStr ''allowed''), (''reason'', JStr ''client_disabled'')],
       Send cid (policyUpdateEnvelope (he_done env) False (killSwitch cfg) rid)], Inr ())"

definition rate_payload :: "string \<Rightarrow> rate_limit_decision \<Rightarrow> js_record" where
  "rate_payload code d = [(''code'', JStr code), (''retryAfterMs'', jint (retryAfterMs d)),
     (''limit'', jint (limit d)), (''windowMs'', jint (window_ms d))]"

definition input_audit ::
  "string \<Rightarrow> string option \<Rightarrow> string \<Rightarrow> string \<Rightarrow> int \<Rightarrow> jsval \<Rightarrow> string \<Rightarrow> effect" where
  "input_audit cid paneId result_text reason bytes commandHash previewPolicy =
     Audit ''input'' cid
       [(''paneId'', jopt_str paneId), (''result'', JStr result_text), (''reason'', JStr reason),
        (''bytes'', jint bytes), (''commandHash'', commandHash), (''previewPolicy'', JStr previewPolicy)]"

definition handle_input ::
  "server_config \<Rightarrow> host \<Rightarrow> handler_env \<Rightarrow> server \<Rightarrow> string \<Rightarrow> client_state \<Rightarrow> int \<Rightarrow> js_record \<Rightarrow> string option \<Rightarrow> handled" where
  "handle_input cfg h env s cid client startedAt payload rid =
     (let paneId = parseNonEmptyString (prop_of payload ''paneId'');
          dat = str_or [] (prop_of payload ''data'');
          inputBytes = byteLength dat;
          commandHash = (if dat \<noteq> [] then JStr (sha256 h dat) else JNull);
          previewPolicy = (if dat \<noteq> [] then ''sha256_only'' else ''none'');
          (lim, inputRate) = consume (inputLimiter s) (he_now env) cid;
          s1 = s\<lparr>inputLimiter := lim\<rparr>
      in if \<not> allowed inputRate then
           (s1, [input_audit cid paneId ''denied'' ''rate_limited'' inputBytes commandHash previewPolicy,
                 Send cid (envelope (he_done env) ''error'' (rate_payload ''input_rate_limited'' inputRate) rid)], Inr ())
         else if \<not> isInputAllowed \<lparr>globalInputDisabled = killSwitch cfg, clientInputEnabled = inputEnabled client\<rparr> then
           (s1, [input_audit cid paneId ''denied'' ''policy_blocked'' inputBytes commandHash previewPolicy,
                 code_error (he_done env) cid ''input_disabled'' rid], Inr ())
         else case paneId of
           None \<Rightarrow> (s1, [code_error (he_now env) cid ''invalid_input'' rid], Inr ())
         | Some pane \<Rightarrow>
             (if dat = [] then (s1, [code_error (he_now env) cid ''invalid_input'' rid], Inr ())
              else if pane \<notin> set (attachedPanes client) then
                (s1, [code_error (he_now env) cid ''pane_not_attached'' rid], Inr ())
              else if inputBytes > maxInputBytes cfg then
                (s1, [Send cid (envelope (he_now env) ''error'' [(''code'', JStr ''input_too_large''),
                   (''maxInputBytes'', jint (maxInputBytes cfg)), (''receivedBytes'', jint inputBytes)] rid)], Inr ())
              else
                (let overrideRequested = (parseOptionalBoolean (prop_of payload ''override'') = Some True
                       \<or> parseOptionalBoolean (prop_of payload ''takeOwnership'') = Some True);
                     (lanes', claim) = claimPaneInputOwnership (lanes s1) (of_int (he_now env)) (of_int (he_now env))
                       pane cid overrideRequested (lane_override_allowed cfg);
                     s2 = s1\<lparr>lanes := lanes'\<rparr>
                 in case claim of
                      Some (Refused ownerClientId overrideAllowed) \<Rightarrow>
                        (s2, [input_audit cid (Some pane) ''denied'' ''ownership_conflict'' inputBytes commandHash previewPolicy,
                              Send cid (envelope (he_done env) ''error'' [(''code'', JStr ''input_lane_conflict''),
                                (''paneId'', JStr pane), (''ownerClientId'', JStr ownerClientId),
                                (''overrideAllowed'', JBool overrideAllowed), (''recoverable'', JBool True)] rid)], Inr ())
                    | _ \<Rightarrow>
                        (case he_sendInput env of
                           Inl err \<Rightarrow> (s2, [TmuxSend pane dat], Inl err)
                         | Inr _ \<Rightarrow>
                             (s2\<lparr>telemetry := recordInputAckLatency (telemetry s2) (latency env startedAt)\<rparr>,
                              [TmuxSend pane dat,
                               Audit ''input'' cid [(''paneId'', JStr pane), (''bytes'', jint inputBytes),
                                 (''result'', JStr ''allowed''), (''reason'', JStr ''ok''),
                                 (''commandHash'', commandHash), (''previewPolicy'', JStr previewPolicy)]] @
                              (if claim = Some (Claimed True) then [Audit ''input_takeover'' cid
                                 [(''paneId'', JStr pane), (''result'', JStr ''allowed''), (''reason'', JStr ''override''),
                                  (''bytes'', jint inputBytes)]] else []) @
                              [Send cid (envelope (he_done env) ''ack'' [(''action'', JStr ''input''),
                                 (''paneId'', JStr pane), (''bytes'', jint inputBytes)] rid)], Inr ())))))"

definition handle_heartbeat :: "handler_env \<Rightarrow> server \<Rightarrow> string \<Rightarrow> string option \<Rightarrow> handled" where
  "handle_heartbeat env s cid rid =
     (s, [Send cid (envelope (he_now env) ''heartbeat_ack'' [(''clientId'', JStr cid)] rid)], Inr ())"

definition handle_disconnect :: "handler_env \<Rightarrow> server \<Rightarrow> string \<Rightarrow> string option \<Rightarrow> handled" where
  "handle_disconnect env s cid rid =
     (let (lanes', releasedPanes) = releaseClientInputOwnership (lanes s) (of_int (he_now env)) cid;
          s1 = s\<lparr>engine := detachAll (engine s) cid, lanes := lanes'\<rparr>;
          s2 = upd_client cid (\<lambda>c. c\<lparr>attachedPanes := [], inputEnabled := False\<rparr>) s1
      in (s2,
          (if releasedPanes > 0 then [Audit ''lane_owner_released'' cid [(''result'', JStr ''allowed''),
             (''reason'', JStr ''disconnect''), (''releasedPanes'', jint (int releasedPanes))]] else []) @
          [Audit ''disconnect'' cid [],
           Send cid (envelope (he_done env) ''ack'' [(''action'', JStr ''disconnect'')] rid)], Inr ()))"

definition handleClientMessage ::
  "server_config \<Rightarrow> host \<Rightarrow> handler_env \<Rightarrow> server \<Rightarrow> string \<Rightarrow> int \<Rightarrow> string \<Rightarrow> js_record \<Rightarrow> string option \<Rightarrow> handled" where
  "handleClientMessage cfg h env s cid startedAt type payload rid =
     (case map_of (clients s) cid of
        None \<Rightarrow> (s, [], Inr ())
      | Some client \<Rightarrow>
          (if \<not> authenticated client \<and> type \<noteq> ''auth'' then
             (s, [Send cid (envelope (he_now env) ''error''
                [(''code'', JStr ''auth_required''), (''recoverable'', JBool True)] rid)], Inr ())
           else if type = ''auth'' then handle_auth cfg env s cid payload rid
           else if type = ''list_sessions'' then handle_list_sessions cfg h env s cid startedAt rid
           else if type = ''attach'' then handle_attach cfg h env s cid client startedAt payload rid
           else if type = ''detach'' then handle_detach env s cid payload rid
           else if type = ''enable_input'' then handle_enable_input cfg env s cid rid
           else if type = ''disable_input'' then handle_disable_input cfg env s cid rid
           else if type = ''input'' then handle_input cfg h env s cid client startedAt payload rid
           else if type = ''heartbeat'' then handle_heartbeat env s cid rid
           else if type = ''disconnect'' then handle_disconnect env s cid rid
           else (s, [Send cid (envelope (he_now env) ''error''
                  [(''code'', JStr ''unknown_type''), (''type'', JStr type)] rid)], Inr ())))"

section \<open>Socket events\<close>

definition parseIncomingClientMessage :: "host \<Rightarrow> server_config \<Rightarrow> int \<Rightarrow> string \<Rightarrow> (string, wire_envelope) result" where
  "parseIncomingClientMessage h cfg now raw = parseMessage (json_parse h) (strictProtocolParsing cfg) now raw"

definition onConnection :: "server_config \<Rightarrow> handler_env \<Rightarrow> server \<Rightarrow> string \<Rightarrow> server \<times> effect list" where
  "onConnection cfg env s cid =
     (let s1 = s\<lparr>clients := mput (clients s) cid
            \<lparr>authenticated = (if token_required cfg then False else True), inputEnabled = False, attachedPanes = []\<rparr>\<rparr>
      in (s1\<lparr>telemetry := recordConnectLatency (telemetry s1) (Fin (of_int (he_done env - he_now env)))\<rparr>,
          [Audit ''connect'' cid [(''result'', JStr ''allowed''), (''reason'', JStr ''socket_open''),
             (''requiresAuth'', JBool (token_required cfg)), (''inputEnabled'', JBool False),
             (''globalInputDisabled'', JBool (killSwitch cfg))],
           Send cid (envelope (he_done env) ''hello''
             ([(''clientId'', JStr cid), (''requiresAuth'', JBool (token_required cfg))] @
              policy_payload (buildInputPolicyState
                \<lparr>globalInputDisabled = killSwitch cfg, clientInputEnabled = False\<rparr>) @
              [(''maxInputBytes'', jint (maxInputBytes cfg)), (''maxAttachedPanes'', jint (maxAttachedPanes cfg))]) None)]))"

definition onMessage :: "server_config \<Rightarrow> host \<Rightarrow> handler_env \<Rightarrow> server \<Rightarrow> string \<Rightarrow> string \<Rightarrow> server \<times> effect list" where
  "onMessage cfg h env s cid raw =
     (let (lim, messageRate) = consume (messageLimiter s) (he_now env) cid;
          s1 = s\<lparr>messageLimiter := lim\<rparr>
      in if \<not> allowed messageRate then
           (s1, [Send cid (envelope (he_now env) ''error'' (rate_payload ''rate_limited'' messageRate) None)])
         else case parseIncomingClientMessage h cfg (he_now env) raw of
           Inl err \<Rightarrow> (s1, [code_error (he_now env) cid err None])
         | Inr m \<Rightarrow>
             (case handleClientMessage cfg h env s1 cid (he_now env) (env_type m) (env_payload m) (env_requestId m) of
                (s2, fx, Inr _) \<Rightarrow> (s2, fx)
              | (s2, fx, Inl err) \<Rightarrow>
                  (let f = classifyBridgeRuntimeFailure (to_str h) err
                   in (s2, fx @
                       [Audit ''runtime_failure'' cid [(''code'', JStr (rf_code f)), (''reason'', JStr (rf_reason f)),
                          (''recoverable'', JBool (rf_recoverable f))],
                        Send cid (envelope (he_done env) ''error'' [(''code'', JStr (rf_code f)),
                          (''reason'', JStr (rf_reason f)), (''recoverable'', JBool (rf_recoverable f)),
                          (''message'', JStr (rf_message f))] (env_requestId m))]))))"

definition onClose :: "handler_env \<Rightarrow> server \<Rightarrow> string \<Rightarrow> int \<Rightarrow> string \<Rightarrow> server \<times> effect list" where
  "onClose env s cid code closeReason =
     (let s1 = s\<lparr>engine := detachAll (engine s) cid, messageLimiter := clear (messageLimiter s) cid,
                inputLimiter := clear (inputLimiter s) cid\<rparr>;
          (lanes', releasedPanes) = releaseClientInputOwnership (lanes s1) (of_int (he_now env)) cid;
          closeFailure = classifyBridgeCloseFailure code closeReason
      in (s1\<lparr>lanes := lanes', telemetry := recordConnectionClosed (telemetry s1),
            pendingAttachLag := clearClientAttachLag (pendingAttachLag s1) cid,
            clients := mdelete (clients s1) cid\<rparr>,
          (if releasedPanes > 0 then [Audit ''lane_owner_released'' cid [(''result'', JStr ''allowed''),
             (''reason'', JStr ''socket_close''), (''releasedPanes'', jint (int releasedPanes))]] else []) @
          [Audit ''transport_drop'' cid [(''code'', jint code), (''reason'', JStr (or_default closeReason ''socket_closed'')),
             (''closeFailureCode'', JStr (cf_code closeFailure)),
             (''closeFailureRecoverable'', JBool (cf_recoverable closeFailure)),
             (''closeFailureReason'', JStr (cf_reason closeFailure)),
             (''releasedPanes'', jint (int releasedPanes))]]))"

definition onPollTimer :: "server_config \<Rightarrow> host \<Rightarrow> handler_env \<Rightarrow> (string \<Rightarrow> (jsval, string) result) \<Rightarrow> server \<Rightarrow> server \<times> effect list" where
  "onPollTimer cfg h env captures s =
     (let (e, calls) = pollOnce (history_limit cfg) captures (engine s)
      in engine_callbacks h (he_now env) (s\<lparr>engine := e\<rparr>) calls)"

end
