(* ===== verification/Cmux_Adapter.thy ===== *)
theory Cmux_Adapter
  imports Tmux_Adapter
begin

text \<open>
  The cmux adapter, \<^verbatim>\<open>src/runtime/cmux-adapter.ts\<close>: surfaces listed as JSON, with recovery from log lines
  around the JSON, and normalized to the pane shape. \<open>JSON.parse\<close> is a parameter.
\<close>

section \<open>Reading the output\<close>

fun search_json :: "string \<Rightarrow> nat option" where
  "search_json [] = None"
| "search_json (c # s) = (if c = CHR ''{'' \<or> c = CHR ''['' then Some 0 else map_option Suc (search_json s))"

fun lastIndexOf :: "string \<Rightarrow> char \<Rightarrow> int" where
  "lastIndexOf [] c = -1"
| "lastIndexOf (x # xs) c = (let i = lastIndexOf xs c in if i \<ge> 0 then i + 1 else if x = c then 0 else -1)"

definition parseJsonOutput :: "(string \<Rightarrow> jsval option) \<Rightarrow> string \<Rightarrow> jsval option" where
  "parseJsonOutput json out =
     (let t = trim out
      in if t = [] then None
         else case json t of
           Some v \<Rightarrow> Some v
         | None \<Rightarrow>
             (let start = search_json t; end1 = max (lastIndexOf t CHR ''}'') (lastIndexOf t CHR '']'')
              in case start of
                   None \<Rightarrow> None
                 | Some st \<Rightarrow> (if end1 \<le> int st then None else json (take (nat end1 + 1 - st) (drop st t)))))"

definition asRecord :: "jsval \<Rightarrow> js_record option" where
  "asRecord v = (case v of JObj r \<Rightarrow> Some r | _ \<Rightarrow> None)"

definition asArray :: "jsval \<Rightarrow> jsval list option" where
  "asArray v = (case v of JArr l \<Rightarrow> Some l | _ \<Rightarrow> None)"

definition opt_prop :: "js_record option \<Rightarrow> string \<Rightarrow> jsval" where
  "opt_prop r k = (case r of None \<Rightarrow> JUndef | Some o1 \<Rightarrow> prop_of o1 k)"

definition readString :: "jsval \<Rightarrow> string" where
  "readString v = (case v of JStr s \<Rightarrow> s | _ \<Rightarrow> [])"

definition trunc_num :: "rat \<Rightarrow> int" where
  "trunc_num q = (if q \<ge> 0 then \<lfloor>q\<rfloor> else \<lceil>q\<rceil>)"

definition toNumber :: "jsval \<Rightarrow> int" where
  "toNumber v =
     (case v of
        JNum (Fin q) \<Rightarrow> trunc_num q
      | JStr s \<Rightarrow> (case parseInt s of Fin q \<Rightarrow> trunc_num q | _ \<Rightarrow> 0)
      | _ \<Rightarrow> 0)"

fun first_some :: "'a option list \<Rightarrow> 'a option" where
  "first_some [] = None"
| "first_some (Some x # _) = Some x"
| "first_some (None # xs) = first_some xs"

definition extractSurfaces :: "jsval \<Rightarrow> jsval list" where
  "extractSurfaces payload =
     (case asRecord payload of
        None \<Rightarrow> []
      | Some base \<Rightarrow>
          (let fromPayload = asRecord (prop_of base ''payload'');
               resultFromPayload = asRecord (opt_prop fromPayload ''result'');
               fromRootResult = asRecord (prop_of base ''result'')
           in case first_some [asArray (opt_prop fromPayload ''surfaces''), asArray (opt_prop resultFromPayload ''surfaces''),
                  asArray (prop_of base ''surfaces''), asArray (opt_prop fromRootResult ''surfaces'')] of
                None \<Rightarrow> [] | Some l \<Rightarrow> l))"

definition or_str :: "string \<Rightarrow> string \<Rightarrow> string" where
  "or_str a b = (if a = [] then b else a)"

definition or_int :: "int \<Rightarrow> int \<Rightarrow> int" where
  "or_int a b = (if a = 0 then b else a)"

definition toPaneRow :: "jsval \<Rightarrow> tmux_pane option" where
  "toPaneRow surface =
     (case asRecord surface of
        None \<Rightarrow> None
      | Some r \<Rightarrow>
          (let paneId = or_str (readString (prop_of r ''id'')) (readString (prop_of r ''surfaceId''));
               windowRecord = asRecord (prop_of r ''window'')
           in if toLowerCase (readString (prop_of r ''type'')) \<noteq> ''terminal'' then None
              else if paneId = [] then None
              else Some \<lparr>
                tp_sessionName = or_str (readString (prop_of r ''sessionName'')) (or_str (readString (prop_of r ''session'')) ''default''),
                tp_windowIndex = Fin (of_int (or_int (toNumber (prop_of r ''windowIndex'')) (toNumber (opt_prop windowRecord ''index'')))),
                tp_windowName = or_str (readString (prop_of r ''windowName'')) (or_str (readString (opt_prop windowRecord ''name'')) ''cmux''),
                tp_paneIndex = Fin (of_int (or_int (toNumber (prop_of r ''paneIndex'')) (toNumber (prop_of r ''index'')))),
                tp_paneId = paneId,
                tp_paneTitle = or_str (readString (prop_of r ''title'')) (readString (prop_of r ''name'')),
                tp_currentCommand = or_str (readString (prop_of r ''currentCommand'')) (readString (prop_of r ''command''))\<rparr>))"

section \<open>The adapter\<close>

definition run_cmux :: "runner \<Rightarrow> string \<Rightarrow> jsnum \<Rightarrow> tmux_run" where
  "run_cmux run cmuxCommand timeout args =
     run_command run \<lparr>c_program = cmuxCommand, c_args = args, c_input = None, c_timeout = timeout\<rparr>"

definition cmux_isAvailable :: "(string \<Rightarrow> jsval option) \<Rightarrow> tmux_run \<Rightarrow> shell \<Rightarrow> shell \<times> bool" where
  "cmux_isAvailable json cmux s =
     (case cmux [''capabilities'', ''--json''] s of
        (t, Inl _) \<Rightarrow> (t, False)
      | (t, Inr out) \<Rightarrow> (t, parseJsonOutput json out \<noteq> None \<and> parseJsonOutput json out \<noteq> Some JNull))"

definition falsy :: "jsval \<Rightarrow> bool" where
  "falsy v = (case v of JUndef \<Rightarrow> True | JNull \<Rightarrow> True | JBool b \<Rightarrow> \<not> b | JNum n \<Rightarrow> n = Fin 0 \<or> n = NaN | JStr s \<Rightarrow> s = [] | _ \<Rightarrow> False)"

definition cmux_listPanes :: "(string \<Rightarrow> jsval option) \<Rightarrow> tmux_run \<Rightarrow> shell \<Rightarrow> shell \<times> (jsval, tmux_pane list) result" where
  "cmux_listPanes json cmux s =
     (case cmux [''list-surfaces'', ''--json''] s of
        (t, Inl e) \<Rightarrow> (t, Inl e)
      | (t, Inr out) \<Rightarrow>
          (t, Inr (case parseJsonOutput json out of
                     None \<Rightarrow> []
                   | Some payload \<Rightarrow> (if falsy payload then [] else List.map_filter toPaneRow (extractSurfaces payload)))))"

definition normalizeLineCount :: "int \<Rightarrow> int" where
  "normalizeLineCount lines = max 1 \<bar>lines\<bar>"

definition cmux_capturePane :: "tmux_run \<Rightarrow> string \<Rightarrow> int \<Rightarrow> shell \<Rightarrow> shell \<times> outcome" where
  "cmux_capturePane cmux paneId lines =
     cmux [''read-screen'', ''--surface'', paneId, ''--scrollback'', ''--lines'', int_str (normalizeLineCount lines)]"

definition cmux_sendInput :: "tmux_run \<Rightarrow> string \<Rightarrow> string \<Rightarrow> shell \<Rightarrow> shell \<times> (jsval, unit) result" where
  "cmux_sendInput cmux paneId txt s =
     (case cmux [''send'', ''--surface'', paneId, txt] s of (t, Inl e) \<Rightarrow> (t, Inl e) | (t, Inr _) \<Rightarrow> (t, Inr ()))"

section \<open>The contract\<close>

definition cmux_keys :: "shell \<Rightarrow> (string \<times> string) list" where
  "cmux_keys s = concat (map (\<lambda>(c, r). case r of Inl _ \<Rightarrow> []
     | Inr _ \<Rightarrow> (case c_args c of [sub, flag, p, txt] \<Rightarrow> if sub = ''send'' \<and> flag = ''--surface'' then [(p, txt)] else []
       | _ \<Rightarrow> [])) (sh_log s))"

lemma cmux_keys_run:
  "run_cmux run prog timeout [''send'', ''--surface'', p, d] s = (t, r) \<Longrightarrow>
   cmux_keys t = cmux_keys s @ (case r of Inl _ \<Rightarrow> [] | Inr _ \<Rightarrow> [(p, d)])"
  by (auto simp: run_cmux_def run_command_def cmux_keys_def Let_def split: sum.splits)

interpretation cmux_backend: input_backend "cmux_sendInput (run_cmux run prog timeout)" cmux_keys "\<lambda>_. True" for run prog timeout
proof
  fix p d s t u
  assume "cmux_sendInput (run_cmux run prog timeout) p d s = (t, Inr u)"
  then obtain out where "run_cmux run prog timeout [''send'', ''--surface'', p, d] s = (t, Inr out)"
    by (auto simp: cmux_sendInput_def split: prod.splits sum.splits)
  from cmux_keys_run [OF this] show "True \<and> (\<exists>cs. cmux_keys t = cmux_keys s @ map (Pair p) cs \<and> concat cs = d)"
    by (auto intro!: exI [of _ "[d]"])
next
  fix p d s t e
  assume "cmux_sendInput (run_cmux run prog timeout) p d s = (t, Inl e)"
  then have "run_cmux run prog timeout [''send'', ''--surface'', p, d] s = (t, Inl e)"
    by (auto simp: cmux_sendInput_def split: prod.splits sum.splits)
  from cmux_keys_run [OF this] show "True \<and> (\<exists>cs rest. cmux_keys t = cmux_keys s @ map (Pair p) cs \<and> d = concat cs @ rest)"
    by (auto intro!: exI [of _ "[]"])
qed

end
