(* ===== verification/Runtime_Mux.thy ===== *)
theory Runtime_Mux
  imports Ssh_Tmux Cmux_Adapter
begin

text \<open>
  The multiplexer of runtime backends, \<^verbatim>\<open>src/runtime/runtime-multiplexer.ts\<close>: pane ids are prefixed with
  the id of their backend when there is more than one, and every operation on a pane is routed by
  that prefix. A backend is what its operations return when they are called.
\<close>

record runtime_pane =
  rp_paneId :: string
  rp_fields :: js_record

record backend =
  backendId :: string
  be_isAvailable :: "(jsval, bool) result"
  be_listPanes :: "(jsval, runtime_pane list) result"
  be_capturePane :: "string \<Rightarrow> int \<Rightarrow> (jsval, string) result"
  be_sendInput :: "string \<Rightarrow> string \<Rightarrow> (jsval, unit) result"

record multiplexer =
  mx_backends :: "backend list"
  mx_backendById :: "(string \<times> backend) list"
  shouldNamespacePaneIds :: bool

definition quoted :: "string \<Rightarrow> string" where
  "quoted s = [CHR 0x22] @ s @ [CHR 0x22]"

section \<open>Operations\<close>

fun validateBackends :: "(string \<times> backend) list \<Rightarrow> backend list \<Rightarrow> (jsval, (string \<times> backend) list) result" where
  "validateBackends m [] = Inr m"
| "validateBackends m (b # bs) =
     (if trim (backendId b) = [] then Inl (err ''Runtime backend id must be a non-empty string'')
      else if CHR '':'' \<in> set (backendId b) then Inl (err (''Runtime backend id '' @ quoted (backendId b) @ '' cannot contain '' @ quoted '':''))
      else if map_of m (backendId b) \<noteq> None then Inl (err (''Duplicate runtime backend id '' @ quoted (backendId b)))
      else validateBackends (mput m (backendId b) b) bs)"

definition new_multiplexer :: "backend list \<Rightarrow> (jsval, multiplexer) result" where
  "new_multiplexer bs =
     (if bs = [] then Inl (err ''RuntimeMultiplexer requires at least one backend'')
      else bind_result (validateBackends [] bs) (\<lambda>m.
        Inr \<lparr>mx_backends = bs, mx_backendById = m, shouldNamespacePaneIds = (length bs > 1)\<rparr>))"

definition safeIsAvailable :: "backend \<Rightarrow> bool" where
  "safeIsAvailable b = (case be_isAvailable b of Inr v \<Rightarrow> v | Inl _ \<Rightarrow> False)"

definition checkBackendAvailability :: "multiplexer \<Rightarrow> (string \<times> bool) list" where
  "checkBackendAvailability mx = map (\<lambda>b. (backendId b, safeIsAvailable b)) (mx_backends mx)"

definition mux_isAvailable :: "multiplexer \<Rightarrow> bool" where
  "mux_isAvailable mx = list_ex snd (checkBackendAvailability mx)"

definition getBackendIds :: "multiplexer \<Rightarrow> string list" where
  "getBackendIds mx = map backendId (mx_backends mx)"

definition buildNamespacedPaneId :: "string \<Rightarrow> string \<Rightarrow> string" where
  "buildNamespacedPaneId bid raw = bid @ '':'' @ raw"

definition namespace_pane :: "backend \<Rightarrow> runtime_pane \<Rightarrow> runtime_pane" where
  "namespace_pane b p =
     \<lparr>rp_paneId = buildNamespacedPaneId (backendId b) (rp_paneId p),
      rp_fields = mput (mput (rp_fields p) ''backendId'' (JStr (backendId b))) ''rawPaneId'' (JStr (rp_paneId p))\<rparr>"

text \<open>\<open>Promise.all\<close> over the backends: the first rejection rejects the whole listing.\<close>

fun list_groups :: "bool \<Rightarrow> (string \<times> bool) list \<Rightarrow> backend list \<Rightarrow> (jsval, runtime_pane list) result" where
  "list_groups ns avail [] = Inr []"
| "list_groups ns avail (b # bs) =
     bind_result (if map_of avail (backendId b) \<noteq> Some True then Inr []
                  else bind_result (be_listPanes b) (\<lambda>ps. Inr (if ns then map (namespace_pane b) ps else ps)))
       (\<lambda>g. bind_result (list_groups ns avail bs) (\<lambda>gs. Inr (g @ gs)))"

definition mux_listPanes :: "multiplexer \<Rightarrow> (jsval, runtime_pane list) result" where
  "mux_listPanes mx = list_groups (shouldNamespacePaneIds mx) (checkBackendAvailability mx) (mx_backends mx)"

definition not_namespaced :: "string \<Rightarrow> jsval" where
  "not_namespaced paneId =
     err (''Pane id '' @ quoted paneId @ '' must be namespaced as '' @ quoted ''<backendId>:<rawPaneId>'')"

definition resolvePaneTarget :: "multiplexer \<Rightarrow> string \<Rightarrow> (jsval, backend \<times> string) result" where
  "resolvePaneTarget mx paneId =
     (if \<not> shouldNamespacePaneIds mx then Inr (hd (mx_backends mx), paneId)
      else case indexOf paneId CHR '':'' of
        None \<Rightarrow> Inl (not_namespaced paneId)
      | Some i \<Rightarrow>
          (if i = 0 \<or> i = length paneId - 1
           then Inl (not_namespaced paneId)
           else case map_of (mx_backendById mx) (take i paneId) of
             None \<Rightarrow> Inl (err (''Unknown runtime backend '' @ quoted (take i paneId) @ '' for pane id '' @ quoted paneId))
           | Some b \<Rightarrow> Inr (b, drop (i + 1) paneId)))"

definition mux_capturePane :: "multiplexer \<Rightarrow> string \<Rightarrow> int \<Rightarrow> (jsval, string) result" where
  "mux_capturePane mx paneId lines =
     bind_result (resolvePaneTarget mx paneId) (\<lambda>(b, raw). be_capturePane b raw lines)"

definition mux_sendInput :: "multiplexer \<Rightarrow> string \<Rightarrow> string \<Rightarrow> (jsval, unit) result" where
  "mux_sendInput mx paneId input =
     bind_result (resolvePaneTarget mx paneId) (\<lambda>(b, raw). be_sendInput b raw input)"

section \<open>Routing\<close>

lemma validateBackends_ok:
  "validateBackends m bs = Inr m' \<Longrightarrow> keys_distinct m \<Longrightarrow>
   (\<forall>b \<in> set bs. trim (backendId b) \<noteq> [] \<and> CHR '':'' \<notin> set (backendId b) \<and> map_of m' (backendId b) = Some b) \<and>
   (\<forall>k v. map_of m k = Some v \<longrightarrow> map_of m' k = Some v) \<and> distinct (map backendId bs) \<and>
   (\<forall>b \<in> set bs. map_of m (backendId b) = None)"
proof (induction m bs rule: validateBackends.induct)
  case (2 m b bs)
  from 2(2) have g: "trim (backendId b) \<noteq> []" "CHR '':'' \<notin> set (backendId b)" "map_of m (backendId b) = None"
    and rest: "validateBackends (mput m (backendId b) b) bs = Inr m'" by (auto split: if_splits)
  have "keys_distinct (mput m (backendId b) b)" using 2(3) by simp
  note ih = 2(1) [OF g(1,2) _ rest this]
  have own: "map_of m' (backendId b) = Some b" using ih g(3) by simp
  have "map_of m' k = Some v" if "map_of m k = Some v" for k v
    using ih g(3) that by (metis fun_upd_apply map_of_mput option.distinct(1))
  moreover have fresh: "map_of m (backendId c) = None \<and> backendId c \<noteq> backendId b" if "c \<in> set bs" for c
    using ih g(3) that by (metis fun_upd_apply map_of_mput option.distinct(1))
  moreover have "backendId b \<notin> backendId ` set bs" using fresh by fastforce
  ultimately show ?case using ih g own by simp
qed simp

lemma new_multiplexer_ok:
  assumes "new_multiplexer bs = Inr mx"
  shows "mx_backends mx = bs" and "bs \<noteq> []" and "shouldNamespacePaneIds mx = (length bs > 1)"
    and "b \<in> set bs \<Longrightarrow> backendId b \<noteq> [] \<and> CHR '':'' \<notin> set (backendId b) \<and> map_of (mx_backendById mx) (backendId b) = Some b"
    and "distinct (map backendId bs)"
proof -
  from assms have v: "validateBackends [] bs = Inr (mx_backendById mx)"
    by (auto simp: new_multiplexer_def bind_result_Inr split: if_splits)
  show "mx_backends mx = bs" "bs \<noteq> []" "shouldNamespacePaneIds mx = (length bs > 1)"
    using assms by (auto simp: new_multiplexer_def bind_result_Inr split: if_splits)
  note ok = validateBackends_ok [OF v, simplified]
  show "distinct (map backendId bs)" using ok by simp
  show "backendId b \<noteq> [] \<and> CHR '':'' \<notin> set (backendId b) \<and> map_of (mx_backendById mx) (backendId b) = Some b"
    if "b \<in> set bs" using ok that trim_Nil by metis
qed

lemma list_groups_member:
  "list_groups ns avail bs = Inr rows \<Longrightarrow> row \<in> set rows \<Longrightarrow>
   \<exists>b ps p. b \<in> set bs \<and> map_of avail (backendId b) = Some True \<and> be_listPanes b = Inr ps \<and> p \<in> set ps \<and>
     row = (if ns then namespace_pane b p else p)"
proof (induction bs arbitrary: rows)
  case (Cons b bs)
  from Cons.prems(1) obtain g gs where
    g: "(if map_of avail (backendId b) \<noteq> Some True then Inr []
        else bind_result (be_listPanes b) (\<lambda>ps. Inr (if ns then map (namespace_pane b) ps else ps))) = Inr g"
    and gs: "list_groups ns avail bs = Inr gs" and rows: "rows = g @ gs"
    by (auto simp: bind_result_Inr)
  show ?case
  proof (cases "row \<in> set gs")
    case True
    from Cons.IH [OF gs True] obtain b' ps p where "b' \<in> set bs" "map_of avail (backendId b') = Some True"
      "be_listPanes b' = Inr ps" "p \<in> set ps" "row = (if ns then namespace_pane b' p else p)" by blast
    then show ?thesis by (intro exI [of _ b'] exI [of _ ps] exI [of _ p]) simp
  next
    case False
    then have row: "row \<in> set g" using Cons.prems(2) rows by simp
    then have av: "map_of avail (backendId b) = Some True"
      using g by (cases "map_of avail (backendId b) = Some True") simp_all
    then obtain ps where "be_listPanes b = Inr ps" "g = (if ns then map (namespace_pane b) ps else ps)"
      using g by (simp add: bind_result_Inr) blast
    then show ?thesis using row av by (intro exI [of _ b] exI [of _ ps]) (cases ns, auto)
  qed
qed simp

lemma resolve_namespaced:
  assumes "new_multiplexer bs = Inr mx" and "b \<in> set bs" and "shouldNamespacePaneIds mx" and "raw \<noteq> []"
  shows "resolvePaneTarget mx (buildNamespacedPaneId (backendId b) raw) = Inr (b, raw)"
proof -
  note b = new_multiplexer_ok(4) [OF assms(1,2)]
  have "indexOf (backendId b @ CHR '':'' # raw) CHR '':'' = Some (length (backendId b))"
    by (rule indexOf_append) (use b in simp)
  then show ?thesis using b assms(3,4) by (simp add: resolvePaneTarget_def buildNamespacedPaneId_def)
qed

text \<open>
  C19: what the multiplexer lists, it can reach. Every row of a listing comes from an available backend,
  and its id is routed back to that backend with the pane's own id, for capturing as for typing; two
  rows with the same id stem from the same pane id of the same backend.
\<close>

theorem mux_routes_listed_panes:
  assumes "new_multiplexer bs = Inr mx" and "mux_listPanes mx = Inr rows"
    and "\<forall>b \<in> set bs. \<forall>ps. be_listPanes b = Inr ps \<longrightarrow> (\<forall>p \<in> set ps. rp_paneId p \<noteq> [])"
    and "row \<in> set rows"
  shows "\<exists>b ps p. b \<in> set bs \<and> safeIsAvailable b \<and> be_listPanes b = Inr ps \<and> p \<in> set ps \<and>
     resolvePaneTarget mx (rp_paneId row) = Inr (b, rp_paneId p) \<and>
     mux_capturePane mx (rp_paneId row) n = be_capturePane b (rp_paneId p) n \<and>
     mux_sendInput mx (rp_paneId row) input = be_sendInput b (rp_paneId p) input"
proof -
  note mx = new_multiplexer_ok [OF assms(1)]
  from list_groups_member [OF assms(2) [unfolded mux_listPanes_def] assms(4)] obtain b ps p where
    b: "b \<in> set bs" and av: "map_of (checkBackendAvailability mx) (backendId b) = Some True"
    and ps: "be_listPanes b = Inr ps" "p \<in> set ps"
    and row: "row = (if shouldNamespacePaneIds mx then namespace_pane b p else p)" by (auto simp: mx(1))
  have "(backendId b, safeIsAvailable b) \<in> set (checkBackendAvailability mx)"
    using b by (auto simp: checkBackendAvailability_def mx(1))
  moreover have "distinct (map fst (checkBackendAvailability mx))"
    using mx(5) by (simp add: checkBackendAvailability_def mx(1) comp_def)
  ultimately have "safeIsAvailable b" using av by (metis eq_key_imp_eq_value map_of_SomeD)
  moreover have "resolvePaneTarget mx (rp_paneId row) = Inr (b, rp_paneId p)"
  proof (cases "shouldNamespacePaneIds mx")
    case True
    have "rp_paneId p \<noteq> []" using assms(3) b ps by blast
    from resolve_namespaced [OF assms(1) b True this] show ?thesis using row True by (simp add: namespace_pane_def)
  next
    case False
    then have "bs = [b]" using mx(2,3) b by (cases bs) auto
    then show ?thesis using row False mx(1) by (simp add: resolvePaneTarget_def)
  qed
  ultimately show ?thesis using b ps by (auto simp: mux_capturePane_def mux_sendInput_def)
qed

definition demo_backend :: "string \<Rightarrow> backend" where
  "demo_backend i = \<lparr>backendId = i, be_isAvailable = Inr True, be_listPanes = Inr [\<lparr>rp_paneId = ''%1'', rp_fields = []\<rparr>],
     be_capturePane = (\<lambda>p n. Inr (i @ p)), be_sendInput = (\<lambda>p d. Inr ())\<rparr>"

theorem mux_routes_listed_panes_witness:
  "\<exists>mx rows b. new_multiplexer [demo_backend ''tmux'', demo_backend ''cmux''] = Inr mx \<and> mux_listPanes mx = Inr rows \<and>
     map rp_paneId rows = [''tmux:%1'', ''cmux:%1''] \<and> resolvePaneTarget mx ''cmux:%1'' = Inr (b, ''%1'')"
proof -
  let ?bs = "[demo_backend ''tmux'', demo_backend ''cmux'']"
  obtain mx where mx: "new_multiplexer ?bs = Inr mx"
    by (simp add: new_multiplexer_def demo_backend_def trim_def is_ws_def)
  note ok = new_multiplexer_ok [OF mx]
  obtain rows where rows: "mux_listPanes mx = Inr rows" "map rp_paneId rows = [''tmux:%1'', ''cmux:%1'']"
    by (simp add: mux_listPanes_def ok checkBackendAvailability_def demo_backend_def safeIsAvailable_def
        namespace_pane_def buildNamespacedPaneId_def)
  have ne: "\<forall>b \<in> set ?bs. \<forall>ps. be_listPanes b = Inr ps \<longrightarrow> (\<forall>p \<in> set ps. rp_paneId p \<noteq> [])"
    by (simp add: demo_backend_def)
  have "''cmux:%1'' \<in> rp_paneId ` set rows" using arg_cong [OF rows(2), of set] by auto
  then obtain row where row: "row \<in> set rows" "rp_paneId row = ''cmux:%1''" by auto
  from mux_routes_listed_panes [OF mx rows(1) ne row(1), of 0 "[]"] obtain b ps p where
    b: "b \<in> set ?bs" "be_listPanes b = Inr ps" "p \<in> set ps" "resolvePaneTarget mx ''cmux:%1'' = Inr (b, rp_paneId p)"
    unfolding row(2) by blast
  then have "rp_paneId p = ''%1''" by (auto simp: demo_backend_def)
  then show ?thesis using mx rows b(4) by auto
qed

end
