(* ===== verification/Config.thy ===== *)
theory Config
  imports Ssh_Target Bridge_Server Runtime_Mux
begin

text \<open>
  The configuration of the bridge, \<^verbatim>\<open>src/config.ts\<close>: the parsers of environment variables, \<open>loadConfig\<close>,
  the check of unsafe combinations, and the choice of the runtime adapters that
  \<^verbatim>\<open>src/runtime/runtime-adapter-factory.ts\<close> makes from it. An environment maps names to values. All
  numeric variables have both bounds, so the bounds are plain arguments here.
\<close>

type_synonym environment = "string \<Rightarrow> string option"

section \<open>Parsers\<close>

definition parseIntEnv :: "string option \<Rightarrow> int \<Rightarrow> int \<Rightarrow> int \<Rightarrow> int" where
  "parseIntEnv raw fallback lo hi =
     (case raw of
        None \<Rightarrow> fallback
      | Some s \<Rightarrow>
          (if s = [] then fallback
           else case parseInt s of
             Fin q \<Rightarrow> (if \<lfloor>q\<rfloor> < lo then fallback else if \<lfloor>q\<rfloor> > hi then fallback else \<lfloor>q\<rfloor>)
           | _ \<Rightarrow> fallback))"

definition received :: "string \<Rightarrow> string" where
  "received raw = '' (received '' @ quoted raw @ '')''"

definition strict_int_text :: "string \<Rightarrow> bool" where
  "strict_int_text s \<longleftrightarrow> (let ds = (if startsWith s ''-'' then tl s else s) in ds \<noteq> [] \<and> list_all is_digit ds)"

definition parseStrictIntEnv :: "string option \<Rightarrow> int \<Rightarrow> int \<Rightarrow> int \<Rightarrow> string \<Rightarrow> (jsval, int) result" where
  "parseStrictIntEnv raw fallback lo hi envName =
     (case raw of
        None \<Rightarrow> Inr fallback
      | Some s \<Rightarrow>
          (let t = trim s;
               low = Inl (err (envName @ '' must be >= '' @ int_str lo @ received s));
               high = Inl (err (envName @ '' must be <= '' @ int_str hi @ received s))
           in if t = [] then Inr fallback
              else if \<not> strict_int_text t then Inl (err (envName @ '' must be an integer'' @ received s))
              else case parseInt t of
                Fin q \<Rightarrow> (if \<lfloor>q\<rfloor> < lo then low else if \<lfloor>q\<rfloor> > hi then high else Inr \<lfloor>q\<rfloor>)
              | NInf \<Rightarrow> low
              | _ \<Rightarrow> high))"

definition parseBooleanEnv :: "string option \<Rightarrow> bool \<Rightarrow> string \<Rightarrow> (jsval, bool) result" where
  "parseBooleanEnv raw fallback envName =
     (case raw of
        None \<Rightarrow> Inr fallback
      | Some s \<Rightarrow>
          (let t = toLowerCase (trim s)
           in if s = [] then Inr fallback
              else if t \<in> set [''1'', ''true'', ''yes'', ''on''] then Inr True
              else if t \<in> set [''0'', ''false'', ''no'', ''off''] then Inr False
              else Inl (err (envName @ '' must be one of: 1,true,yes,on,0,false,no,off'' @ received s))))"

definition parseBooleanEnvWithAlias :: "environment \<Rightarrow> string \<Rightarrow> string \<Rightarrow> bool \<Rightarrow> (jsval, bool) result" where
  "parseBooleanEnvWithAlias env primaryName aliasName fallback =
     (case env primaryName of
        Some s \<Rightarrow> parseBooleanEnv (Some s) fallback primaryName
      | None \<Rightarrow> parseBooleanEnv (env aliasName) fallback aliasName)"

definition parseOptionalStringEnv :: "string option \<Rightarrow> string option" where
  "parseOptionalStringEnv raw = (case raw of None \<Rightarrow> None | Some s \<Rightarrow> (if trim s = [] then None else Some (trim s)))"

definition sha256_fingerprint :: "string \<Rightarrow> bool" where
  "sha256_fingerprint s \<longleftrightarrow>
     (let body = drop 7 s; b64 = (\<lambda>c. is_alnum c \<or> c \<in> set ''+/'')
      in startsWith s ''SHA256:'' \<and> list_all b64 (take 43 body) \<and> length (take 43 body) = 43 \<and>
         (drop 43 body = [] \<or> drop 43 body = ''=''))"

definition parseOptionalSshFingerprintSha256Env :: "string option \<Rightarrow> string \<Rightarrow> (jsval, string option) result" where
  "parseOptionalSshFingerprintSha256Env raw envName =
     (case parseOptionalStringEnv raw of
        None \<Rightarrow> Inr None
      | Some p \<Rightarrow> (if sha256_fingerprint p then Inr (Some p)
                   else Inl (err (envName @ '' must match SHA256:<base64> format'' @ received (the raw)))))"

definition parseSshProfileNameEnv :: "string option \<Rightarrow> string \<Rightarrow> string \<Rightarrow> (jsval, string) result" where
  "parseSshProfileNameEnv raw fallback envName =
     (case raw of
        None \<Rightarrow> Inr fallback
      | Some s \<Rightarrow>
          (if trim s = [] then Inl (err (envName @ '' must be non-empty when provided''))
           else if \<not> isValidSshProfileName (trim s) then
             Inl (err (envName @ '' must contain only letters, numbers, dot, underscore, or hyphen'' @ received s))
           else Inr (trim s)))"

definition parseOptionalSshTargetEnv :: "string option \<Rightarrow> string \<Rightarrow> (jsval, string option) result" where
  "parseOptionalSshTargetEnv raw envName =
     (case parseOptionalStringEnv raw of
        None \<Rightarrow> Inr None
      | Some p \<Rightarrow>
          (case parseSshTarget p of
             Inr _ \<Rightarrow> Inr (Some p)
           | Inl _ \<Rightarrow> Inl (err (envName @ '' must match [user@]host format (letters/numbers/._- or bracketed IPv6 host)''))))"

definition parseStringEnv :: "string option \<Rightarrow> string \<Rightarrow> string" where
  "parseStringEnv raw fallback = (case raw of None \<Rightarrow> fallback | Some s \<Rightarrow> (if trim s = [] then fallback else trim s))"

definition parseEnumEnv :: "string option \<Rightarrow> string \<Rightarrow> string list \<Rightarrow> string \<Rightarrow> (jsval, string) result" where
  "parseEnumEnv raw fallback permitted envName =
     (case raw of
        None \<Rightarrow> Inr fallback
      | Some s \<Rightarrow>
          (let t = toLowerCase (trim s)
           in if t = [] then Inr fallback
              else if t \<notin> set permitted then Inl (err (envName @ '' must be one of: '' @ join '','' permitted @ received s))
              else Inr t))"

definition SUPPORTED_RUNTIME_BACKENDS :: "string list" where
  "SUPPORTED_RUNTIME_BACKENDS = [''tmux'', ''cmux'']"

fun dedupe_backends :: "string list \<Rightarrow> string list \<Rightarrow> (jsval, string list) result" where
  "dedupe_backends acc [] = Inr acc"
| "dedupe_backends acc (b # bs) =
     (if b \<notin> set SUPPORTED_RUNTIME_BACKENDS then
        Inl (err (''COMMANDRELAY_RUNTIME_BACKENDS contains unsupported backend '' @ quoted b @ '' (supported: '' @
          join '','' SUPPORTED_RUNTIME_BACKENDS @ '')''))
      else dedupe_backends (sadd acc b) bs)"

definition parseRuntimeBackendsEnv :: "string option \<Rightarrow> (jsval, string list) result" where
  "parseRuntimeBackendsEnv raw =
     (case raw of
        None \<Rightarrow> Inr [''tmux'']
      | Some s \<Rightarrow>
          (if s = [] \<or> trim s = [] then Inr [''tmux'']
           else (let selected = filter (\<lambda>v. v \<noteq> []) (map (\<lambda>v. toLowerCase (trim v)) (split_on CHR '','' s))
                 in if selected = [] then Inr [''tmux'']
                    else bind_result (dedupe_backends [] selected) (\<lambda>d. Inr (if d \<noteq> [] then d else [''tmux''])))))"

definition isLoopbackHost :: "string \<Rightarrow> bool" where
  "isLoopbackHost h \<longleftrightarrow> h = ''127.0.0.1'' \<or> h = ''::1'' \<or> h = ''localhost''"

section \<open>Loading\<close>

record bridge_config =
  cfg_runtimeBackends :: "string list"
  cfg_cmuxCommand :: string
  cfg_host :: string
  cfg_port :: int
  cfg_transportMode :: string
  cfg_sshProfileName :: string
  cfg_sshTarget :: "string option"
  cfg_sshPort :: int
  cfg_sshCommand :: string
  cfg_sshConnectTimeoutSeconds :: int
  cfg_sshStrictHostKeyChecking :: bool
  cfg_sshKnownHostsFile :: "string option"
  cfg_sshExpectedFingerprintSha256 :: "string option"
  cfg_strictProtocolParsing :: bool
  cfg_appStaticEnabled :: bool
  cfg_appStaticDir :: string
  cfg_pollIntervalMs :: int
  cfg_replayLines :: int
  cfg_maxHistoryEvents :: int
  cfg_maxInputBytes :: int
  cfg_maxAttachedPanes :: int
  cfg_maxMessagesPerMinute :: int
  cfg_maxInputsPerMinute :: int
  cfg_globalInputDisabled :: bool
  cfg_allowInputOwnershipOverride :: bool
  cfg_inputLaneLeaseMs :: int
  cfg_authToken :: "string option"
  cfg_auditLogPath :: "string option"

definition loadConfig :: "environment \<Rightarrow> (jsval, bridge_config) result" where
  "loadConfig env =
     bind_result (parseRuntimeBackendsEnv (env ''COMMANDRELAY_RUNTIME_BACKENDS'')) (\<lambda>backends.
     bind_result (parseEnumEnv (env ''COMMANDRELAY_TRANSPORT_MODE'') ''ws'' [''ws'', ''ssh''] ''COMMANDRELAY_TRANSPORT_MODE'') (\<lambda>mode.
     bind_result (parseSshProfileNameEnv (env ''COMMANDRELAY_SSH_PROFILE'') ''primary'' ''COMMANDRELAY_SSH_PROFILE'') (\<lambda>profile.
     bind_result (parseOptionalSshTargetEnv (env ''COMMANDRELAY_SSH_TARGET'') ''COMMANDRELAY_SSH_TARGET'') (\<lambda>target.
     bind_result (parseStrictIntEnv (env ''COMMANDRELAY_SSH_PORT'') 22 1 65535 ''COMMANDRELAY_SSH_PORT'') (\<lambda>sport.
     bind_result (parseStrictIntEnv (env ''COMMANDRELAY_SSH_CONNECT_TIMEOUT_SECONDS'') 8 1 60
       ''COMMANDRELAY_SSH_CONNECT_TIMEOUT_SECONDS'') (\<lambda>secs.
     bind_result (parseBooleanEnv (env ''COMMANDRELAY_SSH_STRICT_HOST_KEY_CHECKING'') True
       ''COMMANDRELAY_SSH_STRICT_HOST_KEY_CHECKING'') (\<lambda>strict.
     bind_result (parseOptionalSshFingerprintSha256Env (env ''COMMANDRELAY_SSH_EXPECTED_FINGERPRINT_SHA256'')
       ''COMMANDRELAY_SSH_EXPECTED_FINGERPRINT_SHA256'') (\<lambda>fp.
     bind_result (parseBooleanEnvWithAlias env ''COMMANDRELAY_STRICT_PROTOCOL_PARSING'' ''COMMANDRELAY_STRICT_V1'' True) (\<lambda>proto.
     bind_result (parseBooleanEnv (env ''COMMANDRELAY_APP_STATIC_ENABLED'') True ''COMMANDRELAY_APP_STATIC_ENABLED'') (\<lambda>app.
     bind_result (parseBooleanEnv (env ''COMMANDRELAY_INPUT_KILL_SWITCH'') False ''COMMANDRELAY_INPUT_KILL_SWITCH'') (\<lambda>kill.
     bind_result (parseBooleanEnv (env ''COMMANDRELAY_ALLOW_INPUT_OVERRIDE'') True ''COMMANDRELAY_ALLOW_INPUT_OVERRIDE'') (\<lambda>ovr.
     Inr \<lparr>cfg_runtimeBackends = backends,
       cfg_cmuxCommand = parseStringEnv (env ''COMMANDRELAY_CMUX_COMMAND'') ''cmux'',
       cfg_host = (case env ''COMMANDRELAY_HOST'' of None \<Rightarrow> ''127.0.0.1'' | Some h \<Rightarrow> (if h = [] then ''127.0.0.1'' else h)),
       cfg_port = parseIntEnv (env ''COMMANDRELAY_PORT'') 8787 1 65535,
       cfg_transportMode = mode, cfg_sshProfileName = profile, cfg_sshTarget = target, cfg_sshPort = sport,
       cfg_sshCommand = parseStringEnv (env ''COMMANDRELAY_SSH_COMMAND'') ''ssh'',
       cfg_sshConnectTimeoutSeconds = secs, cfg_sshStrictHostKeyChecking = strict,
       cfg_sshKnownHostsFile = parseOptionalStringEnv (env ''COMMANDRELAY_SSH_KNOWN_HOSTS_FILE''),
       cfg_sshExpectedFingerprintSha256 = fp, cfg_strictProtocolParsing = proto, cfg_appStaticEnabled = app,
       cfg_appStaticDir = parseStringEnv (env ''COMMANDRELAY_APP_STATIC_DIR'') ''apps/web'',
       cfg_pollIntervalMs = parseIntEnv (env ''COMMANDRELAY_POLL_MS'') 350 100 5000,
       cfg_replayLines = parseIntEnv (env ''COMMANDRELAY_REPLAY_LINES'') 200 20 5000,
       cfg_maxHistoryEvents = parseIntEnv (env ''COMMANDRELAY_HISTORY_EVENTS'') 300 50 5000,
       cfg_maxInputBytes = parseIntEnv (env ''COMMANDRELAY_MAX_INPUT_BYTES'') 4096 16 65536,
       cfg_maxAttachedPanes = parseIntEnv (env ''COMMANDRELAY_MAX_ATTACHED_PANES'') 8 1 64,
       cfg_maxMessagesPerMinute = parseIntEnv (env ''COMMANDRELAY_MAX_MSG_PER_MIN'') 240 30 5000,
       cfg_maxInputsPerMinute = parseIntEnv (env ''COMMANDRELAY_MAX_INPUT_PER_MIN'') 60 5 2000,
       cfg_globalInputDisabled = kill, cfg_allowInputOwnershipOverride = ovr,
       cfg_inputLaneLeaseMs = parseIntEnv (env ''COMMANDRELAY_INPUT_LANE_LEASE_MS'') 30000 1000 300000,
       cfg_authToken = parseOptionalStringEnv (env ''COMMANDRELAY_AUTH_TOKEN''),
       cfg_auditLogPath = parseOptionalStringEnv (env ''COMMANDRELAY_AUDIT_LOG'')\<rparr>))))))))))))"

definition opt_empty :: "string option \<Rightarrow> bool" where
  "opt_empty v \<longleftrightarrow> v = None \<or> v = Some []"

text \<open>\<open>readable\<close> stands for the file system: whether the process may read a path.\<close>

definition validateStartupConfig :: "(string \<Rightarrow> bool) \<Rightarrow> bridge_config \<Rightarrow> (jsval, unit) result" where
  "validateStartupConfig readable c =
     (if \<not> isLoopbackHost (cfg_host c) \<and> opt_empty (cfg_authToken c) then
        Inl (err ''COMMANDRELAY_AUTH_TOKEN is required when COMMANDRELAY_HOST is not loopback'')
      else if cfg_transportMode c = ''ssh'' \<and> opt_empty (cfg_sshTarget c) then
        Inl (err ''COMMANDRELAY_SSH_TARGET is required when COMMANDRELAY_TRANSPORT_MODE is ssh'')
      else if cfg_transportMode c = ''ssh'' \<and> (length (cfg_runtimeBackends c) \<noteq> 1 \<or> cfg_runtimeBackends c ! 0 \<noteq> ''tmux'') then
        Inl (err (''COMMANDRELAY_RUNTIME_BACKENDS must be tmux when COMMANDRELAY_TRANSPORT_MODE is ssh'' @
          received (join '','' (cfg_runtimeBackends c))))
      else if cfg_transportMode c = ''ssh'' \<and> \<not> opt_empty (cfg_sshKnownHostsFile c) \<and> \<not> readable (the (cfg_sshKnownHostsFile c)) then
        Inl (err (''COMMANDRELAY_SSH_KNOWN_HOSTS_FILE must reference a readable file when COMMANDRELAY_TRANSPORT_MODE=ssh'' @
          received (the (cfg_sshKnownHostsFile c))))
      else if \<not> cfg_sshStrictHostKeyChecking c \<and> \<not> opt_empty (cfg_sshExpectedFingerprintSha256 c) then
        Inl (err (''COMMANDRELAY_SSH_EXPECTED_FINGERPRINT_SHA256 requires COMMANDRELAY_SSH_STRICT_HOST_KEY_CHECKING=true'' @
          '' and must be unset when strict host key checking is disabled''))
      else Inr ())"

section \<open>Choosing the runtime\<close>

record transport_config =
  tc_mode :: string
  tc_sshProfile :: string
  tc_sshTarget :: "string option"
  tc_sshPort :: int
  tc_sshCommand :: string
  tc_sshConnectTimeoutSeconds :: int
  tc_sshStrictHostKeyChecking :: bool
  tc_sshKnownHostsFile :: "string option"
  tc_sshExpectedFingerprintSha256 :: "string option"

datatype tmux_kind = LocalTmux | SshTmux ssh_adapter

datatype runtime_adapter = TmuxRuntime tmux_kind | CmuxRuntime string

datatype chosen_adapter = Direct runtime_adapter | Multiplexed "(string \<times> runtime_adapter) list"

definition resolveStartupTransportConfig :: "bridge_config \<Rightarrow> transport_config" where
  "resolveStartupTransportConfig c =
     \<lparr>tc_mode = cfg_transportMode c, tc_sshProfile = cfg_sshProfileName c, tc_sshTarget = cfg_sshTarget c,
      tc_sshPort = cfg_sshPort c, tc_sshCommand = cfg_sshCommand c,
      tc_sshConnectTimeoutSeconds = cfg_sshConnectTimeoutSeconds c,
      tc_sshStrictHostKeyChecking = cfg_sshStrictHostKeyChecking c,
      tc_sshKnownHostsFile = normalizeOptionalString (cfg_sshKnownHostsFile c),
      tc_sshExpectedFingerprintSha256 = normalizeOptionalString (cfg_sshExpectedFingerprintSha256 c)\<rparr>"

definition createTmuxRuntimeAdapter :: "transport_config \<Rightarrow> (jsval, tmux_kind) result" where
  "createTmuxRuntimeAdapter tc =
     (if tc_mode tc \<noteq> ''ssh'' then Inr LocalTmux
      else if opt_empty (tc_sshTarget tc) then
        Inl (err ''COMMANDRELAY_SSH_TARGET is required when COMMANDRELAY_TRANSPORT_MODE is ssh'')
      else bind_result (new_ssh_adapter
        \<lparr>so_sshTarget = the (tc_sshTarget tc), so_sshPort = Some (Fin (of_int (tc_sshPort tc))),
         so_sshCommand = Some (tc_sshCommand tc), so_strictHostKeyChecking = Some (tc_sshStrictHostKeyChecking tc),
         so_knownHostsFile = tc_sshKnownHostsFile tc, so_expectedFingerprintSha256 = tc_sshExpectedFingerprintSha256 tc,
         so_commandTimeoutMs = Some (Fin (of_int (tc_sshConnectTimeoutSeconds tc * 1000))),
         so_connectTimeoutSeconds = None\<rparr>) (\<lambda>a. Inr (SshTmux a)))"

fun createRuntimeBackends :: "string list \<Rightarrow> string \<Rightarrow> transport_config \<Rightarrow> (jsval, (string \<times> runtime_adapter) list) result" where
  "createRuntimeBackends [] cmuxCommand tc = Inr []"
| "createRuntimeBackends (b # bs) cmuxCommand tc =
     bind_result (if b = ''tmux'' then bind_result (createTmuxRuntimeAdapter tc) (\<lambda>k. Inr (TmuxRuntime k))
                  else Inr (CmuxRuntime cmuxCommand)) (\<lambda>adapter.
     bind_result (createRuntimeBackends bs cmuxCommand tc) (\<lambda>rest. Inr ((b, adapter) # rest)))"

definition isTmuxOnly :: "string list \<Rightarrow> bool" where
  "isTmuxOnly bs \<longleftrightarrow> length bs = 1 \<and> bs ! 0 = ''tmux''"

definition createRuntimeAdapter :: "string list \<Rightarrow> (string \<times> runtime_adapter) list \<Rightarrow> (jsval, chosen_adapter) result" where
  "createRuntimeAdapter bs adapters =
     (if adapters = [] then Inl (err ''At least one runtime backend adapter is required'')
      else if isTmuxOnly bs then Inr (Direct (snd (hd adapters)))
      else Inr (Multiplexed adapters))"

definition checkRuntimeBackendAvailability :: "backend list \<Rightarrow> (string \<times> bool) list" where
  "checkRuntimeBackendAvailability adapters = map (\<lambda>b. (backendId b, safeIsAvailable b)) adapters"

definition logRuntimeBackendAvailability :: "(string \<times> bool) list \<Rightarrow> nat" where
  "logRuntimeBackendAvailability rows = length (filter snd rows)"

text \<open>What the bridge server reads of the configuration.\<close>

definition server_config_of :: "bridge_config \<Rightarrow> server_config" where
  "server_config_of c =
     \<lparr>authToken = cfg_authToken c, maxMessagesPerMinute = cfg_maxMessagesPerMinute c,
      maxInputsPerMinute = cfg_maxInputsPerMinute c, maxInputBytes = cfg_maxInputBytes c,
      maxAttachedPanes = cfg_maxAttachedPanes c, killSwitch = cfg_globalInputDisabled c,
      allowInputOwnershipOverride = Some (cfg_allowInputOwnershipOverride c),
      strictProtocolParsing = cfg_strictProtocolParsing c, maxHistoryEvents = Some (cfg_maxHistoryEvents c),
      inputLaneLeaseMs = jint (cfg_inputLaneLeaseMs c)\<rparr>"

section \<open>What a loaded configuration guarantees\<close>

lemma parseIntEnv_bounds: "lo \<le> fallback \<Longrightarrow> fallback \<le> hi \<Longrightarrow> lo \<le> parseIntEnv raw fallback lo hi \<and> parseIntEnv raw fallback lo hi \<le> hi"
  by (auto simp: parseIntEnv_def split: option.splits jsnum.splits)

lemma parseStrictIntEnv_bounds:
  "parseStrictIntEnv raw fallback lo hi n = Inr i \<Longrightarrow> lo \<le> fallback \<Longrightarrow> fallback \<le> hi \<Longrightarrow> lo \<le> i \<and> i \<le> hi"
  by (auto simp: parseStrictIntEnv_def Let_def split: option.splits jsnum.splits if_splits)

lemma dedupe_backends_ok:
  "dedupe_backends acc bs = Inr d \<Longrightarrow> distinct acc \<Longrightarrow> set acc \<subseteq> set SUPPORTED_RUNTIME_BACKENDS \<Longrightarrow>
   distinct d \<and> set d = set acc \<union> set bs \<and> set d \<subseteq> set SUPPORTED_RUNTIME_BACKENDS"
proof (induction acc bs rule: dedupe_backends.induct)
  case (2 acc b bs)
  from 2(2) have b: "b \<in> set SUPPORTED_RUNTIME_BACKENDS" and r: "dedupe_backends (sadd acc b) bs = Inr d"
    by (auto split: if_splits)
  have "distinct (sadd acc b)" "set (sadd acc b) \<subseteq> set SUPPORTED_RUNTIME_BACKENDS" using 2(3,4) b by auto
  from 2(1) [OF _ r this] b show ?case by auto
qed simp

lemma parseRuntimeBackendsEnv_ok:
  assumes "parseRuntimeBackendsEnv raw = Inr bs"
  shows "bs \<noteq> [] \<and> distinct bs \<and> set bs \<subseteq> set SUPPORTED_RUNTIME_BACKENDS"
proof -
  have d: "distinct [''tmux''] \<and> set [''tmux''] \<subseteq> set SUPPORTED_RUNTIME_BACKENDS" by (simp add: SUPPORTED_RUNTIME_BACKENDS_def)
  show ?thesis
    using assms d by (auto simp: parseRuntimeBackendsEnv_def Let_def bind_result_Inr dest!: dedupe_backends_ok
        split: option.splits if_splits)
qed

lemma parseOptionalStringEnv_ok: "parseOptionalStringEnv raw = Some s \<Longrightarrow> s \<noteq> [] \<and> trim s = s"
  by (auto simp: parseOptionalStringEnv_def split: option.splits if_splits)

lemma parseOptionalSshTargetEnv_ok:
  "parseOptionalSshTargetEnv raw n = Inr (Some s) \<Longrightarrow> s \<noteq> [] \<and> trim s = s \<and> (\<exists>t. parseSshTarget s = Inr t)"
  by (auto simp: parseOptionalSshTargetEnv_def split: option.splits sum.splits dest: parseOptionalStringEnv_ok)

lemma fingerprint_env_ok:
  "parseOptionalSshFingerprintSha256Env raw n = Inr (Some s) \<Longrightarrow> s \<noteq> [] \<and> trim s = s \<and> startsWith s ''SHA256:''"
  by (auto simp: parseOptionalSshFingerprintSha256Env_def sha256_fingerprint_def Let_def split: option.splits if_splits
      dest: parseOptionalStringEnv_ok)

lemma normalizeFingerprint_fixed:
  assumes "s \<noteq> []" and "trim s = s" and "startsWith s ''SHA256:''"
  shows "normalizeFingerprint (Some s) = Some s"
proof -
  obtain t where s: "s = ''SHA256:'' @ t" using assms(3) by (auto simp: js_simps)
  have "startsWith (map upper_char s) ''SHA256:''" by (simp add: s startsWith_def upper_char_def)
  then show ?thesis using assms(1,2) by (simp add: normalizeFingerprint_def normalizeOptionalString_def s)
qed

lemma parseEnumEnv_ok: "parseEnumEnv raw fb al n = Inr s \<Longrightarrow> fb \<in> set al \<Longrightarrow> s \<in> set al"
  by (auto simp: parseEnumEnv_def Let_def split: option.splits if_splits)

definition limits_ok :: "bridge_config \<Rightarrow> bool" where
  "limits_ok c \<longleftrightarrow> 1 \<le> cfg_port c \<and> cfg_port c \<le> 65535 \<and> 1 \<le> cfg_sshPort c \<and> cfg_sshPort c \<le> 65535 \<and>
     1 \<le> cfg_sshConnectTimeoutSeconds c \<and> cfg_sshConnectTimeoutSeconds c \<le> 60 \<and>
     100 \<le> cfg_pollIntervalMs c \<and> cfg_pollIntervalMs c \<le> 5000 \<and> 20 \<le> cfg_replayLines c \<and> cfg_replayLines c \<le> 5000 \<and>
     50 \<le> cfg_maxHistoryEvents c \<and> cfg_maxHistoryEvents c \<le> 5000 \<and>
     16 \<le> cfg_maxInputBytes c \<and> cfg_maxInputBytes c \<le> 65536 \<and>
     1 \<le> cfg_maxAttachedPanes c \<and> cfg_maxAttachedPanes c \<le> 64 \<and>
     30 \<le> cfg_maxMessagesPerMinute c \<and> cfg_maxMessagesPerMinute c \<le> 5000 \<and>
     5 \<le> cfg_maxInputsPerMinute c \<and> cfg_maxInputsPerMinute c \<le> 2000 \<and>
     1000 \<le> cfg_inputLaneLeaseMs c \<and> cfg_inputLaneLeaseMs c \<le> 300000"

lemma loadConfig_parts:
  assumes "loadConfig env = Inr c"
  shows "limits_ok c" and "parseRuntimeBackendsEnv (env ''COMMANDRELAY_RUNTIME_BACKENDS'') = Inr (cfg_runtimeBackends c)"
    and "parseOptionalSshTargetEnv (env ''COMMANDRELAY_SSH_TARGET'') ''COMMANDRELAY_SSH_TARGET'' = Inr (cfg_sshTarget c)"
    and "parseOptionalSshFingerprintSha256Env (env ''COMMANDRELAY_SSH_EXPECTED_FINGERPRINT_SHA256'')
       ''COMMANDRELAY_SSH_EXPECTED_FINGERPRINT_SHA256'' = Inr (cfg_sshExpectedFingerprintSha256 c)"
    and "cfg_transportMode c \<in> {''ws'', ''ssh''}" and "\<And>t. cfg_authToken c = Some t \<Longrightarrow> t \<noteq> []"
    and "cfg_sshCommand c \<noteq> []" and "trim (cfg_sshCommand c) = cfg_sshCommand c"
proof -
  note parts = assms [unfolded loadConfig_def bind_result_Inr]
  have trim_ssh: "trim ''ssh'' = ''ssh''" by (simp add: trim_def is_ws_def)
  from parts have sp: "parseStrictIntEnv (env ''COMMANDRELAY_SSH_PORT'') 22 1 65535 ''COMMANDRELAY_SSH_PORT'' = Inr (cfg_sshPort c)"
    and secs: "parseStrictIntEnv (env ''COMMANDRELAY_SSH_CONNECT_TIMEOUT_SECONDS'') 8 1 60
       ''COMMANDRELAY_SSH_CONNECT_TIMEOUT_SECONDS'' = Inr (cfg_sshConnectTimeoutSeconds c)"
    and ints: "cfg_port c = parseIntEnv (env ''COMMANDRELAY_PORT'') 8787 1 65535"
      "cfg_pollIntervalMs c = parseIntEnv (env ''COMMANDRELAY_POLL_MS'') 350 100 5000"
      "cfg_replayLines c = parseIntEnv (env ''COMMANDRELAY_REPLAY_LINES'') 200 20 5000"
      "cfg_maxHistoryEvents c = parseIntEnv (env ''COMMANDRELAY_HISTORY_EVENTS'') 300 50 5000"
      "cfg_maxInputBytes c = parseIntEnv (env ''COMMANDRELAY_MAX_INPUT_BYTES'') 4096 16 65536"
      "cfg_maxAttachedPanes c = parseIntEnv (env ''COMMANDRELAY_MAX_ATTACHED_PANES'') 8 1 64"
      "cfg_maxMessagesPerMinute c = parseIntEnv (env ''COMMANDRELAY_MAX_MSG_PER_MIN'') 240 30 5000"
      "cfg_maxInputsPerMinute c = parseIntEnv (env ''COMMANDRELAY_MAX_INPUT_PER_MIN'') 60 5 2000"
      "cfg_inputLaneLeaseMs c = parseIntEnv (env ''COMMANDRELAY_INPUT_LANE_LEASE_MS'') 30000 1000 300000"
    by auto
  note strict = parseStrictIntEnv_bounds [OF sp] parseStrictIntEnv_bounds [OF secs]
  show "limits_ok c"
    using strict unfolding limits_ok_def ints by (simp add: parseIntEnv_bounds)
  from parts show "parseRuntimeBackendsEnv (env ''COMMANDRELAY_RUNTIME_BACKENDS'') = Inr (cfg_runtimeBackends c)"
    and "parseOptionalSshTargetEnv (env ''COMMANDRELAY_SSH_TARGET'') ''COMMANDRELAY_SSH_TARGET'' = Inr (cfg_sshTarget c)"
    and "parseOptionalSshFingerprintSha256Env (env ''COMMANDRELAY_SSH_EXPECTED_FINGERPRINT_SHA256'')
       ''COMMANDRELAY_SSH_EXPECTED_FINGERPRINT_SHA256'' = Inr (cfg_sshExpectedFingerprintSha256 c)"
    by auto
  from parts show "cfg_transportMode c \<in> {''ws'', ''ssh''}" by (elim exE conjE) (auto dest!: parseEnumEnv_ok)
  from parts have tok: "cfg_authToken c = parseOptionalStringEnv (env ''COMMANDRELAY_AUTH_TOKEN'')"
    and cmd: "cfg_sshCommand c = parseStringEnv (env ''COMMANDRELAY_SSH_COMMAND'') ''ssh''" by auto
  show "\<And>t. cfg_authToken c = Some t \<Longrightarrow> t \<noteq> []" using tok parseOptionalStringEnv_ok by auto
  show "cfg_sshCommand c \<noteq> []" "trim (cfg_sshCommand c) = cfg_sshCommand c"
    unfolding cmd parseStringEnv_def
    by (cases "env ''COMMANDRELAY_SSH_COMMAND''"; simp add: trim_ssh)+
qed

lemma ssh_adapter_created:
  assumes load: "loadConfig env = Inr c" and ssh: "cfg_transportMode c = ''ssh''" and tgt: "\<not> opt_empty (cfg_sshTarget c)"
  obtains a t where "createTmuxRuntimeAdapter (resolveStartupTransportConfig c) = Inr (SshTmux a)"
    and "parseSshTarget (sshTarget a) = Inr t" and "cfg_sshTarget c = Some (sshTarget a)"
    and "strictHostKeyChecking a = cfg_sshStrictHostKeyChecking c"
    and "expectedFingerprintSha256 a = cfg_sshExpectedFingerprintSha256 c" and "connectTimeoutSeconds a = 8"
proof -
  note ld = loadConfig_parts [OF load]
  obtain tg where t: "cfg_sshTarget c = Some tg" "tg \<noteq> []" using tgt by (auto simp: opt_empty_def)
  from parseOptionalSshTargetEnv_ok [OF ld(3) [unfolded t(1)]] obtain pt where pt: "trim tg = tg" "parseSshTarget tg = Inr pt" by blast
  have port: "normalizePort (Some (Fin (of_int (cfg_sshPort c)))) = Inr (Some (cfg_sshPort c))"
    using ld(1) by (auto simp: normalizePort_def limits_ok_def trunc_rat_def)
  have fp: "normalizeFingerprint (normalizeOptionalString (cfg_sshExpectedFingerprintSha256 c)) = cfg_sshExpectedFingerprintSha256 c"
  proof (cases "cfg_sshExpectedFingerprintSha256 c")
    case None
    then show ?thesis by (simp add: normalizeFingerprint_def normalizeOptionalString_def)
  next
    case (Some f)
    note f = fingerprint_env_ok [OF ld(4) [unfolded Some]]
    then show ?thesis using Some normalizeFingerprint_fixed [of f] by (simp add: normalizeOptionalString_def)
  qed
  have "\<exists>a. createTmuxRuntimeAdapter (resolveStartupTransportConfig c) = Inr (SshTmux a) \<and> sshTarget a = tg \<and>
      strictHostKeyChecking a = cfg_sshStrictHostKeyChecking c \<and>
      expectedFingerprintSha256 a = cfg_sshExpectedFingerprintSha256 c \<and> connectTimeoutSeconds a = 8"
    using ssh t pt(1) port fp
    by (simp add: createTmuxRuntimeAdapter_def resolveStartupTransportConfig_def opt_empty_def new_ssh_adapter_def
        normalizeTarget_def normalizeConnectTimeoutSeconds_def)
  then show thesis using that t(1) pt(2) by auto
qed

text \<open>
  C26: a configuration that loads and passes the startup check is safe to run. Its limits are within
  their documented bounds and its backends are distinct, supported and not empty; a server that
  listens beyond the loopback interface requires a token; over SSH the runtime is exactly tmux, its
  adapter can be created, goes to the configured and well-formed target, and an expected fingerprint
  is enforced with strict host key checking.
\<close>

theorem started_bridge_is_safe:
  assumes "loadConfig env = Inr c" and "validateStartupConfig readable c = Inr ()"
  shows "limits_ok c \<and>
    cfg_runtimeBackends c \<noteq> [] \<and> distinct (cfg_runtimeBackends c) \<and> set (cfg_runtimeBackends c) \<subseteq> {''tmux'', ''cmux''} \<and>
    (isLoopbackHost (cfg_host c) \<or> token_required (server_config_of c)) \<and>
    (cfg_transportMode c = ''ssh'' \<longrightarrow> isTmuxOnly (cfg_runtimeBackends c) \<and>
      (\<exists>a t. createTmuxRuntimeAdapter (resolveStartupTransportConfig c) = Inr (SshTmux a) \<and>
         cfg_sshTarget c = Some (sshTarget a) \<and> parseSshTarget (sshTarget a) = Inr t \<and>
         expectedFingerprintSha256 a = cfg_sshExpectedFingerprintSha256 c \<and>
         (expectedFingerprintSha256 a \<noteq> None \<longrightarrow> strictHostKeyChecking a)))"
proof -
  note ld = loadConfig_parts [OF assms(1)]
  have val: "isLoopbackHost (cfg_host c) \<or> \<not> opt_empty (cfg_authToken c)"
    "cfg_transportMode c = ''ssh'' \<Longrightarrow> \<not> opt_empty (cfg_sshTarget c) \<and> isTmuxOnly (cfg_runtimeBackends c)"
    "cfg_sshStrictHostKeyChecking c \<or> opt_empty (cfg_sshExpectedFingerprintSha256 c)"
    using assms(2) by (auto simp: validateStartupConfig_def isTmuxOnly_def split: if_splits)
  have tok: "isLoopbackHost (cfg_host c) \<or> token_required (server_config_of c)"
    using val(1) by (auto simp: token_required_def server_config_of_def opt_empty_def)
  have ssh: "\<exists>a t. createTmuxRuntimeAdapter (resolveStartupTransportConfig c) = Inr (SshTmux a) \<and>
         cfg_sshTarget c = Some (sshTarget a) \<and> parseSshTarget (sshTarget a) = Inr t \<and>
         expectedFingerprintSha256 a = cfg_sshExpectedFingerprintSha256 c \<and>
         (expectedFingerprintSha256 a \<noteq> None \<longrightarrow> strictHostKeyChecking a)" if m: "cfg_transportMode c = ''ssh''"
  proof (rule ssh_adapter_created [OF assms(1) m])
    show "\<not> opt_empty (cfg_sshTarget c)" using val(2) m by blast
    fix a t
    assume a: "createTmuxRuntimeAdapter (resolveStartupTransportConfig c) = Inr (SshTmux a)"
      "parseSshTarget (sshTarget a) = Inr t" "cfg_sshTarget c = Some (sshTarget a)"
      "strictHostKeyChecking a = cfg_sshStrictHostKeyChecking c"
      "expectedFingerprintSha256 a = cfg_sshExpectedFingerprintSha256 c"
    have "strictHostKeyChecking a" if "expectedFingerprintSha256 a \<noteq> None"
    proof -
      have "cfg_sshExpectedFingerprintSha256 c \<noteq> Some []" using fingerprint_env_ok [of _ _ "[]"] ld(4) by auto
      then show ?thesis using val(3) a(4,5) that by (auto simp: opt_empty_def)
    qed
    then show ?thesis using a by blast
  qed
  show ?thesis
    using ld(1) parseRuntimeBackendsEnv_ok [OF ld(2)] tok ssh val(2) by (simp add: SUPPORTED_RUNTIME_BACKENDS_def)
qed

definition remote_env :: environment where
  "remote_env = map_of [(''COMMANDRELAY_HOST'', ''0.0.0.0''), (''COMMANDRELAY_AUTH_TOKEN'', ''secret''),
     (''COMMANDRELAY_TRANSPORT_MODE'', ''ssh''), (''COMMANDRELAY_SSH_TARGET'', ''me@host'')]"

theorem started_bridge_is_safe_witness:
  "\<exists>c. loadConfig remote_env = Inr c \<and> validateStartupConfig (\<lambda>_. True) c = Inr () \<and>
     token_required (server_config_of c) \<and> isTmuxOnly (cfg_runtimeBackends c)"
proof -
  define c where "c = projr (loadConfig remote_env)"
  have l: "loadConfig remote_env = Inr c"
    unfolding c_def by code_simp
  have v: "validateStartupConfig (\<lambda>_. True) c = Inr ()" unfolding c_def by code_simp
  have h: "cfg_host c = ''0.0.0.0''" "cfg_transportMode c = ''ssh''" unfolding c_def by code_simp+
  from started_bridge_is_safe [OF l v] show ?thesis using l v h by (auto simp: isLoopbackHost_def)
qed

text \<open>
  The configured connect timeout bounds the whole command and not the connection: the adapter is
  created without it and always connects with its default of 8 seconds.
\<close>

lemma connect_timeout_ignored:
  assumes "createTmuxRuntimeAdapter tc = Inr (SshTmux a)"
  shows "connectTimeoutSeconds a = 8"
  using assms by (auto simp: createTmuxRuntimeAdapter_def new_ssh_adapter_def bind_result_Inr
      normalizeConnectTimeoutSeconds_def split: if_splits)

end
