(* ===== verification/Client_Validation.thy ===== *)
theory Client_Validation
  imports Protocol
begin

text \<open>
  What the client library accepts from a bridge, \<^verbatim>\<open>packages/commandrelay-client/src/validation.ts\<close> and
  \<^verbatim>\<open>commandrelay-client-types.ts\<close>: the payload predicates, the commands with the response types each
  one expects, and the protocol error of \<^verbatim>\<open>index.ts\<close>. A payload is a value as \<open>JSON.parse\<close> returns it.
\<close>

section \<open>Payload predicates\<close>

definition isNonNegativeInteger :: "jsval \<Rightarrow> bool" where
  "isNonNegativeInteger v = (case as_int v of None \<Rightarrow> False | Some i \<Rightarrow> i \<ge> 0)"

definition isString :: "jsval \<Rightarrow> bool" where
  "isString v = (case v of JStr _ \<Rightarrow> True | _ \<Rightarrow> False)"

definition isBoolean :: "jsval \<Rightarrow> bool" where
  "isBoolean v = (case v of JBool _ \<Rightarrow> True | _ \<Rightarrow> False)"

definition isArray :: "jsval \<Rightarrow> bool" where
  "isArray v = (case v of JArr _ \<Rightarrow> True | _ \<Rightarrow> False)"

definition isGatewayErrorPayload :: "jsval \<Rightarrow> bool" where
  "isGatewayErrorPayload v = (case isRecord v of None \<Rightarrow> False | Some r \<Rightarrow> isString (prop_of r ''code''))"

definition isHelloPayload :: "jsval \<Rightarrow> bool" where
  "isHelloPayload v =
     (case isRecord v of
        None \<Rightarrow> False
      | Some r \<Rightarrow>
          (if \<not> isString (prop_of r ''clientId'') then False
           else if \<not> isBoolean (prop_of r ''requiresAuth'') then False
           else if \<not> isBoolean (prop_of r ''inputEnabled'') then False
           else if \<not> isBoolean (prop_of r ''globalInputDisabled'') then False
           else if prop_of r ''maxInputBytes'' \<noteq> JUndef \<and> \<not> isNonNegativeInteger (prop_of r ''maxInputBytes'') then False
           else if prop_of r ''maxAttachedPanes'' \<noteq> JUndef \<and> \<not> isNonNegativeInteger (prop_of r ''maxAttachedPanes'') then False
           else True))"

definition isAuthOkPayload :: "jsval \<Rightarrow> bool" where
  "isAuthOkPayload v =
     (case isRecord v of None \<Rightarrow> False
      | Some r \<Rightarrow> prop_of r ''mode'' = JStr ''open'' \<or> prop_of r ''mode'' = JStr ''token'')"

definition isAuthErrorPayload :: "jsval \<Rightarrow> bool" where
  "isAuthErrorPayload v =
     (case isRecord v of None \<Rightarrow> False
      | Some r \<Rightarrow> isString (prop_of r ''code'') \<and>
          (prop_of r ''recoverable'' = JUndef \<or> isBoolean (prop_of r ''recoverable'')))"

definition isSessionListPayload :: "jsval \<Rightarrow> bool" where
  "isSessionListPayload v =
     (case isRecord v of None \<Rightarrow> False
      | Some r \<Rightarrow> isArray (prop_of r ''panes'') \<and> isArray (prop_of r ''sessions''))"

definition isOutputPayload :: "jsval \<Rightarrow> bool" where
  "isOutputPayload v =
     (case isRecord v of
        None \<Rightarrow> False
      | Some r \<Rightarrow>
          (if prop_of r ''mode'' \<noteq> JStr ''snapshot'' \<and> prop_of r ''mode'' \<noteq> JStr ''delta'' then False
           else if \<not> isString (prop_of r ''paneId'') then False
           else if \<not> isString (prop_of r ''chunk'') then False
           else isNonNegativeInteger (prop_of r ''streamSeq'')))"

definition isPolicyUpdatePayload :: "jsval \<Rightarrow> bool" where
  "isPolicyUpdatePayload v =
     (case isRecord v of None \<Rightarrow> False
      | Some r \<Rightarrow> isBoolean (prop_of r ''inputEnabled'') \<and> isBoolean (prop_of r ''globalInputDisabled''))"

definition isResponsePayloadValid :: "string \<Rightarrow> jsval \<Rightarrow> bool" where
  "isResponsePayloadValid type payload =
     (if type = ''error'' \<or> type = ''auth_error'' then isGatewayErrorPayload payload
      else if type = ''hello'' then isHelloPayload payload
      else if type = ''auth_ok'' then isAuthOkPayload payload
      else if type = ''auth_error'' then isAuthErrorPayload payload
      else if type = ''session_list'' then isSessionListPayload payload
      else if type = ''output'' then isOutputPayload payload
      else if type = ''policy_update'' then isPolicyUpdatePayload payload
      else if type = ''heartbeat_ack'' then isRecord payload \<noteq> None
      else True)"

definition isUnknownResponseTypeAllowed :: "string list \<Rightarrow> string \<Rightarrow> bool" where
  "isUnknownResponseTypeAllowed expectedResponseTypes actualType \<longleftrightarrow> actualType \<in> set expectedResponseTypes"

lemmas payload_defs = isNonNegativeInteger_def isString_def isBoolean_def isArray_def
  isGatewayErrorPayload_def isHelloPayload_def isAuthOkPayload_def isAuthErrorPayload_def
  isSessionListPayload_def isOutputPayload_def isPolicyUpdatePayload_def isResponsePayloadValid_def

section \<open>Commands\<close>

datatype client_command =
    Cmd_auth | Cmd_list_sessions | Cmd_attach | Cmd_detach | Cmd_enable_input | Cmd_disable_input
  | Cmd_input | Cmd_heartbeat | Cmd_disconnect

fun command_name :: "client_command \<Rightarrow> string" where
  "command_name Cmd_auth = ''auth''"
| "command_name Cmd_list_sessions = ''list_sessions''"
| "command_name Cmd_attach = ''attach''"
| "command_name Cmd_detach = ''detach''"
| "command_name Cmd_enable_input = ''enable_input''"
| "command_name Cmd_disable_input = ''disable_input''"
| "command_name Cmd_input = ''input''"
| "command_name Cmd_heartbeat = ''heartbeat''"
| "command_name Cmd_disconnect = ''disconnect''"

fun EXPECTED_RESPONSE_TYPES_BY_COMMAND :: "client_command \<Rightarrow> string list" where
  "EXPECTED_RESPONSE_TYPES_BY_COMMAND Cmd_auth = [''auth_ok'', ''auth_error'', ''error'']"
| "EXPECTED_RESPONSE_TYPES_BY_COMMAND Cmd_list_sessions = [''session_list'', ''error'']"
| "EXPECTED_RESPONSE_TYPES_BY_COMMAND Cmd_attach = [''ack'', ''error'']"
| "EXPECTED_RESPONSE_TYPES_BY_COMMAND Cmd_detach = [''ack'', ''error'']"
| "EXPECTED_RESPONSE_TYPES_BY_COMMAND Cmd_enable_input = [''policy_update'', ''error'']"
| "EXPECTED_RESPONSE_TYPES_BY_COMMAND Cmd_disable_input = [''policy_update'', ''error'']"
| "EXPECTED_RESPONSE_TYPES_BY_COMMAND Cmd_input = [''ack'', ''error'']"
| "EXPECTED_RESPONSE_TYPES_BY_COMMAND Cmd_heartbeat = [''heartbeat_ack'', ''error'']"
| "EXPECTED_RESPONSE_TYPES_BY_COMMAND Cmd_disconnect = [''ack'', ''error'']"

definition DEFAULT_REQUEST_TIMEOUT_MS :: jsnum where
  "DEFAULT_REQUEST_TIMEOUT_MS = Fin 8000"

lemma command_name_inj: "command_name a = command_name b \<Longrightarrow> a = b"
  by (cases a; cases b) simp_all

lemma command_name_dash: "CHR ''-'' \<notin> set (command_name a)"
  by (cases a) simp_all

section \<open>Errors\<close>

definition to_boolean :: "jsval \<Rightarrow> bool" where
  "to_boolean v =
     (case v of JUndef \<Rightarrow> False | JNull \<Rightarrow> False | JBool b \<Rightarrow> b
      | JNum n \<Rightarrow> n \<noteq> Fin 0 \<and> n \<noteq> NaN | JStr s \<Rightarrow> s \<noteq> [] | _ \<Rightarrow> True)"

definition coalesce :: "jsval \<Rightarrow> jsval \<Rightarrow> jsval" where
  "coalesce a b = (if a = JUndef \<or> a = JNull then b else a)"

record protocol_error =
  pe_kind :: string
  pe_code :: string
  pe_message :: string
  pe_recoverable :: bool
  pe_payload :: js_record

datatype client_error = Plain_error string | Protocol_error protocol_error | Other_thrown jsval

definition CommandRelayProtocolError :: "(jsval \<Rightarrow> string) \<Rightarrow> string \<Rightarrow> js_record \<Rightarrow> client_error" where
  "CommandRelayProtocolError to_string kind payload =
     Protocol_error
       \<lparr>pe_kind = kind,
        pe_code = (case prop_of payload ''code'' of JStr c \<Rightarrow> c | _ \<Rightarrow> ''error''),
        pe_message = to_string (coalesce (prop_of payload ''message'') (coalesce (prop_of payload ''code'') (JStr kind))),
        pe_recoverable = to_boolean (prop_of payload ''recoverable''),
        pe_payload = payload\<rparr>"

fun isAuthenticationError :: "client_error \<Rightarrow> bool" where
  "isAuthenticationError (Protocol_error e) = (if pe_code e = ''invalid_token'' then True else pe_kind e = ''auth_error'')"
| "isAuthenticationError _ = False"

end
