(* ===== verification/Bridge_Client.thy ===== *)
theory Bridge_Client
  imports Client_Validation
begin

text \<open>
  The client library, \<^verbatim>\<open>packages/commandrelay-client/src/index.ts\<close>: the state of a \<open>CommandRelayClient\<close>,
  one definition per method and per callback, and the event loop that runs them one after the other.

  A \<open>WebSocket\<close> object is a number; its \<open>connection\<close> holds what the closures of one \<open>connect\<close> call
  share: the handshake flags, its timer, the listeners still registered, and the \<open>readyState\<close>, which
  the transport changes (the event \<open>Ready_state\<close>, and what a call on the socket leaves behind). \<open>connect\<close> awaits the protocol
  runtime, so its two halves are separate events. Request ids map to the response types expected;
  \<open>requestTimers\<close> holds the armed timers. An effect is what the client does to the outside: events it
  emits, promises it settles, calls on the socket. Listeners are taken to return
  normally and not to call the client from inside the event. \<open>platform\<close>
  holds \<open>JSON.parse\<close>, \<open>JSON.stringify\<close>, \<open>String\<close> and the decoding of UTF-8 bytes.
\<close>

section \<open>State\<close>

record client_platform =
  cp_parse :: "string \<Rightarrow> jsval option"
  cp_stringify :: "jsval \<Rightarrow> string"
  cp_string :: "jsval \<Rightarrow> string"
  cp_utf8 :: "nat list \<Rightarrow> string"

record client_options =
  co_strict :: "bool option"
  co_timeout :: "jsnum option"

datatype socket_state = Sock_connecting | Sock_open | Sock_closing | Sock_closed

record connection =
  cn_state :: socket_state
  cn_open_listener :: bool
  cn_error_listener :: bool
  cn_close_listener :: bool
  cn_message_listener :: bool
  handshakeResolved :: bool
  handshakeRejected :: bool
  handshakeTimeout :: bool

record bridge_client =
  bc_url :: string
  parse_strict :: bool
  requestTimeoutMs :: jsnum
  bc_socket :: "nat option"
  helloPayload :: "js_record option"
  protocol_loaded :: bool
  pendingRequests :: "(string \<times> string list) list"
  requestTimers :: "string list"
  requestPrefixCounter :: "(string \<times> nat) list"
  connections :: "(nat \<times> connection) list"
  awaiting_runtime :: "nat list"
  connect_calls :: nat

datatype client_effect =
    Emit_open
  | Emit_close int string
  | Emit_parse_error string string
  | Emit string wire_envelope
  | New_socket nat string
  | Connect_issued nat
  | Connect_resolved nat js_record
  | Connect_rejected nat client_error
  | Request_issued string
  | Request_resolved string wire_envelope
  | Request_rejected string client_error
  | Call_threw client_error
  | Uncaught client_error
  | Socket_send nat wire_envelope
  | Socket_close nat int string
  | Socket_terminate nat

type_synonym client_step = "bridge_client \<times> client_effect list"

definition new_client :: "string \<Rightarrow> client_options \<Rightarrow> bridge_client" where
  "new_client url options =
     \<lparr>bc_url = url, parse_strict = (case co_strict options of None \<Rightarrow> True | Some b \<Rightarrow> b),
      requestTimeoutMs = (case co_timeout options of None \<Rightarrow> DEFAULT_REQUEST_TIMEOUT_MS | Some t \<Rightarrow> t),
      bc_socket = None, helloPayload = None, protocol_loaded = False, pendingRequests = [],
      requestTimers = [], requestPrefixCounter = [], connections = [], awaiting_runtime = [], connect_calls = 0\<rparr>"

definition upd_connection :: "nat \<Rightarrow> (connection \<Rightarrow> connection) \<Rightarrow> bridge_client \<Rightarrow> bridge_client" where
  "upd_connection k f c =
     (case map_of (connections c) k of
        None \<Rightarrow> c
      | Some n \<Rightarrow> c\<lparr>connections := mput (connections c) k (f n)\<rparr>)"

definition new_connection :: connection where
  "new_connection =
     \<lparr>cn_state = Sock_connecting, cn_open_listener = True, cn_error_listener = True, cn_close_listener = True,
      cn_message_listener = True, handshakeResolved = False, handshakeRejected = False, handshakeTimeout = False\<rparr>"

definition removeAllListeners :: "connection \<Rightarrow> connection" where
  "removeAllListeners n =
     n\<lparr>cn_open_listener := False, cn_error_listener := False, cn_close_listener := False, cn_message_listener := False\<rparr>"

text \<open>
  \<open>this.socket?.readyState === this.socket?.OPEN\<close>: without a socket both sides are undefined.
\<close>

definition isOpen :: "bridge_client \<Rightarrow> bool" where
  "isOpen c =
     (case bc_socket c of
        None \<Rightarrow> True
      | Some k \<Rightarrow> (case map_of (connections c) k of None \<Rightarrow> False | Some n \<Rightarrow> cn_state n = Sock_open))"

section \<open>Requests\<close>

fun decimal :: "nat \<Rightarrow> string" where
  "decimal n = (if n < 10 then [char_of (48 + n)] else decimal (n div 10) @ [char_of (48 + n mod 10)])"

declare decimal.simps [simp del]

definition number_text :: "int \<Rightarrow> string" where
  "number_text i = (if i < 0 then CHR ''-'' # decimal (nat (- i)) else decimal (nat i))"

definition nextRequestId :: "int \<Rightarrow> string \<Rightarrow> bridge_client \<Rightarrow> string \<Rightarrow> bridge_client \<times> string" where
  "nextRequestId now uuid c pfx =
     (let nextValue = (case map_of (requestPrefixCounter c) pfx of None \<Rightarrow> 0 | Some n \<Rightarrow> n) + 1
      in (c\<lparr>requestPrefixCounter := mput (requestPrefixCounter c) pfx nextValue\<rparr>,
          pfx @ ''-'' @ number_text now @ ''-'' @ uuid @ ''-'' @ decimal nextValue))"

definition promiseForRequest :: "bridge_client \<Rightarrow> string \<Rightarrow> string list \<Rightarrow> client_step" where
  "promiseForRequest c requestId expectedResponseTypes =
     (c\<lparr>requestTimers := sadd (requestTimers c) requestId,
        pendingRequests := mput (pendingRequests c) requestId expectedResponseTypes\<rparr>,
      [Request_issued requestId])"

text \<open>\<open>clearTimeout(pending.timeoutAt)\<close> and \<open>pendingRequests.delete(requestId)\<close>.\<close>

definition drop_request :: "bridge_client \<Rightarrow> string \<Rightarrow> bridge_client" where
  "drop_request c requestId =
     c\<lparr>requestTimers := sdelete (requestTimers c) requestId,
       pendingRequests := mdelete (pendingRequests c) requestId\<rparr>"

definition cancelPendingRequest :: "bridge_client \<Rightarrow> string \<Rightarrow> bridge_client" where
  "cancelPendingRequest c requestId =
     (case map_of (pendingRequests c) requestId of None \<Rightarrow> c | Some _ \<Rightarrow> drop_request c requestId)"

definition clearPendingRequests :: "bridge_client \<Rightarrow> client_error \<Rightarrow> client_step" where
  "clearPendingRequests c err =
     (c\<lparr>requestTimers := filter (\<lambda>r. r \<notin> fst ` set (pendingRequests c)) (requestTimers c), pendingRequests := []\<rparr>,
      map (\<lambda>(requestId, _). Request_rejected requestId err) (pendingRequests c))"

definition clearSocket :: "bridge_client \<Rightarrow> client_step" where
  "clearSocket c =
     (let (c1, fx) =
            (case bc_socket c of
               None \<Rightarrow> (c, [])
             | Some k \<Rightarrow>
                 ((upd_connection k removeAllListeners c)\<lparr>bc_socket := None\<rparr>,
                  (case map_of (connections c) k of
                     None \<Rightarrow> []
                   | Some n \<Rightarrow> (if cn_state n = Sock_open \<or> cn_state n = Sock_connecting then [Socket_terminate k] else []))));
          (c2, fx') = clearPendingRequests (c1\<lparr>helloPayload := None\<rparr>) (Plain_error ''connection closed'')
      in (c2, fx @ fx'))"

text \<open>\<open>after\<close> is the \<open>readyState\<close> that \<open>socket.close\<close>, and below \<open>socket.terminate\<close>, leaves behind.\<close>

definition set_state :: "bridge_client \<Rightarrow> nat option \<Rightarrow> socket_state \<Rightarrow> bridge_client" where
  "set_state c sock after = (case sock of None \<Rightarrow> c | Some k \<Rightarrow> upd_connection k (\<lambda>n. n\<lparr>cn_state := after\<rparr>) c)"

definition close_client :: "socket_state \<Rightarrow> bridge_client \<Rightarrow> int \<Rightarrow> string \<Rightarrow> client_step" where
  "close_client after c code reason =
     (let (c', fx) = clearSocket (set_state c (bc_socket c) after)
      in (c', (case bc_socket c of None \<Rightarrow> [] | Some k \<Rightarrow> [Socket_close k code reason]) @ fx))"

text \<open>\<open>send_error\<close> is what \<open>socket.send\<close> throws, if it throws, with the \<open>after\<close> of the close that follows.\<close>

definition sendRequest ::
  "int \<Rightarrow> string \<Rightarrow> (client_error \<times> socket_state) option \<Rightarrow> bridge_client \<Rightarrow> client_command \<Rightarrow> js_record \<Rightarrow> client_step" where
  "sendRequest now uuid send_error c type payload =
     (case bc_socket c of
        None \<Rightarrow> (c, [Call_threw (Plain_error ''socket not connected'')])
      | Some k \<Rightarrow>
          (if \<not> isOpen c then (c, [Call_threw (Plain_error ''socket not connected'')])
           else if \<not> protocol_loaded c then (c, [Call_threw (Plain_error ''protocol runtime not initialized'')])
           else
             (let (c1, requestId) = nextRequestId now uuid c (command_name type);
                  request = envelope now (command_name type) payload (Some requestId);
                  (c2, fx) = promiseForRequest c1 requestId (EXPECTED_RESPONSE_TYPES_BY_COMMAND type)
              in case send_error of
                   None \<Rightarrow> (c2, fx @ [Socket_send k request])
                 | Some (err, after) \<Rightarrow>
                     (let (c3, fx') = close_client after c2 1011 ''send failed''
                      in (cancelPendingRequest c3 requestId, fx @ fx' @ [Call_threw err])))))"

definition request_timeout :: "bridge_client \<Rightarrow> string \<Rightarrow> client_step" where
  "request_timeout c requestId =
     (drop_request c requestId, [Request_rejected requestId (Plain_error (''request timeout: '' @ requestId))])"

section \<open>Incoming messages\<close>

datatype incoming_frame =
    Frame_string string
  | Frame_buffer "nat list"
  | Frame_array_buffer "nat list"
  | Frame_view "nat list"
  | Frame_other jsval

definition normalizeIncomingFrame :: "client_platform \<Rightarrow> incoming_frame \<Rightarrow> string" where
  "normalizeIncomingFrame p frame =
     (case frame of
        Frame_string s \<Rightarrow> s
      | Frame_buffer bytes \<Rightarrow> cp_utf8 p bytes
      | Frame_array_buffer bytes \<Rightarrow> cp_utf8 p bytes
      | Frame_view bytes \<Rightarrow> cp_utf8 p bytes
      | Frame_other v \<Rightarrow> cp_string p v)"

definition parseIncomingMessage ::
  "client_platform \<Rightarrow> int \<Rightarrow> bridge_client \<Rightarrow> string \<Rightarrow> wire_envelope option \<times> client_effect list" where
  "parseIncomingMessage p now c raw =
     (if \<not> protocol_loaded c then (None, [Emit_parse_error ''protocol runtime not initialized'' raw])
      else case parseMessage (cp_parse p) (parse_strict c) now raw of
        Inl err \<Rightarrow> (None, [Emit_parse_error err raw])
      | Inr m \<Rightarrow> (Some m, []))"

definition invalid_payload :: "client_platform \<Rightarrow> wire_envelope \<Rightarrow> client_effect" where
  "invalid_payload p m =
     Emit_parse_error (''invalid '' @ env_type m @ '' payload'') (cp_stringify p (JObj (env_payload m)))"

text \<open>The switch for a message whose request id no request waits for.\<close>

definition emit_incoming :: "client_platform \<Rightarrow> bridge_client \<Rightarrow> wire_envelope \<Rightarrow> client_step" where
  "emit_incoming p c m =
     (let type = env_type m; payload = JObj (env_payload m)
      in if type = ''hello'' then
           (if \<not> isHelloPayload payload then (c, [invalid_payload p m])
            else (c\<lparr>helloPayload := Some (env_payload m)\<rparr>, [Emit ''hello'' m]))
         else if type = ''auth_ok'' then
           (if \<not> isAuthOkPayload payload then (c, [invalid_payload p m]) else (c, [Emit ''auth_ok'' m]))
         else if type = ''auth_error'' then
           (if \<not> isAuthErrorPayload payload then (c, [invalid_payload p m]) else (c, [Emit ''auth_error'' m]))
         else if type = ''session_list'' then
           (if \<not> isSessionListPayload payload then (c, [invalid_payload p m]) else (c, [Emit ''session_list'' m]))
         else if type = ''output'' then
           (if \<not> isOutputPayload payload then (c, [invalid_payload p m]) else (c, [Emit ''output'' m]))
         else if type = ''policy_update'' then
           (if \<not> isPolicyUpdatePayload payload then (c, [invalid_payload p m]) else (c, [Emit ''policy_update'' m]))
         else if type = ''heartbeat_ack'' then (c, [Emit ''heartbeat_ack'' m])
         else if type = ''ack'' then (c, [Emit ''ack'' m])
         else if type = ''error'' then
           (if \<not> isGatewayErrorPayload payload then (c, [invalid_payload p m]) else (c, [Emit ''error'' m]))
         else (c, [Emit ''unknown'' m]))"

text \<open>How a response settles the request that waits for it.\<close>

definition settle_request :: "client_platform \<Rightarrow> string list \<Rightarrow> string \<Rightarrow> wire_envelope \<Rightarrow> client_effect" where
  "settle_request p expectedResponseTypes requestId m =
     (if \<not> isUnknownResponseTypeAllowed expectedResponseTypes (env_type m) then
        Request_rejected requestId (Plain_error (''unexpected response type: '' @ env_type m))
      else if \<not> isResponsePayloadValid (env_type m) (JObj (env_payload m)) then
        Request_rejected requestId (Plain_error (''invalid response payload for '' @ env_type m))
      else if env_type m = ''error'' \<or> env_type m = ''auth_error'' then
        Request_rejected requestId (CommandRelayProtocolError (cp_string p) (env_type m) (env_payload m))
      else Request_resolved requestId m)"

definition dispatchIncoming :: "client_platform \<Rightarrow> bridge_client \<Rightarrow> wire_envelope \<Rightarrow> client_step" where
  "dispatchIncoming p c m =
     (case env_requestId m of
        None \<Rightarrow> (c, [])
      | Some requestId \<Rightarrow>
          (case map_of (pendingRequests c) requestId of
             Some expectedResponseTypes \<Rightarrow>
               (drop_request c requestId, [settle_request p expectedResponseTypes requestId m])
           | None \<Rightarrow> emit_incoming p c m))"

section \<open>Connecting\<close>

definition positive :: "jsnum \<Rightarrow> bool" where
  "positive n = (case n of Fin q \<Rightarrow> q > 0 | PInf \<Rightarrow> True | _ \<Rightarrow> False)"

definition num_text :: "client_platform \<Rightarrow> jsnum \<Rightarrow> string" where
  "num_text p n = cp_string p (JNum n)"

text \<open>\<open>connect\<close> up to its await, and from there.\<close>

definition connect_call :: "bridge_client \<Rightarrow> client_step" where
  "connect_call c =
     (let k = connect_calls c; c1 = c\<lparr>connect_calls := k + 1\<rparr>
      in case bc_socket c of
           Some _ \<Rightarrow> (c1, [Connect_issued k, Connect_rejected k (Plain_error ''connection already exists'')])
         | None \<Rightarrow> (c1\<lparr>awaiting_runtime := awaiting_runtime c1 @ [k]\<rparr>, [Connect_issued k]))"

definition runtime_loaded :: "bridge_client \<Rightarrow> nat \<Rightarrow> client_step" where
  "runtime_loaded c k =
     (c\<lparr>awaiting_runtime := sdelete (awaiting_runtime c) k, protocol_loaded := True, bc_socket := Some k,
        connections := mput (connections c) k
          (new_connection\<lparr>handshakeTimeout := positive (requestTimeoutMs c)\<rparr>)\<rparr>,
      [New_socket k (bc_url c)])"

definition runtime_failed :: "bridge_client \<Rightarrow> nat \<Rightarrow> client_error \<Rightarrow> client_step" where
  "runtime_failed c k err =
     (c\<lparr>awaiting_runtime := sdelete (awaiting_runtime c) k\<rparr>, [Connect_rejected k err])"

definition settleError :: "bridge_client \<Rightarrow> nat \<Rightarrow> connection \<Rightarrow> client_error \<Rightarrow> client_step" where
  "settleError c k n err =
     (if handshakeResolved n \<or> handshakeRejected n then (c, [])
      else
        (let c1 = upd_connection k (\<lambda>n. n\<lparr>handshakeTimeout := False, handshakeRejected := True\<rparr>) c;
             (c2, fx) = clearSocket c1
         in (c2, fx @ [Connect_rejected k err])))"

definition socket_opened :: "bridge_client \<Rightarrow> nat \<Rightarrow> client_step" where
  "socket_opened c k = (upd_connection k (\<lambda>n. n\<lparr>cn_open_listener := False\<rparr>) c, [Emit_open])"

definition socket_errored :: "bridge_client \<Rightarrow> nat \<Rightarrow> connection \<Rightarrow> client_error \<Rightarrow> client_step" where
  "socket_errored c k n err =
     settleError (upd_connection k (\<lambda>n. n\<lparr>cn_error_listener := False\<rparr>) c) k n
       (case err of Other_thrown _ \<Rightarrow> Plain_error ''websocket error'' | _ \<Rightarrow> err)"

definition socket_closed :: "bridge_client \<Rightarrow> nat \<Rightarrow> connection \<Rightarrow> int \<Rightarrow> string \<Rightarrow> client_step" where
  "socket_closed c k n code reasonText =
     (let reason = (if reasonText = [] then ''socket closed'' else reasonText);
          c1 = upd_connection k (\<lambda>n. n\<lparr>cn_close_listener := False\<rparr>) c
      in if \<not> handshakeResolved n then
           (let (c2, fx) = settleError c1 k n (Plain_error (''socket closed before hello: '' @ reason))
            in (c2, Emit_close code reason # fx))
         else
           (let (c2, fx) = clearPendingRequests c1
                  (Plain_error (''socket closed ('' @ number_text code @ ''): '' @ reason));
                (c3, fx') = clearSocket c2
            in (c3, Emit_close code reason # fx @ fx')))"

definition handleMessage :: "client_platform \<Rightarrow> int \<Rightarrow> bridge_client \<Rightarrow> nat \<Rightarrow> connection \<Rightarrow> incoming_frame \<Rightarrow> client_step" where
  "handleMessage p now c k n frame =
     (case parseIncomingMessage p now c (normalizeIncomingFrame p frame) of
        (None, fx) \<Rightarrow> (c, fx)
      | (Some m, fx) \<Rightarrow>
          (if \<not> handshakeResolved n \<and> env_type m = ''hello'' then
             (if \<not> isHelloPayload (JObj (env_payload m)) then
                (let (c1, fx1) = settleError c k n (Plain_error ''invalid hello payload'') in (c1, fx @ fx1))
              else
                (let c1 = (upd_connection k (\<lambda>n. n\<lparr>handshakeResolved := True, handshakeTimeout := False\<rparr>) c)
                            \<lparr>helloPayload := Some (env_payload m)\<rparr>;
                     settled = (if handshakeRejected n then [] else [Connect_resolved k (env_payload m)]);
                     (c2, fx2) = dispatchIncoming p c1 m
                 in (c2, fx @ Emit ''hello'' m # settled @ fx2)))
           else
             (let (c2, fx2) = dispatchIncoming p c m in (c2, fx @ fx2))))"

definition handshake_timeout :: "client_platform \<Rightarrow> socket_state \<Rightarrow> bridge_client \<Rightarrow> nat \<Rightarrow> connection \<Rightarrow> client_step" where
  "handshake_timeout p after c k n =
     (let c1 = upd_connection k (\<lambda>n. n\<lparr>handshakeTimeout := False\<rparr>) c
      in if \<not> handshakeResolved n \<and> \<not> handshakeRejected n then
           (let (c2, fx) = settleError (set_state c1 (Some k) after) k n
                  (Plain_error (''connect timeout after '' @ num_text p (requestTimeoutMs c) @ ''ms''))
            in (c2, Socket_terminate k # fx))
         else (c1, []))"

section \<open>Public calls\<close>

datatype api_call =
    Api_authenticate string
  | Api_listSessions
  | Api_attach string "jsnum option"
  | Api_detach string
  | Api_enableInput
  | Api_disableInput
  | Api_sendInput string string bool
  | Api_heartbeat
  | Api_disconnect

fun api_command :: "api_call \<Rightarrow> client_command" where
  "api_command (Api_authenticate token) = Cmd_auth"
| "api_command Api_listSessions = Cmd_list_sessions"
| "api_command (Api_attach paneId lastSeq) = Cmd_attach"
| "api_command (Api_detach paneId) = Cmd_detach"
| "api_command Api_enableInput = Cmd_enable_input"
| "api_command Api_disableInput = Cmd_disable_input"
| "api_command (Api_sendInput paneId data override) = Cmd_input"
| "api_command Api_heartbeat = Cmd_heartbeat"
| "api_command Api_disconnect = Cmd_disconnect"

fun api_payload :: "api_call \<Rightarrow> js_record" where
  "api_payload (Api_authenticate token) = [(''token'', JStr token)]"
| "api_payload (Api_attach paneId lastSeq) =
     (''paneId'', JStr paneId) # (case lastSeq of None \<Rightarrow> [] | Some n \<Rightarrow> [(''lastSeq'', JNum n)])"
| "api_payload (Api_detach paneId) = [(''paneId'', JStr paneId)]"
| "api_payload (Api_sendInput paneId data override) =
     [(''paneId'', JStr paneId), (''data'', JStr data)] @ (if override then [(''override'', JBool True)] else [])"
| "api_payload _ = []"

fun api_response_type :: "api_call \<Rightarrow> string" where
  "api_response_type (Api_authenticate token) = ''auth_ok''"
| "api_response_type Api_listSessions = ''session_list''"
| "api_response_type (Api_attach paneId lastSeq) = ''ack''"
| "api_response_type (Api_detach paneId) = ''ack''"
| "api_response_type Api_enableInput = ''policy_update''"
| "api_response_type Api_disableInput = ''policy_update''"
| "api_response_type (Api_sendInput paneId data override) = ''ack''"
| "api_response_type Api_heartbeat = ''heartbeat_ack''"
| "api_response_type Api_disconnect = ''ack''"

text \<open>What the caller gets once the request is resolved: the payload, the envelope or nothing.\<close>

datatype api_value = Payload js_record | Whole wire_envelope | Nothing

definition api_result :: "api_call \<Rightarrow> wire_envelope \<Rightarrow> (client_error, api_value) result" where
  "api_result call m =
     (if env_type m \<noteq> api_response_type call then
        Inl (Plain_error (''unexpected response: '' @ env_type m))
      else Inr
        (case call of
           Api_authenticate _ \<Rightarrow> Payload (env_payload m)
         | Api_listSessions \<Rightarrow> Payload (env_payload m)
         | Api_enableInput \<Rightarrow> Payload (env_payload m)
         | Api_disableInput \<Rightarrow> Payload (env_payload m)
         | Api_heartbeat \<Rightarrow> Whole m
         | _ \<Rightarrow> Nothing))"

text \<open>The \<open>finally\<close> of \<open>disconnect\<close>, run when its request is settled either way.\<close>

definition disconnect_finally :: "socket_state \<Rightarrow> bridge_client \<Rightarrow> client_step" where
  "disconnect_finally after c = close_client after c 1000 ''client disconnect''"

section \<open>Events\<close>

datatype client_event =
    Connect_called
  | Runtime_loaded nat
  | Runtime_failed nat client_error
  | Ready_state nat socket_state
  | Socket_opened nat
  | Socket_errored nat client_error
  | Socket_closed nat int string
  | Socket_message nat int incoming_frame
  | Handshake_timer nat socket_state
  | Request_timer string
  | Close_called socket_state int string
  | Api_called api_call int string "(client_error \<times> socket_state) option"
  | Disconnect_settled socket_state

definition on_connection ::
  "bridge_client \<Rightarrow> nat \<Rightarrow> (connection \<Rightarrow> bool) \<Rightarrow> (connection \<Rightarrow> client_step) \<Rightarrow> client_step" where
  "on_connection c k listens f =
     (case map_of (connections c) k of
        None \<Rightarrow> (c, [])
      | Some n \<Rightarrow> (if listens n then f n else (c, [])))"

fun client_handle :: "client_platform \<Rightarrow> bridge_client \<Rightarrow> client_event \<Rightarrow> client_step" where
  "client_handle p c Connect_called = connect_call c"
| "client_handle p c (Runtime_loaded k) = (if k \<in> set (awaiting_runtime c) then runtime_loaded c k else (c, []))"
| "client_handle p c (Runtime_failed k err) = (if k \<in> set (awaiting_runtime c) then runtime_failed c k err else (c, []))"
| "client_handle p c (Ready_state k st) = (upd_connection k (\<lambda>n. n\<lparr>cn_state := st\<rparr>) c, [])"
| "client_handle p c (Socket_opened k) = on_connection c k cn_open_listener (\<lambda>n. socket_opened c k)"
| "client_handle p c (Socket_errored k err) =
     on_connection c k (\<lambda>n. True)
       (\<lambda>n. if cn_error_listener n then socket_errored c k n err else (c, [Uncaught err]))"
| "client_handle p c (Socket_closed k code reason) =
     on_connection c k cn_close_listener (\<lambda>n. socket_closed c k n code reason)"
| "client_handle p c (Socket_message k now frame) =
     on_connection c k cn_message_listener (\<lambda>n. handleMessage p now c k n frame)"
| "client_handle p c (Handshake_timer k after) =
     on_connection c k handshakeTimeout (\<lambda>n. handshake_timeout p after c k n)"
| "client_handle p c (Request_timer rid) =
     (if rid \<in> set (requestTimers c) then request_timeout c rid else (c, []))"
| "client_handle p c (Close_called after code reason) = close_client after c code reason"
| "client_handle p c (Api_called call now uuid send_error) =
     sendRequest now uuid send_error c (api_command call) (api_payload call)"
| "client_handle p c (Disconnect_settled after) = disconnect_finally after c"

fun client_run :: "client_platform \<Rightarrow> bridge_client \<Rightarrow> client_event list \<Rightarrow> client_step" where
  "client_run p c [] = (c, [])"
| "client_run p c (e # es) =
     (let (c1, fx) = client_handle p c e; (c2, fx') = client_run p c1 es in (c2, fx @ fx'))"

end
