(* ===== verification/Promise_Ledger.thy ===== *)
theory Promise_Ledger
  imports Main
begin

text \<open>
  The contract of a component that hands out promises: over any run of its event loop, each promise is
  issued at most once and settled at most once, and one that is not settled is still held.
\<close>

section \<open>Promises as a ledger\<close>

text \<open>
  Promises are kept in a ledger: a step issues some, settles some, and holds the others. Over a run the
  books balance, and no promise is issued twice.
\<close>

definition tally :: "('f \<Rightarrow> bool) \<Rightarrow> 'f list \<Rightarrow> nat" where
  "tally P fx = length (filter P fx)"

lemma tally_simps [simp]:
  "tally P [] = 0"
  "tally P (e # fx) = of_bool (P e) + tally P fx"
  "tally P (fx @ fx') = tally P fx + tally P fx'"
  by (simp_all add: tally_def)

lemma tally_none: "(\<And>e. e \<in> set fx \<Longrightarrow> \<not> P e) \<Longrightarrow> tally P fx = 0"
  by (simp add: tally_def)

fun run_steps :: "('s \<Rightarrow> 'e \<Rightarrow> 's \<times> 'f list) \<Rightarrow> 's \<Rightarrow> 'e list \<Rightarrow> 's \<times> 'f list" where
  "run_steps step s [] = (s, [])"
| "run_steps step s (e # es) = (let (s1, fx) = step s e; (s2, fx') = run_steps step s1 es in (s2, fx @ fx'))"

lemma run_steps_append:
  "run_steps step s (es @ es') =
     (let (s1, fx) = run_steps step s es; (s2, fx') = run_steps step s1 es' in (s2, fx @ fx'))"
  by (induction es arbitrary: s) (simp_all split: prod.splits)

lemma run_steps_snoc:
  "run_steps step s (es @ [e]) = (let (s1, fx) = run_steps step s es; (s2, fx') = step s1 e in (s2, fx @ fx'))"
  by (simp add: run_steps_append split: prod.splits)

locale promise_ledger =
  fixes step :: "'s \<Rightarrow> 'e \<Rightarrow> 's \<times> 'f list"
    and inv :: "'s \<Rightarrow> bool"
    and issued :: "'k \<Rightarrow> 'f \<Rightarrow> bool"
    and settled :: "'k \<Rightarrow> 'f \<Rightarrow> bool"
    and held :: "'s \<Rightarrow> 'k \<Rightarrow> bool"
    and used :: "'s \<Rightarrow> 'k \<Rightarrow> bool"
  assumes inv_step: "inv s \<Longrightarrow> step s e = (s', fx) \<Longrightarrow> inv s'"
    and balance: "inv s \<Longrightarrow> step s e = (s', fx) \<Longrightarrow>
      tally (issued k) fx + of_bool (held s k) = tally (settled k) fx + of_bool (held s' k)"
    and fresh: "inv s \<Longrightarrow> step s e = (s', fx) \<Longrightarrow>
      tally (issued k) fx + of_bool (used s k) \<le> of_bool (used s' k)"
begin

lemma run_ledger:
  "inv s \<Longrightarrow> run_steps step s es = (s', fx) \<Longrightarrow>
     inv s' \<and> tally (issued k) fx + of_bool (held s k) = tally (settled k) fx + of_bool (held s' k)
     \<and> tally (issued k) fx + of_bool (used s k) \<le> of_bool (used s' k)"
proof (induction es arbitrary: s fx)
  case Nil
  then show ?case by simp
next
  case (Cons e es)
  obtain s1 fx1 where st: "step s e = (s1, fx1)" by (cases "step s e")
  obtain s2 fx2 where r: "run_steps step s1 es = (s2, fx2)" by (cases "run_steps step s1 es")
  have out: "s2 = s'" "fx = fx1 @ fx2" using Cons.prems(2) st r by auto
  have "inv s1" using inv_step [OF Cons.prems(1) st] .
  then show ?case
    using Cons.IH [of s1 fx2] r out balance [OF Cons.prems(1) st, of k] fresh [OF Cons.prems(1) st, of k] by auto
qed

lemma settled_once:
  assumes "inv s" "run_steps step s es = (s', fx)" "\<not> used s k" "\<not> held s k"
  shows "tally (issued k) fx \<le> 1" and "tally (issued k) fx = tally (settled k) fx + of_bool (held s' k)"
  using run_ledger [OF assms(1,2), of k] assms(3,4) by (cases "used s' k"; simp)+

end

end
