(* ===== verification/Client_Guarantees.thy ===== *)
theory Client_Guarantees
  imports Bridge_Client Promise_Ledger
begin

text \<open>
  What the client library guarantees over every sequence of events: the invariant of its state, that
  each promise it hands out is settled at most once and never lost, that request ids never repeat, and
  that a call returns only what its command may return.
\<close>

section \<open>Request ids\<close>

lemma decimal_digits: "c \<in> set (decimal n) \<Longrightarrow> is_digit c"
proof (induction n rule: decimal.induct)
  case (1 n)
  then show ?case
    by (subst (asm) (2) decimal.simps) (auto simp: is_digit_def split: if_splits)
qed

lemma decimal_dash: "CHR ''-'' \<notin> set (decimal n)"
  using decimal_digits [of "CHR ''-''" n] by (auto simp: is_digit_def)

lemma digits_val_append: "digits_val a (xs @ [c]) = 10 * digits_val a xs + (int (of_char c) - 48)"
  by (induction xs arbitrary: a) auto

lemma digits_val_decimal: "digits_val 0 (decimal n) = int n"
proof (induction n rule: decimal.induct)
  case (1 n)
  show ?case
  proof (cases "n < 10")
    case True
    then show ?thesis by (subst decimal.simps) simp
  next
    case False
    have "int (of_char (char_of (48 + n mod 10) :: char)) = 48 + int n mod 10" by (simp add: zmod_int)
    then show ?thesis using 1 False
      by (subst decimal.simps) (simp add: digits_val_append zdiv_int)
  qed
qed

lemma decimal_inj: "decimal m = decimal n \<Longrightarrow> m = n"
  by (metis digits_val_decimal of_nat_eq_iff)

definition request_id :: "client_command \<Rightarrow> int \<Rightarrow> string \<Rightarrow> nat \<Rightarrow> string" where
  "request_id cmd now uuid n =
     command_name cmd @ ''-'' @ number_text now @ ''-'' @ uuid @ ''-'' @ decimal n"

lemma takeWhile_sep: "c \<notin> set a \<Longrightarrow> takeWhile (\<lambda>x. x \<noteq> c) (a @ c # b) = a"
  by (induction a) auto

lemma request_id_inj:
  assumes "request_id cmd now uuid n = request_id cmd' now' uuid' n'"
  shows "cmd = cmd' \<and> n = n'"
proof -
  let ?first = "takeWhile (\<lambda>x. x \<noteq> CHR ''-'')" and ?final = "\<lambda>s. rev (takeWhile (\<lambda>x. x \<noteq> CHR ''-'') (rev s))"
  have first: "?first (request_id c t u m) = command_name c" for c t u m
    by (simp add: request_id_def takeWhile_sep command_name_dash)
  have final: "?final (request_id c t u m) = decimal m" for c t u m
    using decimal_dash [of m] takeWhile_sep [of "CHR ''-''" "rev (decimal m)"]
    by (simp add: request_id_def)
  show ?thesis
    using assms first final command_name_inj decimal_inj by metis
qed

definition counter :: "bridge_client \<Rightarrow> client_command \<Rightarrow> nat" where
  "counter c cmd = (case map_of (requestPrefixCounter c) (command_name cmd) of None \<Rightarrow> 0 | Some n \<Rightarrow> n)"

definition request_used :: "bridge_client \<Rightarrow> string \<Rightarrow> bool" where
  "request_used c rid \<longleftrightarrow> (\<exists>cmd now uuid n. 1 \<le> n \<and> n \<le> counter c cmd \<and> rid = request_id cmd now uuid n)"

lemma nextRequestId_exact:
  "nextRequestId now uuid c (command_name cmd) =
     (c\<lparr>requestPrefixCounter := mput (requestPrefixCounter c) (command_name cmd) (counter c cmd + 1)\<rparr>,
      request_id cmd now uuid (counter c cmd + 1))"
  by (simp add: nextRequestId_def counter_def request_id_def Let_def split: option.split)

lemma request_id_unused: "\<not> request_used c (request_id cmd now uuid (counter c cmd + 1))"
  by (auto simp: request_used_def dest!: request_id_inj)

lemma counter_mput [simp]:
  "counter (c\<lparr>requestPrefixCounter := mput (requestPrefixCounter c) (command_name cmd) v\<rparr>) cmd' =
     (if cmd' = cmd then v else counter c cmd')"
  by (auto simp: counter_def dest: command_name_inj)

section \<open>The invariant\<close>

definition requests_ok :: "bridge_client \<Rightarrow> bool" where
  "requests_ok c \<longleftrightarrow>
     keys_distinct (pendingRequests c) \<and> distinct (requestTimers c)
     \<and> set (requestTimers c) = fst ` set (pendingRequests c)
     \<and> (bc_socket c = None \<longrightarrow> pendingRequests c = [])
     \<and> (\<forall>rid \<in> fst ` set (pendingRequests c). request_used c rid)"

definition connection_ok :: "bridge_client \<Rightarrow> connection \<Rightarrow> bool" where
  "connection_ok c n \<longleftrightarrow>
     handshakeTimeout n = (positive (requestTimeoutMs c) \<and> \<not> handshakeResolved n \<and> \<not> handshakeRejected n)"

definition connections_ok :: "bridge_client \<Rightarrow> bool" where
  "connections_ok c \<longleftrightarrow>
     (\<forall>k. bc_socket c = Some k \<longrightarrow> map_of (connections c) k \<noteq> None)
     \<and> (\<forall>k n. map_of (connections c) k = Some n \<longrightarrow>
          k < connect_calls c \<and> k \<notin> set (awaiting_runtime c) \<and> connection_ok c n)
     \<and> (\<forall>k \<in> set (awaiting_runtime c). k < connect_calls c)"

definition client_ok :: "bridge_client \<Rightarrow> bool" where
  "client_ok c \<longleftrightarrow> requests_ok c \<and> connections_ok c"

abbreviation request_held :: "bridge_client \<Rightarrow> string \<Rightarrow> bool" where
  "request_held c rid \<equiv> rid \<in> fst ` set (pendingRequests c)"

definition connect_held :: "bridge_client \<Rightarrow> nat \<Rightarrow> bool" where
  "connect_held c k \<longleftrightarrow> k \<in> set (awaiting_runtime c)
     \<or> (\<exists>n. map_of (connections c) k = Some n \<and> \<not> handshakeResolved n \<and> \<not> handshakeRejected n)"

definition request_issued :: "string \<Rightarrow> client_effect \<Rightarrow> bool" where
  "request_issued rid e \<longleftrightarrow> e = Request_issued rid"

fun request_settled :: "string \<Rightarrow> client_effect \<Rightarrow> bool" where
  "request_settled rid (Request_resolved r m) = (r = rid)"
| "request_settled rid (Request_rejected r err) = (r = rid)"
| "request_settled rid _ = False"

definition connect_issued :: "nat \<Rightarrow> client_effect \<Rightarrow> bool" where
  "connect_issued k e \<longleftrightarrow> e = Connect_issued k"

fun connect_settled :: "nat \<Rightarrow> client_effect \<Rightarrow> bool" where
  "connect_settled k (Connect_resolved j h) = (j = k)"
| "connect_settled k (Connect_rejected j err) = (j = k)"
| "connect_settled k _ = False"

lemmas effect_kinds = request_issued_def connect_issued_def

text \<open>The fields the promises of requests depend on, and those the promises of connects depend on.\<close>

lemma upd_connection_fields [simp]:
  "pendingRequests (upd_connection k f c) = pendingRequests c"
  "requestTimers (upd_connection k f c) = requestTimers c"
  "requestPrefixCounter (upd_connection k f c) = requestPrefixCounter c"
  "bc_socket (upd_connection k f c) = bc_socket c"
  "connect_calls (upd_connection k f c) = connect_calls c"
  "awaiting_runtime (upd_connection k f c) = awaiting_runtime c"
  "requestTimeoutMs (upd_connection k f c) = requestTimeoutMs c"
  "protocol_loaded (upd_connection k f c) = protocol_loaded c"
  "parse_strict (upd_connection k f c) = parse_strict c"
  by (simp_all add: upd_connection_def split: option.split)

lemma map_of_upd_connection [simp]:
  "map_of (connections (upd_connection k f c)) j =
     (if j = k then map_option f (map_of (connections c) k) else map_of (connections c) j)"
  by (simp add: upd_connection_def split: option.split)

lemma request_used_cong:
  "requestPrefixCounter c' = requestPrefixCounter c \<Longrightarrow> request_used c' = request_used c"
  by (simp add: request_used_def counter_def fun_eq_iff)

lemma requests_ok_cong:
  "pendingRequests c' = pendingRequests c \<Longrightarrow> requestTimers c' = requestTimers c \<Longrightarrow>
   requestPrefixCounter c' = requestPrefixCounter c \<Longrightarrow> (bc_socket c' = None \<Longrightarrow> bc_socket c = None) \<Longrightarrow>
   requests_ok c \<Longrightarrow> requests_ok c'"
  using request_used_cong [of c' c] by (auto simp: requests_ok_def)

lemma upd_requests_ok [simp]: "requests_ok (upd_connection k f c) = requests_ok c"
  using request_used_cong [of "upd_connection k f c" c] by (simp add: requests_ok_def)

lemma upd_used [simp]: "request_used (upd_connection k f c) = request_used c"
  by (rule request_used_cong) simp

lemma connection_ok_cong: "requestTimeoutMs c' = requestTimeoutMs c \<Longrightarrow> connection_ok c' = connection_ok c"
  by (simp add: connection_ok_def fun_eq_iff)

lemma upd_connections_ok:
  assumes "connections_ok c" and "\<And>n. connection_ok c n \<Longrightarrow> connection_ok c (f n)"
  shows "connections_ok (upd_connection k f c)"
  using assms connection_ok_cong [of "upd_connection k f c" c]
  unfolding connections_ok_def by auto

lemma upd_connect_held:
  assumes "\<And>n. handshakeResolved (f n) = handshakeResolved n" "\<And>n. handshakeRejected (f n) = handshakeRejected n"
  shows "connect_held (upd_connection k f c) = connect_held c"
  using assms by (auto simp: connect_held_def fun_eq_iff)

section \<open>Every operation keeps the books\<close>

definition step_ok :: "bridge_client \<Rightarrow> bridge_client \<Rightarrow> client_effect list \<Rightarrow> bool" where
  "step_ok c c' fx \<longleftrightarrow> client_ok c'
     \<and> (\<forall>rid. tally (request_issued rid) fx + of_bool (request_held c rid)
          = tally (request_settled rid) fx + of_bool (request_held c' rid))
     \<and> (\<forall>rid. tally (request_issued rid) fx + of_bool (request_used c rid) \<le> of_bool (request_used c' rid))
     \<and> (\<forall>k. tally (connect_issued k) fx + of_bool (connect_held c k)
          = tally (connect_settled k) fx + of_bool (connect_held c' k))
     \<and> (\<forall>k. tally (connect_issued k) fx + of_bool (k < connect_calls c) \<le> of_bool (k < connect_calls c'))"

lemma step_ok_client: "step_ok c c' fx \<Longrightarrow> client_ok c'"
  by (simp add: step_ok_def)

lemma books_add:
  "\<forall>k. I k + (b k :: nat) = S k + h k \<Longrightarrow> \<forall>k. I' k + h k = S' k + h' k \<Longrightarrow>
   \<forall>k. (I k + I' k) + b k = (S k + S' k) + h' k"
proof (rule allI)
  fix k
  assume "\<forall>k. I k + b k = S k + h k" "\<forall>k. I' k + h k = S' k + h' k"
  then have "I k + b k = S k + h k" "I' k + h k = S' k + h' k" by auto
  then show "(I k + I' k) + b k = (S k + S' k) + h' k" by linarith
qed

lemma books_le:
  "\<forall>k. I k + (b k :: nat) \<le> h k \<Longrightarrow> \<forall>k. I' k + h k \<le> h' k \<Longrightarrow> \<forall>k. (I k + I' k) + b k \<le> h' k"
proof (rule allI)
  fix k
  assume "\<forall>k. I k + b k \<le> h k" "\<forall>k. I' k + h k \<le> h' k"
  then have "I k + b k \<le> h k" "I' k + h k \<le> h' k" by auto
  then show "(I k + I' k) + b k \<le> h' k" by linarith
qed

lemma step_ok_trans: "step_ok c c1 fx \<Longrightarrow> step_ok c1 c2 fx' \<Longrightarrow> step_ok c c2 (fx @ fx')"
  unfolding step_ok_def tally_simps
  by (elim conjE, intro conjI; (assumption | rule books_add, assumption, assumption | rule books_le, assumption, assumption))

lemma step_ok_swap: "step_ok c c' (fx @ fx') \<Longrightarrow> step_ok c c' (fx' @ fx)"
  by (simp add: step_ok_def add.commute)

fun silent :: "client_effect \<Rightarrow> bool" where
  "silent (Connect_issued k) = False"
| "silent (Connect_resolved k h) = False"
| "silent (Connect_rejected k err) = False"
| "silent (Request_issued rid) = False"
| "silent (Request_resolved rid m) = False"
| "silent (Request_rejected rid err) = False"
| "silent _ = True"

lemma silent_kinds:
  assumes "silent e"
  shows "\<not> request_issued rid e" "\<not> request_settled rid e" "\<not> connect_issued k e" "\<not> connect_settled k e"
  using assms by (cases e; simp add: effect_kinds)+

lemma silent_tally:
  assumes "list_all silent fx"
  shows "tally (request_issued rid) fx = 0" "tally (request_settled rid) fx = 0"
    "tally (connect_issued k) fx = 0" "tally (connect_settled k) fx = 0"
  using assms by (auto simp: list_all_iff silent_kinds intro!: tally_none)

lemma step_ok_silent:
  assumes "client_ok c'" "list_all silent fx" "pendingRequests c' = pendingRequests c"
    "requestPrefixCounter c' = requestPrefixCounter c" "connect_held c' = connect_held c"
    "connect_calls c' = connect_calls c"
  shows "step_ok c c' fx"
  using assms(1,3,5,6) request_used_cong [OF assms(4)] by (simp add: step_ok_def silent_tally [OF assms(2)])

lemma step_ok_add_silent: "step_ok c c' fx \<Longrightarrow> list_all silent fx' \<Longrightarrow> step_ok c c' (fx' @ fx)"
  by (simp add: step_ok_def silent_tally)

lemma step_ok_refl: "client_ok c \<Longrightarrow> list_all silent fx \<Longrightarrow> step_ok c c fx"
  by (rule step_ok_silent) simp_all

lemma step_ok_upd:
  assumes "client_ok c" "list_all silent fx"
    and "\<And>n. handshakeResolved (f n) = handshakeResolved n" "\<And>n. handshakeRejected (f n) = handshakeRejected n"
    and "\<And>n. connection_ok c n \<Longrightarrow> connection_ok c (f n)"
  shows "step_ok c (upd_connection k f c) fx"
  using assms by (intro step_ok_silent) (auto simp: client_ok_def upd_connections_ok upd_connect_held)

text \<open>Updates of one connection that keep its handshake.\<close>

lemma connection_ok_keep [simp]:
  "connection_ok c (n\<lparr>cn_state := st\<rparr>) = connection_ok c n"
  "connection_ok c (n\<lparr>cn_open_listener := b\<rparr>) = connection_ok c n"
  "connection_ok c (n\<lparr>cn_error_listener := b\<rparr>) = connection_ok c n"
  "connection_ok c (n\<lparr>cn_close_listener := b\<rparr>) = connection_ok c n"
  "connection_ok c (removeAllListeners n) = connection_ok c n"
  by (simp_all add: connection_ok_def removeAllListeners_def)

lemma removeAllListeners_handshake [simp]:
  "handshakeResolved (removeAllListeners n) = handshakeResolved n"
  "handshakeRejected (removeAllListeners n) = handshakeRejected n"
  by (simp_all add: removeAllListeners_def)

subsection \<open>Requests\<close>

lemma keys_delete: "fst ` set (mdelete m k) = fst ` set m - {k}"
  by (force simp: AList.delete_eq)

lemma settled_unique:
  assumes "request_settled rid e"
  shows "request_settled r e \<longleftrightarrow> r = rid" "\<not> request_issued r e" "\<not> connect_issued k e" "\<not> connect_settled k e"
  using assms by (cases e; auto simp: effect_kinds)+

lemma client_ok_requests:
  assumes "client_ok c" "requests_ok c'" "bc_socket c' = bc_socket c" "connections c' = connections c"
    "awaiting_runtime c' = awaiting_runtime c" "connect_calls c' = connect_calls c"
    "requestTimeoutMs c' = requestTimeoutMs c"
  shows "client_ok c'" and "connect_held c' = connect_held c"
  using assms connection_ok_cong [OF assms(7)] by (simp_all add: client_ok_def connections_ok_def connect_held_def fun_eq_iff)

lemma drop_requests_ok: "requests_ok c \<Longrightarrow> requests_ok (drop_request c rid)"
  using request_used_cong [of "drop_request c rid" c] by (auto simp: requests_ok_def drop_request_def keys_delete)

lemma drop_settles:
  assumes "client_ok c" "request_held c rid" "request_settled rid e"
  shows "step_ok c (drop_request c rid) [e]"
proof -
  let ?d = "drop_request c rid"
  have ok: "client_ok ?d" and held: "connect_held ?d = connect_held c"
    using client_ok_requests [OF assms(1), of ?d] assms(1) drop_requests_ok
    by (simp_all add: client_ok_def drop_request_def)
  have "request_used ?d = request_used c" "connect_calls ?d = connect_calls c"
    "request_held ?d r \<longleftrightarrow> request_held c r \<and> r \<noteq> rid" for r
    by (auto simp: drop_request_def keys_delete intro: request_used_cong)
  then show ?thesis
    using ok held assms(2) by (simp add: step_ok_def settled_unique [OF assms(3)])
qed

lemma tally_rejected:
  assumes "keys_distinct m"
  shows "tally (request_settled rid) (map (\<lambda>(r, _). Request_rejected r err) m) = of_bool (rid \<in> fst ` set m)"
    and "tally (request_issued rid) (map (\<lambda>(r, _). Request_rejected r err) m) = 0"
    and "tally (connect_settled k) (map (\<lambda>(r, _). Request_rejected r err) m) = 0"
    and "tally (connect_issued k) (map (\<lambda>(r, _). Request_rejected r err) m) = 0"
  using assms by (induction m) (auto simp: effect_kinds)

lemma clearPendingRequests_ok:
  assumes "client_ok c" "clearPendingRequests c err = (c', fx)"
  shows "step_ok c c' fx" "pendingRequests c' = []" "bc_socket c' = bc_socket c"
proof -
  have r: "requests_ok c" using assms(1) by (simp add: client_ok_def)
  have c': "c' = c\<lparr>requestTimers := [], pendingRequests := []\<rparr>"
    and fx: "fx = map (\<lambda>(r, _). Request_rejected r err) (pendingRequests c)"
    using assms(2) r by (auto simp: clearPendingRequests_def requests_ok_def filter_empty_conv)
  have "requests_ok c'" by (simp add: c' requests_ok_def)
  then have ok: "client_ok c'" "connect_held c' = connect_held c"
    using client_ok_requests [OF assms(1), of c'] by (simp_all add: c')
  have "request_used c' = request_used c" by (rule request_used_cong) (simp add: c')
  with ok r show "step_ok c c' fx"
    by (simp add: step_ok_def fx tally_rejected requests_ok_def) (simp add: c')
  show "pendingRequests c' = []" "bc_socket c' = bc_socket c" by (simp_all add: c')
qed

lemma clearSocket_exact:
  assumes "client_ok c"
  defines "c0 \<equiv> c\<lparr>requestTimers := [], pendingRequests := []\<rparr>"
  shows "clearSocket c =
     ((case bc_socket c of None \<Rightarrow> c0 | Some k \<Rightarrow> (upd_connection k removeAllListeners c0)\<lparr>bc_socket := None\<rparr>)
        \<lparr>helloPayload := None\<rparr>,
      (case bc_socket c of None \<Rightarrow> [] | Some k \<Rightarrow>
         (if cn_state (the (map_of (connections c) k)) \<in> {Sock_open, Sock_connecting} then [Socket_terminate k] else []))
      @ map (\<lambda>(r, _). Request_rejected r (Plain_error ''connection closed'')) (pendingRequests c))"
proof -
  have "filter (\<lambda>r. r \<notin> fst ` set (pendingRequests c)) (requestTimers c) = []"
    using assms(1) by (auto simp: client_ok_def requests_ok_def filter_empty_conv)
  moreover have "bc_socket c = Some k \<Longrightarrow> \<exists>n. map_of (connections c) k = Some n" for k
    using assms(1) by (auto simp: client_ok_def connections_ok_def)
  ultimately show ?thesis
    by (auto simp: clearSocket_def clearPendingRequests_def c0_def upd_connection_def split: option.split)
qed

lemma clearSocket_ok:
  assumes "client_ok c" "clearSocket c = (c', fx)"
  shows "step_ok c c' fx" "bc_socket c' = None" "pendingRequests c' = []"
proof -
  let ?c0 = "c\<lparr>requestTimers := [], pendingRequests := []\<rparr>"
  let ?err = "Plain_error ''connection closed''"
  let ?kill = "case bc_socket c of None \<Rightarrow> [] | Some k \<Rightarrow>
     (if cn_state (the (map_of (connections c) k)) \<in> {Sock_open, Sock_connecting} then [Socket_terminate k] else [])"
  let ?rej = "map (\<lambda>(r, _). Request_rejected r ?err) (pendingRequests c)"
  have cp: "clearPendingRequests c ?err = (?c0, ?rej)"
    using assms(1) by (auto simp: clearPendingRequests_def client_ok_def requests_ok_def filter_empty_conv)
  note s0 = clearPendingRequests_ok(1) [OF assms(1) cp]
  have c': "c' = (case bc_socket c of None \<Rightarrow> ?c0 | Some k \<Rightarrow> (upd_connection k removeAllListeners ?c0)\<lparr>bc_socket := None\<rparr>)
        \<lparr>helloPayload := None\<rparr>" and fx: "fx = ?kill @ ?rej"
    using assms(2) by (simp_all add: clearSocket_exact [OF assms(1)])
  show sock: "bc_socket c' = None" and pend: "pendingRequests c' = []" by (auto simp: c' split: option.split)
  have ok0: "connections_ok ?c0" using step_ok_client [OF s0] by (simp add: client_ok_def)
  have conns: "map_of (connections c') k = (if bc_socket c = Some k then map_option removeAllListeners (map_of (connections c) k)
      else map_of (connections c) k)" for k
    by (auto simp: c' split: option.split)
  have same: "requestTimers c' = []" "awaiting_runtime c' = awaiting_runtime c" "connect_calls c' = connect_calls c"
    "requestTimeoutMs c' = requestTimeoutMs c" "requestPrefixCounter c' = requestPrefixCounter c"
    by (auto simp: c' split: option.split)
  have "requests_ok c'" using sock pend same by (simp add: requests_ok_def)
  moreover have "connections_ok c'"
    using ok0 connection_ok_cong [of c' ?c0] sock same
    by (auto simp: connections_ok_def conns split: if_splits)
  moreover have "connect_held c' = connect_held ?c0"
    by (auto simp: connect_held_def fun_eq_iff conns same)
  ultimately have "step_ok ?c0 c' ?kill"
    using pend same by (intro step_ok_silent) (auto simp: client_ok_def split: option.split)
  with s0 show "step_ok c c' fx" unfolding fx by (intro step_ok_swap [of c c' ?rej]) (rule step_ok_trans)
qed

lemma set_state_ok: "client_ok c \<Longrightarrow> step_ok c (set_state c sock after) []"
  by (cases sock) (auto simp: set_state_def intro: step_ok_refl step_ok_upd)

lemma set_state_socket [simp]: "bc_socket (set_state c sock after) = bc_socket c"
  by (simp add: set_state_def split: option.split)

lemma close_client_ok:
  assumes "client_ok c" "close_client after c code reason = (c', fx)"
  shows "step_ok c c' fx" "bc_socket c' = None" "pendingRequests c' = []"
proof -
  let ?c1 = "set_state c (bc_socket c) after"
  have s1: "step_ok c ?c1 []" by (rule set_state_ok [OF assms(1)])
  obtain c2 fx2 where cs: "clearSocket ?c1 = (c2, fx2)" by (cases "clearSocket ?c1")
  have out: "c' = c2" "fx = (case bc_socket c of None \<Rightarrow> [] | Some k \<Rightarrow> [Socket_close k code reason]) @ fx2"
    using assms(2) cs by (simp_all add: close_client_def)
  note cl = clearSocket_ok [OF step_ok_client [OF s1] cs]
  show "bc_socket c' = None" "pendingRequests c' = []" using cl out by simp_all
  have "step_ok c c' fx2" using step_ok_trans [OF s1 cl(1)] out by simp
  then show "step_ok c c' fx" unfolding out by (rule step_ok_add_silent) (simp split: option.split)
qed

lemma step_ok_then_silent: "step_ok c c' fx \<Longrightarrow> list_all silent fx' \<Longrightarrow> step_ok c c' (fx @ fx')"
  by (rule step_ok_swap) (rule step_ok_add_silent)

lemma issue_ok:
  assumes "client_ok c" "bc_socket c \<noteq> None"
    "nextRequestId now uuid c (command_name cmd) = (c1, rid)" "promiseForRequest c1 rid types = (c2, fx)"
  shows "step_ok c c2 fx" "bc_socket c2 = bc_socket c" "map_of (pendingRequests c2) rid = Some types"
    "fx = [Request_issued rid]" "protocol_loaded c2 = protocol_loaded c" "connections c2 = connections c"
proof -
  let ?n = "counter c cmd + 1"
  have c1: "c1 = c\<lparr>requestPrefixCounter := mput (requestPrefixCounter c) (command_name cmd) ?n\<rparr>"
    and rid: "rid = request_id cmd now uuid ?n"
    using assms(3) by (simp_all add: nextRequestId_exact)
  have c2: "c2 = c1\<lparr>requestTimers := sadd (requestTimers c1) rid, pendingRequests := mput (pendingRequests c1) rid types\<rparr>"
    and fx: "fx = [Request_issued rid]"
    using assms(4) by (simp_all add: promiseForRequest_def)
  have r: "requests_ok c" using assms(1) by (simp add: client_ok_def)
  have cnt: "counter c2 = (counter c)(cmd := ?n)"
    using counter_mput [where c = c and cmd = cmd and v = ?n] by (simp add: c2 c1 fun_eq_iff counter_def)
  have used: "request_used c r \<Longrightarrow> request_used c2 r" for r
    unfolding request_used_def cnt by (metis fun_upd_apply le_add1 order_trans)
  have "1 \<le> ?n \<and> ?n \<le> counter c2 cmd" by (simp add: cnt)
  then have new: "request_used c2 rid" "\<not> request_used c rid"
    unfolding rid using request_id_unused [of c cmd now uuid] request_used_def by blast+
  have keys: "fst ` set (pendingRequests c2) = insert rid (fst ` set (pendingRequests c))"
    using dom_update [of rid types "pendingRequests c"]
    by (simp add: c2 c1 dom_map_of_conv_image_fst)
  have free: "\<not> request_held c rid" using r new(2) by (auto simp: requests_ok_def)
  have "keys_distinct (pendingRequests c2)" "distinct (requestTimers c2)" "bc_socket c2 = bc_socket c"
    "set (requestTimers c2) = insert rid (set (requestTimers c))"
    using r by (simp_all add: c2 c1 requests_ok_def)
  then have "requests_ok c2" using r assms(2) keys used new(1) by (auto simp: requests_ok_def)
  then have ok: "client_ok c2" "connect_held c2 = connect_held c"
    using client_ok_requests [OF assms(1), of c2] by (simp_all add: c2 c1)
  have calls: "connect_calls c2 = connect_calls c" by (simp add: c2 c1)
  show "step_ok c c2 fx"
    unfolding step_ok_def fx calls using ok keys free new used
    by (auto simp: effect_kinds)
  show "bc_socket c2 = bc_socket c" "map_of (pendingRequests c2) rid = Some types" "fx = [Request_issued rid]"
    "protocol_loaded c2 = protocol_loaded c" "connections c2 = connections c"
    by (simp_all add: c2 c1 fx)
qed

lemma sendRequest_ok:
  assumes "client_ok c" "sendRequest now uuid send_error c cmd payload = (c', fx)"
  shows "step_ok c c' fx"
proof (cases "bc_socket c = None \<or> \<not> isOpen c \<or> \<not> protocol_loaded c")
  case True
  then have "c' = c" "list_all silent fx"
    using assms(2) by (auto simp: sendRequest_def split: option.splits if_splits)
  then show ?thesis using assms(1) by (simp add: step_ok_refl)
next
  case False
  then obtain k where k: "bc_socket c = Some k" "isOpen c" "protocol_loaded c" by auto
  obtain c1 rid where nx: "nextRequestId now uuid c (command_name cmd) = (c1, rid)"
    by (cases "nextRequestId now uuid c (command_name cmd)")
  obtain c2 fx1 where prom: "promiseForRequest c1 rid (EXPECTED_RESPONSE_TYPES_BY_COMMAND cmd) = (c2, fx1)"
    by (cases "promiseForRequest c1 rid (EXPECTED_RESPONSE_TYPES_BY_COMMAND cmd)")
  have iss: "step_ok c c2 fx1" using issue_ok(1) [OF assms(1) _ nx prom] k by simp
  show ?thesis
  proof (cases send_error)
    case None
    then have "c' = c2" "fx = fx1 @ [Socket_send k (envelope now (command_name cmd) payload (Some rid))]"
      using assms(2) k nx prom by (simp_all add: sendRequest_def)
    then show ?thesis using step_ok_then_silent [OF iss] by simp
  next
    case (Some ea)
    then obtain err after where ea: "send_error = Some (err, after)" by (cases ea) auto
    obtain c3 fx2 where cl: "close_client after c2 1011 ''send failed'' = (c3, fx2)"
      by (cases "close_client after c2 1011 ''send failed''")
    note closed = close_client_ok [OF step_ok_client [OF iss] cl]
    have "c' = c3" "fx = (fx1 @ fx2) @ [Call_threw err]"
      using assms(2) k nx prom ea cl closed(3) by (simp_all add: sendRequest_def cancelPendingRequest_def)
    then show ?thesis using step_ok_then_silent [OF step_ok_trans [OF iss closed(1)], of "[Call_threw err]"] by simp
  qed
qed

lemma settle_request_settles: "request_settled rid (settle_request p types rid m)"
  by (simp add: settle_request_def CommandRelayProtocolError_def)

lemma helloPayload_ok: "client_ok c \<Longrightarrow> step_ok c (c\<lparr>helloPayload := v\<rparr>) []"
  using request_used_cong [of "c\<lparr>helloPayload := v\<rparr>" c] connection_ok_cong [of "c\<lparr>helloPayload := v\<rparr>" c]
  by (intro step_ok_silent) (auto simp: client_ok_def requests_ok_def connections_ok_def connect_held_def fun_eq_iff)

lemma emit_incoming_cases:
  assumes "emit_incoming p c m = (c', fx)"
  shows "list_all silent fx" and "c' = c \<or> c' = c\<lparr>helloPayload := Some (env_payload m)\<rparr>"
  using assms by (auto simp: emit_incoming_def Let_def invalid_payload_def split: if_splits)

lemma dispatchIncoming_ok:
  assumes "client_ok c" "dispatchIncoming p c m = (c', fx)"
  shows "step_ok c c' fx"
proof (cases "env_requestId m")
  case None
  then show ?thesis using assms by (simp add: dispatchIncoming_def step_ok_refl)
next
  case (Some rid)
  show ?thesis
  proof (cases "map_of (pendingRequests c) rid")
    case (Some types)
    then have "request_held c rid" by (force dest: map_of_SomeD)
    then have "step_ok c (drop_request c rid) [settle_request p types rid m]"
      by (rule drop_settles [OF assms(1) _ settle_request_settles])
    then show ?thesis
      using assms(2) Some \<open>env_requestId m = Some rid\<close> by (simp add: dispatchIncoming_def)
  next
    case None
    then have "emit_incoming p c m = (c', fx)" using assms(2) \<open>env_requestId m = Some rid\<close>
      by (simp add: dispatchIncoming_def)
    from emit_incoming_cases [OF this] show ?thesis
      using step_ok_refl [OF assms(1)] step_ok_add_silent [OF helloPayload_ok [OF assms(1)]] by auto
  qed
qed

lemma request_timeout_ok:
  "client_ok c \<Longrightarrow> rid \<in> set (requestTimers c) \<Longrightarrow> request_timeout c rid = (c', fx) \<Longrightarrow> step_ok c c' fx"
  using drop_settles [of c rid] by (auto simp: request_timeout_def client_ok_def requests_ok_def)

subsection \<open>Connecting\<close>

lemma connect_call_ok:
  assumes "client_ok c" "connect_call c = (c', fx)"
  shows "step_ok c c' fx"
proof -
  let ?k = "connect_calls c"
  have old: "\<not> connect_held c ?k" using assms(1) by (auto simp: client_ok_def connections_ok_def connect_held_def)
  have conn: "connections c' = connections c" "connect_calls c' = ?k + 1" "bc_socket c' = bc_socket c"
    "requestTimeoutMs c' = requestTimeoutMs c" "pendingRequests c' = pendingRequests c"
    "requestTimers c' = requestTimers c" "requestPrefixCounter c' = requestPrefixCounter c"
    "set (awaiting_runtime c') = set (awaiting_runtime c) \<union> (if bc_socket c = None then {?k} else {})"
    "fx = Connect_issued ?k # (if bc_socket c = None then [] else [Connect_rejected ?k (Plain_error ''connection already exists'')])"
    using assms(2) by (auto simp: connect_call_def Let_def split: option.splits)
  have "requests_ok c'" using assms(1) requests_ok_cong [of c' c] by (simp add: conn client_ok_def)
  moreover have "connections_ok c'"
    using assms(1) connection_ok_cong [of c' c] by (fastforce simp: client_ok_def connections_ok_def conn split: if_splits)
  moreover have "connect_held c' = (\<lambda>k. connect_held c k \<or> bc_socket c = None \<and> k = ?k)"
    by (auto simp: connect_held_def conn fun_eq_iff split: if_splits)
  moreover have "request_used c' = request_used c" by (rule request_used_cong) (simp add: conn)
  ultimately show ?thesis
    using old by (auto simp: step_ok_def client_ok_def conn effect_kinds)
qed

lemma runtime_loaded_ok:
  assumes "client_ok c" "k \<in> set (awaiting_runtime c)" "runtime_loaded c k = (c', fx)"
  shows "step_ok c c' fx"
proof -
  have c': "c' = c\<lparr>awaiting_runtime := sdelete (awaiting_runtime c) k, protocol_loaded := True, bc_socket := Some k,
        connections := mput (connections c) k (new_connection\<lparr>handshakeTimeout := positive (requestTimeoutMs c)\<rparr>)\<rparr>"
    and fx: "fx = [New_socket k (bc_url c)]"
    using assms(3) by (simp_all add: runtime_loaded_def)
  have "connect_held c' j = connect_held c j" for j
    using assms(1,2) by (auto simp: connect_held_def c' new_connection_def client_ok_def connections_ok_def)
  moreover have "requests_ok c'" using assms(1) requests_ok_cong [of c' c] by (simp add: c' client_ok_def)
  moreover have "connections_ok c'"
    using assms(1,2) connection_ok_cong [of c' c]
    by (auto simp: client_ok_def connections_ok_def c' connection_ok_def new_connection_def)
  ultimately show ?thesis by (intro step_ok_silent) (auto simp: client_ok_def fx c' fun_eq_iff)
qed

lemma runtime_failed_ok:
  assumes "client_ok c" "k \<in> set (awaiting_runtime c)" "runtime_failed c k err = (c', fx)"
  shows "step_ok c c' fx"
proof -
  have c': "c' = c\<lparr>awaiting_runtime := sdelete (awaiting_runtime c) k\<rparr>" and fx: "fx = [Connect_rejected k err]"
    using assms(3) by (simp_all add: runtime_failed_def)
  have held: "connect_held c' = (\<lambda>j. connect_held c j \<and> j \<noteq> k)"
    using assms(1,2) by (auto simp: connect_held_def c' client_ok_def connections_ok_def fun_eq_iff)
  have was: "connect_held c k" using assms(2) by (simp add: connect_held_def)
  have pend: "pendingRequests c' = pendingRequests c" "connect_calls c' = connect_calls c" by (simp_all add: c')
  have "requests_ok c'" using assms(1) requests_ok_cong [of c' c] by (simp add: c' client_ok_def)
  moreover have "connections_ok c'"
    using assms(1) connection_ok_cong [of c' c] by (auto simp: client_ok_def connections_ok_def c')
  moreover have "request_used c' = request_used c" by (rule request_used_cong) (simp add: c')
  ultimately show ?thesis
    using was pend by (auto simp: step_ok_def client_ok_def held fx effect_kinds)
qed

text \<open>Settling the handshake of a connection that is not settled yet.\<close>

lemma handshake_settled_ok:
  assumes "client_ok c" "map_of (connections c) k = Some n"
    "\<not> handshakeResolved n" "\<not> handshakeRejected n" "connect_settled k e"
    "\<And>n. handshakeTimeout (f n) = False" "\<And>n. handshakeResolved (f n) \<or> handshakeRejected (f n)"
  shows "step_ok c (upd_connection k f c) [e]"
proof -
  let ?c = "upd_connection k f c"
  have "connections_ok ?c"
    using assms by (intro upd_connections_ok) (auto simp: client_ok_def connection_ok_def)
  moreover have "connect_held ?c = (\<lambda>j. connect_held c j \<and> j \<noteq> k)"
    using assms by (auto simp: connect_held_def fun_eq_iff client_ok_def connections_ok_def)
  moreover have "connect_held c k" using assms by (simp add: connect_held_def)
  moreover have "connect_settled j e \<longleftrightarrow> j = k" "\<not> connect_issued j e" "\<not> request_issued r e" "\<not> request_settled r e" for j r
    using assms(5) by (cases e; auto simp: effect_kinds)+
  ultimately show ?thesis using assms(1) by (auto simp: step_ok_def client_ok_def)
qed

lemma settleError_ok:
  assumes "client_ok c" "map_of (connections c) k = Some n'" "handshakeResolved n' = handshakeResolved n"
    "handshakeRejected n' = handshakeRejected n" "settleError c k n err = (c', fx)"
  shows "step_ok c c' fx"
proof (cases "handshakeResolved n \<or> handshakeRejected n")
  case True
  then show ?thesis using assms by (auto simp: settleError_def step_ok_refl)
next
  case False
  let ?c1 = "upd_connection k (\<lambda>n. n\<lparr>handshakeTimeout := False, handshakeRejected := True\<rparr>) c"
  have s1: "step_ok c ?c1 [Connect_rejected k err]"
    using assms(1,2,3,4) False by (intro handshake_settled_ok) auto
  obtain c2 fx2 where cs: "clearSocket ?c1 = (c2, fx2)" by (cases "clearSocket ?c1")
  have out: "c' = c2" "fx = fx2 @ [Connect_rejected k err]"
    using assms(5) False cs by (auto simp: settleError_def)
  show ?thesis unfolding out
    by (rule step_ok_swap) (rule step_ok_trans [OF s1 clearSocket_ok(1) [OF step_ok_client [OF s1] cs]])
qed

lemma socket_errored_ok:
  assumes "client_ok c" "map_of (connections c) k = Some n" "socket_errored c k n err = (c', fx)"
  shows "step_ok c c' fx"
proof -
  let ?c1 = "upd_connection k (\<lambda>n. n\<lparr>cn_error_listener := False\<rparr>) c"
  have s1: "step_ok c ?c1 []" using assms(1) by (intro step_ok_upd) auto
  have "step_ok ?c1 c' fx"
    using settleError_ok [OF step_ok_client [OF s1], of k "n\<lparr>cn_error_listener := False\<rparr>" n] assms(2,3)
    by (simp add: socket_errored_def)
  with step_ok_trans [OF s1] show ?thesis by simp
qed

lemma socket_closed_ok:
  assumes "client_ok c" "map_of (connections c) k = Some n" "socket_closed c k n code reason = (c', fx)"
  shows "step_ok c c' fx"
proof -
  let ?c1 = "upd_connection k (\<lambda>n. n\<lparr>cn_close_listener := False\<rparr>) c"
  let ?reason = "if reason = [] then ''socket closed'' else reason"
  have s1: "step_ok c ?c1 [Emit_close code ?reason]" using assms(1) by (intro step_ok_upd) auto
  note ok1 = step_ok_client [OF s1]
  show ?thesis
  proof (cases "handshakeResolved n")
    case False
    obtain c2 fx2 where se: "settleError ?c1 k n (Plain_error (''socket closed before hello: '' @ ?reason)) = (c2, fx2)"
      by (cases "settleError ?c1 k n (Plain_error (''socket closed before hello: '' @ ?reason))")
    have "step_ok ?c1 c2 fx2"
      by (rule settleError_ok [OF ok1 _ _ _ se, of "n\<lparr>cn_close_listener := False\<rparr>"]) (simp_all add: assms(2))
    from step_ok_trans [OF s1 this] show ?thesis
      using False assms(3) se by (auto simp: socket_closed_def Let_def)
  next
    case True
    let ?err = "Plain_error (''socket closed ('' @ number_text code @ ''): '' @ ?reason)"
    obtain c2 fx2 where cp: "clearPendingRequests ?c1 ?err = (c2, fx2)" by (cases "clearPendingRequests ?c1 ?err")
    obtain c3 fx3 where cs: "clearSocket c2 = (c3, fx3)" by (cases "clearSocket c2")
    note s2 = clearPendingRequests_ok(1) [OF ok1 cp]
    note s3 = clearSocket_ok(1) [OF step_ok_client [OF s2] cs]
    from step_ok_trans [OF s1 step_ok_trans [OF s2 s3]] show ?thesis
      using True assms(3) cp cs by (auto simp: socket_closed_def Let_def)
  qed
qed

lemma parseIncomingMessage_silent: "parseIncomingMessage p now c raw = (r, fx) \<Longrightarrow> list_all silent fx"
  by (auto simp: parseIncomingMessage_def split: if_splits sum.splits)

lemma handleMessage_ok:
  assumes "client_ok c" "map_of (connections c) k = Some n" "handleMessage p now c k n frame = (c', fx)"
  shows "step_ok c c' fx"
proof -
  obtain r fx0 where parsed: "parseIncomingMessage p now c (normalizeIncomingFrame p frame) = (r, fx0)"
    by (cases "parseIncomingMessage p now c (normalizeIncomingFrame p frame)")
  note quiet = parseIncomingMessage_silent [OF parsed]
  show ?thesis
  proof (cases r)
    case None
    then show ?thesis using assms parsed quiet by (simp add: handleMessage_def step_ok_refl)
  next
    case (Some m)
    consider (hello) "\<not> handshakeResolved n" "env_type m = ''hello''" "isHelloPayload (JObj (env_payload m))"
      | (bad) "\<not> handshakeResolved n" "env_type m = ''hello''" "\<not> isHelloPayload (JObj (env_payload m))"
      | (plain) "handshakeResolved n \<or> env_type m \<noteq> ''hello''" by blast
    then show ?thesis
    proof cases
      case hello
      let ?u = "upd_connection k (\<lambda>n. n\<lparr>handshakeResolved := True, handshakeTimeout := False\<rparr>) c"
      let ?c1 = "?u\<lparr>helloPayload := Some (env_payload m)\<rparr>"
      let ?settled = "if handshakeRejected n then [] else [Connect_resolved k (env_payload m)]"
      have s1: "step_ok c ?u ?settled"
      proof (cases "handshakeRejected n")
        case True
        then have "connect_held ?u = connect_held c"
          using assms(2) hello by (auto simp: connect_held_def fun_eq_iff)
        moreover have "client_ok ?u" using assms(1) upd_connections_ok by (auto simp: client_ok_def connection_ok_def)
        ultimately show ?thesis using True by (intro step_ok_silent) auto
      next
        case False
        then show ?thesis using handshake_settled_ok [OF assms(1,2) hello(1) False] by auto
      qed
      have s2: "step_ok ?u ?c1 []" by (rule helloPayload_ok [OF step_ok_client [OF s1]])
      obtain c2 fx2 where d: "dispatchIncoming p ?c1 m = (c2, fx2)" by (cases "dispatchIncoming p ?c1 m")
      have s3: "step_ok ?c1 c2 fx2" by (rule dispatchIncoming_ok [OF step_ok_client [OF s2] d])
      have "step_ok c c2 (?settled @ [] @ fx2)" by (rule step_ok_trans [OF s1 step_ok_trans [OF s2 s3]])
      from step_ok_add_silent [OF this, of "fx0 @ [Emit ''hello'' m]"] show ?thesis
        using assms(3) parsed Some hello d quiet by (auto simp: handleMessage_def Let_def)
    next
      case bad
      obtain c1 fx1 where se: "settleError c k n (Plain_error ''invalid hello payload'') = (c1, fx1)"
        by (cases "settleError c k n (Plain_error ''invalid hello payload'')")
      have "step_ok c c1 fx1" by (rule settleError_ok [OF assms(1,2) refl refl se])
      from step_ok_add_silent [OF this quiet] show ?thesis
        using assms(3) parsed Some bad se by (simp add: handleMessage_def)
    next
      case plain
      obtain c2 fx2 where d: "dispatchIncoming p c m = (c2, fx2)" by (cases "dispatchIncoming p c m")
      from step_ok_add_silent [OF dispatchIncoming_ok [OF assms(1) d] quiet] show ?thesis
        using assms(3) parsed Some plain d by (auto simp: handleMessage_def)
    qed
  qed
qed

lemma handshake_timeout_ok:
  assumes "client_ok c" "map_of (connections c) k = Some n" "handshakeTimeout n"
    "handshake_timeout p after c k n = (c', fx)"
  shows "step_ok c c' fx"
    and "\<exists>err. Connect_rejected k err \<in> set fx"
proof -
  have live: "\<not> handshakeResolved n" "\<not> handshakeRejected n"
    using assms(1,2,3) by (auto simp: client_ok_def connections_ok_def connection_ok_def)
  let ?u = "upd_connection k (\<lambda>n. n\<lparr>handshakeTimeout := False\<rparr>) c"
  let ?err = "Plain_error (''connect timeout after '' @ num_text p (requestTimeoutMs c) @ ''ms'')"
  let ?c1 = "set_state c (Some k) after"
  have same: "settleError (set_state ?u (Some k) after) k n ?err = settleError ?c1 k n ?err"
    using live assms(2) by (simp add: settleError_def set_state_def upd_connection_def)
  obtain c2 fx2 where se: "settleError ?c1 k n ?err = (c2, fx2)" by (cases "settleError ?c1 k n ?err")
  have out: "c' = c2" "fx = Socket_terminate k # fx2"
    using assms(4) live same se by (simp_all add: handshake_timeout_def Let_def)
  have s1: "step_ok c ?c1 []" by (rule set_state_ok [OF assms(1)])
  have s2: "step_ok ?c1 c2 fx2"
    by (rule settleError_ok [OF step_ok_client [OF s1] _ _ _ se, of "n\<lparr>cn_state := after\<rparr>"])
      (simp_all add: assms(2) set_state_def)
  show "step_ok c c' fx"
    using step_ok_add_silent [OF step_ok_trans [OF s1 s2], of "[Socket_terminate k]"] out by simp
  have "Connect_rejected k ?err \<in> set fx2" using se live by (auto simp: settleError_def split: prod.splits)
  then show "\<exists>err. Connect_rejected k err \<in> set fx" unfolding out by auto
qed


subsection \<open>Every event\<close>

lemma new_client_ok: "client_ok (new_client url options)"
  by (simp add: client_ok_def requests_ok_def connections_ok_def new_client_def)

lemma on_connection_ok:
  assumes "client_ok c" "on_connection c k listens f = (c', fx)"
    and "\<And>n. map_of (connections c) k = Some n \<Longrightarrow> listens n \<Longrightarrow> f n = (c', fx) \<Longrightarrow> step_ok c c' fx"
  shows "step_ok c c' fx"
  using assms by (auto simp: on_connection_def step_ok_refl split: option.splits if_splits)

lemma client_handle_ok:
  assumes "client_ok c" "client_handle p c e = (c', fx)"
  shows "step_ok c c' fx"
proof (cases e)
  case (Socket_errored k err)
  then have "on_connection c k (\<lambda>n. True)
      (\<lambda>n. if cn_error_listener n then socket_errored c k n err else (c, [Uncaught err])) = (c', fx)"
    using assms(2) by simp
  then show ?thesis
    by (rule on_connection_ok [OF assms(1)])
      (use assms(1) socket_errored_ok in \<open>auto simp: step_ok_refl split: if_splits\<close>)
next
  case (Socket_opened k)
  then have "on_connection c k cn_open_listener (\<lambda>n. socket_opened c k) = (c', fx)" using assms(2) by simp
  then show ?thesis
    by (rule on_connection_ok [OF assms(1)]) (use assms(1) in \<open>auto simp: socket_opened_def intro!: step_ok_upd\<close>)
next
  case (Ready_state k st)
  then show ?thesis using assms step_ok_upd by auto
next
  case (Socket_closed k code reason)
  then have "on_connection c k cn_close_listener (\<lambda>n. socket_closed c k n code reason) = (c', fx)"
    using assms(2) by simp
  then show ?thesis by (rule on_connection_ok [OF assms(1)]) (rule socket_closed_ok [OF assms(1)])
next
  case (Socket_message k now frame)
  then have "on_connection c k cn_message_listener (\<lambda>n. handleMessage p now c k n frame) = (c', fx)"
    using assms(2) by simp
  then show ?thesis by (rule on_connection_ok [OF assms(1)]) (rule handleMessage_ok [OF assms(1)])
next
  case (Handshake_timer k after)
  then have "on_connection c k handshakeTimeout (\<lambda>n. handshake_timeout p after c k n) = (c', fx)"
    using assms(2) by simp
  then show ?thesis by (rule on_connection_ok [OF assms(1)]) (rule handshake_timeout_ok(1) [OF assms(1)])
qed (use assms in \<open>auto simp: step_ok_refl disconnect_finally_def connect_call_ok runtime_loaded_ok runtime_failed_ok
  request_timeout_ok close_client_ok sendRequest_ok split: if_splits\<close>)

lemma client_run_steps: "client_run p c es = run_steps (client_handle p) c es"
  by (induction es arbitrary: c) (simp_all split: prod.splits)

lemma step_books:
  assumes "client_ok c" "client_handle p c e = (c', fx)"
  shows "client_ok c'"
    and "tally (request_issued rid) fx + of_bool (request_held c rid) =
      tally (request_settled rid) fx + of_bool (request_held c' rid)"
    and "tally (request_issued rid) fx + of_bool (request_used c rid) \<le> of_bool (request_used c' rid)"
    and "tally (connect_issued k) fx + of_bool (connect_held c k) =
      tally (connect_settled k) fx + of_bool (connect_held c' k)"
    and "tally (connect_issued k) fx + of_bool (k < connect_calls c) \<le> of_bool (k < connect_calls c')"
  using client_handle_ok [OF assms] unfolding step_ok_def by blast+

interpretation requests: promise_ledger "client_handle p" client_ok request_issued request_settled request_held request_used
  for p
  by (unfold_locales; rule step_books; assumption)

interpretation connects: promise_ledger "client_handle p" client_ok connect_issued connect_settled connect_held
  "\<lambda>c k. k < connect_calls c"
  for p
  by (unfold_locales; rule step_books; assumption)

section \<open>Where responses come from\<close>

text \<open>The requests pending after an event were pending before it, or the event issued them.\<close>

definition typed_request :: "string \<Rightarrow> string list \<Rightarrow> bool" where
  "typed_request rid types \<longleftrightarrow>
     (\<exists>cmd now uuid n. rid = request_id cmd now uuid n \<and> types = EXPECTED_RESPONSE_TYPES_BY_COMMAND cmd)"

definition answered :: "client_platform \<Rightarrow> bridge_client \<Rightarrow> client_effect \<Rightarrow> bool" where
  "answered p c e \<longleftrightarrow>
     (\<forall>rid m. e = Request_resolved rid m \<longrightarrow>
        (\<exists>types. (rid, types) \<in> set (pendingRequests c) \<and> settle_request p types rid m = Request_resolved rid m
           \<and> env_requestId m = Some rid))"

definition tracked :: "client_platform \<Rightarrow> bridge_client \<Rightarrow> client_step \<Rightarrow> bool" where
  "tracked p c st \<longleftrightarrow>
     (\<forall>rid types. (rid, types) \<in> set (pendingRequests (fst st)) \<longrightarrow>
        (rid, types) \<in> set (pendingRequests c) \<or> typed_request rid types)
     \<and> (\<forall>e \<in> set (snd st). answered p c e)"

lemma answered_other [simp]: "(\<And>rid m. e \<noteq> Request_resolved rid m) \<Longrightarrow> answered p c e"
  by (simp add: answered_def)

lemma answered_silent: "silent e \<Longrightarrow> answered p c e"
  by (cases e) auto

lemma tracked_none:
  "set (pendingRequests (fst st)) \<subseteq> set (pendingRequests c) \<Longrightarrow>
   (\<And>e. e \<in> set (snd st) \<Longrightarrow> answered p c e) \<Longrightarrow> tracked p c st"
  by (auto simp: tracked_def)

lemma set_mdelete: "set (mdelete m k) \<subseteq> set m"
  by (auto simp: AList.delete_eq)

definition cleared :: "client_step \<Rightarrow> bool" where
  "cleared st \<longleftrightarrow> pendingRequests (fst st) = [] \<and> (\<forall>rid m. Request_resolved rid m \<notin> set (snd st))"

lemma cleared_tracked: "cleared st \<Longrightarrow> tracked p c st"
  by (auto simp: cleared_def tracked_def answered_def)

lemma clearPendingRequests_cleared: "cleared (clearPendingRequests c err)"
  by (auto simp: clearPendingRequests_def cleared_def)

lemma clearSocket_cleared: "cleared (clearSocket c)"
  by (auto simp: clearSocket_def clearPendingRequests_def cleared_def split: option.splits if_splits)

lemma close_client_cleared: "cleared (close_client after c code reason)"
  using clearSocket_cleared [of "set_state c (bc_socket c) after"]
  by (cases "clearSocket (set_state c (bc_socket c) after)") (auto simp: close_client_def cleared_def split: option.splits)

lemma settleError_tracked:
  assumes "pendingRequests c0 = pendingRequests c"
  shows "tracked p c (settleError c0 k n err)"
proof -
  let ?c1 = "upd_connection k (\<lambda>n. n\<lparr>handshakeTimeout := False, handshakeRejected := True\<rparr>) c0"
  have "cleared (clearSocket ?c1)" by (rule clearSocket_cleared)
  then have "\<not> (handshakeResolved n \<or> handshakeRejected n) \<Longrightarrow> cleared (settleError c0 k n err)"
    by (cases "clearSocket ?c1") (auto simp: settleError_def cleared_def)
  moreover have "handshakeResolved n \<or> handshakeRejected n \<Longrightarrow> tracked p c (settleError c0 k n err)"
    using assms by (auto simp: settleError_def tracked_def)
  ultimately show ?thesis by (blast intro: cleared_tracked)
qed

lemma sendRequest_tracked: "tracked p c (sendRequest now uuid send_error c cmd payload)"
proof -
  let ?n = "counter c cmd + 1"
  let ?rid = "request_id cmd now uuid ?n" and ?types = "EXPECTED_RESPONSE_TYPES_BY_COMMAND cmd"
  let ?c1 = "c\<lparr>requestPrefixCounter := mput (requestPrefixCounter c) (command_name cmd) ?n\<rparr>"
  let ?c2 = "?c1\<lparr>requestTimers := sadd (requestTimers ?c1) ?rid, pendingRequests := mput (pendingRequests c) ?rid ?types\<rparr>"
  have "tracked p c (?c2, [Request_issued ?rid, Socket_send k m])" for k m
  proof -
    have "(r, t) \<in> set (mput m k v) \<Longrightarrow> (r, t) \<in> set m \<or> r = k \<and> t = v" for r t k v and m :: "(string \<times> string list) list"
      by (induction m) (auto split: if_splits)
    then show ?thesis by (force simp: tracked_def typed_request_def)
  qed
  moreover have "tracked p c (let (c3, fx') = close_client after ?c2 1011 ''send failed''
      in (cancelPendingRequest c3 ?rid, [Request_issued ?rid] @ fx' @ [Call_threw err]))" for after err
    using close_client_cleared [of after ?c2 1011 "''send failed''"]
    by (cases "close_client after ?c2 1011 ''send failed''")
      (auto simp: cancelPendingRequest_def cleared_def intro!: cleared_tracked)
  moreover have "tracked p c (c, [Call_threw err])" for err by (simp add: tracked_def)
  ultimately show ?thesis
    by (auto simp: sendRequest_def nextRequestId_exact promiseForRequest_def Let_def simp del: One_nat_def
        split: option.split)
qed

lemma dispatchIncoming_tracked:
  assumes "pendingRequests c0 = pendingRequests c"
  shows "tracked p c (dispatchIncoming p c0 m)"
proof -
  have "tracked p c (emit_incoming p c0 m)"
    using emit_incoming_cases [of p c0 m] assms
    by (cases "emit_incoming p c0 m") (auto intro!: tracked_none answered_silent simp: list_all_iff)
  moreover have "answered p c (settle_request p types rid m)"
    if "map_of (pendingRequests c) rid = Some types" "env_requestId m = Some rid" for rid types
    using that by (auto simp: answered_def settle_request_def CommandRelayProtocolError_def split: if_splits dest: map_of_SomeD)
  ultimately show ?thesis
    using assms set_mdelete [of _ "pendingRequests c"]
    by (auto simp: dispatchIncoming_def drop_request_def tracked_def split: option.splits)
qed

lemma tracked_before:
  "tracked p c st \<Longrightarrow> (\<And>e. e \<in> set fx' \<Longrightarrow> answered p c e) \<Longrightarrow>
   tracked p c (let (c', fx) = st in (c', fx' @ fx))"
  by (cases st) (auto simp: tracked_def)

lemma handleMessage_tracked: "tracked p c (handleMessage p now c k n frame)"
proof -
  obtain r fx0 where parsed: "parseIncomingMessage p now c (normalizeIncomingFrame p frame) = (r, fx0)"
    by (cases "parseIncomingMessage p now c (normalizeIncomingFrame p frame)")
  have quiet: "e \<in> set fx0 \<Longrightarrow> answered p c e" for e
    using parseIncomingMessage_silent [OF parsed] by (auto simp: list_all_iff intro: answered_silent)
  have more: "tracked p c (let (c2, fx2) = st in (c2, fx0 @ fx1 @ fx2))"
    if "tracked p c st" "\<And>e. e \<in> set fx1 \<Longrightarrow> answered p c e" for st fx1
    using tracked_before [of p c st "fx0 @ fx1"] that quiet by auto
  note settle = settleError_tracked [of c c p k n "Plain_error ''invalid hello payload''"]
  note dispatch = dispatchIncoming_tracked [of _ c p]
  show ?thesis
  proof (cases r)
    case None
    then show ?thesis using parsed quiet by (auto simp: handleMessage_def intro!: tracked_none)
  next
    case (Some m)
    let ?c1 = "(upd_connection k (\<lambda>n. n\<lparr>handshakeResolved := True, handshakeTimeout := False\<rparr>) c)
      \<lparr>helloPayload := Some (env_payload m)\<rparr>"
    let ?fx1 = "Emit ''hello'' m # (if handshakeRejected n then [] else [Connect_resolved k (env_payload m)])"
    have "tracked p c (let (c2, fx2) = dispatchIncoming p ?c1 m in (c2, fx0 @ ?fx1 @ fx2))"
      by (rule more) (auto intro: dispatch split: if_splits)
    moreover have "tracked p c (let (c2, fx2) = dispatchIncoming p c m in (c2, fx0 @ [] @ fx2))"
      by (rule more) (auto intro: dispatch)
    moreover have "tracked p c (let (c2, fx2) = settleError c k n (Plain_error ''invalid hello payload'') in (c2, fx0 @ [] @ fx2))"
      by (rule more) (auto intro: settle)
    ultimately show ?thesis using Some parsed by (simp add: handleMessage_def Let_def)
  qed
qed

lemma socket_closed_tracked: "tracked p c (socket_closed c k n code reason)"
proof -
  let ?c1 = "upd_connection k (\<lambda>n. n\<lparr>cn_close_listener := False\<rparr>) c"
  have more: "tracked p c (let (c2, fx2) = st in (c2, Emit_close code r # fx2))" if "tracked p c st" for st r
    using tracked_before [of p c st "[Emit_close code r]"] that by simp
  have "tracked p c (settleError ?c1 k n err)" for err by (rule settleError_tracked) simp
  moreover have "tracked p c (let (c2, fx) = clearPendingRequests ?c1 err; (c3, fx') = clearSocket c2 in (c3, Emit_close code r # fx @ fx'))"
    for err r
    using clearSocket_cleared [of "fst (clearPendingRequests ?c1 err)"] clearPendingRequests_cleared [of ?c1 err]
    by (cases "clearPendingRequests ?c1 err"; cases "clearSocket (fst (clearPendingRequests ?c1 err))")
      (auto simp: cleared_def intro!: cleared_tracked)
  ultimately show ?thesis using more by (simp add: socket_closed_def Let_def)
qed

lemma handshake_timeout_tracked: "tracked p c (handshake_timeout p after c k n)"
proof -
  let ?c1 = "set_state (upd_connection k (\<lambda>n. n\<lparr>handshakeTimeout := False\<rparr>) c) (Some k) after"
  have "tracked p c (settleError ?c1 k n err)" for err by (rule settleError_tracked) (simp add: set_state_def)
  then have "tracked p c (let (c2, fx) = settleError ?c1 k n err in (c2, Socket_terminate k # fx))" for err
    using tracked_before [of p c "settleError ?c1 k n err" "[Socket_terminate k]"] by simp
  then show ?thesis by (auto simp: handshake_timeout_def Let_def intro!: tracked_none)
qed

lemma client_handle_tracked: "tracked p c (client_handle p c e)"
proof -
  have refl: "tracked p c (c', fx)"
    if "pendingRequests c' = pendingRequests c" "list_all (\<lambda>e. \<forall>rid m. e \<noteq> Request_resolved rid m) fx" for c' fx
    using that by (auto simp: list_all_iff intro!: tracked_none)
  have drop: "tracked p c (drop_request c rid, [Request_rejected rid err])" for rid err
    using set_mdelete [of rid "pendingRequests c"] by (auto simp: drop_request_def intro!: tracked_none)
  show ?thesis
    using refl drop sendRequest_tracked handleMessage_tracked socket_closed_tracked handshake_timeout_tracked
    by (cases e) (auto simp: socket_errored_def socket_opened_def request_timeout_def
      on_connection_def disconnect_finally_def connect_call_def runtime_loaded_def runtime_failed_def Let_def
      close_client_cleared cleared_tracked settleError_tracked tracked_none split: option.split)
qed

lemma client_run_typed:
  assumes "\<forall>(rid, types) \<in> set (pendingRequests c). typed_request rid types" "client_run p c es = (c', fx)"
    "Request_resolved rid m \<in> set fx"
  shows "\<exists>types. typed_request rid types \<and> settle_request p types rid m = Request_resolved rid m
           \<and> env_requestId m = Some rid"
  using assms
proof (induction es arbitrary: c fx)
  case Nil
  then show ?case by simp
next
  case (Cons e es)
  obtain c1 fx1 where st: "client_handle p c e = (c1, fx1)" by (cases "client_handle p c e")
  obtain c2 fx2 where r: "client_run p c1 es = (c2, fx2)" by (cases "client_run p c1 es")
  have fx: "fx = fx1 @ fx2" and r': "client_run p c1 es = (c', fx2)" using Cons.prems(2) st r by auto
  note tr = client_handle_tracked [of p c e, unfolded st tracked_def fst_conv snd_conv]
  have typed1: "\<forall>(rid, types) \<in> set (pendingRequests c1). typed_request rid types"
    using tr Cons.prems(1) by blast
  show ?case
  proof (cases "Request_resolved rid m \<in> set fx1")
    case True
    then show ?thesis using tr Cons.prems(1) by (fastforce simp: answered_def)
  next
    case False
    then show ?thesis using Cons.IH [OF typed1 r'] Cons.prems(3) fx by simp
  qed
qed

section \<open>Guarantees\<close>

text \<open>
  C9: Every request a client issues is settled exactly once or still pending: over any sequence of
  events, from a new client on, a request id is issued at most once, it has been settled (resolved or
  rejected) as often as it was issued unless it is pending, and a pending request has its timeout armed
  and belongs to a connection that is still there.
\<close>

theorem request_settles_once:
  assumes "client_run p (new_client url options) es = (c, fx)"
  shows "tally (\<lambda>e. e = Request_issued rid) fx \<le> 1
     \<and> tally (\<lambda>e. e = Request_issued rid) fx
        = tally (request_settled rid) fx + of_bool (rid \<in> fst ` set (pendingRequests c))
     \<and> (rid \<in> fst ` set (pendingRequests c) \<longleftrightarrow> rid \<in> set (requestTimers c))
     \<and> (bc_socket c = None \<longrightarrow> pendingRequests c = [])"
proof -
  let ?c = "new_client url options"
  have start: "client_ok ?c" "\<not> request_used ?c rid" "\<not> request_held ?c rid"
    by (simp_all add: new_client_ok) (simp_all add: new_client_def request_used_def counter_def)
  have run: "run_steps (client_handle p) ?c es = (c, fx)" using assms by (simp add: client_run_steps)
  have "client_ok c" using requests.run_ledger [OF start(1) run] by blast
  moreover have "request_issued rid = (\<lambda>e. e = Request_issued rid)" by (simp add: request_issued_def fun_eq_iff)
  ultimately show ?thesis
    using requests.settled_once [OF start(1) run start(2,3)] by (simp add: client_ok_def requests_ok_def)
qed

text \<open>
  Every \<open>connect\<close> call settles its promise at most once, and cannot hang when a timeout is configured:
  a call not yet settled is still loading the runtime or has its handshake timer armed, and that timer
  rejects the call when it fires.
\<close>

theorem connect_settles_once:
  assumes "client_run p (new_client url options) es = (c, fx)"
  shows "tally (\<lambda>e. e = Connect_issued k) fx \<le> 1
     \<and> tally (\<lambda>e. e = Connect_issued k) fx = tally (connect_settled k) fx + of_bool (connect_held c k)
     \<and> (connect_held c k \<and> positive (requestTimeoutMs c) \<longrightarrow>
          k \<in> set (awaiting_runtime c)
          \<or> (\<forall>after. \<exists>err. Connect_rejected k err \<in> set (snd (client_handle p c (Handshake_timer k after)))))"
proof -
  let ?c = "new_client url options"
  have start: "client_ok ?c" "\<not> k < connect_calls ?c" "\<not> connect_held ?c k"
    by (simp_all add: new_client_ok) (simp_all add: new_client_def connect_held_def)
  have run: "run_steps (client_handle p) ?c es = (c, fx)" using assms by (simp add: client_run_steps)
  have ok: "client_ok c" using connects.run_ledger [OF start(1) run] by blast
  have "\<exists>err. Connect_rejected k err \<in> set (snd (client_handle p c (Handshake_timer k after)))"
    if held: "connect_held c k" "positive (requestTimeoutMs c)" "k \<notin> set (awaiting_runtime c)" for after
  proof -
    obtain n where n: "map_of (connections c) k = Some n" "handshakeTimeout n"
      using held ok by (auto simp: connect_held_def client_ok_def connections_ok_def connection_ok_def)
    obtain c' fx' where t: "handshake_timeout p after c k n = (c', fx')" by (cases "handshake_timeout p after c k n")
    show ?thesis using handshake_timeout_ok(2) [OF ok n t] n t by (simp add: on_connection_def)
  qed
  moreover have "connect_issued k = (\<lambda>e. e = Connect_issued k)" by (simp add: connect_issued_def fun_eq_iff)
  ultimately show ?thesis using connects.settled_once [OF start(1) run start(2,3)] by auto
qed

text \<open>
  A call returns only what its command may return. Whatever a client receives, a resolved request
  carries the request id of the envelope that resolved it, and every public call for that command gets a
  response of the type it asks for with a payload of that type, so its own check of the response type
  never throws.
\<close>

theorem calls_return_their_response:
  assumes "client_run p (new_client url options) es = (c, fx)" "Request_resolved rid m \<in> set fx"
  shows "\<exists>cmd now uuid n. rid = request_id cmd now uuid n \<and> env_requestId m = Some rid
     \<and> (\<forall>call. api_command call = cmd \<longrightarrow>
          env_type m = api_response_type call \<and> isResponsePayloadValid (env_type m) (JObj (env_payload m))
          \<and> (\<exists>v. api_result call m = Inr v))"
proof -
  have "\<forall>(rid, types) \<in> set (pendingRequests (new_client url options)). typed_request rid types"
    by (simp add: new_client_def)
  from client_run_typed [OF this assms] obtain cmd now uuid n where
    rid: "rid = request_id cmd now uuid n" and m: "env_requestId m = Some rid"
    and settled: "settle_request p (EXPECTED_RESPONSE_TYPES_BY_COMMAND cmd) rid m = Request_resolved rid m"
    by (auto simp: typed_request_def)
  have valid: "isResponsePayloadValid (env_type m) (JObj (env_payload m))"
    and type: "env_type m \<in> set (EXPECTED_RESPONSE_TYPES_BY_COMMAND cmd)" "env_type m \<noteq> ''error''" "env_type m \<noteq> ''auth_error''"
    using settled
    by (auto simp: settle_request_def isUnknownResponseTypeAllowed_def CommandRelayProtocolError_def split: if_splits)
  have "api_command call = cmd \<Longrightarrow> env_type m = api_response_type call" for call
    using type by (cases call) auto
  then show ?thesis using rid m valid by (auto simp: api_result_def)
qed

section \<open>A session\<close>

text \<open>A client connects, lists the sessions, and is closed with a heartbeat pending.\<close>

definition demo_envelope :: "string \<Rightarrow> js_record \<Rightarrow> string option \<Rightarrow> jsval" where
  "demo_envelope type payload rid = envelope_json (envelope 5 type payload rid)"

definition demo_platform :: client_platform where
  "demo_platform =
     \<lparr>cp_parse = (\<lambda>raw.
        if raw = ''h'' then Some (demo_envelope ''hello'' [(''clientId'', JStr ''a''), (''requiresAuth'', JBool False),
            (''inputEnabled'', JBool False), (''globalInputDisabled'', JBool False)] None)
        else if raw = ''l'' then Some (demo_envelope ''session_list'' [(''panes'', JArr []), (''sessions'', JArr [])]
            (Some ''list_sessions-7-u-1''))
        else if raw = ''o'' then Some (demo_envelope ''output'' [(''mode'', JStr ''delta''), (''paneId'', JStr ''p''),
            (''chunk'', JStr ''x''), (''streamSeq'', jint 1)] None)
        else None),
      cp_stringify = (\<lambda>v. []), cp_string = (\<lambda>v. ''x''), cp_utf8 = map char_of\<rparr>"

definition demo_options :: client_options where
  "demo_options = \<lparr>co_strict = None, co_timeout = None\<rparr>"

definition demo_events :: "client_event list" where
  "demo_events =
     [Connect_called, Runtime_loaded 0, Ready_state 0 Sock_open, Socket_opened 0,
      Socket_message 0 6 (Frame_string ''h''), Api_called Api_listSessions 7 ''u'' None,
      Socket_message 0 8 (Frame_buffer [108]), Api_called Api_heartbeat 9 ''v'' None]"

lemma demo_run:
  "client_run demo_platform (new_client ''ws'' demo_options) demo_events =
     (fst (client_run demo_platform (new_client ''ws'' demo_options) demo_events),
      snd (client_run demo_platform (new_client ''ws'' demo_options) demo_events))"
  by simp

theorem request_settles_once_witness:
  "tally (\<lambda>e. e = Request_issued ''list_sessions-7-u-1'')
     (snd (client_run demo_platform (new_client ''ws'' demo_options) demo_events)) = 1
   \<and> tally (request_settled ''list_sessions-7-u-1'')
       (snd (client_run demo_platform (new_client ''ws'' demo_options) demo_events)) = 1
   \<and> fst ` set (pendingRequests (fst (client_run demo_platform (new_client ''ws'' demo_options) demo_events)))
       = {''heartbeat-9-v-1''}"
proof -
  let ?r = "client_run demo_platform (new_client ''ws'' demo_options) demo_events"
  have pend: "map fst (pendingRequests (fst ?r)) = [''heartbeat-9-v-1'']"
    by code_simp
  have iss: "tally (\<lambda>e. e = Request_issued ''list_sessions-7-u-1'') (snd ?r) = 1"
    by code_simp
  have keys: "fst ` set (pendingRequests (fst ?r)) = {''heartbeat-9-v-1''}"
    using pend by (metis list.set(1,2) list.set_map)
  have "''list_sessions-7-u-1'' \<notin> fst ` set (pendingRequests (fst ?r))" unfolding keys by simp
  then show ?thesis
    using request_settles_once [OF demo_run, of "''list_sessions-7-u-1''"] iss keys by simp
qed

theorem connect_settles_once_witness:
  "connect_held (fst (client_run demo_platform (new_client ''ws'' demo_options) (take 2 demo_events))) 0
   \<and> (\<exists>err. Connect_rejected 0 err \<in> set (snd (client_handle demo_platform
          (fst (client_run demo_platform (new_client ''ws'' demo_options) (take 2 demo_events)))
          (Handshake_timer 0 Sock_closing))))"
proof -
  let ?r = "client_run demo_platform (new_client ''ws'' demo_options) (take 2 demo_events)"
  have state: "map_of (connections (fst ?r)) 0 = Some (new_connection\<lparr>handshakeTimeout := True\<rparr>)"
    "awaiting_runtime (fst ?r) = []" "requestTimeoutMs (fst ?r) = Fin 8000"
    by code_simp+
  then have held: "connect_held (fst ?r) 0" by (simp add: connect_held_def new_connection_def)
  then show ?thesis
    using connect_settles_once [of demo_platform "''ws''" demo_options "take 2 demo_events" "fst ?r" "snd ?r" 0] state
    by (simp add: positive_def)
qed

theorem calls_return_their_response_witness:
  "\<exists>m cmd now uuid n. Request_resolved ''list_sessions-7-u-1'' m
       \<in> set (snd (client_run demo_platform (new_client ''ws'' demo_options) demo_events))
     \<and> ''list_sessions-7-u-1'' = request_id cmd now uuid n \<and> env_requestId m = Some ''list_sessions-7-u-1''"
proof -
  let ?r = "client_run demo_platform (new_client ''ws'' demo_options) demo_events"
  let ?m = "envelope 5 ''session_list'' [(''panes'', JArr []), (''sessions'', JArr [])] (Some ''list_sessions-7-u-1'')"
  have "Request_resolved ''list_sessions-7-u-1'' ?m \<in> set (snd ?r)" by code_simp
  with calls_return_their_response [OF demo_run this] show ?thesis by blast
qed

section \<open>What the client does not do\<close>

text \<open>\<open>isOpen\<close> answers true on a client without a socket.\<close>

lemma isOpen_without_socket: "bc_socket c = None \<Longrightarrow> isOpen c"
  by (simp add: isOpen_def)

text \<open>
  A message without a request id is dropped: no listener hears it, whatever its type. The bridge streams
  pane output in such messages.
\<close>

theorem unsolicited_messages_dropped:
  "env_requestId m = None \<Longrightarrow> dispatchIncoming p c m = (c, [])"
  by (simp add: dispatchIncoming_def)

text \<open>
  The handshake timer of a connection that was closed before its hello stays armed, and when it fires it
  tears down the connection opened since.
\<close>

definition stale_events :: "client_event list" where
  "stale_events =
     [Connect_called, Runtime_loaded 0, Close_called Sock_closing 1000 [], Connect_called, Runtime_loaded 1,
      Ready_state 1 Sock_open, Socket_message 1 6 (Frame_string ''h''), Handshake_timer 0 Sock_closed]"

theorem stale_handshake_timer:
  "bc_socket (fst (client_run demo_platform (new_client ''ws'' demo_options) (take 7 stale_events))) = Some 1
   \<and> bc_socket (fst (client_run demo_platform (new_client ''ws'' demo_options) stale_events)) = None
   \<and> Socket_terminate 1 \<in> set (snd (client_run demo_platform (new_client ''ws'' demo_options) stale_events))"
  by code_simp

text \<open>Two overlapping \<open>connect\<close> calls both open a socket, and the client forgets the first.\<close>

theorem overlapping_connects_leak:
  "map fst (connections (fst (client_run demo_platform (new_client ''ws'' demo_options)
      [Connect_called, Connect_called, Runtime_loaded 0, Runtime_loaded 1, Close_called Sock_closing 1000 []]))) = [0, 1]
   \<and> list_all (\<lambda>e. e \<noteq> Socket_close 0 1000 [] \<and> e \<noteq> Socket_terminate 0)
       (snd (client_run demo_platform (new_client ''ws'' demo_options)
         [Connect_called, Connect_called, Runtime_loaded 0, Runtime_loaded 1, Close_called Sock_closing 1000 []]))"
  by code_simp

text \<open>
  When \<open>socket.send\<close> throws, the caller gets that error and the promise of the request is rejected as
  well, with nobody waiting on it.
\<close>

theorem failed_send_rejects_unobserved:
  assumes "client_ok c" "bc_socket c = Some k" "isOpen c" "protocol_loaded c"
    "sendRequest now uuid (Some (err, after)) c cmd payload = (c', fx)"
  shows "\<exists>rid. Request_issued rid \<in> set fx
     \<and> Request_rejected rid (Plain_error ''connection closed'') \<in> set fx \<and> Call_threw err \<in> set fx"
proof -
  obtain c1 rid where nx: "nextRequestId now uuid c (command_name cmd) = (c1, rid)"
    by (cases "nextRequestId now uuid c (command_name cmd)")
  obtain c2 fx1 where prom: "promiseForRequest c1 rid (EXPECTED_RESPONSE_TYPES_BY_COMMAND cmd) = (c2, fx1)"
    by (cases "promiseForRequest c1 rid (EXPECTED_RESPONSE_TYPES_BY_COMMAND cmd)")
  note iss = issue_ok [OF assms(1) _ nx prom]
  let ?c2 = "set_state c2 (bc_socket c2) after"
  have ok: "client_ok ?c2" using set_state_ok [OF step_ok_client [OF iss(1)]] assms(2) step_ok_client by blast
  have pend: "pendingRequests ?c2 = pendingRequests c2" by (simp add: set_state_def split: option.split)
  have "(rid, EXPECTED_RESPONSE_TYPES_BY_COMMAND cmd) \<in> set (pendingRequests c2)"
    using iss(3) assms(2) map_of_SomeD by fastforce
  then have "Request_rejected rid (Plain_error ''connection closed'') \<in> set (snd (clearSocket ?c2))"
    unfolding clearSocket_exact [OF ok] pend by force
  moreover have "fx = fx1 @ snd (close_client after c2 1011 ''send failed'') @ [Call_threw err]"
    using assms(2,3,4,5) nx prom by (auto simp: sendRequest_def split: prod.splits)
  moreover have "Request_issued rid \<in> set fx1" using iss(4) assms(2) by simp
  ultimately show ?thesis by (auto simp: close_client_def split: prod.splits)
qed

end
