(* ===== verification/Task_Capsule.thy ===== *)
theory Task_Capsule
  imports Config Client_Guarantees
begin

text \<open>
  Task capsules, \<^verbatim>\<open>src/orchestration/task-capsule.ts\<close>: the parser of snippet selectors and the builder that collects what an agent
  may see, within limits. Errors are their messages. Options are numbers as JavaScript has them, so the checks for integers are
  part of the model; line numbers of a result are integers.
\<close>

section \<open>Data\<close>

record snippet_selector =
  sel_path :: string
  sel_startLine :: "int option"
  sel_endLine :: "int option"

record snippet_input =
  si_selector :: string
  si_content :: string

record capsule_snippet =
  cn_path :: string
  cn_startLine :: "int option"
  cn_endLine :: "int option"
  cn_content :: string

record capsule_input =
  ci_goal :: string
  ci_owner :: string
  ci_paths :: "string list option"
  ci_acceptanceCriteria :: "string list option"
  ci_risks :: "string list option"
  ci_snippets :: "snippet_input list option"

text \<open>\<open>Partial<TaskCapsuleConstraints>\<close> and the resolved constraints.\<close>

record constraint_overrides =
  co_maxSnippets :: "jsnum option"
  co_maxSnippetChars :: "jsnum option"
  co_selectorLineMin :: "jsnum option"
  co_selectorLineMax :: "jsnum option"

record capsule_constraints =
  cc_maxSnippets :: int
  cc_maxSnippetChars :: int
  cc_selectorLineMin :: int
  cc_selectorLineMax :: int

record task_capsule =
  tc_schemaVersion :: string
  tc_goal :: string
  tc_owner :: string
  tc_paths :: "string list"
  tc_acceptanceCriteria :: "string list"
  tc_risks :: "string list"
  tc_snippets :: "capsule_snippet list"

definition TASK_CAPSULE_SCHEMA_VERSION :: string where
  "TASK_CAPSULE_SCHEMA_VERSION = ''task-capsule.v1''"

definition DEFAULT_SELECTOR_LINE_MIN :: jsnum where
  "DEFAULT_SELECTOR_LINE_MIN = Fin 1"

definition DEFAULT_SELECTOR_LINE_MAX :: jsnum where
  "DEFAULT_SELECTOR_LINE_MAX = Fin 200000"

text \<open>\<open>value ?? fallback\<close>.\<close>

definition or_default :: "'a option \<Rightarrow> 'a \<Rightarrow> 'a" where
  "or_default v d = (case v of None \<Rightarrow> d | Some x \<Rightarrow> x)"

section \<open>Operations\<close>

definition capsule_nonNegative :: "jsnum \<Rightarrow> string \<Rightarrow> (string, int) result" where
  "capsule_nonNegative n fieldName =
     (case num_as_int n of
        Some i \<Rightarrow> (if i < 0 then Inl (fieldName @ '' must be a non-negative integer.'') else Inr i)
      | None \<Rightarrow> Inl (fieldName @ '' must be a non-negative integer.''))"

definition capsule_positive :: "jsnum \<Rightarrow> string \<Rightarrow> (string, int) result" where
  "capsule_positive n fieldName =
     (case num_as_int n of
        Some i \<Rightarrow> (if i < 1 then Inl (fieldName @ '' must be a positive integer.'') else Inr i)
      | None \<Rightarrow> Inl (fieldName @ '' must be a positive integer.''))"

text \<open>A number that is not finite becomes the lower bound.\<close>

definition clampLine :: "jsnum \<Rightarrow> int \<Rightarrow> int \<Rightarrow> int" where
  "clampLine n lo hi = (case n of Fin q \<Rightarrow> (if q < of_int lo then lo else if q > of_int hi then hi else \<lfloor>q\<rfloor>) | _ \<Rightarrow> lo)"

definition parsePathAndRange :: "string \<Rightarrow> string \<Rightarrow> string option \<Rightarrow> int \<Rightarrow> int \<Rightarrow> (string, snippet_selector) result" where
  "parsePathAndRange rawPath rawStart rawEnd lineMin lineMax =
     (let path = trim rawPath; startLine = clampLine (parseInt rawStart) lineMin lineMax
      in if path = [] then Inl ''Snippet selector path must be non-empty.''
         else case rawEnd of
           None \<Rightarrow> Inr \<lparr>sel_path = path, sel_startLine = Some startLine, sel_endLine = None\<rparr>
         | Some e \<Rightarrow> Inr \<lparr>sel_path = path, sel_startLine = Some startLine,
             sel_endLine = Some (max startLine (clampLine (parseInt e) lineMin lineMax))\<rparr>)"

text \<open>
  The two patterns \<open>^(.*):(-?\d+):(-?\d+)$\<close> and \<open>^(.*):(-?\d+)$\<close>: the numbers have no colon, so they are the last parts between
  colons; the dot matches no line break. The parts come last first.
\<close>

definition one_line :: "string \<Rightarrow> bool" where
  "one_line s \<longleftrightarrow> list_all (\<lambda>c. (of_char c :: nat) \<noteq> 10 \<and> (of_char c :: nat) \<noteq> 13) s"

definition rangedMatch :: "string list \<Rightarrow> (string \<times> string \<times> string) option" where
  "rangedMatch parts =
     (case parts of
        e # s # p # ps \<Rightarrow>
          (let path = join '':'' (rev (p # ps))
           in if strict_int_text e \<and> strict_int_text s \<and> one_line path then Some (path, s, e) else None)
      | _ \<Rightarrow> None)"

definition startOnlyMatch :: "string list \<Rightarrow> (string \<times> string) option" where
  "startOnlyMatch parts =
     (case parts of
        s # p # ps \<Rightarrow>
          (let path = join '':'' (rev (p # ps)) in if strict_int_text s \<and> one_line path then Some (path, s) else None)
      | _ \<Rightarrow> None)"

definition select_lines :: "string \<Rightarrow> int \<Rightarrow> int \<Rightarrow> (string, snippet_selector) result" where
  "select_lines selector lineMin lineMax =
     (let parts = rev (split_on CHR '':'' selector)
      in case rangedMatch parts of
        Some (p, s, e) \<Rightarrow> parsePathAndRange p s (Some e) lineMin lineMax
      | None \<Rightarrow>
          (case startOnlyMatch parts of
             Some (p, s) \<Rightarrow> parsePathAndRange p s None lineMin lineMax
           | None \<Rightarrow> Inr \<lparr>sel_path = selector, sel_startLine = None, sel_endLine = None\<rparr>))"

text \<open>The last check of the code, for an empty path, cannot fail: the trimmed selector is not empty.\<close>

definition parseFileSnippetSelector :: "string \<Rightarrow> jsnum option \<Rightarrow> jsnum option \<Rightarrow> (string, snippet_selector) result" where
  "parseFileSnippetSelector rawSelector optMin optMax =
     (let selector = trim rawSelector
      in if selector = [] then Inl ''Snippet selector must be a non-empty string.''
         else bind_result (capsule_positive (or_default optMin DEFAULT_SELECTOR_LINE_MIN) ''lineMin'') (\<lambda>lineMin.
           bind_result (capsule_positive (or_default optMax DEFAULT_SELECTOR_LINE_MAX) ''lineMax'') (\<lambda>lineMax.
           if lineMin > lineMax then Inl ''Invalid selector bounds: lineMin cannot exceed lineMax.''
           else select_lines selector lineMin lineMax)))"

definition no_overrides :: constraint_overrides where
  "no_overrides = \<lparr>co_maxSnippets = None, co_maxSnippetChars = None, co_selectorLineMin = None, co_selectorLineMax = None\<rparr>"

definition resolveConstraints :: "constraint_overrides option \<Rightarrow> (string, capsule_constraints) result" where
  "resolveConstraints overrides =
     (let o1 = or_default overrides no_overrides
      in bind_result (capsule_nonNegative (or_default (co_maxSnippets o1) (Fin 8)) ''maxSnippets'') (\<lambda>maxSnippets.
         bind_result (capsule_nonNegative (or_default (co_maxSnippetChars o1) (Fin 1200)) ''maxSnippetChars'') (\<lambda>maxChars.
         bind_result (capsule_positive (or_default (co_selectorLineMin o1) DEFAULT_SELECTOR_LINE_MIN) ''selectorLineMin'') (\<lambda>lineMin.
         bind_result (capsule_positive (or_default (co_selectorLineMax o1) DEFAULT_SELECTOR_LINE_MAX) ''selectorLineMax'') (\<lambda>lineMax.
         if lineMin > lineMax then Inl ''selectorLineMin cannot exceed selectorLineMax.''
         else Inr \<lparr>cc_maxSnippets = maxSnippets, cc_maxSnippetChars = maxChars, cc_selectorLineMin = lineMin,
           cc_selectorLineMax = lineMax\<rparr>)))))"

definition capsule_required :: "string \<Rightarrow> string \<Rightarrow> (string, string) result" where
  "capsule_required raw fieldName =
     (if trim raw = [] then Inl (''Task capsule '' @ fieldName @ '' is required.'') else Inr (trim raw))"

definition add_text :: "string list \<Rightarrow> string \<Rightarrow> string list" where
  "add_text known candidate = (if trim candidate = [] then known else sadd known (trim candidate))"

definition normalizeStringList :: "string list option \<Rightarrow> string list" where
  "normalizeStringList texts = fold (\<lambda>v known. add_text known v) (or_default texts []) []"

definition truncateText :: "string \<Rightarrow> int \<Rightarrow> string" where
  "truncateText raw maxChars =
     (if maxChars \<le> 0 then [] else if int (length raw) \<le> maxChars then raw else take (nat maxChars) raw)"

definition snippet_of :: "snippet_selector \<Rightarrow> string \<Rightarrow> capsule_snippet" where
  "snippet_of sel content =
     \<lparr>cn_path = sel_path sel, cn_startLine = sel_startLine sel, cn_endLine = sel_endLine sel, cn_content = content\<rparr>"

fun collect_snippets :: "capsule_constraints \<Rightarrow> snippet_input list \<Rightarrow> string list \<Rightarrow> capsule_snippet list
    \<Rightarrow> (string, string list \<times> capsule_snippet list) result" where
  "collect_snippets cs [] pathSet snippets = Inr (pathSet, snippets)"
| "collect_snippets cs (x # xs) pathSet snippets =
     (if int (length snippets) \<ge> cc_maxSnippets cs then Inr (pathSet, snippets)
      else bind_result (parseFileSnippetSelector (si_selector x) (Some (Fin (of_int (cc_selectorLineMin cs))))
             (Some (Fin (of_int (cc_selectorLineMax cs))))) (\<lambda>sel.
        collect_snippets cs xs (add_text pathSet (sel_path sel))
          (snippets @ [snippet_of sel (truncateText (si_content x) (cc_maxSnippetChars cs))])))"

definition buildTaskCapsule :: "capsule_input \<Rightarrow> constraint_overrides option \<Rightarrow> (string, task_capsule) result" where
  "buildTaskCapsule input overrides =
     bind_result (resolveConstraints overrides) (\<lambda>cs.
     bind_result (capsule_required (ci_goal input) ''goal'') (\<lambda>goal.
     bind_result (capsule_required (ci_owner input) ''owner'') (\<lambda>owner.
     bind_result (collect_snippets cs (or_default (ci_snippets input) []) (normalizeStringList (ci_paths input)) []) (\<lambda>(paths, snippets).
     Inr \<lparr>tc_schemaVersion = TASK_CAPSULE_SCHEMA_VERSION, tc_goal = goal, tc_owner = owner, tc_paths = paths,
       tc_acceptanceCriteria = normalizeStringList (ci_acceptanceCriteria input), tc_risks = normalizeStringList (ci_risks input),
       tc_snippets = snippets\<rparr>))))"

section \<open>Selectors\<close>

text \<open>The lines of a selector lie in a range, the end not before the start.\<close>

definition selector_in :: "int \<Rightarrow> int \<Rightarrow> snippet_selector \<Rightarrow> bool" where
  "selector_in lo hi r \<longleftrightarrow> sel_path r \<noteq> [] \<and> trim (sel_path r) = sel_path r \<and>
     (case (sel_startLine r, sel_endLine r) of
        (None, None) \<Rightarrow> True
      | (Some a, None) \<Rightarrow> lo \<le> a \<and> a \<le> hi
      | (Some a, Some b) \<Rightarrow> lo \<le> a \<and> a \<le> b \<and> b \<le> hi
      | _ \<Rightarrow> False)"

lemma capsule_positive_Inr: "capsule_positive n f = Inr i \<longleftrightarrow> n = Fin (of_int i) \<and> 1 \<le> i"
  by (auto simp: capsule_positive_def split: option.splits)

lemma capsule_nonNegative_Inr: "capsule_nonNegative n f = Inr i \<longleftrightarrow> n = Fin (of_int i) \<and> 0 \<le> i"
  by (auto simp: capsule_nonNegative_def split: option.splits)

lemma clampLine_bounds: "lo \<le> hi \<Longrightarrow> lo \<le> clampLine n lo hi \<and> clampLine n lo hi \<le> hi"
  by (auto simp: clampLine_def le_floor_iff floor_le_iff split: jsnum.splits)

lemma clampLine_id: "lo \<le> i \<Longrightarrow> i \<le> hi \<Longrightarrow> clampLine (Fin (of_int i)) lo hi = i"
  by (simp add: clampLine_def)

lemma parsePathAndRange_in:
  "parsePathAndRange p s e lo hi = Inr r \<Longrightarrow> lo \<le> hi \<Longrightarrow> selector_in lo hi r"
  using clampLine_bounds [of lo hi "parseInt s"] clampLine_bounds [of lo hi]
  by (auto simp: parsePathAndRange_def selector_in_def Let_def split: if_splits option.splits)

lemma selector_in_path: "t \<noteq> [] \<Longrightarrow> trim t = t \<Longrightarrow> selector_in lo hi \<lparr>sel_path = t, sel_startLine = None, sel_endLine = None\<rparr>"
  by (simp add: selector_in_def)

lemma select_lines_in: "select_lines t lo hi = Inr r \<Longrightarrow> lo \<le> hi \<Longrightarrow> t \<noteq> [] \<Longrightarrow> trim t = t \<Longrightarrow> selector_in lo hi r"
  by (auto simp: select_lines_def Let_def intro: parsePathAndRange_in selector_in_path split: option.splits)

lemma parse_selector_in:
  "parseFileSnippetSelector raw (Some (Fin (of_int lo))) (Some (Fin (of_int hi))) = Inr r \<Longrightarrow> selector_in lo hi r"
  by (auto simp: parseFileSnippetSelector_def Let_def or_default_def bind_result_Inr capsule_positive_Inr select_lines_in split: if_splits)

section \<open>Capsules\<close>

lemma truncateText_take: "0 \<le> n \<Longrightarrow> truncateText raw n = take (nat n) raw"
  by (auto simp: truncateText_def)

lemma resolveConstraints_wf:
  "resolveConstraints ov = Inr cs \<Longrightarrow> 0 \<le> cc_maxSnippets cs \<and> 0 \<le> cc_maxSnippetChars cs \<and> 1 \<le> cc_selectorLineMin cs
     \<and> cc_selectorLineMin cs \<le> cc_selectorLineMax cs"
  by (auto simp: resolveConstraints_def Let_def bind_result_Inr capsule_positive_Inr capsule_nonNegative_Inr split: if_splits)

lemma set_add_text [simp]: "set (add_text known v) = set known \<union> (if trim v = [] then {} else {trim v})"
  by (simp add: add_text_def)

lemma distinct_add_text [simp]: "distinct (add_text known v) = distinct known"
  by (simp add: add_text_def)

lemma fold_add_text:
  "set (fold (\<lambda>v known. add_text known v) vs known) = set known \<union> {trim v | v. v \<in> set vs \<and> trim v \<noteq> []}"
  "distinct (fold (\<lambda>v known. add_text known v) vs known) = distinct known"
  by (induction vs arbitrary: known) auto

text \<open>A snippet of the capsule comes from an input: its lines are clamped and its content is cut.\<close>

definition snippet_from :: "capsule_constraints \<Rightarrow> snippet_input \<Rightarrow> capsule_snippet \<Rightarrow> bool" where
  "snippet_from cs x s \<longleftrightarrow>
     (case parseFileSnippetSelector (si_selector x) (Some (Fin (of_int (cc_selectorLineMin cs)))) (Some (Fin (of_int (cc_selectorLineMax cs)))) of
        Inl _ \<Rightarrow> False
      | Inr sel \<Rightarrow> selector_in (cc_selectorLineMin cs) (cc_selectorLineMax cs) sel \<and>
          s = snippet_of sel (take (nat (cc_maxSnippetChars cs)) (si_content x)))"

lemma collect_snippets_spec:
  assumes "collect_snippets cs xs ps acc = Inr (ps', ss)" "0 \<le> cc_maxSnippetChars cs" "int (length acc) \<le> cc_maxSnippets cs"
  shows "\<exists>new. ss = acc @ new \<and> list_all2 (snippet_from cs) (take (nat (cc_maxSnippets cs) - length acc) xs) new
    \<and> set ps' = set ps \<union> cn_path ` set new \<and> distinct ps' = distinct ps"
  using assms
proof (induction xs arbitrary: ps acc)
  case (Cons x xs)
  show ?case
  proof (cases "int (length acc) \<ge> cc_maxSnippets cs")
    case True
    with Cons.prems(1) show ?thesis by (intro exI [of _ "[]"]) simp
  next
    case False
    then obtain sel where sel: "parseFileSnippetSelector (si_selector x) (Some (Fin (of_int (cc_selectorLineMin cs))))
        (Some (Fin (of_int (cc_selectorLineMax cs)))) = Inr sel"
      and rest: "collect_snippets cs xs (add_text ps (sel_path sel))
        (acc @ [snippet_of sel (truncateText (si_content x) (cc_maxSnippetChars cs))]) = Inr (ps', ss)"
      using Cons.prems(1) by (auto simp: bind_result_Inr)
    let ?s = "snippet_of sel (truncateText (si_content x) (cc_maxSnippetChars cs))"
    have r: "selector_in (cc_selectorLineMin cs) (cc_selectorLineMax cs) sel" by (rule parse_selector_in [OF sel])
    then have from_x: "snippet_from cs x ?s" and path: "trim (sel_path sel) = cn_path ?s" "cn_path ?s \<noteq> []"
      using Cons.prems(2) by (auto simp: snippet_from_def snippet_of_def truncateText_take selector_in_def sel)
    obtain new where "ss = (acc @ [?s]) @ new"
      "list_all2 (snippet_from cs) (take (nat (cc_maxSnippets cs) - length (acc @ [?s])) xs) new"
      "set ps' = set (add_text ps (sel_path sel)) \<union> cn_path ` set new" "distinct ps' = distinct ps"
      using Cons.IH [OF rest Cons.prems(2)] False by auto
    moreover have "nat (cc_maxSnippets cs) - length acc = Suc (nat (cc_maxSnippets cs) - length (acc @ [?s]))"
      using False by simp
    ultimately show ?thesis using from_x path by (intro exI [of _ "?s # new"]) auto
  qed
qed auto

text \<open>
  What a task capsule discloses is limited. The constraints a capsule is built with are valid; it holds the first snippets of
  the input up to the limit, in order, each with its content cut to the limit and its lines clamped into the permitted range, the end not before the start;
  its paths are the trimmed given paths and the paths of these snippets and nothing else, without repetition; and the criteria and
  risks are the trimmed texts of the input.
\<close>

theorem capsule_within_limits:
  assumes "buildTaskCapsule input overrides = Inr c"
  shows "\<exists>cs. resolveConstraints overrides = Inr cs \<and> int (length (tc_snippets c)) \<le> cc_maxSnippets cs
    \<and> list_all2 (snippet_from cs) (take (nat (cc_maxSnippets cs)) (or_default (ci_snippets input) [])) (tc_snippets c)
    \<and> distinct (tc_paths c)
    \<and> set (tc_paths c) = {trim p | p. p \<in> set (or_default (ci_paths input) []) \<and> trim p \<noteq> []} \<union> cn_path ` set (tc_snippets c)
    \<and> set (tc_acceptanceCriteria c) = {trim t | t. t \<in> set (or_default (ci_acceptanceCriteria input) []) \<and> trim t \<noteq> []}
    \<and> set (tc_risks c) = {trim t | t. t \<in> set (or_default (ci_risks input) []) \<and> trim t \<noteq> []}"
proof -
  obtain cs paths snippets where cs: "resolveConstraints overrides = Inr cs"
    and col: "collect_snippets cs (or_default (ci_snippets input) []) (normalizeStringList (ci_paths input)) [] = Inr (paths, snippets)"
    and c: "tc_paths c = paths" "tc_snippets c = snippets" "tc_acceptanceCriteria c = normalizeStringList (ci_acceptanceCriteria input)"
      "tc_risks c = normalizeStringList (ci_risks input)"
    using assms by (auto simp: buildTaskCapsule_def bind_result_Inr)
  note wf = resolveConstraints_wf [OF cs]
  from collect_snippets_spec [OF col] wf have spec:
    "list_all2 (snippet_from cs) (take (nat (cc_maxSnippets cs)) (or_default (ci_snippets input) [])) snippets"
    "set paths = set (normalizeStringList (ci_paths input)) \<union> cn_path ` set snippets" "distinct paths"
    by (auto simp: normalizeStringList_def fold_add_text)
  have "int (length snippets) \<le> cc_maxSnippets cs" using list_all2_lengthD [OF spec(1)] wf by auto
  then show ?thesis using cs spec c by (auto simp: normalizeStringList_def fold_add_text)
qed

definition demo_capsule_input :: capsule_input where
  "demo_capsule_input = \<lparr>ci_goal = ''Ship it'', ci_owner = ''core'', ci_paths = Some [''src/a.ts'', '' src/a.ts ''],
     ci_acceptanceCriteria = Some [''green''], ci_risks = None,
     ci_snippets = Some [\<lparr>si_selector = ''src/a.ts:-9:2'', si_content = ''123456''\<rparr>, \<lparr>si_selector = ''src/b.ts:80:3'', si_content = ''abc''\<rparr>,
       \<lparr>si_selector = ''src/c.ts'', si_content = ''zzz''\<rparr>]\<rparr>"

definition demo_overrides :: constraint_overrides where
  "demo_overrides = no_overrides\<lparr>co_maxSnippets := Some (Fin 2), co_maxSnippetChars := Some (Fin 4)\<rparr>"

definition demo_capsule :: task_capsule where
  "demo_capsule = \<lparr>tc_schemaVersion = ''task-capsule.v1'', tc_goal = ''Ship it'', tc_owner = ''core'', tc_paths = [''src/a.ts'', ''src/b.ts''],
     tc_acceptanceCriteria = [''green''], tc_risks = [],
     tc_snippets = [\<lparr>cn_path = ''src/a.ts'', cn_startLine = Some 1, cn_endLine = Some 2, cn_content = ''1234''\<rparr>,
       \<lparr>cn_path = ''src/b.ts'', cn_startLine = Some 80, cn_endLine = Some 80, cn_content = ''abc''\<rparr>]\<rparr>"

lemma demo_capsule_built: "buildTaskCapsule demo_capsule_input (Some demo_overrides) = Inr demo_capsule"
  by code_simp

theorem capsule_within_limits_witness:
  "buildTaskCapsule demo_capsule_input (Some demo_overrides) = Inr demo_capsule \<and> distinct (tc_paths demo_capsule)"
  using capsule_within_limits [OF demo_capsule_built] demo_capsule_built by blast

end
