(* ===== verification/Agent_Brief.thy ===== *)
theory Agent_Brief
  imports Task_Capsule "HOL-Library.List_Lexorder" "HOL-Library.Char_ord" "HOL-Library.Product_Lexorder" "HOL-Library.Multiset"
begin

text \<open>
  Worker briefs, \<^verbatim>\<open>src/orchestration/agent-brief.ts\<close>: the paths an agent owns are checked against the capsule, and of the
  capsule's snippets only those inside an owned path reach the brief. Strings are compared by code units, which is the
  lexicographic order on lists of characters; \<open>Array.sort\<close> is stable.
\<close>

section \<open>Paths\<close>

text \<open>\<open>replace(/\\+/g, "/")\<close>: every run of backslashes becomes one slash.\<close>

fun slash_runs :: "bool \<Rightarrow> string \<Rightarrow> string" where
  "slash_runs in_run [] = []"
| "slash_runs in_run (c # cs) =
     (if (of_char c :: nat) = 92 then (if in_run then slash_runs True cs else CHR ''/'' # slash_runs True cs) else c # slash_runs False cs)"

definition is_letter :: "char \<Rightarrow> bool" where
  "is_letter c \<longleftrightarrow> is_alnum c \<and> \<not> is_digit c"

definition drive_prefix :: "string \<Rightarrow> string" where
  "drive_prefix s = (case s of a # b # _ \<Rightarrow> (if is_letter a \<and> b = CHR '':'' then [a, b] else []) | _ \<Rightarrow> [])"

definition kept_segment :: "string \<Rightarrow> bool" where
  "kept_segment segment \<longleftrightarrow> segment \<noteq> [] \<and> segment \<noteq> ''.''"

text \<open>The checks and the result of the loop over the segments.\<close>

definition join_segments :: "string \<Rightarrow> string \<Rightarrow> string list \<Rightarrow> (string, string) result" where
  "join_segments fieldName lead segments =
     (if ''..'' \<in> set segments then Inl (fieldName @ '' cannot contain parent traversal segments (\"..\").'')
      else let kept = filter kept_segment segments
        in if kept = [] then Inl (fieldName @ '' must resolve to a non-empty path.'') else Inr (lead @ join ''/'' kept))"

definition normalizeScopedPath :: "string \<Rightarrow> string \<Rightarrow> (string, string) result" where
  "normalizeScopedPath rawPath fieldName =
     (let trimmed = trim rawPath; slashed = slash_runs False trimmed; hasUnixRoot = startsWith slashed ''/'';
          drive = drive_prefix slashed; remainder = drop (length drive) slashed;
          lead = (if drive \<noteq> [] then drive @ ''/'' else if hasUnixRoot then ''/'' else [])
      in if trimmed = [] then Inl (fieldName @ '' must be a non-empty path.'')
         else join_segments fieldName lead (split_on CHR ''/'' (if hasUnixRoot then dropWhile (\<lambda>c. c = CHR ''/'') remainder else remainder)))"

definition indexed_field :: "string \<Rightarrow> nat \<Rightarrow> string" where
  "indexed_field name i = name @ ''['' @ decimal i @ '']''"

fun normalizeCapsulePathSet :: "nat \<Rightarrow> string list \<Rightarrow> string list \<Rightarrow> (string, string list) result" where
  "normalizeCapsulePathSet i [] normalized = Inr normalized"
| "normalizeCapsulePathSet i (p # ps) normalized =
     (if trim p = [] then normalizeCapsulePathSet (Suc i) ps normalized
      else bind_result (normalizeScopedPath (trim p) (indexed_field ''capsule.paths'' i)) (\<lambda>n.
        normalizeCapsulePathSet (Suc i) ps (sadd normalized n)))"

fun owned_loop :: "string list \<Rightarrow> nat \<Rightarrow> string list \<Rightarrow> string list \<Rightarrow> (string, string list) result" where
  "owned_loop capsule i [] normalizedOwned = Inr normalizedOwned"
| "owned_loop capsule i (p # ps) normalizedOwned =
     bind_result (normalizeScopedPath p (indexed_field ''ownedPaths'' i)) (\<lambda>n.
     if n \<in> set normalizedOwned then Inl (''Duplicate owned path is not allowed: \"'' @ n @ ''\".'')
     else if n \<notin> set capsule then Inl (''Owned path is outside capsule scope: \"'' @ n @ ''\".'')
     else owned_loop capsule (Suc i) ps (normalizedOwned @ [n]))"

definition validateAgentOwnedPaths :: "string list \<Rightarrow> string list \<Rightarrow> (string, string list) result" where
  "validateAgentOwnedPaths capsulePaths ownedPaths =
     bind_result (normalizeCapsulePathSet 0 capsulePaths []) (\<lambda>capsule.
     bind_result (owned_loop capsule 0 ownedPaths []) (\<lambda>owned.
     if owned = [] then Inl ''At least one owned path is required.'' else Inr (sort owned)))"

section \<open>Briefs\<close>

record agent_brief =
  ab_task :: string
  ab_owner :: string
  ab_ownedFiles :: "string list"
  ab_acceptanceCriteria :: "string list"
  ab_risks :: "string list"
  ab_relevantSnippets :: "capsule_snippet list"
  ab_text :: string

definition brief_required :: "string \<Rightarrow> string \<Rightarrow> (string, string) result" where
  "brief_required raw fieldName = (if trim raw = [] then Inl (fieldName @ '' is required.'') else Inr (trim raw))"

definition normalizeAndSortTextList :: "string list \<Rightarrow> string list" where
  "normalizeAndSortTextList texts = sort (fold (\<lambda>v known. add_text known v) texts [])"

definition isInsideOwnedScope :: "string \<Rightarrow> string list \<Rightarrow> bool" where
  "isInsideOwnedScope candidatePath ownedPaths \<longleftrightarrow>
     list_ex (\<lambda>p. candidatePath = p \<or> startsWith candidatePath (p @ ''/'')) ownedPaths"

definition tryNormalizeScopedPath :: "string \<Rightarrow> string option" where
  "tryNormalizeScopedPath rawPath = (case normalizeScopedPath rawPath ''snippet.path'' of Inr p \<Rightarrow> Some p | Inl _ \<Rightarrow> None)"

text \<open>The key that \<open>compareSnippetOrder\<close> compares.\<close>

definition snippet_key :: "capsule_snippet \<Rightarrow> string \<times> int \<times> int \<times> string" where
  "snippet_key s = (cn_path s, or_default (cn_startLine s) 0, or_default (cn_endLine s) 0, cn_content s)"

fun in_scope :: "string list \<Rightarrow> capsule_snippet list \<Rightarrow> capsule_snippet list" where
  "in_scope owned [] = []"
| "in_scope owned (s # ss) =
     (case tryNormalizeScopedPath (cn_path s) of
        None \<Rightarrow> in_scope owned ss
      | Some p \<Rightarrow> (if isInsideOwnedScope p owned then s\<lparr>cn_path := p\<rparr> # in_scope owned ss else in_scope owned ss))"

definition selectRelevantSnippets :: "capsule_snippet list \<Rightarrow> string list \<Rightarrow> capsule_snippet list" where
  "selectRelevantSnippets snippets ownedPaths = sort_key snippet_key (in_scope ownedPaths snippets)"

definition renderBulletSection :: "string list \<Rightarrow> string list" where
  "renderBulletSection texts = (if texts = [] then [''- none''] else map (\<lambda>t. ''- '' @ t) texts)"

definition formatSnippetSelector :: "capsule_snippet \<Rightarrow> string" where
  "formatSnippetSelector s =
     (case cn_startLine s of
        None \<Rightarrow> cn_path s
      | Some a \<Rightarrow>
          (case cn_endLine s of
             None \<Rightarrow> cn_path s @ '':'' @ number_text a
           | Some b \<Rightarrow> cn_path s @ '':'' @ number_text a @ '':'' @ number_text b))"

abbreviation newline :: char where
  "newline \<equiv> CHR 0x0A"

definition renderSnippet :: "capsule_snippet \<Rightarrow> string list" where
  "renderSnippet s = (''- '' @ formatSnippetSelector s) #
     (let snippetLines = split_on newline (cn_content s)
      in if snippetLines = [[]] then [''  (empty snippet)''] else map (\<lambda>l. ''  '' @ l) snippetLines)"

definition renderSnippets :: "capsule_snippet list \<Rightarrow> string list" where
  "renderSnippets snippets = (if snippets = [] then [''- none''] else concat (map renderSnippet snippets))"

definition renderAgentBriefText ::
  "string \<Rightarrow> string \<Rightarrow> string list \<Rightarrow> string list \<Rightarrow> string list \<Rightarrow> capsule_snippet list \<Rightarrow> string" where
  "renderAgentBriefText task owner ownedFiles criteria risks snippets =
     join [newline] ([''Task:'', task, [], ''Owner:'', owner, [], ''Owned Files:''] @ renderBulletSection ownedFiles
       @ [[], ''Acceptance Criteria:''] @ renderBulletSection criteria @ [[], ''Risks:''] @ renderBulletSection risks
       @ [[], ''Relevant Snippets:''] @ renderSnippets snippets) @ [newline]"

definition buildAgentBrief :: "task_capsule \<Rightarrow> string list \<Rightarrow> (string, agent_brief) result" where
  "buildAgentBrief capsule ownedPaths =
     bind_result (brief_required (tc_goal capsule) ''capsule.goal'') (\<lambda>task.
     bind_result (brief_required (tc_owner capsule) ''capsule.owner'') (\<lambda>owner.
     bind_result (validateAgentOwnedPaths (tc_paths capsule) ownedPaths) (\<lambda>ownedFiles.
     let criteria = normalizeAndSortTextList (tc_acceptanceCriteria capsule); risks = normalizeAndSortTextList (tc_risks capsule);
         snippets = selectRelevantSnippets (tc_snippets capsule) ownedFiles
     in Inr \<lparr>ab_task = task, ab_owner = owner, ab_ownedFiles = ownedFiles, ab_acceptanceCriteria = criteria, ab_risks = risks,
       ab_relevantSnippets = snippets, ab_text = renderAgentBriefText task owner ownedFiles criteria risks snippets\<rparr>)))"

section \<open>Selectors read back\<close>

lemma split_on_app: "split_on c (a @ c # b) = split_on c a @ split_on c b"
  by (induction a) (auto split: list.splits)

lemma join_app: "xs \<noteq> [] \<Longrightarrow> ys \<noteq> [] \<Longrightarrow> join sep (xs @ ys) = join sep xs @ sep @ join sep ys"
proof (induction xs)
  case (Cons x xs)
  then show ?case by (cases xs; cases ys) auto
qed simp

lemma split_on_single: "split_on c s = [x] \<Longrightarrow> c \<notin> set s"
  by (induction s arbitrary: x) (auto split: if_splits list.splits)

lemma decimal_nonempty [simp]: "decimal n \<noteq> []"
  by (subst decimal.simps) simp

lemma strict_int_decimal: "strict_int_text (decimal n)"
proof -
  have "\<not> startsWith (decimal n) ''-''"
    using decimal_digits [of "CHR ''-''" n] by (cases "decimal n") (auto simp: startsWith_def is_digit_def)
  then show ?thesis using decimal_digits by (auto simp: strict_int_text_def Let_def list_all_iff)
qed

lemma parseInt_decimal:
  assumes "int n < double_overflow"
  shows "parseInt (decimal n) = Fin (of_int (int n))"
proof -
  obtain d ds where d: "decimal n = d # ds" "is_digit d" using decimal_digits [of _ n] by (cases "decimal n") auto
  then have c: "\<not> is_ws d" "d \<noteq> CHR ''-''" "d \<noteq> CHR ''+''" by (auto simp: is_digit_def is_ws_def)
  have ds: "takeWhile is_digit ds = ds" using decimal_digits [of _ n] d(1) by (simp add: takeWhile_eq_all_conv)
  show ?thesis using assms d c digits_val_decimal [of n] by (simp add: parseInt_def startsWith_def Let_def ds)
qed

lemma number_text_line:
  assumes "1 \<le> i" "i \<le> 200000"
  shows "strict_int_text (number_text i)" "clampLine (parseInt (number_text i)) 1 200000 = i" "CHR '':'' \<notin> set (number_text i)"
    "number_text i \<noteq> []" "\<not> is_ws (last (number_text i))"
proof -
  have n: "number_text i = decimal (nat i)" using assms by (simp add: number_text_def)
  have "int (nat i) < double_overflow" using assms by (simp add: double_overflow_def)
  then show "clampLine (parseInt (number_text i)) 1 200000 = i"
    unfolding n using assms by (simp add: parseInt_decimal clampLine_id del: of_int_of_nat_eq)
  show "strict_int_text (number_text i)" "number_text i \<noteq> []" unfolding n by (simp_all add: strict_int_decimal)
  have "is_digit (last (decimal (nat i)))" by (rule decimal_digits [of _ "nat i"]) simp
  then show "\<not> is_ws (last (number_text i))" unfolding n by (auto simp: is_digit_def is_ws_def)
  show "CHR '':'' \<notin> set (number_text i)" unfolding n using decimal_digits [of "CHR '':''" "nat i"] by (auto simp: is_digit_def)
qed

text \<open>A path that does not itself end like a selector.\<close>

definition plain_path :: "string \<Rightarrow> bool" where
  "plain_path p \<longleftrightarrow> one_line p \<and> (CHR '':'' \<notin> set p \<or> \<not> strict_int_text (last (split_on CHR '':'' p)))"

lemma matches_with_line:
  assumes "CHR '':'' \<notin> set d" "strict_int_text d" "one_line p"
  shows "startOnlyMatch (rev (split_on CHR '':'' (p @ CHR '':'' # d))) = Some (p, d)"
    "plain_path p \<Longrightarrow> rangedMatch (rev (split_on CHR '':'' (p @ CHR '':'' # d))) = None"
    "\<lbrakk>CHR '':'' \<notin> set e; strict_int_text e\<rbrakk> \<Longrightarrow> rangedMatch (rev (split_on CHR '':'' (p @ CHR '':'' # d @ CHR '':'' # e))) = Some (p, d, e)"
proof -
  obtain xs x where x: "split_on CHR '':'' p = xs @ [x]" by (metis rev_exhaust split_on_ne)
  have p: "join '':'' (xs @ [x]) = p" using join_split_on [of "CHR '':''" p] by (simp add: x)
  show "startOnlyMatch (rev (split_on CHR '':'' (p @ CHR '':'' # d))) = Some (p, d)"
    using assms p by (simp add: split_on_app split_on_free x startOnlyMatch_def)
  show "rangedMatch (rev (split_on CHR '':'' (p @ CHR '':'' # d))) = None" if "plain_path p"
    using that assms split_on_free [of "CHR '':''" p] x
    by (cases xs rule: rev_cases) (auto simp: split_on_app split_on_free rangedMatch_def plain_path_def)
  show "rangedMatch (rev (split_on CHR '':'' (p @ CHR '':'' # d @ CHR '':'' # e))) = Some (p, d, e)"
    if "CHR '':'' \<notin> set e" "strict_int_text e"
    using that assms p by (simp add: split_on_app split_on_free x rangedMatch_def)
qed

lemma matches_without_line:
  assumes "plain_path p"
  shows "startOnlyMatch (rev (split_on CHR '':'' p)) = None" "rangedMatch (rev (split_on CHR '':'' p)) = None"
proof -
  obtain xs x where x: "split_on CHR '':'' p = xs @ [x]" by (metis rev_exhaust split_on_ne)
  then have "xs = [] \<or> \<not> strict_int_text x"
    using assms split_on_free [of "CHR '':''" p] by (auto simp: plain_path_def)
  then show "startOnlyMatch (rev (split_on CHR '':'' p)) = None" "rangedMatch (rev (split_on CHR '':'' p)) = None"
    by (auto simp: x startOnlyMatch_def rangedMatch_def split: list.splits)
qed

lemma parse_default:
  "trim s = s \<Longrightarrow> s \<noteq> [] \<Longrightarrow> parseFileSnippetSelector s None None = select_lines s 1 200000"
  by (simp add: parseFileSnippetSelector_def or_default_def DEFAULT_SELECTOR_LINE_MIN_def DEFAULT_SELECTOR_LINE_MAX_def
      capsule_positive_def)

text \<open>
  A selector survives being printed and parsed. For a path that does not itself end like a selector and lines in the default
  range, the text that the brief prints for a snippet parses to the same path and the same lines.
\<close>

theorem selector_roundtrip:
  assumes "selector_in 1 200000 r" "plain_path (sel_path r)"
  shows "parseFileSnippetSelector (formatSnippetSelector (snippet_of r content)) None None = Inr r"
proof -
  obtain p a b where r: "r = \<lparr>sel_path = p, sel_startLine = a, sel_endLine = b\<rparr>" by (cases r)
  have p: "p \<noteq> []" "trim p = p" "\<not> is_ws (hd p)" "plain_path p" "one_line p"
    using assms trim_eq_iff [of p] by (auto simp: r selector_in_def plain_path_def)
  have t: "trim (p @ CHR '':'' # d) = p @ CHR '':'' # d" if "d \<noteq> []" "\<not> is_ws (last d)" for d
    using p that by (intro trim_fixed) simp
  consider (path) "a = None" "b = None" | (line) i where "a = Some i" "b = None" "1 \<le> i" "i \<le> 200000"
    | (range) i j where "a = Some i" "b = Some j" "1 \<le> i" "i \<le> j" "j \<le> 200000"
    using assms(1) by (auto simp: r selector_in_def split: option.splits)
  then show ?thesis
  proof cases
    case path
    then show ?thesis using p matches_without_line [OF p(4)]
      by (simp add: r formatSnippetSelector_def snippet_of_def parse_default select_lines_def)
  next
    case line
    note n = number_text_line [OF line(3,4)]
    show ?thesis using line p n t [OF n(4,5)] matches_with_line [OF n(3,1) p(5)]
      by (simp add: r formatSnippetSelector_def snippet_of_def parse_default select_lines_def parsePathAndRange_def)
  next
    case range
    have i: "i \<le> 200000" "1 \<le> j" using range by simp_all
    note n = number_text_line [OF range(3) i(1)] and m = number_text_line [OF i(2) range(5)]
    show ?thesis
      using range p n m t [of "number_text i @ CHR '':'' # number_text j"] matches_with_line(3) [OF n(3,1) p(5) m(3,1)]
      by (simp add: r formatSnippetSelector_def snippet_of_def parse_default select_lines_def parsePathAndRange_def)
  qed
qed

theorem selector_roundtrip_witness:
  "parseFileSnippetSelector ''src/a.ts:5:12'' None None = Inr \<lparr>sel_path = ''src/a.ts'', sel_startLine = Some 5, sel_endLine = Some 12\<rparr>"
proof -
  let ?r = "\<lparr>sel_path = ''src/a.ts'', sel_startLine = Some 5, sel_endLine = Some 12\<rparr>"
  have "selector_in 1 200000 ?r" "plain_path (sel_path ?r)" by code_simp+
  moreover have "formatSnippetSelector (snippet_of ?r []) = ''src/a.ts:5:12''" by code_simp
  ultimately show ?thesis using selector_roundtrip [of ?r "[]"] by simp
qed

section \<open>What a brief may contain\<close>

definition path_components :: "string \<Rightarrow> string list" where
  "path_components p = split_on CHR ''/'' p"

text \<open>Being inside a scope, by components: the components of the owned path come first.\<close>

lemma inside_components:
  "c = p \<or> startsWith c (p @ ''/'') \<longleftrightarrow> Sublist.prefix (path_components p) (path_components c)"
proof
  assume "c = p \<or> startsWith c (p @ ''/'')"
  then show "Sublist.prefix (path_components p) (path_components c)"
    by (auto simp: startsWith_prefix path_components_def split_on_app)
next
  assume "Sublist.prefix (path_components p) (path_components c)"
  then obtain zs where z: "split_on CHR ''/'' c = split_on CHR ''/'' p @ zs" by (auto simp: path_components_def Sublist.prefix_def)
  have "c = join ''/'' (split_on CHR ''/'' p @ zs)" using join_split_on [of "CHR ''/''" c] z by simp
  then show "c = p \<or> startsWith c (p @ ''/'')"
    using join_app [of "split_on CHR ''/'' p" zs "''/''"] by (cases "zs = []") (auto simp: startsWith_prefix)
qed

definition snippet_owned :: "string list \<Rightarrow> capsule_snippet \<Rightarrow> bool" where
  "snippet_owned ownedFiles s \<longleftrightarrow>
     (case tryNormalizeScopedPath (cn_path s) of
        None \<Rightarrow> False
      | Some p \<Rightarrow> list_ex (\<lambda>f. Sublist.prefix (path_components f) (path_components p)) ownedFiles)"

definition with_normal_path :: "capsule_snippet \<Rightarrow> capsule_snippet" where
  "with_normal_path s = s\<lparr>cn_path := the (tryNormalizeScopedPath (cn_path s))\<rparr>"

lemma in_scope_filter: "in_scope owned ss = map with_normal_path (filter (snippet_owned owned) ss)"
  by (induction ss) (auto simp: snippet_owned_def with_normal_path_def isInsideOwnedScope_def inside_components split: option.splits)

lemma relevant_snippets_filtered: "selectRelevantSnippets (filter (snippet_owned owned) ss) owned = selectRelevantSnippets ss owned"
  by (simp add: selectRelevantSnippets_def in_scope_filter)

lemma normalizeScopedPath_field: "normalizeScopedPath p f = Inr n \<Longrightarrow> normalizeScopedPath p f' = Inr n"
  by (auto simp: normalizeScopedPath_def join_segments_def Let_def split: if_splits)

lemma normalizeScopedPath_trim [simp]: "normalizeScopedPath (trim p) f = normalizeScopedPath p f"
  by (simp add: normalizeScopedPath_def)

text \<open>A normalised path has no component that leads upwards.\<close>

lemma normal_path_no_parent:
  assumes "normalizeScopedPath p f = Inr n"
  shows "''..'' \<notin> set (path_components n)"
proof -
  define sl where "sl = slash_runs False (trim p)"
  define lead where "lead = (if drive_prefix sl \<noteq> [] then drive_prefix sl @ ''/'' else if startsWith sl ''/'' then ''/'' else [])"
  define segs where "segs = split_on CHR ''/'' (if startsWith sl ''/'' then dropWhile (\<lambda>c. c = CHR ''/'') (drop (length (drive_prefix sl)) sl)
    else drop (length (drive_prefix sl)) sl)"
  have segs: "\<forall>x\<in>set segs. CHR ''/'' \<notin> set x" "join_segments f lead segs = Inr n"
    using assms split_on_parts unfolding segs_def
    by (blast, simp add: normalizeScopedPath_def Let_def sl_def lead_def split: if_splits)
  then have kept: "''..'' \<notin> set segs" "filter kept_segment segs \<noteq> []" "n = lead @ join ''/'' (filter kept_segment segs)"
    by (auto simp: join_segments_def Let_def split: if_splits)
  have parts: "split_on CHR ''/'' (join ''/'' (filter kept_segment segs)) = filter kept_segment segs"
    using segs(1) kept(2) by (intro split_on_join) auto
  have lead: "''..'' \<notin> set (split_on CHR ''/'' (butlast lead))" "lead = [] \<or> lead = butlast lead @ ''/''"
    by (auto simp: lead_def drive_prefix_def is_letter_def is_alnum_def is_digit_def butlast_append split: list.splits if_splits)
  then have "n = join ''/'' (filter kept_segment segs) \<or> n = butlast lead @ CHR ''/'' # join ''/'' (filter kept_segment segs)"
    using kept(3) by (metis append.left_neutral append_Cons append_assoc)
  then show ?thesis using parts lead(1) kept(1) by (auto simp: path_components_def split_on_app)
qed

lemma capsule_path_set:
  "normalizeCapsulePathSet i ps acc = Inr known \<Longrightarrow>
     set known = set acc \<union> {n. \<exists>p\<in>set ps. trim p \<noteq> [] \<and> normalizeScopedPath p [] = Inr n}"
proof (induction i ps acc rule: normalizeCapsulePathSet.induct)
  case (2 i p ps acc)
  show ?case
  proof (cases "trim p = []")
    case False
    then obtain n where n: "normalizeScopedPath p (indexed_field ''capsule.paths'' i) = Inr n"
      "normalizeCapsulePathSet (Suc i) ps (sadd acc n) = Inr known"
      using 2(3) by (auto simp: bind_result_Inr)
    have "normalizeScopedPath p [] = Inr n" by (rule normalizeScopedPath_field [OF n(1)])
    then show ?thesis using 2(2) [of n] False n by auto
  qed (use 2 in auto)
qed simp

lemma owned_loop_spec:
  "owned_loop capsule i ps acc = Inr owned \<Longrightarrow>
     \<exists>ns. owned = acc @ ns \<and> map (\<lambda>p. normalizeScopedPath p []) ps = map Inr ns \<and> set ns \<subseteq> set capsule \<and> (distinct acc \<longrightarrow> distinct owned)"
proof (induction capsule i ps acc rule: owned_loop.induct)
  case (2 capsule i p ps acc)
  then obtain n where n: "normalizeScopedPath p (indexed_field ''ownedPaths'' i) = Inr n" "n \<notin> set acc" "n \<in> set capsule"
    "owned_loop capsule (Suc i) ps (acc @ [n]) = Inr owned"
    by (auto simp: bind_result_Inr split: if_splits)
  obtain ns where "owned = (acc @ [n]) @ ns" "map (\<lambda>p. normalizeScopedPath p []) ps = map Inr ns" "set ns \<subseteq> set capsule"
    "distinct (acc @ [n]) \<longrightarrow> distinct owned"
    using "2.IH" [of n] n by auto
  then show ?case using n normalizeScopedPath_field [OF n(1), of "[]"] by (intro exI [of _ "n # ns"]) auto
qed simp

lemma validate_owned_spec:
  assumes "validateAgentOwnedPaths capsulePaths ownedPaths = Inr files"
  shows "\<exists>ns. files = sort ns \<and> ns \<noteq> [] \<and> distinct ns \<and> map (\<lambda>p. normalizeScopedPath p []) ownedPaths = map Inr ns
    \<and> (\<forall>n\<in>set ns. \<exists>q\<in>set capsulePaths. normalizeScopedPath q [] = Inr n)"
proof -
  obtain capsule owned where c: "normalizeCapsulePathSet 0 capsulePaths [] = Inr capsule" "owned_loop capsule 0 ownedPaths [] = Inr owned"
    "owned \<noteq> []" "files = sort owned"
    using assms by (auto simp: validateAgentOwnedPaths_def bind_result_Inr split: if_splits)
  then show ?thesis using owned_loop_spec [OF c(2)] capsule_path_set [OF c(1)] by fastforce
qed

text \<open>
  C33: a brief shows an agent only what it owns. The owned files of a brief are the normalised owned paths, in order and without
  repetition, and each is a path of the capsule. The snippets of the brief are exactly the capsule's snippets whose path has the components of an
  owned file as its first components, in the documented order, and no path climbs upwards. Snippets of other files have no influence: without
  them in the capsule the brief is the same, its text included.
\<close>

theorem brief_confined_to_owned:
  assumes "buildAgentBrief capsule ownedPaths = Inr b"
  shows "ab_ownedFiles b \<noteq> [] \<and> sorted (ab_ownedFiles b) \<and> distinct (ab_ownedFiles b)
    \<and> Inr ` set (ab_ownedFiles b) = (\<lambda>p. normalizeScopedPath p []) ` set ownedPaths
    \<and> Inr ` set (ab_ownedFiles b) \<subseteq> (\<lambda>p. normalizeScopedPath p []) ` set (tc_paths capsule)
    \<and> ab_relevantSnippets b = sort_key snippet_key (map with_normal_path (filter (snippet_owned (ab_ownedFiles b)) (tc_snippets capsule)))
    \<and> (\<forall>s\<in>set (ab_relevantSnippets b). ''..'' \<notin> set (path_components (cn_path s)))
    \<and> buildAgentBrief (capsule\<lparr>tc_snippets := filter (snippet_owned (ab_ownedFiles b)) (tc_snippets capsule)\<rparr>) ownedPaths = Inr b"
proof -
  obtain files where v: "validateAgentOwnedPaths (tc_paths capsule) ownedPaths = Inr files" "ab_ownedFiles b = files"
    and snip: "ab_relevantSnippets b = selectRelevantSnippets (tc_snippets capsule) files"
    using assms by (auto simp: buildAgentBrief_def bind_result_Inr Let_def)
  obtain ns where ns: "files = sort ns" "ns \<noteq> []" "distinct ns" "map (\<lambda>p. normalizeScopedPath p []) ownedPaths = map Inr ns"
    "\<forall>n\<in>set ns. \<exists>q\<in>set (tc_paths capsule). normalizeScopedPath q [] = Inr n"
    using validate_owned_spec [OF v(1)] by blast
  have img: "(\<lambda>p. normalizeScopedPath p []) ` set ownedPaths = Inr ` set ns"
    using arg_cong [OF ns(4), of set] by simp
  have eq: "ab_relevantSnippets b = sort_key snippet_key (map with_normal_path (filter (snippet_owned files) (tc_snippets capsule)))"
    by (simp add: snip selectRelevantSnippets_def in_scope_filter)
  have "''..'' \<notin> set (path_components (cn_path s))" if "s \<in> set (ab_relevantSnippets b)" for s
    using that normal_path_no_parent
    by (auto simp: eq with_normal_path_def snippet_owned_def tryNormalizeScopedPath_def split: option.splits sum.splits)
  moreover have "buildAgentBrief (capsule\<lparr>tc_snippets := filter (snippet_owned files) (tc_snippets capsule)\<rparr>) ownedPaths = Inr b"
    using assms v by (simp add: buildAgentBrief_def bind_result_Inr Let_def relevant_snippets_filtered)
  moreover have "Inr ` set files \<subseteq> (\<lambda>p. normalizeScopedPath p []) ` set (tc_paths capsule)"
    using ns(1,5) by (auto simp: image_iff) (metis)
  moreover have "set files \<noteq> {}" using ns(1,2) by simp
  then have "files \<noteq> []" by (simp only: set_empty simp_thms)
  ultimately show ?thesis using ns(1,3) img eq v(2) by simp
qed

definition demo_brief_capsule :: task_capsule where
  "demo_brief_capsule = demo_capsule\<lparr>tc_paths := [''src/features'', ''src/server''],
     tc_snippets := [\<lparr>cn_path = ''src/features/./ok.ts'', cn_startLine = Some 2, cn_endLine = None, cn_content = ''in scope''\<rparr>,
       \<lparr>cn_path = ''src/features-other/out.ts'', cn_startLine = None, cn_endLine = None, cn_content = ''secret''\<rparr>,
       \<lparr>cn_path = ''src/features/../server/key.ts'', cn_startLine = None, cn_endLine = None, cn_content = ''secret''\<rparr>]\<rparr>"

definition demo_brief :: agent_brief where
  "demo_brief = projr (buildAgentBrief demo_brief_capsule ['' ./src/features/ ''])"

lemma demo_brief_parts:
  "brief_required (tc_goal demo_brief_capsule) ''capsule.goal'' = Inr ''Ship it''"
  "brief_required (tc_owner demo_brief_capsule) ''capsule.owner'' = Inr ''core''"
  "validateAgentOwnedPaths (tc_paths demo_brief_capsule) ['' ./src/features/ ''] = Inr [''src/features'']"
  by code_simp+

lemma demo_brief_built: "buildAgentBrief demo_brief_capsule ['' ./src/features/ ''] = Inr demo_brief"
  by (simp add: demo_brief_def buildAgentBrief_def demo_brief_parts Let_def)

lemma demo_brief_fields: "ab_task demo_brief = ''Ship it''" "ab_ownedFiles demo_brief = [''src/features'']"
  by (simp_all add: demo_brief_def buildAgentBrief_def demo_brief_parts Let_def)

theorem brief_confined_to_owned_witness:
  "ab_ownedFiles demo_brief = [''src/features''] \<and> map cn_path (ab_relevantSnippets demo_brief) = [''src/features/ok.ts'']"
proof -
  have "filter (snippet_owned [''src/features'']) (tc_snippets demo_brief_capsule) = take 1 (tc_snippets demo_brief_capsule)" by code_simp
  moreover have "map cn_path (map with_normal_path (take 1 (tc_snippets demo_brief_capsule))) = [''src/features/ok.ts'']" by code_simp
  moreover have "length (take 1 (tc_snippets demo_brief_capsule)) = 1" by code_simp
  ultimately show ?thesis using brief_confined_to_owned [OF demo_brief_built] demo_brief_fields(2)
    by (auto simp: length_Suc_conv simp del: take_Suc_Cons)
qed

text \<open>A path relative to a drive and the path below its root become the same.\<close>

theorem drive_relative_conflated: "normalizeScopedPath ''C:keys'' f = Inr ''C:/keys'' \<and> normalizeScopedPath ''C:/keys'' f = Inr ''C:/keys''"
  by (simp add: normalizeScopedPath_def join_segments_def Let_def trim_def is_ws_def drive_prefix_def is_letter_def is_alnum_def
      is_digit_def startsWith_def kept_segment_def)

end
