(* ===== verification/Agent_Cache.thy ===== *)
theory Agent_Cache
  imports Js_Prelude "HOL-Library.Multiset"
begin

text \<open>
  The bounded cache of proxy agents, \<^verbatim>\<open>packages/proxy-agent/src/bounded-agent-cache.ts\<close> (the cache of dispatchers in
  \<^verbatim>\<open>packages/proxy-undici\<close> has the same code). Operations return the values handed to \<open>onEvict\<close>, in order. The
  eviction loop is a \<open>while\<close> loop and a partial function here: that it ends is proved below.
\<close>

definition DEFAULT_CACHE_ENTRIES :: int where
  "DEFAULT_CACHE_ENTRIES = 256"

definition normalizeCacheEntries :: "jsnum option \<Rightarrow> int" where
  "normalizeCacheEntries value =
     (case value of
        Some (Fin q) \<Rightarrow>
          (if q < 0 then DEFAULT_CACHE_ENTRIES
           else if \<not> isSafeInteger (JNum (Fin (of_int \<lfloor>q\<rfloor>))) then DEFAULT_CACHE_ENTRIES
           else \<lfloor>q\<rfloor>)
      | _ \<Rightarrow> DEFAULT_CACHE_ENTRIES)"

record ('k, 'v) agent_cache =
  ac_store :: "('k \<times> 'v) list"
  ac_maxEntries :: int

definition new_cache :: "int \<Rightarrow> ('k, 'v) agent_cache" where
  "new_cache n = \<lparr>ac_store = [], ac_maxEntries = n\<rparr>"

definition cache_clear :: "('k, 'v) agent_cache \<Rightarrow> ('k, 'v) agent_cache \<times> 'v list" where
  "cache_clear c = (c\<lparr>ac_store := []\<rparr>, map snd (ac_store c))"

definition cache_get :: "'k \<Rightarrow> ('k, 'v) agent_cache \<Rightarrow> 'v option \<times> ('k, 'v) agent_cache" where
  "cache_get k c =
     (case map_of (ac_store c) k of
        None \<Rightarrow> (None, c)
      | Some v \<Rightarrow> (Some v, c\<lparr>ac_store := mput (mdelete (ac_store c) k) k v\<rparr>))"

partial_function (option) evict_loop :: "int \<Rightarrow> ('k \<times> 'v) list \<Rightarrow> 'v list \<Rightarrow> (('k \<times> 'v) list \<times> 'v list) option" where
  "evict_loop n st evicted =
     (if int (length st) > n then
        (if st = [] then Some (st, evicted)
         else evict_loop n (mdelete st (fst (hd st))) (evicted @ [snd (hd st)]))
      else Some (st, evicted))"

declare evict_loop.simps [code]

definition cache_set :: "'k \<Rightarrow> 'v \<Rightarrow> ('k, 'v) agent_cache \<Rightarrow> (('k, 'v) agent_cache \<times> 'v list) option" where
  "cache_set k v c =
     (if ac_maxEntries c = 0 then Some (c, [])
      else (let (st1, evicted) = (case map_of (ac_store c) k of
                  None \<Rightarrow> (ac_store c, [])
                | Some prior \<Rightarrow> (mdelete (ac_store c) k, if prior \<noteq> v then [prior] else []))
            in map_option (\<lambda>(st, ev). (c\<lparr>ac_store := st\<rparr>, ev)) (evict_loop (ac_maxEntries c) (mput st1 k v) evicted)))"

section \<open>The loop\<close>

lemma mdelete_hd: "keys_distinct ((k, v) # st) \<Longrightarrow> mdelete ((k, v) # st) k = st"
  using filter_fst_noop [of k st] by (simp add: AList.delete_eq)

lemma evict_loop_result:
  "keys_distinct st \<Longrightarrow>
   evict_loop n st ev = Some (drop (length st - nat n) st, ev @ map snd (take (length st - nat n) st))"
proof (induction st arbitrary: ev)
  case Nil
  then show ?case by (simp add: evict_loop.simps)
next
  case (Cons e st)
  obtain k v where e: "e = (k, v)" by (cases e)
  have rest: "mdelete (e # st) k = st" using mdelete_hd [of k v st] Cons.prems e by simp
  show ?case
  proof (cases "int (length (e # st)) > n")
    case True
    then have "length (e # st) - nat n = Suc (length st - nat n)" by auto
    then show ?thesis using True rest e Cons.IH [of "ev @ [v]"] Cons.prems by (subst evict_loop.simps) simp
  next
    case False
    then show ?thesis by (subst evict_loop.simps) simp
  qed
qed

lemma mput_new: "k \<notin> fst ` set st \<Longrightarrow> mput st k v = st @ [(k, v)]"
  by (induction st) auto

lemma mdelete_filter: "mdelete st k = filter (\<lambda>e. fst e \<noteq> k) st"
  by (auto simp: AList.delete_eq intro: filter_cong)

lemma keys_distinct_set: "keys_distinct st \<Longrightarrow> k \<notin> fst ` set (mdelete st k)"
  by (auto simp: mdelete_filter)

section \<open>The interface of a cache that keeps the entries used last\<close>

locale recency_cache =
  fixes lookup_op :: "'k \<Rightarrow> 'c \<Rightarrow> 'v option \<times> 'c"
    and insert_op :: "'k \<Rightarrow> 'v \<Rightarrow> 'c \<Rightarrow> ('c \<times> 'v list) option"
    and entries :: "'c \<Rightarrow> ('k \<times> 'v) list"
    and room :: "'c \<Rightarrow> nat"
  assumes lookup_hit: "keys_distinct (entries c) \<Longrightarrow> map_of (entries c) k = Some v \<Longrightarrow>
      \<exists>c'. lookup_op k c = (Some v, c') \<and> entries c' = filter (\<lambda>e. fst e \<noteq> k) (entries c) @ [(k, v)] \<and> room c' = room c"
    and lookup_miss: "map_of (entries c) k = None \<Longrightarrow> lookup_op k c = (None, c)"
    and insert_new: "keys_distinct (entries c) \<Longrightarrow> map_of (entries c) k = None \<Longrightarrow> 0 < room c \<Longrightarrow>
      \<exists>c'. insert_op k v c = Some (c', map snd (take (Suc (length (entries c)) - room c) (entries c @ [(k, v)]))) \<and>
        entries c' = drop (Suc (length (entries c)) - room c) (entries c @ [(k, v)]) \<and> room c' = room c"

text \<open>What its clients do: look a key up, and on a miss create a value and insert it.\<close>

definition get_or_create ::
  "('k \<Rightarrow> 'c \<Rightarrow> 'v option \<times> 'c) \<Rightarrow> ('k \<Rightarrow> 'v \<Rightarrow> 'c \<Rightarrow> ('c \<times> 'v list) option) \<Rightarrow> 'k \<Rightarrow> 'v \<Rightarrow> 'c \<Rightarrow> ('c \<times> bool \<times> 'v list) option" where
  "get_or_create lk ins k v c =
     (case lk k c of
        (Some _, c1) \<Rightarrow> Some (c1, True, [])
      | (None, c1) \<Rightarrow> map_option (\<lambda>(c2, ev). (c2, False, ev)) (ins k v c1))"

fun use_cache ::
  "('k \<Rightarrow> 'c \<Rightarrow> 'v option \<times> 'c) \<Rightarrow> ('k \<Rightarrow> 'v \<Rightarrow> 'c \<Rightarrow> ('c \<times> 'v list) option) \<Rightarrow> ('k \<times> 'v) list \<Rightarrow> 'c \<Rightarrow> ('c \<times> 'v list \<times> 'v list) option" where
  "use_cache lk ins [] c = Some (c, [], [])"
| "use_cache lk ins ((k, v) # rs) c =
     (case get_or_create lk ins k v c of
        None \<Rightarrow> None
      | Some (c1, hit, ev) \<Rightarrow>
          map_option (\<lambda>(c2, made, evs). (c2, if hit then made else v # made, ev @ evs)) (use_cache lk ins rs c1))"

definition last_n :: "nat \<Rightarrow> 'a list \<Rightarrow> 'a list" where
  "last_n n xs = drop (length xs - n) xs"

lemma remdups_snoc: "remdups (xs @ [x]) = filter (\<lambda>y. y \<noteq> x) (remdups xs) @ [x]"
  by (induction xs) auto

lemma filter_noop: "x \<notin> set xs \<Longrightarrow> filter (\<lambda>y. y \<noteq> x) xs = xs"
  by (rule filter_True) auto

lemma length_filter_one: "distinct xs \<Longrightarrow> x \<in> set xs \<Longrightarrow> length (filter (\<lambda>y. y \<noteq> x) xs) = length xs - 1"
proof (induction xs)
  case (Cons y ys)
  then show ?case using filter_noop [of x ys] by (cases ys) auto
qed simp

text \<open>Using a key moves it to the end; only the oldest of the retained keys leaves.\<close>

lemma last_n_use:
  assumes d: "distinct R" and n: "0 < n"
  shows "last_n n (filter (\<lambda>y. y \<noteq> k) R @ [k]) =
    (if k \<in> set (last_n n R) then filter (\<lambda>y. y \<noteq> k) (last_n n R) @ [k]
     else drop (Suc (length (last_n n R)) - n) (last_n n R @ [k]))"
proof -
  define m where "m = length R - n"
  have R: "R = take m R @ last_n n R" by (simp add: last_n_def m_def)
  have dj: "set (take m R) \<inter> set (last_n n R) = {}" using d R by (metis distinct_append)
  have dl: "distinct (last_n n R)" using d by (simp add: last_n_def)
  consider (hit) "k \<in> set (last_n n R)" | (gone) "k \<in> set (take m R)" | (new) "k \<notin> set R" using R by (metis Un_iff set_append)
  then show ?thesis
  proof cases
    case hit
    have k: "k \<notin> set (take m R)" using dj hit by blast
    have f: "filter (\<lambda>y. y \<noteq> k) R = take m R @ filter (\<lambda>y. y \<noteq> k) (last_n n R)"
      using filter_noop [OF k] by (subst R) simp
    have "length (filter (\<lambda>y. y \<noteq> k) (last_n n R)) = length (last_n n R) - 1" "last_n n R \<noteq> []"
      using length_filter_one [OF dl hit] hit by auto
    then have "length (filter (\<lambda>y. y \<noteq> k) R @ [k]) = length R" using f by (simp add: last_n_def m_def)
    then have "last_n n (filter (\<lambda>y. y \<noteq> k) R @ [k]) = drop m (take m R @ filter (\<lambda>y. y \<noteq> k) (last_n n R) @ [k])"
      unfolding last_n_def [of n "filter (\<lambda>y. y \<noteq> k) R @ [k]"] by (simp add: f m_def)
    also have "\<dots> = filter (\<lambda>y. y \<noteq> k) (last_n n R) @ [k]" by (simp add: m_def)
    finally show ?thesis using hit by simp
  next
    case gone
    have k: "k \<notin> set (last_n n R)" using dj gone by blast
    have f: "filter (\<lambda>y. y \<noteq> k) R = filter (\<lambda>y. y \<noteq> k) (take m R) @ last_n n R"
      using filter_noop [OF k] by (subst R) simp
    have "m > 0" using gone by (cases m) auto
    then have m: "m > 0" "m \<le> length R" "length (last_n n R) = n" by (auto simp: m_def last_n_def)
    have l: "length (filter (\<lambda>y. y \<noteq> k) (take m R)) = m - 1"
      using length_filter_one [of "take m R" k] gone d m by simp
    have "length (filter (\<lambda>y. y \<noteq> k) R @ [k]) - n = m" using f l m by (simp add: m_def)
    then have "last_n n (filter (\<lambda>y. y \<noteq> k) R @ [k]) = drop m (filter (\<lambda>y. y \<noteq> k) (take m R) @ last_n n R @ [k])"
      unfolding last_n_def [of n "filter (\<lambda>y. y \<noteq> k) R @ [k]"] by (simp add: f)
    also have "\<dots> = drop 1 (last_n n R @ [k])" using l m(1) by simp
    finally show ?thesis using k m(3) by simp
  next
    case new
    then have k: "k \<notin> set (last_n n R)" using in_set_dropD by (fastforce simp: last_n_def)
    show ?thesis
    proof (cases "n \<le> length R")
      case True
      then have "Suc (length R) - n = Suc (length R - n)" by (simp add: Suc_diff_le)
      then show ?thesis using True k filter_noop [OF new] n by (simp add: last_n_def)
    next
      case False
      then show ?thesis using k filter_noop [OF new] by (simp add: last_n_def)
    qed
  qed
qed

lemma mset_split: "mset es = mset (filter P es) + mset (filter (\<lambda>e. \<not> P e) es)"
  by (induction es) auto

lemma filter_key: "keys_distinct es \<Longrightarrow> map_of es k = Some w \<Longrightarrow> filter (\<lambda>e. fst e = k) es = [(k, w)]"
  by (induction es) (auto simp: filter_empty_conv image_iff split: if_splits)

context recency_cache
begin

lemma get_or_create_step:
  assumes d: "keys_distinct (entries c)" and r: "0 < room c"
  shows "\<exists>c' hit ev. get_or_create lookup_op insert_op k v c = Some (c', hit, ev) \<and> room c' = room c \<and>
    keys_distinct (entries c') \<and> hit = (k \<in> set (map fst (entries c))) \<and>
    map fst (entries c') = (if hit then filter (\<lambda>y. y \<noteq> k) (map fst (entries c)) @ [k]
      else drop (Suc (length (entries c)) - room c) (map fst (entries c) @ [k])) \<and>
    (if hit then {#} else {#v#}) + mset (map snd (entries c)) = mset ev + mset (map snd (entries c'))"
proof (cases "map_of (entries c) k")
  case None
  then have k: "k \<notin> fst ` set (entries c)" by (simp add: map_of_eq_None_iff)
  obtain c' where c': "insert_op k v c = Some (c', map snd (take (Suc (length (entries c)) - room c) (entries c @ [(k, v)])))"
    "entries c' = drop (Suc (length (entries c)) - room c) (entries c @ [(k, v)])" "room c' = room c"
    using insert_new [OF d None r] by blast
  have "keys_distinct (entries c @ [(k, v)])" using d k by auto
  then have d': "keys_distinct (entries c')" unfolding c'(2) by (metis distinct_drop drop_map)
  have keys: "map fst (entries c') = drop (Suc (length (entries c)) - room c) (map fst (entries c) @ [k])"
  proof -
    have "map fst (entries c) @ [k] = map fst (entries c @ [(k, v)])" by simp
    then show ?thesis unfolding c'(2) by (simp only: drop_map)
  qed
  have parts: "mset (map snd (take q xs)) + mset (map snd (drop q xs)) = mset (map snd xs)" for q and xs :: "('k \<times> 'v) list"
    by (metis append_take_drop_id map_append mset_append)
  have vals: "mset (map snd (take (Suc (length (entries c)) - room c) (entries c @ [(k, v)])))
      + mset (map snd (entries c')) = {#v#} + mset (map snd (entries c))"
    unfolding c'(2) parts by simp
  have g: "get_or_create lookup_op insert_op k v c =
      Some (c', False, map snd (take (Suc (length (entries c)) - room c) (entries c @ [(k, v)])))"
    unfolding get_or_create_def lookup_miss [OF None] by (simp add: c'(1))
  show ?thesis
    unfolding g
    by (rule exI [of _ c'], rule exI [of _ False], rule exI, intro conjI)
      (use k d' keys vals [symmetric] c'(3) in \<open>simp_all only: if_False simp_thms set_map refl\<close>)
next
  case (Some w)
  then have k: "k \<in> fst ` set (entries c)" by (metis map_of_SomeD fst_conv image_eqI)
  obtain c' where c': "lookup_op k c = (Some w, c')" "entries c' = filter (\<lambda>e. fst e \<noteq> k) (entries c) @ [(k, w)]" "room c' = room c"
    using lookup_hit [OF d Some] by blast
  have f: "map fst (filter (\<lambda>e. fst e \<noteq> k) (entries c)) = filter (\<lambda>y. y \<noteq> k) (map fst (entries c))"
    by (simp add: filter_map comp_def)
  have "filter (\<lambda>e. fst e = k) (entries c) = [(k, w)]"
    by (rule filter_key [OF d Some])
  then have "mset (entries c) = mset (filter (\<lambda>e. fst e \<noteq> k) (entries c)) + {#(k, w)#}"
    using mset_split [of "entries c" "\<lambda>e. fst e = k"] by simp
  from arg_cong [OF this, of "image_mset snd"] have "mset (map snd (entries c)) = mset (map snd (entries c'))"
    unfolding c'(2) by (simp only: mset_map mset_append map_append image_mset_union list.map mset.simps image_mset_add_mset
        image_mset_empty snd_conv)
  moreover have "keys_distinct (entries c')" unfolding c'(2) using d by (simp add: f distinct_filter)
  ultimately show ?thesis using k c' f by (auto simp: get_or_create_def)
qed

lemma use_cache_lru:
  assumes d: "keys_distinct (entries c)" and r: "0 < room c" and start: "map fst (entries c) = last_n (room c) (remdups used)"
  shows "\<exists>c' made ev. use_cache lookup_op insert_op rs c = Some (c', made, ev) \<and> room c' = room c \<and> keys_distinct (entries c') \<and>
    map fst (entries c') = last_n (room c) (remdups (used @ map fst rs)) \<and>
    mset made + mset (map snd (entries c)) = mset ev + mset (map snd (entries c'))"
  using assms
proof (induction rs arbitrary: c used)
  case Nil
  then show ?case by simp
next
  case (Cons q rs)
  obtain k v where q: "q = (k, v)" by (cases q)
  obtain c1 hit ev where s: "get_or_create lookup_op insert_op k v c = Some (c1, hit, ev)" "room c1 = room c" "keys_distinct (entries c1)"
    "hit = (k \<in> set (map fst (entries c)))"
    "map fst (entries c1) = (if hit then filter (\<lambda>y. y \<noteq> k) (map fst (entries c)) @ [k]
      else drop (Suc (length (entries c)) - room c) (map fst (entries c) @ [k]))"
    "(if hit then {#} else {#v#}) + mset (map snd (entries c)) = mset ev + mset (map snd (entries c1))"
    using get_or_create_step [OF Cons.prems(1,2), of k v] by blast
  have len: "length (entries c) = length (last_n (room c) (remdups used))" using Cons.prems(3) by (metis length_map)
  have "map fst (entries c1) = last_n (room c1) (remdups (used @ [k]))"
    unfolding s(5) s(2) remdups_snoc
    using last_n_use [OF distinct_remdups [of used] Cons.prems(2), of k] s(4) Cons.prems(3) len by simp
  from Cons.IH [OF s(3) _ this] s(2) Cons.prems(2)
  obtain c' made evs where t: "use_cache lookup_op insert_op rs c1 = Some (c', made, evs)" "room c' = room c" "keys_distinct (entries c')"
    "map fst (entries c') = last_n (room c) (remdups ((used @ [k]) @ map fst rs))"
    "mset made + mset (map snd (entries c1)) = mset evs + mset (map snd (entries c'))"
    by auto
  have "mset (if hit then made else v # made) + mset (map snd (entries c))
      = mset made + ((if hit then {#} else {#v#}) + mset (map snd (entries c)))" by simp
  also have "\<dots> = mset ev + (mset made + mset (map snd (entries c1)))" unfolding s(6) by (rule union_lcomm)
  also have "\<dots> = mset (ev @ evs) + mset (map snd (entries c'))" unfolding t(5) by (simp only: mset_append union_assoc)
  finally have "mset (if hit then made else v # made) + mset (map snd (entries c)) = mset (ev @ evs) + mset (map snd (entries c'))" .
  then show ?case using s(1) t q by simp
qed

end

interpretation ac: recency_cache cache_get cache_set ac_store "\<lambda>c. nat (ac_maxEntries c)"
proof
  fix c :: "('k, 'v) agent_cache" and k v
  assume d: "keys_distinct (ac_store c)" and h: "map_of (ac_store c) k = Some v"
  show "\<exists>c'. cache_get k c = (Some v, c') \<and> ac_store c' = filter (\<lambda>e. fst e \<noteq> k) (ac_store c) @ [(k, v)] \<and>
      nat (ac_maxEntries c') = nat (ac_maxEntries c)"
    using h mput_new [OF keys_distinct_set [OF d], of k v] by (simp add: cache_get_def mdelete_filter)
next
  fix c :: "('k, 'v) agent_cache" and k
  assume "map_of (ac_store c) k = None"
  then show "cache_get k c = (None, c)" by (simp add: cache_get_def)
next
  fix c :: "('k, 'v) agent_cache" and k v
  assume d: "keys_distinct (ac_store c)" and h: "map_of (ac_store c) k = None" and r: "0 < nat (ac_maxEntries c)"
  have k: "k \<notin> fst ` set (ac_store c)" using h by (simp add: map_of_eq_None_iff)
  have "keys_distinct (ac_store c @ [(k, v)])" using d k by auto
  from evict_loop_result [OF this, of "ac_maxEntries c" "[]"] show "\<exists>c'. cache_set k v c =
      Some (c', map snd (take (Suc (length (ac_store c)) - nat (ac_maxEntries c)) (ac_store c @ [(k, v)]))) \<and>
      ac_store c' = drop (Suc (length (ac_store c)) - nat (ac_maxEntries c)) (ac_store c @ [(k, v)]) \<and>
      nat (ac_maxEntries c') = nat (ac_maxEntries c)"
    using h r mput_new [OF k, of v] by (auto simp: cache_set_def)
qed

text \<open>
  C39: the cache terminates and keeps exactly the entries used last. For a cache of positive capacity \<open>n\<close>, every sequence of
  look-ups that create and insert on a miss comes to an end, and the eviction loop with it. Afterwards the keys are the \<open>n\<close>
  different keys used last, in the order of their last use, and every value ever created is either in the cache or was
  handed to \<open>onEvict\<close> exactly once.
\<close>

theorem cache_terminates_with_last_used:
  assumes "0 < n"
  shows "\<exists>c made ev. use_cache cache_get cache_set rs (new_cache n) = Some (c, made, ev) \<and>
    map fst (ac_store c) = last_n (nat n) (remdups (map fst rs)) \<and>
    mset made = mset ev + mset (map snd (ac_store c))"
proof -
  have "keys_distinct (ac_store (new_cache n))" "0 < nat (ac_maxEntries (new_cache n))"
    "map fst (ac_store (new_cache n)) = last_n (nat (ac_maxEntries (new_cache n))) (remdups [])"
    using assms by (simp_all add: new_cache_def last_n_def)
  from ac.use_cache_lru [OF this, of rs] show ?thesis by (auto simp: new_cache_def)
qed

theorem cache_terminates_with_last_used_witness:
  "\<exists>c made ev. use_cache cache_get cache_set [(''a'', 1 :: int), (''b'', 2), (''a'', 3), (''c'', 4)] (new_cache 2) = Some (c, made, ev) \<and>
    map fst (ac_store c) = [''a'', ''c''] \<and> mset made = mset ev + mset (map snd (ac_store c))"
proof -
  have "last_n (nat 2) (remdups (map fst [(''a'', 1 :: int), (''b'', 2), (''a'', 3), (''c'', 4)])) = [''a'', ''c'']"
    by (simp add: last_n_def)
  then show ?thesis
    using cache_terminates_with_last_used [of 2 "[(''a'', 1 :: int), (''b'', 2), (''a'', 3), (''c'', 4)]"] by simp
qed

end
