(* ===== verification/Agent_Dispatch.thy ===== *)
theory Agent_Dispatch
  imports Agent_Brief
begin

text \<open>
  Dispatch of a brief to an agent, \<^verbatim>\<open>src/orchestration/agent-dispatch.ts\<close>: the task is given or read back from the \<open>Task:\<close> section of
  the brief, the owned paths are normalised again, and both go into the message and the metadata of the agent.
\<close>

section \<open>Texts\<close>

definition DISPATCH_SAFETY_NOTICE :: string where
  "DISPATCH_SAFETY_NOTICE = ''You are NOT alone in the codebase; ignore edits by others unless overlapping your owned files.''"

abbreviation carriage_return :: char where
  "carriage_return \<equiv> CHR 0x0D"

text \<open>\<open>replace(/\r\n/g, "\n")\<close>.\<close>

fun unix_lines :: "string \<Rightarrow> string" where
  "unix_lines (a # b # s) =
     (if a = carriage_return \<and> b = newline then newline # unix_lines s else a # unix_lines (b # s))"
| "unix_lines s = s"

definition rstrip :: "string \<Rightarrow> string" where
  "rstrip s = rev (dropWhile is_ws (rev s))"

definition heading_char :: "char \<Rightarrow> bool" where
  "heading_char c \<longleftrightarrow> is_alnum c \<or> c \<in> set '' _/-''"

text \<open>\<open>SECTION_HEADING_PATTERN\<close>: a letter, more characters of a title, a colon and white space.\<close>

definition section_heading :: "string \<Rightarrow> bool" where
  "section_heading line \<longleftrightarrow>
     (let t = rstrip line; title = butlast t
      in t \<noteq> [] \<and> last t = CHR '':'' \<and> title \<noteq> [] \<and> is_letter (hd title) \<and> list_all heading_char (tl title))"

definition bare_task_heading :: "string \<Rightarrow> bool" where
  "bare_task_heading line \<longleftrightarrow> toLowerCase (rstrip line) = ''task:''"

definition isSectionBoundary :: "string \<Rightarrow> bool" where
  "isSectionBoundary line \<longleftrightarrow>
     (let trimmed = trim line in trimmed \<noteq> [] \<and> section_heading trimmed \<and> \<not> bare_task_heading trimmed)"

text \<open>\<open>TASK_HEADING_PATTERN\<close>: the text behind the heading, which has no line break.\<close>

definition task_heading :: "string \<Rightarrow> string option" where
  "task_heading line =
     (let t = dropWhile is_ws line; rest = dropWhile is_ws (drop 5 t)
      in if toLowerCase (take 5 t) = ''task:'' \<and> one_line rest then Some rest else None)"

definition normalizeMultilineText :: "string \<Rightarrow> string \<Rightarrow> (string, string) result" where
  "normalizeMultilineText raw fieldName = bind_result (brief_required raw fieldName) (\<lambda>t. Inr (trim (unix_lines t)))"

definition section_task :: "string \<Rightarrow> string list \<Rightarrow> (string, string) result" where
  "section_task inline following =
     (let collected = (if trim inline = [] then [] else [trim inline]) @ takeWhile (\<lambda>l. \<not> isSectionBoundary l) following;
          task = trim (join [newline] collected)
      in if task = [] then Inl ''Task section is present but empty.'' else Inr task)"

fun find_task :: "string list \<Rightarrow> (string, string) result" where
  "find_task [] = Inl ''Task is required. Provide `task` explicitly or include a \"Task:\" section in `briefBody`.''"
| "find_task (line # following) =
     (case task_heading line of None \<Rightarrow> find_task following | Some inline \<Rightarrow> section_task inline following)"

definition parseTaskFromBrief :: "string \<Rightarrow> (string, string) result" where
  "parseTaskFromBrief briefBody =
     bind_result (normalizeMultilineText briefBody ''briefBody'') (\<lambda>body. find_task (split_on newline body))"

section \<open>Templates\<close>

text \<open>The function of this file repeats \<open>normalizeScopedPath\<close> of the briefs line by line.\<close>

definition normalizeOwnedPath :: "string \<Rightarrow> string \<Rightarrow> (string, string) result" where
  "normalizeOwnedPath rawPath fieldName = normalizeScopedPath rawPath fieldName"

fun owned_set :: "nat \<Rightarrow> string list \<Rightarrow> string list \<Rightarrow> (string, string list) result" where
  "owned_set i [] known = Inr known"
| "owned_set i (p # ps) known =
     bind_result (normalizeOwnedPath p (indexed_field ''ownedPaths'' i)) (\<lambda>n. owned_set (Suc i) ps (sadd known n))"

text \<open>The second check of the code for an empty result cannot fail.\<close>

definition validateOwnedPaths :: "string list \<Rightarrow> (string, string list) result" where
  "validateOwnedPaths ownedPaths =
     (if ownedPaths = [] then Inl ''At least one owned path is required.''
      else bind_result (owned_set 0 ownedPaths []) (\<lambda>known. Inr (sort known)))"

definition normalizeInstructionList :: "string list option \<Rightarrow> string list" where
  "normalizeInstructionList raw = sort (fold (\<lambda>v known. add_text known v) (or_default raw []) [])"

record dispatch_input =
  di_agentType :: string
  di_task :: "string option"
  di_owner :: string
  di_ownedPaths :: "string list"
  di_briefBody :: string
  di_instructions :: "string list option"

record template_metadata =
  tm_task :: string
  tm_owner :: string
  tm_owned_files :: "string list"
  tm_additional_instructions :: "string list"
  tm_safety_notice :: string
  tm_brief_body :: string

record spawn_template =
  sa_agent_type :: string
  sa_message :: string
  sa_metadata :: template_metadata

definition renderDispatchMessage :: "string \<Rightarrow> string \<Rightarrow> string list \<Rightarrow> string list \<Rightarrow> string \<Rightarrow> string" where
  "renderDispatchMessage task owner ownedFiles instructions briefBody =
     join [newline] ([''Task:'', task, [], ''Owner:'', owner, [], ''Owned Files:''] @ map (\<lambda>p. ''- '' @ p) ownedFiles
       @ [[], ''Additional Instructions:''] @ renderBulletSection instructions
       @ [[], ''Safety Notice:'', DISPATCH_SAFETY_NOTICE, [], ''Brief Body:'', briefBody]) @ [newline]"

definition dispatch_task :: "string option \<Rightarrow> string \<Rightarrow> (string, string) result" where
  "dispatch_task task briefBody =
     (if or_default task [] \<noteq> [] then normalizeMultilineText (or_default task []) ''task'' else parseTaskFromBrief briefBody)"

definition buildAgentDispatchMessage :: "dispatch_input \<Rightarrow> (string, string) result" where
  "buildAgentDispatchMessage input =
     bind_result (brief_required (di_owner input) ''owner'') (\<lambda>owner.
     bind_result (normalizeMultilineText (di_briefBody input) ''briefBody'') (\<lambda>briefBody.
     bind_result (validateOwnedPaths (di_ownedPaths input)) (\<lambda>ownedFiles.
     bind_result (dispatch_task (di_task input) briefBody) (\<lambda>task.
     Inr (renderDispatchMessage task owner ownedFiles (normalizeInstructionList (di_instructions input)) briefBody)))))"

definition buildSpawnAgentTemplate :: "dispatch_input \<Rightarrow> (string, spawn_template) result" where
  "buildSpawnAgentTemplate input =
     bind_result (brief_required (di_agentType input) ''agentType'') (\<lambda>agentType.
     bind_result (brief_required (di_owner input) ''owner'') (\<lambda>owner.
     bind_result (normalizeMultilineText (di_briefBody input) ''briefBody'') (\<lambda>briefBody.
     bind_result (validateOwnedPaths (di_ownedPaths input)) (\<lambda>ownedFiles.
     bind_result (dispatch_task (di_task input) briefBody) (\<lambda>task.
     let instructions = normalizeInstructionList (di_instructions input)
     in Inr \<lparr>sa_agent_type = agentType, sa_message = renderDispatchMessage task owner ownedFiles instructions briefBody,
       sa_metadata = \<lparr>tm_task = task, tm_owner = owner, tm_owned_files = ownedFiles, tm_additional_instructions = instructions,
         tm_safety_notice = DISPATCH_SAFETY_NOTICE, tm_brief_body = briefBody\<rparr>\<rparr>)))))"

section \<open>A brief dispatched\<close>

lemma rstrip_append: "x \<in> set b \<Longrightarrow> \<not> is_ws x \<Longrightarrow> rstrip (a @ b) = a @ rstrip b"
  by (simp add: rstrip_def dropWhile_append1)

lemma trim_keeps:
  assumes "a \<noteq> []" "\<not> is_ws (hd a)" "x \<in> set b" "\<not> is_ws x"
  shows "trim (a @ b) = a @ rstrip b"
proof -
  have "dropWhile is_ws (a @ b) = a @ b" using assms(1,2) by (intro dropWhile_id) simp
  then have "trim (a @ b) = rstrip (a @ b)" by (simp add: trim_def rstrip_def)
  then show ?thesis using rstrip_append [OF assms(3,4)] by simp
qed

lemma rstrip_Cons: "\<not> is_ws c \<Longrightarrow> rstrip (c # s) = c # rstrip s"
  by (simp add: rstrip_def dropWhile_append)

lemma unix_lines_keeps: "carriage_return \<notin> set a \<Longrightarrow> unix_lines (a @ b) = a @ unix_lines b"
proof (induction a)
  case (Cons x a)
  then show ?case by (cases "a @ b") auto
qed simp

lemma unix_lines_Cons: "c \<noteq> carriage_return \<Longrightarrow> unix_lines (c # s) = c # unix_lines s"
  by (cases s) auto

text \<open>Normalising a text keeps a part of it without carriage returns that something visible follows.\<close>

lemma normalize_keeps:
  assumes "a \<noteq> []" "\<not> is_ws (hd a)" "carriage_return \<notin> set a" "\<not> is_ws c"
  shows "\<exists>r'. normalizeMultilineText (a @ c # r) f = Inr (a @ c # r')"
proof -
  have cr: "c \<noteq> carriage_return" using assms(4) by (auto simp: is_ws_def)
  have "trim (a @ c # r) = a @ c # rstrip r" using trim_keeps [of a c "c # r"] assms by (simp add: rstrip_Cons)
  moreover have "unix_lines (a @ c # rstrip r) = a @ c # unix_lines (rstrip r)"
    using assms(3) cr by (simp add: unix_lines_keeps unix_lines_Cons)
  moreover have "trim (a @ c # unix_lines (rstrip r)) = a @ c # rstrip (unix_lines (rstrip r))"
    using trim_keeps [of a c "c # unix_lines (rstrip r)"] assms by (simp add: rstrip_Cons)
  ultimately show ?thesis by (simp add: normalizeMultilineText_def brief_required_def)
qed

definition task_block :: "string \<Rightarrow> string" where
  "task_block task = ''Task:'' @ newline # task @ newline # newline # ''Owner:'' @ [newline]"

lemma task_block_read:
  assumes "trim task = task" "task \<noteq> []" "list_all (\<lambda>l. \<not> isSectionBoundary l) (split_on newline task)"
  shows "find_task (split_on newline (task_block task @ r)) = Inr task"
proof -
  have "split_on newline (task @ newline # newline # ''Owner:'' @ newline # r) = split_on newline task @ [] # ''Owner:'' # split_on newline r"
    using split_on_app [of newline task] split_on_append_sep [of newline "''Owner:''" r] by simp
  then have lines: "split_on newline (task_block task @ r) = ''Task:'' # split_on newline task @ [] # ''Owner:'' # split_on newline r"
    using split_on_append_sep [of newline "''Task:''"] by (simp add: task_block_def)
  have facts: "task_heading ''Task:'' = Some []" "isSectionBoundary ''Owner:''" "\<not> isSectionBoundary []" by code_simp+
  have taken: "takeWhile (\<lambda>l. \<not> isSectionBoundary l) (split_on newline task @ [] # ''Owner:'' # split_on newline r) = split_on newline task @ [[]]"
    using assms(3) facts by (simp add: takeWhile_append list_all_iff)
  have "join [newline] (split_on newline task @ [[]]) = task @ [newline]" by (simp add: join_app)
  moreover have "trim (task @ [newline]) = task"
  proof -
    have t: "\<not> is_ws (hd task)" "\<not> is_ws (last task)" using assms(1,2) trim_eq_iff by auto
    then have "dropWhile is_ws (task @ [newline]) = task @ [newline]" "dropWhile is_ws (rev task) = rev task"
      using assms(2) by (auto intro!: dropWhile_id simp: hd_rev)
    then show ?thesis by (simp add: trim_def is_ws_def)
  qed
  ultimately show ?thesis using assms(2) facts(1) taken by (simp add: lines section_task_def)
qed

lemma brief_text_block:
  assumes "owner = c # cs"
  shows "\<exists>r. renderAgentBriefText task owner files criteria risks snippets = task_block task @ c # r"
  by (simp add: renderAgentBriefText_def task_block_def assms)

lemma owned_set_ok:
  "map (\<lambda>p. normalizeScopedPath p []) ps = map Inr ns \<Longrightarrow> distinct (known @ ns) \<Longrightarrow> owned_set i ps known = Inr (known @ ns)"
proof (induction ps arbitrary: i ns known)
  case (Cons p ps)
  then obtain n ms where n: "ns = n # ms" "normalizeScopedPath p [] = Inr n" "map (\<lambda>p. normalizeScopedPath p []) ps = map Inr ms"
    by (cases ns) auto
  have "sadd known n = known @ [n]" using Cons.prems(2) n(1) by (simp add: sadd_def)
  then show ?case using Cons.IH [OF n(3), of "known @ [n]"] Cons.prems(2) n(1) normalizeScopedPath_field [OF n(2)]
    by (simp add: normalizeOwnedPath_def)
qed simp

text \<open>
  A brief that is dispatched keeps its task, its owner and its files. The template built from the text of a brief, without a
  task given, exists and carries the task of the brief, read back from its text, the owner, and as owned files exactly those the brief was
  filtered for; provided the task has no carriage return and none of its lines is a section heading.
\<close>

theorem dispatch_keeps_brief:
  assumes "buildAgentBrief capsule ownedPaths = Inr b" "trim agentType \<noteq> []"
    and "carriage_return \<notin> set (ab_task b)" "list_all (\<lambda>l. \<not> isSectionBoundary l) (split_on newline (ab_task b))"
  shows "\<exists>t. buildSpawnAgentTemplate \<lparr>di_agentType = agentType, di_task = None, di_owner = tc_owner capsule, di_ownedPaths = ownedPaths,
      di_briefBody = ab_text b, di_instructions = instructions\<rparr> = Inr t
    \<and> tm_task (sa_metadata t) = ab_task b \<and> tm_owner (sa_metadata t) = ab_owner b \<and> tm_owned_files (sa_metadata t) = ab_ownedFiles b"
proof -
  let ?a = "task_block (ab_task b)"
  have b: "ab_task b = trim (tc_goal capsule)" "ab_task b \<noteq> []" "ab_owner b = trim (tc_owner capsule)" "ab_owner b \<noteq> []"
    "validateAgentOwnedPaths (tc_paths capsule) ownedPaths = Inr (ab_ownedFiles b)"
    and rendered: "ab_text b = renderAgentBriefText (ab_task b) (ab_owner b) (ab_ownedFiles b) (ab_acceptanceCriteria b) (ab_risks b) (ab_relevantSnippets b)"
    using assms(1) by (auto simp: buildAgentBrief_def bind_result_Inr Let_def brief_required_def split: if_splits)
  obtain c cs where c: "ab_owner b = c # cs" using b(4) by (cases "ab_owner b") auto
  have vis: "\<not> is_ws c" using trim_hd [of "tc_owner capsule", folded b(3)] c by simp
  have a: "?a \<noteq> []" "\<not> is_ws (hd ?a)" "carriage_return \<notin> set ?a" using assms(3) by (auto simp: task_block_def is_ws_def)
  obtain r where r: "ab_text b = ?a @ c # r" using brief_text_block [OF c] rendered by metis
  obtain r1 where n1: "normalizeMultilineText (ab_text b) ''briefBody'' = Inr (?a @ c # r1)" using normalize_keeps [OF a vis] r by metis
  obtain r2 where n2: "normalizeMultilineText (?a @ c # r1) ''briefBody'' = Inr (?a @ c # r2)" using normalize_keeps [OF a vis] by metis
  have "trim (ab_task b) = ab_task b" using b(1) by simp
  then have task: "dispatch_task None (?a @ c # r1) = Inr (ab_task b)"
    using task_block_read [of "ab_task b" "c # r2"] b(2) assms(4) by (simp add: dispatch_task_def or_default_def parseTaskFromBrief_def n2)
  obtain ns where ns: "ab_ownedFiles b = sort ns" "ns \<noteq> []" "distinct ns" "map (\<lambda>p. normalizeScopedPath p []) ownedPaths = map Inr ns"
    using validate_owned_spec [OF b(5)] by blast
  then have "validateOwnedPaths ownedPaths = Inr (ab_ownedFiles b)"
    using owned_set_ok [OF ns(4), of "[]" 0] by (auto simp: validateOwnedPaths_def)
  then show ?thesis using n1 task b(3,4) assms(2) by (simp add: buildSpawnAgentTemplate_def brief_required_def Let_def)
qed

theorem dispatch_keeps_brief_witness:
  "\<exists>t. buildSpawnAgentTemplate \<lparr>di_agentType = ''worker'', di_task = None, di_owner = ''core'', di_ownedPaths = ['' ./src/features/ ''],
      di_briefBody = ab_text demo_brief, di_instructions = None\<rparr> = Inr t
    \<and> tm_task (sa_metadata t) = ''Ship it'' \<and> tm_owned_files (sa_metadata t) = [''src/features'']"
proof -
  have "trim ''worker'' \<noteq> []" "carriage_return \<notin> set ''Ship it''" "tc_owner demo_brief_capsule = ''core''"
    "list_all (\<lambda>l. \<not> isSectionBoundary l) (split_on newline ''Ship it'')"
    by code_simp+
  then have "\<exists>t. buildSpawnAgentTemplate \<lparr>di_agentType = ''worker'', di_task = None, di_owner = ''core'', di_ownedPaths = ['' ./src/features/ ''],
      di_briefBody = ab_text demo_brief, di_instructions = None\<rparr> = Inr t
    \<and> tm_task (sa_metadata t) = ''Ship it'' \<and> tm_owner (sa_metadata t) = ab_owner demo_brief \<and> tm_owned_files (sa_metadata t) = [''src/features'']"
    using dispatch_keeps_brief [OF demo_brief_built, of "''worker''" None, unfolded demo_brief_fields] by (simp only: simp_thms)
  then show ?thesis by blast
qed

text \<open>A task whose first line looks like a heading is lost between brief and dispatch.\<close>

theorem heading_loses_task:
  "parseTaskFromBrief (renderAgentBriefText (''Fix:'' @ newline # ''the parser'') ''core'' [''src''] [] [] [])
     = Inl ''Task section is present but empty.''"
  by code_simp

end
