(* ===== verification/Bridge_Http.thy ===== *)
theory Bridge_Http
  imports Config
begin

text \<open>
  The HTTP side of the bridge server, the request handler and the upgrade handler of \<^verbatim>\<open>src/server/bridge-server.ts\<close>: the health document and the
  files of the web application. The path functions of the platform are those of POSIX. \<open>decode\<close> is \<open>decodeURIComponent\<close>, nothing when it
  throws; \<open>read\<close> gives the bytes of a file, nothing when it cannot be read. Symbolic links are not represented.
\<close>

section \<open>Paths\<close>

text \<open>The segments of a path after \<open>.\<close> and \<open>..\<close> are resolved; \<open>outside\<close> keeps the \<open>..\<close> that lead out of it.\<close>

fun norm_segs :: "bool \<Rightarrow> string list \<Rightarrow> string list \<Rightarrow> string list" where
  "norm_segs outside acc [] = rev acc"
| "norm_segs outside acc (s # ss) =
     (if s = [] \<or> s = ''.'' then norm_segs outside acc ss
      else if s = ''..'' then
        (if acc \<noteq> [] \<and> hd acc \<noteq> ''..'' then norm_segs outside (tl acc) ss
         else if outside then norm_segs outside (''..'' # acc) ss
         else norm_segs outside acc ss)
      else norm_segs outside (s # acc) ss)"

definition path_segments :: "string \<Rightarrow> string list" where
  "path_segments p = split_on CHR ''/'' p"

definition path_normalize :: "string \<Rightarrow> string" where
  "path_normalize p =
     (let isAbsolute = startsWith p ''/''; trailing = endsWith p ''/'';
          q = join ''/'' (norm_segs (\<not> isAbsolute) [] (path_segments p))
      in if p = [] then ''.''
         else if q = [] then (if isAbsolute then ''/'' else if trailing then ''./'' else ''.'')
         else (if isAbsolute then ''/'' else []) @ q @ (if trailing then ''/'' else []))"

text \<open>\<open>resolve(base, rel)\<close> for an absolute base.\<close>

definition path_resolve :: "string \<Rightarrow> string \<Rightarrow> string" where
  "path_resolve base rel = CHR ''/'' # join ''/'' (norm_segs False [] (path_segments (if startsWith rel ''/'' then rel else base @ ''/'' @ rel)))"

definition extname :: "string \<Rightarrow> string" where
  "extname p =
     (let base = last (path_segments p); ext = CHR ''.'' # rev (takeWhile (\<lambda>c. c \<noteq> CHR ''.'') (rev base))
      in if CHR ''.'' \<notin> set base \<or> base = ''..'' \<or> length base = length ext then [] else ext)"

section \<open>Replies\<close>

record http_request =
  hr_method :: string
  hr_url :: string

record health_payload =
  hp_status :: severity
  hp_uptimeMs :: int
  hp_clients :: nat
  hp_panesAttached :: nat
  hp_transportMode :: string
  hp_runtimeBackends :: "string list"
  hp_globalInputDisabled :: bool
  hp_engine :: "nat \<times> bool"
  hp_telemetry :: telemetry_snapshot
  hp_timestamp :: int

datatype http_body = No_body | Health_body health_payload | File_body string "nat list" | Error_body string

record http_reply =
  re_status :: nat
  re_headers :: "(string \<times> string) list"
  re_body :: http_body

definition STATIC_CONTENT_TYPES :: "(string \<times> string) list" where
  "STATIC_CONTENT_TYPES = [(''.html'', ''text/html; charset=utf-8''), (''.js'', ''text/javascript; charset=utf-8''),
     (''.mjs'', ''text/javascript; charset=utf-8''), (''.css'', ''text/css; charset=utf-8''), (''.json'', ''application/json; charset=utf-8''),
     (''.svg'', ''image/svg+xml''), (''.ico'', ''image/x-icon'')]"

definition not_found :: http_reply where
  "not_found = \<lparr>re_status = 404, re_headers = [(''content-type'', ''application/json'')], re_body = Error_body ''not_found''\<rparr>"

text \<open>The checked path of a file request; nothing when decoding throws or the path is forbidden.\<close>

definition static_target :: "(string \<Rightarrow> string option) \<Rightarrow> string \<Rightarrow> string \<Rightarrow> string option" where
  "static_target decode base rawRelativePath =
     (case decode rawRelativePath of
        None \<Rightarrow> None
      | Some d \<Rightarrow>
          (let safeRelativePath = dropWhile (\<lambda>c. c = CHR ''/'' \<or> (of_char c :: nat) = 92) (path_normalize d);
               targetPath = path_resolve base safeRelativePath
           in if safeRelativePath = [] \<or> startsWith safeRelativePath ''..'' \<or>
                 targetPath \<noteq> base \<and> \<not> startsWith targetPath (base @ ''/'') then None
              else Some targetPath))"

definition file_reply :: "string \<Rightarrow> nat list \<Rightarrow> http_reply" where
  "file_reply filePath body =
     (let extension = toLowerCase (extname filePath)
      in \<lparr>re_status = 200,
          re_headers = [(''content-type'', case map_of STATIC_CONTENT_TYPES extension of None \<Rightarrow> ''application/octet-stream'' | Some t \<Rightarrow> t),
            (''cache-control'', if extension = ''.html'' then ''no-cache'' else ''public, max-age=3600''),
            (''x-content-type-options'', ''nosniff'')],
          re_body = File_body filePath body\<rparr>)"

definition serve_file :: "(string \<Rightarrow> string option) \<Rightarrow> (string \<Rightarrow> nat list option) \<Rightarrow> string \<Rightarrow> string \<Rightarrow> http_reply" where
  "serve_file decode read base rawRelativePath =
     (case static_target decode base rawRelativePath of
        None \<Rightarrow> not_found
      | Some targetPath \<Rightarrow>
          (case read targetPath of
             Some body \<Rightarrow> file_reply targetPath body
           | None \<Rightarrow>
               (case read (path_resolve targetPath ''index.html'') of
                  Some body \<Rightarrow> file_reply (path_resolve targetPath ''index.html'') body
                | None \<Rightarrow> not_found)))"

definition health_of :: "(rat \<Rightarrow> string) \<Rightarrow> bridge_config \<Rightarrow> int \<Rightarrow> int \<Rightarrow> server \<Rightarrow> health_payload" where
  "health_of show_num c startupTs now s =
     (let snapshot = getSafeSnapshot show_num (telemetry s) (length (clients s)) now now
      in \<lparr>hp_status = st_overall (ts_status snapshot), hp_uptimeMs = now - startupTs, hp_clients = length (clients s),
          hp_panesAttached = sum_list (map (\<lambda>(_, cl). length (attachedPanes cl)) (clients s)),
          hp_transportMode = cfg_transportMode c, hp_runtimeBackends = cfg_runtimeBackends c,
          hp_globalInputDisabled = cfg_globalInputDisabled c, hp_engine = getStats (engine s), hp_telemetry = snapshot, hp_timestamp = now\<rparr>)"

definition http_handler ::
  "(rat \<Rightarrow> string) \<Rightarrow> (string \<Rightarrow> string option) \<Rightarrow> (string \<Rightarrow> nat list option) \<Rightarrow> bridge_config \<Rightarrow> string \<Rightarrow> int \<Rightarrow> int \<Rightarrow> server \<Rightarrow> http_request \<Rightarrow> http_reply" where
  "http_handler show_num decode read c base startupTs now s rq =
     (let requestPath = hd (split_on CHR ''?'' (hr_url rq))
      in if hr_method rq = ''GET'' \<and> hr_url rq = ''/health'' then
           \<lparr>re_status = 200, re_headers = [(''content-type'', ''application/json'')], re_body = Health_body (health_of show_num c startupTs now s)\<rparr>
         else if cfg_appStaticEnabled c \<and> hr_method rq = ''GET'' \<and> hr_url rq \<noteq> [] then
           (if requestPath = ''/'' \<or> requestPath = ''/app'' then \<lparr>re_status = 308, re_headers = [(''location'', ''/app/'')], re_body = No_body\<rparr>
            else if requestPath = ''/app/'' \<or> startsWith requestPath ''/app/'' then
              serve_file decode read base (if requestPath = ''/app/'' then ''index.html'' else drop 5 requestPath)
            else not_found)
         else not_found)"

text \<open>Whether an upgrade request becomes a WebSocket connection; otherwise its socket is destroyed.\<close>

definition upgrade_accepted :: "http_request \<Rightarrow> bool" where
  "upgrade_accepted rq \<longleftrightarrow> hr_url rq = ''/ws''"

section \<open>Files stay below the root\<close>

definition clean_segment :: "string \<Rightarrow> bool" where
  "clean_segment s \<longleftrightarrow> s \<noteq> [] \<and> s \<noteq> ''.'' \<and> s \<noteq> ''..'' \<and> CHR ''/'' \<notin> set s"

text \<open>The absolute paths that \<open>resolve\<close> returns, apart from the root of the file system.\<close>

definition absolute_clean :: "string \<Rightarrow> bool" where
  "absolute_clean p \<longleftrightarrow> (case path_segments p of [] \<Rightarrow> False | r # segs \<Rightarrow> r = [] \<and> segs \<noteq> [] \<and> list_all clean_segment segs)"

lemma norm_segs_clean:
  "\<lbrakk>list_all clean_segment acc; list_all (\<lambda>s. CHR ''/'' \<notin> set s) ss\<rbrakk> \<Longrightarrow> list_all clean_segment (norm_segs False acc ss)"
proof (induction ss arbitrary: acc)
  case (Cons s ss)
  have "list_all clean_segment (tl acc)" using Cons.prems(1) by (cases acc) auto
  moreover have "clean_segment s" if "s \<noteq> []" "s \<noteq> ''.''" "s \<noteq> ''..''" using that Cons.prems(2) by (simp add: clean_segment_def)
  ultimately show ?case using Cons.prems Cons.IH [of acc] Cons.IH [of "tl acc"] Cons.IH [of "s # acc"] by auto
qed (simp add: list_all_iff)

lemma norm_segs_fixed: "list_all clean_segment ss \<Longrightarrow> norm_segs False acc ss = rev acc @ ss"
  by (induction ss arbitrary: acc) (auto simp: clean_segment_def)

lemma resolve_segments: "\<exists>ss. path_resolve base rel = CHR ''/'' # join ''/'' ss \<and> list_all clean_segment ss"
  unfolding path_resolve_def path_segments_def
  by (intro exI conjI, rule refl, rule norm_segs_clean) (auto simp: list_all_iff split_on_parts)

lemma segments_of_clean:
  "list_all clean_segment ss \<Longrightarrow> ss \<noteq> [] \<Longrightarrow> path_segments (CHR ''/'' # join ''/'' ss) = [] # ss"
  using split_on_append_sep [of "CHR ''/''" "[]" "join ''/'' ss"] split_on_join [of ss "CHR ''/''"]
  by (auto simp: path_segments_def list_all_iff clean_segment_def)

lemma split_on_sep: "split_on c (a @ c # b) = split_on c a @ split_on c b"
  by (induction a) (auto split: list.splits)

lemma absolute_cleanE:
  assumes "absolute_clean p"
  obtains ss where "p = CHR ''/'' # join ''/'' ss" "ss \<noteq> []" "list_all clean_segment ss" "path_segments p = [] # ss"
proof -
  obtain ss where ss: "path_segments p = [] # ss" "ss \<noteq> []" "list_all clean_segment ss"
    using assms by (auto simp: absolute_clean_def split: list.splits)
  have "p = join ''/'' ([] # ss)" using ss(1) by (metis join_split_on path_segments_def)
  then have "p = CHR ''/'' # join ''/'' ss" using ss(2) by (cases ss) auto
  then show ?thesis using ss that by blast
qed

lemma split_hd_prefix: "\<exists>t. s = hd (split_on c s) @ t"
  by (induction s) (auto split: list.splits)

lemma join_clean:
  assumes "list_all clean_segment rs" "rs \<noteq> []"
  shows "join ''/'' rs \<noteq> []" "\<not> startsWith (join ''/'' rs) ''/''" "\<not> endsWith (join ''/'' rs) ''/''"
    "split_on CHR ''/'' (join ''/'' rs) = rs" "\<exists>t. join ''/'' rs = hd rs @ t"
proof -
  show split: "split_on CHR ''/'' (join ''/'' rs) = rs"
    using assms split_on_join [of rs "CHR ''/''"] by (auto simp: list_all_iff clean_segment_def)
  show h: "\<exists>t. join ''/'' rs = hd rs @ t" using split_hd_prefix [of "join ''/'' rs" "CHR ''/''"] split by simp
  have c: "clean_segment (hd rs)" "clean_segment (last rs)" using assms by (auto simp: list_all_iff)
  then show "join ''/'' rs \<noteq> []" using h by (auto simp: clean_segment_def)
  show "\<not> startsWith (join ''/'' rs) ''/''"
    using h c(1) by (cases "hd rs") (auto simp: startsWith_def clean_segment_def)
  show "\<not> endsWith (join ''/'' rs) ''/''"
  proof
    assume "endsWith (join ''/'' rs) ''/''"
    then obtain t where "join ''/'' rs = t @ CHR ''/'' # []" by (auto simp: endsWith_suffix)
    then have "rs = split_on CHR ''/'' t @ [[]]" using split split_on_sep [of "CHR ''/''" t "[]"] by simp
    then show False using c(2) by (simp add: clean_segment_def)
  qed
qed

lemma resolve_below:
  assumes "absolute_clean p" "list_all clean_segment rs" "rs \<noteq> []"
  shows "path_resolve p (join ''/'' rs) = p @ CHR ''/'' # join ''/'' rs" "path_segments (p @ CHR ''/'' # join ''/'' rs) = path_segments p @ rs"
proof -
  from assms(1) obtain ss where ss: "p = CHR ''/'' # join ''/'' ss" "ss \<noteq> []" "list_all clean_segment ss" "path_segments p = [] # ss"
    by (rule absolute_cleanE)
  note j = join_clean [OF assms(2,3)]
  show seg: "path_segments (p @ CHR ''/'' # join ''/'' rs) = path_segments p @ rs"
    by (simp add: path_segments_def split_on_sep j(4))
  have "path_resolve p (join ''/'' rs) = CHR ''/'' # join ''/'' (norm_segs False [] ([] # ss @ rs))"
    using seg ss(4) j(2) by (simp add: path_resolve_def)
  also have "norm_segs False [] ([] # ss @ rs) = ss @ rs" using ss(3) assms(2) norm_segs_fixed [of "ss @ rs" "[]"] by simp
  also have "CHR ''/'' # join ''/'' (ss @ rs) = join ''/'' ([] # ss @ rs)" using ss(2) by (cases ss) auto
  also have "\<dots> = p @ CHR ''/'' # join ''/'' rs" using seg ss(4) by (metis append_Cons join_split_on path_segments_def)
  finally show "path_resolve p (join ''/'' rs) = p @ CHR ''/'' # join ''/'' rs" .
qed

lemma target_below:
  assumes "static_target decode base raw = Some t" "absolute_clean base"
  shows "\<exists>below. path_segments t = path_segments base @ below \<and> list_all clean_segment below"
proof -
  obtain safe where t: "t = path_resolve base safe" "t = base \<or> startsWith t (base @ ''/'')"
    using assms(1) by (auto simp: static_target_def Let_def split: option.splits if_splits)
  show ?thesis
  proof (cases "t = base")
    case False
    then obtain r where r: "t = base @ CHR ''/'' # r" using t(2) by (auto simp: startsWith_prefix)
    then have segs: "path_segments t = path_segments base @ path_segments r" by (simp add: path_segments_def split_on_sep)
    obtain ss where ss: "t = CHR ''/'' # join ''/'' ss" "list_all clean_segment ss" using resolve_segments t(1) by metis
    obtain bs where bs: "path_segments base = [] # bs" "bs \<noteq> []" using assms(2) by (rule absolute_cleanE)
    have "ss \<noteq> []"
    proof
      assume "ss = []"
      then have "path_segments t = [[], []]" using ss(1) by (simp add: path_segments_def)
      moreover have "length (path_segments t) \<ge> 3" using segs bs by (cases bs) (auto simp: path_segments_def Suc_le_eq)
      ultimately show False by simp
    qed
    then have "path_segments t = [] # ss" using segments_of_clean [OF ss(2)] ss(1) by simp
    then have "ss = bs @ path_segments r" using segs bs(1) by simp
    then have "list_all clean_segment (path_segments r)" using ss(2) by simp
    then show ?thesis using segs by blast
  qed (intro exI [of _ "[]"], simp)
qed

lemma absolute_clean_below:
  "path_segments t = path_segments base @ below \<Longrightarrow> list_all clean_segment below \<Longrightarrow> absolute_clean base \<Longrightarrow> absolute_clean t"
  by (auto simp: absolute_clean_def split: list.splits)

lemma serve_file_below:
  assumes "re_body (serve_file decode read base raw) = File_body p bytes" "absolute_clean base"
  shows "read p = Some bytes \<and> (\<exists>below. path_segments p = path_segments base @ below \<and> list_all clean_segment below)"
proof -
  obtain t where t: "static_target decode base raw = Some t" and
    p: "read p = Some bytes" "p = t \<or> p = path_resolve t ''index.html''"
    using assms(1) by (auto simp: serve_file_def not_found_def file_reply_def Let_def split: option.splits)
  obtain below where b: "path_segments t = path_segments base @ below" "list_all clean_segment below"
    using target_below [OF t assms(2)] by blast
  have i: "list_all clean_segment [''index.html'']" by (simp add: clean_segment_def)
  have "path_segments (path_resolve t ''index.html'') = path_segments t @ [''index.html'']"
    using resolve_below [OF absolute_clean_below [OF b assms(2)] i] by simp
  then have "path_segments p = path_segments base @ below \<or> path_segments p = path_segments base @ (below @ [''index.html''])"
    using p(2) b(1) by auto
  then show ?thesis using p(1) b(2) i by (metis list_all_append)
qed

text \<open>
  C13: the bridge serves no file outside the directory of its web application. Whatever the request, the decoding and the files are, a file in a reply
  is one whose path has the segments of the root first and then only ordinary names, no dots; the bytes are those of this file; and the
  request was a GET below \<open>/app/\<close> on a bridge that serves the application.
\<close>

theorem static_files_confined:
  assumes "absolute_clean base" "re_body (http_handler show_num decode read c base startupTs now s rq) = File_body p bytes"
  shows "(\<exists>below. path_segments p = path_segments base @ below \<and> list_all clean_segment below) \<and> read p = Some bytes
    \<and> hr_method rq = ''GET'' \<and> cfg_appStaticEnabled c \<and> startsWith (hr_url rq) ''/app/''"
proof -
  let ?path = "hd (split_on CHR ''?'' (hr_url rq))"
  obtain raw where raw: "re_body (serve_file decode read base raw) = File_body p bytes" "startsWith ?path ''/app/''"
    "hr_method rq = ''GET''" "cfg_appStaticEnabled c"
    using assms(2) by (auto simp: http_handler_def Let_def not_found_def split: if_splits)
  obtain t where "hr_url rq = ?path @ t" using split_hd_prefix by blast
  then have "startsWith (hr_url rq) ''/app/''" using raw(2) by (metis append.assoc startsWith_prefix)
  then show ?thesis using serve_file_below [OF raw(1) assms(1)] raw(3,4) by blast
qed

definition demo_http_config :: bridge_config where
  "demo_http_config = projr (loadConfig (\<lambda>_. None))"

definition demo_files :: "string \<Rightarrow> nat list option" where
  "demo_files p = (if p = ''/srv/app/main.js'' then Some [1, 2] else None)"

theorem static_files_confined_witness:
  "\<exists>below. path_segments ''/srv/app/main.js'' = path_segments ''/srv/app'' @ below \<and> list_all clean_segment below
     \<and> re_body (http_handler (\<lambda>_. []) Some demo_files demo_http_config ''/srv/app'' 0 5 (start_server (server_config_of demo_http_config))
         \<lparr>hr_method = ''GET'', hr_url = ''/app/js/../main.js?v=1''\<rparr>) = File_body ''/srv/app/main.js'' [1, 2]"
proof -
  have c: "cfg_appStaticEnabled demo_http_config" by code_simp
  have base: "absolute_clean ''/srv/app''" by code_simp
  have path: "hd (split_on CHR ''?'' ''/app/js/../main.js?v=1'') = ''/app/js/../main.js''" by code_simp
  have "re_body (serve_file Some demo_files ''/srv/app'' ''js/../main.js'') = File_body ''/srv/app/main.js'' [1, 2]" by code_simp
  then have b: "re_body (http_handler (\<lambda>_. []) Some demo_files demo_http_config ''/srv/app'' 0 5 (start_server (server_config_of demo_http_config))
         \<lparr>hr_method = ''GET'', hr_url = ''/app/js/../main.js?v=1''\<rparr>) = File_body ''/srv/app/main.js'' [1, 2]"
    by (simp add: http_handler_def c path startsWith_def del: split_on.simps)
  show ?thesis using static_files_confined [OF base b] b by blast
qed

section \<open>Files that are served\<close>

lemma norm_segs_relative: "list_all clean_segment ss \<Longrightarrow> norm_segs outside acc ss = rev acc @ ss"
  by (induction ss arbitrary: acc) (auto simp: clean_segment_def)

lemma normalize_clean: "list_all clean_segment rs \<Longrightarrow> rs \<noteq> [] \<Longrightarrow> path_normalize (join ''/'' rs) = join ''/'' rs"
  using join_clean [of rs] norm_segs_relative [of rs True "[]"] by (simp add: path_normalize_def path_segments_def Let_def)

text \<open>The other direction: a file with ordinary names below the root is what a request for its encoded path gets.\<close>

theorem static_file_served:
  assumes "absolute_clean base" "cfg_appStaticEnabled c" "list_all clean_segment rs" "rs \<noteq> []"
    and "(of_char (hd (hd rs)) :: nat) \<noteq> 92" "\<not> startsWith (hd rs) ''..''"
    and "decode raw = Some (join ''/'' rs)" "raw \<noteq> []" "CHR ''?'' \<notin> set raw" "read (base @ CHR ''/'' # join ''/'' rs) = Some bytes"
  shows "http_handler show_num decode read c base startupTs now s \<lparr>hr_method = ''GET'', hr_url = ''/app/'' @ raw\<rparr>
    = file_reply (base @ CHR ''/'' # join ''/'' rs) bytes"
proof -
  note j = join_clean [OF assms(3,4)]
  obtain t where t: "join ''/'' rs = hd rs @ t" using j(5) by blast
  obtain a as where a: "hd rs = a # as" "a \<noteq> CHR ''/''" using assms(3,4) by (cases rs; cases "hd rs") (auto simp: clean_segment_def)
  have drop: "dropWhile (\<lambda>c. c = CHR ''/'' \<or> (of_char c :: nat) = 92) (join ''/'' rs) = join ''/'' rs"
    using t a assms(5) by simp
  have dots: "\<not> startsWith (join ''/'' rs) ''..''"
  proof (cases "as = []")
    case True
    then show ?thesis using assms(3,4) t a by (cases rs; cases t) (auto simp: startsWith_def clean_segment_def)
  qed (use assms(6) t a in \<open>cases as, auto simp: startsWith_def\<close>)
  have r: "path_resolve base (join ''/'' rs) = base @ CHR ''/'' # join ''/'' rs" by (rule resolve_below(1) [OF assms(1,3,4)])
  have "static_target decode base raw = Some (base @ CHR ''/'' # join ''/'' rs)"
    using assms(7) normalize_clean [OF assms(3,4)] drop dots j(1) r by (simp add: static_target_def startsWith_prefix)
  then have "serve_file decode read base raw = file_reply (base @ CHR ''/'' # join ''/'' rs) bytes"
    using assms(10) by (simp add: serve_file_def)
  moreover have "split_on CHR ''?'' (''/app/'' @ raw) = [''/app/'' @ raw]" using assms(9) by (intro split_on_free) auto
  ultimately show ?thesis using assms(2,8) by (simp add: http_handler_def startsWith_def)
qed

end
