(* ===== verification/Server_Security.thy ===== *)
theory Server_Security
  imports Bridge_Server
begin

text \<open>
  The server as a system of events, its invariant, and what it guarantees: who may type into a pane,
  how a client becomes authenticated, the kill switch, the limits, and what a closed connection
  leaves behind.
\<close>

section \<open>Runs\<close>

datatype server_event =
    Connect handler_env string
  | Frame handler_env string string
  | Close handler_env string int string
  | Poll handler_env "string \<Rightarrow> (jsval, string) result"

fun step_event :: "server_config \<Rightarrow> host \<Rightarrow> server \<Rightarrow> server_event \<Rightarrow> server \<times> effect list" where
  "step_event cfg h s (Connect env cid) = onConnection cfg env s cid"
| "step_event cfg h s (Frame env cid raw) = onMessage cfg h env s cid raw"
| "step_event cfg h s (Close env cid code reason) = onClose env s cid code reason"
| "step_event cfg h s (Poll env captures) = onPollTimer cfg h env captures s"

text \<open>
  A new connection has a fresh, non-empty id (\<open>randomUUID\<close>, which has no colon); frames and closes
  come from connected clients.
\<close>

fun event_ok :: "server \<Rightarrow> server_event \<Rightarrow> bool" where
  "event_ok s (Connect env cid) \<longleftrightarrow> map_of (clients s) cid = None \<and> cid \<noteq> [] \<and> CHR '':'' \<notin> set cid"
| "event_ok s (Frame env cid raw) \<longleftrightarrow> map_of (clients s) cid \<noteq> None"
| "event_ok s (Close env cid code reason) \<longleftrightarrow> map_of (clients s) cid \<noteq> None"
| "event_ok s (Poll env captures) \<longleftrightarrow> True"

inductive server_reach ::
  "server_config \<Rightarrow> host \<Rightarrow> (server_event \<times> effect list) list \<Rightarrow> server \<Rightarrow> bool" for cfg h where
  srv_start: "server_reach cfg h [] (start_server cfg)"
| srv_event: "server_reach cfg h tr s \<Longrightarrow> event_ok s ev \<Longrightarrow> step_event cfg h s ev = (s', fx) \<Longrightarrow>
     server_reach cfg h (tr @ [(ev, fx)]) s'"

section \<open>What handlers do to the parts of the state\<close>

lemma upd_client_frame [simp]:
  "engine (upd_client cid f s) = engine s" "lanes (upd_client cid f s) = lanes s"
  "messageLimiter (upd_client cid f s) = messageLimiter s" "inputLimiter (upd_client cid f s) = inputLimiter s"
  "pendingAttachLag (upd_client cid f s) = pendingAttachLag s" "telemetry (upd_client cid f s) = telemetry s"
  by (simp_all add: upd_client_def split: option.splits)

lemma clients_upd_client:
  "map_of (clients (upd_client cid f s)) = (\<lambda>d. if d = cid then map_option f (map_of (clients s) d) else map_of (clients s) d)"
  by (rule ext) (auto simp: upd_client_def split: option.splits)

lemma keys_upd_client [simp]:
  "keys_distinct (clients s) \<Longrightarrow> keys_distinct (clients (upd_client cid f s))"
  by (auto simp: upd_client_def split: option.splits)

definition only_io :: "server \<Rightarrow> server \<Rightarrow> bool" where
  "only_io s t \<longleftrightarrow> clients t = clients s \<and> engine t = engine s \<and> lanes t = lanes s \<and>
     messageLimiter t = messageLimiter s \<and> inputLimiter t = inputLimiter s"

definition sends_only :: "effect list \<Rightarrow> bool" where
  "sends_only fx \<longleftrightarrow> list_all (\<lambda>f. case f of Send _ _ \<Rightarrow> True | _ \<Rightarrow> False) fx"

lemma onOutput_io: "onOutput now s cid ev = (t, fx) \<Longrightarrow> only_io s t \<and> sends_only fx"
  by (auto simp: onOutput_def only_io_def sends_only_def Let_def split: option.splits)

lemma onError_io: "onError h now s cid p err = (t, fx) \<Longrightarrow> only_io s t \<and> sends_only fx"
  by (auto simp: onError_def only_io_def sends_only_def split: option.splits)

lemma only_io_trans: "only_io s t \<Longrightarrow> only_io t u \<Longrightarrow> only_io s u"
  by (simp add: only_io_def)

lemma engine_callbacks_io: "engine_callbacks h now s calls = (t, fx) \<Longrightarrow> only_io s t \<and> sends_only fx"
proof (induction calls arbitrary: s t fx)
  case Nil
  then show ?case by (simp add: only_io_def sends_only_def)
next
  case (Cons call calls)
  obtain s1 f1 where one: "(case call of OnOutput cid ev \<Rightarrow> onOutput now s cid ev
      | OnError cid p err \<Rightarrow> onError h now s cid p err) = (s1, f1)" by (metis surj_pair)
  obtain s2 f2 where rest: "engine_callbacks h now s1 calls = (s2, f2)" by (metis surj_pair)
  have "only_io s s1 \<and> sends_only f1"
    using one onOutput_io onError_io by (cases call) auto
  moreover have "only_io s1 s2 \<and> sends_only f2" using Cons.IH [OF rest] .
  ultimately show ?case
    using Cons.prems one rest only_io_trans by (auto simp: sends_only_def)
qed

lemma sends_only_simps [simp]:
  "sends_only []" "sends_only (Send c m # fx) = sends_only fx" "sends_only (a @ b) = (sends_only a \<and> sends_only b)"
  "\<not> sends_only (TmuxSend p d # fx)" "\<not> sends_only (Audit act c r # fx)"
  by (simp_all add: sends_only_def)

lemma sends_only_no_input: "sends_only fx \<Longrightarrow> TmuxSend p d \<notin> set fx"
  by (auto simp: sends_only_def list_all_iff)

section \<open>Who may type\<close>

definition typed_into :: "effect list \<Rightarrow> bool" where
  "typed_into fx \<longleftrightarrow> (\<exists>p d. TmuxSend p d \<in> set fx)"

lemma typed_into_simps [simp]:
  "\<not> typed_into []" "typed_into (Send c m # fx) = typed_into fx" "typed_into (Audit act c r # fx) = typed_into fx"
  "typed_into (TmuxSend p d # fx)" "typed_into (a @ b) = (typed_into a \<or> typed_into b)"
  by (auto simp: typed_into_def)

lemma typed_into_sends [simp]: "sends_only fx \<Longrightarrow> \<not> typed_into fx"
  by (auto simp: typed_into_def sends_only_no_input)

lemma code_error_not_typed [simp]:
  "typed_into (code_error now cid code rid # fx) = typed_into fx"
  "typed_into (input_audit cid p r q b hash pol # fx) = typed_into fx"
  by (simp_all add: code_error_def input_audit_def)

lemma attach_audits_not_typed [simp]: "\<not> typed_into (attach_audits cid p n md)"
  by (auto simp: attach_audits_def split: option.splits jsnum.splits)

lemma other_handlers_do_not_type:
  "handle_auth cfg env s cid payload rid = (t, fx, r) \<Longrightarrow> \<not> typed_into fx"
  "handle_list_sessions cfg h env s cid st rid = (t, fx, r) \<Longrightarrow> \<not> typed_into fx"
  "handle_detach env s cid payload rid = (t, fx, r) \<Longrightarrow> \<not> typed_into fx"
  "handle_enable_input cfg env s cid rid = (t, fx, r) \<Longrightarrow> \<not> typed_into fx"
  "handle_disable_input cfg env s cid rid = (t, fx, r) \<Longrightarrow> \<not> typed_into fx"
  "handle_heartbeat env s cid rid = (t, fx, r) \<Longrightarrow> \<not> typed_into fx"
  "handle_disconnect env s cid rid = (t, fx, r) \<Longrightarrow> \<not> typed_into fx"
  by (auto simp: handle_auth_def handle_list_sessions_def handle_detach_def handle_enable_input_def
      handle_disable_input_def handle_heartbeat_def handle_disconnect_def Let_def
      split: if_splits sum.splits option.splits prod.splits)

lemma handle_attach_does_not_type:
  "handle_attach cfg h env s cid cl st payload rid = (t, fx, r) \<Longrightarrow> \<not> typed_into fx"
  by (auto simp: handle_attach_def Let_def dest!: engine_callbacks_io
      split: option.splits if_splits prod.splits sum.splits)

lemma handle_input_types:
  assumes "handle_input cfg h env s cid cl st payload rid = (t, fx, r)" and "typed_into fx"
  obtains p d ovr claim post where
    "parseNonEmptyString (prop_of payload ''paneId'') = Some p" and "prop_of payload ''data'' = JStr d" and "d \<noteq> []"
    and "inputEnabled cl" and "\<not> killSwitch cfg" and "p \<in> set (attachedPanes cl)"
    and "byteLength d \<le> maxInputBytes cfg" and "allowed (snd (consume (inputLimiter s) (he_now env) cid))"
    and "claimPaneInputOwnership (lanes s) (of_int (he_now env)) (of_int (he_now env)) p cid ovr
       (lane_override_allowed cfg) = (lanes t, claim)" and "\<forall>owner al. claim \<noteq> Some (Refused owner al)"
    and "fx = TmuxSend p d # post" and "\<not> typed_into post"
    and "r = Inr () \<Longrightarrow> \<exists>more. post = Audit ''input'' cid [(''paneId'', JStr p), (''bytes'', jint (byteLength d)),
           (''result'', JStr ''allowed''), (''reason'', JStr ''ok''), (''commandHash'', JStr (sha256 h d)),
           (''previewPolicy'', JStr ''sha256_only'')] # more"
    and "clients t = clients s" and "engine t = engine s"
proof -
  have dat: "str_or [] v = d \<Longrightarrow> d \<noteq> [] \<Longrightarrow> v = JStr d" for v d by (cases v) (auto simp: str_or_def)
  obtain lim rate where c: "consume (inputLimiter s) (he_now env) cid = (lim, rate)" by (metis surj_pair)
  let ?d = "str_or [] (prop_of payload ''data'')"
  let ?ovr = "parseOptionalBoolean (prop_of payload ''override'') = Some True
      \<or> parseOptionalBoolean (prop_of payload ''takeOwnership'') = Some True"
  obtain p where p: "parseNonEmptyString (prop_of payload ''paneId'') = Some p"
    and g: "allowed rate" "inputEnabled cl" "\<not> killSwitch cfg" "?d \<noteq> []" "p \<in> set (attachedPanes cl)"
      "byteLength ?d \<le> maxInputBytes cfg"
    using assms c
    by (auto simp: handle_input_def Let_def isInputAllowed_def split: if_splits option.splits)
  obtain ln claim where cl: "claimPaneInputOwnership (lanes s) (of_int (he_now env)) (of_int (he_now env)) p cid ?ovr
      (lane_override_allowed cfg) = (ln, claim)" by (metis surj_pair)
  have "\<forall>owner al. claim \<noteq> Some (Refused owner al)"
    using assms c g p cl
    by (auto simp: handle_input_def Let_def isInputAllowed_def split: option.splits claim_result.splits)
  then have body: "(t, fx, r) = (case he_sendInput env of
        Inl err \<Rightarrow> (s\<lparr>inputLimiter := lim, lanes := ln\<rparr>, [TmuxSend p ?d], Inl err)
      | Inr _ \<Rightarrow> (s\<lparr>inputLimiter := lim, lanes := ln, telemetry := recordInputAckLatency (telemetry s) (latency env st)\<rparr>,
          [TmuxSend p ?d, Audit ''input'' cid [(''paneId'', JStr p), (''bytes'', jint (byteLength ?d)),
             (''result'', JStr ''allowed''), (''reason'', JStr ''ok''), (''commandHash'', JStr (sha256 h ?d)),
             (''previewPolicy'', JStr ''sha256_only'')]] @
          (if claim = Some (Claimed True) then [Audit ''input_takeover'' cid
             [(''paneId'', JStr p), (''result'', JStr ''allowed''), (''reason'', JStr ''override''),
              (''bytes'', jint (byteLength ?d))]] else []) @
          [Send cid (envelope (he_done env) ''ack'' [(''action'', JStr ''input''),
             (''paneId'', JStr p), (''bytes'', jint (byteLength ?d))] rid)], Inr ()))"
    using assms c g p cl
    by (auto simp: handle_input_def Let_def isInputAllowed_def split: option.splits claim_result.splits sum.splits)
  show thesis
    by (rule that [of p ?d ?ovr claim "tl fx", OF p dat [OF refl g(4)] g(4) g(2,3,5,6) _ _
          \<open>\<forall>owner al. claim \<noteq> Some (Refused owner al)\<close>])
      (use body c g cl in \<open>auto split: sum.splits if_splits\<close>)
qed

end
