(* ===== verification/Server_Invariant.thy ===== *)
theory Server_Invariant
  imports Server_Security
begin

text \<open>
  The invariant of the server and that every event keeps it: the clients' limits, and that the
  engine's subscriptions and the lanes' leases belong to connected clients that have the pane attached.
\<close>

section \<open>Subscriptions\<close>

definition subscribed :: "bridge_engine \<Rightarrow> string \<Rightarrow> string \<Rightarrow> bool" where
  "subscribed e c p \<longleftrightarrow> (\<exists>r. map_of (panes e) p = Some r \<and> c \<in> set (subscribers (watchers e r)))"

lemma subscribed_timer [simp]:
  "subscribed (ensureStarted e) = subscribed e" "subscribed (stopIfIdle e) = subscribed e"
  "subscribed (poll_end e) = subscribed e" "subscribed (e\<lparr>isPolling := b\<rparr>) = subscribed e"
  by (simp_all add: subscribed_def fun_eq_iff ensureStarted_def stopIfIdle_def poll_end_def)

lemma subscribed_detach:
  assumes "engine_wf m home e"
  shows "subscribed (detach e c p) d q \<longleftrightarrow> subscribed e d q \<and> \<not> (d = c \<and> q = p)"
proof (cases "map_of (panes e) q")
  case None
  then show ?thesis by (simp add: subscribed_def detach_lookup)
next
  case (Some r)
  then show ?thesis
    using detach_absent [OF assms Some, of c p] by (auto simp: subscribed_def detach_lookup)
qed

lemma subscribed_detachAll:
  assumes "engine_wf m home e"
  shows "subscribed (detachAll e c) d q \<longleftrightarrow> subscribed e d q \<and> d \<noteq> c"
proof (cases "map_of (panes e) q")
  case None
  then show ?thesis using detach_fold [OF assms, of c "map fst (panes e)" q] by (simp add: subscribed_def detachAll_def)
next
  case (Some r)
  then have "q \<in> set (map fst (panes e))" by (metis image_set map_of_eq_None_iff option.distinct(1))
  then show ?thesis
    using detach_fold [OF assms, of c "map fst (panes e)" q] Some
    by (auto simp: subscribed_def detachAll_def)
qed

lemma subscribed_attach_watcher:
  assumes "engine_wf m home e" and "attach_watcher e c p = (e1, r)"
  shows "subscribed e1 d q \<longleftrightarrow> subscribed e d q \<or> d = c \<and> q = p"
proof -
  note fr = attach_watcher_frame [OF assms(2,1)]
  show ?thesis
  proof (cases "q = p")
    case True
    then show ?thesis using fr(1,3,7) by (auto simp: subscribed_def split: option.splits)
  next
    case False
    have "map_of (panes e) q = Some r' \<Longrightarrow> r' \<noteq> r" for r'
    proof (cases "map_of (panes e) p")
      case None
      then show "map_of (panes e) q = Some r' \<Longrightarrow> r' \<noteq> r" using fr(6) by blast
    next
      case (Some r0)
      then show "map_of (panes e) q = Some r' \<Longrightarrow> r' \<noteq> r"
        using fr(7) engine_wf_refs_inj [OF assms(1)] False by blast
    qed
    then show ?thesis using False fr(1,2) by (auto simp: subscribed_def)
  qed
qed

lemma attach_engine:
  fixes capture :: "(jsval, string) result"
  assumes wf: "engine_wf m home e" and at: "attach m e c p since capture = (e', calls, res)"
  shows "\<exists>home'. engine_wf m home' e'" and "isPolling e' = isPolling e"
    and "subscribed e' d q \<Longrightarrow> subscribed e d q \<or> d = c \<and> q = p"
proof -
  obtain e1 r where aw: "attach_watcher e c p = (e1, r)" by (metis surj_pair)
  obtain e2 calls2 st where ab: "attach_begin e c p since = (e2, calls2 :: jsval engine_call list, st)"
    by (metis prod_cases3)
  have e2: "e2 = e1 \<or> e2 = ensureStarted e1" and st: "\<forall>q req. st = Capturing q req \<longrightarrow> q = r"
    using attach_begin_engine [OF ab] aw by auto
  note w1 = attach_watcher_wf [OF wf aw]
  have wf2: "engine_wf m (home(r := p)) e2" using e2 w1 by auto
  have r: "r < next_ref e2" using e2 w1 by (auto simp: ensureStarted_def)
  have sub2: "subscribed e2 d q \<longleftrightarrow> subscribed e d q \<or> d = c \<and> q = p" for d q
    using e2 subscribed_attach_watcher [OF wf aw] by auto
  have pol2: "isPolling e2 = isPolling e" by (rule isPolling_attach_begin [OF ab])
  have "(\<exists>home'. engine_wf m home' e') \<and> isPolling e' = isPolling e \<and>
      (subscribed e' d q \<longrightarrow> subscribed e2 d q)"
  proof (cases st)
    case (Attached md)
    then show ?thesis using at ab wf2 pol2 by (auto simp: attach_def)
  next
    case (Capturing q' req)
    then have q': "q' = r" using st by simp
    show ?thesis
    proof (cases capture)
      case (Inl err)
      then have e': "e' = attach_failed e2 c p r" using at ab Capturing q' by (auto simp: attach_def)
      have "subscribed e' d q \<longrightarrow> subscribed e2 d q"
        unfolding e' attach_failed_def Let_def
        by (auto simp: subscribed_def upd_watcher_def stopIfIdle_def split: if_splits)
      then show ?thesis using attach_failed_wf(1) [OF wf2 r] e' pol2 by (auto simp: isPolling_ops)
    next
      case (Inr snap)
      then obtain md calls3 where ac: "attach_captured m e2 c p r req snap = (e', calls3 :: jsval engine_call list, md)"
        using at ab Capturing q' by (auto simp: attach_def split: prod.splits)
      have "subscribed e' d q \<longrightarrow> subscribed e2 d q"
        using ac by (auto simp: attach_captured_def Let_def nextEvent_def subscribed_def ensureStarted_def
            split: if_splits)
      then show ?thesis
        using attach_captured_wf(1) [OF wf2 r _ ac] isPolling_attach_captured [OF ac] pol2 by auto
    qed
  qed
  then show "\<exists>home'. engine_wf m home' e'" "isPolling e' = isPolling e"
    "subscribed e' d q \<Longrightarrow> subscribed e d q \<or> d = c \<and> q = p" using sub2 by auto
qed

lemma poll_panes_subscribers:
  "poll_panes m capture e entries = (e', calls) \<Longrightarrow>
   panes e' = panes e \<and> (\<forall>r. subscribers (watchers e' r) = subscribers (watchers e r))"
proof (induction entries arbitrary: e e' calls)
  case Nil
  then show ?case by simp
next
  case (Cons pr rest)
  obtain p r where pr: "pr = (p, r)" by (cases pr)
  obtain e1 c1 where one: "poll_pane m e p r (capture p) = (e1, c1)" by (metis surj_pair)
  obtain e2 c2 where more: "poll_panes m capture e1 rest = (e2, c2)" by (metis surj_pair)
  have "panes e1 = panes e \<and> (\<forall>r. subscribers (watchers e1 r) = subscribers (watchers e r))"
    using one by (auto simp: poll_pane_def nextEvent_def Let_def split: sum.splits option.splits)
  then show ?case using Cons.IH [OF more] Cons.prems pr one more by auto
qed

lemma poll_panes_wf:
  "engine_wf m home e \<Longrightarrow> \<forall>(p, r) \<in> set entries. r < next_ref e \<and> home r = p \<Longrightarrow>
   poll_panes m capture e entries = (e', calls) \<Longrightarrow> engine_wf m home e'"
proof (induction entries arbitrary: e e' calls)
  case Nil
  then show ?case by simp
next
  case (Cons pr rest)
  obtain p r where pr: "pr = (p, r)" by (cases pr)
  obtain e1 c1 where one: "poll_pane m e p r (capture p) = (e1, c1)" by (metis surj_pair)
  obtain e2 c2 where more: "poll_panes m capture e1 rest = (e2, c2)" by (metis surj_pair)
  have r: "r < next_ref e" "home r = p" using Cons.prems(2) pr by auto
  note w = poll_pane_wf [OF Cons.prems(1) r one]
  have "\<forall>(p, r) \<in> set rest. r < next_ref e1 \<and> home r = p" using Cons.prems(2) w(2) by auto
  from Cons.IH [OF w(1) this more] show ?case using Cons.prems(3) pr one more by auto
qed

lemma pollOnce_engine:
  assumes wf: "engine_wf m home e" and np: "\<not> isPolling e" and poll: "pollOnce m capture e = (e', calls)"
  shows "engine_wf m home e'" and "\<not> isPolling e'" and "subscribed e' = subscribed e"
proof -
  have "engine_wf m home e' \<and> \<not> isPolling e' \<and> subscribed e' = subscribed e"
  proof (cases "poll_begin e")
    case None
    then show ?thesis using poll wf np by (auto simp: pollOnce_def)
  next
    case (Some b)
    then have b: "b = (e\<lparr>isPolling := True\<rparr>, panes e)" by (auto simp: poll_begin_def split: if_splits)
    obtain e2 where pp: "poll_panes m capture (e\<lparr>isPolling := True\<rparr>) (panes e) = (e2, calls)" and e': "e' = poll_end e2"
      using poll Some b by (auto simp: pollOnce_def split: prod.splits)
    have "\<forall>(p, r) \<in> set (panes e). r < next_ref (e\<lparr>isPolling := True\<rparr>) \<and> home r = p"
      using wf by (auto simp: engine_wf_def)
    then have "engine_wf m home e2" using poll_panes_wf [OF _ _ pp] wf by simp
    moreover have "subscribed e2 = subscribed e"
      using poll_panes_subscribers [OF pp] by (simp add: subscribed_def fun_eq_iff)
    ultimately show ?thesis using e' by (simp add: poll_end_def subscribed_def)
  qed
  then show "engine_wf m home e'" "\<not> isPolling e'" "subscribed e' = subscribed e" by auto
qed

section \<open>Leases\<close>

lemma arbiter_claim_owners:
  assumes "arbiter_ok a" and "c \<noteq> []" and "arbiter_claim a now now' p c ovr al = (a', r)"
  shows "arbiter_ok a'"
    and "map_of (paneOwners a') q = Some l \<Longrightarrow> map_of (paneOwners a) q = Some l \<or> q = p \<and> clientId l = c"
    and "r = Claimed b \<Longrightarrow> now \<le> now' \<Longrightarrow> live_owner now a' p = Some c"
proof -
  let ?e = "expireStaleOwners a now"
  have oke: "arbiter_ok ?e" by (rule arbiter_ok_expire [OF assms(1)])
  have kd: "keys_distinct (paneOwners a)" using assms(1) by (simp add: arbiter_ok_def)
  have a': "a' = ?e \<and> (\<forall>b. r \<noteq> Claimed b) \<or> a' = setOwner ?e now' p c"
    using assms(3) by (auto simp: arbiter_claim_def Let_def split: if_splits)
  then show "arbiter_ok a'" using oke setOwner_ok [OF oke assms(2)] by auto
  show "map_of (paneOwners a') q = Some l \<Longrightarrow> map_of (paneOwners a) q = Some l \<or> q = p \<and> clientId l = c"
    using a' map_of_expired [OF kd, of now q]
    by (auto simp: setOwner_def split: option.splits if_splits)
  show "r = Claimed b \<Longrightarrow> now \<le> now' \<Longrightarrow> live_owner now a' p = Some c"
    using a' setOwner_live [OF oke] by auto
qed

lemma arbiter_ok_delete: "arbiter_ok a \<Longrightarrow> arbiter_ok (a\<lparr>paneOwners := mdelete (paneOwners a) p\<rparr>)"
  by (auto simp: arbiter_ok_def split: if_splits)

lemma release_owners:
  assumes "arbiter_ok a" and "releasePaneIfOwnedBy a now p c = (a', b)"
  shows "arbiter_ok a'"
    and "map_of (paneOwners a') q = Some l \<Longrightarrow> map_of (paneOwners a) q = Some l \<and> \<not> (q = p \<and> clientId l = c)"
proof -
  let ?e = "expireStaleOwners a now"
  have oke: "arbiter_ok ?e" by (rule arbiter_ok_expire [OF assms(1)])
  have kd: "keys_distinct (paneOwners a)" using assms(1) by (simp add: arbiter_ok_def)
  have a': "a' = (if map_option clientId (map_of (paneOwners ?e) p) = Some c
      then ?e\<lparr>paneOwners := mdelete (paneOwners ?e) p\<rparr> else ?e)"
    using assms(2) by (auto simp: releasePaneIfOwnedBy_def Let_def split: if_splits)
  show "arbiter_ok a'" unfolding a' using oke arbiter_ok_delete [OF oke] by simp
  show "map_of (paneOwners a') q = Some l \<Longrightarrow> map_of (paneOwners a) q = Some l \<and> \<not> (q = p \<and> clientId l = c)"
    using a' map_of_expired [OF kd, of now q] by (auto split: option.splits if_splits)
qed

lemma releaseClient_owners:
  assumes "arbiter_ok a" and "releaseClient a now c = (a', n)"
  shows "arbiter_ok a'"
    and "map_of (paneOwners a') q = Some l \<Longrightarrow> map_of (paneOwners a) q = Some l \<and> clientId l \<noteq> c"
proof -
  let ?e = "expireStaleOwners a now"
  have oke: "arbiter_ok ?e" by (rule arbiter_ok_expire [OF assms(1)])
  have kd: "keys_distinct (paneOwners a)" and kde: "keys_distinct (paneOwners ?e)"
    using assms(1) oke by (simp_all add: arbiter_ok_def)
  obtain m where loop: "release_loop (\<lambda>l. clientId l = c) (paneOwners ?e) (paneOwners ?e) 0 = (m, n)"
    and a': "a' = ?e\<lparr>paneOwners := m\<rparr>"
    using assms(2) by (auto simp: releaseClient_def Let_def split: prod.splits)
  have m: "m = filter (\<lambda>(p, l). clientId l \<noteq> c) (paneOwners ?e)" using release_loop_filter(1) [OF kde loop] .
  have look: "map_of m q = (case map_of (paneOwners ?e) q of None \<Rightarrow> None | Some l \<Rightarrow> if clientId l \<noteq> c then Some l else None)" for q
    unfolding m using map_of_filter_pair [OF kde, of "\<lambda>p l. clientId l \<noteq> c"] by simp
  show "map_of (paneOwners a') q = Some l \<Longrightarrow> map_of (paneOwners a) q = Some l \<and> clientId l \<noteq> c"
    using a' look [of q] map_of_expired [OF kd, of now q] by (auto split: option.splits if_splits)
  show "arbiter_ok a'" using a' oke m look by (auto simp: arbiter_ok_def split: option.splits if_splits)
qed

section \<open>The invariant\<close>

definition client_ok :: "server_config \<Rightarrow> client_state \<Rightarrow> bool" where
  "client_ok cfg cl \<longleftrightarrow> distinct (attachedPanes cl) \<and>
     int (length (attachedPanes cl)) \<le> max 0 (maxAttachedPanes cfg) \<and>
     (inputEnabled cl \<longrightarrow> authenticated cl \<and> \<not> killSwitch cfg) \<and>
     (attachedPanes cl \<noteq> [] \<longrightarrow> authenticated cl)"

definition attached_to :: "server \<Rightarrow> string \<Rightarrow> string \<Rightarrow> bool" where
  "attached_to s c p \<longleftrightarrow> (\<exists>cl. map_of (clients s) c = Some cl \<and> p \<in> set (attachedPanes cl))"

definition clients_ok :: "server_config \<Rightarrow> server \<Rightarrow> bool" where
  "clients_ok cfg s \<longleftrightarrow> keys_distinct (clients s) \<and> map_of (clients s) [] = None \<and>
     (\<forall>c cl. map_of (clients s) c = Some cl \<longrightarrow> client_ok cfg cl)"

definition engine_ok :: "server_config \<Rightarrow> server \<Rightarrow> bool" where
  "engine_ok cfg s \<longleftrightarrow> (\<exists>home. engine_wf (history_limit cfg) home (engine s)) \<and> \<not> isPolling (engine s) \<and>
     (\<forall>c p. subscribed (engine s) c p \<longrightarrow> attached_to s c p)"

definition lanes_ok :: "server \<Rightarrow> bool" where
  "lanes_ok s \<longleftrightarrow> (\<exists>a. lanes s = Arbiter a \<and> arbiter_ok a \<and>
     (\<forall>p l. map_of (paneOwners a) p = Some l \<longrightarrow> attached_to s (clientId l) p))"

definition server_ok :: "server_config \<Rightarrow> server \<Rightarrow> bool" where
  "server_ok cfg s \<longleftrightarrow> clients_ok cfg s \<and> engine_ok cfg s \<and> lanes_ok s"

lemma server_ok_only_io: "only_io s t \<Longrightarrow> server_ok cfg t = server_ok cfg s"
  by (simp add: only_io_def server_ok_def clients_ok_def engine_ok_def lanes_ok_def attached_to_def)

lemma server_ok_limits [simp]:
  "server_ok cfg (s\<lparr>messageLimiter := l\<rparr>) = server_ok cfg s"
  "server_ok cfg (s\<lparr>inputLimiter := l\<rparr>) = server_ok cfg s"
  "server_ok cfg (s\<lparr>telemetry := t\<rparr>) = server_ok cfg s"
  "server_ok cfg (s\<lparr>pendingAttachLag := g\<rparr>) = server_ok cfg s"
  by (simp_all add: server_ok_def clients_ok_def engine_ok_def lanes_ok_def attached_to_def)

lemma server_ok_start: "server_ok cfg (start_server cfg)"
  using new_arbiter_ok [of "inputLaneLeaseMs cfg"] engine_wf_new [of "history_limit cfg"]
  by (auto simp: server_ok_def clients_ok_def engine_ok_def lanes_ok_def start_server_def subscribed_def new_engine_def
      new_arbiter_def)

lemma attached_upd_client:
  "attached_to (upd_client cid f s) c p \<longleftrightarrow>
     (if c = cid then \<exists>cl. map_of (clients s) c = Some cl \<and> p \<in> set (attachedPanes (f cl)) else attached_to s c p)"
  by (auto simp: attached_to_def clients_upd_client)

lemma clients_ok_upd:
  assumes "clients_ok cfg s" and "\<And>cl. map_of (clients s) cid = Some cl \<Longrightarrow> client_ok cfg (f cl)"
  shows "clients_ok cfg (upd_client cid f s)"
  using assms by (auto simp: clients_ok_def clients_upd_client)

text \<open>An update of a client that keeps its panes keeps the invariant, if it keeps the client's own.\<close>

lemma server_ok_upd:
  assumes "server_ok cfg s" and "\<And>cl. client_ok cfg cl \<Longrightarrow> map_of (clients s) cid = Some cl \<Longrightarrow> client_ok cfg (f cl)"
    and "\<And>cl. attachedPanes (f cl) = attachedPanes cl"
  shows "server_ok cfg (upd_client cid f s)"
proof -
  have at: "attached_to (upd_client cid f s) c p = attached_to s c p" for c p
    unfolding attached_upd_client assms(3) by (simp add: attached_to_def)
  have "clients_ok cfg (upd_client cid f s)"
    using assms(1,2) by (intro clients_ok_upd) (auto simp: server_ok_def clients_ok_def)
  then show ?thesis using assms(1) at by (simp add: server_ok_def engine_ok_def lanes_ok_def)
qed

lemma handle_auth_ok: "server_ok cfg s \<Longrightarrow> handle_auth cfg env s cid payload rid = (t, fx, r) \<Longrightarrow> server_ok cfg t"
  by (auto simp: handle_auth_def Let_def client_ok_def split: if_splits intro!: server_ok_upd)

lemma handle_input_flags_ok:
  assumes "server_ok cfg s" and "map_of (clients s) cid = Some cl" and "authenticated cl"
  shows "handle_enable_input cfg env s cid rid = (t, fx, r) \<Longrightarrow> server_ok cfg t"
    and "handle_disable_input cfg env s cid rid = (t, fx, r) \<Longrightarrow> server_ok cfg t"
  using assms
  by (auto simp: handle_enable_input_def handle_disable_input_def Let_def client_ok_def intro!: server_ok_upd)

lemma lanes_ok_arbiter:
  assumes "server_ok cfg s"
  obtains a where "lanes s = Arbiter a" and "arbiter_ok a"
    and "\<And>p l. map_of (paneOwners a) p = Some l \<Longrightarrow> attached_to s (clientId l) p"
  using assms by (auto simp: server_ok_def lanes_ok_def)

lemma server_ok_lanes:
  assumes "server_ok cfg s" and "lanes t = Arbiter a" and "arbiter_ok a" and "clients t = clients s" and "engine t = engine s"
    and "\<And>p l. map_of (paneOwners a) p = Some l \<Longrightarrow> attached_to s (clientId l) p"
  shows "server_ok cfg t"
proof -
  have "attached_to t = attached_to s" using assms(4) by (simp add: attached_to_def fun_eq_iff)
  then show ?thesis using assms by (simp add: server_ok_def clients_ok_def engine_ok_def lanes_ok_def)
qed

lemma handle_list_sessions_ok:
  assumes ok: "server_ok cfg s" and hd: "handle_list_sessions cfg h env s cid st rid = (t, fx, r)"
  shows "server_ok cfg t"
proof -
  obtain a where a: "lanes s = Arbiter a" "arbiter_ok a"
    and own: "\<And>p l. map_of (paneOwners a) p = Some l \<Longrightarrow> attached_to s (clientId l) p"
    using ok by (rule lanes_ok_arbiter) blast
  let ?e = "expireStaleOwners a (of_int (he_done env))"
  have kd: "keys_distinct (paneOwners a)" using a(2) by (simp add: arbiter_ok_def)
  have "\<And>p l. map_of (paneOwners ?e) p = Some l \<Longrightarrow> attached_to s (clientId l) p"
    using own map_of_expired [OF kd] by (auto split: option.splits if_splits)
  then have "server_ok cfg (s\<lparr>lanes := Arbiter ?e\<rparr>)"
    using server_ok_lanes [OF ok, of "s\<lparr>lanes := Arbiter ?e\<rparr>" ?e] arbiter_ok_expire [OF a(2)] by simp
  then show ?thesis
    using hd ok a(1)
    by (auto simp: handle_list_sessions_def list_metadata_of_def snapshotPaneInputOwnership_def arbiter_snapshot_def
        Let_def split: sum.splits)
qed

lemma handle_input_ok:
  assumes ok: "server_ok cfg s" and cl: "map_of (clients s) cid = Some cl"
    and hd: "handle_input cfg h env s cid cl st payload rid = (t, fx, r)"
  shows "server_ok cfg t"
proof -
  obtain a where a: "lanes s = Arbiter a" "arbiter_ok a"
    and own: "\<And>p l. map_of (paneOwners a) p = Some l \<Longrightarrow> attached_to s (clientId l) p"
    using ok by (rule lanes_ok_arbiter) blast
  have cid: "cid \<noteq> []" using ok cl by (auto simp: server_ok_def clients_ok_def)
  have "clients t = clients s \<and> engine t = engine s \<and> (lanes t = lanes s \<or>
      (\<exists>p ovr al a' res. p \<in> set (attachedPanes cl) \<and>
        arbiter_claim a (of_int (he_now env)) (of_int (he_now env)) p cid ovr al = (a', res) \<and> lanes t = Arbiter a'))"
    using hd a(1)
    by (auto simp: handle_input_def Let_def claimPaneInputOwnership_def
        split: if_splits option.splits prod.splits sum.splits claim_result.splits)
  then consider (same) "clients t = clients s" "engine t = engine s" "lanes t = lanes s"
    | (claim) p ovr al a' res where "clients t = clients s" "engine t = engine s" "p \<in> set (attachedPanes cl)"
      "arbiter_claim a (of_int (he_now env)) (of_int (he_now env)) p cid ovr al = (a', res)" "lanes t = Arbiter a'"
    by blast
  then show ?thesis
  proof cases
    case same
    then show ?thesis using server_ok_lanes [OF ok, of t a] a own by simp
  next
    case claim
    note c = arbiter_claim_owners [OF a(2) cid claim(4)]
    have "attached_to s cid p" using cl claim(3) by (simp add: attached_to_def)
    then have "\<And>q l. map_of (paneOwners a') q = Some l \<Longrightarrow> attached_to s (clientId l) q"
      using c(2) own by metis
    then show ?thesis using server_ok_lanes [OF ok claim(5) c(1) claim(1,2)] by simp
  qed
qed

lemma client_ok_sdelete:
  assumes "client_ok cfg cl"
  shows "client_ok cfg (cl\<lparr>attachedPanes := sdelete (attachedPanes cl) p\<rparr>)"
proof -
  have "int (length (sdelete (attachedPanes cl) p)) \<le> max 0 (maxAttachedPanes cfg)"
    using length_sdelete_le [of "attachedPanes cl" p] assms by (auto simp: client_ok_def)
  moreover have "sdelete (attachedPanes cl) p \<noteq> [] \<Longrightarrow> attachedPanes cl \<noteq> []" by (auto simp: sdelete_def)
  ultimately show ?thesis using assms by (simp add: client_ok_def)
qed

lemma handle_detach_ok:
  assumes ok: "server_ok cfg s" and hd: "handle_detach env s cid payload rid = (t, fx, r)"
  shows "server_ok cfg t"
proof (cases "parseNonEmptyString (prop_of payload ''paneId'')")
  case None
  then show ?thesis using hd ok by (simp add: handle_detach_def)
next
  case (Some p)
  obtain a where a: "lanes s = Arbiter a" "arbiter_ok a"
    and own: "\<And>p l. map_of (paneOwners a) p = Some l \<Longrightarrow> attached_to s (clientId l) p"
    using ok by (rule lanes_ok_arbiter) blast
  let ?f = "\<lambda>c. c\<lparr>attachedPanes := sdelete (attachedPanes c) p\<rparr>"
  let ?s1 = "upd_client cid ?f s"
  obtain a' rel where rp: "releasePaneIfOwnedBy a (of_int (he_now env)) p cid = (a', rel)" by (metis surj_pair)
  have t: "t = ?s1\<lparr>lanes := Arbiter a', engine := detach (engine s) cid p\<rparr>"
    using hd Some a(1) rp by (auto simp: handle_detach_def releasePaneInputOwnership_def Let_def)
  have at: "attached_to t c q \<longleftrightarrow> attached_to s c q \<and> \<not> (c = cid \<and> q = p)" for c q
  proof -
    have "attached_to t c q = attached_to ?s1 c q" by (simp add: t attached_to_def)
    then show ?thesis unfolding attached_upd_client by (auto simp: attached_to_def)
  qed
  have cok: "client_ok cfg cl \<Longrightarrow> client_ok cfg (?f cl)" for cl
    by (rule client_ok_sdelete)
  have "clients_ok cfg ?s1"
    using ok cok by (intro clients_ok_upd) (auto simp: server_ok_def clients_ok_def)
  then have "clients_ok cfg t" by (simp add: t clients_ok_def)
  moreover have "engine_ok cfg t"
  proof -
    obtain home where wf: "engine_wf (history_limit cfg) home (engine s)" and np: "\<not> isPolling (engine s)"
      and sub: "\<And>c p. subscribed (engine s) c p \<Longrightarrow> attached_to s c p"
      using ok by (auto simp: server_ok_def engine_ok_def)
    then show ?thesis
      using detach_wf(1) [OF wf, of cid p] subscribed_detach [OF wf] at
      by (auto simp: engine_ok_def t isPolling_ops)
  qed
  moreover have "lanes_ok t"
    using release_owners [OF a(2) rp] own at by (auto simp: lanes_ok_def t)
  ultimately show ?thesis by (simp add: server_ok_def)
qed

lemma handle_attach_cases:
  assumes hd: "handle_attach cfg h env s cid cl st payload rid = (t, fx, r)"
  obtains (early) "t = s"
  | (attached) p lag since e calls res s3 fx' tel where
      "p \<in> set (attachedPanes cl) \<or> int (length (attachedPanes cl)) < maxAttachedPanes cfg"
      "attach (history_limit cfg) (engine s) cid p since (he_capture env) = (e, calls, res)"
      "engine_callbacks h (he_done env) ((upd_client cid (\<lambda>c. c\<lparr>attachedPanes := sadd (attachedPanes c) p\<rparr>) s)
          \<lparr>pendingAttachLag := lag, engine := e\<rparr>) calls = (s3, fx')" "t = s3\<lparr>telemetry := tel\<rparr>"
proof (cases "parseNonEmptyString (prop_of payload ''paneId'')")
  case None
  then have "t = s" using hd by (simp add: handle_attach_def)
  then show thesis by (rule early)
next
  case (Some p)
  let ?since = "parseOptionalInt (prop_of payload ''lastSeq'')"
  obtain e calls res where at: "attach (history_limit cfg) (engine s) cid p ?since (he_capture env) = (e, calls, res)"
    by (metis prod_cases3)
  let ?s2 = "(upd_client cid (\<lambda>c. c\<lparr>attachedPanes := sadd (attachedPanes c) p\<rparr>) s)
      \<lparr>pendingAttachLag := mput (pendingAttachLag s) (lag_key cid p) st, engine := e\<rparr>"
  obtain s3 fx' where cb: "engine_callbacks h (he_done env) ?s2 calls = (s3, fx')"
    by (cases "engine_callbacks h (he_done env) ?s2 calls")
  show thesis
  proof (cases "p \<notin> set (attachedPanes cl) \<and> int (length (attachedPanes cl)) \<ge> maxAttachedPanes cfg")
    case True
    then have "t = s" using hd Some by (simp add: handle_attach_def)
    then show thesis by (rule early)
  next
    case False
    then have room: "p \<in> set (attachedPanes cl) \<or> int (length (attachedPanes cl)) < maxAttachedPanes cfg" by auto
    have same: "\<exists>tel. u = u\<lparr>telemetry := tel\<rparr>" for u :: server
      by (rule exI [of _ "telemetry u"]) simp
    then have "\<exists>tel. t = s3\<lparr>telemetry := tel\<rparr>"
      using hd Some at cb False unfolding handle_attach_def Let_def by (auto split: sum.splits)
    then show thesis using attached [OF room at cb] by blast
  qed
qed

lemma handle_attach_ok:
  assumes ok: "server_ok cfg s" and cl: "map_of (clients s) cid = Some cl" and au: "authenticated cl"
    and hd: "handle_attach cfg h env s cid cl st payload rid = (t, fx, r)"
  shows "server_ok cfg t"
  using hd
proof (cases rule: handle_attach_cases)
  case early
  then show ?thesis using ok by simp
next
  case (attached p lag since e calls res s3 fx' tel)
  note room = attached(1) and at = attached(2) and cb = attached(3) and t = attached(4)
    let ?f = "\<lambda>c. c\<lparr>attachedPanes := sadd (attachedPanes c) p\<rparr>"
    let ?s2 = "(upd_client cid ?f s)\<lparr>pendingAttachLag := lag, engine := e\<rparr>"
    obtain home where wf: "engine_wf (history_limit cfg) home (engine s)" and np: "\<not> isPolling (engine s)"
      and sub: "\<And>c p. subscribed (engine s) c p \<Longrightarrow> attached_to s c p"
      using ok by (auto simp: server_ok_def engine_ok_def)
    note eng = attach_engine [OF wf at]
    have att: "attached_to ?s2 c q \<longleftrightarrow> attached_to s c q \<or> c = cid \<and> q = p" for c q
    proof -
      have "attached_to ?s2 c q = attached_to (upd_client cid ?f s) c q" by (simp add: attached_to_def)
      then show ?thesis unfolding attached_upd_client using cl by (auto simp: attached_to_def)
    qed
    have "client_ok cfg (?f cl')" if "map_of (clients s) cid = Some cl'" for cl'
    proof -
      have "cl' = cl" using that cl by simp
      moreover have "client_ok cfg cl" using ok cl by (auto simp: server_ok_def clients_ok_def)
      ultimately show ?thesis using room au by (auto simp: client_ok_def sadd_def)
    qed
    then have "clients_ok cfg (upd_client cid ?f s)" using ok by (intro clients_ok_upd) (auto simp: server_ok_def)
    then have "clients_ok cfg ?s2" by (simp add: clients_ok_def)
    moreover have "engine_ok cfg ?s2"
      using eng np sub att by (auto simp: engine_ok_def)
    moreover have "lanes_ok ?s2" using ok att by (auto simp: server_ok_def lanes_ok_def)
    ultimately have "server_ok cfg ?s2" by (simp add: server_ok_def)
    then have "server_ok cfg s3" using server_ok_only_io engine_callbacks_io [OF cb] by blast
    then show ?thesis using t by simp
qed

lemma leave_ok:
  assumes ok: "server_ok cfg s" and a: "lanes s = Arbiter a" and rc: "releaseClient a now cid = (a', n)"
    and t: "engine t = detachAll (engine s) cid" "lanes t = Arbiter a'" "clients_ok cfg t"
      "\<And>c p. attached_to t c p \<longleftrightarrow> attached_to s c p \<and> c \<noteq> cid"
  shows "server_ok cfg t"
proof -
  obtain b where b: "lanes s = Arbiter b" "arbiter_ok b"
    and own: "\<And>p l. map_of (paneOwners b) p = Some l \<Longrightarrow> attached_to s (clientId l) p"
    using ok by (rule lanes_ok_arbiter) blast
  have ab: "b = a" using a b by simp
  obtain home where wf: "engine_wf (history_limit cfg) home (engine s)" and np: "\<not> isPolling (engine s)"
    and sub: "\<And>c p. subscribed (engine s) c p \<Longrightarrow> attached_to s c p"
    using ok by (auto simp: server_ok_def engine_ok_def)
  have "engine_ok cfg t"
    using detachAll_wf [OF wf, of cid] subscribed_detachAll [OF wf] np sub t
    by (auto simp: engine_ok_def isPolling_detachAll)
  moreover have "lanes_ok t"
    using releaseClient_owners [OF b(2) [unfolded ab] rc] own ab t by (auto simp: lanes_ok_def)
  ultimately show ?thesis using t(3) by (simp add: server_ok_def)
qed

lemma handle_disconnect_ok:
  assumes ok: "server_ok cfg s" and hd: "handle_disconnect env s cid rid = (t, fx, r)"
  shows "server_ok cfg t"
proof -
  obtain a where a: "lanes s = Arbiter a" using ok by (rule lanes_ok_arbiter) blast
  obtain a' n where rc: "releaseClient a (of_int (he_now env)) cid = (a', n)" by (metis surj_pair)
  let ?f = "\<lambda>c. c\<lparr>attachedPanes := [], inputEnabled := False\<rparr>"
  have t: "t = upd_client cid ?f (s\<lparr>engine := detachAll (engine s) cid, lanes := Arbiter a'\<rparr>)"
    using hd a rc by (auto simp: handle_disconnect_def releaseClientInputOwnership_def Let_def)
  have "clients_ok cfg t"
    unfolding t using ok by (intro clients_ok_upd) (auto simp: server_ok_def clients_ok_def client_ok_def)
  moreover have "attached_to t c p \<longleftrightarrow> attached_to s c p \<and> c \<noteq> cid" for c p
    unfolding t attached_upd_client by (auto simp: attached_to_def)
  ultimately show ?thesis using leave_ok [OF ok a rc, of t] t by simp
qed

lemma onClose_ok:
  assumes ok: "server_ok cfg s" and hd: "onClose env s cid code reason = (t, fx)"
  shows "server_ok cfg t"
proof -
  obtain a where a: "lanes s = Arbiter a" using ok by (rule lanes_ok_arbiter) blast
  obtain a' n where rc: "releaseClient a (of_int (he_now env)) cid = (a', n)" by (metis surj_pair)
  have t: "engine t = detachAll (engine s) cid" "lanes t = Arbiter a'" "clients t = mdelete (clients s) cid"
    using hd a rc by (auto simp: onClose_def releaseClientInputOwnership_def Let_def)
  have "clients_ok cfg t" using ok t(3) by (auto simp: server_ok_def clients_ok_def split: if_splits)
  moreover have "attached_to t c p \<longleftrightarrow> attached_to s c p \<and> c \<noteq> cid" for c p
    using t(3) by (auto simp: attached_to_def)
  ultimately show ?thesis using leave_ok [OF ok a rc, of t] t by simp
qed

lemma handleClientMessage_ok:
  assumes ok: "server_ok cfg s" and hd: "handleClientMessage cfg h env s cid st ty payload rid = (t, fx, r)"
  shows "server_ok cfg t"
proof (cases "map_of (clients s) cid")
  case None
  then show ?thesis using hd ok by (simp add: handleClientMessage_def)
next
  case (Some cl)
  show ?thesis
  proof (cases "authenticated cl \<or> ty = ''auth''")
    case False
    then show ?thesis using hd ok Some by (simp add: handleClientMessage_def)
  next
    case True
    note body = hd [unfolded handleClientMessage_def Some option.case]
    show ?thesis
      using body True ok Some handle_auth_ok [OF ok] handle_list_sessions_ok [OF ok]
        handle_attach_ok [OF ok Some] handle_detach_ok [OF ok] handle_input_flags_ok [OF ok Some]
        handle_input_ok [OF ok Some] handle_disconnect_ok [OF ok]
      by (simp add: handle_heartbeat_def split: if_splits)
  qed
qed

lemma onMessage_ok:
  assumes ok: "server_ok cfg s" and hd: "onMessage cfg h env s cid raw = (t, fx)"
  shows "server_ok cfg t"
proof -
  obtain lim rate where c: "consume (messageLimiter s) (he_now env) cid = (lim, rate)" by (metis surj_pair)
  let ?s1 = "s\<lparr>messageLimiter := lim\<rparr>"
  have ok1: "server_ok cfg ?s1" using ok by simp
  show ?thesis
  proof (cases "allowed rate")
    case False
    then show ?thesis using hd c ok1 by (auto simp: onMessage_def)
  next
    case True
    show ?thesis
    proof (cases "parseIncomingClientMessage h cfg (he_now env) raw")
      case (Inl err)
      then show ?thesis using hd c True ok1 by (auto simp: onMessage_def)
    next
      case (Inr m)
      obtain s2 fx2 r where hm: "handleClientMessage cfg h env ?s1 cid (he_now env) (env_type m) (env_payload m)
          (env_requestId m) = (s2, fx2, r)" by (metis prod_cases3)
      have "t = s2" using hd c True Inr hm by (auto simp: onMessage_def Let_def split: sum.splits)
      then show ?thesis using handleClientMessage_ok [OF ok1 hm] by simp
    qed
  qed
qed

lemma onConnection_ok:
  assumes ok: "server_ok cfg s" and new: "map_of (clients s) cid = None" "cid \<noteq> []"
    and hd: "onConnection cfg env s cid = (t, fx)"
  shows "server_ok cfg t"
proof -
  have t: "clients t = mput (clients s) cid \<lparr>authenticated = (if token_required cfg then False else True),
      inputEnabled = False, attachedPanes = []\<rparr>" "engine t = engine s" "lanes t = lanes s"
    using hd by (auto simp: onConnection_def Let_def)
  have at: "attached_to t c p \<longleftrightarrow> attached_to s c p" for c p
    using t(1) new by (auto simp: attached_to_def)
  have "clients_ok cfg t" using ok new t(1) by (auto simp: server_ok_def clients_ok_def client_ok_def)
  then show ?thesis using ok at t by (simp add: server_ok_def engine_ok_def lanes_ok_def)
qed

lemma onPollTimer_ok:
  assumes ok: "server_ok cfg s" and hd: "onPollTimer cfg h env captures s = (t, fx)"
  shows "server_ok cfg t"
proof -
  obtain e calls where p: "pollOnce (history_limit cfg) captures (engine s) = (e, calls)" by (metis surj_pair)
  obtain home where wf: "engine_wf (history_limit cfg) home (engine s)" and np: "\<not> isPolling (engine s)"
    using ok by (auto simp: server_ok_def engine_ok_def)
  note eng = pollOnce_engine [OF wf np p]
  have "attached_to (s\<lparr>engine := e\<rparr>) = attached_to s" by (simp add: attached_to_def fun_eq_iff)
  then have "server_ok cfg (s\<lparr>engine := e\<rparr>)"
    using ok eng by (auto simp: server_ok_def clients_ok_def engine_ok_def lanes_ok_def)
  moreover have "engine_callbacks h (he_now env) (s\<lparr>engine := e\<rparr>) calls = (t, fx)"
    using hd p by (simp add: onPollTimer_def)
  ultimately show ?thesis using server_ok_only_io engine_callbacks_io by blast
qed

lemma step_event_ok:
  "server_ok cfg s \<Longrightarrow> event_ok s ev \<Longrightarrow> step_event cfg h s ev = (t, fx) \<Longrightarrow> server_ok cfg t"
  by (cases ev) (auto intro: onConnection_ok onMessage_ok onClose_ok onPollTimer_ok)

lemma server_reach_ok: "server_reach cfg h tr s \<Longrightarrow> server_ok cfg s"
  by (induction rule: server_reach.induct) (auto intro: server_ok_start step_event_ok)

end
