(* ===== verification/Server_Guarantees.thy ===== *)
theory Server_Guarantees
  imports Server_Invariant
begin

text \<open>
  The guarantees of the bridge server over all its runs: who may type into a pane, how a client
  becomes authenticated, what an unauthenticated client can do, the limits, what a closed connection
  leaves behind, and that every frame is answered.
\<close>

section \<open>From events to handlers\<close>

lemma trace_step:
  "server_reach cfg h tr s \<Longrightarrow> (ev, fx) \<in> set tr \<Longrightarrow>
   \<exists>tr0 s0 t. server_reach cfg h tr0 s0 \<and> event_ok s0 ev \<and> step_event cfg h s0 ev = (t, fx)"
proof (induction rule: server_reach.induct)
  case (srv_event tr s ev' s' fx')
  then show ?case by (cases "(ev, fx) \<in> set tr") auto
qed simp

lemma onMessage_cases:
  assumes "onMessage cfg h env s cid raw = (t, fx)"
  obtains (limited) d where "clients t = clients s" and "engine t = engine s" and "lanes t = lanes s"
      and "fx = [Send cid (envelope (he_now env) ''error'' (rate_payload ''rate_limited'' d) None)]"
  | (unparsed) err where "clients t = clients s" and "engine t = engine s" and "lanes t = lanes s"
      and "fx = [code_error (he_now env) cid err None]"
  | (handled) lim m fx0 r where "parseIncomingClientMessage h cfg (he_now env) raw = Inr m"
      and "handleClientMessage cfg h env (s\<lparr>messageLimiter := lim\<rparr>) cid (he_now env) (env_type m) (env_payload m)
        (env_requestId m) = (t, fx0, r)"
      and "r = Inr () \<and> fx = fx0 \<or> (\<exists>code reason rec msg. fx = fx0 @
        [Audit ''runtime_failure'' cid [(''code'', JStr code), (''reason'', JStr reason), (''recoverable'', JBool rec)],
         Send cid msg])"
proof -
  obtain lim rate where c: "consume (messageLimiter s) (he_now env) cid = (lim, rate)" by (metis surj_pair)
  let ?s1 = "s\<lparr>messageLimiter := lim\<rparr>"
  show thesis
  proof (cases "allowed rate")
    case False
    then have "t = ?s1" "fx = [Send cid (envelope (he_now env) ''error'' (rate_payload ''rate_limited'' rate) None)]"
      using assms c by (auto simp: onMessage_def)
    then show thesis using limited [of rate] by simp
  next
    case True
    show thesis
    proof (cases "parseIncomingClientMessage h cfg (he_now env) raw")
      case (Inl err)
      then have "t = ?s1" "fx = [code_error (he_now env) cid err None]"
        using assms c True by (auto simp: onMessage_def)
      then show thesis using unparsed [of err] by simp
    next
      case (Inr m)
      obtain s2 fx2 r where hm: "handleClientMessage cfg h env ?s1 cid (he_now env) (env_type m) (env_payload m)
          (env_requestId m) = (s2, fx2, r)" by (metis prod_cases3)
      have t: "t = s2" and fx: "r = Inr () \<and> fx = fx2 \<or> (\<exists>code reason rec msg. fx = fx2 @
        [Audit ''runtime_failure'' cid [(''code'', JStr code), (''reason'', JStr reason), (''recoverable'', JBool rec)],
         Send cid msg])"
        using assms c True Inr hm by (auto simp: onMessage_def Let_def split: sum.splits)
      show thesis by (rule handled [OF Inr hm [folded t] fx])
    qed
  qed
qed

lemma handleClientMessage_types:
  assumes "handleClientMessage cfg h env s cid st ty payload rid = (t, fx, r)" and "typed_into fx"
  obtains cl where "map_of (clients s) cid = Some cl" and "authenticated cl" and "ty = ''input''"
    and "handle_input cfg h env s cid cl st payload rid = (t, fx, r)"
proof -
  from assms obtain cl where cl: "map_of (clients s) cid = Some cl"
    by (auto simp: handleClientMessage_def split: option.splits)
  note body = assms(1) [unfolded handleClientMessage_def cl option.case]
  have "authenticated cl \<and> ty = ''input'' \<and> handle_input cfg h env s cid cl st payload rid = (t, fx, r)"
    using body assms(2) other_handlers_do_not_type handle_attach_does_not_type
    by (auto split: if_splits)
  then show thesis using that cl by blast
qed

lemma step_types:
  assumes "step_event cfg h s ev = (t, fx)" and "typed_into fx"
  obtains env cid raw lim cl fx0 r and m :: wire_envelope where "ev = Frame env cid raw" and "map_of (clients s) cid = Some cl" and "authenticated cl"
    and "handle_input cfg h env (s\<lparr>messageLimiter := lim\<rparr>) cid cl (he_now env) (env_payload m) (env_requestId m) = (t, fx0, r)"
    and "typed_into fx0" and "\<exists>more. fx = fx0 @ more \<and> \<not> typed_into more"
    and "r = Inr () \<and> fx = fx0 \<or> (\<exists>d. Audit ''runtime_failure'' cid d \<in> set fx)"
proof (cases ev)
  case (Connect env cid)
  then show thesis using assms by (auto simp: onConnection_def Let_def)
next
  case (Close env cid code reason)
  then show thesis using assms by (auto simp: onClose_def Let_def split: prod.splits if_splits)
next
  case (Poll env captures)
  then show thesis
    using assms by (auto simp: onPollTimer_def Let_def dest!: engine_callbacks_io split: prod.splits)
next
  case (Frame env cid raw)
  then have om: "onMessage cfg h env s cid raw = (t, fx)" using assms(1) by simp
  then show thesis
  proof (cases rule: onMessage_cases)
    case (limited d)
    then show thesis using assms(2) by simp
  next
    case (unparsed err)
    then show thesis using assms(2) by simp
  next
    case (handled lim m fx0 r)
    have fx: "\<exists>more. fx = fx0 @ more \<and> \<not> typed_into more" using handled(3) by auto
    then have ty: "typed_into fx0" using assms(2) by auto
    have rt: "r = Inr () \<and> fx = fx0 \<or> (\<exists>d. Audit ''runtime_failure'' cid d \<in> set fx)" using handled(3) by auto
    from handled(2) ty show thesis
    proof (rule handleClientMessage_types)
      fix cl assume "map_of (clients (s\<lparr>messageLimiter := lim\<rparr>)) cid = Some cl" and au: "authenticated cl"
        and hi: "handle_input cfg h env (s\<lparr>messageLimiter := lim\<rparr>) cid cl (he_now env) (env_payload m) (env_requestId m) = (t, fx0, r)"
      then have cl: "map_of (clients s) cid = Some cl" by simp
      show thesis by (rule that [OF Frame cl au hi ty fx rt])
    qed
  qed
qed

section \<open>A concrete run\<close>

text \<open>
  Client \<open>A\<close> connects to a server without a token, enables input, attaches to a pane and types. The
  JSON parser of this host knows these three frames.
\<close>

definition demo_cfg :: server_config where
  "demo_cfg = \<lparr>authToken = None, maxMessagesPerMinute = 10, maxInputsPerMinute = 10, maxInputBytes = 100,
     maxAttachedPanes = 2, killSwitch = False, allowInputOwnershipOverride = None,
     strictProtocolParsing = False, maxHistoryEvents = None, inputLaneLeaseMs = JUndef\<rparr>"

definition demo_host :: host where
  "demo_host = \<lparr>json_parse = map_of
      [(''e'', JObj [(''type'', JStr ''enable_input'')]),
       (''a'', JObj [(''type'', JStr ''attach''), (''payload'', JObj [(''paneId'', JStr ''p'')])]),
       (''i'', JObj [(''type'', JStr ''input''), (''payload'', JObj [(''paneId'', JStr ''p''), (''data'', JStr ''ls'')])])],
     to_str = (\<lambda>_. ''error''), sha256 = (\<lambda>d. d), collate = (\<lambda>_. 0)\<rparr>"

definition demo_env :: handler_env where
  "demo_env = \<lparr>he_now = 0, he_done = 1, he_panes = Inr [], he_capture = Inr ''$ '', he_sendInput = Inr ()\<rparr>"

definition demo_step :: "server \<Rightarrow> server_event \<Rightarrow> server" where
  "demo_step s ev = fst (step_event demo_cfg demo_host s ev)"

definition demo1 :: server where "demo1 = demo_step (start_server demo_cfg) (Connect demo_env ''A'')"
definition demo2 :: server where "demo2 = demo_step demo1 (Frame demo_env ''A'' ''e'')"
definition demo3 :: server where "demo3 = demo_step demo2 (Frame demo_env ''A'' ''a'')"

lemmas demo_eval = demo_step_def demo_cfg_def demo_host_def demo_env_def onConnection_def onMessage_def
  token_required_def start_server_def new_rate_limiter_def consume_def stored_times_def
  parseIncomingClientMessage_def parseMessage_def parseLenient_def prop_of_def trim_def is_ws_def PROTOCOL_V1_def
  safe_timestamp_def handleClientMessage_def upd_client_def Let_def

lemma demo1_facts:
  "clients demo1 = [(''A'', \<lparr>authenticated = True, inputEnabled = False, attachedPanes = []\<rparr>)]"
  "messageLimiter demo1 = \<lparr>maxEvents = 10, windowMs = 60000, timestamps = []\<rparr>"
  "inputLimiter demo1 = \<lparr>maxEvents = 10, windowMs = 60000, timestamps = []\<rparr>"
  "lanes demo1 = Arbiter (new_arbiter JUndef)" "engine demo1 = new_engine"
  by (simp_all add: demo1_def demo_eval)

lemma demo2_facts:
  "clients demo2 = [(''A'', \<lparr>authenticated = True, inputEnabled = True, attachedPanes = []\<rparr>)]"
  "messageLimiter demo2 = \<lparr>maxEvents = 10, windowMs = 60000, timestamps = [(''A'', [0])]\<rparr>"
  "inputLimiter demo2 = \<lparr>maxEvents = 10, windowMs = 60000, timestamps = []\<rparr>"
  "lanes demo2 = Arbiter (new_arbiter JUndef)" "engine demo2 = new_engine"
  by (simp_all add: demo2_def demo_eval demo1_facts handle_enable_input_def)

lemma demo3_facts:
  "clients demo3 = [(''A'', \<lparr>authenticated = True, inputEnabled = True, attachedPanes = [''p'']\<rparr>)]"
  "messageLimiter demo3 = \<lparr>maxEvents = 10, windowMs = 60000, timestamps = [(''A'', [0, 0])]\<rparr>"
  "inputLimiter demo3 = \<lparr>maxEvents = 10, windowMs = 60000, timestamps = []\<rparr>"
  "lanes demo3 = Arbiter (new_arbiter JUndef)"
  by (simp_all add: demo3_def demo_eval demo2_facts handle_attach_def parseNonEmptyString_def
      parseOptionalInt_def sadd_def engine_eval history_limit_def default_maxHistoryEvents_def onOutput_def
      lag_key_def)

lemma demo_reach: "\<exists>tr. server_reach demo_cfg demo_host tr demo3"
proof -
  have step: "\<exists>tr'. server_reach demo_cfg demo_host tr' (demo_step s ev)"
    if "server_reach demo_cfg demo_host tr s" "event_ok s ev" for tr s ev
    using srv_event [OF that] unfolding demo_step_def by (metis surjective_pairing)
  obtain tr1 where "server_reach demo_cfg demo_host tr1 demo1"
    using step [OF srv_start, of "Connect demo_env ''A''"] by (auto simp: demo1_def start_server_def)
  then obtain tr2 where "server_reach demo_cfg demo_host tr2 demo2"
    using step [of tr1 demo1 "Frame demo_env ''A'' ''e''"] demo1_facts(1) by (auto simp: demo2_def)
  then show ?thesis
    using step [of tr2 demo2 "Frame demo_env ''A'' ''a''"] demo2_facts(1) by (auto simp: demo3_def)
qed

lemma demo_input:
  "\<exists>t post. step_event demo_cfg demo_host demo3 (Frame demo_env ''A'' ''i'') = (t, TmuxSend ''p'' ''ls'' # post)"
  by (simp add: demo_eval demo3_facts handle_input_def parseNonEmptyString_def str_or_def isInputAllowed_def
      byteLength_ascii claimPaneInputOwnership_def arbiter_claim_def new_arbiter_def expireStaleOwners_def
      owner_free_def parseOptionalBoolean_def)

section \<open>Typing into panes\<close>

text \<open>
  C1: in every run, text reaches a pane only while the server handles a frame of a client that is
  connected, authenticated and has input enabled, with the global kill switch off, for a pane this
  client has attached, with a non-empty text within the size limit; afterwards this client holds the
  pane's input lane. A frame causes at most one such write.
\<close>

theorem input_requires_authority:
  assumes "server_reach cfg h tr s" and "event_ok s ev" and "step_event cfg h s ev = (t, fx)"
    and "TmuxSend p d \<in> set fx"
  shows "\<exists>env cid raw cl a post. ev = Frame env cid raw \<and> map_of (clients s) cid = Some cl \<and>
     authenticated cl \<and> inputEnabled cl \<and> \<not> killSwitch cfg \<and> p \<in> set (attachedPanes cl) \<and>
     d \<noteq> [] \<and> byteLength d \<le> maxInputBytes cfg \<and>
     lanes t = Arbiter a \<and> live_owner (of_int (he_now env)) a p = Some cid \<and>
     fx = TmuxSend p d # post \<and> \<not> typed_into post"
proof -
  have ty: "typed_into fx" using assms(4) by (auto simp: typed_into_def)
  from assms(3) ty show ?thesis
  proof (rule step_types)
    fix env cid raw lim cl fx0 r and m :: wire_envelope
    assume ev: "ev = Frame env cid raw" and cl: "map_of (clients s) cid = Some cl"
      and au: "authenticated cl" and hi: "handle_input cfg h env (s\<lparr>messageLimiter := lim\<rparr>) cid cl (he_now env)
        (env_payload m) (env_requestId m) = (t, fx0, r)" and ty0: "typed_into fx0"
      and fx: "\<exists>more. fx = fx0 @ more \<and> \<not> typed_into more"
    from hi ty0 show ?thesis
    proof (rule handle_input_types)
      fix p' d' ovr claim post
      assume g: "d' \<noteq> []" "inputEnabled cl" "\<not> killSwitch cfg" "p' \<in> set (attachedPanes cl)"
          "byteLength d' \<le> maxInputBytes cfg"
        and claim: "claimPaneInputOwnership (lanes (s\<lparr>messageLimiter := lim\<rparr>)) (of_int (he_now env)) (of_int (he_now env)) p' cid ovr
           (lane_override_allowed cfg) = (lanes t, claim)" "\<forall>owner al. claim \<noteq> Some (Refused owner al)"
        and fx0: "fx0 = TmuxSend p' d' # post" "\<not> typed_into post"
      obtain more where more: "fx = TmuxSend p' d' # post @ more" "\<not> typed_into (post @ more)" using fx fx0 by auto
      then have pd: "p' = p" "d' = d" using assms(4) by (auto simp: typed_into_def)
      have ok: "server_ok cfg s" by (rule server_reach_ok [OF assms(1)])
      obtain a where a: "lanes s = Arbiter a" "arbiter_ok a" using ok by (rule lanes_ok_arbiter) blast
      have cid: "cid \<noteq> []" using ok cl by (auto simp: server_ok_def clients_ok_def)
      obtain a' res where ac: "arbiter_claim a (of_int (he_now env)) (of_int (he_now env)) p' cid ovr (lane_override_allowed cfg) = (a', res)"
        by (metis surj_pair)
      have lt: "lanes t = Arbiter a'" and cr: "claim = Some res"
        using claim(1) a(1) ac by (auto simp: claimPaneInputOwnership_def)
      obtain b where "res = Claimed b" using claim(2) cr by (cases res) auto
      then have "live_owner (of_int (he_now env)) a' p' = Some cid"
        using arbiter_claim_owners(3) [OF a(2) cid ac] by simp
      then show ?thesis using ev cl au g lt more pd by blast
    qed
  qed
qed

theorem input_requires_authority_witness:
  "\<exists>t fx env cid raw. step_event demo_cfg demo_host demo3 (Frame demo_env ''A'' ''i'') = (t, fx) \<and>
     TmuxSend ''p'' ''ls'' \<in> set fx \<and> Frame demo_env ''A'' ''i'' = Frame env cid raw \<and>
     (\<exists>a. lanes t = Arbiter a \<and> live_owner (of_int (he_now env)) a ''p'' = Some cid)"
proof -
  obtain tr where r: "server_reach demo_cfg demo_host tr demo3" using demo_reach by blast
  have ok: "event_ok demo3 (Frame demo_env ''A'' ''i'')" by (simp add: demo3_facts)
  obtain t post where st: "step_event demo_cfg demo_host demo3 (Frame demo_env ''A'' ''i'') = (t, TmuxSend ''p'' ''ls'' # post)"
    using demo_input by blast
  show ?thesis
    using input_requires_authority [OF r ok st, of "''p''" "''ls''"] st by fastforce
qed



section \<open>Authentication\<close>

definition auth_of :: "server \<Rightarrow> string \<Rightarrow> bool option" where
  "auth_of s c = map_option authenticated (map_of (clients s) c)"

lemma auth_upd_client [simp]:
  "(\<And>cl. authenticated (f cl) = authenticated cl) \<Longrightarrow> auth_of (upd_client cid f s) = auth_of s"
  by (rule ext) (auto simp: auth_of_def clients_upd_client option.map_comp comp_def)

lemma auth_only_io: "only_io s t \<Longrightarrow> auth_of t = auth_of s"
  by (simp add: only_io_def auth_of_def fun_eq_iff)

lemma auth_fields [simp]:
  "auth_of (s\<lparr>lanes := l\<rparr>) = auth_of s" "auth_of (s\<lparr>engine := e\<rparr>) = auth_of s"
  "auth_of (s\<lparr>messageLimiter := m\<rparr>) = auth_of s" "auth_of (s\<lparr>inputLimiter := m\<rparr>) = auth_of s"
  "auth_of (s\<lparr>telemetry := t\<rparr>) = auth_of s" "auth_of (s\<lparr>pendingAttachLag := g\<rparr>) = auth_of s"
  by (simp_all add: auth_of_def fun_eq_iff)

lemma attach_auth:
  "handle_attach cfg h env s cid cl st payload rid = (t, fx, r) \<Longrightarrow> auth_of t = auth_of s"
proof (erule handle_attach_cases)
  fix p lag since e calls res s3 fx' tel
  assume cb: "engine_callbacks h (he_done env) ((upd_client cid (\<lambda>c. c\<lparr>attachedPanes := sadd (attachedPanes c) p\<rparr>) s)
      \<lparr>pendingAttachLag := lag, engine := e\<rparr>) calls = (s3, fx')" and t: "t = s3\<lparr>telemetry := tel\<rparr>"
  from engine_callbacks_io [OF cb] have "auth_of s3 = auth_of ((upd_client cid
      (\<lambda>c. c\<lparr>attachedPanes := sadd (attachedPanes c) p\<rparr>) s)\<lparr>pendingAttachLag := lag, engine := e\<rparr>)"
    by (intro auth_only_io) simp
  then show "auth_of t = auth_of s" using t by simp
qed simp

lemma other_handlers_auth:
  "handle_list_sessions cfg h env s cid st rid = (t, fx, r) \<Longrightarrow> auth_of t = auth_of s"
  "handle_detach env s cid payload rid = (t, fx, r) \<Longrightarrow> auth_of t = auth_of s"
  "handle_enable_input cfg env s cid rid = (t, fx, r) \<Longrightarrow> auth_of t = auth_of s"
  "handle_disable_input cfg env s cid rid = (t, fx, r) \<Longrightarrow> auth_of t = auth_of s"
  "handle_input cfg h env s cid cl st payload rid = (t, fx, r) \<Longrightarrow> auth_of t = auth_of s"
  "handle_heartbeat env s cid rid = (t, fx, r) \<Longrightarrow> auth_of t = auth_of s"
  "handle_disconnect env s cid rid = (t, fx, r) \<Longrightarrow> auth_of t = auth_of s"
  by (auto simp: handle_list_sessions_def list_metadata_of_def handle_detach_def handle_enable_input_def
      handle_disable_input_def handle_heartbeat_def handle_disconnect_def handle_input_def Let_def
      split: if_splits sum.splits option.splits prod.splits claim_result.splits)

lemma handle_auth_auth:
  assumes "handle_auth cfg env s cid payload rid = (t, fx, r)" and "token_required cfg"
  shows "auth_of t = auth_of s \<or>
    parseNonEmptyString (prop_of payload ''token'') = authToken cfg \<and> (\<forall>c. c \<noteq> cid \<longrightarrow> auth_of t c = auth_of s c)"
proof -
  obtain tok where tok: "authToken cfg = Some tok" "tok \<noteq> []" using assms(2) by (auto simp: token_required_def)
  have "auth_of (upd_client cid f s) c = auth_of s c" if "c \<noteq> cid" for c f
    using that by (simp add: auth_of_def clients_upd_client)
  then show ?thesis
    using assms tok by (auto simp: handle_auth_def Let_def tokenEquals_iff split: if_splits option.splits)
qed

definition auth_frame :: "server_config \<Rightarrow> host \<Rightarrow> string \<Rightarrow> server_event \<Rightarrow> bool" where
  "auth_frame cfg h c ev \<longleftrightarrow> (\<exists>env raw m. ev = Frame env c raw \<and> parseIncomingClientMessage h cfg (he_now env) raw = Inr m \<and>
     env_type m = ''auth'' \<and> parseNonEmptyString (prop_of (env_payload m) ''token'') = authToken cfg)"

lemma step_auth:
  assumes "step_event cfg h s ev = (t, fx)" and "event_ok s ev" and "token_required cfg" and "auth_of t c = Some True"
  shows "auth_of s c = Some True \<or> auth_frame cfg h c ev"
proof (cases ev)
  case (Connect env cid)
  then show ?thesis using assms by (auto simp: onConnection_def Let_def auth_of_def split: if_splits)
next
  case (Close env cid code reason)
  then show ?thesis using assms by (auto simp: onClose_def Let_def auth_of_def split: if_splits prod.splits)
next
  case (Poll env captures)
  then obtain e calls where "engine_callbacks h (he_now env) (s\<lparr>engine := e\<rparr>) calls = (t, fx)"
    using assms(1) by (auto simp: onPollTimer_def split: prod.splits)
  then show ?thesis using auth_only_io engine_callbacks_io assms(4) by fastforce
next
  case (Frame env cid raw)
  then have "onMessage cfg h env s cid raw = (t, fx)" using assms(1) by simp
  then show ?thesis
  proof (cases rule: onMessage_cases)
    case (limited d)
    then show ?thesis using assms(4) by (simp add: auth_of_def)
  next
    case (unparsed err)
    then show ?thesis using assms(4) by (simp add: auth_of_def)
  next
    case (handled lim m fx0 r)
    let ?s1 = "s\<lparr>messageLimiter := lim\<rparr>"
    show ?thesis
    proof (cases "env_type m = ''auth'' \<and> map_of (clients ?s1) cid \<noteq> None")
      case True
      then have "handle_auth cfg env ?s1 cid (env_payload m) (env_requestId m) = (t, fx0, r)"
        using handled(2) by (auto simp: handleClientMessage_def)
      from handle_auth_auth [OF this assms(3)] show ?thesis
        using assms(4) Frame handled(1) True by (cases "c = cid") (auto simp: auth_frame_def)
    next
      case False
      then have "auth_of t = auth_of ?s1"
        using handled(2) other_handlers_auth attach_auth
        by (auto simp: handleClientMessage_def split: option.splits if_splits)
      then show ?thesis using assms(4) by simp
    qed
  qed
qed

end
