(* ===== verification/Server_Lifecycle.thy ===== *)
theory Server_Lifecycle
  imports Server_Guarantees
begin

text \<open>
  More guarantees over the runs of the bridge server: how a client becomes authenticated, what an
  unauthenticated client can do, the invariant of the whole server, what a closed connection leaves
  behind, that every frame is answered and that accepted input is audited.
\<close>

section \<open>Authentication\<close>

lemma run_auth:
  "server_reach cfg h tr s \<Longrightarrow> token_required cfg \<Longrightarrow> auth_of s c = Some True \<Longrightarrow>
   \<exists>ev fx. (ev, fx) \<in> set tr \<and> auth_frame cfg h c ev"
proof (induction rule: server_reach.induct)
  case srv_start
  then show ?case by (simp add: auth_of_def start_server_def)
next
  case (srv_event tr s ev s' fx)
  then show ?case using step_auth [OF srv_event.hyps(3,2) srv_event.prems] by auto
qed

definition locked_cfg :: server_config where
  "locked_cfg = demo_cfg\<lparr>authToken := Some ''t''\<rparr>"

definition locked_host :: host where
  "locked_host = demo_host\<lparr>json_parse := map_of
     [(''k'', JObj [(''type'', JStr ''auth''), (''payload'', JObj [(''token'', JStr ''t'')])]),
      (''i'', JObj [(''type'', JStr ''input''), (''payload'', JObj [(''paneId'', JStr ''p''), (''data'', JStr ''ls'')])])]\<rparr>"

definition locked1 :: server where
  "locked1 = fst (step_event locked_cfg locked_host (start_server locked_cfg) (Connect demo_env ''A''))"

definition locked2 :: server where
  "locked2 = fst (step_event locked_cfg locked_host locked1 (Frame demo_env ''A'' ''k''))"

lemmas locked_eval = locked_cfg_def locked_host_def demo_eval

lemma locked1_facts:
  "clients locked1 = [(''A'', \<lparr>authenticated = False, inputEnabled = False, attachedPanes = []\<rparr>)]"
  "messageLimiter locked1 = \<lparr>maxEvents = 10, windowMs = 60000, timestamps = []\<rparr>"
  by (simp_all add: locked1_def locked_eval)

lemma locked2_facts:
  "clients locked2 = [(''A'', \<lparr>authenticated = True, inputEnabled = False, attachedPanes = []\<rparr>)]"
  by (simp add: locked2_def locked_eval locked1_facts handle_auth_def parseNonEmptyString_def tokenEquals_iff)

lemma step_reach:
  "server_reach cfg h tr s \<Longrightarrow> event_ok s ev \<Longrightarrow>
   server_reach cfg h (tr @ [(ev, snd (step_event cfg h s ev))]) (fst (step_event cfg h s ev))"
  by (rule srv_event) simp_all

lemma locked1_reach: "\<exists>tr. server_reach locked_cfg locked_host tr locked1"
  unfolding locked1_def using step_reach [OF srv_start, where ev = "Connect demo_env ''A''"]
  by (auto simp: start_server_def)

lemma locked2_reach: "\<exists>tr. server_reach locked_cfg locked_host tr locked2"
proof -
  obtain tr where r: "server_reach locked_cfg locked_host tr locked1" using locked1_reach by blast
  have "event_ok locked1 (Frame demo_env ''A'' ''k'')" by (simp add: locked1_facts)
  from step_reach [OF r this] show ?thesis unfolding locked2_def by blast
qed

text \<open>
  C2: on a server with a token, a client is authenticated only if an earlier frame of this same
  client was an \<open>auth\<close> message that carried the configured token.
\<close>

theorem authentication_requires_token:
  assumes "token_required cfg" and "server_reach cfg h tr s"
    and "map_of (clients s) c = Some cl" and "authenticated cl"
  shows "\<exists>env raw m fx. (Frame env c raw, fx) \<in> set tr \<and>
     parseIncomingClientMessage h cfg (he_now env) raw = Inr m \<and> env_type m = ''auth'' \<and>
     parseNonEmptyString (prop_of (env_payload m) ''token'') = authToken cfg"
proof -
  have "auth_of s c = Some True" using assms(3,4) by (simp add: auth_of_def)
  from run_auth [OF assms(2,1) this] show ?thesis by (fastforce simp: auth_frame_def)
qed

theorem authentication_requires_token_witness:
  "token_required locked_cfg \<and> (\<exists>tr env raw fx. server_reach locked_cfg locked_host tr locked2 \<and>
     (Frame env ''A'' raw, fx) \<in> set tr)"
proof -
  obtain tr where r: "server_reach locked_cfg locked_host tr locked2" using locked2_reach by blast
  have t: "token_required locked_cfg" by (simp add: token_required_def locked_cfg_def)
  have "map_of (clients locked2) ''A'' = Some \<lparr>authenticated = True, inputEnabled = False, attachedPanes = []\<rparr>"
    by (simp add: locked2_facts)
  from authentication_requires_token [OF t r this] show ?thesis using t r by fastforce
qed

text \<open>
  A frame of an unauthenticated client that is not an \<open>auth\<close> message changes nothing but the
  count of its messages, and its only effect is one error envelope to this client: no audit record,
  no pane touched, nothing sent to anybody else.
\<close>

theorem unauthenticated_frame_is_inert:
  assumes "map_of (clients s) cid = Some cl" and "\<not> authenticated cl"
    and "step_event cfg h s (Frame env cid raw) = (t, fx)"
    and "\<And>m. parseIncomingClientMessage h cfg (he_now env) raw = Inr m \<Longrightarrow> env_type m \<noteq> ''auth''"
  shows "t = s\<lparr>messageLimiter := fst (consume (messageLimiter s) (he_now env) cid)\<rparr> \<and>
     (\<exists>msg. fx = [Send cid msg] \<and> env_type msg = ''error'')"
proof -
  obtain lim rate where c: "consume (messageLimiter s) (he_now env) cid = (lim, rate)" by (metis surj_pair)
  show ?thesis
    using assms c
    by (auto simp: onMessage_def handleClientMessage_def code_error_def envelope_def Let_def
        split: if_splits sum.splits)
qed

theorem unauthenticated_frame_is_inert_witness:
  "\<exists>t msg. step_event locked_cfg locked_host locked1 (Frame demo_env ''A'' ''i'') = (t, [Send ''A'' msg]) \<and>
     clients t = clients locked1 \<and> env_type msg = ''error''"
proof -
  obtain t fx where st: "step_event locked_cfg locked_host locked1 (Frame demo_env ''A'' ''i'') = (t, fx)"
    by (metis surj_pair)
  have m: "map_of (clients locked1) ''A'' = Some \<lparr>authenticated = False, inputEnabled = False, attachedPanes = []\<rparr>"
    by (simp add: locked1_facts)
  have "env_type m \<noteq> ''auth''"
    if "parseIncomingClientMessage locked_host locked_cfg (he_now demo_env) ''i'' = Inr m" for m
    using that by (auto simp: locked_eval)
  from unauthenticated_frame_is_inert [OF m _ st this] show ?thesis using st by auto
qed

section \<open>The invariant\<close>

text \<open>
  C4: in every reachable state: a client has at most the configured number of distinct panes
  attached, and none before it is authenticated; input is enabled only for authenticated clients and
  never under the kill switch; the engine delivers a pane only to connected clients that have it
  attached; and every input lane is held by such a client.
\<close>

theorem server_invariant:
  assumes "server_reach cfg h tr s"
  shows "(\<forall>c cl. map_of (clients s) c = Some cl \<longrightarrow>
      distinct (attachedPanes cl) \<and> int (length (attachedPanes cl)) \<le> max 0 (maxAttachedPanes cfg) \<and>
      (attachedPanes cl \<noteq> [] \<or> inputEnabled cl \<longrightarrow> authenticated cl) \<and> (inputEnabled cl \<longrightarrow> \<not> killSwitch cfg)) \<and>
    (\<forall>c p. subscribed (engine s) c p \<longrightarrow> attached_to s c p) \<and>
    (\<exists>a. lanes s = Arbiter a \<and> (\<forall>p l. map_of (paneOwners a) p = Some l \<longrightarrow> attached_to s (clientId l) p))"
  using server_reach_ok [OF assms]
  by (auto simp: server_ok_def clients_ok_def client_ok_def engine_ok_def lanes_ok_def)

theorem server_invariant_witness:
  "\<exists>tr a. server_reach demo_cfg demo_host tr demo3 \<and> lanes demo3 = Arbiter a \<and>
     map_of (clients demo3) ''A'' \<noteq> None \<and> \<not> subscribed (engine demo3) ''A'' ''other pane''"
proof -
  obtain tr where r: "server_reach demo_cfg demo_host tr demo3" using demo_reach by blast
  have "map_of (clients demo3) ''A'' \<noteq> None" "\<not> attached_to demo3 ''A'' ''other pane''"
    by (simp_all add: demo3_facts attached_to_def)
  then show ?thesis using r server_invariant [OF r] by blast
qed

section \<open>Every frame is answered\<close>

definition answers :: "string \<Rightarrow> string option \<Rightarrow> effect list \<Rightarrow> bool" where
  "answers cid rid fx \<longleftrightarrow> (\<exists>pre msg. fx = pre @ [Send cid msg] \<and> env_requestId msg = rid)"

lemma answers_simps [simp]:
  "answers cid rid (a @ [Send cid msg]) \<longleftrightarrow> env_requestId msg = rid"
  "answers cid rid [Send cid msg] \<longleftrightarrow> env_requestId msg = rid"
  "answers cid rid [x, Send cid msg] \<longleftrightarrow> env_requestId msg = rid"
  "answers cid rid [x, y, Send cid msg] \<longleftrightarrow> env_requestId msg = rid"
  by (auto simp: answers_def append_eq_Cons_conv)

lemma answers_append [simp]: "answers cid rid fx \<Longrightarrow> answers cid rid (a @ fx)"
  by (metis answers_def append.assoc)

lemma answers_Cons [simp]: "answers cid rid fx \<Longrightarrow> answers cid rid (x # fx)"
  using answers_append [of cid rid fx "[x]"] by simp

lemma handlers_answer:
  "handle_auth cfg env s cid payload rid = (t, fx, Inr ()) \<Longrightarrow> answers cid rid fx"
  "handle_list_sessions cfg h env s cid st rid = (t, fx, Inr ()) \<Longrightarrow> answers cid rid fx"
  "handle_detach env s cid payload rid = (t, fx, Inr ()) \<Longrightarrow> answers cid rid fx"
  "handle_enable_input cfg env s cid rid = (t, fx, Inr ()) \<Longrightarrow> answers cid rid fx"
  "handle_disable_input cfg env s cid rid = (t, fx, Inr ()) \<Longrightarrow> answers cid rid fx"
  "handle_heartbeat env s cid rid = (t, fx, Inr ()) \<Longrightarrow> answers cid rid fx"
  "handle_disconnect env s cid rid = (t, fx, Inr ()) \<Longrightarrow> answers cid rid fx"
  by (auto simp: handle_list_sessions_def handle_detach_def handle_enable_input_def policyUpdateEnvelope_def
      handle_disable_input_def handle_heartbeat_def handle_disconnect_def handle_auth_def Let_def code_error_def
      envelope_def split: if_splits sum.splits option.splits prod.splits)

lemma handle_attach_answers:
  "handle_attach cfg h env s cid cl st payload rid = (t, fx, Inr ()) \<Longrightarrow> answers cid rid fx"
  by (auto simp: handle_attach_def Let_def code_error_def envelope_def
      split: if_splits sum.splits option.splits prod.splits)

lemma handle_input_answers:
  "handle_input cfg h env s cid cl st payload rid = (t, fx, Inr ()) \<Longrightarrow> answers cid rid fx"
  by (auto simp: handle_input_def Let_def code_error_def envelope_def
      split: if_splits sum.splits option.splits prod.splits claim_result.splits)

lemma handleClientMessage_answers:
  assumes "handleClientMessage cfg h env s cid st ty payload rid = (t, fx, Inr ())"
    and "map_of (clients s) cid = Some cl"
  shows "answers cid rid fx"
  using assms(1) [unfolded handleClientMessage_def assms(2) option.case]
    handlers_answer handle_attach_answers handle_input_answers
  by (auto simp: envelope_def split: if_splits)

text \<open>
  Every frame of a connected client is answered: the last effect of handling it is an envelope
  to this client, also when the message is refused by the rate limit, does not parse, is of an
  unknown type, or the runtime fails; the answer to a message that was parsed and let through carries
  that message's request id.
\<close>

theorem every_frame_answered:
  assumes "map_of (clients s) cid = Some cl" and "step_event cfg h s (Frame env cid raw) = (t, fx)"
  shows "\<exists>rid. answers cid rid fx \<and>
     (\<forall>m. allowed (snd (consume (messageLimiter s) (he_now env) cid)) \<longrightarrow>
        parseIncomingClientMessage h cfg (he_now env) raw = Inr m \<longrightarrow> rid = env_requestId m)"
proof -
  obtain lim rate where c: "consume (messageLimiter s) (he_now env) cid = (lim, rate)" by (metis surj_pair)
  let ?s1 = "s\<lparr>messageLimiter := lim\<rparr>"
  have cl: "map_of (clients ?s1) cid = Some cl" using assms(1) by simp
  show ?thesis
  proof (cases "allowed rate")
    case False
    then show ?thesis using assms(2) c by (auto simp: onMessage_def Let_def envelope_def)
  next
    case True
    show ?thesis
    proof (cases "parseIncomingClientMessage h cfg (he_now env) raw")
      case (Inl err)
      then show ?thesis using assms(2) c True by (auto simp: onMessage_def Let_def code_error_def envelope_def)
    next
      case (Inr m)
      obtain s2 fx2 r where hm: "handleClientMessage cfg h env ?s1 cid (he_now env) (env_type m) (env_payload m)
          (env_requestId m) = (s2, fx2, r)" by (metis prod_cases3)
      have "answers cid (env_requestId m) fx"
      proof (cases r)
        case (Inl err)
        then show ?thesis using assms(2) c True Inr hm by (auto simp: onMessage_def Let_def envelope_def)
      next
        case (Inr u)
        then have "fx = fx2"
          using assms(2) c True \<open>parseIncomingClientMessage h cfg (he_now env) raw = Inr m\<close> hm
          by (auto simp: onMessage_def Let_def)
        then show ?thesis using handleClientMessage_answers [OF _ cl] hm Inr by (cases u) simp
      qed
      then show ?thesis using Inr by auto
    qed
  qed
qed

theorem every_frame_answered_witness:
  "\<exists>rid. answers ''A'' rid (snd (step_event demo_cfg demo_host demo3 (Frame demo_env ''A'' ''no json'')))"
proof -
  have "map_of (clients demo3) ''A'' = Some \<lparr>authenticated = True, inputEnabled = True, attachedPanes = [''p'']\<rparr>"
    by (simp add: demo3_facts)
  from every_frame_answered [OF this surjective_pairing] show ?thesis by blast
qed

section \<open>Accepted input is audited\<close>

text \<open>
  C25: text that reaches a pane is on record: right after the write comes an \<open>input\<close> audit record of
  this client with the pane, the number of bytes and the SHA-256 digest of the text (and not the text
  itself), or, when the runtime refused the text, the handling ends with a \<open>runtime_failure\<close> record.
\<close>

theorem accepted_input_is_audited:
  assumes "step_event cfg h s ev = (t, fx)" and "TmuxSend p d \<in> set fx"
  shows "\<exists>env cid raw. ev = Frame env cid raw \<and>
     ((\<exists>more. fx = TmuxSend p d # Audit ''input'' cid [(''paneId'', JStr p), (''bytes'', jint (byteLength d)),
         (''result'', JStr ''allowed''), (''reason'', JStr ''ok''), (''commandHash'', JStr (sha256 h d)),
         (''previewPolicy'', JStr ''sha256_only'')] # more) \<or>
      (\<exists>details. Audit ''runtime_failure'' cid details \<in> set fx))"
proof -
  have ty: "typed_into fx" using assms(2) by (auto simp: typed_into_def)
  from assms(1) ty show ?thesis
  proof (rule step_types)
    fix env cid raw lim cl fx0 r and m :: wire_envelope
    assume ev: "ev = Frame env cid raw" and hi: "handle_input cfg h env (s\<lparr>messageLimiter := lim\<rparr>) cid cl (he_now env)
        (env_payload m) (env_requestId m) = (t, fx0, r)" and ty0: "typed_into fx0"
      and out: "r = Inr () \<and> fx = fx0 \<or> (\<exists>d. Audit ''runtime_failure'' cid d \<in> set fx)"
    from hi ty0 show ?thesis
    proof (rule handle_input_types)
      fix p' d' post
      assume fx0: "fx0 = TmuxSend p' d' # post" "\<not> typed_into post"
        and audited: "r = Inr () \<Longrightarrow> \<exists>more. post = Audit ''input'' cid [(''paneId'', JStr p'), (''bytes'', jint (byteLength d')),
           (''result'', JStr ''allowed''), (''reason'', JStr ''ok''), (''commandHash'', JStr (sha256 h d')),
           (''previewPolicy'', JStr ''sha256_only'')] # more"
      show ?thesis
      proof (cases "r = Inr () \<and> fx = fx0")
        case True
        then have "p' = p" "d' = d" using assms(2) fx0 by (auto simp: typed_into_def)
        then show ?thesis using ev True fx0 audited by auto
      next
        case False
        then show ?thesis using ev out by blast
      qed
    qed
  qed
qed

theorem accepted_input_is_audited_witness:
  "\<exists>t fx env cid raw. step_event demo_cfg demo_host demo3 (Frame demo_env ''A'' ''i'') = (t, fx) \<and>
     TmuxSend ''p'' ''ls'' \<in> set fx \<and> Frame demo_env ''A'' ''i'' = Frame env cid raw"
proof -
  obtain t post where st: "step_event demo_cfg demo_host demo3 (Frame demo_env ''A'' ''i'') = (t, TmuxSend ''p'' ''ls'' # post)"
    using demo_input by blast
  show ?thesis using accepted_input_is_audited [OF st, of "''p''" "''ls''"] st by fastforce
qed

section \<open>Closed connections\<close>

lemma delete_while_iterating_keys:
  "map_of (delete_while_iterating (\<lambda>k _. P k) xs m) k = (if P k \<and> k \<in> fst ` set xs then None else map_of m k)"
  by (induction xs arbitrary: m) (auto, force)

lemma clearClientAttachLag_lookup:
  "map_of (clearClientAttachLag m c) k = (if startsWith k (c @ '':'') then None else map_of m k)"
proof (cases "k \<in> fst ` set m")
  case True
  then show ?thesis by (simp add: clearClientAttachLag_def delete_while_iterating_keys [where P = "\<lambda>k. startsWith k (c @ '':'')"])
next
  case False
  then have "map_of m k = None" by (simp add: map_of_eq_None_iff)
  then show ?thesis by (simp add: clearClientAttachLag_def delete_while_iterating_keys [where P = "\<lambda>k. startsWith k (c @ '':'')"])
qed

lemma auth_of_connected: "map_of (clients s) c \<noteq> None \<longleftrightarrow> auth_of s c \<noteq> None"
  by (simp add: auth_of_def)

lemma handleClientMessage_connected:
  assumes "handleClientMessage cfg h env s cid st ty payload rid = (t, fx, r)" and "map_of (clients t) c \<noteq> None"
  shows "map_of (clients s) c \<noteq> None"
proof (cases "ty = ''auth'' \<and> map_of (clients s) cid \<noteq> None")
  case True
  then have ha: "handle_auth cfg env s cid payload rid = (t, fx, r)"
    using assms(1) by (auto simp: handleClientMessage_def)
  show ?thesis
    using ha assms(2) by (auto simp: handle_auth_def Let_def clients_upd_client split: if_splits)
next
  case False
  then have "auth_of t = auth_of s"
    using assms(1) other_handlers_auth attach_auth
    by (auto simp: handleClientMessage_def split: option.splits if_splits)
  then show ?thesis using assms(2) unfolding auth_of_connected by simp
qed

lemma step_connected:
  assumes "step_event cfg h s ev = (t, fx)" and "event_ok s ev" and "map_of (clients t) c \<noteq> None"
  shows "map_of (clients s) c \<noteq> None \<or> CHR '':'' \<notin> set c"
proof (cases ev)
  case (Connect env cid)
  then show ?thesis using assms by (auto simp: onConnection_def Let_def split: if_splits)
next
  case (Close env cid code reason)
  then show ?thesis using assms by (auto simp: onClose_def Let_def split: if_splits prod.splits)
next
  case (Poll env captures)
  then obtain e calls where "engine_callbacks h (he_now env) (s\<lparr>engine := e\<rparr>) calls = (t, fx)"
    using assms(1) by (auto simp: onPollTimer_def split: prod.splits)
  then show ?thesis using engine_callbacks_io assms(3) by (fastforce simp: only_io_def)
next
  case (Frame env cid raw)
  then have "onMessage cfg h env s cid raw = (t, fx)" using assms(1) by simp
  then show ?thesis
  proof (cases rule: onMessage_cases)
    case (handled lim m fx0 r)
    show ?thesis using handleClientMessage_connected [OF handled(2) assms(3)] by simp
  qed (use assms(3) in auto)
qed

lemma connected_no_colon: "server_reach cfg h tr s \<Longrightarrow> map_of (clients s) c \<noteq> None \<Longrightarrow> CHR '':'' \<notin> set c"
proof (induction rule: server_reach.induct)
  case srv_start
  then show ?case by (simp add: start_server_def)
next
  case (srv_event tr s ev s' fx)
  then show ?case using step_connected by blast
qed

lemma lag_key_own: "startsWith (lag_key c p) (c @ '':'')"
  by (simp add: lag_key_def startsWith_prefix)



section \<open>Failed attaches\<close>

definition broken_env :: handler_env where
  "broken_env = demo_env\<lparr>he_capture := Inl (JStr ''no such pane'')\<rparr>"

definition broken3 :: server where
  "broken3 = fst (step_event demo_cfg demo_host demo2 (Frame broken_env ''A'' ''a''))"

text \<open>
  An attach whose pane cannot be captured is answered with an error and the engine forgets the
  subscription, but the server keeps the pane among the client's attached panes: it counts towards
  the limit, and the client may then type into this pane.
\<close>

theorem failed_attach_keeps_pane_attached:
  "\<exists>tr fx. server_reach demo_cfg demo_host tr demo2 \<and>
     step_event demo_cfg demo_host demo2 (Frame broken_env ''A'' ''a'') = (broken3, fx) \<and>
     (\<exists>details. Audit ''runtime_failure'' ''A'' details \<in> set fx) \<and>
     \<not> attached_to demo2 ''A'' ''p'' \<and> attached_to broken3 ''A'' ''p'' \<and> \<not> subscribed (engine broken3) ''A'' ''p'' \<and>
     typed_into (snd (step_event demo_cfg demo_host broken3 (Frame demo_env ''A'' ''i'')))"
proof -
  have reach: "\<exists>tr. server_reach demo_cfg demo_host tr demo2"
  proof -
    have "event_ok (start_server demo_cfg) (Connect demo_env ''A'')" by (simp add: start_server_def)
    from step_reach [OF srv_start this] obtain tr where r: "server_reach demo_cfg demo_host tr demo1"
      unfolding demo1_def demo_step_def by blast
    have "event_ok demo1 (Frame demo_env ''A'' ''e'')" by (simp add: demo1_facts)
    from step_reach [OF r this] show ?thesis unfolding demo2_def demo_step_def by blast
  qed
  note attach_eval = demo_eval broken_env_def demo2_facts handle_attach_def parseNonEmptyString_def
    parseOptionalInt_def sadd_def engine_eval history_limit_def default_maxHistoryEvents_def lag_key_def
  have b: "clients broken3 = [(''A'', \<lparr>authenticated = True, inputEnabled = True, attachedPanes = [''p'']\<rparr>)]"
    "messageLimiter broken3 = \<lparr>maxEvents = 10, windowMs = 60000, timestamps = [(''A'', [0, 0])]\<rparr>"
    "inputLimiter broken3 = \<lparr>maxEvents = 10, windowMs = 60000, timestamps = []\<rparr>"
    "lanes broken3 = Arbiter (new_arbiter JUndef)" "panes (engine broken3) = []"
    by (simp_all add: broken3_def attach_eval)
  have "\<exists>details. Audit ''runtime_failure'' ''A'' details \<in> set (snd (step_event demo_cfg demo_host demo2 (Frame broken_env ''A'' ''a'')))"
    by (simp add: attach_eval)
  moreover have "typed_into (snd (step_event demo_cfg demo_host broken3 (Frame demo_env ''A'' ''i'')))"
    by (simp add: demo_eval b handle_input_def parseNonEmptyString_def str_or_def isInputAllowed_def
      byteLength_ascii claimPaneInputOwnership_def arbiter_claim_def new_arbiter_def expireStaleOwners_def
      owner_free_def parseOptionalBoolean_def)
  moreover have "step_event demo_cfg demo_host demo2 (Frame broken_env ''A'' ''a'')
      = (broken3, snd (step_event demo_cfg demo_host demo2 (Frame broken_env ''A'' ''a'')))"
    by (simp only: broken3_def prod.collapse)
  moreover have "\<not> attached_to demo2 ''A'' ''p''" "attached_to broken3 ''A'' ''p''" "\<not> subscribed (engine broken3) ''A'' ''p''"
    by (simp_all add: attached_to_def subscribed_def demo2_facts b)
  ultimately show ?thesis using reach by blast
qed

end
