(* ===== verification/Client_Server.thy ===== *)
theory Client_Server
  imports Server_Lifecycle Client_Guarantees
begin

text \<open>
  The client library against the bridge server: what the server answers to each command of the client
  fits what the client expects, across both wires, and what the server sends without a request id the
  client does not deliver.
\<close>

section \<open>The server's replies\<close>

fun reply_to :: "string \<Rightarrow> string \<Rightarrow> effect \<Rightarrow> bool" where
  "reply_to cid rid (Send c m) = (c = cid \<and> env_requestId m = Some rid)"
| "reply_to cid rid _ = False"

definition fitting :: "handler_env \<Rightarrow> client_command \<Rightarrow> string \<Rightarrow> wire_envelope \<Rightarrow> bool" where
  "fitting env cmd rid m \<longleftrightarrow>
     (\<exists>t \<in> {he_now env, he_done env}. m = envelope t (env_type m) (env_payload m) (Some rid))
     \<and> env_type m \<in> set (EXPECTED_RESPONSE_TYPES_BY_COMMAND cmd)
     \<and> isResponsePayloadValid (env_type m) (JObj (env_payload m))"

text \<open>
  A handler that returns sends exactly one fitting reply; one that throws has sent none, and the
  dispatcher sends the error.
\<close>

definition replies_once :: "handler_env \<Rightarrow> client_command \<Rightarrow> string \<Rightarrow> string \<Rightarrow> handled \<Rightarrow> bool" where
  "replies_once env cmd cid rid out \<longleftrightarrow>
     (case out of (t, fx, r) \<Rightarrow>
        (case r of
           Inr _ \<Rightarrow> (\<exists>m. filter (reply_to cid rid) fx = [Send cid m] \<and> fitting env cmd rid m)
         | Inl _ \<Rightarrow> filter (reply_to cid rid) fx = []))"

lemma envelope_fields [simp]:
  "env_type (envelope t ty payload r) = ty"
  "env_payload (envelope t ty payload r) = payload"
  "env_requestId (envelope t ty payload r) = r"
  "env_timestamp (envelope t ty payload r) = t"
  by (simp_all add: envelope_def)

lemma error_fitting:
  assumes "t \<in> {he_now env, he_done env}"
  shows "fitting env cmd rid (envelope t ''error'' ((''code'', JStr code) # details) (Some rid))"
  using assms by (cases cmd) (auto simp: fitting_def payload_defs prop_of_def)

lemma typed_fitting:
  assumes "t \<in> {he_now env, he_done env}" "ty \<in> set (EXPECTED_RESPONSE_TYPES_BY_COMMAND cmd)"
    "isResponsePayloadValid ty (JObj payload)"
  shows "fitting env cmd rid (envelope t ty payload (Some rid))"
  using assms by (auto simp: fitting_def)

lemma ack_fitting:
  assumes "t \<in> {he_now env, he_done env}" "cmd \<in> {Cmd_attach, Cmd_detach, Cmd_input, Cmd_disconnect}"
  shows "fitting env cmd rid (envelope t ''ack'' payload (Some rid))"
  using assms by (intro typed_fitting) (auto simp: isResponsePayloadValid_def)

lemma callbacks_no_reply: "engine_callbacks h now s calls = (t, fx) \<Longrightarrow> filter (reply_to cid rid) fx = []"
proof (induction calls arbitrary: s fx)
  case Nil
  then show ?case by simp
next
  case (Cons call calls)
  then show ?case
    by (auto simp: onOutput_def onError_def Let_def split: engine_call.splits prod.splits option.splits)
qed

lemma attach_audits_no_reply [simp]: "filter (reply_to cid rid) (attach_audits c paneId lastSeq md) = []"
  by (auto simp: attach_audits_def split: option.splits jsnum.splits)

lemmas reply_defs = replies_once_def code_error_def rate_payload_def input_audit_def

lemma auth_replies: "replies_once env Cmd_auth cid rid (handle_auth cfg env s cid payload (Some rid))"
  by (auto simp: handle_auth_def reply_defs Let_def payload_defs prop_of_def split: option.splits intro!: typed_fitting)

lemma list_replies: "replies_once env Cmd_list_sessions cid rid (handle_list_sessions cfg h env s cid st (Some rid))"
  by (auto simp: handle_list_sessions_def reply_defs Let_def payload_defs prop_of_def
      split: sum.splits prod.splits intro!: typed_fitting)

lemma detach_replies: "replies_once env Cmd_detach cid rid (handle_detach env s cid payload (Some rid))"
  by (auto simp: handle_detach_def reply_defs Let_def split: option.splits prod.splits
      intro!: ack_fitting error_fitting)

lemma policy_replies:
  "replies_once env Cmd_enable_input cid rid (handle_enable_input cfg env s cid (Some rid))"
  "replies_once env Cmd_disable_input cid rid (handle_disable_input cfg env s cid (Some rid))"
  by (auto simp: handle_enable_input_def handle_disable_input_def policyUpdateEnvelope_def policy_payload_def
      reply_defs Let_def payload_defs prop_of_def intro!: typed_fitting)

lemma heartbeat_replies: "replies_once env Cmd_heartbeat cid rid (handle_heartbeat env s cid (Some rid))"
  by (auto simp: handle_heartbeat_def reply_defs payload_defs intro!: typed_fitting)

lemma disconnect_replies: "replies_once env Cmd_disconnect cid rid (handle_disconnect env s cid (Some rid))"
  by (auto simp: handle_disconnect_def reply_defs Let_def split: prod.splits intro!: ack_fitting)

lemma attach_replies: "replies_once env Cmd_attach cid rid (handle_attach cfg h env s cid cl st payload (Some rid))"
  by (auto simp: handle_attach_def reply_defs Let_def callbacks_no_reply
      split: option.splits prod.splits sum.splits intro!: ack_fitting error_fitting)

lemma input_replies: "replies_once env Cmd_input cid rid (handle_input cfg h env s cid cl st payload (Some rid))"
  by (simp add: handle_input_def reply_defs Let_def ack_fitting error_fitting
      split: option.split prod.split sum.split claim_result.split)

lemma client_message_replies:
  assumes "map_of (clients s) cid = Some cl"
  shows "replies_once env cmd cid rid
     (handleClientMessage cfg h env s cid st (command_name cmd) payload (Some rid))"
proof (cases "\<not> authenticated cl \<and> command_name cmd \<noteq> ''auth''")
  case True
  then show ?thesis
    using assms error_fitting [of "he_now env" env cmd rid "''auth_required''" "[(''recoverable'', JBool True)]"]
    by (simp add: handleClientMessage_def replies_once_def)
next
  case False
  then show ?thesis
    using assms auth_replies list_replies attach_replies detach_replies policy_replies input_replies
      heartbeat_replies disconnect_replies
    by (cases cmd) (simp_all add: handleClientMessage_def)
qed

lemma onMessage_replies:
  assumes "map_of (clients s) cid = Some cl"
    and "allowed (snd (consume (messageLimiter s) (he_now env) cid))"
    and "parseIncomingClientMessage h cfg (he_now env) raw = Inr (envelope t (command_name cmd) payload (Some rid))"
    and "onMessage cfg h env s cid raw = (s', fx)"
  shows "\<exists>m. filter (reply_to cid rid) fx = [Send cid m] \<and> fitting env cmd rid m"
proof -
  obtain lim rate where c: "consume (messageLimiter s) (he_now env) cid = (lim, rate)" by (metis surj_pair)
  let ?s1 = "s\<lparr>messageLimiter := lim\<rparr>"
  obtain s2 fx2 r where hm: "handleClientMessage cfg h env ?s1 cid (he_now env) (command_name cmd) payload (Some rid)
      = (s2, fx2, r)" by (metis prod_cases3)
  have once: "replies_once env cmd cid rid (s2, fx2, r)"
    unfolding hm [symmetric] by (rule client_message_replies [of _ _ cl]) (simp add: assms(1))
  show ?thesis
  proof (cases r)
    case (Inr u)
    then have "fx = fx2" using assms(2,3,4) c hm by (simp add: onMessage_def Let_def)
    then show ?thesis using once Inr by (simp add: replies_once_def)
  next
    case (Inl err)
    let ?f = "classifyBridgeRuntimeFailure (to_str h) err"
    let ?m = "envelope (he_done env) ''error'' [(''code'', JStr (rf_code ?f)), (''reason'', JStr (rf_reason ?f)),
      (''recoverable'', JBool (rf_recoverable ?f)), (''message'', JStr (rf_message ?f))] (Some rid)"
    have "filter (reply_to cid rid) fx = [Send cid ?m]"
      using assms(2,3,4) c hm once Inl by (auto simp: onMessage_def Let_def replies_once_def)
    moreover have "fitting env cmd rid ?m" by (rule error_fitting) simp
    ultimately show ?thesis by blast
  qed
qed

section \<open>Across the wire\<close>

lemma decimal_length: "n < 10 ^ Suc k \<Longrightarrow> length (decimal n) \<le> Suc k"
proof (induction k arbitrary: n)
  case 0
  then show ?case by (subst decimal.simps) simp
next
  case (Suc k)
  show ?case
  proof (cases "n < 10")
    case True
    then show ?thesis by (subst decimal.simps) simp
  next
    case False
    have "n div 10 < 10 ^ Suc k" using Suc.prems by (simp add: less_mult_imp_div_less mult.commute)
    then have "length (decimal (n div 10)) \<le> Suc k" by (rule Suc.IH)
    then show ?thesis using False by (subst decimal.simps) simp
  qed
qed

lemma decimal_ne: "decimal n \<noteq> []"
  by (subst decimal.simps) simp

lemma digit_printable: "is_digit ch \<Longrightarrow> request_id_char ch \<and> ch \<noteq> CHR '' ''"
  by (auto simp: is_digit_def request_id_char_def)

lemma command_name_printable: "list_all request_id_char (command_name cmd)"
  "command_name cmd \<noteq> []" "hd (command_name cmd) \<noteq> CHR '' ''" "length (command_name cmd) \<le> 13"
  by (cases cmd; simp add: request_id_char_def)+

lemma request_id_valid:
  assumes "0 \<le> t" "t \<le> max_safe_integer" "list_all request_id_char uuid" "length uuid \<le> 36"
    "int n \<le> max_safe_integer"
  shows "valid_request_id (request_id cmd t uuid n)"
proof -
  have dec: "list_all request_id_char (decimal j)" "last (decimal j) \<noteq> CHR '' ''" for j
    using decimal_digits [of _ j] digit_printable decimal_ne [of j] by (auto simp: list_all_iff)
  have num: "number_text t = decimal (nat t)" using assms(1) by (simp add: number_text_def)
  have "length (decimal (nat t)) \<le> Suc 15" "length (decimal n) \<le> Suc 15"
    using assms(1,2,5) by (intro decimal_length; simp add: max_safe_integer_def)+
  moreover have "request_id_char (CHR ''-'')" by (simp add: request_id_char_def)
  ultimately show ?thesis
    using command_name_printable [of cmd] dec assms(3,4) decimal_ne [of n]
    by (auto simp: valid_request_id_def request_id_def num)
qed

lemma command_allowed: "command_name cmd \<in> set PROTOCOL_V1_ALLOWED_EVENT_TYPES"
  "ty \<in> set (EXPECTED_RESPONSE_TYPES_BY_COMMAND cmd) \<Longrightarrow> ty \<in> set PROTOCOL_V1_ALLOWED_EVENT_TYPES"
  by (cases cmd; auto simp: PROTOCOL_V1_ALLOWED_EVENT_TYPES_def PROTOCOL_V1_REQUIRED_EVENT_TYPES_def
      PROTOCOL_V1_RUNTIME_EVENT_TYPES_def)+

lemma fitting_settles:
  assumes "fitting env cmd rid m"
  shows "settle_request p (EXPECTED_RESPONSE_TYPES_BY_COMMAND cmd) rid m =
     (if env_type m = ''error'' \<or> env_type m = ''auth_error''
      then Request_rejected rid (CommandRelayProtocolError (cp_string p) (env_type m) (env_payload m))
      else Request_resolved rid m)"
  using assms by (simp add: fitting_def settle_request_def isUnknownResponseTypeAllowed_def)


text \<open>A bridge without a token whose client \<open>A\<close> sends a heartbeat.\<close>

definition wire_cfg :: server_config where
  "wire_cfg = demo_cfg\<lparr>strictProtocolParsing := True\<rparr>"

definition wire_request :: wire_envelope where
  "wire_request = envelope 9 ''heartbeat'' [] (Some ''heartbeat-9-v-1'')"

definition wire_reply :: wire_envelope where
  "wire_reply = envelope 0 ''heartbeat_ack'' [(''clientId'', JStr ''A'')] (Some ''heartbeat-9-v-1'')"

definition wire_host :: host where
  "wire_host = demo_host\<lparr>json_parse := (\<lambda>raw. if raw = ''b'' then Some (envelope_json wire_request) else None)\<rparr>"

definition wire_platform :: client_platform where
  "wire_platform = demo_platform\<lparr>cp_parse := (\<lambda>raw. if raw = ''r'' then Some (envelope_json wire_reply) else cp_parse demo_platform raw)\<rparr>"

abbreviation wire_client :: bridge_client where
  "wire_client \<equiv> fst (client_run wire_platform (new_client ''ws'' demo_options) demo_events)"

lemma wire_facts:
  "map_of (pendingRequests wire_client) ''heartbeat-9-v-1'' = Some [''heartbeat_ack'', ''error'']"
  "map_of (connections wire_client) 0 = Some (new_connection\<lparr>cn_state := Sock_open, cn_open_listener := False,
     handshakeResolved := True\<rparr>)"
  "protocol_loaded wire_client" "parse_strict wire_client"
  by code_simp+

lemma wire_served:
  "onMessage wire_cfg wire_host demo_env demo1 ''A'' ''b'' =
     (fst (onMessage wire_cfg wire_host demo_env demo1 ''A'' ''b''), [Send ''A'' wire_reply])"
proof -
  have "snd (onMessage wire_cfg wire_host demo_env demo1 ''A'' ''b'') = [Send ''A'' wire_reply]" by code_simp
  then show ?thesis by (metis prod.collapse)
qed

lemma wire_request_id: "''heartbeat-9-v-1'' = request_id Cmd_heartbeat 9 ''v'' 1"
  by code_simp


text \<open>
  The hello a bridge sends to a new connection is one the client accepts: it completes the handshake,
  stores the hello and resolves \<open>connect\<close>.
\<close>

theorem bridge_hello_connects:
  assumes "onConnection cfg env s cid = (s', fx)" and "0 \<le> maxInputBytes cfg" and "0 \<le> maxAttachedPanes cfg"
    and "0 \<le> he_done env" and "he_done env \<le> max_safe_integer"
    and "map_of (connections c) k = Some conn" and "cn_message_listener conn" and "\<not> handshakeResolved conn"
    and "\<not> handshakeRejected conn" and "protocol_loaded c" and "parse_strict c"
  shows "\<exists>m. Send cid m \<in> set fx \<and> env_type m = ''hello'' \<and>
     (\<forall>raw now. cp_parse p raw = Some (envelope_json m) \<and> byteLength raw \<le> 65536 \<longrightarrow>
        (case client_handle p c (Socket_message k now (Frame_string raw)) of (c', out) \<Rightarrow>
           out = [Emit ''hello'' m, Connect_resolved k (env_payload m)] \<and> helloPayload c' = Some (env_payload m)))"
proof -
  define m where "m = envelope (he_done env) ''hello''
             ([(''clientId'', JStr cid), (''requiresAuth'', JBool (token_required cfg))] @
              policy_payload (buildInputPolicyState
                \<lparr>globalInputDisabled = killSwitch cfg, clientInputEnabled = False\<rparr>) @
              [(''maxInputBytes'', jint (maxInputBytes cfg)), (''maxAttachedPanes'', jint (maxAttachedPanes cfg))]) None"
  have sent: "Send cid m \<in> set fx" using assms(1) by (auto simp: onConnection_def m_def Let_def)
  have ok: "isHelloPayload (JObj (env_payload m))"
    using assms(2,3) by (simp add: m_def payload_defs prop_of_def policy_payload_def)
  have parsed: "parseMessage (cp_parse p) True now raw = Inr m"
    if "cp_parse p raw = Some (envelope_json m)" "byteLength raw \<le> 65536" for raw now
    by (rule parse_sent_envelope [OF m_def]) (use assms(4,5) that in \<open>auto simp: PROTOCOL_V1_ALLOWED_EVENT_TYPES_def
        PROTOCOL_V1_RUNTIME_EVENT_TYPES_def V1_REQUEST_ID_REQUIRED_TYPES_def\<close>)
  have fields: "env_type m = ''hello''" "env_requestId m = None" by (simp_all add: m_def)
  show ?thesis
    using sent ok parsed fields assms(6-11)
    by (intro exI [of _ m]) (auto simp: on_connection_def handleMessage_def normalizeIncomingFrame_def
        parseIncomingMessage_def dispatchIncoming_def)
qed

section \<open>What does not reach the client's listeners\<close>

text \<open>
  Pane output: every envelope the bridge streams to a client is dropped by the client library, because it
  carries no request id.
\<close>

theorem streamed_output_never_heard:
  assumes "onOutput now s cid ev = (s', fx)" and "Send cid m \<in> set fx"
  shows "env_type m = ''output'' \<and> isOutputPayload (JObj (env_payload m)) = (0 \<le> ev_streamSeq ev)
     \<and> dispatchIncoming p c m = (c, [])"
proof -
  have m: "m = envelope now ''output'' (event_json ev) None"
    using assms by (auto simp: onOutput_def Let_def split: option.splits)
  have "isOutputPayload (JObj (event_json ev)) = (0 \<le> ev_streamSeq ev)"
    by (cases "ev_mode ev") (simp_all add: event_json_def payload_defs prop_of_def)
  then show ?thesis by (simp add: m dispatchIncoming_def)
qed

text \<open>
  A request over the message rate: the bridge's error has no request id, the client's strict parser
  refuses it, and the request stays pending until its timeout.
\<close>

theorem rate_limited_request_unanswered:
  assumes "\<not> allowed (snd (consume (messageLimiter s) (he_now env) cid))" and "onMessage cfg h env s cid raw = (s', fx)"
    and "0 \<le> he_now env" and "he_now env \<le> max_safe_integer"
  shows "\<exists>m. fx = [Send cid m] \<and> env_type m = ''error'' \<and>
     (\<forall>raw' now. cp_parse p raw' = Some (envelope_json m) \<and> byteLength raw' \<le> 65536 \<longrightarrow>
        parseMessage (cp_parse p) True now raw' = Inl ''missing_request_id'')"
proof -
  obtain lim rate where c: "consume (messageLimiter s) (he_now env) cid = (lim, rate)" by (metis surj_pair)
  have fx: "fx = [Send cid (envelope (he_now env) ''error'' (rate_payload ''rate_limited'' rate) None)]"
    using assms(1,2) c by (simp add: onMessage_def Let_def)
  obtain payload where m: "fx = [Send cid (envelope (he_now env) ''error'' payload None)]" using fx by blast
  let ?m = "envelope (he_now env) ''error'' payload None"
  obtain obj where obj: "envelope_json ?m = JObj obj" by (simp add: envelope_json_def)
  then have props: "prop_of obj ''v'' = jint 1" "prop_of obj ''type'' = JStr ''error''"
    "prop_of obj ''timestamp'' = jint (he_now env)" "prop_of obj ''payload'' = JObj payload" "prop_of obj ''requestId'' = JUndef"
    by (auto simp: envelope_json_def envelope_def prop_of_def PROTOCOL_V1_def)
  have "safe_timestamp (jint (he_now env)) = Some (he_now env)" using assms(3,4) by (simp add: safe_timestamp_def)
  then have "parseStrictV1 obj ''error'' = Inl ''missing_request_id''"
    by (simp add: parseStrictV1_def props PROTOCOL_V1_def PROTOCOL_V1_ALLOWED_EVENT_TYPES_def
        PROTOCOL_V1_REQUIRED_EVENT_TYPES_def V1_REQUEST_ID_REQUIRED_TYPES_def validateRequestId_def no_value_def)
  moreover have "trim ''error'' = ''error''" by (simp add: trim_def is_ws_def)
  ultimately have "parseMessage (cp_parse p) True now raw' = Inl ''missing_request_id''"
    if "cp_parse p raw' = Some (envelope_json ?m)" "byteLength raw' \<le> 65536" for raw' now
    using that by (simp add: parseMessage_def obj props MAX_V1_ENVELOPE_BYTES_def)
  then show ?thesis by (auto simp: m)
qed

end
