(* ===== verification/Proxy_Core.thy ===== *)
theory Proxy_Core
  imports Config
begin

text \<open>
  The choice of an outbound proxy from the environment, \<^verbatim>\<open>packages/proxy-core/src/index.ts\<close>, and the adapter of
  \<^verbatim>\<open>packages/proxy-agent/src/proxy-settings.ts\<close>. A URL is what the code reads of a \<open>URL\<close> object; the parser
  behind \<open>new URL\<close> is the parameter \<open>url\<close>, nothing when it throws.
\<close>

section \<open>Data\<close>

record js_url =
  u_protocol :: string
  u_hostname :: string
  u_port :: string
  u_href :: string

type_synonym full_url_parser = "string \<Rightarrow> js_url option"

record no_proxy_rule =
  np_host :: string
  np_port :: "int option"
  np_matchSubdomains :: bool

record proxy_settings =
  ps_httpProxy :: "string option"
  ps_httpsProxy :: "string option"
  ps_allProxy :: "string option"
  ps_noProxy :: "no_proxy_rule list"

section \<open>Reading the environment\<close>

definition readRawEnv :: "environment \<Rightarrow> string \<Rightarrow> string \<Rightarrow> string option" where
  "readRawEnv env primary secondary = (case env primary of Some v \<Rightarrow> Some v | None \<Rightarrow> env secondary)"

definition readProxyEnv :: "environment \<Rightarrow> string \<Rightarrow> string \<Rightarrow> bool \<Rightarrow> string option" where
  "readProxyEnv env uppercase lowercase ignoreUppercase =
     (case readRawEnv env lowercase lowercase of
        Some v \<Rightarrow> Some v
      | None \<Rightarrow> (if ignoreUppercase then None else readRawEnv env uppercase uppercase))"

definition scheme_char :: "char \<Rightarrow> bool" where
  "scheme_char c \<longleftrightarrow> is_alnum c \<or> c \<in> set ''+.-''"

definition has_scheme :: "string \<Rightarrow> bool" where
  "has_scheme v \<longleftrightarrow>
     (let s = takeWhile scheme_char v
      in s \<noteq> [] \<and> is_alnum (hd s) \<and> \<not> is_digit (hd s) \<and> startsWith (drop (length s) v) ''://'')"

definition SUPPORTED_PROXY_PROTOCOLS :: "string list" where
  "SUPPORTED_PROXY_PROTOCOLS = [''http:'', ''https:'', ''socks:'', ''socks4:'', ''socks4a:'', ''socks5:'', ''socks5h:'',
     ''pac+http:'', ''pac+https:'', ''pac+file:'', ''pac+data:'']"

definition sanitizeProxyUrl :: "full_url_parser \<Rightarrow> string option \<Rightarrow> string option" where
  "sanitizeProxyUrl url rawValue =
     (case rawValue of
        None \<Rightarrow> None
      | Some raw \<Rightarrow>
          (let value = trim raw
           in if value = [] then None
              else case url (if has_scheme value then value else ''http://'' @ value) of
                None \<Rightarrow> None
              | Some u \<Rightarrow>
                  (let protocol = toLowerCase (u_protocol u)
                   in if protocol \<notin> set SUPPORTED_PROXY_PROTOCOLS then None
                      else if protocol \<noteq> ''pac+file:'' \<and> protocol \<noteq> ''pac+data:'' \<and> u_hostname u = [] then None
                      else Some (u_href u))))"

section \<open>\<open>NO_PROXY\<close>\<close>

definition parsePort :: "string \<Rightarrow> int option" where
  "parsePort t =
     (if t = [] then None
      else if \<not> list_all is_digit t then None
      else case parseInt t of
        Fin q \<Rightarrow> (if \<not> isSafeInteger (JNum (Fin q)) \<or> \<lfloor>q\<rfloor> \<le> 0 \<or> \<lfloor>q\<rfloor> > 65535 then None else Some \<lfloor>q\<rfloor>)
      | _ \<Rightarrow> None)"

definition normalizeHost :: "string \<Rightarrow> string option" where
  "normalizeHost host =
     (let trimmed = toLowerCase (trim host);
          unbracketed = (if startsWith trimmed ''['' \<and> endsWith trimmed '']'' then butlast (tl trimmed) else trimmed);
          normalized = (if endsWith unbracketed ''.'' then butlast unbracketed else unbracketed)
      in if trimmed = [] then None
         else if normalized = [] \<or> CHR ''/'' \<in> set normalized \<or> CHR '' '' \<in> set normalized then None
         else Some normalized)"

definition isIP :: "string \<Rightarrow> bool" where
  "isIP h \<longleftrightarrow> is_ipv4 h \<or> is_ipv6 h"

definition shouldMatchSubdomains :: "string \<Rightarrow> bool \<Rightarrow> bool" where
  "shouldMatchSubdomains host hasWildcardPrefix =
     (if host = ''*'' then False
      else if hasWildcardPrefix then True
      else if isIP host \<or> host = ''localhost'' then False
      else CHR ''.'' \<in> set host)"

definition parseNoProxyUrlToken :: "full_url_parser \<Rightarrow> string \<Rightarrow> (string \<times> int option) option" where
  "parseNoProxyUrlToken url t =
     (if \<not> str_includes t ''://'' then None
      else case url t of None \<Rightarrow> None | Some u \<Rightarrow> Some (u_hostname u, parsePort (u_port u)))"

definition splitHostAndPort :: "string \<Rightarrow> (string \<times> int option) option" where
  "splitHostAndPort t =
     (if t = [] then None
      else if startsWith t ''['' then
        (case indexOf t CHR '']'' of
           None \<Rightarrow> None
         | Some i \<Rightarrow>
             (let host = drop 1 (take i t); rest = drop (i + 1) t
              in if i = 0 then None
                 else if rest = [] then Some (host, None)
                 else if \<not> startsWith rest '':'' then None
                 else case parsePort (tl rest) of None \<Rightarrow> None | Some p \<Rightarrow> Some (host, Some p)))
      else (let colons = length (filter (\<lambda>c. c = CHR '':'') t)
            in if colons > 1 then None
               else if colons = 1 then
                 (let i = the (last_index t CHR '':'')
                  in case parsePort (drop (i + 1) t) of None \<Rightarrow> None | Some p \<Rightarrow> Some (take i t, Some p))
               else Some (t, None)))"

definition drop_wildcard :: "string \<Rightarrow> string" where
  "drop_wildcard t = (if startsWith t ''*.'' then drop 2 t else if startsWith t ''.'' then drop 1 t else t)"

definition parseNoProxyToken :: "full_url_parser \<Rightarrow> string \<Rightarrow> no_proxy_rule option" where
  "parseNoProxyToken url t =
     (if t = [] then None
      else if t = ''*'' then Some \<lparr>np_host = ''*'', np_port = None, np_matchSubdomains = False\<rparr>
      else case parseNoProxyUrlToken url t of
        Some (h, p) \<Rightarrow>
          (case normalizeHost h of
             None \<Rightarrow> None
           | Some host \<Rightarrow> Some \<lparr>np_host = host, np_port = p, np_matchSubdomains = shouldMatchSubdomains host False\<rparr>)
      | None \<Rightarrow>
          (let wildcardPrefix = (startsWith t ''*.'' \<or> startsWith t ''.'')
           in case splitHostAndPort (if wildcardPrefix then drop_wildcard t else t) of
                None \<Rightarrow> None
              | Some (h, p) \<Rightarrow>
                  (case normalizeHost h of
                     None \<Rightarrow> None
                   | Some host \<Rightarrow> Some \<lparr>np_host = host, np_port = p,
                       np_matchSubdomains = shouldMatchSubdomains host wildcardPrefix\<rparr>)))"

definition parseNoProxy :: "full_url_parser \<Rightarrow> string \<Rightarrow> no_proxy_rule list" where
  "parseNoProxy url raw =
     (if trim raw = [] then [] else List.map_filter (\<lambda>t. parseNoProxyToken url (trim t)) (split_on CHR '','' raw))"

definition isSubdomainOf :: "string \<Rightarrow> string \<Rightarrow> bool" where
  "isSubdomainOf host parent =
     (if \<not> endsWith host parent then False
      else (let boundary = int (length host) - int (length parent) - 1 in boundary \<ge> 0 \<and> host ! nat boundary = CHR ''.''))"

definition matchesRuleHost :: "string \<Rightarrow> no_proxy_rule \<Rightarrow> bool" where
  "matchesRuleHost targetHost rule =
     (if targetHost = np_host rule then True else if \<not> np_matchSubdomains rule then False else isSubdomainOf targetHost (np_host rule))"

definition getTargetPort :: "js_url \<Rightarrow> int" where
  "getTargetPort u =
     (case (if u_port u = [] then None else parsePort (u_port u)) of
        Some p \<Rightarrow> p
      | None \<Rightarrow> (if u_protocol u = ''https:'' \<or> u_protocol u = ''wss:'' then 443 else 80))"

fun bypass_rules :: "string \<Rightarrow> int \<Rightarrow> no_proxy_rule list \<Rightarrow> bool" where
  "bypass_rules host port [] = False"
| "bypass_rules host port (r # rs) =
     (if np_host r = ''*'' then True
      else if \<not> matchesRuleHost host r then bypass_rules host port rs
      else if np_port r = None \<or> np_port r = Some port then True
      else bypass_rules host port rs)"

definition shouldBypassProxy :: "js_url \<Rightarrow> no_proxy_rule list \<Rightarrow> bool" where
  "shouldBypassProxy u rules =
     (if rules = [] then False
      else case normalizeHost (u_hostname u) of None \<Rightarrow> False | Some host \<Rightarrow> bypass_rules host (getTargetPort u) rules)"

section \<open>Settings and resolution\<close>

definition truthy :: "string option \<Rightarrow> bool" where
  "truthy v \<longleftrightarrow> v \<noteq> None \<and> v \<noteq> Some []"

definition loadProxySettings :: "full_url_parser \<Rightarrow> environment \<Rightarrow> proxy_settings" where
  "loadProxySettings url env =
     (let isCgi = truthy (readRawEnv env ''REQUEST_METHOD'' ''request_method'')
      in \<lparr>ps_httpProxy = sanitizeProxyUrl url (readProxyEnv env ''HTTP_PROXY'' ''http_proxy'' isCgi),
          ps_httpsProxy = sanitizeProxyUrl url (readProxyEnv env ''HTTPS_PROXY'' ''https_proxy'' False),
          ps_allProxy = sanitizeProxyUrl url (readProxyEnv env ''ALL_PROXY'' ''all_proxy'' False),
          ps_noProxy = parseNoProxy url (case readRawEnv env ''NO_PROXY'' ''no_proxy'' of None \<Rightarrow> [] | Some v \<Rightarrow> v)\<rparr>)"

definition or_else :: "string option \<Rightarrow> string option \<Rightarrow> string option" where
  "or_else a b = (case a of Some v \<Rightarrow> Some v | None \<Rightarrow> b)"

definition resolveProxyForUrl :: "js_url \<Rightarrow> proxy_settings \<Rightarrow> string option" where
  "resolveProxyForUrl u s =
     (if shouldBypassProxy u (ps_noProxy s) then None
      else if u_protocol u \<in> set [''http:'', ''ws:''] then or_else (ps_httpProxy s) (ps_allProxy s)
      else if u_protocol u \<in> set [''https:'', ''wss:''] then or_else (ps_httpsProxy s) (or_else (ps_httpProxy s) (ps_allProxy s))
      else ps_allProxy s)"

definition resolveProxyForUrlFromEnv :: "full_url_parser \<Rightarrow> string \<Rightarrow> environment \<Rightarrow> (jsval, string option) result" where
  "resolveProxyForUrlFromEnv url target env =
     (case url target of None \<Rightarrow> Inl (err ''Invalid URL'') | Some u \<Rightarrow> Inr (resolveProxyForUrl u (loadProxySettings url env)))"

section \<open>Matching by labels\<close>

abbreviation dot_labels :: "string \<Rightarrow> string list" where
  "dot_labels h \<equiv> split_on CHR ''.'' h"

lemma split_on_append: "split_on c (a @ c # b) = split_on c a @ split_on c b"
  by (induction a) (auto split: list.splits)

lemma join_append: "xs \<noteq> [] \<Longrightarrow> ys \<noteq> [] \<Longrightarrow> join sep (xs @ ys) = join sep xs @ sep @ join sep ys"
proof (induction xs rule: induct_list012)
  case (2 x)
  then show ?case by (cases ys) auto
qed auto

lemma isSubdomainOf_iff: "isSubdomainOf host parent \<longleftrightarrow> (\<exists>pre. host = pre @ CHR ''.'' # parent)"
proof
  assume sub: "isSubdomainOf host parent"
  then obtain t where t: "host = t @ parent" by (auto simp: isSubdomainOf_def endsWith_suffix split: if_splits)
  have n: "nat (int (length t) - 1) = length t - 1" by (cases t) auto
  have "t \<noteq> []" "host ! (length t - 1) = CHR ''.''"
    using sub t n by (auto simp: isSubdomainOf_def Let_def split: if_splits)
  then have "last t = CHR ''.''" using t by (simp add: nth_append last_conv_nth)
  then show "\<exists>pre. host = pre @ CHR ''.'' # parent"
    using t append_butlast_last_id [OF \<open>t \<noteq> []\<close>] by (intro exI [of _ "butlast t"]) simp
next
  assume "\<exists>pre. host = pre @ CHR ''.'' # parent"
  then obtain pre where h: "host = (pre @ ''.'') @ parent" by auto
  then have "endsWith host parent" by (auto simp: endsWith_suffix)
  then show "isSubdomainOf host parent" using h by (simp add: isSubdomainOf_def Let_def nth_append)
qed

lemma isSubdomainOf_labels:
  "isSubdomainOf host parent \<longleftrightarrow> (\<exists>ls. ls \<noteq> [] \<and> dot_labels host = ls @ dot_labels parent)"
proof
  assume "isSubdomainOf host parent"
  then show "\<exists>ls. ls \<noteq> [] \<and> dot_labels host = ls @ dot_labels parent"
    unfolding isSubdomainOf_iff by (auto simp: split_on_append)
next
  assume "\<exists>ls. ls \<noteq> [] \<and> dot_labels host = ls @ dot_labels parent"
  then obtain ls where ls: "ls \<noteq> []" "dot_labels host = ls @ dot_labels parent" by blast
  have "host = join ''.'' (dot_labels host)" by simp
  also have "\<dots> = join ''.'' ls @ CHR ''.'' # parent" unfolding ls(2) using ls(1) by (simp add: join_append)
  finally show "isSubdomainOf host parent" unfolding isSubdomainOf_iff by blast
qed

lemma labels_inj: "dot_labels a = dot_labels b \<longleftrightarrow> a = b"
  by (metis join_split_on)

text \<open>A host falls under a rule: the port agrees, and the labels of the rule end the labels of the host.\<close>

definition rule_covers :: "string \<Rightarrow> int \<Rightarrow> no_proxy_rule \<Rightarrow> bool" where
  "rule_covers host port r \<longleftrightarrow> np_host r = ''*'' \<or>
     ((np_port r = None \<or> np_port r = Some port) \<and>
      (\<exists>ls. dot_labels host = ls @ dot_labels (np_host r) \<and> (ls = [] \<or> np_matchSubdomains r)))"

lemma matchesRuleHost_labels:
  "matchesRuleHost host r \<longleftrightarrow> (\<exists>ls. dot_labels host = ls @ dot_labels (np_host r) \<and> (ls = [] \<or> np_matchSubdomains r))"
  using isSubdomainOf_labels [of host "np_host r"] labels_inj [of host "np_host r"]
  by (auto simp: matchesRuleHost_def)

lemma bypass_rules_iff: "bypass_rules host port rs \<longleftrightarrow> (\<exists>r \<in> set rs. rule_covers host port r)"
  by (induction rs) (auto simp: rule_covers_def matchesRuleHost_labels [symmetric])

lemma trim_empty_iff: "trim s = [] \<longleftrightarrow> list_all is_ws s"
proof
  assume "trim s = []"
  then have "\<forall>c \<in> set (dropWhile is_ws s). is_ws c" by (simp add: trim_def)
  then have "dropWhile is_ws s = []" using hd_dropWhile [of is_ws s] hd_in_set by blast
  then show "list_all is_ws s" by (simp add: list_all_iff)
qed (auto simp: trim_def list_all_iff dest: set_dropWhileD)

lemma split_on_subset: "p \<in> set (split_on c s) \<Longrightarrow> set p \<subseteq> set s"
proof (induction s arbitrary: p)
  case (Cons x s)
  obtain y ys where "split_on c s = y # ys" by (metis list.exhaust split_on_ne)
  with Cons show ?case by (auto split: if_splits; blast)
qed simp

lemma set_map_filter_option: "set (List.map_filter f xs) = {r. \<exists>t \<in> set xs. f t = Some r}"
  by (induction xs) (auto simp: List.map_filter_simps split: option.splits)

lemma parseNoProxy_set:
  "set (parseNoProxy url raw) = {r. \<exists>t \<in> set (split_on CHR '','' raw). parseNoProxyToken url (trim t) = Some r}"
proof (cases "trim raw = []")
  case True
  have "trim t = []" if "t \<in> set (split_on CHR '','' raw)" for t
    using True split_on_subset [OF that] by (auto simp: trim_empty_iff list_all_iff)
  then show ?thesis using True by (auto simp: parseNoProxy_def parseNoProxyToken_def)
next
  case False
  then show ?thesis by (simp add: parseNoProxy_def set_map_filter_option)
qed


text \<open>
  A request header of a CGI program becomes the variable \<open>HTTP_PROXY\<close>; when a request is being served that
  variable has no influence.
\<close>

lemma readRawEnv_other: "a \<noteq> k \<Longrightarrow> b \<noteq> k \<Longrightarrow> readRawEnv (env(k := v)) a b = readRawEnv env a b"
  by (simp add: readRawEnv_def split: option.splits)

lemma cgi_ignores_http_proxy:
  assumes "truthy (readRawEnv env ''REQUEST_METHOD'' ''request_method'')"
  shows "loadProxySettings url (env(''HTTP_PROXY'' := v)) = loadProxySettings url env"
  using assms by (simp add: loadProxySettings_def readProxyEnv_def Let_def readRawEnv_other cong: option.case_cong)

text \<open>
  The lower-case variable wins for the three proxies; for \<open>NO_PROXY\<close> it is the upper-case one. A star with a port covers every port.
\<close>

lemma no_proxy_uppercase_wins:
  "env ''NO_PROXY'' = Some a \<Longrightarrow> ps_noProxy (loadProxySettings url env) = parseNoProxy url a"
  by (simp add: loadProxySettings_def readRawEnv_def Let_def)

lemma star_ignores_port:
  "\<exists>r. parseNoProxyToken (\<lambda>_. None) ''*:8080'' = Some r \<and> np_port r = Some 8080 \<and> rule_covers h 443 r"
proof -
  have "parseNoProxyToken (\<lambda>_. None) ''*:8080'' = Some \<lparr>np_host = ''*'', np_port = Some 8080, np_matchSubdomains = False\<rparr>"
    by code_simp
  then show ?thesis by (simp add: rule_covers_def)
qed

end
