(* ===== verification/Proxy_Agent.thy ===== *)
theory Proxy_Agent
  imports Proxy_Core Agent_Cache
begin

text \<open>
  The factory of proxy agents, \<^verbatim>\<open>packages/proxy-agent/src/proxy-agent-factory.ts\<close>, and the runtime controller above it,
  \<^verbatim>\<open>packages/proxy-runtime/src/proxy-runtime-controller.ts\<close>. The agent classes are third-party: an agent is the
  class, the proxy URL and the options it was constructed with, and a serial number for its identity. Agents handed to
  \<open>tryDisposeAgent\<close> are returned. An operation is \<open>None\<close> when the eviction loop of the cache does not end.
\<close>

section \<open>Agents\<close>

datatype agent_kind = SocksProxyAgent | PacProxyAgent | HttpProxyAgent | HttpsProxyAgent

record agent =
  ag_kind :: agent_kind
  ag_proxyUrl :: string
  ag_options :: "js_record option"
  ag_serial :: nat

record agent_options =
  ao_http :: "js_record option"
  ao_https :: "js_record option"
  ao_socks :: "js_record option"
  ao_pac :: "js_record option"
  ao_tls :: "js_record option"

datatype agent_error =
    InvalidTargetUrlError string
  | InvalidProxyUrlError string
  | UnsupportedProxyProtocolError string
  | UnsupportedTargetProtocolError string

definition SOCKS_PROTOCOLS :: "string list" where
  "SOCKS_PROTOCOLS = [''socks:'', ''socks4:'', ''socks4a:'', ''socks5:'', ''socks5h:'']"

definition PAC_PROTOCOLS :: "string list" where
  "PAC_PROTOCOLS = [''pac+http:'', ''pac+https:'', ''pac+file:'', ''pac+data:'']"

definition TARGET_PROTOCOLS :: "string list" where
  "TARGET_PROTOCOLS = [''http:'', ''https:'', ''ws:'', ''wss:'']"

text \<open>The object spread \<open>{...a, ...b}\<close>.\<close>

definition spread :: "js_record \<Rightarrow> js_record \<Rightarrow> js_record" where
  "spread a b = fold (\<lambda>(k, v) m. mput m k v) b a"

definition toPacAgentOptions :: "js_record option \<Rightarrow> js_record" where
  "toPacAgentOptions o1 = spread [(''fallbackToDirect'', JBool False)] (case o1 of None \<Rightarrow> [] | Some r \<Rightarrow> r)"

definition applyTlsOptions :: "js_record option \<Rightarrow> js_record option \<Rightarrow> js_record" where
  "applyTlsOptions agentOpts tlsOpts =
     (case (agentOpts, tlsOpts) of
        (None, None) \<Rightarrow> []
      | (None, Some t) \<Rightarrow> t
      | (Some a, None) \<Rightarrow> a
      | (Some a, Some t) \<Rightarrow> spread a t)"

definition applyTlsOptionsToSocksAgent :: "js_record option \<Rightarrow> js_record option \<Rightarrow> js_record option" where
  "applyTlsOptionsToSocksAgent socksOpts tlsOpts = socksOpts"

definition parseProtocol :: "full_url_parser \<Rightarrow> string \<Rightarrow> (agent_error, string) result" where
  "parseProtocol url proxyUrl =
     (if trim proxyUrl = [] then Inl (InvalidProxyUrlError proxyUrl)
      else case url (trim proxyUrl) of None \<Rightarrow> Inl (InvalidProxyUrlError proxyUrl) | Some u \<Rightarrow> Inr (toLowerCase (u_protocol u)))"

definition normalizeTargetProtocol :: "string \<Rightarrow> (agent_error, string) result" where
  "normalizeTargetProtocol t =
     (let normalized = toLowerCase (trim t);
          protocol = (if endsWith normalized '':'' then normalized else normalized @ '':'')
      in if protocol \<notin> set TARGET_PROTOCOLS then Inl (UnsupportedTargetProtocolError protocol) else Inr protocol)"

definition createProxyAgent :: "full_url_parser \<Rightarrow> nat \<Rightarrow> string \<Rightarrow> string \<Rightarrow> agent_options \<Rightarrow> (agent_error, agent) result" where
  "createProxyAgent url serial proxyUrl targetProtocol opts =
     bind_result (normalizeTargetProtocol targetProtocol) (\<lambda>target.
     bind_result (parseProtocol url proxyUrl) (\<lambda>protocol.
     (let mk = (\<lambda>kind o1. Inr \<lparr>ag_kind = kind, ag_proxyUrl = proxyUrl, ag_options = o1, ag_serial = serial\<rparr>)
      in if protocol \<in> set SOCKS_PROTOCOLS then mk SocksProxyAgent (applyTlsOptionsToSocksAgent (ao_socks opts) (ao_tls opts))
         else if protocol \<in> set PAC_PROTOCOLS then mk PacProxyAgent (Some (applyTlsOptions (Some (toPacAgentOptions (ao_pac opts))) (ao_tls opts)))
         else if protocol = ''http:'' \<or> protocol = ''https:'' then
           (if target = ''http:'' \<or> target = ''ws:'' then mk HttpProxyAgent (Some (applyTlsOptions (ao_http opts) (ao_tls opts)))
            else mk HttpsProxyAgent (Some (applyTlsOptions (ao_https opts) (ao_tls opts))))
         else Inl (UnsupportedProxyProtocolError protocol))))"

section \<open>The factory\<close>

record agent_factory =
  fa_settings :: proxy_settings
  fa_cache :: "(string, agent) agent_cache"
  fa_agentOptions :: agent_options
  fa_next :: nat

record agent_resolution =
  ar_agent :: "agent option"
  ar_proxyUrl :: "string option"
  ar_viaProxy :: bool
  ar_fromCache :: bool

definition new_factory :: "proxy_settings \<Rightarrow> jsnum option \<Rightarrow> agent_options \<Rightarrow> agent_factory" where
  "new_factory settings maxEntries opts =
     \<lparr>fa_settings = settings, fa_cache = new_cache (normalizeCacheEntries maxEntries), fa_agentOptions = opts, fa_next = 0\<rparr>"

definition cache_key :: "string \<Rightarrow> string \<Rightarrow> string" where
  "cache_key proxyUrl protocol = proxyUrl @ CHR ''|'' # protocol"

definition factory_resolve ::
  "full_url_parser \<Rightarrow> js_url \<Rightarrow> agent_factory \<Rightarrow> (agent_factory \<times> agent list \<times> (agent_error, agent_resolution) result) option" where
  "factory_resolve url u f =
     (let direct = \<lparr>ar_agent = None, ar_proxyUrl = None, ar_viaProxy = False, ar_fromCache = False\<rparr>
      in case resolveProxyForUrl u (fa_settings f) of
           None \<Rightarrow> Some (f, [], Inr direct)
         | Some proxyUrl \<Rightarrow>
             (if proxyUrl = [] then Some (f, [], Inr direct)
              else case cache_get (cache_key proxyUrl (u_protocol u)) (fa_cache f) of
                (Some a, c) \<Rightarrow>
                  Some (f\<lparr>fa_cache := c\<rparr>, [], Inr \<lparr>ar_agent = Some a, ar_proxyUrl = Some proxyUrl, ar_viaProxy = True, ar_fromCache = True\<rparr>)
              | (None, c) \<Rightarrow>
                  (case createProxyAgent url (fa_next f) proxyUrl (u_protocol u) (fa_agentOptions f) of
                     Inl e \<Rightarrow> Some (f, [], Inl e)
                   | Inr a \<Rightarrow>
                       map_option (\<lambda>(c2, ev). (f\<lparr>fa_cache := c2, fa_next := Suc (fa_next f)\<rparr>, ev,
                         Inr \<lparr>ar_agent = Some a, ar_proxyUrl = Some proxyUrl, ar_viaProxy = True, ar_fromCache = False\<rparr>))
                       (cache_set (cache_key proxyUrl (u_protocol u)) a c))))"

definition factory_destroy :: "agent_factory \<Rightarrow> agent_factory \<times> agent list" where
  "factory_destroy f = (let (c, ev) = cache_clear (fa_cache f) in (f\<lparr>fa_cache := c\<rparr>, ev))"

definition factory_updateSettings :: "proxy_settings \<Rightarrow> agent_factory \<Rightarrow> agent_factory \<times> agent list" where
  "factory_updateSettings s f = factory_destroy (f\<lparr>fa_settings := s\<rparr>)"

definition factory_reloadFromEnvironment :: "full_url_parser \<Rightarrow> environment \<Rightarrow> agent_factory \<Rightarrow> agent_factory \<times> agent list" where
  "factory_reloadFromEnvironment url env f = factory_destroy (f\<lparr>fa_settings := loadProxySettings url env\<rparr>)"

section \<open>The controller\<close>

record runtime_stats =
  resolveCount :: int
  proxiedCount :: int
  directCount :: int
  noProxyBypassCount :: int
  cacheHitCount :: int

record decision_metadata =
  dm_target :: string
  dm_protocol :: string
  dm_mode :: string
  dm_reason :: string
  dm_matchedNoProxy :: bool
  dm_proxyUrl :: "string option"
  dm_viaProxy :: bool
  dm_fromCache :: bool

record proxy_controller =
  rc_settings :: proxy_settings
  rc_factory :: agent_factory
  rc_disposed :: bool
  rc_stats :: runtime_stats

definition createInitialStats :: runtime_stats where
  "createInitialStats = \<lparr>resolveCount = 0, proxiedCount = 0, directCount = 0, noProxyBypassCount = 0, cacheHitCount = 0\<rparr>"

text \<open>\<open>cloneProxySettings\<close> copies the object; the model's values are immutable.\<close>

definition new_controller :: "proxy_settings \<Rightarrow> jsnum option \<Rightarrow> agent_options \<Rightarrow> proxy_controller" where
  "new_controller settings maxEntries opts =
     \<lparr>rc_settings = settings, rc_factory = new_factory settings maxEntries opts, rc_disposed = False, rc_stats = createInitialStats\<rparr>"

definition recordDecision :: "agent_resolution \<Rightarrow> bool \<Rightarrow> runtime_stats \<Rightarrow> runtime_stats" where
  "recordDecision res matched st =
     (let s1 = st\<lparr>resolveCount := resolveCount st + 1\<rparr>;
          s2 = (if ar_viaProxy res then s1\<lparr>proxiedCount := proxiedCount s1 + 1\<rparr>
                else (let s3 = s1\<lparr>directCount := directCount s1 + 1\<rparr>
                      in if matched then s3\<lparr>noProxyBypassCount := noProxyBypassCount s3 + 1\<rparr> else s3))
      in if ar_fromCache res then s2\<lparr>cacheHitCount := cacheHitCount s2 + 1\<rparr> else s2)"

definition controller_resolve ::
  "full_url_parser \<Rightarrow> string \<Rightarrow> proxy_controller \<Rightarrow>
   (proxy_controller \<times> agent list \<times> (agent_error, agent_resolution \<times> decision_metadata) result) option" where
  "controller_resolve url target c0 =
     (let c = c0\<lparr>rc_disposed := False\<rparr>
      in case url target of
           None \<Rightarrow> Some (c, [], Inl (InvalidTargetUrlError target))
         | Some u \<Rightarrow>
             (let matched = shouldBypassProxy u (ps_noProxy (rc_settings c))
              in map_option (\<lambda>(f, ev, r).
                   case r of
                     Inl e \<Rightarrow> (c\<lparr>rc_factory := f\<rparr>, ev, Inl e)
                   | Inr res \<Rightarrow>
                       (c\<lparr>rc_factory := f, rc_stats := recordDecision res matched (rc_stats c)\<rparr>, ev,
                        Inr (res, \<lparr>dm_target = u_href u, dm_protocol = u_protocol u,
                          dm_mode = (if ar_viaProxy res then ''proxy'' else ''direct''),
                          dm_reason = (if ar_viaProxy res then ''proxy_configured'' else if matched then ''no_proxy_match'' else ''proxy_not_configured''),
                          dm_matchedNoProxy = matched, dm_proxyUrl = ar_proxyUrl res, dm_viaProxy = ar_viaProxy res,
                          dm_fromCache = ar_fromCache res\<rparr>)))
                 (factory_resolve url u (rc_factory c))))"

definition controller_updateSettings :: "proxy_settings \<Rightarrow> proxy_controller \<Rightarrow> proxy_controller \<times> agent list" where
  "controller_updateSettings s c =
     (let (f, ev) = factory_updateSettings s (rc_factory c) in (c\<lparr>rc_disposed := False, rc_settings := s, rc_factory := f\<rparr>, ev))"

definition controller_reload :: "full_url_parser \<Rightarrow> environment \<Rightarrow> proxy_controller \<Rightarrow> proxy_controller \<times> agent list" where
  "controller_reload url env c =
     (let (f, ev) = factory_reloadFromEnvironment url env (rc_factory c)
      in (c\<lparr>rc_disposed := False, rc_factory := f, rc_settings := fa_settings f\<rparr>, ev))"

definition controller_clear :: "proxy_controller \<Rightarrow> proxy_controller \<times> agent list" where
  "controller_clear c = (let (f, ev) = factory_destroy (rc_factory c) in (c\<lparr>rc_factory := f\<rparr>, ev))"

definition controller_destroy :: "proxy_controller \<Rightarrow> proxy_controller \<times> agent list" where
  "controller_destroy c = (let (f, ev) = factory_destroy (rc_factory c) in (c\<lparr>rc_factory := f, rc_disposed := True\<rparr>, ev))"

section \<open>The factory hands out the right agents\<close>

definition agent_fits :: "full_url_parser \<Rightarrow> agent_options \<Rightarrow> string \<Rightarrow> agent \<Rightarrow> bool" where
  "agent_fits url opts k a \<longleftrightarrow> (\<exists>proto. CHR ''|'' \<notin> set proto \<and> k = cache_key (ag_proxyUrl a) proto \<and>
     createProxyAgent url (ag_serial a) (ag_proxyUrl a) proto opts = Inr a)"

definition factory_wf :: "full_url_parser \<Rightarrow> agent_factory \<Rightarrow> bool" where
  "factory_wf url f \<longleftrightarrow> keys_distinct (ac_store (fa_cache f)) \<and> 0 \<le> ac_maxEntries (fa_cache f) \<and>
     int (length (ac_store (fa_cache f))) \<le> ac_maxEntries (fa_cache f) \<and>
     list_all (\<lambda>(k, a). agent_fits url (fa_agentOptions f) k a) (ac_store (fa_cache f))"

lemma cache_key_inj:
  assumes "CHR ''|'' \<notin> set p" "CHR ''|'' \<notin> set q" "cache_key a p = cache_key b q"
  shows "a = b \<and> p = q"
proof -
  have "rev p @ CHR ''|'' # rev a = rev q @ CHR ''|'' # rev b" using arg_cong [OF assms(3), of rev] by (simp add: cache_key_def)
  moreover have "CHR ''|'' \<notin> set (rev p)" "CHR ''|'' \<notin> set (rev q)" using assms(1,2) by simp_all
  ultimately have "rev p = rev q" using split_on_append_sep [of "CHR ''|''" "rev p" "rev a"] split_on_append_sep [of "CHR ''|''" "rev q" "rev b"] by simp
  then show ?thesis using assms(3) by (simp add: cache_key_def)
qed

lemma createProxyAgent_fields:
  "createProxyAgent url serial p proto opts = Inr a \<Longrightarrow> ag_proxyUrl a = p \<and> ag_serial a = serial"
  by (auto simp: createProxyAgent_def bind_result_Inr Let_def split: if_splits)

lemma agent_fits_key:
  assumes "agent_fits url opts (cache_key p proto) a" "CHR ''|'' \<notin> set proto"
  shows "ag_proxyUrl a = p \<and> createProxyAgent url (ag_serial a) p proto opts = Inr a"
  using assms cache_key_inj unfolding agent_fits_def by blast

lemma normalizeCacheEntries_nonneg: "0 \<le> normalizeCacheEntries v"
  by (auto simp: normalizeCacheEntries_def DEFAULT_CACHE_ENTRIES_def split: option.splits jsnum.splits)

lemma new_factory_wf: "factory_wf url (new_factory s n opts)"
  by (simp add: factory_wf_def new_factory_def new_cache_def normalizeCacheEntries_nonneg)

lemma factory_destroy_wf:
  "factory_wf url f \<Longrightarrow> factory_wf url (fst (factory_destroy f)) \<and> fa_settings (fst (factory_destroy f)) = fa_settings f \<and>
   fa_agentOptions (fst (factory_destroy f)) = fa_agentOptions f"
  by (simp add: factory_wf_def factory_destroy_def cache_clear_def)

lemma cache_get_wf:
  assumes wf: "factory_wf url f" and g: "cache_get k (fa_cache f) = (Some a, c)"
  shows "factory_wf url (f\<lparr>fa_cache := c\<rparr>) \<and> agent_fits url (fa_agentOptions f) k a"
proof -
  have d: "keys_distinct (ac_store (fa_cache f))" using wf by (simp add: factory_wf_def)
  have k: "map_of (ac_store (fa_cache f)) k = Some a" using g by (simp add: cache_get_def split: option.splits)
  then have ka: "(k, a) \<in> set (ac_store (fa_cache f))" by (rule map_of_SomeD)
  have c: "ac_store c = filter (\<lambda>e. fst e \<noteq> k) (ac_store (fa_cache f)) @ [(k, a)]" "ac_maxEntries c = ac_maxEntries (fa_cache f)"
    using g k mput_new [OF keys_distinct_set [OF d], of k a] by (auto simp: cache_get_def mdelete_filter)
  have "length (filter (\<lambda>e. fst e \<noteq> k) (ac_store (fa_cache f))) < length (ac_store (fa_cache f))"
    using length_filter_less [OF ka, of "\<lambda>e. fst e \<noteq> k"] by simp
  then have "int (length (ac_store c)) \<le> ac_maxEntries c" using wf c by (simp add: factory_wf_def)
  moreover have "keys_distinct (ac_store c)" using d c(1) by (auto simp: distinct_map_filter)
  ultimately show ?thesis using wf ka c by (auto simp: factory_wf_def list_all_iff)
qed

lemma cache_set_wf:
  assumes wf: "factory_wf url f" and k: "map_of (ac_store (fa_cache f)) k = None" and a: "agent_fits url (fa_agentOptions f) k a"
  shows "\<exists>c ev. cache_set k a (fa_cache f) = Some (c, ev) \<and> factory_wf url (f\<lparr>fa_cache := c, fa_next := n\<rparr>)"
proof (cases "ac_maxEntries (fa_cache f) = 0")
  case True
  then show ?thesis using wf by (simp add: cache_set_def factory_wf_def)
next
  case False
  let ?st = "ac_store (fa_cache f)" and ?m = "ac_maxEntries (fa_cache f)"
  let ?q = "Suc (length ?st) - nat ?m"
  have d: "keys_distinct ?st" and m: "0 < nat ?m" using wf False by (auto simp: factory_wf_def)
  have kn: "k \<notin> fst ` set ?st" using k by (simp add: map_of_eq_None_iff)
  have d2: "keys_distinct (?st @ [(k, a)])" using d kn by auto
  define c where "c = (fa_cache f)\<lparr>ac_store := drop ?q (?st @ [(k, a)])\<rparr>"
  have set: "cache_set k a (fa_cache f) = Some (c, map snd (take ?q (?st @ [(k, a)])))"
    using evict_loop_result [OF d2, of ?m "[]"] k False mput_new [OF kn, of a] by (simp add: cache_set_def c_def)
  have "keys_distinct (ac_store c)" unfolding c_def using d2 by (simp add: drop_map [symmetric] distinct_drop del: drop_append)
  moreover have "int (length (ac_store c)) \<le> ac_maxEntries c" unfolding c_def using m by simp
  moreover have "list_all (\<lambda>(k, a). agent_fits url (fa_agentOptions f) k a) (ac_store c)"
    using wf a set_drop_subset [of ?q "?st @ [(k, a)]"] unfolding c_def by (auto simp: factory_wf_def list_all_iff simp del: drop_append)
  ultimately show ?thesis using set wf by (auto simp: factory_wf_def c_def)
qed

definition proxied :: "js_url \<Rightarrow> proxy_settings \<Rightarrow> string option" where
  "proxied u s = (case resolveProxyForUrl u s of None \<Rightarrow> None | Some p \<Rightarrow> (if p = [] then None else Some p))"

lemma factory_resolve_total:
  assumes wf: "factory_wf url f" and u: "CHR ''|'' \<notin> set (u_protocol u)"
  shows "\<exists>f' ev r. factory_resolve url u f = Some (f', ev, r) \<and> factory_wf url f' \<and> fa_settings f' = fa_settings f \<and>
    fa_agentOptions f' = fa_agentOptions f \<and>
    (case r of
       Inl e \<Rightarrow> (\<exists>p. proxied u (fa_settings f) = Some p \<and> createProxyAgent url (fa_next f) p (u_protocol u) (fa_agentOptions f) = Inl e)
     | Inr res \<Rightarrow> ar_viaProxy res = (proxied u (fa_settings f) \<noteq> None) \<and> ar_proxyUrl res = proxied u (fa_settings f) \<and>
         (ar_fromCache res \<longrightarrow> ar_viaProxy res) \<and>
         (case proxied u (fa_settings f) of None \<Rightarrow> ar_agent res = None
          | Some p \<Rightarrow> (\<exists>a. ar_agent res = Some a \<and> createProxyAgent url (ag_serial a) p (u_protocol u) (fa_agentOptions f) = Inr a)))"
proof (cases "proxied u (fa_settings f)")
  case None
  then show ?thesis using wf by (auto simp: factory_resolve_def proxied_def Let_def split: option.splits if_splits)
next
  case (Some p)
  then have p: "resolveProxyForUrl u (fa_settings f) = Some p" "p \<noteq> []" by (auto simp: proxied_def split: option.splits if_splits)
  let ?k = "cache_key p (u_protocol u)"
  show ?thesis
  proof (cases "map_of (ac_store (fa_cache f)) ?k")
    case (Some a)
    then obtain c where g: "cache_get ?k (fa_cache f) = (Some a, c)" by (simp add: cache_get_def)
    note w = cache_get_wf [OF wf g]
    show ?thesis using w agent_fits_key [OF _ u] p g \<open>proxied u (fa_settings f) = Some p\<close> by (simp add: factory_resolve_def Let_def)
  next
    case None
    then have g: "cache_get ?k (fa_cache f) = (None, fa_cache f)" by (simp add: cache_get_def)
    show ?thesis
    proof (cases "createProxyAgent url (fa_next f) p (u_protocol u) (fa_agentOptions f)")
      case (Inl e)
      then show ?thesis using p g wf \<open>proxied u (fa_settings f) = Some p\<close> by (simp add: factory_resolve_def Let_def)
    next
      case (Inr a)
      note fld = createProxyAgent_fields [OF Inr]
      have "agent_fits url (fa_agentOptions f) ?k a" unfolding agent_fits_def using u fld Inr by auto
      from cache_set_wf [OF wf None this, of "Suc (fa_next f)"] obtain c ev
        where c: "cache_set ?k a (fa_cache f) = Some (c, ev)" "factory_wf url (f\<lparr>fa_cache := c, fa_next := Suc (fa_next f)\<rparr>)" by blast
      then show ?thesis using p g Inr fld \<open>proxied u (fa_settings f) = Some p\<close> by (simp add: factory_resolve_def Let_def)
    qed
  qed
qed

section \<open>Runs of a controller\<close>

datatype controller_op = Resolve string | UpdateSettings proxy_settings | Reload environment | Clear | Destroy

fun controller_step :: "full_url_parser \<Rightarrow> controller_op \<Rightarrow> proxy_controller \<Rightarrow> proxy_controller option" where
  "controller_step url (Resolve t) c = map_option fst (controller_resolve url t c)"
| "controller_step url (UpdateSettings s) c = Some (fst (controller_updateSettings s c))"
| "controller_step url (Reload env) c = Some (fst (controller_reload url env c))"
| "controller_step url Clear c = Some (fst (controller_clear c))"
| "controller_step url Destroy c = Some (fst (controller_destroy c))"

inductive controller_run :: "full_url_parser \<Rightarrow> agent_options \<Rightarrow> proxy_controller \<Rightarrow> bool" for url opts where
  controller_start: "controller_run url opts (new_controller s n opts)"
| controller_next: "controller_run url opts c \<Longrightarrow> controller_step url op c = Some c' \<Longrightarrow> controller_run url opts c'"

definition stats_ok :: "runtime_stats \<Rightarrow> bool" where
  "stats_ok st \<longleftrightarrow> resolveCount st = proxiedCount st + directCount st \<and> 0 \<le> noProxyBypassCount st \<and>
     noProxyBypassCount st \<le> directCount st \<and> 0 \<le> cacheHitCount st \<and> cacheHitCount st \<le> proxiedCount st"

definition controller_wf :: "full_url_parser \<Rightarrow> agent_options \<Rightarrow> proxy_controller \<Rightarrow> bool" where
  "controller_wf url opts c \<longleftrightarrow> factory_wf url (rc_factory c) \<and> fa_agentOptions (rc_factory c) = opts \<and>
     rc_settings c = fa_settings (rc_factory c) \<and> stats_ok (rc_stats c)"

text \<open>What the URL parser promises: the scheme of a URL has no bar.\<close>

definition url_schemes_ok :: "full_url_parser \<Rightarrow> bool" where
  "url_schemes_ok url \<longleftrightarrow> (\<forall>t u. url t = Some u \<longrightarrow> CHR ''|'' \<notin> set (u_protocol u))"

lemma recordDecision_ok: "stats_ok st \<Longrightarrow> (ar_fromCache res \<longrightarrow> ar_viaProxy res) \<Longrightarrow> stats_ok (recordDecision res b st)"
  by (auto simp: stats_ok_def recordDecision_def Let_def)

lemma controller_resolve_ok:
  assumes wf: "controller_wf url opts c" and url: "url_schemes_ok url" and t: "url t = Some u"
  shows "\<exists>c' ev r. controller_resolve url t c = Some (c', ev, r) \<and> controller_wf url opts c' \<and>
    (case r of
       Inl e \<Rightarrow> rc_stats c' = rc_stats c \<and> (\<exists>p. proxied u (rc_settings c) = Some p \<and>
         createProxyAgent url (fa_next (rc_factory c)) p (u_protocol u) opts = Inl e)
     | Inr (res, m) \<Rightarrow> ar_proxyUrl res = proxied u (rc_settings c) \<and> dm_proxyUrl m = proxied u (rc_settings c) \<and>
         dm_reason m = (if proxied u (rc_settings c) \<noteq> None then ''proxy_configured''
           else if shouldBypassProxy u (ps_noProxy (rc_settings c)) then ''no_proxy_match'' else ''proxy_not_configured'') \<and>
         (case proxied u (rc_settings c) of None \<Rightarrow> ar_agent res = None
          | Some p \<Rightarrow> (\<exists>a. ar_agent res = Some a \<and> createProxyAgent url (ag_serial a) p (u_protocol u) opts = Inr a)))"
proof -
  have w: "factory_wf url (rc_factory c)" "fa_agentOptions (rc_factory c) = opts" "fa_settings (rc_factory c) = rc_settings c" "stats_ok (rc_stats c)"
    using wf by (auto simp: controller_wf_def)
  have u: "CHR ''|'' \<notin> set (u_protocol u)" using url t by (auto simp: url_schemes_ok_def)
  obtain f ev r where f: "factory_resolve url u (rc_factory c) = Some (f, ev, r)" "factory_wf url f" "fa_settings f = rc_settings c" "fa_agentOptions f = opts"
    and r: "case r of Inl e \<Rightarrow> (\<exists>p. proxied u (rc_settings c) = Some p \<and> createProxyAgent url (fa_next (rc_factory c)) p (u_protocol u) opts = Inl e)
     | Inr res \<Rightarrow> ar_viaProxy res = (proxied u (rc_settings c) \<noteq> None) \<and> ar_proxyUrl res = proxied u (rc_settings c) \<and>
         (ar_fromCache res \<longrightarrow> ar_viaProxy res) \<and>
         (case proxied u (rc_settings c) of None \<Rightarrow> ar_agent res = None
          | Some p \<Rightarrow> (\<exists>a. ar_agent res = Some a \<and> createProxyAgent url (ag_serial a) p (u_protocol u) opts = Inr a))"
    using factory_resolve_total [OF w(1) u] unfolding w(2,3) by blast
  show ?thesis
  proof (cases r)
    case (Inl e)
    then show ?thesis using f r t w(4) by (simp add: controller_resolve_def Let_def controller_wf_def)
  next
    case (Inr res)
    have fc: "ar_fromCache res \<longrightarrow> ar_viaProxy res" using r unfolding Inr by auto
    have "stats_ok (recordDecision res b (rc_stats c))" for b by (rule recordDecision_ok [OF w(4) fc])
    then show ?thesis
      using f r t Inr by (cases "proxied u (rc_settings c)") (auto simp: controller_resolve_def Let_def controller_wf_def)
  qed
qed

lemma controller_step_wf:
  assumes "controller_wf url opts c" "url_schemes_ok url" "controller_step url op c = Some c'"
  shows "controller_wf url opts c'"
proof (cases op)
  case (Resolve t)
  show ?thesis
  proof (cases "url t")
    case None
    then show ?thesis using assms(1,3) Resolve by (auto simp: controller_resolve_def Let_def controller_wf_def)
  next
    case (Some u)
    show ?thesis using controller_resolve_ok [OF assms(1,2) Some] assms(3) Resolve by auto
  qed
next
  case (UpdateSettings s)
  then show ?thesis
    using assms(1,3) factory_destroy_wf [of url "(rc_factory c)\<lparr>fa_settings := s\<rparr>"]
    by (auto simp: controller_updateSettings_def factory_updateSettings_def controller_wf_def factory_wf_def split: prod.splits)
next
  case (Reload env)
  then show ?thesis
    using assms(1,3) factory_destroy_wf [of url "(rc_factory c)\<lparr>fa_settings := loadProxySettings url env\<rparr>"]
    by (auto simp: controller_reload_def factory_reloadFromEnvironment_def controller_wf_def factory_wf_def split: prod.splits)
qed (use assms(1,3) factory_destroy_wf [of url "rc_factory c"] in
      \<open>auto simp: controller_clear_def controller_destroy_def controller_wf_def split: prod.splits\<close>)

lemma controller_wf_stats: "controller_wf url opts c \<Longrightarrow> stats_ok (rc_stats c)"
  by (simp add: controller_wf_def)

lemma controller_run_wf: "controller_run url opts c \<Longrightarrow> url_schemes_ok url \<Longrightarrow> controller_wf url opts c"
proof (induction rule: controller_run.induct)
  case (controller_start s n)
  then show ?case
    using new_factory_wf by (simp add: controller_wf_def new_controller_def new_factory_def stats_ok_def createInitialStats_def)
next
  case (controller_next c op c')
  then show ?case using controller_step_wf by blast
qed

text \<open>
  C40: the controller reports what it does. In every state that a controller reaches, resolving a target that is a
  URL ends. Either the agent could not be created, and the statistics stay as they were; or the
  proxy of the answer is the one the current settings give, the reason names exactly why, and the agent is one that the
  constructor makes for that proxy and scheme, also when it comes from the cache. The counters add up. The
  hypothesis is that the schemes that the URL parser returns have no bar in them.
\<close>

theorem proxy_decision_truthful:
  assumes "controller_run url opts c" "url_schemes_ok url" "url t = Some u"
  shows "\<exists>c' ev r. controller_resolve url t c = Some (c', ev, r) \<and> stats_ok (rc_stats c') \<and>
    (case r of
       Inl e \<Rightarrow> rc_stats c' = rc_stats c \<and> (\<exists>p. proxied u (rc_settings c) = Some p \<and>
         createProxyAgent url (fa_next (rc_factory c)) p (u_protocol u) opts = Inl e)
     | Inr (res, m) \<Rightarrow> ar_proxyUrl res = proxied u (rc_settings c) \<and> dm_proxyUrl m = proxied u (rc_settings c) \<and>
         dm_reason m = (if proxied u (rc_settings c) \<noteq> None then ''proxy_configured''
           else if shouldBypassProxy u (ps_noProxy (rc_settings c)) then ''no_proxy_match'' else ''proxy_not_configured'') \<and>
         (case proxied u (rc_settings c) of None \<Rightarrow> ar_agent res = None
          | Some p \<Rightarrow> (\<exists>a. ar_agent res = Some a \<and> createProxyAgent url (ag_serial a) p (u_protocol u) opts = Inr a)))"
  using controller_resolve_ok [OF controller_run_wf [OF assms(1,2)] assms(2,3)] controller_wf_stats by blast

definition demo_url :: full_url_parser where
  "demo_url t =
     (if t = ''http://proxy.example:3128/'' then Some \<lparr>u_protocol = ''http:'', u_hostname = ''proxy.example'', u_port = ''3128'', u_href = t\<rparr>
      else if t = ''https://www.example.org/'' then Some \<lparr>u_protocol = ''https:'', u_hostname = ''www.example.org'', u_port = [], u_href = t\<rparr>
      else None)"

definition demo_settings :: proxy_settings where
  "demo_settings = loadProxySettings demo_url (map_of [(''https_proxy'', ''http://proxy.example:3128/''), (''NO_PROXY'', ''.internal,example.com:8443'')])"

definition no_agent_options :: agent_options where
  "no_agent_options = \<lparr>ao_http = None, ao_https = None, ao_socks = None, ao_pac = None, ao_tls = None\<rparr>"

definition demo_controller :: proxy_controller where
  "demo_controller = new_controller demo_settings None no_agent_options"

theorem proxy_decision_truthful_witness:
  "\<exists>c' ev r. controller_resolve demo_url ''https://www.example.org/'' demo_controller = Some (c', ev, r) \<and> stats_ok (rc_stats c') \<and>
     proxied \<lparr>u_protocol = ''https:'', u_hostname = ''www.example.org'', u_port = [], u_href = ''https://www.example.org/''\<rparr> (rc_settings demo_controller)
       = Some ''http://proxy.example:3128/''"
proof -
  let ?u = "\<lparr>u_protocol = ''https:'', u_hostname = ''www.example.org'', u_port = [], u_href = ''https://www.example.org/''\<rparr>"
  have run: "controller_run demo_url no_agent_options demo_controller" unfolding demo_controller_def by (rule controller_start)
  have url: "url_schemes_ok demo_url" by (auto simp: url_schemes_ok_def demo_url_def split: if_splits)
  have t: "demo_url ''https://www.example.org/'' = Some ?u" by (simp add: demo_url_def)
  have p: "proxied ?u (rc_settings demo_controller) = Some ''http://proxy.example:3128/''" by code_simp
  from proxy_decision_truthful [OF run url t] p show ?thesis by blast
qed

end
