(* ===== verification/Http_Client.thy ===== *)
theory Http_Client
  imports Proxy_Agent Promise_Ledger
begin

text \<open>
  The JSON request helper, \<^verbatim>\<open>packages/proxy-http-client/src/index.ts\<close> and \<^verbatim>\<open>errors.ts\<close>: the checks of
  \<open>requestJson\<close>, and \<open>executeJsonRequest\<close> as a machine over the events of Node's request and response
  objects, its timer and the abort signal. \<open>http_platform\<close> holds \<open>JSON.stringify\<close> (no value when it
  throws, \<open>Some None\<close> when it returns undefined), \<open>JSON.parse\<close>, the decoding of UTF-8 and the text of a
  number. What Node does after \<open>request.destroy\<close> is not fixed: the events that follow are any.
\<close>

section \<open>Errors\<close>

record http_url = js_url +
  u_pathname :: string
  u_search :: string

type_synonym http_headers = "(string \<times> string) list"
type_synonym response_headers = "(string \<times> jsval) list"

datatype http_error =
    UnsupportedProtocolError string
  | ProxyResolutionError string jsval
  | RequestAbortedError string jsval
  | HttpStatusError int response_headers jsval string
  | RequestTimeoutError rat string
  | JsonParseError int string
  | ResponseSizeLimitError string int int int
  | TypeError string
  | Node_error jsval
  | Plain_text_error string

record http_platform =
  hp_stringify :: "jsval \<Rightarrow> string option option"
  hp_parse :: "string \<Rightarrow> jsval option"
  hp_utf8 :: "nat list \<Rightarrow> string"
  hp_num :: "rat \<Rightarrow> string"

record json_response =
  jr_status :: int
  jr_headers :: response_headers
  jr_body :: jsval
  jr_rawBody :: string

section \<open>Checks of the options\<close>

definition DEFAULT_TIMEOUT_MS :: jsnum where
  "DEFAULT_TIMEOUT_MS = Fin 8000"

definition DEFAULT_MAX_RESPONSE_BYTES :: jsnum where
  "DEFAULT_MAX_RESPONSE_BYTES = Fin 1048576"

definition SUPPORTED_REQUEST_PROTOCOLS :: "string list" where
  "SUPPORTED_REQUEST_PROTOCOLS = [''http:'', ''https:'']"

definition http_token_char :: "char \<Rightarrow> bool" where
  "http_token_char c \<longleftrightarrow> is_alnum c \<or> c \<in> set ''!#$%&*+.^_|~-'' \<or> (of_char c :: nat) \<in> {39, 96}"

text \<open>
  \<open>toUpperCase\<close> on the code units of the model: sharp s becomes two letters; micro and y with
  diaeresis, whose upper case is outside the block, stay as they are (no token has either).
\<close>

definition upper_char :: "char \<Rightarrow> string" where
  "upper_char c =
     (let n = (of_char c :: nat) in
      if 97 \<le> n \<and> n \<le> 122 then [char_of (n - 32)]
      else if n = 223 then ''SS''
      else if 224 \<le> n \<and> n \<le> 254 \<and> n \<noteq> 247 then [char_of (n - 32)]
      else [c])"

definition toUpperCase :: "string \<Rightarrow> string" where
  "toUpperCase s = concat (map upper_char s)"

definition validateProtocol :: "string \<Rightarrow> (http_error, unit) result" where
  "validateProtocol protocol =
     (if protocol \<notin> set SUPPORTED_REQUEST_PROTOCOLS then Inl (UnsupportedProtocolError protocol) else Inr ())"

definition normalizeTimeout :: "jsnum option \<Rightarrow> (http_error, rat) result" where
  "normalizeTimeout timeoutMs =
     (case (case timeoutMs of None \<Rightarrow> DEFAULT_TIMEOUT_MS | Some v \<Rightarrow> v) of
        Fin q \<Rightarrow> (if q < 0 then Inl (TypeError ''timeoutMs must be a finite number >= 0'') else Inr q)
      | _ \<Rightarrow> Inl (TypeError ''timeoutMs must be a finite number >= 0''))"

definition normalizeMaxResponseBytes :: "jsnum option \<Rightarrow> (http_error, int) result" where
  "normalizeMaxResponseBytes maxBytes =
     (let value = (case maxBytes of None \<Rightarrow> DEFAULT_MAX_RESPONSE_BYTES | Some v \<Rightarrow> v)
      in case num_as_int value of
           Some i \<Rightarrow> (if \<not> isSafeInteger (JNum value) \<or> i \<le> 0
                     then Inl (TypeError ''maxResponseBytes must be a safe integer > 0'') else Inr i)
         | None \<Rightarrow> Inl (TypeError ''maxResponseBytes must be a safe integer > 0''))"

definition normalizeMethod :: "string option \<Rightarrow> (http_error, string) result" where
  "normalizeMethod m =
     (let normalized = toUpperCase (trim (case m of None \<Rightarrow> ''GET'' | Some v \<Rightarrow> v))
      in if normalized = [] \<or> \<not> list_all http_token_char normalized then Inl (TypeError ''invalid_http_method'')
         else Inr normalized)"

definition serializeRequestBody :: "http_platform \<Rightarrow> jsval \<Rightarrow> (http_error, string option) result" where
  "serializeRequestBody p body =
     (if body = JUndef then Inr None
      else case hp_stringify p body of
        None \<Rightarrow> Inl (TypeError ''request_body_serialization_failed'')
      | Some t \<Rightarrow> Inr t)"

definition hasHeader :: "http_headers \<Rightarrow> string \<Rightarrow> bool" where
  "hasHeader headers key \<longleftrightarrow> (\<exists>(h, _) \<in> set headers. toLowerCase h = toLowerCase key)"

definition buildHeaders :: "http_platform \<Rightarrow> http_headers \<Rightarrow> string option \<Rightarrow> http_headers" where
  "buildHeaders p inputHeaders bodyText =
     (let headers = fold (\<lambda>(k, v) m. mput m k v) inputHeaders [(''accept'', ''application/json'')]
      in case bodyText of
           None \<Rightarrow> headers
         | Some body \<Rightarrow>
             (let h1 = (if \<not> hasHeader headers ''content-type'' then mput headers ''content-type'' ''application/json'' else headers)
              in if \<not> hasHeader h1 ''content-length''
                 then mput h1 ''content-length'' (hp_num p (of_int (byteLength body))) else h1))"

definition all_digits :: "string \<Rightarrow> bool" where
  "all_digits s \<longleftrightarrow> s \<noteq> [] \<and> list_all is_digit s"

definition parseContentLength :: "response_headers \<Rightarrow> int option" where
  "parseContentLength headers =
     (case (case prop_of headers ''content-length'' of JArr (v # _) \<Rightarrow> v | JArr [] \<Rightarrow> JUndef | v \<Rightarrow> v) of
        JStr raw \<Rightarrow>
          (let trimmed = trim raw; parsed = digits_val 0 trimmed
           in if \<not> all_digits trimmed then None
              else if parsed > max_safe_integer then None else Some parsed)
      | _ \<Rightarrow> None)"

section \<open>One request\<close>

record request_params =
  rp_target :: http_url
  rp_method :: string
  rp_bodyText :: "string option"
  rp_headers :: http_headers
  rp_timeoutMs :: rat
  rp_maxResponseBytes :: int
  rp_signal :: bool
  rp_throwOnHttpError :: bool
  rp_agent :: "agent option"

record exec_state =
  ex_settled :: bool
  ex_timer :: bool
  ex_abort_listener :: bool
  ex_error_listener :: bool
  ex_responded :: bool
  ex_response :: "(int \<times> response_headers) option"
  ex_chunks :: "nat list list"
  ex_received :: int
  ex_overflow :: bool

datatype http_effect =
    Http_request request_params
  | Http_write string
  | Http_end
  | Http_destroy http_error
  | Http_resume
  | Http_resolved json_response
  | Http_rejected http_error

datatype http_event =
    On_response "int option" response_headers
  | On_data "nat list"
  | On_response_error http_error
  | On_response_aborted
  | On_end
  | On_request_error http_error
  | On_timer
  | On_abort_signal

type_synonym exec_step = "exec_state \<times> http_effect list"

definition cleanup :: "exec_state \<Rightarrow> exec_state" where
  "cleanup x = x\<lparr>ex_timer := False, ex_abort_listener := False\<rparr>"

definition settleResolve :: "exec_state \<Rightarrow> json_response \<Rightarrow> exec_step" where
  "settleResolve x value =
     (if ex_settled x then (x, []) else (cleanup (x\<lparr>ex_settled := True\<rparr>), [Http_resolved value]))"

definition settleReject :: "exec_state \<Rightarrow> http_error \<Rightarrow> exec_step" where
  "settleReject x failure =
     (if ex_settled x then (x, []) else (cleanup (x\<lparr>ex_settled := True\<rparr>), [Http_rejected failure]))"

definition abort_error :: "request_params \<Rightarrow> jsval \<Rightarrow> http_error" where
  "abort_error r reason = RequestAbortedError (u_href (rp_target r)) reason"

definition on_response :: "request_params \<Rightarrow> exec_state \<Rightarrow> int option \<Rightarrow> response_headers \<Rightarrow> exec_step" where
  "on_response r x statusCode headers =
     (let status = (case statusCode of None \<Rightarrow> 0 | Some s \<Rightarrow> s); x1 = x\<lparr>ex_responded := True\<rparr>
      in case parseContentLength headers of
           Some declared \<Rightarrow>
             (if declared > rp_maxResponseBytes r then
                (let failure = ResponseSizeLimitError (u_href (rp_target r)) status (rp_maxResponseBytes r) declared;
                     (x2, fx) = settleReject x1 failure
                 in (x2, fx @ [Http_resume, Http_destroy failure]))
              else (x1\<lparr>ex_response := Some (status, headers)\<rparr>, []))
         | None \<Rightarrow> (x1\<lparr>ex_response := Some (status, headers)\<rparr>, []))"

definition on_data :: "request_params \<Rightarrow> exec_state \<Rightarrow> int \<Rightarrow> nat list \<Rightarrow> exec_step" where
  "on_data r x status chunk =
     (if ex_overflow x then (x, [])
      else
        (let x1 = x\<lparr>ex_received := ex_received x + int (length chunk)\<rparr>
         in if ex_received x1 > rp_maxResponseBytes r then
              (let failure = ResponseSizeLimitError (u_href (rp_target r)) status (rp_maxResponseBytes r) (ex_received x1);
                   (x2, fx) = settleReject (x1\<lparr>ex_overflow := True\<rparr>) failure
               in (x2, fx @ [Http_destroy failure]))
            else (x1\<lparr>ex_chunks := ex_chunks x1 @ [chunk]\<rparr>, [])))"

definition on_end :: "http_platform \<Rightarrow> request_params \<Rightarrow> exec_state \<Rightarrow> int \<Rightarrow> response_headers \<Rightarrow> exec_step" where
  "on_end p r x status headers =
     (if ex_overflow x then (x, [])
      else
        (let rawBody = hp_utf8 p (concat (ex_chunks x));
             parsed = (if rawBody = [] then Some JNull else hp_parse p rawBody)
         in case parsed of
              None \<Rightarrow> settleReject x (JsonParseError status rawBody)
            | Some body \<Rightarrow>
                (if rp_throwOnHttpError r \<and> status \<ge> 400
                 then settleReject x (HttpStatusError status headers body rawBody)
                 else settleResolve x \<lparr>jr_status = status, jr_headers = headers, jr_body = body, jr_rawBody = rawBody\<rparr>)))"

text \<open>
  The start: \<open>aborted\<close> is \<open>signal.aborted\<close>, \<open>reason\<close> its reason, \<open>write_error\<close> what \<open>write\<close> or \<open>end\<close>
  throws. \<open>settleReject\<close> turns a thrown value that is no error into one.
\<close>

definition exec_start :: "request_params \<Rightarrow> bool \<Rightarrow> jsval \<Rightarrow> http_error option \<Rightarrow> exec_step" where
  "exec_start r aborted reason write_error =
     (let x = \<lparr>ex_settled = False, ex_timer = rp_timeoutMs r > 0, ex_abort_listener = False, ex_error_listener = False,
               ex_responded = False, ex_response = None, ex_chunks = [], ex_received = 0, ex_overflow = False\<rparr>
      in if rp_signal r \<and> aborted then
           (let (x1, fx) = settleReject x (abort_error r reason)
            in (x1, [Http_request r, Http_destroy (abort_error r reason)] @ fx))
         else
           (let x1 = x\<lparr>ex_abort_listener := rp_signal r, ex_error_listener := True\<rparr>;
                writes = (case rp_bodyText r of None \<Rightarrow> [] | Some t \<Rightarrow> [Http_write t])
            in case write_error of
                 None \<Rightarrow> (x1, [Http_request r] @ writes @ [Http_end])
               | Some failure \<Rightarrow> (let (x2, fx) = settleReject x1 failure in (x2, [Http_request r] @ writes @ fx))))"

definition on_open_response :: "exec_state \<Rightarrow> (int \<Rightarrow> response_headers \<Rightarrow> exec_step) \<Rightarrow> exec_step" where
  "on_open_response x f = (case ex_response x of None \<Rightarrow> (x, []) | Some (status, headers) \<Rightarrow> f status headers)"

fun exec_handle :: "http_platform \<Rightarrow> request_params \<Rightarrow> jsval \<Rightarrow> exec_state \<Rightarrow> http_event \<Rightarrow> exec_step" where
  "exec_handle p r reason x (On_response statusCode headers) =
     (if ex_responded x then (x, []) else on_response r x statusCode headers)"
| "exec_handle p r reason x (On_data chunk) = on_open_response x (\<lambda>status _. on_data r x status chunk)"
| "exec_handle p r reason x (On_response_error failure) = on_open_response x (\<lambda>_ _. settleReject x failure)"
| "exec_handle p r reason x On_response_aborted = on_open_response x (\<lambda>_ _. settleReject x (abort_error r reason))"
| "exec_handle p r reason x On_end = on_open_response x (\<lambda>status headers. on_end p r x status headers)"
| "exec_handle p r reason x (On_request_error failure) = (if ex_error_listener x then settleReject x failure else (x, []))"
| "exec_handle p r reason x On_timer =
     (if ex_timer x then (x\<lparr>ex_timer := False\<rparr>, [Http_destroy (RequestTimeoutError (rp_timeoutMs r) (u_href (rp_target r)))])
      else (x, []))"
| "exec_handle p r reason x On_abort_signal =
     (if ex_abort_listener x then (x\<lparr>ex_abort_listener := False\<rparr>, [Http_destroy (abort_error r reason)]) else (x, []))"

section \<open>The whole call\<close>

text \<open>
  \<open>requestJson\<close> up to the network: the parameters \<open>executeJsonRequest\<close> runs with, or the error thrown.
  \<open>resolved\<close> is the outcome of \<open>resolver.resolve\<close>: no resolver, a thrown value, or a result, whose
  \<open>agent\<close> may be missing; \<open>aborted1\<close> and \<open>aborted2\<close> are the signal before and after that await. The
  transport's functions are functions in the model.
\<close>

record json_options =
  jo_method :: "string option"
  jo_headers :: http_headers
  jo_body :: jsval
  jo_timeoutMs :: "jsnum option"
  jo_maxResponseBytes :: "jsnum option"
  jo_signal :: bool
  jo_throwOnHttpError :: "bool option"

datatype resolver_outcome = No_resolver | Resolver_threw jsval | Resolver_result "agent option option"

definition resolveProxyAgent :: "http_url \<Rightarrow> resolver_outcome \<Rightarrow> (http_error, agent option) result" where
  "resolveProxyAgent target resolver =
     (case resolver of
        No_resolver \<Rightarrow> Inr None
      | Resolver_threw e \<Rightarrow> Inl (ProxyResolutionError (u_href target) e)
      | Resolver_result None \<Rightarrow> Inl (ProxyResolutionError (u_href target) (JStr ''invalid_proxy_resolution''))
      | Resolver_result (Some a) \<Rightarrow> Inr a)"

definition throwIfAborted :: "bool \<Rightarrow> http_url \<Rightarrow> jsval \<Rightarrow> (http_error, unit) result" where
  "throwIfAborted aborted target reason =
     (if aborted then Inl (RequestAbortedError (u_href target) reason) else Inr ())"

definition parseTargetUrl :: "http_url option \<Rightarrow> (http_error, http_url) result" where
  "parseTargetUrl parsed = (case parsed of None \<Rightarrow> Inl (TypeError ''invalid_request_url'') | Some u \<Rightarrow> Inr u)"

definition requestJson_params ::
  "http_platform \<Rightarrow> http_url option \<Rightarrow> json_options \<Rightarrow> bool \<Rightarrow> bool \<Rightarrow> jsval \<Rightarrow> resolver_outcome \<Rightarrow> (http_error, request_params) result" where
  "requestJson_params p parsed opts aborted1 aborted2 reason resolver =
     bind_result (parseTargetUrl parsed) (\<lambda>target.
     bind_result (validateProtocol (u_protocol target)) (\<lambda>_.
     bind_result (normalizeTimeout (jo_timeoutMs opts)) (\<lambda>timeoutMs.
     bind_result (normalizeMaxResponseBytes (jo_maxResponseBytes opts)) (\<lambda>maxBytes.
     bind_result (normalizeMethod (jo_method opts)) (\<lambda>meth.
     bind_result (serializeRequestBody p (jo_body opts)) (\<lambda>bodyText.
     bind_result (throwIfAborted (jo_signal opts \<and> aborted1) target reason) (\<lambda>_.
     bind_result (resolveProxyAgent target resolver) (\<lambda>ag.
     bind_result (throwIfAborted (jo_signal opts \<and> aborted2) target reason) (\<lambda>_.
       Inr \<lparr>rp_target = target, rp_method = meth, rp_bodyText = bodyText,
            rp_headers = buildHeaders p (jo_headers opts) bodyText, rp_timeoutMs = timeoutMs,
            rp_maxResponseBytes = maxBytes, rp_signal = jo_signal opts,
            rp_throwOnHttpError = (case jo_throwOnHttpError opts of None \<Rightarrow> True | Some b \<Rightarrow> b),
            rp_agent = ag\<rparr>)))))))))"

section \<open>What a request guarantees\<close>

definition exec_ok :: "request_params \<Rightarrow> exec_state \<Rightarrow> bool" where
  "exec_ok r x \<longleftrightarrow>
     (ex_settled x \<longrightarrow> \<not> ex_timer x \<and> \<not> ex_abort_listener x)
     \<and> (\<not> ex_overflow x \<longrightarrow> ex_received x = int (length (concat (ex_chunks x))))
     \<and> (ex_overflow x \<longrightarrow> ex_settled x)
     \<and> int (length (concat (ex_chunks x))) \<le> rp_maxResponseBytes r"

fun http_settled :: "http_effect \<Rightarrow> bool" where
  "http_settled (Http_resolved v) = True"
| "http_settled (Http_rejected e) = True"
| "http_settled _ = False"

definition exec_step_ok :: "request_params \<Rightarrow> exec_state \<Rightarrow> exec_step \<Rightarrow> bool" where
  "exec_step_ok r x st \<longleftrightarrow> exec_ok r (fst st)
     \<and> tally http_settled (snd st) + of_bool (ex_settled x) = of_bool (ex_settled (fst st))"

lemma settle_ok:
  assumes "exec_ok r x"
  shows "exec_step_ok r x (settleReject x e)" "exec_step_ok r x (settleResolve x v)" "exec_step_ok r x (x, [])"
  using assms by (auto simp: settleReject_def settleResolve_def cleanup_def exec_step_ok_def exec_ok_def)

lemma on_data_ok: "exec_ok r x \<Longrightarrow> exec_step_ok r x (on_data r x status chunk)"
  by (auto simp: on_data_def Let_def settleReject_def cleanup_def exec_step_ok_def exec_ok_def)

lemma on_response_ok: "exec_ok r x \<Longrightarrow> exec_step_ok r x (on_response r x statusCode headers)"
  by (auto simp: on_response_def Let_def settleReject_def cleanup_def exec_step_ok_def exec_ok_def split: option.split)

lemma on_end_ok: "exec_ok r x \<Longrightarrow> exec_step_ok r x (on_end p r x status headers)"
  by (simp add: on_end_def Let_def settle_ok split: option.split)

lemma disarm_ok:
  assumes "exec_ok r x"
  shows "exec_step_ok r x (x\<lparr>ex_timer := False\<rparr>, [Http_destroy e])"
    "exec_step_ok r x (x\<lparr>ex_abort_listener := False\<rparr>, [Http_destroy e])"
  using assms by (auto simp: exec_step_ok_def exec_ok_def)

lemma exec_handle_ok: "exec_ok r x \<Longrightarrow> exec_step_ok r x (exec_handle p r reason x e)"
  by (cases e) (auto simp: on_open_response_def settle_ok on_data_ok on_response_ok on_end_ok disarm_ok
      split: option.split)

interpretation http: promise_ledger "exec_handle p r reason" "exec_ok r" "\<lambda>(_ :: unit) _. False" "\<lambda>_. http_settled"
  "\<lambda>x _. \<not> ex_settled x" "\<lambda>_ _. False"
  for p r reason
proof (unfold_locales)
  fix x e x' fx and k :: unit
  assume ok: "exec_ok r x" and st: "exec_handle p r reason x e = (x', fx)"
  have facts: "exec_ok r x' \<and> tally http_settled fx + of_bool (ex_settled x) = of_bool (ex_settled x')"
    using exec_handle_ok [OF ok, of p reason e] st by (simp add: exec_step_ok_def)
  show "exec_ok r x'" using facts by blast
  show "tally (\<lambda>_. False) fx + of_bool (\<not> ex_settled x) = tally http_settled fx + of_bool (\<not> ex_settled x')"
    using facts by (cases "ex_settled x"; cases "ex_settled x'") (simp_all add: tally_none)
  show "tally (\<lambda>_. False) fx + of_bool False \<le> of_bool False" by (simp add: tally_none)
qed

text \<open>The bytes of the body: the data after the first response.\<close>

fun data_of :: "http_event \<Rightarrow> nat list" where
  "data_of (On_data chunk) = chunk"
| "data_of _ = []"

fun is_response :: "http_event \<Rightarrow> bool" where
  "is_response (On_response s h) = True"
| "is_response _ = False"

definition body_bytes :: "http_event list \<Rightarrow> nat list" where
  "body_bytes es = concat (map data_of (dropWhile (\<lambda>e. \<not> is_response e) es))"

lemma exec_start_ok:
  assumes "exec_start r aborted reason we = (x, fx)" "0 \<le> rp_maxResponseBytes r"
  shows "exec_ok r x" and "tally http_settled fx = of_bool (ex_settled x)" and "\<And>v. Http_resolved v \<notin> set fx"
    and "ex_responded x = False" "ex_response x = None" "ex_chunks x = []"
  using assms
  by (auto simp: exec_start_def Let_def settleReject_def cleanup_def exec_ok_def split: if_splits option.splits)

definition collecting :: "http_event list \<Rightarrow> exec_state \<Rightarrow> bool" where
  "collecting es x \<longleftrightarrow> ex_responded x = list_ex is_response es
     \<and> (ex_response x \<noteq> None \<longrightarrow> ex_responded x)
     \<and> (ex_response x \<noteq> None \<and> \<not> ex_overflow x \<longrightarrow> concat (ex_chunks x) = body_bytes es)
     \<and> (ex_response x = None \<longrightarrow> ex_chunks x = [])"

lemma body_bytes_none:
  assumes "\<not> list_ex is_response es"
  shows "body_bytes es = []"
proof -
  have "dropWhile (\<lambda>e. \<not> is_response e) es = []" using assms by (simp add: list_ex_iff)
  then show ?thesis unfolding body_bytes_def by (simp only: list.map concat.simps)
qed

lemma body_bytes_snoc:
  "body_bytes (es @ [e]) = body_bytes es @ (if list_ex is_response es then data_of e else [])"
proof (cases "list_ex is_response es")
  case True
  then show ?thesis by (auto simp: body_bytes_def dropWhile_append list_ex_iff)
next
  case False
  have "is_response e \<Longrightarrow> data_of e = []" by (cases e) simp_all
  moreover have "dropWhile (\<lambda>e. \<not> is_response e) (es @ [e]) = (if is_response e then [e] else [])"
    using False by (simp add: dropWhile_append list_ex_iff)
  ultimately have "body_bytes (es @ [e]) = []" by (simp add: body_bytes_def)
  then show ?thesis using False body_bytes_none [OF False] by simp
qed

lemma collecting_same:
  assumes "collecting es x" "\<not> is_response e" "data_of e = [] \<or> ex_response x = None \<or> ex_overflow x"
    "ex_responded x' = ex_responded x" "ex_response x' = ex_response x" "ex_overflow x' = ex_overflow x" "ex_chunks x' = ex_chunks x"
  shows "collecting (es @ [e]) x'"
  using assms by (auto simp: collecting_def body_bytes_snoc)

lemma collecting_step:
  assumes "collecting es x" "exec_handle p r reason x e = (x', fx)"
  shows "collecting (es @ [e]) x'"
proof (cases e)
  case (On_response statusCode headers)
  show ?thesis
  proof (cases "ex_responded x")
    case True
    then show ?thesis using assms On_response by (auto simp: collecting_def body_bytes_snoc)
  next
    case False
    then have "body_bytes (es @ [e]) = []" "ex_response x = None" "ex_chunks x = []"
      using assms(1) body_bytes_none [of es] by (auto simp: collecting_def body_bytes_snoc simp del: not_None_eq)
    then show ?thesis using assms(2) On_response False
      by (auto simp: collecting_def on_response_def Let_def settleReject_def cleanup_def split: option.splits if_splits)
  qed
next
  case (On_data chunk)
  show ?thesis
  proof (cases "ex_response x = None \<or> ex_overflow x")
    case True
    then have "x' = x" using assms(2) On_data by (auto simp: on_open_response_def on_data_def split: option.splits)
    then show ?thesis using collecting_same [OF assms(1)] True On_data by auto
  next
    case False
    then show ?thesis
      using assms On_data
      by (auto simp: on_open_response_def on_data_def Let_def collecting_def body_bytes_snoc settleReject_def
          cleanup_def split: if_splits)
  qed
next
  case On_end
  then have "ex_responded x' = ex_responded x \<and> ex_response x' = ex_response x \<and> ex_overflow x' = ex_overflow x
      \<and> ex_chunks x' = ex_chunks x"
    using assms(2)
    by (auto simp: on_open_response_def on_end_def Let_def settleReject_def settleResolve_def cleanup_def
        split: option.splits if_splits)
  then show ?thesis using collecting_same [OF assms(1), of e x'] On_end by simp
qed (use assms collecting_same [OF assms(1), of e x'] in \<open>auto simp: on_open_response_def settleReject_def cleanup_def
      split: option.splits if_splits\<close>)

lemma resolved_step:
  assumes "exec_handle p r reason x e = (x', fx)" "Http_resolved v \<in> set fx"
  shows "e = On_end \<and> \<not> ex_overflow x \<and> ex_response x = Some (jr_status v, jr_headers v)
     \<and> jr_rawBody v = hp_utf8 p (concat (ex_chunks x))
     \<and> (if jr_rawBody v = [] then jr_body v = JNull else hp_parse p (jr_rawBody v) = Some (jr_body v))
     \<and> (rp_throwOnHttpError r \<longrightarrow> jr_status v < 400)"
  using assms
  by (cases e) (auto simp: on_open_response_def on_data_def on_response_def on_end_def settleReject_def settleResolve_def
      Let_def split: option.splits if_splits)

text \<open>
  C14: A JSON request settles once and within its size limit. Whatever order the response, its data, the
  timer, the abort signal and socket errors come in, the promise is settled at most once, with the timer
  and the abort listener gone from then on; no more than \<open>maxResponseBytes\<close> bytes are ever buffered; and
  a resolved response is the JSON of exactly the bytes received before the end of the response, with a
  status below 400 when such statuses are to be thrown.
\<close>

theorem json_request_contract:
  assumes "exec_start r aborted reason write_error = (x0, fx0)"
    and "run_steps (exec_handle p r reason) x0 es = (x, fx)" and "0 \<le> rp_maxResponseBytes r"
  shows "tally http_settled (fx0 @ fx) = of_bool (ex_settled x)
     \<and> (ex_settled x \<longrightarrow> \<not> ex_timer x \<and> \<not> ex_abort_listener x)
     \<and> int (length (concat (ex_chunks x))) \<le> rp_maxResponseBytes r
     \<and> (\<forall>v. Http_resolved v \<in> set (fx0 @ fx) \<longrightarrow>
          (\<exists>es1 es2. es = es1 @ On_end # es2 \<and> int (length (body_bytes es1)) \<le> rp_maxResponseBytes r
             \<and> jr_rawBody v = hp_utf8 p (body_bytes es1)
             \<and> (if jr_rawBody v = [] then jr_body v = JNull else hp_parse p (jr_rawBody v) = Some (jr_body v))
             \<and> (rp_throwOnHttpError r \<longrightarrow> jr_status v < 400)))"
proof -
  note start = exec_start_ok [OF assms(1,3)]
  have books: "exec_ok r x' \<and> of_bool (\<not> ex_settled x0) = tally http_settled fx' + of_bool (\<not> ex_settled x')"
    if "run_steps (exec_handle p r reason) x0 es' = (x', fx')" for es' x' fx'
    using http.run_ledger [OF start(1) that] by (simp add: tally_none)
  have coll: "collecting es' x' \<and> (\<forall>v. Http_resolved v \<in> set fx' \<longrightarrow>
          (\<exists>es1 es2. es' = es1 @ On_end # es2 \<and> int (length (body_bytes es1)) \<le> rp_maxResponseBytes r
             \<and> jr_rawBody v = hp_utf8 p (body_bytes es1)
             \<and> (if jr_rawBody v = [] then jr_body v = JNull else hp_parse p (jr_rawBody v) = Some (jr_body v))
             \<and> (rp_throwOnHttpError r \<longrightarrow> jr_status v < 400)))"
    if "run_steps (exec_handle p r reason) x0 es' = (x', fx')" for es' x' fx'
    using that
  proof (induction es' arbitrary: x' fx' rule: rev_induct)
    case Nil
    then show ?case using start by (auto simp: collecting_def)
  next
    case (snoc e es')
    obtain x1 fx1 where r1: "run_steps (exec_handle p r reason) x0 es' = (x1, fx1)"
      by (cases "run_steps (exec_handle p r reason) x0 es'")
    obtain x2 fx2 where st: "exec_handle p r reason x1 e = (x2, fx2)" by (cases "exec_handle p r reason x1 e")
    have out: "x' = x2" "fx' = fx1 @ fx2" using snoc.prems r1 st by (simp_all add: run_steps_snoc)
    note IH = snoc.IH [OF r1]
    have "\<exists>es1 es2. es' @ [e] = es1 @ On_end # es2 \<and> int (length (body_bytes es1)) \<le> rp_maxResponseBytes r
             \<and> jr_rawBody v = hp_utf8 p (body_bytes es1)
             \<and> (if jr_rawBody v = [] then jr_body v = JNull else hp_parse p (jr_rawBody v) = Some (jr_body v))
             \<and> (rp_throwOnHttpError r \<longrightarrow> jr_status v < 400)" if v: "Http_resolved v \<in> set fx'" for v
    proof (cases "Http_resolved v \<in> set fx1")
      case True
      then show ?thesis using IH by (metis append.assoc append_Cons)
    next
      case False
      then have "Http_resolved v \<in> set fx2" using v out by simp
      note res = resolved_step [OF st this]
      have "concat (ex_chunks x1) = body_bytes es'" using IH res by (auto simp: collecting_def)
      moreover have "int (length (concat (ex_chunks x1))) \<le> rp_maxResponseBytes r"
        using books [OF r1] by (simp add: exec_ok_def)
      ultimately have "es' @ [e] = es' @ On_end # [] \<and> int (length (body_bytes es')) \<le> rp_maxResponseBytes r
             \<and> jr_rawBody v = hp_utf8 p (body_bytes es')
             \<and> (if jr_rawBody v = [] then jr_body v = JNull else hp_parse p (jr_rawBody v) = Some (jr_body v))
             \<and> (rp_throwOnHttpError r \<longrightarrow> jr_status v < 400)"
        using res by auto
      then show ?thesis by blast
    qed
    then show ?case using collecting_step IH st out by blast
  qed
  have "tally http_settled (fx0 @ fx) = of_bool (ex_settled x)"
    using books [OF assms(2)] start(2) by (cases "ex_settled x0"; cases "ex_settled x") simp_all
  moreover have "exec_ok r x" using books [OF assms(2)] by blast
  ultimately show ?thesis using coll [OF assms(2)] start(3) by (auto simp: exec_ok_def)
qed

text \<open>A response of two chunks, the timer firing between them.\<close>

definition demo_request :: request_params where
  "demo_request =
     \<lparr>rp_target = \<lparr>u_protocol = ''http:'', u_hostname = ''h'', u_port = [], u_href = ''http://h/'', u_pathname = ''/'', u_search = []\<rparr>,
      rp_method = ''GET'', rp_bodyText = None, rp_headers = [], rp_timeoutMs = 8000, rp_maxResponseBytes = 8,
      rp_signal = False, rp_throwOnHttpError = True, rp_agent = None\<rparr>"

definition demo_http :: http_platform where
  "demo_http = \<lparr>hp_stringify = (\<lambda>_. None), hp_parse = (\<lambda>s. if s = ''{}'' then Some (JObj []) else None),
     hp_utf8 = map char_of, hp_num = (\<lambda>_. [])\<rparr>"

definition demo_exchange :: "http_event list" where
  "demo_exchange = [On_response (Some 200) [], On_data [123], On_data [125], On_end, On_timer]"

theorem json_request_contract_witness:
  "tally http_settled (snd (exec_start demo_request False JUndef None)
       @ snd (run_steps (exec_handle demo_http demo_request JUndef)
           (fst (exec_start demo_request False JUndef None)) demo_exchange)) = 1
   \<and> Http_resolved \<lparr>jr_status = 200, jr_headers = [], jr_body = JObj [], jr_rawBody = ''{}''\<rparr>
       \<in> set (snd (run_steps (exec_handle demo_http demo_request JUndef)
           (fst (exec_start demo_request False JUndef None)) demo_exchange))"
proof -
  let ?s = "exec_start demo_request False JUndef None"
  let ?r = "run_steps (exec_handle demo_http demo_request JUndef) (fst ?s) demo_exchange"
  have "ex_settled (fst ?r)" by code_simp
  moreover have "Http_resolved \<lparr>jr_status = 200, jr_headers = [], jr_body = JObj [], jr_rawBody = ''{}''\<rparr> \<in> set (snd ?r)"
    by code_simp
  moreover have "0 \<le> rp_maxResponseBytes demo_request" by (simp add: demo_request_def)
  ultimately show ?thesis
    using json_request_contract [of demo_request False JUndef None "fst ?s" "snd ?s" demo_http demo_exchange "fst ?r" "snd ?r"]
    by simp
qed

end
