(* ===== verification/Control_Plane.thy ===== *)
theory Control_Plane
  imports Http_Client
begin

text \<open>
  The control-plane client, \<^verbatim>\<open>src/control-plane/control-plane-client.ts\<close>, and the wrappers of \<^verbatim>\<open>src/net\<close> around the
  proxy packages. A call is the request it hands to \<open>requestJson\<close> and what it makes of the outcome: the
  value requestFn resolves with, or the value it throws. \<open>thrown\<close> is any thrown value: an error object with
  its name, message and code, a string, or something else; the errors of \<open>Http_Client\<close> are such objects.
\<close>

section \<open>Errors\<close>

datatype thrown =
    Error_object string string "string option"
  | Thrown_string string
  | Thrown_other jsval
  | Transport_error string string thrown
  | Http_error int string jsval

definition inferTransportErrorCode :: "thrown \<Rightarrow> string option" where
  "inferTransportErrorCode e =
     (case e of
        Thrown_string s \<Rightarrow>
          (if startsWith s ''request_timeout:'' then Some ''request_timeout''
           else if s = ''request_aborted'' then Some ''request_aborted''
           else Some ''transport_error'')
      | Error_object name message code \<Rightarrow>
          (if startsWith message ''request_timeout:'' \<or> name = ''RequestTimeoutError'' then Some ''request_timeout''
           else if message = ''request_aborted'' \<or> name = ''RequestAbortedError'' \<or> name = ''AbortError''
             \<or> code = Some ''ABORT_ERR'' then Some ''request_aborted''
           else if message = ''proxy_resolution_error'' \<or> name = ''ProxyResolutionError'' then Some ''transport_error''
           else None)
      | Transport_error _ _ _ \<Rightarrow> None
      | Http_error _ _ _ \<Rightarrow> None
      | Thrown_other _ \<Rightarrow> Some ''unknown_transport_error'')"

definition normalizeTransportError :: "string \<Rightarrow> thrown \<Rightarrow> thrown" where
  "normalizeTransportError href e =
     (case e of
        Transport_error _ _ _ \<Rightarrow> e
      | _ \<Rightarrow>
          (case inferTransportErrorCode e of
             Some code \<Rightarrow> Transport_error code href e
           | None \<Rightarrow>
               (case e of
                  Error_object _ _ _ \<Rightarrow> e
                | Http_error _ _ _ \<Rightarrow> e
                | _ \<Rightarrow> Transport_error ''unknown_transport_error'' href e)))"

text \<open>The name, message and code of the errors of \<open>requestJson\<close>.\<close>

definition http_error_object :: "http_platform \<Rightarrow> http_error \<Rightarrow> thrown" where
  "http_error_object p e =
     (case e of
        UnsupportedProtocolError protocol \<Rightarrow> Error_object ''UnsupportedProtocolError'' (''unsupported_protocol:'' @ protocol) None
      | ProxyResolutionError target cause \<Rightarrow> Error_object ''ProxyResolutionError'' ''proxy_resolution_error'' None
      | RequestAbortedError target reason \<Rightarrow> Error_object ''RequestAbortedError'' ''request_aborted'' None
      | HttpStatusError status headers body raw \<Rightarrow>
          Error_object ''HttpStatusError'' (''http_status_error:'' @ hp_num p (of_int status)) None
      | RequestTimeoutError timeoutMs target \<Rightarrow>
          Error_object ''RequestTimeoutError'' (''request_timeout:'' @ hp_num p timeoutMs) None
      | JsonParseError status raw \<Rightarrow> Error_object ''JsonParseError'' (''json_parse_error:'' @ hp_num p (of_int status)) None
      | ResponseSizeLimitError target status maxBytes got \<Rightarrow>
          Error_object ''ResponseSizeLimitError'' (''response_size_limit_exceeded:'' @ hp_num p (of_int maxBytes)) None
      | TypeError message \<Rightarrow> Error_object ''TypeError'' message None
      | Node_error v \<Rightarrow> Thrown_other v
      | Plain_text_error message \<Rightarrow> Error_object ''Error'' message None)"

section \<open>The client\<close>

record control_client =
  cc_baseUrl :: string
  cc_apiToken :: "string option"
  cc_timeoutMs :: rat
  cc_factory :: "agent_factory option"

definition normalizeTimeoutMs :: "jsnum option \<Rightarrow> rat" where
  "normalizeTimeoutMs timeoutMs =
     (case timeoutMs of
        Some (Fin q) \<Rightarrow> (if q \<le> 0 then 8000 else of_int \<lfloor>q\<rfloor>)
      | _ \<Rightarrow> 8000)"

definition new_control_client ::
  "string \<Rightarrow> string option \<Rightarrow> jsnum option \<Rightarrow> agent_factory option \<Rightarrow> control_client" where
  "new_control_client baseUrl apiToken timeoutMs factory =
     \<lparr>cc_baseUrl = baseUrl,
      cc_apiToken = (case apiToken of None \<Rightarrow> None | Some t \<Rightarrow> if trim t = [] then None else Some (trim t)),
      cc_timeoutMs = normalizeTimeoutMs timeoutMs, cc_factory = factory\<rparr>"

definition createControlPlaneProxyFactory :: "full_url_parser \<Rightarrow> environment \<Rightarrow> jsnum option \<Rightarrow> agent_options \<Rightarrow> agent_factory" where
  "createControlPlaneProxyFactory url env maxProxyCacheEntries opts =
     new_factory (loadProxySettings url env) maxProxyCacheEntries opts"

definition createControlPlaneClientFromEnv ::
  "full_url_parser \<Rightarrow> environment \<Rightarrow> string \<Rightarrow> string option \<Rightarrow> jsnum option \<Rightarrow> jsnum option \<Rightarrow> agent_options \<Rightarrow> control_client" where
  "createControlPlaneClientFromEnv url env baseUrl apiToken timeoutMs maxEntries opts =
     new_control_client baseUrl apiToken timeoutMs (Some (createControlPlaneProxyFactory url env maxEntries opts))"

datatype control_call = Authenticate js_record | ClaimPairing js_record | SendTelemetry js_record

fun call_path :: "control_call \<Rightarrow> string" where
  "call_path (Authenticate _) = ''auth/device''"
| "call_path (ClaimPairing _) = ''pair/claim''"
| "call_path (SendTelemetry _) = ''telemetry/events''"

fun call_payload :: "control_call \<Rightarrow> jsval" where
  "call_payload (Authenticate r) = JObj r"
| "call_payload (ClaimPairing r) = JObj r"
| "call_payload (SendTelemetry r) = JObj r"

text \<open>
  The request of \<open>post\<close>, with the adapter \<open>requestViaProxyHttpPackage\<close>: statuses are never thrown by the
  HTTP client here.
\<close>

definition post_options :: "control_client \<Rightarrow> jsval \<Rightarrow> json_options" where
  "post_options c payload =
     \<lparr>jo_method = Some ''POST'',
      jo_headers = (case cc_apiToken c of None \<Rightarrow> [] | Some t \<Rightarrow> [(''authorization'', ''Bearer '' @ t)]),
      jo_body = payload, jo_timeoutMs = Some (Fin (cc_timeoutMs c)), jo_maxResponseBytes = None, jo_signal = False,
      jo_throwOnHttpError = Some False\<rparr>"

definition assertSuccess :: "string \<Rightarrow> json_response \<Rightarrow> (thrown, unit) result" where
  "assertSuccess href response =
     (if jr_status response \<ge> 200 \<and> jr_status response < 300 then Inr ()
      else Inl (Http_error (jr_status response) href (jr_body response)))"

definition post_outcome :: "string \<Rightarrow> (thrown, json_response) result \<Rightarrow> (thrown, jsval) result" where
  "post_outcome href outcome =
     (case outcome of
        Inl e \<Rightarrow> Inl (normalizeTransportError href e)
      | Inr response \<Rightarrow> bind_result (assertSuccess href response) (\<lambda>_. Inr (jr_body response)))"

text \<open>
  \<open>toProxyAgentResolver\<close>: the factory resolves the target, and what it throws is the resolver's throw. A
  factory whose eviction loop did not end would not return at all.
\<close>

definition toProxyAgentResolver ::
  "full_url_parser \<Rightarrow> http_url \<Rightarrow> (agent_error \<Rightarrow> jsval) \<Rightarrow> agent_factory option \<Rightarrow> (agent_factory option \<times> resolver_outcome) option" where
  "toProxyAgentResolver url target show_error factory =
     (case factory of
        None \<Rightarrow> Some (None, No_resolver)
      | Some f \<Rightarrow>
          map_option (\<lambda>(f', _, r). (Some f',
              case r of Inl e \<Rightarrow> Resolver_threw (show_error e) | Inr res \<Rightarrow> Resolver_result (Some (ar_agent res))))
            (factory_resolve url (js_url.truncate target) f))"

definition control_post ::
  "http_platform \<Rightarrow> full_url_parser \<Rightarrow> (agent_error \<Rightarrow> jsval) \<Rightarrow> http_url \<Rightarrow> control_client \<Rightarrow> control_call
   \<Rightarrow> (control_client \<times> (http_error, request_params) result) option" where
  "control_post p url show_error target c call =
     map_option (\<lambda>(f, outcome).
         (c\<lparr>cc_factory := f\<rparr>,
          requestJson_params p (Some target) (post_options c (call_payload call)) False False JUndef outcome))
       (toProxyAgentResolver url target show_error (cc_factory c))"

section \<open>The wrappers of the bridge\<close>

text \<open>\<open>loadProxySettings\<close> of \<^verbatim>\<open>src/net/proxy-router.ts\<close>: four variables, lower case first, under upper-case names.\<close>

definition env_first :: "environment \<Rightarrow> string \<Rightarrow> string \<Rightarrow> string option" where
  "env_first env lower upper = (case env lower of Some v \<Rightarrow> Some v | None \<Rightarrow> env upper)"

definition compatibility_env :: "environment \<Rightarrow> environment" where
  "compatibility_env env = (\<lambda>k.
     if k = ''HTTP_PROXY'' then env_first env ''http_proxy'' ''HTTP_PROXY''
     else if k = ''HTTPS_PROXY'' then env_first env ''https_proxy'' ''HTTPS_PROXY''
     else if k = ''ALL_PROXY'' then env_first env ''all_proxy'' ''ALL_PROXY''
     else if k = ''NO_PROXY'' then env_first env ''no_proxy'' ''NO_PROXY''
     else None)"

definition router_loadProxySettings :: "full_url_parser \<Rightarrow> environment \<Rightarrow> proxy_settings" where
  "router_loadProxySettings url env = loadProxySettings url (compatibility_env env)"

definition net_factory :: "full_url_parser \<Rightarrow> environment \<Rightarrow> proxy_settings option \<Rightarrow> jsnum option \<Rightarrow> agent_options \<Rightarrow> agent_factory" where
  "net_factory url env settings maxEntries opts =
     new_factory (case settings of None \<Rightarrow> router_loadProxySettings url env | Some s \<Rightarrow> s) maxEntries opts"

definition outbound_options :: "json_options \<Rightarrow> json_options" where
  "outbound_options opts =
     \<lparr>jo_method = jo_method opts, jo_headers = jo_headers opts, jo_body = jo_body opts, jo_timeoutMs = jo_timeoutMs opts,
      jo_maxResponseBytes = None, jo_signal = False, jo_throwOnHttpError = Some False\<rparr>"

section \<open>What a call returns\<close>

lemma infer_http_error:
  "inferTransportErrorCode (http_error_object p (RequestTimeoutError t target)) = Some ''request_timeout''"
  "inferTransportErrorCode (http_error_object p (RequestAbortedError target v)) = Some ''request_aborted''"
  "inferTransportErrorCode (http_error_object p (ProxyResolutionError target v)) = Some ''transport_error''"
  "inferTransportErrorCode (http_error_object p (HttpStatusError st h b raw)) = None"
  "inferTransportErrorCode (http_error_object p (JsonParseError st raw)) = None"
  "inferTransportErrorCode (http_error_object p (ResponseSizeLimitError target st m n)) = None"
  by (simp_all add: inferTransportErrorCode_def http_error_object_def startsWith_def)

lemma post_outcome_Inr:
  "post_outcome href outcome = Inr b \<longleftrightarrow>
     (\<exists>response. outcome = Inr response \<and> 200 \<le> jr_status response \<and> jr_status response < 300 \<and> b = jr_body response)"
  by (cases outcome) (auto simp: post_outcome_def assertSuccess_def)



text \<open>The request itself: a POST with the payload as JSON, the token as bearer, and statuses left to the caller.\<close>

lemma fold_mput_lookup:
  "map_of (fold (\<lambda>(k, v) m. mput m k v) xs m) k =
     (case map_of (rev xs) k of Some v \<Rightarrow> Some v | None \<Rightarrow> map_of m k)"
  by (induction xs arbitrary: m) (auto split: option.split simp: map_of_append map_add_def)

lemma method_post: "normalizeMethod (Some ''POST'') = Inr ''POST''"
  by (simp add: normalizeMethod_def trim_def is_ws_def toUpperCase_def upper_char_def http_token_char_def is_alnum_def)

lemma control_request_sent:
  assumes "control_post p url show_error target c call = Some (c', Inr r)"
  shows "rp_method r = ''POST'' \<and> \<not> rp_throwOnHttpError r \<and> rp_target r = target
     \<and> map_of (rp_headers r) ''authorization'' = map_option (\<lambda>t. ''Bearer '' @ t) (cc_apiToken c)
     \<and> rp_timeoutMs r = cc_timeoutMs c"
proof -
  obtain outcome where req: "requestJson_params p (Some target) (post_options c (call_payload call)) False False JUndef outcome = Inr r"
    using assms by (auto simp: control_post_def)
  then obtain bodyText where r: "rp_method r = ''POST''" "rp_throwOnHttpError r = False" "rp_target r = target"
    "rp_headers r = buildHeaders p (jo_headers (post_options c (call_payload call))) bodyText" "rp_timeoutMs r = cc_timeoutMs c"
    by (auto simp: requestJson_params_def bind_result_Inr post_options_def method_post parseTargetUrl_def normalizeTimeout_def
        split: if_splits)
  have "map_of (rp_headers r) ''authorization'' = map_option (\<lambda>t. ''Bearer '' @ t) (cc_apiToken c)"
    unfolding r(4) by (auto simp: buildHeaders_def post_options_def Let_def fold_mput_lookup split: option.split)
  then show ?thesis using r by simp
qed

text \<open>A timeout below one millisecond rounds to zero, which the HTTP client takes for no timeout at all.\<close>

lemma small_timeout_disables_timer:
  "normalizeTimeoutMs (Some (Fin (1 / 2))) = 0"
  "rp_timeoutMs r = 0 \<Longrightarrow> \<not> ex_timer (fst (exec_start r False reason None))"
  by (simp_all add: normalizeTimeoutMs_def exec_start_def Let_def floor_divide_of_int_eq [of 1 2, simplified])

section \<open>The wrapper of the settings\<close>

text \<open>
  The bridge's own \<open>loadProxySettings\<close> reads the same settings as the proxy core, for an environment
  outside CGI in which \<open>NO_PROXY\<close> and \<open>no_proxy\<close> do not differ.
\<close>

theorem router_settings_agree:
  assumes "env ''REQUEST_METHOD'' = None" and "env ''request_method'' = None"
    and "env ''no_proxy'' = None \<or> env ''NO_PROXY'' = None \<or> env ''no_proxy'' = env ''NO_PROXY''"
  shows "router_loadProxySettings url env = loadProxySettings url env"
  using assms
  by (auto simp: router_loadProxySettings_def loadProxySettings_def compatibility_env_def env_first_def readRawEnv_def
      readProxyEnv_def truthy_def Let_def split: option.splits)

theorem router_settings_agree_witness:
  "router_loadProxySettings (\<lambda>_. None) (\<lambda>k. if k = ''http_proxy'' then Some ''http://p'' else None)
     = loadProxySettings (\<lambda>_. None) (\<lambda>k. if k = ''http_proxy'' then Some ''http://p'' else None)"
  by (rule router_settings_agree) simp_all

text \<open>
  Outside that condition they differ: with both variables set the wrapper takes \<open>no_proxy\<close> and the core
  \<open>NO_PROXY\<close>; under CGI the core ignores \<open>HTTP_PROXY\<close>, which a request header can set, and the wrapper
  does not.
\<close>

lemma router_prefers_other_no_proxy:
  assumes "env ''no_proxy'' = Some a" "env ''NO_PROXY'' = Some b"
  shows "ps_noProxy (router_loadProxySettings url env) = parseNoProxy url a"
    and "ps_noProxy (loadProxySettings url env) = parseNoProxy url b"
  using assms by (simp_all add: router_loadProxySettings_def loadProxySettings_def compatibility_env_def env_first_def
      readRawEnv_def Let_def)

lemma router_ignores_cgi:
  assumes "env ''REQUEST_METHOD'' = Some ''GET''" "env ''http_proxy'' = None" "env ''HTTP_PROXY'' = Some v"
  shows "ps_httpProxy (router_loadProxySettings url env) = sanitizeProxyUrl url (Some v)"
    and "ps_httpProxy (loadProxySettings url env) = sanitizeProxyUrl url None"
  using assms by (simp_all add: router_loadProxySettings_def loadProxySettings_def compatibility_env_def env_first_def
      readRawEnv_def readProxyEnv_def truthy_def Let_def)

end
