(* ===== verification/Orchestration_Tools.thy ===== *)
theory Orchestration_Tools
  imports Agent_Dispatch
begin

text \<open>
  The command-line tools around capsules, briefs and dispatches, \<^verbatim>\<open>scripts/orchestration/build-task-capsule.ts\<close>, \<^verbatim>\<open>build-agent-brief.ts\<close> and
  \<^verbatim>\<open>build-agent-dispatch.ts\<close>. \<open>tool_host\<close> holds the platform: \<open>path.resolve\<close>, reading a file (its text or the message of the
  failure), \<open>JSON.parse\<close> (a value or a message) and \<open>JSON.stringify\<close>. A tool that runs to its end returns the file it writes. The three
  tools repeat the functions on options; they are modelled once. The brief tool's search for an exported builder finds
  \<open>buildAgentBrief\<close>.
\<close>

section \<open>Options\<close>

record tool_host =
  th_resolve :: "string \<Rightarrow> string"
  th_readFile :: "string \<Rightarrow> (string, string) result"
  th_parse :: "string \<Rightarrow> (string, jsval) result"
  th_stringify :: "jsval \<Rightarrow> string"

definition isOptionToken :: "string \<Rightarrow> bool" where
  "isOptionToken token \<longleftrightarrow> token = ''--help'' \<or> token = ''-h'' \<or> startsWith token ''--''"

definition parseOptionToken :: "string \<Rightarrow> (string, string \<times> string option) result" where
  "parseOptionToken token =
     (if \<not> startsWith token ''--'' then Inl (''Unexpected token: '' @ token)
      else case indexOf token CHR ''='' of
        None \<Rightarrow> Inr (token, None)
      | Some i \<Rightarrow> Inr (take i token, Some (drop (Suc i) token)))"

text \<open>
  The loop of \<open>parseCliArgs\<close>: the values with their flags in the order given, and whether help was asked for. A flag that takes one
  value keeps the last, a repeatable flag all.
\<close>

fun parse_options :: "string list \<Rightarrow> string list \<Rightarrow> (string \<times> string) list \<Rightarrow> bool \<Rightarrow> (string, (string \<times> string) list \<times> bool) result" where
  "parse_options known [] given help = Inr (given, help)"
| "parse_options known (token # rest) given help =
     (if token = ''--help'' \<or> token = ''-h'' then parse_options known rest given True
      else case parseOptionToken token of
        Inl e \<Rightarrow> Inl e
      | Inr (flag, inlineValue) \<Rightarrow>
          if flag \<notin> set known then Inl (''Unknown option: '' @ flag)
          else case inlineValue of
            Some v \<Rightarrow> parse_options known rest (given @ [(flag, v)]) help
          | None \<Rightarrow>
              (case rest of
                 [] \<Rightarrow> Inl (flag @ '' requires a value.'')
               | v # rest' \<Rightarrow> if isOptionToken v then Inl (flag @ '' requires a value.'')
                   else parse_options known rest' (given @ [(flag, v)]) help))"

definition one_value :: "(string \<times> string) list \<Rightarrow> string \<Rightarrow> string option" where
  "one_value given flag = map_of (rev given) flag"

definition all_values :: "(string \<times> string) list \<Rightarrow> string \<Rightarrow> string list" where
  "all_values given flag = map snd (filter (\<lambda>(f, v). f = flag) given)"

definition requireValue :: "(string \<times> string) list \<Rightarrow> string \<Rightarrow> (string, string) result" where
  "requireValue given flag =
     (let raw = or_default (one_value given flag) []
      in if raw = [] then Inl (''Missing required option: '' @ flag)
         else if trim raw = [] then Inl (flag @ '' cannot be empty.'') else Inr (trim raw))"

definition normalizeUniqueList :: "string list \<Rightarrow> string list" where
  "normalizeUniqueList texts = fold (\<lambda>v known. add_text known v) texts []"

definition requireRepeatedValues :: "string list \<Rightarrow> string \<Rightarrow> (string, string list) result" where
  "requireRepeatedValues texts flag =
     (let normalized = normalizeUniqueList texts
      in if normalized = [] then Inl (''Missing required option: '' @ flag @ '' (provide at least one value).'') else Inr normalized)"

datatype tool_outcome = Usage_text | Written string string

section \<open>The capsule tool\<close>

definition capsule_parseCliArgs :: "string list \<Rightarrow> (string, (string \<times> string) list \<times> bool) result" where
  "capsule_parseCliArgs argv =
     parse_options [''--goal'', ''--owner'', ''--path'', ''--accept'', ''--risk'', ''--snippet'', ''--out''] argv [] False"

definition snippet_clampLine :: "int \<Rightarrow> int \<Rightarrow> int \<Rightarrow> int" where
  "snippet_clampLine v lo hi = (if v < lo then lo else if v > hi then hi else v)"

definition selectSnippetContent :: "string \<Rightarrow> int option \<Rightarrow> int option \<Rightarrow> string" where
  "selectSnippetContent fileContent startLine endLine =
     (let normalized = unix_lines fileContent; lines = split_on newline normalized; n = int (length lines);
          safeStart = snippet_clampLine (or_default startLine 1) 1 n;
          safeEnd = snippet_clampLine (or_default endLine n) safeStart n
      in if startLine = None \<and> endLine = None then normalized
         else join [newline] (drop (nat (safeStart - 1)) (take (nat safeEnd) lines)))"

definition readSnippetInput :: "tool_host \<Rightarrow> string \<Rightarrow> (string, snippet_input) result" where
  "readSnippetInput host selector =
     (case bind_result (parseFileSnippetSelector selector None None) (\<lambda>parsed.
        bind_result (th_readFile host (th_resolve host (sel_path parsed))) (\<lambda>fileContent.
        Inr \<lparr>si_selector = selector, si_content = selectSnippetContent fileContent (sel_startLine parsed) (sel_endLine parsed)\<rparr>)) of
        Inl e \<Rightarrow> Inl (''Unable to read snippet for selector \"'' @ selector @ ''\": '' @ e)
      | Inr x \<Rightarrow> Inr x)"

text \<open>\<open>Promise.all\<close> over the selectors; when several reads fail, the first in the list is reported here.\<close>

fun read_all :: "tool_host \<Rightarrow> string list \<Rightarrow> (string, snippet_input list) result" where
  "read_all host [] = Inr []"
| "read_all host (s # ss) = bind_result (readSnippetInput host s) (\<lambda>x. bind_result (read_all host ss) (\<lambda>xs. Inr (x # xs)))"

text \<open>A capsule as an object; absent lines are absent properties.\<close>

definition line_prop :: "string \<Rightarrow> int option \<Rightarrow> js_record" where
  "line_prop name v = (case v of None \<Rightarrow> [] | Some i \<Rightarrow> [(name, jint i)])"

definition snippet_json :: "capsule_snippet \<Rightarrow> jsval" where
  "snippet_json s = JObj ([(''path'', JStr (cn_path s))] @ line_prop ''startLine'' (cn_startLine s) @ line_prop ''endLine'' (cn_endLine s)
     @ [(''content'', JStr (cn_content s))])"

definition capsule_json :: "task_capsule \<Rightarrow> jsval" where
  "capsule_json c = JObj [(''schemaVersion'', JStr (tc_schemaVersion c)), (''goal'', JStr (tc_goal c)), (''owner'', JStr (tc_owner c)),
     (''paths'', JArr (map JStr (tc_paths c))), (''acceptanceCriteria'', JArr (map JStr (tc_acceptanceCriteria c))),
     (''risks'', JArr (map JStr (tc_risks c))), (''snippets'', JArr (map snippet_json (tc_snippets c)))]"

definition capsule_tool :: "tool_host \<Rightarrow> string list \<Rightarrow> (string, tool_outcome) result" where
  "capsule_tool host argv =
     bind_result (capsule_parseCliArgs argv) (\<lambda>(given, help).
     if help then Inr Usage_text
     else bind_result (requireValue given ''--goal'') (\<lambda>goal.
       bind_result (requireValue given ''--owner'') (\<lambda>owner.
       bind_result (requireValue given ''--out'') (\<lambda>out.
       bind_result (read_all host (all_values given ''--snippet'')) (\<lambda>snippets.
       bind_result (buildTaskCapsule \<lparr>ci_goal = goal, ci_owner = owner, ci_paths = Some (all_values given ''--path''),
           ci_acceptanceCriteria = Some (all_values given ''--accept''), ci_risks = Some (all_values given ''--risk''),
           ci_snippets = Some snippets\<rparr> None) (\<lambda>capsule.
       Inr (Written (th_resolve host out) (th_stringify host (capsule_json capsule) @ [newline]))))))))"

section \<open>The brief tool\<close>

definition brief_parseCliArgs :: "string list \<Rightarrow> (string, (string \<times> string) list \<times> bool) result" where
  "brief_parseCliArgs argv =
     parse_options [''--capsule'', ''--task'', ''--owner'', ''--path'', ''--accept'', ''--risk'', ''--out''] argv [] False"

definition capsule_asRecord :: "jsval \<Rightarrow> string \<Rightarrow> (string, js_record) result" where
  "capsule_asRecord v ctx = (case v of JObj r \<Rightarrow> Inr r | _ \<Rightarrow> Inl (ctx @ '' must be an object.''))"

definition readRequiredString :: "js_record \<Rightarrow> string \<Rightarrow> string \<Rightarrow> bool \<Rightarrow> (string, string) result" where
  "readRequiredString source fld ctx requireNonEmpty =
     (case prop_of source fld of
        JStr v \<Rightarrow> (if requireNonEmpty \<and> trim v = [] then Inl (ctx @ ''.'' @ fld @ '' cannot be empty.'')
                  else Inr (if requireNonEmpty then trim v else v))
      | _ \<Rightarrow> Inl (ctx @ ''.'' @ fld @ '' must be a string.''))"

definition readArray :: "js_record \<Rightarrow> string \<Rightarrow> (string, jsval list) result" where
  "readArray source fld = (case prop_of source fld of JArr vs \<Rightarrow> Inr vs | _ \<Rightarrow> Inl (''capsule.'' @ fld @ '' must be an array.''))"

fun read_strings :: "string \<Rightarrow> nat \<Rightarrow> jsval list \<Rightarrow> (string, string list) result" where
  "read_strings fld i [] = Inr []"
| "read_strings fld i (v # vs) =
     (case v of
        JStr t \<Rightarrow> bind_result (read_strings fld (Suc i) vs) (\<lambda>ts. Inr (if trim t = [] then ts else trim t # ts))
      | _ \<Rightarrow> Inl (indexed_field (''capsule.'' @ fld) i @ '' must be a string.''))"

definition readStringArray :: "js_record \<Rightarrow> string \<Rightarrow> (string, string list) result" where
  "readStringArray source fld =
     bind_result (readArray source fld) (\<lambda>vs. bind_result (read_strings fld 0 vs) (\<lambda>ts. Inr (normalizeUniqueList ts)))"

definition readOptionalPositiveInteger :: "js_record \<Rightarrow> string \<Rightarrow> string \<Rightarrow> (string, int option) result" where
  "readOptionalPositiveInteger source fld ctx =
     (let wrong = Inl (ctx @ ''.'' @ fld @ '' must be a positive integer when provided.'')
      in case prop_of source fld of
        JUndef \<Rightarrow> Inr None
      | JNum n \<Rightarrow> (case num_as_int n of Some i \<Rightarrow> (if i < 1 then wrong else Inr (Some i)) | None \<Rightarrow> wrong)
      | _ \<Rightarrow> wrong)"

definition parseSnippet :: "jsval \<Rightarrow> nat \<Rightarrow> (string, capsule_snippet) result" where
  "parseSnippet v i =
     (let ctx = indexed_field ''capsule.snippets'' i
      in bind_result (capsule_asRecord v ctx) (\<lambda>snippet.
         bind_result (readOptionalPositiveInteger snippet ''startLine'' ctx) (\<lambda>startLine.
         bind_result (readOptionalPositiveInteger snippet ''endLine'' ctx) (\<lambda>endLine.
         if startLine \<noteq> None \<and> endLine \<noteq> None \<and> the endLine < the startLine
         then Inl (ctx @ ''.endLine cannot be less than startLine.'')
         else bind_result (readRequiredString snippet ''path'' ctx True) (\<lambda>path.
           bind_result (readRequiredString snippet ''content'' ctx False) (\<lambda>content.
           Inr \<lparr>cn_path = path, cn_startLine = startLine, cn_endLine = endLine, cn_content = content\<rparr>))))))"

fun parse_snippets :: "nat \<Rightarrow> jsval list \<Rightarrow> (string, capsule_snippet list) result" where
  "parse_snippets i [] = Inr []"
| "parse_snippets i (v # vs) = bind_result (parseSnippet v i) (\<lambda>s. bind_result (parse_snippets (Suc i) vs) (\<lambda>ss. Inr (s # ss)))"

definition parseTaskCapsuleEssential :: "jsval \<Rightarrow> (string, task_capsule) result" where
  "parseTaskCapsuleEssential v =
     bind_result (capsule_asRecord v ''capsule JSON root'') (\<lambda>r.
     bind_result (readRequiredString r ''schemaVersion'' ''capsule'' True) (\<lambda>schemaVersion.
     if schemaVersion \<noteq> TASK_CAPSULE_SCHEMA_VERSION
     then Inl (''capsule.schemaVersion must be \"'' @ TASK_CAPSULE_SCHEMA_VERSION @ ''\" (received \"'' @ schemaVersion @ ''\").'')
     else bind_result (readArray r ''snippets'') (\<lambda>raw.
       bind_result (parse_snippets 0 raw) (\<lambda>snippets.
       bind_result (readRequiredString r ''goal'' ''capsule'' True) (\<lambda>goal.
       bind_result (readRequiredString r ''owner'' ''capsule'' True) (\<lambda>owner.
       bind_result (readStringArray r ''paths'') (\<lambda>paths.
       bind_result (readStringArray r ''acceptanceCriteria'') (\<lambda>criteria.
       bind_result (readStringArray r ''risks'') (\<lambda>risks.
       Inr \<lparr>tc_schemaVersion = schemaVersion, tc_goal = goal, tc_owner = owner, tc_paths = paths, tc_acceptanceCriteria = criteria,
         tc_risks = risks, tc_snippets = snippets\<rparr>)))))))))"

definition readAndValidateCapsule :: "tool_host \<Rightarrow> string \<Rightarrow> (string, task_capsule) result" where
  "readAndValidateCapsule host capsulePath =
     (let absolutePath = th_resolve host capsulePath
      in bind_result (th_readFile host absolutePath) (\<lambda>raw.
         case th_parse host raw of
           Inl e \<Rightarrow> Inl (''Invalid capsule JSON at \"'' @ absolutePath @ ''\": '' @ e)
         | Inr v \<Rightarrow> parseTaskCapsuleEssential v))"

text \<open>The builder returns an object whose \<open>text\<close> is the only property the tool knows of.\<close>

definition invokeCoreBuilder :: "task_capsule \<Rightarrow> string list \<Rightarrow> (string, string) result" where
  "invokeCoreBuilder capsule ownedPaths =
     bind_result (buildAgentBrief capsule ownedPaths) (\<lambda>b.
     if trim (ab_text b) \<noteq> [] then Inr (ab_text b)
     else Inl ''Core builder returned unsupported output; expected non-empty string brief.'')"

definition normalizeBriefOutput :: "string \<Rightarrow> string" where
  "normalizeBriefOutput rawBrief = rstrip (unix_lines rawBrief) @ [newline]"

definition brief_tool :: "tool_host \<Rightarrow> string list \<Rightarrow> (string, tool_outcome) result" where
  "brief_tool host argv =
     bind_result (brief_parseCliArgs argv) (\<lambda>(given, help).
     if help then Inr Usage_text
     else bind_result (requireValue given ''--capsule'') (\<lambda>capsulePath.
       bind_result (requireValue given ''--task'') (\<lambda>task.
       bind_result (requireValue given ''--owner'') (\<lambda>owner.
       bind_result (requireValue given ''--out'') (\<lambda>out.
       bind_result (requireRepeatedValues (all_values given ''--path'') ''--path'') (\<lambda>ownedPaths.
       bind_result (readAndValidateCapsule host capsulePath) (\<lambda>capsule.
       bind_result (invokeCoreBuilder (capsule\<lparr>tc_goal := task, tc_owner := owner,
           tc_acceptanceCriteria := normalizeUniqueList (tc_acceptanceCriteria capsule @ all_values given ''--accept''),
           tc_risks := normalizeUniqueList (tc_risks capsule @ all_values given ''--risk'')\<rparr>) ownedPaths) (\<lambda>brief.
       Inr (Written (th_resolve host out) (normalizeBriefOutput brief))))))))))"

section \<open>The dispatch tool\<close>

definition dispatch_parseCliArgs :: "string list \<Rightarrow> (string, (string \<times> string) list \<times> bool) result" where
  "dispatch_parseCliArgs argv =
     parse_options [''--brief'', ''--owner'', ''--path'', ''--agent-type'', ''--task'', ''--instruction'', ''--out''] argv [] False"

definition normalizeOptionalText :: "string option \<Rightarrow> string option" where
  "normalizeOptionalText raw = (case raw of None \<Rightarrow> None | Some r \<Rightarrow> if trim r = [] then None else Some (trim r))"

definition parseAgentType :: "string option \<Rightarrow> (string, string) result" where
  "parseAgentType raw =
     (let normalized = or_default (normalizeOptionalText raw) ''worker''
      in if normalized \<in> set [''worker'', ''explorer'', ''awaiter'', ''default''] then Inr normalized
         else Inl (''--agent-type must be one of: worker, explorer, awaiter, default (received \"'' @ normalized @ ''\").''))"

definition readBrief :: "tool_host \<Rightarrow> string \<Rightarrow> (string, string) result" where
  "readBrief host absolutePath =
     (case bind_result (th_readFile host absolutePath) (\<lambda>raw.
        if trim (unix_lines raw) = [] then Inl ''brief file is empty.'' else Inr (trim (unix_lines raw))) of
        Inl e \<Rightarrow> Inl (''Unable to read brief file \"'' @ absolutePath @ ''\": '' @ e)
      | Inr t \<Rightarrow> Inr t)"

text \<open>The template the dispatch tool writes, with the file it goes to.\<close>

definition dispatch_template :: "tool_host \<Rightarrow> (string \<times> string) list \<Rightarrow> (string, string \<times> spawn_template) result" where
  "dispatch_template host given =
     bind_result (requireValue given ''--brief'') (\<lambda>briefPath.
     bind_result (requireValue given ''--owner'') (\<lambda>owner.
     bind_result (requireValue given ''--out'') (\<lambda>out.
     bind_result (requireRepeatedValues (all_values given ''--path'') ''--path'') (\<lambda>ownedPaths.
     bind_result (parseAgentType (one_value given ''--agent-type'')) (\<lambda>agentType.
     bind_result (readBrief host (th_resolve host briefPath)) (\<lambda>briefBody.
     bind_result (buildSpawnAgentTemplate \<lparr>di_agentType = agentType, di_task = normalizeOptionalText (one_value given ''--task''),
         di_owner = owner, di_ownedPaths = ownedPaths, di_briefBody = briefBody,
         di_instructions = Some (normalizeUniqueList (all_values given ''--instruction''))\<rparr>) (\<lambda>payload.
     Inr (th_resolve host out, payload))))))))"

definition texts_json :: "string list \<Rightarrow> jsval" where
  "texts_json ts = JArr (map JStr ts)"

definition template_json :: "spawn_template \<Rightarrow> jsval" where
  "template_json t =
     (let m = sa_metadata t
      in JObj [(''agent_type'', JStr (sa_agent_type t)), (''message'', JStr (sa_message t)),
        (''metadata'', JObj [(''task'', JStr (tm_task m)), (''owner'', JStr (tm_owner m)), (''owned_files'', texts_json (tm_owned_files m)),
          (''additional_instructions'', texts_json (tm_additional_instructions m)), (''safety_notice'', JStr (tm_safety_notice m)),
          (''brief_body'', JStr (tm_brief_body m))])])"

definition dispatch_tool :: "tool_host \<Rightarrow> string list \<Rightarrow> (string, tool_outcome) result" where
  "dispatch_tool host argv =
     bind_result (dispatch_parseCliArgs argv) (\<lambda>(given, help).
     if help then Inr Usage_text
     else bind_result (dispatch_template host given) (\<lambda>(path, payload).
       Inr (Written path (th_stringify host (template_json payload) @ [newline]))))"

section \<open>Lines of a file\<close>

text \<open>A selector with lines inside the file reads exactly these lines.\<close>

lemma selected_lines:
  assumes "1 \<le> a" "a \<le> b" "b \<le> int (length (split_on newline (unix_lines content)))"
  shows "split_on newline (selectSnippetContent content (Some a) (Some b)) = drop (nat (a - 1)) (take (nat b) (split_on newline (unix_lines content)))"
proof -
  let ?ls = "drop (nat (a - 1)) (take (nat b) (split_on newline (unix_lines content)))"
  have "?ls \<noteq> []" using assms by simp
  moreover have "\<forall>l\<in>set ?ls. newline \<notin> set l" using split_on_parts by (meson in_set_dropD in_set_takeD)
  ultimately have "split_on newline (join [newline] ?ls) = ?ls" by (rule split_on_join)
  then show ?thesis using assms by (simp add: selectSnippetContent_def snippet_clampLine_def or_default_def Let_def)
qed

section \<open>Capsules on disk\<close>

lemma capsule_snippet_wf:
  assumes "buildTaskCapsule input ov = Inr c" "s \<in> set (tc_snippets c)"
  shows "cn_path s \<noteq> []" "trim (cn_path s) = cn_path s"
    "cn_startLine s = None \<and> cn_endLine s = None \<or> (\<exists>a. cn_startLine s = Some a \<and> 1 \<le> a \<and> (\<forall>b. cn_endLine s = Some b \<longrightarrow> a \<le> b))"
proof -
  obtain cs paths where cs: "resolveConstraints ov = Inr cs"
    and col: "collect_snippets cs (or_default (ci_snippets input) []) (normalizeStringList (ci_paths input)) [] = Inr (paths, tc_snippets c)"
    using assms(1) by (auto simp: buildTaskCapsule_def bind_result_Inr)
  note wf = resolveConstraints_wf [OF cs]
  obtain xs where "list_all2 (snippet_from cs) xs (tc_snippets c)" using collect_snippets_spec [OF col] wf by auto
  then obtain x where "snippet_from cs x s" using assms(2) by (metis in_set_conv_nth list_all2_conv_all_nth)
  then obtain sel where "selector_in (cc_selectorLineMin cs) (cc_selectorLineMax cs) sel" "cn_path s = sel_path sel"
    "cn_startLine s = sel_startLine sel" "cn_endLine s = sel_endLine sel"
    by (auto simp: snippet_from_def snippet_of_def split: sum.splits)
  then show "cn_path s \<noteq> []" "trim (cn_path s) = cn_path s"
    "cn_startLine s = None \<and> cn_endLine s = None \<or> (\<exists>a. cn_startLine s = Some a \<and> 1 \<le> a \<and> (\<forall>b. cn_endLine s = Some b \<longrightarrow> a \<le> b))"
    using wf by (auto simp: selector_in_def split: option.splits)
qed

lemma parseSnippet_json:
  assumes "cn_path s \<noteq> []" "trim (cn_path s) = cn_path s"
    "cn_startLine s = None \<and> cn_endLine s = None \<or> (\<exists>a. cn_startLine s = Some a \<and> 1 \<le> a \<and> (\<forall>b. cn_endLine s = Some b \<longrightarrow> a \<le> b))"
  shows "parseSnippet (snippet_json s) i = Inr s"
  using assms
  by (cases "cn_startLine s"; cases "cn_endLine s")
    (auto simp: parseSnippet_def snippet_json_def capsule_asRecord_def readOptionalPositiveInteger_def readRequiredString_def prop_of_def
      line_prop_def Let_def simp del: num_as_int.simps)

lemma parse_snippets_json:
  "(\<And>s i. s \<in> set ss \<Longrightarrow> parseSnippet (snippet_json s) i = Inr s) \<Longrightarrow> parse_snippets i (map snippet_json ss) = Inr ss"
  by (induction ss arbitrary: i) simp_all

text \<open>Texts that are trimmed, not blank and distinct stay as they are.\<close>

definition tidy :: "string list \<Rightarrow> bool" where
  "tidy ts \<longleftrightarrow> distinct ts \<and> list_all (\<lambda>t. t \<noteq> [] \<and> trim t = t) ts"

lemma read_strings_tidy: "tidy ts \<Longrightarrow> read_strings fld i (map JStr ts) = Inr ts"
  by (induction ts arbitrary: i) (auto simp: tidy_def)

lemma unique_tidy: "tidy ts \<Longrightarrow> normalizeUniqueList ts = ts"
proof -
  have "tidy (known @ ts) \<Longrightarrow> fold (\<lambda>v known. add_text known v) ts known = known @ ts" for known
    by (induction ts arbitrary: known) (auto simp: tidy_def add_text_def sadd_def)
  from this [of "[]"] show "tidy ts \<Longrightarrow> normalizeUniqueList ts = ts" by (simp add: normalizeUniqueList_def)
qed

lemma tidy_fold: "tidy known \<Longrightarrow> tidy (fold (\<lambda>v known. add_text known v) vs known)"
  by (auto simp: tidy_def fold_add_text list_all_iff)

lemma capsule_texts_tidy:
  assumes "buildTaskCapsule input ov = Inr c"
  shows "tidy (tc_paths c)" "tidy (tc_acceptanceCriteria c)" "tidy (tc_risks c)"
proof -
  obtain cs paths where cs: "resolveConstraints ov = Inr cs"
    and col: "collect_snippets cs (or_default (ci_snippets input) []) (normalizeStringList (ci_paths input)) [] = Inr (paths, tc_snippets c)"
    and c: "tc_paths c = paths" "tc_acceptanceCriteria c = normalizeStringList (ci_acceptanceCriteria input)"
      "tc_risks c = normalizeStringList (ci_risks input)"
    using assms by (auto simp: buildTaskCapsule_def bind_result_Inr)
  have "tidy []" by (simp add: tidy_def)
  then have n: "tidy (normalizeStringList ts)" for ts unfolding normalizeStringList_def by (rule tidy_fold)
  then show "tidy (tc_acceptanceCriteria c)" "tidy (tc_risks c)" by (simp_all add: c)
  have "set paths = set (normalizeStringList (ci_paths input)) \<union> cn_path ` set (tc_snippets c)" "distinct paths = distinct (normalizeStringList (ci_paths input))"
    using collect_snippets_spec [OF col] resolveConstraints_wf [OF cs] by auto
  then show "tidy (tc_paths c)" using n [of "ci_paths input"] capsule_snippet_wf(1,2) [OF assms]
    by (auto simp: tidy_def c(1) list_all_iff)
qed

text \<open>
  A capsule survives the file between the tools. Whatever capsule the builder returns, the object that is written for it, read by the
  brief tool with all its checks, is the same capsule: goal, owner, paths, criteria, risks, and every snippet with its lines.
\<close>

theorem capsule_file_roundtrip:
  assumes "buildTaskCapsule input ov = Inr c"
  shows "parseTaskCapsuleEssential (capsule_json c) = Inr c"
proof -
  have req: "tc_schemaVersion c = TASK_CAPSULE_SCHEMA_VERSION" "tc_goal c \<noteq> []" "trim (tc_goal c) = tc_goal c" "tc_owner c \<noteq> []"
    "trim (tc_owner c) = tc_owner c"
    using assms by (auto simp: buildTaskCapsule_def bind_result_Inr capsule_required_def split: if_splits)
  have version: "trim TASK_CAPSULE_SCHEMA_VERSION = TASK_CAPSULE_SCHEMA_VERSION" "TASK_CAPSULE_SCHEMA_VERSION \<noteq> []" by code_simp+
  have snippets: "parse_snippets 0 (map snippet_json (tc_snippets c)) = Inr (tc_snippets c)"
    using capsule_snippet_wf [OF assms] by (intro parse_snippets_json parseSnippet_json)
  have texts: "read_strings fld 0 (map JStr ts) = Inr ts \<and> normalizeUniqueList ts = ts"
    if "ts \<in> {tc_paths c, tc_acceptanceCriteria c, tc_risks c}" for fld ts
    using that capsule_texts_tidy [OF assms] read_strings_tidy unique_tidy by auto
  show ?thesis
    unfolding parseTaskCapsuleEssential_def capsule_json_def
    using req version snippets texts
    by (simp add: capsule_asRecord_def readRequiredString_def prop_of_def readArray_def readStringArray_def)
qed

theorem capsule_file_roundtrip_witness: "parseTaskCapsuleEssential (capsule_json demo_capsule) = Inr demo_capsule"
  using capsule_file_roundtrip [OF demo_capsule_built] by simp

end
