(* ===== verification/Proxy_Adapters.thy ===== *)
theory Proxy_Adapters
  imports Proxy_Agent
begin

text \<open>
  The adapters of the proxy agents to two HTTP libraries, \<^verbatim>\<open>packages/proxy-got/src/proxy-got-agent-resolver.ts\<close> and
  \<^verbatim>\<open>packages/proxy-axios/src/proxy-axios-agent-resolver.ts\<close>. \<open>url_ops\<close> holds the URL class: parsing, parsing against a base, and
  the path with its setter; a URL that is serialized and parsed again is a copy. Resolving is that of the agent factory. The agent slots
  of a configuration hold a proxy agent, an agent of the caller, or \<open>false\<close>. What the two adapters do to the slots is one interface,
  the locale \<open>agent_slots\<close>.
\<close>

section \<open>Common\<close>

record url_ops =
  uo_parse :: full_url_parser
  uo_relative :: "string \<Rightarrow> js_url \<Rightarrow> js_url option"
  uo_pathname :: "js_url \<Rightarrow> string"
  uo_setPathname :: "js_url \<Rightarrow> string \<Rightarrow> js_url"

datatype url_input = Url_text string | Url_object js_url

datatype agent_slot = Slot_proxy agent | Slot_own nat | Slot_false

datatype scheme = Http | Https

datatype adapter_error =
    MissingGotTargetError
  | InvalidGotTargetError string
  | InvalidGotPrefixUrlError string
  | UnsupportedGotProtocolError string
  | AxiosTypeError string
  | ResolverError agent_error

text \<open>The resolver of both adapters is the factory, whose failures pass through.\<close>

type_synonym 'a resolving = "(agent_factory \<times> agent list \<times> (adapter_error, 'a) result) option"

definition resolving :: "full_url_parser \<Rightarrow> js_url \<Rightarrow> agent_factory \<Rightarrow> (agent_resolution \<Rightarrow> 'a) \<Rightarrow> 'a resolving" where
  "resolving url u f k =
     map_option (\<lambda>(f1, gone, r). (f1, gone, case r of Inl e \<Rightarrow> Inl (ResolverError e) | Inr res \<Rightarrow> Inr (k res))) (factory_resolve url u f)"

section \<open>Got\<close>

record got_agents =
  ga_http :: "agent_slot option"
  ga_https :: "agent_slot option"
  ga_http2 :: "jsval option"

record got_options =
  go_url :: "url_input option"
  go_prefixUrl :: "url_input option"
  go_agent :: "got_agents option"

record got_entry =
  ge_targetUrl :: js_url
  ge_protocol :: scheme
  ge_agent :: "agent option"
  ge_viaProxy :: bool
  ge_proxyUrl :: "string option"
  ge_fromCache :: bool

definition toGotAgentProtocol :: "string \<Rightarrow> (adapter_error, scheme) result" where
  "toGotAgentProtocol protocol =
     (let normalized = toLowerCase protocol
      in if normalized \<notin> {''http:'', ''https:''} then Inl (UnsupportedGotProtocolError normalized)
         else Inr (if normalized = ''http:'' then Http else Https))"

definition assertSupportedTargetProtocol :: "js_url \<Rightarrow> (adapter_error, js_url) result" where
  "assertSupportedTargetProtocol u = bind_result (toGotAgentProtocol (u_protocol u)) (\<lambda>_. Inr u)"

definition ensureTrailingSlash :: "url_ops \<Rightarrow> js_url \<Rightarrow> js_url" where
  "ensureTrailingSlash ops u =
     (if endsWith (uo_pathname ops u) ''/'' then u else uo_setPathname ops u (uo_pathname ops u @ ''/''))"

definition parsePrefixUrl :: "url_ops \<Rightarrow> url_input \<Rightarrow> (adapter_error, js_url) result" where
  "parsePrefixUrl ops prefixUrl =
     (let raw = (case prefixUrl of Url_object u \<Rightarrow> u_href u | Url_text t \<Rightarrow> trim t);
          shown = (case prefixUrl of Url_object u \<Rightarrow> u_href u | Url_text t \<Rightarrow> t)
      in if raw = [] then Inl (InvalidGotPrefixUrlError shown)
         else case uo_parse ops raw of
           None \<Rightarrow> Inl (InvalidGotPrefixUrlError raw)
         | Some u \<Rightarrow> (case assertSupportedTargetProtocol u of
             Inl _ \<Rightarrow> Inl (InvalidGotPrefixUrlError raw) | Inr v \<Rightarrow> Inr (ensureTrailingSlash ops v)))"

definition supported :: "js_url option \<Rightarrow> js_url option" where
  "supported u = (case u of None \<Rightarrow> None
     | Some v \<Rightarrow> (case assertSupportedTargetProtocol v of Inl _ \<Rightarrow> None | Inr w \<Rightarrow> Some w))"

definition resolveGotRequestTarget :: "url_ops \<Rightarrow> url_input option \<Rightarrow> got_options \<Rightarrow> (adapter_error, js_url) result" where
  "resolveGotRequestTarget ops input opts =
     (case (case go_url opts of Some t \<Rightarrow> Some t | None \<Rightarrow> input) of
        None \<Rightarrow> Inl MissingGotTargetError
      | Some rawTarget \<Rightarrow>
          bind_result (case go_prefixUrl opts of None \<Rightarrow> Inr None | Some p \<Rightarrow> bind_result (parsePrefixUrl ops p) (\<lambda>b. Inr (Some b))) (\<lambda>prefixBase.
          case rawTarget of
            Url_object u \<Rightarrow> assertSupportedTargetProtocol u
          | Url_text t \<Rightarrow>
              (let inputText = trim t
               in if inputText = [] then Inl MissingGotTargetError
                  else case supported (uo_parse ops inputText) of
                    Some u \<Rightarrow> Inr u
                  | None \<Rightarrow>
                      (case prefixBase of
                         None \<Rightarrow> Inl (InvalidGotTargetError inputText)
                       | Some base \<Rightarrow>
                           (case supported (uo_relative ops inputText base) of
                              Some u \<Rightarrow> Inr u | None \<Rightarrow> Inl (InvalidGotTargetError inputText))))))"

definition parseAbsoluteTarget :: "url_ops \<Rightarrow> url_input \<Rightarrow> (adapter_error, js_url) result" where
  "parseAbsoluteTarget ops target =
     (case target of
        Url_object u \<Rightarrow> assertSupportedTargetProtocol u
      | Url_text t \<Rightarrow>
          (if trim t = [] then Inl MissingGotTargetError
           else case supported (uo_parse ops (trim t)) of Some u \<Rightarrow> Inr u | None \<Rightarrow> Inl (InvalidGotTargetError (trim t))))"

definition got_entry_of :: "js_url \<Rightarrow> scheme \<Rightarrow> agent_resolution \<Rightarrow> got_entry" where
  "got_entry_of u protocol route =
     \<lparr>ge_targetUrl = u, ge_protocol = protocol, ge_agent = (if ar_viaProxy route then ar_agent route else None),
      ge_viaProxy = ar_viaProxy route, ge_proxyUrl = ar_proxyUrl route, ge_fromCache = ar_fromCache route\<rparr>"

definition resolveProxyGotAgentEntry :: "url_ops \<Rightarrow> url_input \<Rightarrow> agent_factory \<Rightarrow> got_entry resolving" where
  "resolveProxyGotAgentEntry ops target f =
     (case bind_result (parseAbsoluteTarget ops target) (\<lambda>u. bind_result (toGotAgentProtocol (u_protocol u)) (\<lambda>p. Inr (u, p))) of
        Inl e \<Rightarrow> Some (f, [], Inl e)
      | Inr (u, p) \<Rightarrow> resolving (uo_parse ops) u f (got_entry_of u p))"

definition mergeAgentOptions :: "got_agents option \<Rightarrow> scheme \<Rightarrow> agent option \<Rightarrow> got_agents option" where
  "mergeAgentOptions existing protocol resolvedAgent =
     (case resolvedAgent of
        None \<Rightarrow> existing
      | Some a \<Rightarrow>
          (let base = (case existing of Some g \<Rightarrow> g | None \<Rightarrow> \<lparr>ga_http = None, ga_https = None, ga_http2 = None\<rparr>)
           in Some (if protocol = Http then base\<lparr>ga_http := Some (Slot_proxy a)\<rparr> else base\<lparr>ga_https := Some (Slot_proxy a)\<rparr>)))"

definition got_apply_entry :: "scheme \<Rightarrow> agent option \<Rightarrow> got_options \<Rightarrow> got_options" where
  "got_apply_entry protocol a opts =
     (case mergeAgentOptions (go_agent opts) protocol a of None \<Rightarrow> opts | Some g \<Rightarrow> opts\<lparr>go_agent := Some g\<rparr>)"

definition applyProxyGotAgent ::
  "url_ops \<Rightarrow> url_input option \<Rightarrow> got_options \<Rightarrow> agent_factory \<Rightarrow> (got_options \<times> got_entry) resolving" where
  "applyProxyGotAgent ops input opts f =
     (case resolveGotRequestTarget ops input opts of
        Inl e \<Rightarrow> Some (f, [], Inl e)
      | Inr u \<Rightarrow>
          map_option (\<lambda>(f1, gone, r). (f1, gone,
              bind_result r (\<lambda>e. Inr (got_apply_entry (ge_protocol e) (ge_agent e) opts, e))))
            (resolveProxyGotAgentEntry ops (Url_object u) f))"

section \<open>Axios\<close>

record axios_config =
  ax_url :: "url_input option"
  ax_baseURL :: "url_input option"
  ax_httpAgent :: "agent_slot option"
  ax_httpsAgent :: "agent_slot option"
  ax_proxy :: "jsval option"

record axios_routing =
  xr_viaProxy :: bool
  xr_proxyUrl :: "string option"
  xr_fromCache :: bool

definition absolute_prefix :: "string \<Rightarrow> bool" where
  "absolute_prefix s \<longleftrightarrow>
     (let w = takeWhile scheme_char s in w \<noteq> [] \<and> is_alnum (hd w) \<and> \<not> is_digit (hd w) \<and> startsWith (drop (length w) s) '':'')"

definition ensureNonEmptyUrl :: "url_input option \<Rightarrow> (adapter_error, string) result" where
  "ensureNonEmptyUrl u =
     (case u of
        Some (Url_text t) \<Rightarrow> (if trim t = [] then Inl (AxiosTypeError ''axios_request_url_required'') else Inr (trim t))
      | _ \<Rightarrow> Inl (AxiosTypeError ''axios_request_url_required''))"

definition axios_parseUrl :: "url_ops \<Rightarrow> string \<Rightarrow> string \<Rightarrow> (adapter_error, js_url) result" where
  "axios_parseUrl ops input errorCode = (case uo_parse ops input of Some u \<Rightarrow> Inr u | None \<Rightarrow> Inl (AxiosTypeError errorCode))"

definition parseBaseUrl :: "url_ops \<Rightarrow> url_input option \<Rightarrow> (adapter_error, js_url option) result" where
  "parseBaseUrl ops baseURL =
     (case baseURL of
        None \<Rightarrow> Inr None
      | Some (Url_object u) \<Rightarrow> Inr (Some u)
      | Some (Url_text t) \<Rightarrow>
          (if trim t = [] then Inr None else bind_result (axios_parseUrl ops (trim t) ''invalid_baseURL'') (\<lambda>u. Inr (Some u))))"

definition resolveAxiosRequestTarget :: "url_ops \<Rightarrow> url_input option \<Rightarrow> url_input option \<Rightarrow> (adapter_error, js_url) result" where
  "resolveAxiosRequestTarget ops u baseURL =
     (case u of
        Some (Url_object v) \<Rightarrow> Inr v
      | _ \<Rightarrow>
          bind_result (ensureNonEmptyUrl u) (\<lambda>requestUrl.
            if absolute_prefix requestUrl \<or> startsWith requestUrl ''//'' then axios_parseUrl ops requestUrl ''invalid_request_url''
            else bind_result (parseBaseUrl ops baseURL) (\<lambda>base.
              case base of
                None \<Rightarrow> Inl (AxiosTypeError ''relative_url_requires_baseURL'')
              | Some b \<Rightarrow> (case uo_relative ops requestUrl b of Some v \<Rightarrow> Inr v | None \<Rightarrow> Inl (AxiosTypeError ''Invalid URL'')))))"

definition applyResolvedAgent :: "string \<Rightarrow> agent \<Rightarrow> axios_config \<Rightarrow> axios_config" where
  "applyResolvedAgent targetProtocol a config =
     (if targetProtocol = ''http:'' then config\<lparr>ax_httpAgent := Some (Slot_proxy a)\<rparr>
      else if targetProtocol = ''https:'' then config\<lparr>ax_httpsAgent := Some (Slot_proxy a)\<rparr>
      else config\<lparr>ax_httpAgent := Some (Slot_proxy a), ax_httpsAgent := Some (Slot_proxy a)\<rparr>)"

definition axios_apply_route :: "bool \<Rightarrow> js_url \<Rightarrow> agent_resolution \<Rightarrow> axios_config \<Rightarrow> axios_config" where
  "axios_apply_route disable u route config =
     (let next_config = (if disable then config\<lparr>ax_proxy := Some (JBool False)\<rparr> else config)
      in case (if ar_viaProxy route then ar_agent route else None) of
           None \<Rightarrow> next_config
         | Some a \<Rightarrow> applyResolvedAgent (u_protocol u) a next_config)"

text \<open>With \<open>mutate\<close> the configuration of the caller is the returned one; the flag decides what the caller's object holds afterwards.\<close>

definition applyProxyAgentToAxiosConfig ::
  "url_ops \<Rightarrow> bool option \<Rightarrow> bool option \<Rightarrow> axios_config \<Rightarrow> agent_factory
   \<Rightarrow> (axios_config \<times> axios_config \<times> js_url \<times> axios_routing) resolving" where
  "applyProxyAgentToAxiosConfig ops mutate disableAxiosProxyConfig config f =
     (let mutating = (case mutate of Some m \<Rightarrow> m | None \<Rightarrow> True); disable = (case disableAxiosProxyConfig of Some d \<Rightarrow> d | None \<Rightarrow> True)
      in case resolveAxiosRequestTarget ops (ax_url config) (ax_baseURL config) of
           Inl e \<Rightarrow> Some (f, [], Inl e)
         | Inr u \<Rightarrow>
             resolving (uo_parse ops) u f (\<lambda>route.
               let applied = axios_apply_route disable u route config
               in (applied, if mutating then applied else config, u,
                   \<lparr>xr_viaProxy = ar_viaProxy route, xr_proxyUrl = ar_proxyUrl route, xr_fromCache = ar_fromCache route\<rparr>)))"

section \<open>The slots of a configuration\<close>

text \<open>The last agent that was placed for a scheme; a direct route places none.\<close>

fun last_agent :: "scheme \<Rightarrow> (scheme \<times> agent option) list \<Rightarrow> agent option" where
  "last_agent q [] = None"
| "last_agent q ((p, x) # rs) = (case last_agent q rs of Some a \<Rightarrow> Some a | None \<Rightarrow> (if p = q then x else None))"

locale agent_slots =
  fixes slot :: "'c \<Rightarrow> scheme \<Rightarrow> agent_slot option"
    and place :: "scheme \<Rightarrow> agent option \<Rightarrow> 'c \<Rightarrow> 'c"
  assumes placed: "slot (place p (Some a) c) p = Some (Slot_proxy a)"
    and elsewhere: "q \<noteq> p \<Longrightarrow> slot (place p x c) q = slot c q"
    and direct: "slot (place p None c) q = slot c q"
begin

lemma slot_place: "slot (place p x c) q = (case x of Some a \<Rightarrow> if p = q then Some (Slot_proxy a) else slot c q | None \<Rightarrow> slot c q)"
  by (cases "p = q") (auto simp: placed elsewhere direct split: option.split)

text \<open>A configuration that is used for many requests: its slots hold the last agents, not the last routes.\<close>

lemma slot_after: "slot (fold (\<lambda>(p, x). place p x) rs c) q = (case last_agent q rs of Some a \<Rightarrow> Some (Slot_proxy a) | None \<Rightarrow> slot c q)"
proof (induction rs arbitrary: c)
  case (Cons r rs)
  show ?case by (cases r) (simp add: Cons.IH slot_place split: option.split)
qed simp

lemma fresh_slot:
  assumes "slot c q = None"
  shows "slot (place p x c) q = (if p = q then map_option Slot_proxy x else None)"
  using assms by (simp add: slot_place split: option.split)

lemma stale_slot: "slot (fold (\<lambda>(p, x). place p x) [(p, Some a), (p, None)] c) p = Some (Slot_proxy a)"
  by (simp only: slot_after) simp

end

definition got_slot :: "got_options \<Rightarrow> scheme \<Rightarrow> agent_slot option" where
  "got_slot opts p = (case go_agent opts of None \<Rightarrow> None | Some g \<Rightarrow> (case p of Http \<Rightarrow> ga_http g | Https \<Rightarrow> ga_https g))"

definition axios_slot :: "axios_config \<Rightarrow> scheme \<Rightarrow> agent_slot option" where
  "axios_slot c p = (case p of Http \<Rightarrow> ax_httpAgent c | Https \<Rightarrow> ax_httpsAgent c)"

definition scheme_text :: "scheme \<Rightarrow> string" where
  "scheme_text p = (case p of Http \<Rightarrow> ''http:'' | Https \<Rightarrow> ''https:'')"

definition axios_place :: "bool \<Rightarrow> scheme \<Rightarrow> agent option \<Rightarrow> axios_config \<Rightarrow> axios_config" where
  "axios_place disable p x config =
     (let next_config = (if disable then config\<lparr>ax_proxy := Some (JBool False)\<rparr> else config)
      in case x of None \<Rightarrow> next_config | Some a \<Rightarrow> applyResolvedAgent (scheme_text p) a next_config)"

lemma got_placed:
  "got_slot (got_apply_entry p x c) q = (case x of Some a \<Rightarrow> if p = q then Some (Slot_proxy a) else got_slot c q | None \<Rightarrow> got_slot c q)"
  by (cases p; cases q; cases x; cases "go_agent c") (simp_all add: got_slot_def got_apply_entry_def mergeAgentOptions_def Let_def)

lemma axios_placed:
  "axios_slot (axios_place d p x c) q = (case x of Some a \<Rightarrow> if p = q then Some (Slot_proxy a) else axios_slot c q | None \<Rightarrow> axios_slot c q)"
  by (cases p; cases q; cases x) (simp_all add: axios_slot_def axios_place_def applyResolvedAgent_def scheme_text_def Let_def)

interpretation got: agent_slots got_slot got_apply_entry
  by unfold_locales (auto simp: got_placed split: option.split)

interpretation axios: agent_slots axios_slot "axios_place disable" for disable
  by unfold_locales (auto simp: axios_placed split: option.split)

lemma axios_route_place:
  "u_protocol u = scheme_text p \<Longrightarrow>
   axios_apply_route disable u route = axios_place disable p (if ar_viaProxy route then ar_agent route else None)"
  by (auto simp: axios_apply_route_def axios_place_def Let_def fun_eq_iff split: option.split)

section \<open>A request goes where its route says\<close>

text \<open>What a resolution of a well-formed factory gives for a URL: the agent of the proxy the settings name, or none.\<close>

definition route_agent :: "full_url_parser \<Rightarrow> agent_factory \<Rightarrow> js_url \<Rightarrow> agent option \<Rightarrow> bool" where
  "route_agent url f u x = (case proxied u (fa_settings f) of
     None \<Rightarrow> x = None
   | Some p \<Rightarrow> (\<exists>a. x = Some a \<and> createProxyAgent url (ag_serial a) p (u_protocol u) (fa_agentOptions f) = Inr a))"

lemma resolving_route:
  assumes "factory_wf url f" "CHR ''|'' \<notin> set (u_protocol u)" "resolving url u f k = Some (f', gone, Inr y)"
  shows "\<exists>route. y = k route \<and> route_agent url f u (if ar_viaProxy route then ar_agent route else None) \<and> factory_wf url f'"
proof -
  from factory_resolve_total [OF assms(1,2)] obtain f1 ev r where
    r: "factory_resolve url u f = Some (f1, ev, r)" "factory_wf url f1"
    "case r of Inl e \<Rightarrow> True | Inr res \<Rightarrow> route_agent url f u (if ar_viaProxy res then ar_agent res else None)"
    by (fastforce simp: route_agent_def split: sum.splits option.splits)
  from assms(3) r(1) obtain route where "r = Inr route" "y = k route" "f' = f1" by (auto simp: resolving_def split: sum.splits)
  then show ?thesis using r by auto
qed

lemma resolving_total:
  assumes "factory_wf url f" "CHR ''|'' \<notin> set (u_protocol u)"
  shows "resolving url u f k \<noteq> None"
  using factory_resolve_total [OF assms] by (auto simp: resolving_def)

lemma supported_Some: "supported v = Some u \<longleftrightarrow> v = Some u \<and> toLowerCase (u_protocol u) \<in> {''http:'', ''https:''}"
  by (auto simp: supported_def assertSupportedTargetProtocol_def toGotAgentProtocol_def bind_result_def Let_def
      split: option.splits if_splits sum.splits)

lemma assert_Inr: "assertSupportedTargetProtocol v = Inr u \<longleftrightarrow> v = u \<and> toLowerCase (u_protocol u) \<in> {''http:'', ''https:''}"
  by (auto simp: assertSupportedTargetProtocol_def toGotAgentProtocol_def bind_result_def Let_def split: if_splits)

lemma got_target_supported:
  "resolveGotRequestTarget ops input opts = Inr u \<Longrightarrow> toLowerCase (u_protocol u) \<in> {''http:'', ''https:''}"
  by (auto simp: resolveGotRequestTarget_def bind_result_Inr supported_Some assert_Inr Let_def
      split: option.splits url_input.splits if_splits)

lemma got_scheme:
  assumes "toLowerCase (u_protocol u) \<in> {''http:'', ''https:''}"
  shows "\<exists>p. toGotAgentProtocol (u_protocol u) = Inr p \<and> toLowerCase (u_protocol u) = scheme_text p"
    and "assertSupportedTargetProtocol u = Inr u" and "CHR ''|'' \<notin> set (u_protocol u)"
proof -
  show "\<exists>p. toGotAgentProtocol (u_protocol u) = Inr p \<and> toLowerCase (u_protocol u) = scheme_text p"
    using assms by (auto simp: toGotAgentProtocol_def scheme_text_def Let_def)
  show "assertSupportedTargetProtocol u = Inr u" using assms by (simp add: assert_Inr)
  have bar: "lower_char (CHR ''|'') = CHR ''|''" by code_simp
  show "CHR ''|'' \<notin> set (u_protocol u)"
  proof
    assume "CHR ''|'' \<in> set (u_protocol u)"
    then have "lower_char (CHR ''|'') \<in> set (toLowerCase (u_protocol u))" by (simp add: toLowerCase_def)
    then show False using assms unfolding bar by auto
  qed
qed

text \<open>
  For a configuration without agents of its own, the slot of the target's scheme holds after the call the agent of the proxy that
  the settings name, or nothing for a direct route; the other slot stays empty. Both adapters, whatever was resolved before.
\<close>

theorem got_request_follows_route:
  assumes "factory_wf (uo_parse ops) f" "\<And>q. got_slot opts q = None"
    and "applyProxyGotAgent ops input opts f = Some (f', gone, Inr (opts', e))"
  shows "\<exists>u p x. resolveGotRequestTarget ops input opts = Inr u \<and> toLowerCase (u_protocol u) = scheme_text p
    \<and> route_agent (uo_parse ops) f u x \<and> got_slot opts' p = map_option Slot_proxy x \<and> (\<forall>q. q \<noteq> p \<longrightarrow> got_slot opts' q = None)
    \<and> factory_wf (uo_parse ops) f'"
proof -
  from assms(3) obtain u where u: "resolveGotRequestTarget ops input opts = Inr u" by (auto simp: applyProxyGotAgent_def split: sum.splits)
  note sup = got_scheme [OF got_target_supported [OF u]]
  from sup(1) obtain p where p: "toGotAgentProtocol (u_protocol u) = Inr p" "toLowerCase (u_protocol u) = scheme_text p" by blast
  have entry: "resolveProxyGotAgentEntry ops (Url_object u) f = resolving (uo_parse ops) u f (got_entry_of u p)"
    using p sup(2) by (simp add: resolveProxyGotAgentEntry_def parseAbsoluteTarget_def bind_result_def)
  from assms(3) obtain e1 where r: "resolving (uo_parse ops) u f (got_entry_of u p) = Some (f', gone, Inr e1)"
    "opts' = got_apply_entry (ge_protocol e1) (ge_agent e1) opts"
    by (auto simp: applyProxyGotAgent_def u entry bind_result_Inr)
  from resolving_route [OF assms(1) sup(3) r(1)] obtain route where route: "e1 = got_entry_of u p route"
    "route_agent (uo_parse ops) f u (if ar_viaProxy route then ar_agent route else None)" "factory_wf (uo_parse ops) f'" by blast
  have "ge_protocol e1 = p" "ge_agent e1 = (if ar_viaProxy route then ar_agent route else None)" using route(1) by (simp_all add: got_entry_of_def)
  then show ?thesis using u p(2) route(2,3) r(2) by (intro exI [of _ u] exI [of _ p] exI [of _ "ge_agent e1"]) (simp add: got.fresh_slot [OF assms(2)])
qed

theorem axios_request_follows_route:
  assumes "factory_wf (uo_parse ops) f" "\<And>q. axios_slot config q = None"
    and "resolveAxiosRequestTarget ops (ax_url config) (ax_baseURL config) = Inr u" "u_protocol u = scheme_text p"
    and "applyProxyAgentToAxiosConfig ops mutate disable config f = Some (f', gone, Inr (config', kept, v, routing))"
  shows "v = u \<and> kept = (if mutate = Some False then config else config') \<and> (disable \<noteq> Some False \<longrightarrow> ax_proxy config' = Some (JBool False))
    \<and> factory_wf (uo_parse ops) f'
    \<and> (\<exists>x. route_agent (uo_parse ops) f u x \<and> axios_slot config' p = map_option Slot_proxy x \<and> (\<forall>q. q \<noteq> p \<longrightarrow> axios_slot config' q = None))"
proof -
  let ?d = "case disable of Some d \<Rightarrow> d | None \<Rightarrow> True"
  have bar: "CHR ''|'' \<notin> set (u_protocol u)" using assms(4) by (cases p) (simp_all add: scheme_text_def)
  from assms(5) have "resolving (uo_parse ops) u f (\<lambda>route. let applied = axios_apply_route ?d u route config
     in (applied, if (case mutate of Some m \<Rightarrow> m | None \<Rightarrow> True) then applied else config, u,
         \<lparr>xr_viaProxy = ar_viaProxy route, xr_proxyUrl = ar_proxyUrl route, xr_fromCache = ar_fromCache route\<rparr>))
     = Some (f', gone, Inr (config', kept, v, routing))"
    by (simp add: applyProxyAgentToAxiosConfig_def assms(3) Let_def)
  from resolving_route [OF assms(1) bar this] obtain route where
    eq: "(config', kept, v, routing) = (let applied = axios_apply_route ?d u route config
     in (applied, if (case mutate of Some m \<Rightarrow> m | None \<Rightarrow> True) then applied else config, u,
         \<lparr>xr_viaProxy = ar_viaProxy route, xr_proxyUrl = ar_proxyUrl route, xr_fromCache = ar_fromCache route\<rparr>))"
    and agent: "route_agent (uo_parse ops) f u (if ar_viaProxy route then ar_agent route else None)" "factory_wf (uo_parse ops) f'" by blast
  have route: "config' = axios_place ?d p (if ar_viaProxy route then ar_agent route else None) config" "v = u"
    "kept = (if (case mutate of Some m \<Rightarrow> m | None \<Rightarrow> True) then config' else config)"
    using eq by (simp_all add: Let_def axios_route_place [OF assms(4)])
  have "disable \<noteq> Some False \<Longrightarrow> ax_proxy config' = Some (JBool False)"
    by (auto simp: route(1) axios_place_def applyResolvedAgent_def Let_def split: option.splits)
  then show ?thesis
    using route(2,3) agent axios.fresh_slot [OF assms(2), of ?d p "if ar_viaProxy route then ar_agent route else None"]
    by (intro conjI exI [of _ "if ar_viaProxy route then ar_agent route else None"]) (auto simp: route(1) split: option.split)
qed

section \<open>Where the adapters fall short\<close>

text \<open>
  A configuration that is applied again keeps the agent of an earlier proxy when the route has become direct: the library then still
  sends the request to that proxy, although the routing says otherwise.
\<close>

theorem stale_agent_kept:
  assumes "u_protocol u = scheme_text p" "ar_viaProxy r1" "ar_agent r1 = Some a" "\<not> ar_viaProxy r2"
  shows "axios_slot (axios_apply_route d u r2 (axios_apply_route d u r1 config)) p = Some (Slot_proxy a)"
  using axios.stale_slot [of d p a config] assms by (simp add: axios_route_place)

text \<open>A protocol-relative URL is never accepted, with or without a base, when the URL class rejects it without one.\<close>

theorem protocol_relative_refused:
  assumes "startsWith (trim t) ''//''" "uo_parse ops (trim t) = None"
  shows "resolveAxiosRequestTarget ops (Some (Url_text t)) baseURL = Inl (AxiosTypeError ''invalid_request_url'')"
  using assms
  by (cases "trim t") (auto simp: resolveAxiosRequestTarget_def ensureNonEmptyUrl_def axios_parseUrl_def startsWith_def bind_result_def)

end
