(* ===== verification/Proxy_Cli.thy ===== *)
theory Proxy_Cli
  imports Proxy_Agent Bridge_Client
begin

text \<open>
  The diagnostics tool of the proxy library, \<^verbatim>\<open>packages/cli-proxy/src/\<close>: its arguments (\<^verbatim>\<open>arg-parser.ts\<close>), the report on the
  environment (\<^verbatim>\<open>env-inspector.ts\<close>), the explanation of routes (\<^verbatim>\<open>route-explainer.ts\<close>), the agent detail
  (\<^verbatim>\<open>optional-agent.ts\<close>) and the dispatch (\<^verbatim>\<open>cli-runner.ts\<close>). The explainer repeats the matching of \<open>NO_PROXY\<close> with code of
  its own; the lemmas compare it with the code that decides. A computation that does not return is \<open>None\<close>, as in \<open>Proxy_Agent\<close>.
\<close>

section \<open>Arguments\<close>

datatype cli_command = Help | Env bool | Explain bool bool "string list"

record cli_parse_error =
  cpe_code :: string
  cpe_message :: string
  cpe_hint :: string

type_synonym cli_parse = "(cli_parse_error, cli_command) result"

definition cli_fail :: "string \<Rightarrow> string \<Rightarrow> string \<Rightarrow> (cli_parse_error, 'a) result" where
  "cli_fail code message hint = Inl \<lparr>cpe_code = code, cpe_message = message, cpe_hint = hint\<rparr>"

definition help_flag :: "string \<Rightarrow> bool" where
  "help_flag t \<longleftrightarrow> t = ''-h'' \<or> t = ''--help''"

definition json_flag :: "string \<Rightarrow> bool" where
  "json_flag t \<longleftrightarrow> t = ''-j'' \<or> t = ''--json''"

text \<open>The flags before the command: help, JSON and what follows.\<close>

fun parseLeadingGlobalFlags :: "string list \<Rightarrow> bool \<Rightarrow> bool \<Rightarrow> (cli_parse_error, bool \<times> bool \<times> string list) result" where
  "parseLeadingGlobalFlags [] help json = Inr (help, json, [])"
| "parseLeadingGlobalFlags (token # argv) help json =
     (if token = [] then Inr (help, json, token # argv)
      else if help_flag token then parseLeadingGlobalFlags argv True json
      else if json_flag token then parseLeadingGlobalFlags argv help True
      else if startsWith token ''-'' then
        cli_fail ''unknown_option'' (''Unknown option: '' @ token) ''Use --help to see supported options.''
      else Inr (help, json, token # argv))"

definition parseHelpCommand :: "string list \<Rightarrow> cli_parse" where
  "parseHelpCommand rest =
     (case rest of
        [] \<Rightarrow> Inr Help
      | t # _ \<Rightarrow> cli_fail ''unexpected_argument'' (''Unexpected argument for help: '' @ t)
          (''Run '' @ [CHR 0x27] @ ''commandrelay-cli-proxy help'' @ [CHR 0x27] @ ''.''))"

fun parseEnvCommand :: "string list \<Rightarrow> bool \<Rightarrow> cli_parse" where
  "parseEnvCommand [] json = Inr (Env json)"
| "parseEnvCommand (token # rest) json =
     (if json_flag token then parseEnvCommand rest True
      else if help_flag token then Inr Help
      else if startsWith token ''-'' then
        cli_fail ''unknown_option'' (''Unknown option for env: '' @ token) ''Supported: --json, --help''
      else cli_fail ''unexpected_argument'' (''Unexpected argument for env: '' @ token)
        ''The env command does not accept positional arguments.'')"

definition explain_result :: "bool \<Rightarrow> bool \<Rightarrow> string list \<Rightarrow> cli_parse" where
  "explain_result json withAgent urls =
     (if urls = [] then
        cli_fail ''missing_url'' ''The explain command requires at least one URL.''
          ''Example: commandrelay-cli-proxy explain https://example.com''
      else Inr (Explain json withAgent urls))"

fun parseExplainCommand :: "string list \<Rightarrow> bool \<Rightarrow> bool \<Rightarrow> string list \<Rightarrow> cli_parse" where
  "parseExplainCommand [] json withAgent urls = explain_result json withAgent urls"
| "parseExplainCommand (token # rest) json withAgent urls =
     (if token = [] then parseExplainCommand rest json withAgent urls
      else if token = ''--'' then explain_result json withAgent (urls @ rest)
      else if json_flag token then parseExplainCommand rest True withAgent urls
      else if help_flag token then Inr Help
      else if token = ''--with-agent'' then parseExplainCommand rest json True urls
      else if token = ''--no-agent'' then parseExplainCommand rest json False urls
      else if startsWith token ''-'' then
        cli_fail ''unknown_option'' (''Unknown option for explain: '' @ token) ''Supported: --json, --with-agent, --no-agent, --help''
      else parseExplainCommand rest json withAgent (urls @ [token]))"

definition parseCliArgs :: "string list \<Rightarrow> cli_parse" where
  "parseCliArgs argv =
     (if argv = [] then Inr Help
      else bind_result (parseLeadingGlobalFlags argv False False) (\<lambda>(help, json, rest).
        if help then Inr Help
        else case rest of
          [] \<Rightarrow> Inr Help
        | command # args \<Rightarrow>
            (if command = [] then Inr Help
             else if command = ''help'' then parseHelpCommand args
             else if command = ''env'' then parseEnvCommand args json
             else if command = ''explain'' then parseExplainCommand args json True []
             else cli_fail ''unknown_command'' (''Unknown command: '' @ command)
               (''Use '' @ [CHR 0x27] @ ''commandrelay-cli-proxy help'' @ [CHR 0x27] @ '' to see available commands.''))))"

section \<open>The environment\<close>

record variable_resolution =
  vr_logicalName :: string
  vr_selectedKey :: "string option"
  vr_selectedValue :: "string option"
  vr_lowerValue :: "string option"
  vr_upperValue :: "string option"
  vr_ignoredUppercase :: bool

record env_inspection =
  ei_cgiMode :: bool
  ei_variables :: "(string \<times> string option) list"
  ei_resolution :: "variable_resolution list"
  ei_settings :: proxy_settings

definition SNAPSHOT_KEYS :: "string list" where
  "SNAPSHOT_KEYS = [''http_proxy'', ''HTTP_PROXY'', ''https_proxy'', ''HTTPS_PROXY'', ''all_proxy'', ''ALL_PROXY'', ''no_proxy'',
     ''NO_PROXY'', ''REQUEST_METHOD'', ''request_method'']"

definition variable_keys :: "string \<Rightarrow> string \<times> string" where
  "variable_keys logicalName =
     (if logicalName = ''httpProxy'' then (''http_proxy'', ''HTTP_PROXY'')
      else if logicalName = ''httpsProxy'' then (''https_proxy'', ''HTTPS_PROXY'')
      else if logicalName = ''allProxy'' then (''all_proxy'', ''ALL_PROXY'')
      else (''no_proxy'', ''NO_PROXY''))"

definition buildResolution :: "string \<Rightarrow> environment \<Rightarrow> bool \<Rightarrow> variable_resolution" where
  "buildResolution logicalName env ignoreUppercase =
     (let (lowerKey, upperKey) = variable_keys logicalName;
          lowerValue = readRawEnv env lowerKey lowerKey;
          upperValue = readRawEnv env upperKey upperKey;
          selected = (case lowerValue of
              Some v \<Rightarrow> Some (lowerKey, v)
            | None \<Rightarrow> (if ignoreUppercase then None else map_option (\<lambda>v. (upperKey, v)) upperValue))
      in \<lparr>vr_logicalName = logicalName, vr_selectedKey = map_option fst selected, vr_selectedValue = map_option snd selected,
          vr_lowerValue = lowerValue, vr_upperValue = upperValue,
          vr_ignoredUppercase = (ignoreUppercase \<and> upperValue \<noteq> None \<and> lowerValue = None)\<rparr>)"

definition inspectProxyEnvironment :: "full_url_parser \<Rightarrow> environment \<Rightarrow> env_inspection" where
  "inspectProxyEnvironment url env =
     (let cgiMode = truthy (readRawEnv env ''REQUEST_METHOD'' ''request_method'')
      in \<lparr>ei_cgiMode = cgiMode, ei_variables = map (\<lambda>k. (k, env k)) SNAPSHOT_KEYS,
          ei_resolution = [buildResolution ''httpProxy'' env cgiMode, buildResolution ''httpsProxy'' env False,
                           buildResolution ''allProxy'' env False, buildResolution ''noProxy'' env False],
          ei_settings = loadProxySettings url env\<rparr>)"

section \<open>The agent detail\<close>

record agent_detail =
  ad_adapter :: string
  ad_agentClass :: "string option"
  ad_viaProxy :: bool
  ad_proxyUrl :: "string option"
  ad_error :: "string option"

definition agent_class_name :: "agent_kind \<Rightarrow> string" where
  "agent_class_name k = (case k of SocksProxyAgent \<Rightarrow> ''SocksProxyAgent'' | PacProxyAgent \<Rightarrow> ''PacProxyAgent''
     | HttpProxyAgent \<Rightarrow> ''HttpProxyAgent'' | HttpsProxyAgent \<Rightarrow> ''HttpsProxyAgent'')"

definition agent_error_message :: "agent_error \<Rightarrow> string" where
  "agent_error_message e = (case e of InvalidTargetUrlError _ \<Rightarrow> ''invalid_target_url'' | InvalidProxyUrlError _ \<Rightarrow> ''invalid_proxy_url''
     | UnsupportedProxyProtocolError p \<Rightarrow> ''unsupported_proxy_protocol:'' @ p
     | UnsupportedTargetProtocolError p \<Rightarrow> ''unsupported_target_protocol:'' @ p)"

definition plain_agent_options :: agent_options where
  "plain_agent_options = \<lparr>ao_http = None, ao_https = None, ao_socks = None, ao_pac = None, ao_tls = None\<rparr>"

definition agent_detail_of :: "full_url_parser \<Rightarrow> js_url \<Rightarrow> environment \<Rightarrow> agent_detail option" where
  "agent_detail_of url target env =
     map_option (\<lambda>(f, gone, r).
         case r of
           Inr res \<Rightarrow> \<lparr>ad_adapter = ''@commandrelay/proxy-agent'', ad_agentClass = map_option (\<lambda>a. agent_class_name (ag_kind a)) (ar_agent res),
             ad_viaProxy = ar_viaProxy res, ad_proxyUrl = ar_proxyUrl res, ad_error = None\<rparr>
         | Inl e \<Rightarrow> \<lparr>ad_adapter = ''@commandrelay/proxy-agent'', ad_agentClass = None, ad_viaProxy = False, ad_proxyUrl = None,
             ad_error = Some (agent_error_message e)\<rparr>)
       (factory_resolve url target (new_factory (loadProxySettings url env) (Some (Fin 0)) plain_agent_options))"

section \<open>Routes\<close>

datatype route_decision = Route_proxy | Route_direct | Route_error

record route_explanation =
  re_input :: string
  re_decision :: route_decision
  re_targetUrl :: "string option"
  re_targetProtocol :: "string option"
  re_proxyUrl :: "string option"
  re_proxySource :: "string option"
  re_matchedNoProxyRule :: "no_proxy_rule option"
  re_reason :: string
  re_agent :: "agent_detail option"
  re_error :: "string option"

definition cli_getPort :: "js_url \<Rightarrow> int" where
  "cli_getPort target =
     (let standard = (if u_protocol target = ''https:'' \<or> u_protocol target = ''wss:'' then 443 else 80)
      in if u_port target = [] then standard
         else case parseInt (u_port target) of
           Fin q \<Rightarrow> (if isSafeInteger (JNum (Fin q)) \<and> \<lfloor>q\<rfloor> > 0 \<and> \<lfloor>q\<rfloor> \<le> 65535 then \<lfloor>q\<rfloor> else standard)
         | _ \<Rightarrow> standard)"

definition cli_normalizeHost :: "string \<Rightarrow> string option" where
  "cli_normalizeHost hostname =
     (let trimmed = toLowerCase (trim hostname)
      in if trimmed = [] then None
         else let unbracketed = (if startsWith trimmed ''['' \<and> endsWith trimmed '']'' then butlast (tl trimmed) else trimmed);
                  normalized = (if endsWith unbracketed ''.'' then butlast unbracketed else unbracketed)
              in if normalized = [] \<or> CHR ''/'' \<in> set normalized \<or> CHR '' '' \<in> set normalized then None else Some normalized)"

definition cli_matchesRuleHost :: "string \<Rightarrow> no_proxy_rule \<Rightarrow> bool" where
  "cli_matchesRuleHost targetHost rule =
     (if targetHost = np_host rule then True
      else if \<not> np_matchSubdomains rule then False
      else if \<not> endsWith targetHost (np_host rule) then False
      else let boundaryIndex = int (length targetHost) - int (length (np_host rule)) - 1
           in boundaryIndex \<ge> 0 \<and> targetHost ! nat boundaryIndex = CHR ''.'')"

fun first_rule :: "string \<Rightarrow> int \<Rightarrow> no_proxy_rule list \<Rightarrow> no_proxy_rule option" where
  "first_rule host port [] = None"
| "first_rule host port (rule # rules) =
     (if np_host rule = ''*'' then Some rule
      else if \<not> cli_matchesRuleHost host rule then first_rule host port rules
      else if np_port rule = None \<or> np_port rule = Some port then Some rule
      else first_rule host port rules)"

definition findMatchingNoProxyRule :: "js_url \<Rightarrow> no_proxy_rule list \<Rightarrow> no_proxy_rule option" where
  "findMatchingNoProxyRule target rules =
     (case cli_normalizeHost (u_hostname target) of None \<Rightarrow> None | Some host \<Rightarrow> first_rule host (cli_getPort target) rules)"

definition formatNoProxyRule :: "no_proxy_rule \<Rightarrow> string" where
  "formatNoProxyRule rule =
     (let host = (if np_matchSubdomains rule \<and> np_host rule \<noteq> ''*'' then ''*.'' @ np_host rule else np_host rule)
      in case np_port rule of None \<Rightarrow> host | Some p \<Rightarrow> host @ '':'' @ number_text p)"

definition resolveProxySource :: "string \<Rightarrow> proxy_settings \<Rightarrow> string option \<Rightarrow> string option" where
  "resolveProxySource protocol s proxyUrl =
     (if \<not> truthy proxyUrl then None
      else if protocol \<in> set [''http:'', ''ws:''] then
        (if ps_httpProxy s = proxyUrl then Some ''httpProxy'' else if ps_allProxy s = proxyUrl then Some ''allProxy'' else None)
      else if protocol \<in> set [''https:'', ''wss:''] then
        (if ps_httpsProxy s = proxyUrl then Some ''httpsProxy'' else if ps_httpProxy s = proxyUrl then Some ''httpProxy''
         else if ps_allProxy s = proxyUrl then Some ''allProxy'' else None)
      else if ps_allProxy s = proxyUrl then Some ''allProxy'' else None)"

definition route_of :: "js_url \<Rightarrow> string \<Rightarrow> proxy_settings \<Rightarrow> agent_detail option \<Rightarrow> route_explanation" where
  "route_of target input s detail =
     (let bypass = shouldBypassProxy target (ps_noProxy s);
          rule = (if bypass then findMatchingNoProxyRule target (ps_noProxy s) else None);
          proxyUrl = resolveProxyForUrl target s;
          source = resolveProxySource (u_protocol target) s proxyUrl;
          (decision, reason) =
            (if bypass then (Route_direct, case rule of
                 Some r \<Rightarrow> ''Direct route due to NO_PROXY rule '' @ formatNoProxyRule r @ ''.''
               | None \<Rightarrow> ''Direct route due to NO_PROXY bypass.'')
             else if truthy proxyUrl then (Route_proxy, case source of
                 Some x \<Rightarrow> ''Route uses '' @ x @ '' with proxy '' @ the proxyUrl @ ''.''
               | None \<Rightarrow> ''Route uses proxy '' @ the proxyUrl @ ''.'')
             else (Route_direct, ''Direct route because no proxy setting matched this protocol.''))
      in \<lparr>re_input = input, re_decision = decision, re_targetUrl = Some (u_href target), re_targetProtocol = Some (u_protocol target),
          re_proxyUrl = proxyUrl, re_proxySource = source, re_matchedNoProxyRule = rule, re_reason = reason, re_agent = detail,
          re_error = None\<rparr>)"

text \<open>\<open>resolver\<close> is the agent resolver, if there is one.\<close>

definition explainOneRoute ::
  "full_url_parser \<Rightarrow> string \<Rightarrow> proxy_settings \<Rightarrow> environment \<Rightarrow> (js_url \<Rightarrow> environment \<Rightarrow> agent_detail option) option
   \<Rightarrow> route_explanation option" where
  "explainOneRoute url input s env resolver =
     (case url input of
        None \<Rightarrow>
          Some \<lparr>re_input = input, re_decision = Route_error, re_targetUrl = None, re_targetProtocol = None, re_proxyUrl = None,
            re_proxySource = None, re_matchedNoProxyRule = None, re_reason = ''Target is not a valid URL.'', re_agent = None,
            re_error = Some ''invalid_target_url''\<rparr>
      | Some target \<Rightarrow>
          (case resolver of
             None \<Rightarrow> Some (route_of target input s None)
           | Some resolve \<Rightarrow> map_option (\<lambda>d. route_of target input s (Some d)) (resolve target env)))"

datatype agent_support = Support_enabled | Support_unavailable | Support_disabled

text \<open>\<open>installed\<close> tells whether the import of the agent package succeeds.\<close>

definition resolveAgentResolver ::
  "full_url_parser \<Rightarrow> bool \<Rightarrow> bool \<Rightarrow> agent_support \<times> (js_url \<Rightarrow> environment \<Rightarrow> agent_detail option) option" where
  "resolveAgentResolver url enableAgent installed =
     (if \<not> enableAgent then (Support_disabled, None)
      else if \<not> installed then (Support_unavailable, None)
      else (Support_enabled, Some (agent_detail_of url)))"

fun explain_all ::
  "full_url_parser \<Rightarrow> proxy_settings \<Rightarrow> environment \<Rightarrow> (js_url \<Rightarrow> environment \<Rightarrow> agent_detail option) option
   \<Rightarrow> string list \<Rightarrow> route_explanation list option" where
  "explain_all url s env resolver [] = Some []"
| "explain_all url s env resolver (input # inputs) =
     (case explainOneRoute url input s env resolver of
        None \<Rightarrow> None
      | Some r \<Rightarrow> map_option (\<lambda>rs. r # rs) (explain_all url s env resolver inputs))"

definition explainProxyRoutes ::
  "full_url_parser \<Rightarrow> environment \<Rightarrow> bool \<Rightarrow> bool \<Rightarrow> string list \<Rightarrow> (env_inspection \<times> route_explanation list \<times> agent_support) option" where
  "explainProxyRoutes url env enableAgent installed inputs =
     (let inspection = inspectProxyEnvironment url env;
          (support, resolver) = resolveAgentResolver url enableAgent installed
      in map_option (\<lambda>routes. (inspection, routes, support)) (explain_all url (ei_settings inspection) env resolver inputs))"

datatype cli_report = Help_report | Env_report bool env_inspection
  | Explain_report bool env_inspection "route_explanation list" agent_support | Error_report cli_parse_error

definition runCli :: "full_url_parser \<Rightarrow> environment \<Rightarrow> bool \<Rightarrow> string list \<Rightarrow> (int \<times> cli_report) option" where
  "runCli url env installed argv =
     (case parseCliArgs argv of
        Inl e \<Rightarrow> Some (2, Error_report e)
      | Inr Help \<Rightarrow> Some (0, Help_report)
      | Inr (Env json) \<Rightarrow> Some (0, Env_report json (inspectProxyEnvironment url env))
      | Inr (Explain json withAgent urls) \<Rightarrow>
          map_option (\<lambda>(inspection, routes, support). (0, Explain_report json inspection routes support))
            (explainProxyRoutes url env withAgent installed urls))"

section \<open>The explanation agrees with the decision\<close>

lemma cli_normalizeHost_core: "cli_normalizeHost h = normalizeHost h"
  by (simp add: cli_normalizeHost_def normalizeHost_def Let_def)

lemma cli_matchesRuleHost_core: "cli_matchesRuleHost h r = matchesRuleHost h r"
  by (simp add: cli_matchesRuleHost_def matchesRuleHost_def isSubdomainOf_def Let_def)

lemma cli_getPort_core:
  assumes "list_all is_digit (u_port u)"
  shows "cli_getPort u = getTargetPort u"
  using assms by (auto simp: cli_getPort_def getTargetPort_def parsePort_def Let_def split: jsnum.split)

text \<open>The explainer's own search finds the first rule that covers the target; there is one exactly when the core bypasses the proxy.\<close>

lemma first_rule_find: "first_rule host port rules = List.find (rule_covers host port) rules"
  by (induction rules) (auto simp: rule_covers_def cli_matchesRuleHost_core matchesRuleHost_labels)

lemma find_rule_bypass: "List.find (rule_covers host port) rules \<noteq> None \<longleftrightarrow> bypass_rules host port rules"
  by (auto simp: bypass_rules_iff find_None_iff)

lemma matched_rule:
  assumes "list_all is_digit (u_port u)" "shouldBypassProxy u rules"
  obtains host rule where "normalizeHost (u_hostname u) = Some host"
    "findMatchingNoProxyRule u rules = Some rule" "rule \<in> set rules" "rule_covers host (getTargetPort u) rule"
proof -
  from assms(2) obtain host where h: "normalizeHost (u_hostname u) = Some host" "bypass_rules host (getTargetPort u) rules"
    by (auto simp: shouldBypassProxy_def split: if_splits option.splits)
  then obtain rule where r: "List.find (rule_covers host (getTargetPort u)) rules = Some rule" using find_rule_bypass by blast
  have "findMatchingNoProxyRule u rules = Some rule"
    using h r by (simp add: findMatchingNoProxyRule_def cli_normalizeHost_core cli_getPort_core [OF assms(1)] first_rule_find)
  moreover have "rule \<in> set rules \<and> rule_covers host (getTargetPort u) rule" using r by (auto simp: find_Some_iff)
  ultimately show thesis using that h(1) by blast
qed

definition named_setting :: "proxy_settings \<Rightarrow> string \<Rightarrow> string option" where
  "named_setting s n = (if n = ''httpProxy'' then ps_httpProxy s else if n = ''httpsProxy'' then ps_httpsProxy s
     else if n = ''allProxy'' then ps_allProxy s else None)"

lemma proxy_source_named:
  assumes "proxied u s = Some p"
  shows "\<exists>n. resolveProxySource (u_protocol u) s (resolveProxyForUrl u s) = Some n \<and> named_setting s n = Some p"
proof -
  have p: "resolveProxyForUrl u s = Some p" "p \<noteq> []" using assms by (auto simp: proxied_def split: option.splits if_splits)
  then have t: "truthy (Some p)" by (simp add: truthy_def)
  show ?thesis unfolding p(1)
    using t p(1) [unfolded resolveProxyForUrl_def]
    by (auto simp: resolveProxySource_def or_else_def named_setting_def split: if_splits option.splits)
qed

lemma proxied_truthy: "truthy (resolveProxyForUrl u s) \<longleftrightarrow> proxied u s \<noteq> None"
  by (auto simp: truthy_def proxied_def split: option.split)

lemma bypass_not_proxied: "shouldBypassProxy u (ps_noProxy s) \<Longrightarrow> proxied u s = None"
  by (simp add: proxied_def resolveProxyForUrl_def)

text \<open>What an explanation of one input may say.\<close>

definition truthful :: "full_url_parser \<Rightarrow> proxy_settings \<Rightarrow> string \<Rightarrow> route_explanation \<Rightarrow> bool" where
  "truthful url s input r \<longleftrightarrow> re_input r = input \<and>
     (case url input of
        None \<Rightarrow> re_decision r = Route_error
      | Some u \<Rightarrow>
          re_decision r = (if proxied u s = None then Route_direct else Route_proxy)
          \<and> (proxied u s \<noteq> None \<longrightarrow> re_proxyUrl r = proxied u s \<and> (\<exists>n. re_proxySource r = Some n \<and> named_setting s n = proxied u s))
          \<and> (re_matchedNoProxyRule r \<noteq> None \<longleftrightarrow> shouldBypassProxy u (ps_noProxy s))
          \<and> (\<forall>rule. re_matchedNoProxyRule r = Some rule \<longrightarrow> rule \<in> set (ps_noProxy s)
               \<and> (\<exists>host. normalizeHost (u_hostname u) = Some host \<and> rule_covers host (getTargetPort u) rule))
          \<and> (\<forall>d. re_agent r = Some d \<and> ad_error d = None \<longrightarrow> ad_viaProxy d = (re_decision r = Route_proxy) \<and> ad_proxyUrl d = proxied u s))"

lemma route_of_fields:
  "re_input (route_of u input s d) = input" "re_agent (route_of u input s d) = d"
  "re_decision (route_of u input s d) = (if proxied u s = None then Route_direct else Route_proxy)"
  "re_proxyUrl (route_of u input s d) = resolveProxyForUrl u s"
  "re_proxySource (route_of u input s d) = resolveProxySource (u_protocol u) s (resolveProxyForUrl u s)"
  "re_matchedNoProxyRule (route_of u input s d) =
     (if shouldBypassProxy u (ps_noProxy s) then findMatchingNoProxyRule u (ps_noProxy s) else None)"
  using bypass_not_proxied [of u s] by (auto simp: route_of_def proxied_truthy Let_def)

lemma agent_detail_truthful:
  assumes "CHR ''|'' \<notin> set (u_protocol u)"
  shows "\<exists>d. agent_detail_of url u env = Some d \<and>
    (ad_error d = None \<longrightarrow> ad_viaProxy d = (proxied u (loadProxySettings url env) \<noteq> None) \<and> ad_proxyUrl d = proxied u (loadProxySettings url env))"
proof -
  let ?f = "new_factory (loadProxySettings url env) (Some (Fin 0)) plain_agent_options"
  have s: "fa_settings ?f = loadProxySettings url env" by (simp add: new_factory_def)
  from factory_resolve_total [OF new_factory_wf assms, of url "loadProxySettings url env" "Some (Fin 0)" plain_agent_options]
  obtain f' ev r where r: "factory_resolve url u ?f = Some (f', ev, r)"
    "case r of Inl e \<Rightarrow> True | Inr res \<Rightarrow> ar_viaProxy res = (proxied u (loadProxySettings url env) \<noteq> None)
       \<and> ar_proxyUrl res = proxied u (loadProxySettings url env)"
    unfolding s by (fastforce split: sum.splits)
  then show ?thesis by (auto simp: agent_detail_of_def split: sum.splits)
qed

lemma route_truthful:
  assumes u: "url input = Some u" "list_all is_digit (u_port u)"
    and d: "\<And>x. d = Some x \<Longrightarrow> ad_error x = None \<Longrightarrow> ad_viaProxy x = (proxied u s \<noteq> None) \<and> ad_proxyUrl x = proxied u s"
  shows "truthful url s input (route_of u input s d)"
proof -
  have rule: "(shouldBypassProxy u (ps_noProxy s) \<longrightarrow> findMatchingNoProxyRule u (ps_noProxy s) \<noteq> None)
    \<and> (\<forall>rule. shouldBypassProxy u (ps_noProxy s) \<and> findMatchingNoProxyRule u (ps_noProxy s) = Some rule \<longrightarrow>
        rule \<in> set (ps_noProxy s) \<and> (\<exists>host. normalizeHost (u_hostname u) = Some host \<and> rule_covers host (getTargetPort u) rule))"
    using matched_rule [OF u(2)] by (metis option.distinct(1) option.inject)
  have url: "proxied u s = Some p \<Longrightarrow> resolveProxyForUrl u s = Some p" for p by (auto simp: proxied_def split: option.splits if_splits)
  show ?thesis
    using rule d proxy_source_named [of u s] url unfolding truthful_def route_of_fields u(1) by (auto split: if_splits)
qed

text \<open>
  C35: the diagnostics tool tells the truth. For every environment and every list of inputs the explanation returns, one entry per
  input in order, and each entry says what the library does with that target: a proxy route exactly when the core chooses a
  proxy, with that proxy and the setting that holds it; a \<open>NO_PROXY\<close> rule exactly when the core bypasses the proxy, and one that
  covers the target; and the same route as the agent factory, when that reports no error. The hypotheses are what the URL class
  promises: schemes without a bar and ports of digits.
\<close>

theorem explanations_truthful:
  assumes "url_schemes_ok url" "\<forall>t u. url t = Some u \<longrightarrow> list_all is_digit (u_port u)"
  shows "\<exists>inspection routes support. explainProxyRoutes url env enableAgent installed inputs = Some (inspection, routes, support)
    \<and> ei_settings inspection = loadProxySettings url env
    \<and> list_all2 (truthful url (loadProxySettings url env)) inputs routes"
proof -
  let ?s = "loadProxySettings url env"
  obtain support resolver where res: "resolveAgentResolver url enableAgent installed = (support, resolver)"
    by (cases "resolveAgentResolver url enableAgent installed")
  have resolver: "resolver = None \<or> resolver = Some (agent_detail_of url)"
    using res by (auto simp: resolveAgentResolver_def split: if_splits)
  have one: "\<exists>r. explainOneRoute url input ?s env resolver = Some r \<and> truthful url ?s input r" for input
  proof (cases "url input")
    case None
    then show ?thesis by (simp add: explainOneRoute_def truthful_def)
  next
    case (Some u)
    then have u: "CHR ''|'' \<notin> set (u_protocol u)" "list_all is_digit (u_port u)" using assms by (auto simp: url_schemes_ok_def)
    from agent_detail_truthful [OF u(1), of url env] obtain d where d: "agent_detail_of url u env = Some d"
      "ad_error d = None \<longrightarrow> ad_viaProxy d = (proxied u ?s \<noteq> None) \<and> ad_proxyUrl d = proxied u ?s" by (elim exE conjE)
    from resolver show ?thesis
      using route_truthful [of url input u None ?s, OF Some u(2)] route_truthful [of url input u "Some d" ?s, OF Some u(2)] d
      by (auto simp: explainOneRoute_def Some)
  qed
  have "\<exists>routes. explain_all url ?s env resolver inputs = Some routes \<and> list_all2 (truthful url ?s) inputs routes"
  proof (induction inputs)
    case (Cons input inputs)
    then show ?case using one [of input] by auto
  qed simp
  then show ?thesis by (auto simp: explainProxyRoutes_def inspectProxyEnvironment_def res Let_def)
qed

definition demo_cli_env :: environment where
  "demo_cli_env = map_of [(''https_proxy'', ''http://proxy.example:3128/''), (''NO_PROXY'', ''.internal'')]"

theorem explanations_truthful_witness:
  "\<exists>inspection r support. explainProxyRoutes demo_url demo_cli_env True True [''https://www.example.org/''] = Some (inspection, [r], support)
     \<and> re_decision r = Route_proxy \<and> re_proxyUrl r = Some ''http://proxy.example:3128/''"
proof -
  let ?u = "\<lparr>u_protocol = ''https:'', u_hostname = ''www.example.org'', u_port = [], u_href = ''https://www.example.org/''\<rparr>"
  have h: "url_schemes_ok demo_url" "\<forall>t u. demo_url t = Some u \<longrightarrow> list_all is_digit (u_port u)"
    by (auto simp: url_schemes_ok_def demo_url_def is_digit_def split: if_splits)
  have u: "demo_url ''https://www.example.org/'' = Some ?u" by (simp add: demo_url_def)
  have p: "proxied ?u (loadProxySettings demo_url demo_cli_env) = Some ''http://proxy.example:3128/''" by code_simp
  from explanations_truthful [OF h, of demo_cli_env True True "[''https://www.example.org/'']"] obtain inspection routes support where
    e: "explainProxyRoutes demo_url demo_cli_env True True [''https://www.example.org/''] = Some (inspection, routes, support)"
    "list_all2 (truthful demo_url (loadProxySettings demo_url demo_cli_env)) [''https://www.example.org/''] routes" by blast
  from e(2) obtain r where r: "routes = [r]" "truthful demo_url (loadProxySettings demo_url demo_cli_env) ''https://www.example.org/'' r"
    by (auto simp: list_all2_Cons1)
  have "re_decision r = Route_proxy \<and> re_proxyUrl r = Some ''http://proxy.example:3128/''" using r(2) u p by (simp add: truthful_def)
  then show ?thesis using e(1) r(1) by blast
qed

section \<open>The report on the environment\<close>

text \<open>For the three proxy variables the reported choice is the one the settings are made from.\<close>

lemma reported_variable:
  "vr_selectedValue (buildResolution ''httpProxy'' env b) = readProxyEnv env ''HTTP_PROXY'' ''http_proxy'' b"
  "vr_selectedValue (buildResolution ''httpsProxy'' env b) = readProxyEnv env ''HTTPS_PROXY'' ''https_proxy'' b"
  "vr_selectedValue (buildResolution ''allProxy'' env b) = readProxyEnv env ''ALL_PROXY'' ''all_proxy'' b"
  by (auto simp: buildResolution_def variable_keys_def readProxyEnv_def Let_def option.map_comp o_def option.map_ident split: option.split)

text \<open>For \<open>NO_PROXY\<close> it is not: with both variables set the report names the lower case one, and the settings come from the other.\<close>

theorem inspection_misreports_no_proxy:
  assumes "env ''no_proxy'' = Some a" "env ''NO_PROXY'' = Some b"
  shows "vr_selectedKey (ei_resolution (inspectProxyEnvironment url env) ! 3) = Some ''no_proxy''
    \<and> vr_selectedValue (ei_resolution (inspectProxyEnvironment url env) ! 3) = Some a
    \<and> ps_noProxy (ei_settings (inspectProxyEnvironment url env)) = parseNoProxy url b"
  using assms
  by (simp add: inspectProxyEnvironment_def buildResolution_def variable_keys_def readRawEnv_def loadProxySettings_def Let_def)

section \<open>The arguments\<close>

text \<open>A parsed explanation has URLs; any list of them can be passed behind the separator.\<close>

lemma parseExplain_urls: "parseExplainCommand rest json agent urls = Inr (Explain j a us) \<Longrightarrow> us \<noteq> []"
  by (induction rest json agent urls rule: parseExplainCommand.induct) (auto simp: explain_result_def cli_fail_def split: if_splits)

theorem explain_arguments_roundtrip:
  assumes "us \<noteq> []"
  shows "parseCliArgs ((if j then [''--json''] else []) @ [''explain''] @ (if a then [] else [''--no-agent'']) @ [''--''] @ us)
    = Inr (Explain j a us)"
  using assms
  by (cases j; cases a) (simp_all add: parseCliArgs_def bind_result_def help_flag_def json_flag_def startsWith_def explain_result_def)

end
