(* ===== verification/Proxy_Dispatcher.thy ===== *)
theory Proxy_Dispatcher
  imports Http_Client
begin

text \<open>
  The dispatchers of \<^verbatim>\<open>packages/proxy-undici/src/proxy-undici-dispatcher-factory.ts\<close>. A dispatcher is the options it was
  constructed with and a serial number; its classes are third-party. The dispatcher cache is the code of
  \<open>Agent_Cache\<close>. Operations return the dispatchers they close.
\<close>

section \<open>Dispatchers\<close>

record dispatcher =
  di_proxy :: "string option"
  di_options :: "js_record option"
  di_serial :: nat

record dispatcher_factory =
  df_settings :: proxy_settings
  df_cache :: "(string, dispatcher) agent_cache"
  df_directOptions :: "js_record option"
  df_proxyOptions :: "js_record option"
  df_direct :: "dispatcher option"
  df_next :: nat

record dispatcher_resolution =
  dr_dispatcher :: dispatcher
  dr_proxyUrl :: "string option"
  dr_viaProxy :: bool
  dr_fromCache :: bool

definition UNDICI_TARGET_PROTOCOLS :: "string list" where
  "UNDICI_TARGET_PROTOCOLS = [''http:'', ''https:'']"

definition UNDICI_PROXY_PROTOCOLS :: "string list" where
  "UNDICI_PROXY_PROTOCOLS = [''http:'', ''https:'']"

definition new_dispatcher_factory ::
  "proxy_settings \<Rightarrow> jsnum option \<Rightarrow> js_record option \<Rightarrow> js_record option \<Rightarrow> dispatcher_factory" where
  "new_dispatcher_factory settings maxEntries directOptions proxyOptions =
     \<lparr>df_settings = settings, df_cache = new_cache (normalizeCacheEntries maxEntries), df_directOptions = directOptions,
      df_proxyOptions = proxyOptions, df_direct = None, df_next = 0\<rparr>"

definition resolveDirect :: "dispatcher_factory \<Rightarrow> dispatcher_factory \<times> dispatcher_resolution" where
  "resolveDirect f =
     (case df_direct f of
        Some d \<Rightarrow> (f, \<lparr>dr_dispatcher = d, dr_proxyUrl = None, dr_viaProxy = False, dr_fromCache = True\<rparr>)
      | None \<Rightarrow>
          (let d = \<lparr>di_proxy = None, di_options = df_directOptions f, di_serial = df_next f\<rparr>
           in (f\<lparr>df_direct := Some d, df_next := Suc (df_next f)\<rparr>,
               \<lparr>dr_dispatcher = d, dr_proxyUrl = None, dr_viaProxy = False, dr_fromCache = False\<rparr>)))"

definition dispatcher_resolve ::
  "full_url_parser \<Rightarrow> js_url \<Rightarrow> dispatcher_factory
   \<Rightarrow> (dispatcher_factory \<times> dispatcher list \<times> (agent_error, dispatcher_resolution) result) option" where
  "dispatcher_resolve url u f =
     (let targetProtocol = toLowerCase (u_protocol u)
      in if targetProtocol \<notin> set UNDICI_TARGET_PROTOCOLS then Some (f, [], Inl (UnsupportedTargetProtocolError targetProtocol))
         else case resolveProxyForUrl u (df_settings f) of
           None \<Rightarrow> (let (f1, r) = resolveDirect f in Some (f1, [], Inr r))
         | Some v \<Rightarrow>
             (if v = [] then (let (f1, r) = resolveDirect f in Some (f1, [], Inr r))
              else case url v of
                None \<Rightarrow> Some (f, [], Inl (InvalidProxyUrlError v))
              | Some pu \<Rightarrow>
                  (let proxyProtocol = toLowerCase (u_protocol pu); key = u_href pu
                   in if proxyProtocol \<in> set SOCKS_PROTOCOLS \<or> proxyProtocol \<in> set PAC_PROTOCOLS
                      then Some (f, [], Inl (UnsupportedProxyProtocolError proxyProtocol))
                      else if proxyProtocol \<notin> set UNDICI_PROXY_PROTOCOLS
                      then Some (f, [], Inl (UnsupportedProxyProtocolError proxyProtocol))
                      else case cache_get key (df_cache f) of
                        (Some d, c) \<Rightarrow>
                          Some (f\<lparr>df_cache := c\<rparr>, [],
                            Inr \<lparr>dr_dispatcher = d, dr_proxyUrl = Some key, dr_viaProxy = True, dr_fromCache = True\<rparr>)
                      | (None, c) \<Rightarrow>
                          (let d = \<lparr>di_proxy = Some key, di_options = df_proxyOptions f, di_serial = df_next f\<rparr>
                           in map_option (\<lambda>(c2, ev).
                                (f\<lparr>df_cache := c2, df_next := Suc (df_next f)\<rparr>, ev,
                                 Inr \<lparr>dr_dispatcher = d, dr_proxyUrl = Some key, dr_viaProxy = True, dr_fromCache = False\<rparr>))
                              (cache_set key d c)))))"

definition dispatcher_destroy :: "dispatcher_factory \<Rightarrow> dispatcher_factory \<times> dispatcher list" where
  "dispatcher_destroy f =
     (let (c, ev) = cache_clear (df_cache f)
      in (f\<lparr>df_direct := None, df_cache := c\<rparr>, (case df_direct f of None \<Rightarrow> [] | Some d \<Rightarrow> [d]) @ ev))"

definition dispatcher_updateSettings :: "proxy_settings \<Rightarrow> dispatcher_factory \<Rightarrow> dispatcher_factory \<times> dispatcher list" where
  "dispatcher_updateSettings s f = dispatcher_destroy (f\<lparr>df_settings := s\<rparr>)"

definition dispatcher_reload :: "full_url_parser \<Rightarrow> environment \<Rightarrow> dispatcher_factory \<Rightarrow> dispatcher_factory \<times> dispatcher list" where
  "dispatcher_reload url env f = dispatcher_destroy (f\<lparr>df_settings := loadProxySettings url env\<rparr>)"

section \<open>Invariant\<close>

text \<open>
  A cached dispatcher is a proxy dispatcher for its key, the cache is within its capacity, and the direct dispatcher
  has no proxy. \<open>held_serials\<close> lists the dispatchers the factory still holds.
\<close>

definition held_serials :: "dispatcher_factory \<Rightarrow> nat list" where
  "held_serials f = map (di_serial \<circ> snd) (ac_store (df_cache f)) @ (case df_direct f of None \<Rightarrow> [] | Some d \<Rightarrow> [di_serial d])"

definition dispatchers_ok :: "dispatcher_factory \<Rightarrow> bool" where
  "dispatchers_ok f \<longleftrightarrow> keys_distinct (ac_store (df_cache f)) \<and> 0 \<le> ac_maxEntries (df_cache f)
     \<and> int (length (ac_store (df_cache f))) \<le> ac_maxEntries (df_cache f)
     \<and> (\<forall>(k, d) \<in> set (ac_store (df_cache f)). di_proxy d = Some k \<and> di_options d = df_proxyOptions f)
     \<and> (\<forall>d. df_direct f = Some d \<longrightarrow> di_proxy d = None \<and> di_options d = df_directOptions f)"

lemma new_dispatchers_ok: "dispatchers_ok (new_dispatcher_factory s n d p)"
  by (simp add: dispatchers_ok_def new_dispatcher_factory_def new_cache_def normalizeCacheEntries_nonneg)

datatype dispatcher_op =
    Resolve js_url
  | Destroy
  | Update_settings proxy_settings
  | Reload environment

definition dispatcher_step ::
  "full_url_parser \<Rightarrow> dispatcher_factory \<Rightarrow> dispatcher_op
   \<Rightarrow> (dispatcher_factory \<times> dispatcher list \<times> (agent_error, dispatcher_resolution) result option) option" where
  "dispatcher_step url f o1 =
     (case o1 of
        Resolve u \<Rightarrow> map_option (\<lambda>(f', shut, r). (f', shut, Some r)) (dispatcher_resolve url u f)
      | Destroy \<Rightarrow> (let (f', shut) = dispatcher_destroy f in Some (f', shut, None))
      | Update_settings s \<Rightarrow> (let (f', shut) = dispatcher_updateSettings s f in Some (f', shut, None))
      | Reload env \<Rightarrow> (let (f', shut) = dispatcher_reload url env f in Some (f', shut, None)))"

lemma cache_get_mset:
  assumes "keys_distinct (ac_store c)" "cache_get k c = (r, c')"
  shows "mset (ac_store c') = mset (ac_store c)" "ac_maxEntries c' = ac_maxEntries c"
    "r = map_of (ac_store c) k" "r = None \<Longrightarrow> c' = c"
proof -
  have "mset (ac_store c') = mset (ac_store c)" if "map_of (ac_store c) k = Some v" for v
  proof -
    have "ac_store c' = filter (\<lambda>e. fst e \<noteq> k) (ac_store c) @ [(k, v)]"
      using assms that mput_new [OF keys_distinct_set [OF assms(1), of k]] by (auto simp: cache_get_def mdelete_filter)
    then show ?thesis
      using mset_split [of "ac_store c" "\<lambda>e. fst e = k"] filter_key [OF assms(1) that] by simp
  qed
  then show "mset (ac_store c') = mset (ac_store c)" "ac_maxEntries c' = ac_maxEntries c"
    "r = map_of (ac_store c) k" "r = None \<Longrightarrow> c' = c"
    using assms(2) by (auto simp: cache_get_def split: option.splits)
qed

lemma cache_set_new:
  assumes "keys_distinct (ac_store c)" "map_of (ac_store c) k = None" "0 \<le> ac_maxEntries c"
    "int (length (ac_store c)) \<le> ac_maxEntries c"
  shows "cache_set k v c =
    (if ac_maxEntries c = 0 then Some (c, [])
     else if int (length (ac_store c)) < ac_maxEntries c then Some (c\<lparr>ac_store := ac_store c @ [(k, v)]\<rparr>, [])
     else Some (c\<lparr>ac_store := tl (ac_store c) @ [(k, v)]\<rparr>, [snd (hd (ac_store c))]))"
proof -
  have "k \<notin> fst ` set (ac_store c)" using assms(2) by (simp add: map_of_eq_None_iff)
  then have new: "mput (ac_store c) k v = ac_store c @ [(k, v)]" "keys_distinct (ac_store c @ [(k, v)])"
    using assms(1) by (auto simp: mput_new)
  have "Suc (length (ac_store c)) - nat (ac_maxEntries c) = (if int (length (ac_store c)) < ac_maxEntries c then 0 else 1)"
    using assms(3,4) by auto
  moreover have "cache_set k v c = (if ac_maxEntries c = 0 then Some (c, [])
      else map_option (\<lambda>(st, ev). (c\<lparr>ac_store := st\<rparr>, ev)) (evict_loop (ac_maxEntries c) (ac_store c @ [(k, v)]) []))"
    using assms(2) new(1) by (simp add: cache_set_def)
  ultimately show ?thesis
    using assms(3,4) evict_loop_result [OF new(2), of "ac_maxEntries c" "[]"]
    by (cases "ac_store c") auto
qed

text \<open>
  What one operation does to the dispatchers: it keeps the invariant and the capacity, and the dispatchers held before it
  and those it made are the ones it closed and the ones held after it.
\<close>

definition step_fine :: "dispatcher_factory \<Rightarrow> dispatcher_factory \<Rightarrow> dispatcher list \<Rightarrow> bool" where
  "step_fine f f' shut \<longleftrightarrow> dispatchers_ok f' \<and> df_next f \<le> df_next f'
     \<and> ac_maxEntries (df_cache f') = ac_maxEntries (df_cache f)
     \<and> (0 < ac_maxEntries (df_cache f) \<longrightarrow>
          mset (held_serials f') + mset (map di_serial shut) = mset (held_serials f) + mset [df_next f..<df_next f'])"

definition resolution_fine :: "js_url \<Rightarrow> proxy_settings \<Rightarrow> dispatcher_factory \<Rightarrow> dispatcher_resolution \<Rightarrow> bool" where
  "resolution_fine u s f r \<longleftrightarrow> di_proxy (dr_dispatcher r) = dr_proxyUrl r \<and> dr_viaProxy r = (dr_proxyUrl r \<noteq> None)
     \<and> dr_viaProxy r = (\<exists>v. resolveProxyForUrl u s = Some v \<and> v \<noteq> [])
     \<and> (0 < ac_maxEntries (df_cache f) \<longrightarrow> di_serial (dr_dispatcher r) \<in> set (held_serials f))"

lemma dispatchers_ok_cache:
  assumes "dispatchers_ok f" "mset (ac_store c) = mset (ac_store (df_cache f))" "ac_maxEntries c = ac_maxEntries (df_cache f)"
  shows "step_fine f (f\<lparr>df_cache := c\<rparr>) []"
proof -
  have s: "set (ac_store c) = set (ac_store (df_cache f))" using assms(2) by (rule mset_eq_setD)
  have l: "length (ac_store c) = length (ac_store (df_cache f))" using assms(2) by (rule mset_eq_length)
  have "mset (map fst (ac_store c)) = mset (map fst (ac_store (df_cache f)))" using assms(2) by simp
  then have k: "keys_distinct (ac_store c) = keys_distinct (ac_store (df_cache f))" by (rule mset_eq_imp_distinct_iff)
  have h: "mset (held_serials (f\<lparr>df_cache := c\<rparr>)) = mset (held_serials f)"
    unfolding held_serials_def mset_append mset_map by (simp add: assms(2))
  have "dispatchers_ok (f\<lparr>df_cache := c\<rparr>)" using assms(1,3) s l k unfolding dispatchers_ok_def by simp
  then show ?thesis
    using h assms(3) unfolding step_fine_def by simp
qed

lemma destroy_fine:
  assumes "dispatchers_ok f" "dispatcher_destroy f = (f', shut)"
  shows "step_fine f f' shut"
  using assms
  by (auto simp: dispatcher_destroy_def cache_clear_def step_fine_def dispatchers_ok_def held_serials_def
      multiset.map_comp split: option.splits)

lemma settings_fine:
  "dispatchers_ok (f\<lparr>df_settings := s\<rparr>) = dispatchers_ok f" "step_fine (f\<lparr>df_settings := s\<rparr>) f' shut = step_fine f f' shut"
  by (simp_all add: dispatchers_ok_def step_fine_def held_serials_def)

lemma direct_fine:
  assumes "dispatchers_ok f" "\<not> (\<exists>v. resolveProxyForUrl u s = Some v \<and> v \<noteq> [])" "resolveDirect f = (f', r)"
  shows "step_fine f f' [] \<and> resolution_fine u s f' r"
  using assms
  by (auto simp: resolveDirect_def step_fine_def resolution_fine_def dispatchers_ok_def held_serials_def Let_def
      split: option.splits)

lemma hit_fine:
  assumes ok: "dispatchers_ok f" and get: "cache_get key (df_cache f) = (Some d, c)"
    and via: "resolveProxyForUrl u (df_settings f) = Some v" "v \<noteq> []"
  shows "step_fine f (f\<lparr>df_cache := c\<rparr>) []
     \<and> resolution_fine u (df_settings f) (f\<lparr>df_cache := c\<rparr>)
         \<lparr>dr_dispatcher = d, dr_proxyUrl = Some key, dr_viaProxy = True, dr_fromCache = True\<rparr>"
proof -
  have kd: "keys_distinct (ac_store (df_cache f))" using ok by (simp add: dispatchers_ok_def)
  note g = cache_get_mset [OF kd get]
  have "(key, d) \<in> set (ac_store (df_cache f))" using g(3) [symmetric] by (rule map_of_SomeD)
  moreover have "set (ac_store c) = set (ac_store (df_cache f))" using g(1) by (rule mset_eq_setD)
  moreover have "di_proxy d = Some key" using ok calculation(1) by (auto simp: dispatchers_ok_def)
  ultimately show ?thesis
    using dispatchers_ok_cache [OF ok g(1,2)] via
    by (auto simp: resolution_fine_def held_serials_def image_iff intro!: bexI [of _ "(key, d)"])
qed

lemma miss_fine:
  assumes ok: "dispatchers_ok f" and get: "cache_get key (df_cache f) = (None, c)"
    and via: "resolveProxyForUrl u (df_settings f) = Some v" "v \<noteq> []"
  defines "d \<equiv> \<lparr>di_proxy = Some key, di_options = df_proxyOptions f, di_serial = df_next f\<rparr>"
  shows "\<exists>c2 ev. cache_set key d c = Some (c2, ev) \<and> step_fine f (f\<lparr>df_cache := c2, df_next := Suc (df_next f)\<rparr>) ev
     \<and> resolution_fine u (df_settings f) (f\<lparr>df_cache := c2, df_next := Suc (df_next f)\<rparr>)
         \<lparr>dr_dispatcher = d, dr_proxyUrl = Some key, dr_viaProxy = True, dr_fromCache = False\<rparr>"
proof -
  have kd: "keys_distinct (ac_store (df_cache f))" using ok by (simp add: dispatchers_ok_def)
  note g = cache_get_mset [OF kd get]
  have none: "map_of (ac_store (df_cache f)) key = None" and c: "c = df_cache f" using g(3,4) by auto
  then have fresh: "key \<notin> fst ` set (ac_store (df_cache f))" by (simp add: map_of_eq_None_iff)
  have b: "0 \<le> ac_maxEntries c" "int (length (ac_store c)) \<le> ac_maxEntries c" using ok c by (auto simp: dispatchers_ok_def)
  show ?thesis
    using cache_set_new [of c key d] b kd none fresh ok via
    by (cases "ac_store c")
      (auto simp: c d_def step_fine_def resolution_fine_def held_serials_def dispatchers_ok_def)
qed

text \<open>What an operation returns, checked against the settings in force when it ran.\<close>

definition outcome_fine ::
  "dispatcher_op \<Rightarrow> dispatcher_factory \<Rightarrow> dispatcher_factory \<Rightarrow> (agent_error, dispatcher_resolution) result option \<Rightarrow> bool" where
  "outcome_fine o1 f f' r \<longleftrightarrow> (\<forall>u x. o1 = Resolve u \<longrightarrow> r = Some (Inr x) \<longrightarrow> resolution_fine u (df_settings f) f' x)"

lemma unchanged_fine: "dispatchers_ok f \<Longrightarrow> step_fine f f [] \<and> outcome_fine o1 f f (Some (Inl e))"
  by (simp add: step_fine_def outcome_fine_def)

lemma direct_outcome:
  assumes "dispatchers_ok f" "\<not> (\<exists>v. resolveProxyForUrl u (df_settings f) = Some v \<and> v \<noteq> [])"
  shows "\<exists>f' r. resolveDirect f = (f', r) \<and> step_fine f f' [] \<and> outcome_fine (Resolve u) f f' (Some (Inr r))"
  using direct_fine [OF assms] by (cases "resolveDirect f") (auto simp: outcome_fine_def)

lemma proxied_outcome:
  assumes ok: "dispatchers_ok f" and via: "resolveProxyForUrl u (df_settings f) = Some v" "v \<noteq> []"
    and url: "url v = Some pu"
  shows "\<exists>f' shut r. dispatcher_resolve url u f = Some (f', shut, r) \<and> step_fine f f' shut
     \<and> outcome_fine (Resolve u) f f' (Some r)"
proof -
  obtain r c where get: "cache_get (u_href pu) (df_cache f) = (r, c)" by fastforce
  show ?thesis
  proof (cases r)
    case None
    then show ?thesis
      using url via get unchanged_fine [OF ok] miss_fine [OF ok _ via, of "u_href pu" c]
      by (auto simp: dispatcher_resolve_def Let_def outcome_fine_def)
  next
    case (Some d)
    then show ?thesis
      using url via get unchanged_fine [OF ok] hit_fine [OF ok _ via, of "u_href pu" d c]
      by (auto simp: dispatcher_resolve_def Let_def outcome_fine_def)
  qed
qed

lemma resolve_fine:
  assumes ok: "dispatchers_ok f"
  shows "\<exists>f' shut r. dispatcher_resolve url u f = Some (f', shut, r) \<and> step_fine f f' shut
     \<and> outcome_fine (Resolve u) f f' (Some r)"
proof (cases "\<exists>v pu. resolveProxyForUrl u (df_settings f) = Some v \<and> v \<noteq> [] \<and> url v = Some pu")
  case True
  then show ?thesis using proxied_outcome [OF ok] by blast
next
  case False
  then show ?thesis
    using unchanged_fine [OF ok] direct_outcome [OF ok, of u]
    by (auto simp: dispatcher_resolve_def Let_def split: option.split)
qed

lemma step_is_fine:
  assumes "dispatchers_ok f"
  shows "\<exists>f' shut r. dispatcher_step url f o1 = Some (f', shut, r) \<and> step_fine f f' shut \<and> outcome_fine o1 f f' r"
proof (cases o1)
  case (Resolve u)
  then show ?thesis using resolve_fine [OF assms, of url u] by (auto simp: dispatcher_step_def)
qed (use assms in \<open>auto simp: dispatcher_step_def dispatcher_updateSettings_def dispatcher_reload_def outcome_fine_def
      settings_fine split: prod.split dest!: destroy_fine [rotated]\<close>)

section \<open>Sequences of operations\<close>

primrec dispatcher_run ::
  "full_url_parser \<Rightarrow> dispatcher_factory \<Rightarrow> dispatcher_op list \<Rightarrow> (dispatcher_factory \<times> dispatcher list) option" where
  "dispatcher_run url f [] = Some (f, [])"
| "dispatcher_run url f (o1 # ops) =
     (case dispatcher_step url f o1 of
        None \<Rightarrow> None
      | Some (f1, shut, r) \<Rightarrow> map_option (\<lambda>(f2, shut2). (f2, shut @ shut2)) (dispatcher_run url f1 ops))"

fun settings_in_force :: "full_url_parser \<Rightarrow> proxy_settings \<Rightarrow> dispatcher_op list \<Rightarrow> proxy_settings" where
  "settings_in_force url s [] = s"
| "settings_in_force url s (Update_settings s' # ops) = settings_in_force url s' ops"
| "settings_in_force url s (Reload env # ops) = settings_in_force url (loadProxySettings url env) ops"
| "settings_in_force url s (_ # ops) = settings_in_force url s ops"

lemma mset_upt_split: "(i::nat) \<le> j \<Longrightarrow> j \<le> k \<Longrightarrow> mset [i..<k] = mset [i..<j] + mset [j..<k]"
  using upt_add_eq_append [of i j "k - j"] by (simp del: mset_upt flip: mset_append)

lemma mset_ledger_trans:
  fixes g :: "'a multiset"
  assumes "g + x = f + b" "h + y = g + c"
  shows "h + (x + y) = f + (b + c)"
proof -
  have "h + (x + y) = (h + y) + x" by (simp add: ac_simps)
  also have "\<dots> = (g + x) + c" unfolding assms(2) by (simp add: ac_simps)
  also have "\<dots> = f + (b + c)" unfolding assms(1) by (simp add: ac_simps)
  finally show ?thesis .
qed

lemma step_fine_trans:
  assumes "step_fine f g xs" "step_fine g h ys"
  shows "step_fine f h (xs @ ys)"
proof -
  have le: "df_next f \<le> df_next g" "df_next g \<le> df_next h" using assms by (simp_all add: step_fine_def)
  show ?thesis
  proof (cases "0 < ac_maxEntries (df_cache f)")
    case True
    then have "mset (held_serials g) + mset (map di_serial xs) = mset (held_serials f) + mset [df_next f..<df_next g]"
      "mset (held_serials h) + mset (map di_serial ys) = mset (held_serials g) + mset [df_next g..<df_next h]"
      using assms by (simp_all add: step_fine_def)
    then have "mset (held_serials h) + mset (map di_serial (xs @ ys)) = mset (held_serials f) + mset [df_next f..<df_next h]"
      unfolding mset_upt_split [OF le] map_append mset_append by (rule mset_ledger_trans)
    then show ?thesis using assms le unfolding step_fine_def by simp
  next
    case False
    then show ?thesis using assms le unfolding step_fine_def by simp
  qed
qed

lemma step_settings:
  assumes "dispatcher_step url f o1 = Some (f', shut, r)"
  shows "settings_in_force url (df_settings f) (o1 # ops) = settings_in_force url (df_settings f') ops"
  using assms
  by (cases o1)
    (auto simp: dispatcher_step_def dispatcher_updateSettings_def dispatcher_reload_def dispatcher_destroy_def cache_clear_def
      dispatcher_resolve_def resolveDirect_def Let_def split: if_splits option.splits prod.splits)

lemma run_is_fine:
  "dispatchers_ok f \<Longrightarrow> \<exists>f' shut. dispatcher_run url f ops = Some (f', shut) \<and> step_fine f f' shut
     \<and> df_settings f' = settings_in_force url (df_settings f) ops"
proof (induction ops arbitrary: f)
  case Nil
  then show ?case by (simp add: step_fine_def)
next
  case (Cons o1 ops)
  obtain f1 shut r where s: "dispatcher_step url f o1 = Some (f1, shut, r)" "step_fine f f1 shut"
    using step_is_fine [OF Cons.prems] by blast
  then have "dispatchers_ok f1" by (simp add: step_fine_def)
  from Cons.IH [OF this] s show ?case
    by (auto simp: step_settings [OF s(1)] intro: step_fine_trans)
qed


definition demo_dispatch_url :: full_url_parser where
  "demo_dispatch_url t = (if t = ''http://proxy.example:3128/''
     then Some \<lparr>u_protocol = ''http:'', u_hostname = ''proxy.example'', u_port = ''3128'', u_href = t\<rparr> else None)"

definition demo_target :: js_url where
  "demo_target = \<lparr>u_protocol = ''https:'', u_hostname = ''api.example'', u_port = [], u_href = ''https://api.example/''\<rparr>"

definition demo_dispatch_settings :: proxy_settings where
  "demo_dispatch_settings = \<lparr>ps_httpProxy = None, ps_httpsProxy = Some ''http://proxy.example:3128/'', ps_allProxy = None,
     ps_noProxy = []\<rparr>"


end
