(* ===== verification/Proxy_Fetch.thy ===== *)
theory Proxy_Fetch
  imports Proxy_Dispatcher
begin

text \<open>
  The fetch client, \<^verbatim>\<open>packages/proxy-fetch/src/proxy-fetch-client.ts\<close>, \<^verbatim>\<open>proxy-fetch-runtime.ts\<close> and \<^verbatim>\<open>errors.ts\<close>. A call of
  \<open>fetchJson\<close> is a machine: it waits for the fetch implementation, then reads the body chunk by chunk, then is
  finished. The fetch implementation, its timer, the caller's abort signal and the body reader are events; what the
  implementation does once its signal is aborted is not fixed.
\<close>

section \<open>Options\<close>

datatype fetch_error =
    InvalidUrlError string
  | NonJsonResponseError string int "string option" string string
  | Fetch_size_error string int int int
  | Fetch_timeout_error string rat
  | Fetch_type_error string
  | Routing_error agent_error
  | Foreign_error jsval

record fetch_options =
  fo_method :: "string option"
  fo_headers :: jsval
  fo_body :: jsval
  fo_timeoutMs :: "jsnum option"
  fo_signal :: bool
  fo_requestInit :: "js_record option"
  fo_maxResponseBytes :: "jsnum option"

record request_init =
  ri_fields :: js_record
  ri_dispatcher :: dispatcher

record fetch_client =
  fc_factory :: dispatcher_factory
  fc_owns :: bool
  fc_timeoutMs :: rat
  fc_maxResponseBytes :: int

datatype fetch_target = Url_object http_url | Url_text string

definition assertSupportedProtocol :: "http_url \<Rightarrow> (fetch_error, unit) result" where
  "assertSupportedProtocol u =
     (if u_protocol u \<notin> set SUPPORTED_REQUEST_PROTOCOLS then Inl (InvalidUrlError (u_href u)) else Inr ())"

definition fetch_parseTargetUrl :: "(string \<Rightarrow> http_url option) \<Rightarrow> fetch_target \<Rightarrow> (fetch_error, http_url) result" where
  "fetch_parseTargetUrl url target =
     (case target of
        Url_object u \<Rightarrow> bind_result (assertSupportedProtocol u) (\<lambda>_. Inr u)
      | Url_text t \<Rightarrow>
          (case url t of
             None \<Rightarrow> Inl (InvalidUrlError t)
           | Some u \<Rightarrow> bind_result (assertSupportedProtocol u) (\<lambda>_. Inr u)))"

definition fetch_normalizeTimeout :: "jsnum option \<Rightarrow> jsnum \<Rightarrow> (fetch_error, rat) result" where
  "fetch_normalizeTimeout v fallback =
     (case (case v of None \<Rightarrow> fallback | Some x \<Rightarrow> x) of
        Fin q \<Rightarrow> (if q < 0 then Inl (Fetch_type_error ''timeoutMs must be a finite number >= 0'') else Inr q)
      | _ \<Rightarrow> Inl (Fetch_type_error ''timeoutMs must be a finite number >= 0''))"

definition fetch_normalizeMaxResponseBytes :: "jsnum option \<Rightarrow> jsnum \<Rightarrow> (fetch_error, int) result" where
  "fetch_normalizeMaxResponseBytes v fallback =
     (let candidate = (case v of None \<Rightarrow> fallback | Some x \<Rightarrow> x)
      in case num_as_int candidate of
           Some i \<Rightarrow> (if \<not> isSafeInteger (JNum candidate) \<or> i \<le> 0
                     then Inl (Fetch_type_error ''maxResponseBytes must be a safe integer > 0'') else Inr i)
         | None \<Rightarrow> Inl (Fetch_type_error ''maxResponseBytes must be a safe integer > 0''))"

text \<open>\<open>given\<close> is the caller's dispatcher factory, when there is one; \<open>made\<close> is the one made otherwise.\<close>

definition new_fetch_client ::
  "dispatcher_factory option \<Rightarrow> dispatcher_factory \<Rightarrow> jsnum option \<Rightarrow> jsnum option \<Rightarrow> (fetch_error, fetch_client) result" where
  "new_fetch_client given made timeoutMs maxBytes =
     bind_result (fetch_normalizeTimeout timeoutMs DEFAULT_TIMEOUT_MS) (\<lambda>t.
     bind_result (fetch_normalizeMaxResponseBytes maxBytes DEFAULT_MAX_RESPONSE_BYTES) (\<lambda>m.
       Inr \<lparr>fc_factory = (case given of None \<Rightarrow> made | Some f \<Rightarrow> f), fc_owns = (given = None), fc_timeoutMs = t,
            fc_maxResponseBytes = m\<rparr>))"

definition createRequestInit :: "fetch_options \<Rightarrow> dispatcher_resolution \<Rightarrow> request_init" where
  "createRequestInit opts routing =
     (let base = (case fo_requestInit opts of None \<Rightarrow> [] | Some fs \<Rightarrow> fs);
          meth = (case fo_method opts of
                    Some m \<Rightarrow> JStr m
                  | None \<Rightarrow> (case prop_of base ''method'' of JUndef \<Rightarrow> JStr ''GET'' | JNull \<Rightarrow> JStr ''GET'' | v \<Rightarrow> v));
          f1 = mput base ''method'' meth;
          f2 = (if fo_headers opts \<noteq> JUndef then mput f1 ''headers'' (fo_headers opts) else f1);
          f3 = (if fo_body opts \<noteq> JUndef then mput f2 ''body'' (fo_body opts) else f2)
      in \<lparr>ri_fields = f3, ri_dispatcher = dr_dispatcher routing\<rparr>)"

definition fetch_parseContentLength :: "string option \<Rightarrow> int option" where
  "fetch_parseContentLength v =
     (case v of
        None \<Rightarrow> None
      | Some raw \<Rightarrow>
          (let trimmed = trim raw; parsed = digits_val 0 trimmed
           in if raw = [] \<or> \<not> all_digits trimmed then None
              else if parsed > max_safe_integer then None else Some parsed))"

definition isJsonMediaType :: "string option \<Rightarrow> bool" where
  "isJsonMediaType contentType =
     (case contentType of
        None \<Rightarrow> False
      | Some c \<Rightarrow>
          (let mediaType = toLowerCase (trim (takeWhile (\<lambda>x. x \<noteq> CHR '';'') c))
           in c \<noteq> [] \<and> mediaType \<noteq> [] \<and> (mediaType = ''application/json'' \<or> endsWith mediaType ''+json'')))"

section \<open>A call\<close>

record fetch_response =
  fr_status :: int
  fr_headers :: "(string \<times> string) list"
  fr_has_body :: bool

record fetch_result =
  fx_routing :: dispatcher_resolution
  fx_response :: fetch_response
  fx_body :: jsval
  fx_rawBody :: string

text \<open>The abort control: an armed timer, the listener on the caller's signal, and whether the timer has fired.\<close>

record abort_control =
  ab_timer :: bool
  ab_listener :: bool
  ab_didTimeout :: bool

definition createAbortControl :: "rat \<Rightarrow> bool \<Rightarrow> bool \<Rightarrow> abort_control" where
  "createAbortControl timeoutMs signal aborted =
     \<lparr>ab_timer = timeoutMs > 0, ab_listener = signal \<and> \<not> aborted, ab_didTimeout = False\<rparr>"

definition abort_cleanup :: "abort_control \<Rightarrow> abort_control" where
  "abort_cleanup a = a\<lparr>ab_timer := False, ab_listener := False\<rparr>"

record fetch_call =
  cl_target :: http_url
  cl_timeoutMs :: rat
  cl_maxBytes :: int
  cl_routing :: dispatcher_resolution

datatype fetch_phase =
    Fetching
  | Reading fetch_response int "nat list list"
  | Finished

record fetch_state =
  fs_phase :: fetch_phase
  fs_abort :: abort_control

datatype fetch_effect =
    Fetch_called http_url request_init
  | Signal_aborted
  | Reader_cancelled
  | Fetch_resolved fetch_result
  | Fetch_rejected fetch_error

datatype fetch_event =
    Got_response fetch_response
  | Got_failure jsval
  | Timer_fired
  | Caller_aborted
  | Read_chunk "nat list"
  | Read_nothing
  | Read_done
  | Read_failed jsval

text \<open>
  Up to the fetch: the checks, in the order of the code, the route, and the call. The first component is the client, whose
  dispatcher factory the resolution changes; \<open>None\<close> is a resolution that does not end.
\<close>

definition performFetch ::
  "full_url_parser \<Rightarrow> http_url \<Rightarrow> int \<Rightarrow> fetch_options \<Rightarrow> bool \<Rightarrow> fetch_client
   \<Rightarrow> (fetch_client \<times> dispatcher list \<times> (fetch_error, fetch_call \<times> fetch_state \<times> fetch_effect list) result) option" where
  "performFetch full u maxBytes opts aborted c =
     (case fetch_normalizeTimeout (fo_timeoutMs opts) (Fin (fc_timeoutMs c)) of
        Inl e \<Rightarrow> Some (c, [], Inl e)
      | Inr t \<Rightarrow>
          (case dispatcher_resolve full (js_url.truncate u) (fc_factory c) of
             None \<Rightarrow> None
           | Some (f, shut, Inl e) \<Rightarrow> Some (c\<lparr>fc_factory := f\<rparr>, shut, Inl (Routing_error e))
           | Some (f, shut, Inr routing) \<Rightarrow>
               Some (c\<lparr>fc_factory := f\<rparr>, shut,
                 Inr (\<lparr>cl_target = u, cl_timeoutMs = t, cl_maxBytes = maxBytes, cl_routing = routing\<rparr>,
                      \<lparr>fs_phase = Fetching, fs_abort = createAbortControl t (fo_signal opts) aborted\<rparr>,
                      (if fo_signal opts \<and> aborted then [Signal_aborted] else [])
                        @ [Fetch_called u (createRequestInit opts routing)]))))"

definition fetchJson_start ::
  "full_url_parser \<Rightarrow> (string \<Rightarrow> http_url option) \<Rightarrow> fetch_target \<Rightarrow> fetch_options \<Rightarrow> bool \<Rightarrow> fetch_client
   \<Rightarrow> (fetch_client \<times> dispatcher list \<times> (fetch_error, fetch_call \<times> fetch_state \<times> fetch_effect list) result) option" where
  "fetchJson_start full url target opts aborted c =
     (case fetch_parseTargetUrl url target of
        Inl e \<Rightarrow> Some (c, [], Inl e)
      | Inr u \<Rightarrow>
          (case fetch_normalizeMaxResponseBytes (fo_maxResponseBytes opts) (Fin (of_int (fc_maxResponseBytes c))) of
             Inl e \<Rightarrow> Some (c, [], Inl e)
           | Inr m \<Rightarrow> performFetch full u m opts aborted c))"

text \<open>After the last chunk: an empty body is null, any other has to be JSON by its media type and by its text.\<close>

definition finish_json :: "http_platform \<Rightarrow> fetch_call \<Rightarrow> fetch_response \<Rightarrow> string \<Rightarrow> (fetch_error, fetch_result) result" where
  "finish_json p cl r rawBody =
     (let contentType = map_of (fr_headers r) ''content-type''; href = u_href (cl_target cl)
      in if rawBody = [] then Inr \<lparr>fx_routing = cl_routing cl, fx_response = r, fx_body = JNull, fx_rawBody = rawBody\<rparr>
         else if \<not> isJsonMediaType contentType
         then Inl (NonJsonResponseError href (fr_status r) contentType rawBody ''invalid_content_type'')
         else case hp_parse p rawBody of
                None \<Rightarrow> Inl (NonJsonResponseError href (fr_status r) contentType rawBody ''invalid_json'')
              | Some body \<Rightarrow> Inr \<lparr>fx_routing = cl_routing cl, fx_response = r, fx_body = body, fx_rawBody = rawBody\<rparr>)"

definition settle_fetch :: "fetch_state \<Rightarrow> (fetch_error, fetch_result) result \<Rightarrow> fetch_state \<times> fetch_effect list" where
  "settle_fetch x r = (x\<lparr>fs_phase := Finished\<rparr>, [case r of Inl e \<Rightarrow> Fetch_rejected e | Inr v \<Rightarrow> Fetch_resolved v])"

definition begin_reading :: "http_platform \<Rightarrow> fetch_call \<Rightarrow> fetch_response \<Rightarrow> fetch_state \<Rightarrow> fetch_state \<times> fetch_effect list" where
  "begin_reading p cl r x =
     (let too_long = (case fetch_parseContentLength (map_of (fr_headers r) ''content-length'') of
                        Some declared \<Rightarrow> (if declared > cl_maxBytes cl then Some declared else None)
                      | None \<Rightarrow> None)
      in case too_long of
           Some declared \<Rightarrow> settle_fetch x (Inl (Fetch_size_error (u_href (cl_target cl)) (fr_status r) (cl_maxBytes cl) declared))
         | None \<Rightarrow>
             (if \<not> fr_has_body r then settle_fetch x (finish_json p cl r [])
              else (x\<lparr>fs_phase := Reading r 0 []\<rparr>, [])))"

definition read_chunk :: "fetch_call \<Rightarrow> fetch_response \<Rightarrow> int \<Rightarrow> nat list list \<Rightarrow> nat list \<Rightarrow> fetch_state \<Rightarrow> fetch_state \<times> fetch_effect list" where
  "read_chunk cl r receivedBytes chunks chunk x =
     (let n = receivedBytes + int (length chunk)
      in if n > cl_maxBytes cl
         then (let (x1, fx) = settle_fetch x (Inl (Fetch_size_error (u_href (cl_target cl)) (fr_status r) (cl_maxBytes cl) n))
               in (x1, Reader_cancelled # fx))
         else (x\<lparr>fs_phase := Reading r n (chunks @ [chunk])\<rparr>, []))"

text \<open>One event. \<open>performFetch\<close> cleans its abort control up as soon as the fetch implementation returns or throws.\<close>

definition fetch_handle :: "http_platform \<Rightarrow> fetch_call \<Rightarrow> fetch_state \<Rightarrow> fetch_event \<Rightarrow> fetch_state \<times> fetch_effect list" where
  "fetch_handle p cl x e =
     (case e of
        Timer_fired \<Rightarrow>
          (if ab_timer (fs_abort x)
           then (x\<lparr>fs_abort := (fs_abort x)\<lparr>ab_timer := False, ab_didTimeout := True\<rparr>\<rparr>, [Signal_aborted]) else (x, []))
      | Caller_aborted \<Rightarrow>
          (if ab_listener (fs_abort x) then (x\<lparr>fs_abort := (fs_abort x)\<lparr>ab_listener := False\<rparr>\<rparr>, [Signal_aborted]) else (x, []))
      | _ \<Rightarrow>
          (case fs_phase x of
             Fetching \<Rightarrow>
               (let x1 = x\<lparr>fs_abort := abort_cleanup (fs_abort x)\<rparr>
                in case e of
                     Got_response r \<Rightarrow> begin_reading p cl r x1
                   | Got_failure v \<Rightarrow>
                       settle_fetch x1 (Inl (if ab_didTimeout (fs_abort x)
                                             then Fetch_timeout_error (u_href (cl_target cl)) (cl_timeoutMs cl) else Foreign_error v))
                   | _ \<Rightarrow> (x, []))
           | Reading r receivedBytes chunks \<Rightarrow>
               (case e of
                  Read_chunk chunk \<Rightarrow> read_chunk cl r receivedBytes chunks chunk x
                | Read_done \<Rightarrow> settle_fetch x (finish_json p cl r (hp_utf8 p (concat chunks)))
                | Read_failed v \<Rightarrow> (let (x1, fx) = settle_fetch x (Inl (Foreign_error v)) in (x1, Reader_cancelled # fx))
                | _ \<Rightarrow> (x, []))
           | Finished \<Rightarrow> (x, [])))"

definition fetch_client_destroy :: "fetch_client \<Rightarrow> fetch_client \<times> dispatcher list" where
  "fetch_client_destroy c =
     (if fc_owns c then (let (f, shut) = dispatcher_destroy (fc_factory c) in (c\<lparr>fc_factory := f\<rparr>, shut)) else (c, []))"

definition fetch_client_updateSettings :: "proxy_settings \<Rightarrow> fetch_client \<Rightarrow> fetch_client \<times> dispatcher list" where
  "fetch_client_updateSettings st c = (let (f, shut) = dispatcher_updateSettings st (fc_factory c) in (c\<lparr>fc_factory := f\<rparr>, shut))"

definition fetch_client_reload :: "full_url_parser \<Rightarrow> environment \<Rightarrow> fetch_client \<Rightarrow> fetch_client \<times> dispatcher list" where
  "fetch_client_reload full env c = (let (f, shut) = dispatcher_reload full env (fc_factory c) in (c\<lparr>fc_factory := f\<rparr>, shut))"

section \<open>What a call guarantees\<close>

fun fetch_settled :: "fetch_effect \<Rightarrow> bool" where
  "fetch_settled (Fetch_resolved v) = True"
| "fetch_settled (Fetch_rejected e) = True"
| "fetch_settled _ = False"

fun answers_fetch :: "fetch_event \<Rightarrow> bool" where
  "answers_fetch (Got_response r) = True"
| "answers_fetch (Got_failure v) = True"
| "answers_fetch _ = False"

fun chunk_of :: "fetch_event \<Rightarrow> nat list" where
  "chunk_of (Read_chunk chunk) = chunk"
| "chunk_of _ = []"

definition read_bytes :: "fetch_event list \<Rightarrow> nat list" where
  "read_bytes es = concat (map chunk_of es)"

text \<open>The response the fetch was answered with, and the bytes read since.\<close>

definition body_since :: "fetch_response \<Rightarrow> fetch_event list \<Rightarrow> nat list \<Rightarrow> bool" where
  "body_since r es bs \<longleftrightarrow>
     (\<exists>es1 es2. es = es1 @ Got_response r # es2 \<and> \<not> list_ex answers_fetch es1 \<and> bs = read_bytes es2)"

lemma body_since_start: "\<not> list_ex answers_fetch es \<Longrightarrow> body_since r (es @ [Got_response r]) []"
  unfolding body_since_def by (intro exI [of _ es] exI [of _ "[]"]) (simp add: read_bytes_def)

lemma body_since_snoc:
  assumes "body_since r es bs"
  shows "body_since r (es @ [e]) (bs @ chunk_of e)"
proof -
  obtain es1 es2 where "es = es1 @ Got_response r # es2" "\<not> list_ex answers_fetch es1" "bs = read_bytes es2"
    using assms by (auto simp: body_since_def)
  then have "es @ [e] = es1 @ Got_response r # (es2 @ [e])" "\<not> list_ex answers_fetch es1" "bs @ chunk_of e = read_bytes (es2 @ [e])"
    by (simp_all add: read_bytes_def)
  then show ?thesis unfolding body_since_def by blast
qed

text \<open>What the events so far say of the state, and what they have to be for a result to be the right one.\<close>

definition fetch_history :: "fetch_call \<Rightarrow> fetch_event list \<Rightarrow> fetch_state \<Rightarrow> bool" where
  "fetch_history cl es x \<longleftrightarrow> (ab_didTimeout (fs_abort x) \<longrightarrow> Timer_fired \<in> set es)
     \<and> (fs_phase x \<noteq> Fetching \<longrightarrow> \<not> ab_timer (fs_abort x) \<and> \<not> ab_listener (fs_abort x))
     \<and> (case fs_phase x of
          Fetching \<Rightarrow> \<not> list_ex answers_fetch es
        | Reading r n chunks \<Rightarrow> fr_has_body r \<and> n = int (length (concat chunks)) \<and> n \<le> cl_maxBytes cl
            \<and> body_since r es (concat chunks)
        | Finished \<Rightarrow> True)"

definition result_explained :: "http_platform \<Rightarrow> fetch_call \<Rightarrow> fetch_event list \<Rightarrow> fetch_result \<Rightarrow> bool" where
  "result_explained p cl es v \<longleftrightarrow> fx_routing v = cl_routing cl
     \<and> (if fx_rawBody v = [] then fx_body v = JNull
        else isJsonMediaType (map_of (fr_headers (fx_response v)) ''content-type'') \<and> hp_parse p (fx_rawBody v) = Some (fx_body v))
     \<and> (if fr_has_body (fx_response v)
        then \<exists>es1 es2 bs. es = es1 @ Read_done # es2 \<and> body_since (fx_response v) es1 bs
               \<and> int (length bs) \<le> cl_maxBytes cl \<and> fx_rawBody v = hp_utf8 p bs
        else fx_rawBody v = [] \<and> (\<exists>bs. body_since (fx_response v) es bs))"

lemma result_explained_snoc:
  assumes "result_explained p cl es v"
  shows "result_explained p cl (es @ [e]) v"
proof (cases "fr_has_body (fx_response v)")
  case True
  then obtain es1 es2 bs where "es = es1 @ Read_done # es2" "body_since (fx_response v) es1 bs"
      "int (length bs) \<le> cl_maxBytes cl" "fx_rawBody v = hp_utf8 p bs"
    using assms by (auto simp: result_explained_def)
  then have "\<exists>es1 es2 bs. es @ [e] = es1 @ Read_done # es2 \<and> body_since (fx_response v) es1 bs
      \<and> int (length bs) \<le> cl_maxBytes cl \<and> fx_rawBody v = hp_utf8 p bs"
    by (intro exI [of _ es1] exI [of _ "es2 @ [e]"] exI [of _ bs]) simp
  then show ?thesis using assms True by (simp add: result_explained_def)
next
  case False
  then have "\<exists>bs. body_since (fx_response v) (es @ [e]) bs"
    using assms by (auto simp: result_explained_def intro: body_since_snoc)
  then show ?thesis using assms False by (simp add: result_explained_def)
qed

definition fetch_step_ok :: "http_platform \<Rightarrow> fetch_call \<Rightarrow> fetch_event list \<Rightarrow> fetch_state \<Rightarrow> fetch_state \<times> fetch_effect list \<Rightarrow> bool" where
  "fetch_step_ok p cl es x st \<longleftrightarrow> fetch_history cl es (fst st)
     \<and> tally fetch_settled (snd st) + of_bool (fs_phase x = Finished) = of_bool (fs_phase (fst st) = Finished)
     \<and> (\<forall>v. Fetch_resolved v \<in> set (snd st) \<longrightarrow> result_explained p cl es v)
     \<and> (\<forall>h t. Fetch_rejected (Fetch_timeout_error h t) \<in> set (snd st) \<longrightarrow> Timer_fired \<in> set es \<and> t = cl_timeoutMs cl)"

lemma finish_json_result:
  "finish_json p cl r raw = Inr v \<Longrightarrow> fx_routing v = cl_routing cl \<and> fx_response v = r \<and> fx_rawBody v = raw
     \<and> (if raw = [] then fx_body v = JNull
        else isJsonMediaType (map_of (fr_headers r) ''content-type'') \<and> hp_parse p raw = Some (fx_body v))"
  "finish_json p cl r raw \<noteq> Inl (Fetch_timeout_error h t)"
  by (auto simp: finish_json_def Let_def split: if_splits option.splits)

lemma history_idle:
  assumes "fetch_history cl es x" "fs_phase x = Fetching \<longrightarrow> \<not> answers_fetch e" "fs_phase x = Finished \<or> chunk_of e = [] \<or> fs_phase x = Fetching"
  shows "fetch_step_ok p cl (es @ [e]) x (x, [])"
proof (cases "fs_phase x")
  case (Reading r n chunks)
  then have "body_since r (es @ [e]) (concat chunks)"
    using assms body_since_snoc [of r es "concat chunks" e] by (auto simp: fetch_history_def)
  then show ?thesis using assms Reading by (auto simp: fetch_step_ok_def fetch_history_def)
qed (use assms in \<open>auto simp: fetch_step_ok_def fetch_history_def\<close>)

lemma history_signal:
  assumes "fetch_history cl es x" "e = Timer_fired \<or> e = Caller_aborted" "fx = [] \<or> fx = [Signal_aborted]"
    "fs_phase y = fs_phase x" "ab_didTimeout (fs_abort y) \<longrightarrow> e = Timer_fired \<or> ab_didTimeout (fs_abort x)"
    "ab_timer (fs_abort y) \<longrightarrow> ab_timer (fs_abort x)" "ab_listener (fs_abort y) \<longrightarrow> ab_listener (fs_abort x)"
  shows "fetch_step_ok p cl (es @ [e]) x (y, fx)"
proof -
  have "fetch_history cl (es @ [e]) x" using history_idle [of cl es x e p] assms(1,2) by (auto simp: fetch_step_ok_def)
  then have "fetch_history cl (es @ [e]) y" using assms unfolding fetch_history_def by auto
  then show ?thesis using assms(3,4) by (auto simp: fetch_step_ok_def)
qed

lemma settle_step_ok:
  assumes "fs_phase x \<noteq> Finished" "\<not> ab_timer (fs_abort y)" "\<not> ab_listener (fs_abort y)"
    "ab_didTimeout (fs_abort y) \<longrightarrow> Timer_fired \<in> set es"
    "\<And>v. r = Inr v \<Longrightarrow> result_explained p cl es v"
    "\<And>h t. r = Inl (Fetch_timeout_error h t) \<Longrightarrow> Timer_fired \<in> set es \<and> t = cl_timeoutMs cl"
  shows "fetch_step_ok p cl es x (settle_fetch y r)"
    "settle_fetch y r = (y', fx) \<Longrightarrow> fetch_step_ok p cl es x (y', Reader_cancelled # fx)"
  using assms by (auto simp: settle_fetch_def fetch_step_ok_def fetch_history_def split: sum.splits)

lemma begin_reading_ok:
  assumes "fetch_history cl es x" "fs_phase x = Fetching" "0 \<le> cl_maxBytes cl"
  shows "fetch_step_ok p cl (es @ [Got_response r]) x (begin_reading p cl r (x\<lparr>fs_abort := abort_cleanup (fs_abort x)\<rparr>))"
proof -
  let ?y = "x\<lparr>fs_abort := abort_cleanup (fs_abort x)\<rparr>" and ?es = "es @ [Got_response r]"
  have x: "fs_phase x \<noteq> Finished" "\<not> ab_timer (fs_abort ?y)" "\<not> ab_listener (fs_abort ?y)"
      "ab_didTimeout (fs_abort ?y) \<longrightarrow> Timer_fired \<in> set ?es"
    and since: "body_since r ?es []"
    using assms body_since_start [of es r] by (auto simp: abort_cleanup_def fetch_history_def)
  have early: "fetch_step_ok p cl ?es x (settle_fetch ?y (Inl (Fetch_size_error a b c d)))" for a b c d
    by (rule settle_step_ok(1) [OF x]) auto
  have nobody: "fetch_step_ok p cl ?es x (settle_fetch ?y (finish_json p cl r []))" if "\<not> fr_has_body r"
  proof (rule settle_step_ok(1) [OF x])
    show "result_explained p cl ?es v" if "finish_json p cl r [] = Inr v" for v
      using finish_json_result(1) [OF that] \<open>\<not> fr_has_body r\<close> since by (auto simp: result_explained_def)
  qed (use finish_json_result(2) in auto)
  have reading: "fetch_step_ok p cl ?es x (?y\<lparr>fs_phase := Reading r 0 []\<rparr>, [])" if "fr_has_body r"
    using that x since assms(3) by (auto simp: fetch_step_ok_def fetch_history_def)
  show ?thesis using early nobody reading by (simp add: begin_reading_def Let_def split: option.split)
qed

lemma reading_ok:
  assumes h: "fetch_history cl es x" and ph: "fs_phase x = Reading r n chunks"
  shows "fetch_step_ok p cl (es @ [Read_chunk chunk]) x (read_chunk cl r n chunks chunk x)"
    "fetch_step_ok p cl (es @ [Read_done]) x (settle_fetch x (finish_json p cl r (hp_utf8 p (concat chunks))))"
    "settle_fetch x (Inl (Foreign_error v)) = (x1, fx) \<Longrightarrow> fetch_step_ok p cl (es @ [Read_failed v]) x (x1, Reader_cancelled # fx)"
proof -
  have x: "fs_phase x \<noteq> Finished" "\<not> ab_timer (fs_abort x)" "\<not> ab_listener (fs_abort x)"
      "ab_didTimeout (fs_abort x) \<longrightarrow> Timer_fired \<in> set (es @ [e])" for e
    using h ph by (auto simp: fetch_history_def)
  have r: "fr_has_body r" "n = int (length (concat chunks))" "n \<le> cl_maxBytes cl" "body_since r es (concat chunks)"
    using h ph by (auto simp: fetch_history_def)
  have big: "settle_fetch x (Inl (Fetch_size_error a b c d)) = (y, fx) \<Longrightarrow>
      fetch_step_ok p cl (es @ [Read_chunk chunk]) x (y, Reader_cancelled # fx)" for a b c d y fx
    by (rule settle_step_ok(2) [OF x]) auto
  have "body_since r (es @ [Read_chunk chunk]) (concat (chunks @ [chunk]))"
    using body_since_snoc [OF r(4), of "Read_chunk chunk"] by simp
  then have fits: "fetch_step_ok p cl (es @ [Read_chunk chunk]) x (x\<lparr>fs_phase := Reading r (n + int (length chunk)) (chunks @ [chunk])\<rparr>, [])"
    if "n + int (length chunk) \<le> cl_maxBytes cl"
    using that x r by (auto simp: fetch_step_ok_def fetch_history_def)
  show "fetch_step_ok p cl (es @ [Read_chunk chunk]) x (read_chunk cl r n chunks chunk x)"
    using big fits by (simp add: read_chunk_def Let_def split: prod.split)
  show "fetch_step_ok p cl (es @ [Read_done]) x (settle_fetch x (finish_json p cl r (hp_utf8 p (concat chunks))))"
  proof (rule settle_step_ok(1) [OF x])
    show "result_explained p cl (es @ [Read_done]) v" if "finish_json p cl r (hp_utf8 p (concat chunks)) = Inr v" for v
    proof -
      have "\<exists>es1 es2 bs. es @ [Read_done] = es1 @ Read_done # es2 \<and> body_since r es1 bs
          \<and> int (length bs) \<le> cl_maxBytes cl \<and> hp_utf8 p (concat chunks) = hp_utf8 p bs"
        using r by (intro exI [of _ es] exI [of _ "[]"] exI [of _ "concat chunks"]) simp
      then show ?thesis using finish_json_result(1) [OF that] r(1) by (simp add: result_explained_def)
    qed
  qed (use finish_json_result(2) in auto)
  show "settle_fetch x (Inl (Foreign_error v)) = (x1, fx) \<Longrightarrow> fetch_step_ok p cl (es @ [Read_failed v]) x (x1, Reader_cancelled # fx)"
    by (rule settle_step_ok(2) [OF x]) auto
qed

lemma fetch_handle_ok:
  assumes "fetch_history cl es x" "0 \<le> cl_maxBytes cl"
  shows "fetch_step_ok p cl (es @ [e]) x (fetch_handle p cl x e)"
proof (cases "e = Timer_fired \<or> e = Caller_aborted")
  case True
  then show ?thesis by (auto simp: fetch_handle_def intro!: history_signal [OF assms(1)])
next
  case False
  have failed: "fetch_step_ok p cl (es @ [Got_failure v]) x
      (settle_fetch (x\<lparr>fs_abort := abort_cleanup (fs_abort x)\<rparr>) (Inl (if ab_didTimeout (fs_abort x)
         then Fetch_timeout_error (u_href (cl_target cl)) (cl_timeoutMs cl) else Foreign_error v)))" if "fs_phase x = Fetching" for v
    by (rule settle_step_ok(1)) (use that assms(1) in \<open>auto simp: abort_cleanup_def fetch_history_def split: if_splits\<close>)
  show ?thesis
    using False history_idle [OF assms(1), of e p] begin_reading_ok [OF assms(1) _ assms(2)] reading_ok [OF assms(1)] failed
    by (cases "fs_phase x"; cases e) (simp_all add: fetch_handle_def Let_def split: prod.split)
qed

lemma fetchJson_started:
  assumes "fetchJson_start full url target opts aborted c = Some (c', shut, Inr (cl, x, fx))"
  shows "fs_phase x = Fetching" "\<not> ab_didTimeout (fs_abort x)" "0 < cl_maxBytes cl" "tally fetch_settled fx = 0"
    "\<exists>init. Fetch_called (cl_target cl) init \<in> set fx \<and> ri_dispatcher init = dr_dispatcher (cl_routing cl)"
    "ab_timer (fs_abort x) = (0 < cl_timeoutMs cl)"
proof -
  obtain u where u: "fetch_parseTargetUrl url target = Inr u" using assms by (auto simp: fetchJson_start_def split: sum.splits)
  then obtain m where m: "fetch_normalizeMaxResponseBytes (fo_maxResponseBytes opts) (Fin (of_int (fc_maxResponseBytes c))) = Inr m"
    and pf: "performFetch full u m opts aborted c = Some (c', shut, Inr (cl, x, fx))"
    using assms by (auto simp: fetchJson_start_def split: sum.splits)
  have "0 < m" using m by (auto simp: fetch_normalizeMaxResponseBytes_def Let_def split: option.splits if_splits)
  obtain t where t: "fetch_normalizeTimeout (fo_timeoutMs opts) (Fin (fc_timeoutMs c)) = Inr t"
    using pf by (auto simp: performFetch_def split: sum.splits)
  obtain routing where
    "cl = \<lparr>cl_target = u, cl_timeoutMs = t, cl_maxBytes = m, cl_routing = routing\<rparr>"
    "x = \<lparr>fs_phase = Fetching, fs_abort = createAbortControl t (fo_signal opts) aborted\<rparr>"
    "fx = (if fo_signal opts \<and> aborted then [Signal_aborted] else []) @ [Fetch_called u (createRequestInit opts routing)]"
    using pf t by (auto simp: performFetch_def split: option.splits sum.splits)
  then show "fs_phase x = Fetching" "\<not> ab_didTimeout (fs_abort x)" "0 < cl_maxBytes cl" "tally fetch_settled fx = 0"
    "\<exists>init. Fetch_called (cl_target cl) init \<in> set fx \<and> ri_dispatcher init = dr_dispatcher (cl_routing cl)"
    "ab_timer (fs_abort x) = (0 < cl_timeoutMs cl)"
    using \<open>0 < m\<close> by (simp_all add: createAbortControl_def createRequestInit_def Let_def)
qed

lemma fetch_run_ok:
  assumes "fetch_history cl [] x0" "fs_phase x0 = Fetching" "0 \<le> cl_maxBytes cl"
  shows "run_steps (fetch_handle p cl) x0 es = (x, fx) \<Longrightarrow> fetch_step_ok p cl es x0 (x, fx)"
proof (induction es arbitrary: x fx rule: rev_induct)
  case Nil
  then show ?case using assms by (auto simp: fetch_step_ok_def)
next
  case (snoc e es)
  obtain x1 fx1 where r1: "run_steps (fetch_handle p cl) x0 es = (x1, fx1)" by (cases "run_steps (fetch_handle p cl) x0 es")
  obtain x2 fx2 where st: "fetch_handle p cl x1 e = (x2, fx2)" by (cases "fetch_handle p cl x1 e")
  have out: "x = x2" "fx = fx1 @ fx2" using snoc.prems r1 st by (simp_all add: run_steps_snoc)
  have IH: "fetch_step_ok p cl es x0 (x1, fx1)" by (rule snoc.IH [OF r1])
  then have "fetch_history cl es x1" by (simp add: fetch_step_ok_def)
  from fetch_handle_ok [OF this assms(3), of p e] IH show ?case
    unfolding st out fetch_step_ok_def using result_explained_snoc by auto
qed

text \<open>
  C20: a JSON fetch settles once, within its size limit, with what was received. Once the checks have passed, the fetch
  implementation is called with the dispatcher of the reported route. Then, whatever the order of the response, the chunks,
  the timer and the caller's abort signal, the promise is settled at most once; when it is settled the timer and the
  abort listener are gone. A resolved result has the response the fetch was answered with and the text of exactly the
  bytes read before the end of its body, at most \<open>maxResponseBytes\<close> of them, and a text that is not empty is JSON by its
  media type and parses to the reported body. The timeout error is reported only after the timer has fired.
\<close>

theorem fetch_json_contract:
  assumes "fetchJson_start full url target opts aborted c = Some (c', shut, Inr (cl, x0, fx0))"
    and "run_steps (fetch_handle p cl) x0 es = (x, fx)"
  shows "(\<exists>init. Fetch_called (cl_target cl) init \<in> set fx0 \<and> ri_dispatcher init = dr_dispatcher (cl_routing cl))
     \<and> tally fetch_settled (fx0 @ fx) = of_bool (fs_phase x = Finished)
     \<and> (fs_phase x = Finished \<longrightarrow> \<not> ab_timer (fs_abort x) \<and> \<not> ab_listener (fs_abort x))
     \<and> (\<forall>v. Fetch_resolved v \<in> set fx \<longrightarrow> result_explained p cl es v)
     \<and> (\<forall>h t. Fetch_rejected (Fetch_timeout_error h t) \<in> set fx \<longrightarrow> Timer_fired \<in> set es \<and> t = cl_timeoutMs cl)"
proof -
  note start = fetchJson_started [OF assms(1)]
  have "fetch_step_ok p cl es x0 (x, fx)"
    by (rule fetch_run_ok [OF _ start(1) _ assms(2)]) (use start in \<open>auto simp: fetch_history_def\<close>)
  then show ?thesis using start by (auto simp: fetch_step_ok_def fetch_history_def)
qed

text \<open>The timer only covers the wait for the headers: while the body is read neither it nor the caller's signal does anything.\<close>

theorem reading_has_no_timeout:
  assumes "fetch_history cl es x" "fs_phase x = Reading r n chunks"
  shows "fetch_handle p cl x Timer_fired = (x, [])" "fetch_handle p cl x Caller_aborted = (x, [])"
  using assms by (simp_all add: fetch_history_def fetch_handle_def)

definition demo_fetch_url :: "string \<Rightarrow> http_url option" where
  "demo_fetch_url t = (if t = ''https://api.example/''
     then Some \<lparr>u_protocol = ''https:'', u_hostname = ''api.example'', u_port = [], u_href = t, u_pathname = ''/'', u_search = []\<rparr>
     else None)"

definition demo_fetch_client :: fetch_client where
  "demo_fetch_client = \<lparr>fc_factory = new_dispatcher_factory demo_dispatch_settings None None None, fc_owns = True,
     fc_timeoutMs = 8000, fc_maxResponseBytes = 1048576\<rparr>"

definition demo_fetch_options :: fetch_options where
  "demo_fetch_options = \<lparr>fo_method = None, fo_headers = JUndef, fo_body = JUndef, fo_timeoutMs = None, fo_signal = True,
     fo_requestInit = None, fo_maxResponseBytes = Some (Fin 4)\<rparr>"

definition demo_fetch_events :: "fetch_event list" where
  "demo_fetch_events = [Got_response \<lparr>fr_status = 200, fr_headers = [(''content-type'', ''application/json; charset=utf-8'')],
     fr_has_body = True\<rparr>, Read_chunk [123], Read_nothing, Timer_fired, Read_chunk [125], Read_done]"

theorem fetch_json_contract_witness:
  "\<exists>c' shut cl x0 fx0. fetchJson_start demo_dispatch_url demo_fetch_url (Url_text ''https://api.example/'') demo_fetch_options False
       demo_fetch_client = Some (c', shut, Inr (cl, x0, fx0))
     \<and> tally fetch_settled (fx0 @ snd (run_steps (fetch_handle demo_http cl) x0 demo_fetch_events))
         = of_bool (fs_phase (fst (run_steps (fetch_handle demo_http cl) x0 demo_fetch_events)) = Finished)
     \<and> fs_phase (fst (run_steps (fetch_handle demo_http cl) x0 demo_fetch_events)) = Finished
     \<and> cl_maxBytes cl = 4"
proof -
  let ?s = "fetchJson_start demo_dispatch_url demo_fetch_url (Url_text ''https://api.example/'') demo_fetch_options False demo_fetch_client"
  have some: "?s \<noteq> None" "\<not> isl (snd (snd (the ?s)))" by code_simp+
  then obtain c' shut cl x0 fx0 where s: "?s = Some (c', shut, Inr (cl, x0, fx0))"
    by (metis isl_def option.collapse prod.collapse sum.exhaust_sel surjective_pairing sum.collapse(2))
  have "fs_phase (fst (run_steps (fetch_handle demo_http (fst (projr (snd (snd (the ?s)))))) (fst (snd (projr (snd (snd (the ?s)))))) demo_fetch_events)) = Finished"
    "cl_maxBytes (fst (projr (snd (snd (the ?s))))) = 4" by code_simp+
  then have "fs_phase (fst (run_steps (fetch_handle demo_http cl) x0 demo_fetch_events)) = Finished" "cl_maxBytes cl = 4"
    by (simp_all add: s)
  then show ?thesis
    using s fetch_json_contract [OF s, of demo_http demo_fetch_events] by (metis prod.collapse)
qed

end
