(* ===== verification/Relay_Options.thy ===== *)
theory Relay_Options
  imports Config
begin

text \<open>
  The options of the relay proxy, \<^verbatim>\<open>packages/commandrelay-relay-proxy/src/index.ts\<close>: the parsers of its
  environment, \<open>normalizeRelayOptions\<close> and the normalisation that \<open>createRelayProxyServer\<close> applies
  again. Two services are parameters: \<open>url\<close>, the parser behind \<open>new URL\<close>, gives the scheme and the
  serialised form or nothing; \<open>read_file\<close> gives the content of a file or the message of the failure. TLS
  material is a list of byte buffers, one for a single file.
\<close>

type_synonym url_parser = "string \<Rightarrow> (string \<times> string) option"
type_synonym file_reader = "string \<Rightarrow> (string, nat list) result"
type_synonym tls_material = "nat list list"

section \<open>Data\<close>

record relay_tls =
  tls_rejectUnauthorized :: bool
  tls_ca :: "tls_material option"
  tls_cert :: "tls_material option"
  tls_key :: "tls_material option"
  tls_pfx :: "tls_material option"
  tls_passphrase :: "string option"
  tls_servername :: "string option"
  tls_minVersion :: "string option"
  tls_maxVersion :: "string option"

datatype comma_value = CommaNone | CommaText string | CommaList "string list"

record relay_options =
  ro_listenHost :: string
  ro_listenPort :: jsnum
  ro_relayPath :: string
  ro_healthPath :: string
  ro_upstreamUrl :: string
  ro_upstreamTls :: "relay_tls option"
  ro_upstreamSubprotocols :: comma_value
  ro_allowedOrigins :: "string list option"
  ro_requiredToken :: "string option"
  ro_upstreamTlsWatchIntervalMs :: jsval
  ro_upstreamTlsRestartOnChange :: jsval
  ro_upstreamTlsSourcePaths :: "string list option"
  ro_maxConnections :: jsnum
  ro_idleTimeoutMs :: jsnum
  ro_shutdownTimeoutMs :: jsnum

record parsed_env =
  pe_listenHost :: string
  pe_listenPort :: int
  pe_relayPath :: string
  pe_healthPath :: string
  pe_upstreamUrl :: string
  pe_upstreamTlsRejectUnauthorized :: string
  pe_upstreamTlsCaFile :: string
  pe_upstreamTlsCertFile :: string
  pe_upstreamTlsKeyFile :: string
  pe_upstreamTlsPfxFile :: string
  pe_upstreamTlsPassphrase :: string
  pe_upstreamTlsServername :: string
  pe_upstreamTlsMinVersion :: string
  pe_upstreamTlsMaxVersion :: string
  pe_upstreamTlsWatchIntervalMs :: int
  pe_upstreamTlsRestartOnChange :: string
  pe_maxConnections :: int
  pe_idleTimeoutMs :: int
  pe_shutdownTimeoutMs :: int
  pe_requiredToken :: string
  pe_allowedOrigins :: string
  pe_upstreamSubprotocols :: string

text \<open>\<open>Required<RelayProxyOptions>\<close>, the options after \<open>normalizeRuntimeOptions\<close>.\<close>

record runtime_options =
  listenHost :: string
  listenPort :: jsnum
  relayPath :: string
  healthPath :: string
  upstreamUrl :: string
  upstreamTls :: relay_tls
  upstreamSubprotocols :: "string list"
  allowedOrigins :: "string list"
  requiredToken :: string
  upstreamTlsWatchIntervalMs :: int
  upstreamTlsRestartOnChange :: bool
  upstreamTlsSourcePaths :: "string list"
  maxConnections :: jsnum
  idleTimeoutMs :: jsnum
  shutdownTimeoutMs :: jsnum

datatype relay_values = EnvValues parsed_env | OptionValues relay_options

section \<open>Parsers\<close>

definition parseNonNegativeInteger :: "string \<Rightarrow> int \<Rightarrow> int" where
  "parseNonNegativeInteger value fallback =
     (let t = trim value
      in if \<not> strict_int_text t then fallback
         else case parseInt t of Fin q \<Rightarrow> (if \<lfloor>q\<rfloor> < 0 then fallback else \<lfloor>q\<rfloor>) | _ \<Rightarrow> fallback)"

definition parseBoundedInteger :: "string option \<Rightarrow> int \<Rightarrow> int \<Rightarrow> int \<Rightarrow> int" where
  "parseBoundedInteger value fallback lo hi =
     (let t = trim (case value of None \<Rightarrow> [] | Some v \<Rightarrow> v)
      in if \<not> strict_int_text t then fallback
         else case parseInt t of Fin q \<Rightarrow> (if \<lfloor>q\<rfloor> < lo \<or> \<lfloor>q\<rfloor> > hi then fallback else \<lfloor>q\<rfloor>) | _ \<Rightarrow> fallback)"

definition parseBoolean :: "string \<Rightarrow> bool \<Rightarrow> (jsval, bool) result" where
  "parseBoolean raw fallback =
     (let v = toLowerCase (trim raw)
      in if v = [] then Inr fallback
         else if v \<in> set [''1'', ''true'', ''yes'', ''on''] then Inr True
         else if v \<in> set [''0'', ''false'', ''no'', ''off''] then Inr False
         else Inl (err (''invalid boolean value: '' @ raw)))"

fun splitCommaList :: "comma_value \<Rightarrow> string list" where
  "splitCommaList (CommaList xs) = filter (\<lambda>e. e \<noteq> []) (map trim xs)"
| "splitCommaList CommaNone = []"
| "splitCommaList (CommaText s) = (if s = [] then [] else filter (\<lambda>e. e \<noteq> []) (map trim (split_on CHR '','' s)))"

definition is_slash :: "char \<Rightarrow> bool" where
  "is_slash c \<longleftrightarrow> c = CHR ''/''"

definition normalizePath :: "string option \<Rightarrow> string \<Rightarrow> string" where
  "normalizePath raw fallback =
     (let candidate = (case raw of None \<Rightarrow> [] | Some r \<Rightarrow> trim r)
      in if candidate = [] \<or> candidate = ''/'' then fallback
         else CHR ''/'' # rev (dropWhile is_slash (rev (dropWhile is_slash candidate))))"

definition normalizeSubprotocols :: "comma_value \<Rightarrow> string list" where
  "normalizeSubprotocols raw =
     (let values = (case raw of CommaList xs \<Rightarrow> xs | CommaNone \<Rightarrow> splitCommaList (CommaText []) | CommaText s \<Rightarrow> splitCommaList (CommaText s))
      in filter (\<lambda>e. e \<noteq> []) (map trim values))"

definition normalizeOrigins :: "string list option \<Rightarrow> string list" where
  "normalizeOrigins raw = (case raw of None \<Rightarrow> [] | Some xs \<Rightarrow> filter (\<lambda>e. e \<noteq> []) (map trim xs))"

definition normalizeWatchInterval :: "jsnum \<Rightarrow> int" where
  "normalizeWatchInterval v = (case v of Fin q \<Rightarrow> (if q \<le> 0 then 0 else max 250 \<lfloor>q\<rfloor>) | _ \<Rightarrow> 0)"

definition normalizeNonNegativeInteger :: "jsval \<Rightarrow> int \<Rightarrow> int" where
  "normalizeNonNegativeInteger raw fallback =
     (case raw of
        JNum n \<Rightarrow> (case n of Fin q \<Rightarrow> max 0 \<lfloor>q\<rfloor> | _ \<Rightarrow> fallback)
      | JStr s \<Rightarrow> parseNonNegativeInteger s fallback
      | _ \<Rightarrow> fallback)"

text \<open>Its callers pass a boolean, a string or nothing.\<close>

fun normalizeBoolean :: "jsval \<Rightarrow> bool \<Rightarrow> (jsval, bool) result" where
  "normalizeBoolean (JBool b) fallback = Inr b"
| "normalizeBoolean (JStr s) fallback = parseBoolean s fallback"
| "normalizeBoolean _ fallback = Inr fallback"

fun dedupe_paths :: "string list \<Rightarrow> string list \<Rightarrow> string list" where
  "dedupe_paths acc [] = acc"
| "dedupe_paths acc (p # ps) = dedupe_paths (if trim p = [] then acc else sadd acc (trim p)) ps"

definition normalizeUpstreamTlsSourcePaths :: "string list option \<Rightarrow> string list" where
  "normalizeUpstreamTlsSourcePaths ps = (case ps of None \<Rightarrow> [] | Some xs \<Rightarrow> dedupe_paths [] xs)"

definition if_set :: "string \<Rightarrow> string option" where
  "if_set s = (if s = [] then None else Some s)"

fun collectUpstreamTlsSourcePaths :: "relay_values \<Rightarrow> string list" where
  "collectUpstreamTlsSourcePaths (EnvValues e) =
     normalizeUpstreamTlsSourcePaths (Some (splitCommaList (CommaText (pe_upstreamTlsCaFile e)) @
       filter (\<lambda>p. p \<noteq> []) [pe_upstreamTlsCertFile e, pe_upstreamTlsKeyFile e, pe_upstreamTlsPfxFile e]))"
| "collectUpstreamTlsSourcePaths (OptionValues o1) = normalizeUpstreamTlsSourcePaths (ro_upstreamTlsSourcePaths o1)"

definition env_text :: "environment \<Rightarrow> string \<Rightarrow> string \<Rightarrow> string" where
  "env_text env k fallback = trim (case env k of None \<Rightarrow> fallback | Some v \<Rightarrow> v)"

definition parseRelayProxyEnv :: "environment \<Rightarrow> parsed_env" where
  "parseRelayProxyEnv env =
     \<lparr>pe_listenHost = (let h = env_text env ''COMMANDRELAY_RELAY_LISTEN_HOST'' ''127.0.0.1'' in if h = [] then ''127.0.0.1'' else h),
      pe_listenPort = parseBoundedInteger (env ''COMMANDRELAY_RELAY_LISTEN_PORT'') 8788 1 65535,
      pe_relayPath = normalizePath (env ''COMMANDRELAY_RELAY_PATH'') ''/ws'',
      pe_healthPath = normalizePath (env ''COMMANDRELAY_RELAY_HEALTH_PATH'') ''/health'',
      pe_upstreamUrl = trim (case env ''COMMANDRELAY_RELAY_UPSTREAM_URL'' of
          None \<Rightarrow> ''ws://127.0.0.1:8787/ws'' | Some u \<Rightarrow> (if u = [] then ''ws://127.0.0.1:8787/ws'' else u)),
      pe_upstreamTlsRejectUnauthorized =
        (case env ''COMMANDRELAY_RELAY_UPSTREAM_TLS_REJECT_UNAUTHORIZED'' of None \<Rightarrow> ''true'' | Some v \<Rightarrow> v),
      pe_upstreamTlsCaFile = env_text env ''COMMANDRELAY_RELAY_UPSTREAM_TLS_CA_FILE'' [],
      pe_upstreamTlsCertFile = env_text env ''COMMANDRELAY_RELAY_UPSTREAM_TLS_CERT_FILE'' [],
      pe_upstreamTlsKeyFile = env_text env ''COMMANDRELAY_RELAY_UPSTREAM_TLS_KEY_FILE'' [],
      pe_upstreamTlsPfxFile = env_text env ''COMMANDRELAY_RELAY_UPSTREAM_TLS_PFX_FILE'' [],
      pe_upstreamTlsPassphrase = env_text env ''COMMANDRELAY_RELAY_UPSTREAM_TLS_PASSPHRASE'' [],
      pe_upstreamTlsServername = env_text env ''COMMANDRELAY_RELAY_UPSTREAM_TLS_SERVERNAME'' [],
      pe_upstreamTlsMinVersion = env_text env ''COMMANDRELAY_RELAY_UPSTREAM_TLS_MIN_VERSION'' [],
      pe_upstreamTlsMaxVersion = env_text env ''COMMANDRELAY_RELAY_UPSTREAM_TLS_MAX_VERSION'' [],
      pe_upstreamTlsWatchIntervalMs = normalizeWatchInterval (Fin (of_int (parseNonNegativeInteger
          (case env ''COMMANDRELAY_RELAY_UPSTREAM_TLS_WATCH_INTERVAL_MS'' of None \<Rightarrow> [] | Some v \<Rightarrow> v) 0))),
      pe_upstreamTlsRestartOnChange = env_text env ''COMMANDRELAY_RELAY_UPSTREAM_TLS_RESTART_ON_CHANGE'' ''false'',
      pe_maxConnections = parseBoundedInteger (env ''COMMANDRELAY_RELAY_MAX_CONNECTIONS'') 128 1 10000,
      pe_idleTimeoutMs = parseBoundedInteger (env ''COMMANDRELAY_RELAY_IDLE_TIMEOUT_MS'') 120000 1000 600000,
      pe_shutdownTimeoutMs = parseBoundedInteger (env ''COMMANDRELAY_RELAY_SHUTDOWN_TIMEOUT_MS'') 10000 1000 60000,
      pe_requiredToken = env_text env ''COMMANDRELAY_RELAY_REQUIRED_TOKEN'' [],
      pe_allowedOrigins = env_text env ''COMMANDRELAY_RELAY_ALLOWED_ORIGINS'' [],
      pe_upstreamSubprotocols = env_text env ''COMMANDRELAY_RELAY_UPSTREAM_SUBPROTOCOLS'' []\<rparr>"

section \<open>TLS material\<close>

definition SUPPORTED_TLS_VERSION_ORDER :: "string list" where
  "SUPPORTED_TLS_VERSION_ORDER = [''TLSv1.1'', ''TLSv1.2'', ''TLSv1.3'']"

fun version_index :: "string list \<Rightarrow> string \<Rightarrow> int" where
  "version_index [] v = -1"
| "version_index (x # xs) v = (if x = v then 0 else (let i = version_index xs v in if i < 0 then -1 else i + 1))"

definition unsupported_version :: "string option \<Rightarrow> bool" where
  "unsupported_version v \<longleftrightarrow> (case v of None \<Rightarrow> False | Some x \<Rightarrow> x \<notin> set SUPPORTED_TLS_VERSION_ORDER)"

definition validateUpstreamTlsConfig :: "relay_tls \<Rightarrow> (jsval, unit) result" where
  "validateUpstreamTlsConfig t =
     (let hasCert = (tls_cert t \<noteq> None); hasKey = (tls_key t \<noteq> None)
      in if hasCert \<noteq> hasKey then Inl (err ''upstream TLS cert and key must be both provided together'')
         else if tls_pfx t \<noteq> None \<and> (hasCert \<or> hasKey) then Inl (err ''upstream TLS pfx cannot be used together with cert and key'')
         else if unsupported_version (tls_minVersion t) then Inl (err (''unsupported upstream tls minVersion: '' @ the (tls_minVersion t)))
         else if unsupported_version (tls_maxVersion t) then Inl (err (''unsupported upstream tls maxVersion: '' @ the (tls_maxVersion t)))
         else case (tls_minVersion t, tls_maxVersion t) of
           (Some lo, Some hi) \<Rightarrow>
             (if version_index SUPPORTED_TLS_VERSION_ORDER lo > version_index SUPPORTED_TLS_VERSION_ORDER hi
              then Inl (err (''upstream tls minVersion '' @ lo @ '' must not exceed maxVersion '' @ hi)) else Inr ())
         | _ \<Rightarrow> Inr ())"

definition loadTlsMaterial :: "file_reader \<Rightarrow> string \<Rightarrow> string \<Rightarrow> (jsval, tls_material option) result" where
  "loadTlsMaterial read_file raw label =
     (if trim raw = [] then Inr None
      else case read_file raw of
        Inr bytes \<Rightarrow> Inr (Some [bytes])
      | Inl msg \<Rightarrow> Inl (err (''failed to read '' @ label @ '': '' @ raw @ '': '' @ msg)))"

fun load_each :: "file_reader \<Rightarrow> string list \<Rightarrow> string \<Rightarrow> (jsval, tls_material) result" where
  "load_each read_file [] label = Inr []"
| "load_each read_file (p # ps) label =
     bind_result (loadTlsMaterial read_file p label) (\<lambda>m.
     bind_result (load_each read_file ps label) (\<lambda>ms. Inr ((case m of None \<Rightarrow> [] | Some b \<Rightarrow> b) @ ms)))"

definition loadTlsMaterialList :: "file_reader \<Rightarrow> string \<Rightarrow> string \<Rightarrow> (jsval, tls_material option) result" where
  "loadTlsMaterialList read_file raw label =
     (if trim raw = [] then Inr None
      else (let candidates = filter (\<lambda>e. e \<noteq> []) (map trim (split_on CHR '','' raw))
            in if candidates = [] then Inr None
               else bind_result (load_each read_file candidates label) (\<lambda>ms. Inr (Some ms))))"

definition normalize_env_tls :: "file_reader \<Rightarrow> parsed_env \<Rightarrow> (jsval, relay_tls) result" where
  "normalize_env_tls read_file e =
     bind_result (parseBoolean (pe_upstreamTlsRejectUnauthorized e) True) (\<lambda>reject.
     bind_result (loadTlsMaterialList read_file (pe_upstreamTlsCaFile e) ''upstream TLS CA'') (\<lambda>ca.
     bind_result (loadTlsMaterial read_file (pe_upstreamTlsCertFile e) ''upstream TLS cert'') (\<lambda>cert.
     bind_result (loadTlsMaterial read_file (pe_upstreamTlsKeyFile e) ''upstream TLS key'') (\<lambda>key.
     bind_result (loadTlsMaterial read_file (pe_upstreamTlsPfxFile e) ''upstream TLS pfx'') (\<lambda>pfx.
     (let t = \<lparr>tls_rejectUnauthorized = reject, tls_ca = ca, tls_cert = cert, tls_key = key, tls_pfx = pfx,
            tls_passphrase = if_set (pe_upstreamTlsPassphrase e), tls_servername = if_set (pe_upstreamTlsServername e),
            tls_minVersion = Some (pe_upstreamTlsMinVersion e), tls_maxVersion = Some (pe_upstreamTlsMaxVersion e)\<rparr>
      in bind_result (validateUpstreamTlsConfig t) (\<lambda>_. Inr t)))))))"

definition default_tls :: relay_tls where
  "default_tls = \<lparr>tls_rejectUnauthorized = True, tls_ca = None, tls_cert = None, tls_key = None, tls_pfx = None,
     tls_passphrase = None, tls_servername = None, tls_minVersion = None, tls_maxVersion = None\<rparr>"

definition normalize_given_tls :: "relay_tls option \<Rightarrow> (jsval, relay_tls) result" where
  "normalize_given_tls given =
     (case given of None \<Rightarrow> Inr default_tls | Some t \<Rightarrow> bind_result (validateUpstreamTlsConfig t) (\<lambda>_. Inr t))"

section \<open>Normalisation\<close>

definition relay_upstream :: "url_parser \<Rightarrow> string \<Rightarrow> (jsval, string) result" where
  "relay_upstream url u =
     (case url u of
        None \<Rightarrow> Inl (err ''Invalid URL'')
      | Some (protocol, href) \<Rightarrow>
          (if protocol \<noteq> ''ws:'' \<and> protocol \<noteq> ''wss:'' then Inl (err (''upstreamUrl must use ws or wss, got '' @ protocol))
           else Inr href))"

fun normalizeRelayOptions :: "url_parser \<Rightarrow> file_reader \<Rightarrow> relay_values \<Rightarrow> (jsval, relay_options) result" where
  "normalizeRelayOptions url read_file (EnvValues e) =
     bind_result (relay_upstream url (pe_upstreamUrl e)) (\<lambda>href.
     bind_result (normalize_env_tls read_file e) (\<lambda>tls.
     bind_result (normalizeBoolean (JStr (pe_upstreamTlsRestartOnChange e)) False) (\<lambda>restart.
     Inr \<lparr>ro_listenHost = pe_listenHost e, ro_listenPort = Fin (of_int (pe_listenPort e)), ro_relayPath = pe_relayPath e,
       ro_healthPath = pe_healthPath e, ro_upstreamUrl = href, ro_upstreamTls = Some tls,
       ro_upstreamSubprotocols = CommaList (splitCommaList (CommaText (pe_upstreamSubprotocols e))),
       ro_allowedOrigins = Some (splitCommaList (CommaText (pe_allowedOrigins e))),
       ro_requiredToken = Some (pe_requiredToken e),
       ro_upstreamTlsWatchIntervalMs = jint (normalizeNonNegativeInteger (jint (pe_upstreamTlsWatchIntervalMs e)) 0),
       ro_upstreamTlsRestartOnChange = JBool restart,
       ro_upstreamTlsSourcePaths = Some (collectUpstreamTlsSourcePaths (EnvValues e)),
       ro_maxConnections = Fin (of_int (pe_maxConnections e)), ro_idleTimeoutMs = Fin (of_int (pe_idleTimeoutMs e)),
       ro_shutdownTimeoutMs = Fin (of_int (pe_shutdownTimeoutMs e))\<rparr>)))"
| "normalizeRelayOptions url read_file (OptionValues r) =
     bind_result (relay_upstream url (ro_upstreamUrl r)) (\<lambda>href.
     bind_result (normalize_given_tls (ro_upstreamTls r)) (\<lambda>tls.
     bind_result (normalizeBoolean (ro_upstreamTlsRestartOnChange r) False) (\<lambda>restart.
     Inr (r\<lparr>ro_upstreamUrl := href, ro_upstreamTls := Some tls,
       ro_upstreamSubprotocols := CommaList (splitCommaList (ro_upstreamSubprotocols r)),
       ro_allowedOrigins := Some (splitCommaList (case ro_allowedOrigins r of None \<Rightarrow> CommaNone | Some xs \<Rightarrow> CommaList xs)),
       ro_upstreamTlsWatchIntervalMs := jint (normalizeNonNegativeInteger (ro_upstreamTlsWatchIntervalMs r) 0),
       ro_upstreamTlsRestartOnChange := JBool restart,
       ro_upstreamTlsSourcePaths := Some (collectUpstreamTlsSourcePaths (OptionValues r))\<rparr>))))"

text \<open>\<open>Math.max(lo, Math.floor(n))\<close>.\<close>

fun floor_at_least :: "int \<Rightarrow> jsnum \<Rightarrow> jsnum" where
  "floor_at_least lo (Fin q) = Fin (of_int (max lo \<lfloor>q\<rfloor>))"
| "floor_at_least lo PInf = PInf"
| "floor_at_least lo NInf = Fin (of_int lo)"
| "floor_at_least lo NaN = NaN"

definition normalizeRuntimeOptions :: "url_parser \<Rightarrow> relay_options \<Rightarrow> (jsval, runtime_options) result" where
  "normalizeRuntimeOptions url r =
     bind_result (relay_upstream url (ro_upstreamUrl r)) (\<lambda>href.
     bind_result (normalize_given_tls (ro_upstreamTls r)) (\<lambda>tls.
     bind_result (normalizeBoolean (ro_upstreamTlsRestartOnChange r) False) (\<lambda>restart.
     Inr \<lparr>listenHost = (if trim (ro_listenHost r) = [] then ''127.0.0.1'' else trim (ro_listenHost r)),
       listenPort = floor_at_least 1 (ro_listenPort r),
       relayPath = normalizePath (Some (ro_relayPath r)) ''/ws'', healthPath = normalizePath (Some (ro_healthPath r)) ''/health'',
       upstreamUrl = href, upstreamTls = tls, upstreamSubprotocols = normalizeSubprotocols (ro_upstreamSubprotocols r),
       allowedOrigins = normalizeOrigins (ro_allowedOrigins r),
       requiredToken = trim (case ro_requiredToken r of None \<Rightarrow> [] | Some t \<Rightarrow> t),
       upstreamTlsWatchIntervalMs = normalizeNonNegativeInteger (ro_upstreamTlsWatchIntervalMs r) 0,
       upstreamTlsRestartOnChange = restart,
       upstreamTlsSourcePaths = normalizeUpstreamTlsSourcePaths (ro_upstreamTlsSourcePaths r),
       maxConnections = floor_at_least 1 (ro_maxConnections r), idleTimeoutMs = floor_at_least 1000 (ro_idleTimeoutMs r),
       shutdownTimeoutMs = floor_at_least 1000 (ro_shutdownTimeoutMs r)\<rparr>)))"

section \<open>What normalised options guarantee\<close>

lemma parseBoundedInteger_bounds:
  "lo \<le> fallback \<Longrightarrow> fallback \<le> hi \<Longrightarrow> lo \<le> parseBoundedInteger v fallback lo hi \<and> parseBoundedInteger v fallback lo hi \<le> hi"
  by (auto simp: parseBoundedInteger_def Let_def split: jsnum.splits)

lemma normalizePath_slash: "startsWith fallback ''/'' \<Longrightarrow> startsWith (normalizePath raw fallback) ''/''"
  by (auto simp: normalizePath_def Let_def startsWith_def)

definition clean_text :: "string \<Rightarrow> bool" where
  "clean_text p \<longleftrightarrow> p \<noteq> [] \<and> trim p = p"

lemma normalizeOrigins_wf: "e \<in> set (normalizeOrigins raw) \<Longrightarrow> clean_text e"
  by (auto simp: normalizeOrigins_def clean_text_def split: option.splits)

lemma clean_trim: "trim p \<noteq> [] \<Longrightarrow> clean_text (trim p)"
  by (simp add: clean_text_def)

lemma dedupe_paths_wf:
  "distinct acc \<and> list_all clean_text acc \<Longrightarrow> distinct (dedupe_paths acc ps) \<and> list_all clean_text (dedupe_paths acc ps)"
proof (induction ps arbitrary: acc)
  case (Cons p ps)
  have "distinct (sadd acc (trim p)) \<and> list_all clean_text (sadd acc (trim p))" if "trim p \<noteq> []"
    using Cons.prems clean_trim [OF that] by (simp add: list_all_iff)
  then show ?case using Cons.IH [of acc] Cons.IH [of "sadd acc (trim p)"] Cons.prems by (cases "trim p = []") auto
qed simp

lemma source_paths_wf:
  "distinct (normalizeUpstreamTlsSourcePaths ps) \<and> list_all clean_text (normalizeUpstreamTlsSourcePaths ps)"
  using dedupe_paths_wf [of "[]"] by (simp add: normalizeUpstreamTlsSourcePaths_def split: option.splits)

text \<open>A TLS configuration that a server accepts: one client identity at most, and an ordered range of known versions.\<close>

definition tls_version_rank :: "string \<Rightarrow> int" where
  "tls_version_rank v = version_index SUPPORTED_TLS_VERSION_ORDER v"

definition tls_wf :: "relay_tls \<Rightarrow> bool" where
  "tls_wf t \<longleftrightarrow> (tls_cert t = None \<longleftrightarrow> tls_key t = None) \<and> (tls_pfx t = None \<or> tls_cert t = None) \<and>
     (case tls_minVersion t of None \<Rightarrow> True | Some v \<Rightarrow> v \<in> set SUPPORTED_TLS_VERSION_ORDER) \<and>
     (case tls_maxVersion t of None \<Rightarrow> True | Some v \<Rightarrow> v \<in> set SUPPORTED_TLS_VERSION_ORDER) \<and>
     (case (tls_minVersion t, tls_maxVersion t) of (Some a, Some b) \<Rightarrow> tls_version_rank a \<le> tls_version_rank b | _ \<Rightarrow> True)"

lemma validate_iff_wf: "validateUpstreamTlsConfig t = Inr () \<longleftrightarrow> tls_wf t"
  by (auto simp: validateUpstreamTlsConfig_def tls_wf_def Let_def unsupported_version_def tls_version_rank_def
      split: option.splits)

lemma normalize_given_tls_wf: "normalize_given_tls g = Inr t \<Longrightarrow> tls_wf t"
  by (auto simp: normalize_given_tls_def bind_result_Inr validate_iff_wf default_tls_def tls_wf_def split: option.splits)

lemma normalize_env_tls_versions:
  "normalize_env_tls read_file e = Inr t \<Longrightarrow>
   tls_minVersion t = Some (pe_upstreamTlsMinVersion e) \<and> tls_maxVersion t = Some (pe_upstreamTlsMaxVersion e) \<and> tls_wf t"
  by (auto simp: normalize_env_tls_def Let_def bind_result_Inr validate_iff_wf)

lemma relay_upstream_scheme: "relay_upstream url u = Inr h \<Longrightarrow> fst (the (url u)) \<in> {''ws:'', ''wss:''}"
  by (auto simp: relay_upstream_def split: option.splits if_splits)

lemma floor_at_least_int [simp]: "floor_at_least lo (Fin (of_int n)) = Fin (of_int (max lo n))"
  by simp

text \<open>What the options of a relay started from its environment look like.\<close>

definition num_between :: "int \<Rightarrow> int \<Rightarrow> jsnum \<Rightarrow> bool" where
  "num_between lo hi n \<longleftrightarrow> (case num_as_int n of None \<Rightarrow> False | Some i \<Rightarrow> lo \<le> i \<and> i \<le> hi)"

definition runtime_options_wf :: "runtime_options \<Rightarrow> bool" where
  "runtime_options_wf r \<longleftrightarrow> listenHost r \<noteq> [] \<and> num_between 1 65535 (listenPort r) \<and> num_between 1 10000 (maxConnections r) \<and>
     num_between 1000 600000 (idleTimeoutMs r) \<and> num_between 1000 60000 (shutdownTimeoutMs r) \<and>
     startsWith (relayPath r) ''/'' \<and> startsWith (healthPath r) ''/'' \<and> tls_wf (upstreamTls r) \<and>
     trim (requiredToken r) = requiredToken r \<and> list_all clean_text (allowedOrigins r) \<and>
     distinct (upstreamTlsSourcePaths r) \<and> 0 \<le> upstreamTlsWatchIntervalMs r"

lemma num_between_int [simp]: "num_between lo hi (Fin (of_int i)) \<longleftrightarrow> lo \<le> i \<and> i \<le> hi"
  by (simp add: num_between_def del: num_as_int.simps)


definition sample_env :: environment where
  "sample_env = map_of [(''COMMANDRELAY_RELAY_UPSTREAM_TLS_MIN_VERSION'', ''TLSv1.2''),
     (''COMMANDRELAY_RELAY_UPSTREAM_TLS_MAX_VERSION'', ''TLSv1.3''),
     (''COMMANDRELAY_RELAY_REQUIRED_TOKEN'', '' secret ''),
     (''COMMANDRELAY_RELAY_ALLOWED_ORIGINS'', ''https://a.example, https://b.example'')]"

definition ws_url :: url_parser where
  "ws_url u = (if startsWith u ''ws:'' then Some (''ws:'', u) else None)"

definition no_file :: file_reader where
  "no_file p = Inl ''ENOENT''"

definition sample_given :: relay_options where
  "sample_given = (case normalizeRelayOptions ws_url no_file (EnvValues (parseRelayProxyEnv sample_env)) of
     Inr g \<Rightarrow> g | Inl _ \<Rightarrow> undefined)"

definition sample_options :: runtime_options where
  "sample_options = (case normalizeRuntimeOptions ws_url sample_given of Inr r \<Rightarrow> r | Inl _ \<Rightarrow> undefined)"

lemma sample_given_ok: "normalizeRelayOptions ws_url no_file (EnvValues (parseRelayProxyEnv sample_env)) = Inr sample_given"
  unfolding sample_given_def by code_simp

lemma sample_options_ok: "normalizeRuntimeOptions ws_url sample_given = Inr sample_options"
  unfolding sample_options_def by code_simp


text \<open>
  An unset version variable becomes the empty string and not \<open>undefined\<close>, which the validation rejects: a
  relay starts from its environment only when both version variables are set.
\<close>

lemma relay_requires_tls_versions:
  assumes "normalizeRelayOptions url read_file (EnvValues (parseRelayProxyEnv env)) = Inr given"
  shows "env ''COMMANDRELAY_RELAY_UPSTREAM_TLS_MIN_VERSION'' \<noteq> None \<and> env ''COMMANDRELAY_RELAY_UPSTREAM_TLS_MAX_VERSION'' \<noteq> None"
proof -
  obtain t where t: "normalize_env_tls read_file (parseRelayProxyEnv env) = Inr t"
    using assms unfolding normalizeRelayOptions.simps bind_result_Inr by blast
  have "env_text env ''COMMANDRELAY_RELAY_UPSTREAM_TLS_MIN_VERSION'' [] \<in> set SUPPORTED_TLS_VERSION_ORDER"
    "env_text env ''COMMANDRELAY_RELAY_UPSTREAM_TLS_MAX_VERSION'' [] \<in> set SUPPORTED_TLS_VERSION_ORDER"
    using normalize_env_tls_versions [OF t] by (auto simp: tls_wf_def parseRelayProxyEnv_def)
  then show ?thesis by (auto simp: env_text_def SUPPORTED_TLS_VERSION_ORDER_def split: option.splits)
qed

end
