(* ===== verification/Relay_Cli.thy ===== *)
theory Relay_Cli
  imports Relay_Options Http_Client
begin

text \<open>
  The command line of the relay proxy, \<^verbatim>\<open>packages/commandrelay-relay-proxy/src/cli.ts\<close>: its flags, how they override the
  environment, and what \<open>main\<close> makes of both up to the call of \<open>createRelayProxyServer\<close>, whose normalisation is part of it. What is
  printed is left out. The values \<open>main\<close> collects have the shape of a parsed environment.
\<close>

section \<open>Flags\<close>

record cli_config =
  rc_listenHost :: string
  rc_listenPort :: string
  rc_relayPath :: string
  rc_healthPath :: string
  rc_upstreamUrl :: string
  rc_maxConnections :: string
  rc_idleTimeoutMs :: string
  rc_shutdownTimeoutMs :: string
  rc_requiredToken :: string
  rc_allowedOrigins :: string
  rc_upstreamSubprotocols :: string
  rc_upstreamTlsRejectUnauthorized :: string
  rc_upstreamTlsCaFile :: string
  rc_upstreamTlsCertFile :: string
  rc_upstreamTlsKeyFile :: string
  rc_upstreamTlsPfxFile :: string
  rc_upstreamTlsPassphrase :: string
  rc_upstreamTlsServername :: string
  rc_upstreamTlsMinVersion :: string
  rc_upstreamTlsMaxVersion :: string
  rc_upstreamTlsWatchIntervalMs :: string
  rc_upstreamTlsRestartOnChange :: string
  rc_help :: bool

definition empty_config :: cli_config where
  "empty_config = \<lparr>rc_listenHost = [], rc_listenPort = [], rc_relayPath = [], rc_healthPath = [], rc_upstreamUrl = [],
     rc_maxConnections = [], rc_idleTimeoutMs = [], rc_shutdownTimeoutMs = [], rc_requiredToken = [], rc_allowedOrigins = [],
     rc_upstreamSubprotocols = [], rc_upstreamTlsRejectUnauthorized = [], rc_upstreamTlsCaFile = [], rc_upstreamTlsCertFile = [],
     rc_upstreamTlsKeyFile = [], rc_upstreamTlsPfxFile = [], rc_upstreamTlsPassphrase = [], rc_upstreamTlsServername = [],
     rc_upstreamTlsMinVersion = [], rc_upstreamTlsMaxVersion = [], rc_upstreamTlsWatchIntervalMs = [],
     rc_upstreamTlsRestartOnChange = [], rc_help = False\<rparr>"

text \<open>The flags that store their value, in the order the code tests them: each with its name, the field it assigns and the variable it overrides.\<close>

datatype relay_flag = Host | Port | Relay_path | Health_path | Upstream | Max_connections | Idle_timeout | Shutdown_timeout | Token
  | Allowed_origins | Subprotocols | Tls_reject | Tls_ca | Tls_cert | Tls_key | Tls_pfx | Tls_passphrase | Tls_servername
  | Tls_min | Tls_max | Tls_watch | Tls_restart

definition relay_flags :: "relay_flag list" where
  "relay_flags = [Host, Port, Relay_path, Health_path, Upstream, Max_connections, Idle_timeout, Shutdown_timeout, Token,
     Allowed_origins, Subprotocols, Tls_reject, Tls_ca, Tls_cert, Tls_key, Tls_pfx, Tls_passphrase, Tls_servername,
     Tls_min, Tls_max, Tls_watch, Tls_restart]"

primrec flag_name :: "relay_flag \<Rightarrow> string" where
  "flag_name Host = ''--host''"
| "flag_name Port = ''--port''"
| "flag_name Relay_path = ''--relay-path''"
| "flag_name Health_path = ''--health-path''"
| "flag_name Upstream = ''--upstream''"
| "flag_name Max_connections = ''--max-connections''"
| "flag_name Idle_timeout = ''--idle-timeout-ms''"
| "flag_name Shutdown_timeout = ''--shutdown-timeout-ms''"
| "flag_name Token = ''--token''"
| "flag_name Allowed_origins = ''--allowed-origins''"
| "flag_name Subprotocols = ''--upstream-subprotocols''"
| "flag_name Tls_reject = ''--upstream-tls-reject-unauthorized''"
| "flag_name Tls_ca = ''--upstream-tls-ca-file''"
| "flag_name Tls_cert = ''--upstream-tls-cert-file''"
| "flag_name Tls_key = ''--upstream-tls-key-file''"
| "flag_name Tls_pfx = ''--upstream-tls-pfx-file''"
| "flag_name Tls_passphrase = ''--upstream-tls-passphrase''"
| "flag_name Tls_servername = ''--upstream-tls-servername''"
| "flag_name Tls_min = ''--upstream-tls-min-version''"
| "flag_name Tls_max = ''--upstream-tls-max-version''"
| "flag_name Tls_watch = ''--upstream-tls-watch-interval-ms''"
| "flag_name Tls_restart = ''--upstream-tls-restart-on-change''"

primrec set_flag :: "relay_flag \<Rightarrow> string \<Rightarrow> cli_config \<Rightarrow> cli_config" where
  "set_flag Host v c = c\<lparr>rc_listenHost := v\<rparr>"
| "set_flag Port v c = c\<lparr>rc_listenPort := v\<rparr>"
| "set_flag Relay_path v c = c\<lparr>rc_relayPath := v\<rparr>"
| "set_flag Health_path v c = c\<lparr>rc_healthPath := v\<rparr>"
| "set_flag Upstream v c = c\<lparr>rc_upstreamUrl := v\<rparr>"
| "set_flag Max_connections v c = c\<lparr>rc_maxConnections := v\<rparr>"
| "set_flag Idle_timeout v c = c\<lparr>rc_idleTimeoutMs := v\<rparr>"
| "set_flag Shutdown_timeout v c = c\<lparr>rc_shutdownTimeoutMs := v\<rparr>"
| "set_flag Token v c = c\<lparr>rc_requiredToken := v\<rparr>"
| "set_flag Allowed_origins v c = c\<lparr>rc_allowedOrigins := v\<rparr>"
| "set_flag Subprotocols v c = c\<lparr>rc_upstreamSubprotocols := v\<rparr>"
| "set_flag Tls_reject v c = c\<lparr>rc_upstreamTlsRejectUnauthorized := v\<rparr>"
| "set_flag Tls_ca v c = c\<lparr>rc_upstreamTlsCaFile := v\<rparr>"
| "set_flag Tls_cert v c = c\<lparr>rc_upstreamTlsCertFile := v\<rparr>"
| "set_flag Tls_key v c = c\<lparr>rc_upstreamTlsKeyFile := v\<rparr>"
| "set_flag Tls_pfx v c = c\<lparr>rc_upstreamTlsPfxFile := v\<rparr>"
| "set_flag Tls_passphrase v c = c\<lparr>rc_upstreamTlsPassphrase := v\<rparr>"
| "set_flag Tls_servername v c = c\<lparr>rc_upstreamTlsServername := v\<rparr>"
| "set_flag Tls_min v c = c\<lparr>rc_upstreamTlsMinVersion := v\<rparr>"
| "set_flag Tls_max v c = c\<lparr>rc_upstreamTlsMaxVersion := v\<rparr>"
| "set_flag Tls_watch v c = c\<lparr>rc_upstreamTlsWatchIntervalMs := v\<rparr>"
| "set_flag Tls_restart v c = c\<lparr>rc_upstreamTlsRestartOnChange := v\<rparr>"

definition flag_of :: "string \<Rightarrow> relay_flag option" where
  "flag_of arg = List.find (\<lambda>f. flag_name f = arg) relay_flags"

text \<open>\<open>normalizeEnvKey\<close>: a character outside the block the model covers would become an underscore as well.\<close>

definition env_key_char :: "char \<Rightarrow> bool" where
  "env_key_char c \<longleftrightarrow> is_digit c \<or> 65 \<le> (of_char c :: nat) \<and> (of_char c :: nat) \<le> 90 \<or> c = CHR ''_''"

definition normalizeEnvKey :: "string \<Rightarrow> string" where
  "normalizeEnvKey value = map (\<lambda>c. if env_key_char c then c else CHR ''_'') (toUpperCase (trim value))"

definition token_from_env :: "environment \<Rightarrow> string \<Rightarrow> (jsval, string) result" where
  "token_from_env env v =
     (let envKey = normalizeEnvKey v; missing = Inl (err (''missing env var: '' @ envKey))
      in case env envKey of None \<Rightarrow> missing | Some envValue \<Rightarrow> if trim envValue = [] then missing else Inr envValue)"

fun relay_parseArgs :: "environment \<Rightarrow> string list \<Rightarrow> cli_config \<Rightarrow> (jsval, cli_config) result" where
  "relay_parseArgs env [] config = Inr config"
| "relay_parseArgs env (arg # rest) config =
     (if arg = ''--help'' \<or> arg = ''-h'' then Inr (config\<lparr>rc_help := True\<rparr>)
      else case flag_of arg of
        Some f \<Rightarrow>
          (case rest of
             [] \<Rightarrow> Inl (err (''missing '' @ arg))
           | v # rest' \<Rightarrow> if v = [] then Inl (err (''missing '' @ arg)) else relay_parseArgs env rest' (set_flag f v config))
      | None \<Rightarrow>
          if arg = ''--token-from-env'' then
            (case rest of
               [] \<Rightarrow> Inl (err ''missing --token-from-env'')
             | v # rest' \<Rightarrow> if v = [] then Inl (err ''missing --token-from-env'')
                 else (case token_from_env env v of
                   Inl e \<Rightarrow> Inl e
                 | Inr t \<Rightarrow> relay_parseArgs env rest' (config\<lparr>rc_requiredToken := t\<rparr>)))
          else Inl (err (''unknown arg: '' @ arg)))"

section \<open>Values\<close>

definition parsePositiveIntArg :: "string \<Rightarrow> int \<Rightarrow> (jsval, int) result" where
  "parsePositiveIntArg v fallback =
     (if v = [] then Inr fallback
      else let trimmed = trim v; invalid = Inl (err (''invalid integer value: '' @ v))
        in if \<not> strict_int_text trimmed then invalid
           else case parseInt trimmed of Fin q \<Rightarrow> (if q \<le> 0 then invalid else Inr \<lfloor>q\<rfloor>) | _ \<Rightarrow> invalid)"

text \<open>Its caller passes a string; the branch for numbers is part of the function.\<close>

fun parseNonNegativeIntArg :: "jsval \<Rightarrow> int \<Rightarrow> (jsval, int) result" where
  "parseNonNegativeIntArg (JNum n) fallback = (case n of Fin q \<Rightarrow> Inr (max 0 \<lfloor>q\<rfloor>) | _ \<Rightarrow> Inr fallback)"
| "parseNonNegativeIntArg (JStr v) fallback =
     (if v = [] then Inr fallback
      else let trimmed = trim v; invalid = Inl (err (''invalid integer value: '' @ v))
        in if \<not> strict_int_text trimmed then invalid
           else case parseInt trimmed of Fin q \<Rightarrow> (if q < 0 then invalid else Inr \<lfloor>q\<rfloor>) | _ \<Rightarrow> invalid)"
| "parseNonNegativeIntArg _ fallback = Inr fallback"

text \<open>\<open>args.x || env.x\<close>.\<close>

definition or_env :: "string \<Rightarrow> string \<Rightarrow> string" where
  "or_env a e = (if a = [] then e else a)"

definition cli_values :: "parsed_env \<Rightarrow> cli_config \<Rightarrow> (jsval, parsed_env) result" where
  "cli_values e c =
     bind_result (parsePositiveIntArg (rc_listenPort c) (pe_listenPort e)) (\<lambda>port.
     bind_result (parsePositiveIntArg (rc_maxConnections c) (pe_maxConnections e)) (\<lambda>maxc.
     bind_result (parsePositiveIntArg (rc_idleTimeoutMs c) (pe_idleTimeoutMs e)) (\<lambda>idle.
     bind_result (parsePositiveIntArg (rc_shutdownTimeoutMs c) (pe_shutdownTimeoutMs e)) (\<lambda>shutdown.
     bind_result (if rc_upstreamTlsWatchIntervalMs c \<noteq> []
        then parseNonNegativeIntArg (JStr (rc_upstreamTlsWatchIntervalMs c)) (pe_upstreamTlsWatchIntervalMs e)
        else Inr (pe_upstreamTlsWatchIntervalMs e)) (\<lambda>watch.
     Inr \<lparr>pe_listenHost = or_env (rc_listenHost c) (pe_listenHost e), pe_listenPort = port,
       pe_relayPath = or_env (rc_relayPath c) (pe_relayPath e), pe_healthPath = or_env (rc_healthPath c) (pe_healthPath e),
       pe_upstreamUrl = or_env (rc_upstreamUrl c) (pe_upstreamUrl e),
       pe_upstreamTlsRejectUnauthorized = or_env (rc_upstreamTlsRejectUnauthorized c) (pe_upstreamTlsRejectUnauthorized e),
       pe_upstreamTlsCaFile = or_env (rc_upstreamTlsCaFile c) (pe_upstreamTlsCaFile e),
       pe_upstreamTlsCertFile = or_env (rc_upstreamTlsCertFile c) (pe_upstreamTlsCertFile e),
       pe_upstreamTlsKeyFile = or_env (rc_upstreamTlsKeyFile c) (pe_upstreamTlsKeyFile e),
       pe_upstreamTlsPfxFile = or_env (rc_upstreamTlsPfxFile c) (pe_upstreamTlsPfxFile e),
       pe_upstreamTlsPassphrase = or_env (rc_upstreamTlsPassphrase c) (pe_upstreamTlsPassphrase e),
       pe_upstreamTlsServername = or_env (rc_upstreamTlsServername c) (pe_upstreamTlsServername e),
       pe_upstreamTlsMinVersion = or_env (rc_upstreamTlsMinVersion c) (pe_upstreamTlsMinVersion e),
       pe_upstreamTlsMaxVersion = or_env (rc_upstreamTlsMaxVersion c) (pe_upstreamTlsMaxVersion e),
       pe_upstreamTlsWatchIntervalMs = watch,
       pe_upstreamTlsRestartOnChange = or_env (rc_upstreamTlsRestartOnChange c) (pe_upstreamTlsRestartOnChange e),
       pe_maxConnections = maxc, pe_idleTimeoutMs = idle, pe_shutdownTimeoutMs = shutdown,
       pe_requiredToken = or_env (rc_requiredToken c) (pe_requiredToken e),
       pe_allowedOrigins = or_env (rc_allowedOrigins c) (pe_allowedOrigins e),
       pe_upstreamSubprotocols = or_env (rc_upstreamSubprotocols c) (pe_upstreamSubprotocols e)\<rparr>)))))"

datatype relay_start = Usage_shown | Relay_listens relay_options runtime_options

definition relay_main :: "url_parser \<Rightarrow> file_reader \<Rightarrow> environment \<Rightarrow> string list \<Rightarrow> (jsval, relay_start) result" where
  "relay_main url read_file env argv =
     bind_result (relay_parseArgs env argv empty_config) (\<lambda>args.
     if rc_help args then Inr Usage_shown
     else bind_result (cli_values (parseRelayProxyEnv env) args) (\<lambda>collected.
       bind_result (normalizeRelayOptions url read_file (EnvValues collected)) (\<lambda>values.
       bind_result (normalizeRuntimeOptions url values) (\<lambda>runtime. Inr (Relay_listens values runtime)))))"

text \<open>The exit code of a relay that was told to stop; closing the handle may fail.\<close>

definition relay_stop :: "bool \<Rightarrow> string \<Rightarrow> int" where
  "relay_stop close_ok reason = (if \<not> close_ok then 1 else if reason = ''SIGINT'' then 130 else 0)"

section \<open>The command line and the environment\<close>

primrec flag_var :: "relay_flag \<Rightarrow> string" where
  "flag_var Host = ''COMMANDRELAY_RELAY_LISTEN_HOST''"
| "flag_var Port = ''COMMANDRELAY_RELAY_LISTEN_PORT''"
| "flag_var Relay_path = ''COMMANDRELAY_RELAY_PATH''"
| "flag_var Health_path = ''COMMANDRELAY_RELAY_HEALTH_PATH''"
| "flag_var Upstream = ''COMMANDRELAY_RELAY_UPSTREAM_URL''"
| "flag_var Max_connections = ''COMMANDRELAY_RELAY_MAX_CONNECTIONS''"
| "flag_var Idle_timeout = ''COMMANDRELAY_RELAY_IDLE_TIMEOUT_MS''"
| "flag_var Shutdown_timeout = ''COMMANDRELAY_RELAY_SHUTDOWN_TIMEOUT_MS''"
| "flag_var Token = ''COMMANDRELAY_RELAY_REQUIRED_TOKEN''"
| "flag_var Allowed_origins = ''COMMANDRELAY_RELAY_ALLOWED_ORIGINS''"
| "flag_var Subprotocols = ''COMMANDRELAY_RELAY_UPSTREAM_SUBPROTOCOLS''"
| "flag_var Tls_reject = ''COMMANDRELAY_RELAY_UPSTREAM_TLS_REJECT_UNAUTHORIZED''"
| "flag_var Tls_ca = ''COMMANDRELAY_RELAY_UPSTREAM_TLS_CA_FILE''"
| "flag_var Tls_cert = ''COMMANDRELAY_RELAY_UPSTREAM_TLS_CERT_FILE''"
| "flag_var Tls_key = ''COMMANDRELAY_RELAY_UPSTREAM_TLS_KEY_FILE''"
| "flag_var Tls_pfx = ''COMMANDRELAY_RELAY_UPSTREAM_TLS_PFX_FILE''"
| "flag_var Tls_passphrase = ''COMMANDRELAY_RELAY_UPSTREAM_TLS_PASSPHRASE''"
| "flag_var Tls_servername = ''COMMANDRELAY_RELAY_UPSTREAM_TLS_SERVERNAME''"
| "flag_var Tls_min = ''COMMANDRELAY_RELAY_UPSTREAM_TLS_MIN_VERSION''"
| "flag_var Tls_max = ''COMMANDRELAY_RELAY_UPSTREAM_TLS_MAX_VERSION''"
| "flag_var Tls_watch = ''COMMANDRELAY_RELAY_UPSTREAM_TLS_WATCH_INTERVAL_MS''"
| "flag_var Tls_restart = ''COMMANDRELAY_RELAY_UPSTREAM_TLS_RESTART_ON_CHANGE''"

primrec cli_field :: "relay_flag \<Rightarrow> cli_config \<Rightarrow> string" where
  "cli_field Host c = rc_listenHost c"
| "cli_field Port c = rc_listenPort c"
| "cli_field Relay_path c = rc_relayPath c"
| "cli_field Health_path c = rc_healthPath c"
| "cli_field Upstream c = rc_upstreamUrl c"
| "cli_field Max_connections c = rc_maxConnections c"
| "cli_field Idle_timeout c = rc_idleTimeoutMs c"
| "cli_field Shutdown_timeout c = rc_shutdownTimeoutMs c"
| "cli_field Token c = rc_requiredToken c"
| "cli_field Allowed_origins c = rc_allowedOrigins c"
| "cli_field Subprotocols c = rc_upstreamSubprotocols c"
| "cli_field Tls_reject c = rc_upstreamTlsRejectUnauthorized c"
| "cli_field Tls_ca c = rc_upstreamTlsCaFile c"
| "cli_field Tls_cert c = rc_upstreamTlsCertFile c"
| "cli_field Tls_key c = rc_upstreamTlsKeyFile c"
| "cli_field Tls_pfx c = rc_upstreamTlsPfxFile c"
| "cli_field Tls_passphrase c = rc_upstreamTlsPassphrase c"
| "cli_field Tls_servername c = rc_upstreamTlsServername c"
| "cli_field Tls_min c = rc_upstreamTlsMinVersion c"
| "cli_field Tls_max c = rc_upstreamTlsMaxVersion c"
| "cli_field Tls_watch c = rc_upstreamTlsWatchIntervalMs c"
| "cli_field Tls_restart c = rc_upstreamTlsRestartOnChange c"

text \<open>A command line of flags, and the environment with the variables of these flags set; the last value wins in both.\<close>

definition flag_args :: "(relay_flag \<times> string) list \<Rightarrow> string list" where
  "flag_args fs = concat (map (\<lambda>(f, v). [flag_name f, v]) fs)"

definition with_flags :: "environment \<Rightarrow> (relay_flag \<times> string) list \<Rightarrow> environment" where
  "with_flags env fs = fold (\<lambda>(f, v) e. e(flag_var f \<mapsto> v)) fs env"

text \<open>Values both ways accept: trimmed, paths already normalised, numbers within the bounds the environment has.\<close>

definition int_in :: "int \<Rightarrow> int \<Rightarrow> string \<Rightarrow> bool" where
  "int_in lo hi v \<longleftrightarrow> strict_int_text v \<and> num_between lo hi (parseInt v)"

definition clean_path :: "string \<Rightarrow> bool" where
  "clean_path v \<longleftrightarrow> v \<noteq> ''/'' \<and> hd v = CHR ''/'' \<and> hd (tl v) \<noteq> CHR ''/'' \<and> last v \<noteq> CHR ''/''"

definition watch_interval_ok :: "string \<Rightarrow> bool" where
  "watch_interval_ok v \<longleftrightarrow> strict_int_text v \<and>
     (case num_as_int (parseInt v) of None \<Rightarrow> False | Some i \<Rightarrow> i = 0 \<or> 250 \<le> i)"

definition flag_value_ok :: "relay_flag \<Rightarrow> string \<Rightarrow> bool" where
  "flag_value_ok f v \<longleftrightarrow> v \<noteq> [] \<and> trim v = v \<and>
     (case f of
        Port \<Rightarrow> int_in 1 65535 v | Max_connections \<Rightarrow> int_in 1 10000 v
      | Idle_timeout \<Rightarrow> int_in 1000 600000 v | Shutdown_timeout \<Rightarrow> int_in 1000 60000 v
      | Relay_path \<Rightarrow> clean_path v | Health_path \<Rightarrow> clean_path v | Tls_watch \<Rightarrow> watch_interval_ok v | _ \<Rightarrow> True)"

lemma cli_field_set [simp]: "cli_field f (set_flag g v c) = (if f = g then v else cli_field f c)"
  by (cases g; cases f) simp_all

lemma set_flag_help [simp]: "rc_help (set_flag f v c) = rc_help c"
  by (cases f) simp_all

lemma empty_config_simps [simp]: "cli_field f empty_config = []" "\<not> rc_help empty_config"
  by (cases f) (simp_all add: empty_config_def)

lemma relay_flags_all [simp]: "f \<in> set relay_flags"
  by (cases f) (simp_all add: relay_flags_def)

lemma flag_var_inj [simp]: "flag_var f = flag_var g \<longleftrightarrow> f = g"
proof -
  have "distinct (map flag_var relay_flags)" by code_simp
  then show ?thesis using relay_flags_all by (auto simp: distinct_map inj_on_def)
qed

lemma flag_of_name [simp]: "flag_of (flag_name f) = Some f"
proof -
  have "list_all (\<lambda>f. flag_of (flag_name f) = Some f) relay_flags" by code_simp
  then show ?thesis using relay_flags_all by (simp add: list_all_iff)
qed

lemma flag_not_help [simp]: "flag_name f \<noteq> ''--help''" "flag_name f \<noteq> ''-h''"
  by (cases f; simp)+

lemma relay_parseArgs_flags:
  "list_all (\<lambda>(f, v). flag_value_ok f v) fs \<Longrightarrow> relay_parseArgs env (flag_args fs) c = Inr (fold (\<lambda>(f, v). set_flag f v) fs c)"
  by (induction fs arbitrary: c) (simp_all add: flag_args_def flag_value_ok_def split_beta)

lemma fold_help: "rc_help (fold (\<lambda>(f, v). set_flag f v) fs c) = rc_help c"
  by (induction fs arbitrary: c) (simp_all add: split_beta)

text \<open>What a flag and its variable have after the same assignments: the same value, or what they had.\<close>

lemma fold_field:
  "\<exists>m. cli_field f (fold (\<lambda>(f, v). set_flag f v) fs c) = (case m of None \<Rightarrow> cli_field f c | Some v \<Rightarrow> v)
     \<and> with_flags env fs (flag_var f) = (case m of None \<Rightarrow> env (flag_var f) | Some v \<Rightarrow> Some v)
     \<and> (\<forall>v. m = Some v \<longrightarrow> (f, v) \<in> set fs)"
proof (induction fs arbitrary: c env)
  case Nil
  show ?case by (intro exI [of _ None]) (simp add: with_flags_def)
next
  case (Cons x fs)
  obtain g w where x: "x = (g, w)" by force
  obtain m where m: "cli_field f (fold (\<lambda>(f, v). set_flag f v) fs (set_flag g w c)) = (case m of None \<Rightarrow> cli_field f (set_flag g w c) | Some v \<Rightarrow> v)"
    "with_flags (env(flag_var g \<mapsto> w)) fs (flag_var f) = (case m of None \<Rightarrow> (env(flag_var g \<mapsto> w)) (flag_var f) | Some v \<Rightarrow> Some v)"
    "\<forall>v. m = Some v \<longrightarrow> (f, v) \<in> set fs"
    using Cons.IH by blast
  show ?case
    by (rule exI [of _ "case m of None \<Rightarrow> (if f = g then Some w else None) | Some v \<Rightarrow> Some v"])
      (use m x in \<open>auto simp: with_flags_def split: option.splits\<close>)
qed

definition given_by :: "cli_config \<Rightarrow> environment \<Rightarrow> environment \<Rightarrow> relay_flag \<Rightarrow> bool" where
  "given_by c env env' f \<longleftrightarrow>
     cli_field f c = [] \<and> env' (flag_var f) = env (flag_var f) \<or> flag_value_ok f (cli_field f c) \<and> env' (flag_var f) = Some (cli_field f c)"

lemma fold_given:
  assumes "list_all (\<lambda>(f, v). flag_value_ok f v) fs"
  shows "given_by (fold (\<lambda>(f, v). set_flag f v) fs empty_config) env (with_flags env fs) f"
  using fold_field [of f fs empty_config env] assms by (auto simp: given_by_def list_all_iff split: option.splits)

lemma or_env_text:
  "given_by c env env' f \<Longrightarrow> or_env (cli_field f c) (env_text env (flag_var f) d) = env_text env' (flag_var f) d"
  by (auto simp: given_by_def or_env_def env_text_def flag_value_ok_def)

lemma positive_arg:
  assumes "given_by c env env' f" "flag_value_ok f (cli_field f c) \<Longrightarrow> int_in lo hi (cli_field f c)" "1 \<le> lo"
  shows "parsePositiveIntArg (cli_field f c) (parseBoundedInteger (env (flag_var f)) d lo hi)
    = Inr (parseBoundedInteger (env' (flag_var f)) d lo hi)"
  using assms
  by (auto simp: given_by_def parsePositiveIntArg_def parseBoundedInteger_def int_in_def flag_value_ok_def num_between_def Let_def
      split: option.splits)

lemma watch_arg:
  assumes "given_by c env env' Tls_watch"
  shows "(if cli_field Tls_watch c \<noteq> [] then parseNonNegativeIntArg (JStr (cli_field Tls_watch c)) n
      else Inr (normalizeWatchInterval (Fin (of_int (parseNonNegativeInteger (case env (flag_var Tls_watch) of None \<Rightarrow> [] | Some v \<Rightarrow> v) 0)))))
    = Inr (normalizeWatchInterval (Fin (of_int (parseNonNegativeInteger (case env' (flag_var Tls_watch) of None \<Rightarrow> [] | Some v \<Rightarrow> v) 0))))"
  using assms
  by (auto simp: given_by_def flag_value_ok_def watch_interval_ok_def parseNonNegativeInteger_def normalizeWatchInterval_def Let_def
      split: option.splits)

lemma clean_path_fixed:
  assumes "clean_path v" "v \<noteq> []" "trim v = v"
  shows "normalizePath (Some v) d = v"
proof -
  obtain s where v: "v = CHR ''/'' # s" "s \<noteq> []" "hd s \<noteq> CHR ''/''" "last s \<noteq> CHR ''/''"
    using assms(1,2) by (cases v) (auto simp: clean_path_def split: if_splits)
  have "dropWhile is_slash v = s" using v by (cases s) (auto simp: is_slash_def)
  moreover have "dropWhile is_slash (rev s) = rev s" using v(2,4) by (cases s rule: rev_cases) (auto simp: is_slash_def)
  ultimately show ?thesis using assms v(1,2) by (simp add: normalizePath_def)
qed

lemma or_env_path:
  assumes "given_by c env env' f" "f = Relay_path \<or> f = Health_path"
  shows "or_env (cli_field f c) (normalizePath (env (flag_var f)) d) = normalizePath (env' (flag_var f)) d"
  using assms clean_path_fixed [of "cli_field f c" d] by (auto simp: given_by_def or_env_def flag_value_ok_def)

lemma or_env_others:
  "given_by c env env' Upstream \<Longrightarrow>
     or_env (cli_field Upstream c) (trim (case env (flag_var Upstream) of None \<Rightarrow> d | Some u \<Rightarrow> if u = [] then d else u))
       = trim (case env' (flag_var Upstream) of None \<Rightarrow> d | Some u \<Rightarrow> if u = [] then d else u)"
  "given_by c env env' Tls_reject \<Longrightarrow>
     or_env (cli_field Tls_reject c) (case env (flag_var Tls_reject) of None \<Rightarrow> d | Some v \<Rightarrow> v)
       = (case env' (flag_var Tls_reject) of None \<Rightarrow> d | Some v \<Rightarrow> v)"
  "given_by c env env' Host \<Longrightarrow>
     or_env (cli_field Host c) (let h = env_text env (flag_var Host) d in if h = [] then d else h)
       = (let h = env_text env' (flag_var Host) d in if h = [] then d else h)"
  by (auto simp: given_by_def or_env_def flag_value_ok_def env_text_def Let_def)

lemma flags_as_environment:
  assumes g: "\<And>f. given_by c env env' f"
  shows "cli_values (parseRelayProxyEnv env) c = Inr (parseRelayProxyEnv env')"
proof -
  have ok: "flag_value_ok Port v \<Longrightarrow> int_in 1 65535 v" "flag_value_ok Max_connections v \<Longrightarrow> int_in 1 10000 v"
    "flag_value_ok Idle_timeout v \<Longrightarrow> int_in 1000 600000 v" "flag_value_ok Shutdown_timeout v \<Longrightarrow> int_in 1000 60000 v" for v
    by (simp_all add: flag_value_ok_def)
  note facts = positive_arg [OF g [of Port] ok(1)] positive_arg [OF g [of Max_connections] ok(2)]
    positive_arg [OF g [of Idle_timeout] ok(3)] positive_arg [OF g [of Shutdown_timeout] ok(4)]
    or_env_text [OF g, of Token] or_env_text [OF g, of Allowed_origins] or_env_text [OF g, of Subprotocols]
    or_env_text [OF g, of Tls_ca] or_env_text [OF g, of Tls_cert] or_env_text [OF g, of Tls_key] or_env_text [OF g, of Tls_pfx]
    or_env_text [OF g, of Tls_passphrase] or_env_text [OF g, of Tls_servername] or_env_text [OF g, of Tls_min]
    or_env_text [OF g, of Tls_max] or_env_text [OF g, of Tls_restart]
    or_env_others(1) [OF g] or_env_others(2) [OF g] or_env_others(3) [OF g] or_env_path [OF g [of Relay_path] disjI1 [OF refl]]
    or_env_path [OF g [of Health_path] disjI2 [OF refl]] watch_arg [OF g]
  have le: "(1::int) \<le> 1" "(1::int) \<le> 1000" by simp_all
  show ?thesis
    unfolding cli_values_def parseRelayProxyEnv_def parsed_env.select_convs
    by (simp only: facts [unfolded cli_field.simps flag_var.simps] le bind_result_simps)
qed

text \<open>
  C32: the flags of the relay and its environment variables are two spellings of the same configuration. For values that are
  trimmed, with paths in normal form and numbers within the documented ranges, starting the relay with any sequence of flags
  behaves exactly as starting it without arguments in the environment where these flags' variables have been set, one after
  the other: the same relay options, or the same error.
\<close>

theorem flags_are_environment:
  assumes "list_all (\<lambda>(f, v). flag_value_ok f v) fs"
  shows "relay_main url read_file env (flag_args fs) = relay_main url read_file (with_flags env fs) []"
proof -
  have none: "given_by empty_config e e f" for e f by (simp add: given_by_def)
  show ?thesis
    using flags_as_environment [OF fold_given [OF assms, of env]] flags_as_environment [OF none, of "with_flags env fs"] fold_help [of fs empty_config]
    by (simp add: relay_main_def relay_parseArgs_flags [OF assms])
qed

definition demo_flags :: "(relay_flag \<times> string) list" where
  "demo_flags = [(Port, ''9000''), (Token, ''first''), (Tls_min, ''TLSv1.2''), (Tls_max, ''TLSv1.3''), (Relay_path, ''/relay''), (Token, ''second'')]"

theorem flags_are_environment_witness:
  "relay_main ws_url no_file (\<lambda>_. None) (flag_args demo_flags) = relay_main ws_url no_file (with_flags (\<lambda>_. None) demo_flags) []
   \<and> flag_args demo_flags = [''--port'', ''9000'', ''--token'', ''first'', ''--upstream-tls-min-version'', ''TLSv1.2'',
        ''--upstream-tls-max-version'', ''TLSv1.3'', ''--relay-path'', ''/relay'', ''--token'', ''second'']"
proof -
  have "list_all (\<lambda>(f, v). flag_value_ok f v) demo_flags" by code_simp
  moreover have "flag_args demo_flags = [''--port'', ''9000'', ''--token'', ''first'', ''--upstream-tls-min-version'', ''TLSv1.2'',
        ''--upstream-tls-max-version'', ''TLSv1.3'', ''--relay-path'', ''/relay'', ''--token'', ''second'']" by (simp add: flag_args_def demo_flags_def)
  ultimately show ?thesis using flags_are_environment by blast
qed

section \<open>Where they differ\<close>

text \<open>
  The upper bounds of the environment are missing for flags: an idle timeout of 4294967296 is taken, where the variable with
  this value is replaced by the default. A blank token on the command line switches authentication off, whatever the environment says, while
  \<open>--token-from-env\<close> refuses a blank value.
\<close>

theorem idle_flag_unbounded:
  "parsePositiveIntArg ''4294967296'' d = Inr 4294967296 \<and> parseBoundedInteger (Some ''4294967296'') 120000 1000 600000 = 120000"
  by (simp add: parsePositiveIntArg_def parseBoundedInteger_def trim_def is_ws_def strict_int_text_def startsWith_def is_digit_def
      parseInt_def double_overflow_def)

theorem blank_token_disables_authentication:
  assumes "relay_main url read_file env [''--token'', '' ''] = Inr (Relay_listens given r)"
  shows "requiredToken r = []"
proof -
  have p: "relay_parseArgs env [''--token'', '' ''] empty_config = Inr (set_flag Token '' '' empty_config)"
    using flag_of_name [of Token] by simp
  have "bind_result (cli_values (parseRelayProxyEnv env) (set_flag Token '' '' empty_config)) (\<lambda>collected.
      bind_result (normalizeRelayOptions url read_file (EnvValues collected)) (\<lambda>values.
      bind_result (normalizeRuntimeOptions url values) (\<lambda>runtime. Inr (Relay_listens values runtime)))) = Inr (Relay_listens given r)"
    using assms unfolding relay_main_def p bind_result_simps set_flag_help by simp
  then obtain e g rr where e: "cli_values (parseRelayProxyEnv env) (set_flag Token '' '' empty_config) = Inr e"
    and "normalizeRelayOptions url read_file (EnvValues e) = Inr g" "normalizeRuntimeOptions url g = Inr rr"
      "(Inr (Relay_listens g rr) :: (jsval, relay_start) result) = Inr (Relay_listens given r)"
    unfolding bind_result_Inr by blast
  then have n: "normalizeRelayOptions url read_file (EnvValues e) = Inr given" "normalizeRuntimeOptions url given = Inr r" by simp_all
  have "pe_requiredToken e = '' ''" using e by (auto simp: cli_values_def bind_result_Inr or_env_def)
  then have "ro_requiredToken given = Some '' ''" using n(1) by (auto simp: bind_result_Inr)
  then show ?thesis using n(2) by (auto simp: normalizeRuntimeOptions_def bind_result_Inr trim_def is_ws_def)
qed

lemma token_from_env_not_blank: "token_from_env env v = Inr t \<Longrightarrow> trim t \<noteq> []"
  by (auto simp: token_from_env_def Let_def split: option.splits if_splits)

end
