(* ===== verification/Relay_Proxy.thy ===== *)
theory Relay_Proxy
  imports Relay_Options
begin

text \<open>
  The relay proxy at work, \<open>createRelayProxyServer\<close> in \<^verbatim>\<open>packages/commandrelay-relay-proxy/src/index.ts\<close>, and the
  guards of \<^verbatim>\<open>request-guards.ts\<close>. The sockets are objects of the \<open>ws\<close> package: what the code sees of one is
  its \<open>readyState\<close>, which changes between handlers, and whether \<open>send\<close> and \<open>close\<close> throw, which each event
  carries along. The session objects live in a store, because the closures of a session keep it after it has left
  the \<open>sessions\<close> map. A reservation of an upgrade is the \<open>inFlightReserved\<close> flag of one call of \<open>onUpgrade\<close>.
  Handlers run to their end before the next event.
\<close>

section \<open>Request guards\<close>

record upgrade_request =
  rq_method :: string
  rq_url :: string
  rq_origin :: "string option"
  rq_authorization :: "string option"

text \<open>
  \<open>pathname\<close> stands for \<open>new URL(u, base).pathname\<close>, nothing when the constructor throws; \<open>sha\<close> for the hash.
\<close>

definition isRelayPath :: "(string \<Rightarrow> string option) \<Rightarrow> upgrade_request \<Rightarrow> string \<Rightarrow> (jsval, bool) result" where
  "isRelayPath pathname rq relay_path =
     (case pathname (rq_url rq) of None \<Rightarrow> Inl (err ''Invalid URL'') | Some p \<Rightarrow> Inr (p = relay_path))"

definition isOriginAllowed :: "string option \<Rightarrow> string list \<Rightarrow> bool" where
  "isOriginAllowed originHeader origins =
     (if origins = [] then True else case originHeader of None \<Rightarrow> False | Some h \<Rightarrow> h \<in> set origins)"

definition extractBearerTokenFromRequest :: "upgrade_request \<Rightarrow> string" where
  "extractBearerTokenFromRequest rq =
     (case rq_authorization rq of
        Some bearer \<Rightarrow> (if startsWith (toLowerCase bearer) ''bearer '' then trim (drop 7 bearer) else [])
      | None \<Rightarrow> [])"

definition constantTimeEquals :: "nat list \<Rightarrow> nat list \<Rightarrow> bool" where
  "constantTimeEquals left right = (if length left \<noteq> length right then False else list_all2 (=) left right)"

definition isTokenValidFromRequest :: "(string \<Rightarrow> nat list) \<Rightarrow> upgrade_request \<Rightarrow> string \<Rightarrow> bool" where
  "isTokenValidFromRequest sha rq required =
     (if required = [] then True else constantTimeEquals (sha required) (sha (extractBearerTokenFromRequest rq)))"

section \<open>Sessions\<close>

datatype ready_state = CONNECTING | OPEN | CLOSING | CLOSED

datatype side = Client_side | Upstream_side

datatype raw_data = Raw_text string | Raw_view "nat list" | Raw_buffer "nat list" | Raw_parts "nat list list"

fun getByteLength :: "raw_data \<Rightarrow> int" where
  "getByteLength (Raw_text s) = byteLength s"
| "getByteLength (Raw_view b) = int (length b)"
| "getByteLength (Raw_buffer b) = int (length b)"
| "getByteLength (Raw_parts bs) = 0"

definition MAX_WS_PAYLOAD_BYTES :: int where
  "MAX_WS_PAYLOAD_BYTES = 1024 * 1024 * 4"

definition MAX_UPSTREAM_PENDING_MESSAGES :: nat where
  "MAX_UPSTREAM_PENDING_MESSAGES = 64"

definition MAX_UPSTREAM_PENDING_BYTES :: int where
  "MAX_UPSTREAM_PENDING_BYTES = MAX_WS_PAYLOAD_BYTES * 4"

record relay_session =
  rs_clientState :: ready_state
  rs_upstreamState :: ready_state
  rs_lastActivityAtMs :: int
  rs_upstreamBytes :: int
  rs_downstreamBytes :: int
  rs_idleTimer :: bool
  rs_pending :: "raw_data list"
  rs_queuedBytes :: int
  rs_isClosing :: bool
  rs_listening :: bool
  rs_lateDispose :: bool

record relay =
  rl_active :: int
  rl_total :: int
  rl_peak :: int
  rl_upstreamBytes :: int
  rl_downstreamBytes :: int
  rl_sessions :: "string list"
  rl_objects :: "(string \<times> relay_session) list"
  rl_shuttingDown :: bool
  rl_inFlight :: int
  rl_reserved :: "string list"

datatype relay_effect =
    Sent string side raw_data
  | Close_plain string side
  | Close_code string side int string
  | Destroy_transport string side
  | Http_reply string string
  | Escaped string jsval

text \<open>What the environment decides for one handler.\<close>

record weather =
  w_now :: int
  w_send_ok :: "nat \<Rightarrow> bool"
  w_close_ok :: "side \<Rightarrow> bool"

definition new_relay :: relay where
  "new_relay = \<lparr>rl_active = 0, rl_total = 0, rl_peak = 0, rl_upstreamBytes = 0, rl_downstreamBytes = 0, rl_sessions = [],
     rl_objects = [], rl_shuttingDown = False, rl_inFlight = 0, rl_reserved = []\<rparr>"

definition session_of :: "relay \<Rightarrow> string \<Rightarrow> relay_session option" where
  "session_of r i = map_of (rl_objects r) i"

definition put_session :: "relay \<Rightarrow> string \<Rightarrow> relay_session \<Rightarrow> relay" where
  "put_session r i s = r\<lparr>rl_objects := mput (rl_objects r) i s\<rparr>"

definition state_of :: "relay_session \<Rightarrow> side \<Rightarrow> ready_state" where
  "state_of s d = (case d of Client_side \<Rightarrow> rs_clientState s | Upstream_side \<Rightarrow> rs_upstreamState s)"

definition disposeSocketSafely :: "weather \<Rightarrow> string \<Rightarrow> relay_session \<Rightarrow> side \<Rightarrow> relay_effect \<Rightarrow> relay_effect list" where
  "disposeSocketSafely w i s d closeCall =
     (if state_of s d \<noteq> OPEN then [Destroy_transport i d]
      else if w_close_ok w d then [closeCall] else [Destroy_transport i d])"

definition disposeSocket :: "weather \<Rightarrow> string \<Rightarrow> relay_session \<Rightarrow> side \<Rightarrow> relay_effect list" where
  "disposeSocket w i s d = disposeSocketSafely w i s d (Close_plain i d)"

definition disposeSocketWithCode :: "weather \<Rightarrow> string \<Rightarrow> relay_session \<Rightarrow> side \<Rightarrow> int \<Rightarrow> string \<Rightarrow> relay_effect list" where
  "disposeSocketWithCode w i s d code reason = disposeSocketSafely w i s d (Close_code i d code reason)"

definition closeSession :: "weather \<Rightarrow> string \<Rightarrow> relay_session \<Rightarrow> string \<Rightarrow> bool \<Rightarrow> relay \<Rightarrow> relay \<times> relay_effect list" where
  "closeSession w i s reason immediate r =
     (if rs_isClosing s then (r, [])
      else (let live = sdelete (rl_sessions r) i;
                s1 = s\<lparr>rs_isClosing := True, rs_idleTimer := False, rs_listening := False, rs_lateDispose := \<not> immediate\<rparr>;
                r1 = (put_session r i s1)\<lparr>rl_sessions := live, rl_active := int (length live)\<rparr>
            in (r1, if immediate then disposeSocket w i s Client_side @ disposeSocket w i s Upstream_side
                    else disposeSocketWithCode w i s Client_side 1000 reason @ disposeSocketWithCode w i s Upstream_side 1000 reason)))"

text \<open>\<open>safeSend\<close>, the \<open>n\<close>-th send of the running handler.\<close>

definition safeSend ::
  "weather \<Rightarrow> nat \<Rightarrow> string \<Rightarrow> relay_session \<Rightarrow> side \<Rightarrow> raw_data \<Rightarrow> string \<Rightarrow> relay \<Rightarrow> bool \<times> relay \<times> relay_effect list" where
  "safeSend w n i s d data reason r =
     (if state_of s d \<noteq> OPEN \<or> \<not> w_send_ok w n then (False, closeSession w i s reason True r)
      else (True, r, [Sent i d data]))"

definition onClientMessage :: "weather \<Rightarrow> string \<Rightarrow> relay_session \<Rightarrow> raw_data \<Rightarrow> relay \<Rightarrow> relay \<times> relay_effect list" where
  "onClientMessage w i s data r =
     (if rl_shuttingDown r \<or> rs_isClosing s then (r, [])
      else (let bytes = getByteLength data;
                s1 = s\<lparr>rs_lastActivityAtMs := w_now w, rs_idleTimer := True, rs_upstreamBytes := rs_upstreamBytes s + bytes\<rparr>;
                r1 = (put_session r i s1)\<lparr>rl_upstreamBytes := rl_upstreamBytes r + bytes\<rparr>
            in if rs_upstreamState s1 \<noteq> OPEN then
                 (if length (rs_pending s1) \<ge> MAX_UPSTREAM_PENDING_MESSAGES \<or> rs_queuedBytes s1 + bytes > MAX_UPSTREAM_PENDING_BYTES
                  then closeSession w i s1 ''upstream backlog full'' True r1
                  else (put_session r1 i (s1\<lparr>rs_pending := rs_pending s1 @ [data], rs_queuedBytes := rs_queuedBytes s1 + bytes\<rparr>), []))
               else snd (safeSend w 0 i s1 Upstream_side data ''upstream send failed'' r1)))"

fun send_queued :: "weather \<Rightarrow> nat \<Rightarrow> string \<Rightarrow> relay_session \<Rightarrow> raw_data list \<Rightarrow> relay \<Rightarrow> bool \<times> relay \<times> relay_effect list" where
  "send_queued w n i s [] r = (True, r, [])"
| "send_queued w n i s (d # ds) r =
     (let (ok, r1, fx) = safeSend w n i s Upstream_side d ''upstream queued send failed'' r
      in if \<not> ok then (False, r1, fx)
         else (let (ok2, r2, fx2) = send_queued w (Suc n) i s ds r1 in (ok2, r2, fx @ fx2)))"

definition onUpstreamOpen :: "weather \<Rightarrow> string \<Rightarrow> relay_session \<Rightarrow> relay \<Rightarrow> relay \<times> relay_effect list" where
  "onUpstreamOpen w i s r =
     (let (ok, r1, fx) = send_queued w 0 i s (rs_pending s) r
      in if \<not> ok then (r1, fx)
         else (put_session r1 i (s\<lparr>rs_pending := [], rs_queuedBytes := 0, rs_lastActivityAtMs := w_now w, rs_idleTimer := True\<rparr>), fx))"

definition onUpstreamMessage :: "weather \<Rightarrow> string \<Rightarrow> relay_session \<Rightarrow> raw_data \<Rightarrow> relay \<Rightarrow> relay \<times> relay_effect list" where
  "onUpstreamMessage w i s data r =
     (if rl_shuttingDown r \<or> rs_isClosing s then (r, [])
      else if rs_clientState s \<noteq> OPEN then (r, [])
      else (let bytes = getByteLength data;
                s1 = s\<lparr>rs_lastActivityAtMs := w_now w, rs_idleTimer := True, rs_downstreamBytes := rs_downstreamBytes s + bytes\<rparr>;
                r1 = (put_session r i s1)\<lparr>rl_downstreamBytes := rl_downstreamBytes r + bytes\<rparr>
            in snd (safeSend w 0 i s1 Client_side data ''client send failed'' r1)))"

fun int_less_num :: "int \<Rightarrow> jsnum \<Rightarrow> bool" where
  "int_less_num n (Fin q) = (of_int n < q)"
| "int_less_num n PInf = True"
| "int_less_num n NInf = False"
| "int_less_num n NaN = False"

fun int_ge_num :: "int \<Rightarrow> jsnum \<Rightarrow> bool" where
  "int_ge_num n (Fin q) = (of_int n \<ge> q)"
| "int_ge_num n PInf = False"
| "int_ge_num n NInf = True"
| "int_ge_num n NaN = False"

text \<open>The timer that calls it has fired and is not armed any more.\<close>

definition checkIdleTimeout :: "runtime_options \<Rightarrow> weather \<Rightarrow> string \<Rightarrow> relay_session \<Rightarrow> relay \<Rightarrow> relay \<times> relay_effect list" where
  "checkIdleTimeout cfg w i s0 r0 =
     (let s = s0\<lparr>rs_idleTimer := False\<rparr>; r = put_session r0 i s
      in if rl_shuttingDown r \<or> rs_isClosing s then (r, [])
         else if int_less_num (w_now w - rs_lastActivityAtMs s) (idleTimeoutMs cfg) then (r, [])
         else closeSession w i s ''idle timeout'' True r)"

definition wireSession :: "weather \<Rightarrow> string \<Rightarrow> ready_state \<Rightarrow> relay \<Rightarrow> relay" where
  "wireSession w i clientState r =
     (let s = \<lparr>rs_clientState = clientState, rs_upstreamState = CONNECTING, rs_lastActivityAtMs = w_now w, rs_upstreamBytes = 0,
            rs_downstreamBytes = 0, rs_idleTimer = True, rs_pending = [], rs_queuedBytes = 0, rs_isClosing = False,
            rs_listening = True, rs_lateDispose = False\<rparr>;
          active = rl_active r + 1
      in (put_session r i s)\<lparr>rl_sessions := sadd (rl_sessions r) i, rl_active := active, rl_total := rl_total r + 1,
           rl_peak := (if active > rl_peak r then active else rl_peak r)\<rparr>)"

section \<open>Upgrades and shutdown\<close>

definition releaseInFlightUpgrade :: "string \<Rightarrow> relay \<Rightarrow> relay" where
  "releaseInFlightUpgrade u r =
     (if u \<notin> set (rl_reserved r) then r
      else r\<lparr>rl_inFlight := max 0 (rl_inFlight r - 1), rl_reserved := sdelete (rl_reserved r) u\<rparr>)"

definition CRLF :: string where
  "CRLF = [CHR 0x0D, CHR 0x0A]"

definition onUpgrade ::
  "runtime_options \<Rightarrow> (string \<Rightarrow> string option) \<Rightarrow> (string \<Rightarrow> nat list) \<Rightarrow> string \<Rightarrow> upgrade_request \<Rightarrow> relay \<Rightarrow> relay \<times> relay_effect list" where
  "onUpgrade cfg pathname sha u rq r =
     (let reply = (\<lambda>line. (r, [Http_reply u (''HTTP/1.1 '' @ line @ CRLF @ CRLF)]))
      in if rl_shuttingDown r then reply ''503 Service Unavailable''
         else if rq_method rq \<noteq> ''GET'' then reply ''405 Method Not Allowed''
         else case isRelayPath pathname rq (relayPath cfg) of
           Inl e \<Rightarrow> (r, [Escaped u e])
         | Inr on_path \<Rightarrow>
             (if \<not> on_path then reply ''404 Not Found''
              else if \<not> isOriginAllowed (rq_origin rq) (allowedOrigins cfg) then reply ''403 Forbidden''
              else if \<not> isTokenValidFromRequest sha rq (requiredToken cfg) then
                reply (''401 Unauthorized'' @ CRLF @ ''WWW-Authenticate: Bearer realm='' @ quoted ''commandrelay-relay-proxy'' @ CRLF @
                  ''Connection: close'')
              else if int_ge_num (int (length (rl_sessions r)) + rl_inFlight r) (maxConnections cfg) then
                reply ''503 Too Many Connections''
              else (r\<lparr>rl_inFlight := rl_inFlight r + 1, rl_reserved := sadd (rl_reserved r) u\<rparr>, [])))"

text \<open>The callback of \<open>handleUpgrade\<close>; \<open>dial_ok\<close> says whether the constructor of the upstream socket returns.\<close>

definition client_shell :: "ready_state \<Rightarrow> relay_session" where
  "client_shell st = \<lparr>rs_clientState = st, rs_upstreamState = CLOSED, rs_lastActivityAtMs = 0, rs_upstreamBytes = 0,
     rs_downstreamBytes = 0, rs_idleTimer = False, rs_pending = [], rs_queuedBytes = 0, rs_isClosing = False,
     rs_listening = False, rs_lateDispose = False\<rparr>"

definition upgraded :: "weather \<Rightarrow> string \<Rightarrow> string \<Rightarrow> ready_state \<Rightarrow> bool \<Rightarrow> relay \<Rightarrow> relay \<times> relay_effect list" where
  "upgraded w u i st dial_ok r =
     (if rl_shuttingDown r then
        (releaseInFlightUpgrade u r, disposeSocketWithCode w i (client_shell st) Client_side 1001 ''server shutdown'')
      else if \<not> dial_ok then
        (releaseInFlightUpgrade u r, disposeSocketWithCode w i (client_shell st) Client_side 1011 ''upgrade failure'')
      else (releaseInFlightUpgrade u (wireSession w i st r), []))"

definition upgrade_threw :: "string \<Rightarrow> relay \<Rightarrow> relay \<times> relay_effect list" where
  "upgrade_threw u r = (releaseInFlightUpgrade u r, [Http_reply u (''HTTP/1.1 400 Bad Request'' @ CRLF @ CRLF)])"

fun shutdown_sessions :: "weather \<Rightarrow> string list \<Rightarrow> relay \<Rightarrow> relay \<times> relay_effect list" where
  "shutdown_sessions w [] r = (r, [])"
| "shutdown_sessions w (i # is) r =
     (case session_of r i of
        None \<Rightarrow> shutdown_sessions w is r
      | Some s \<Rightarrow>
          (let r1 = (put_session r i (s\<lparr>rs_listening := False, rs_idleTimer := False\<rparr>))\<lparr>rl_sessions := sdelete (rl_sessions r) i\<rparr>;
               (r2, fx) = shutdown_sessions w is r1
           in (r2, disposeSocketWithCode w i s Client_side 1001 ''server shutdown'' @
                   disposeSocketWithCode w i s Upstream_side 1001 ''server shutdown'' @ fx)))"

definition relay_close :: "weather \<Rightarrow> relay \<Rightarrow> relay \<times> relay_effect list" where
  "relay_close w r =
     (if rl_shuttingDown r then (r, [])
      else (let (r1, fx) = shutdown_sessions w (rl_sessions r) (r\<lparr>rl_shuttingDown := True\<rparr>) in (r1\<lparr>rl_active := 0\<rparr>, fx)))"

section \<open>Events\<close>

text \<open>
  An upgrade request arrives, its handshake ends (with the id of the new session, the state of the client socket and
  whether the upstream socket could be created) or throws; the events of the two sockets of a session; its two timers; a socket that leaves
  the open state; the shutdown. A socket becomes open with its \<open>open\<close> event and not otherwise.
\<close>

datatype relay_event =
    Upgrade string upgrade_request
  | Upgraded string string ready_state bool
  | Upgrade_threw string
  | Client_message string raw_data
  | Client_closed string
  | Client_error string
  | Upstream_opened string
  | Upstream_message string raw_data
  | Upstream_closed string
  | Upstream_error string
  | Idle_timer string
  | Late_timer string
  | Socket_leaves string side ready_state
  | Shutdown

definition on_session :: "relay \<Rightarrow> string \<Rightarrow> (relay_session \<Rightarrow> bool) \<Rightarrow> (relay_session \<Rightarrow> relay \<times> relay_effect list) \<Rightarrow> relay \<times> relay_effect list" where
  "on_session r i ready f = (case session_of r i of None \<Rightarrow> (r, []) | Some s \<Rightarrow> (if ready s then f s else (r, [])))"

fun relay_handle ::
  "runtime_options \<Rightarrow> (string \<Rightarrow> string option) \<Rightarrow> (string \<Rightarrow> nat list) \<Rightarrow> weather \<Rightarrow> relay_event \<Rightarrow> relay \<Rightarrow> relay \<times> relay_effect list" where
  "relay_handle cfg pathname sha w (Upgrade u rq) r = onUpgrade cfg pathname sha u rq r"
| "relay_handle cfg pathname sha w (Upgraded u i st dial_ok) r =
     (if u \<in> set (rl_reserved r) then upgraded w u i st dial_ok r else (r, []))"
| "relay_handle cfg pathname sha w (Upgrade_threw u) r =
     (if u \<in> set (rl_reserved r) then upgrade_threw u r else (r, []))"
| "relay_handle cfg pathname sha w (Client_message i d) r = on_session r i rs_listening (\<lambda>s. onClientMessage w i s d r)"
| "relay_handle cfg pathname sha w (Client_closed i) r =
     on_session r i rs_listening (\<lambda>s. closeSession w i s ''client closed'' False r)"
| "relay_handle cfg pathname sha w (Client_error i) r =
     on_session r i rs_listening (\<lambda>s. closeSession w i s ''client error'' True r)"
| "relay_handle cfg pathname sha w (Upstream_opened i) r =
     on_session r i (\<lambda>s. rs_upstreamState s = CONNECTING) (\<lambda>s.
       (let s1 = s\<lparr>rs_upstreamState := OPEN\<rparr>; r1 = put_session r i s1
        in if rs_listening s1 then onUpstreamOpen w i s1 r1 else (r1, [])))"
| "relay_handle cfg pathname sha w (Upstream_message i d) r = on_session r i rs_listening (\<lambda>s. onUpstreamMessage w i s d r)"
| "relay_handle cfg pathname sha w (Upstream_closed i) r =
     on_session r i rs_listening (\<lambda>s. closeSession w i s ''upstream closed'' False r)"
| "relay_handle cfg pathname sha w (Upstream_error i) r =
     on_session r i rs_listening (\<lambda>s. closeSession w i s ''upstream error'' True r)"
| "relay_handle cfg pathname sha w (Idle_timer i) r = on_session r i rs_idleTimer (\<lambda>s. checkIdleTimeout cfg w i s r)"
| "relay_handle cfg pathname sha w (Late_timer i) r =
     on_session r i rs_lateDispose (\<lambda>s. (put_session r i (s\<lparr>rs_lateDispose := False\<rparr>),
       disposeSocket w i s Client_side @ disposeSocket w i s Upstream_side))"
| "relay_handle cfg pathname sha w (Socket_leaves i d st) r =
     on_session r i (\<lambda>s. st = CLOSING \<or> st = CLOSED) (\<lambda>s.
       (put_session r i (case d of Client_side \<Rightarrow> s\<lparr>rs_clientState := st\<rparr> | Upstream_side \<Rightarrow> s\<lparr>rs_upstreamState := st\<rparr>), []))"
| "relay_handle cfg pathname sha w Shutdown r = relay_close w r"

end
