(* ===== verification/Relay_Guarantees.thy ===== *)
theory Relay_Guarantees
  imports Relay_Proxy
begin

text \<open>
  What the relay proxy promises: a limit on connections and on queued data, frames in order and without loss between the two
  sockets of a session, and admission only with the configured token and origin. Each handler is first shown to
  touch one session object and to move frames in order; the invariant of a run follows from that.
\<close>

section \<open>Frames that cross the relay\<close>

fun sent_frame :: "string \<Rightarrow> side \<Rightarrow> relay_effect \<Rightarrow> raw_data list" where
  "sent_frame i d (Sent j e x) = (if j = i \<and> e = d then [x] else [])"
| "sent_frame i d _ = []"

definition sent_to :: "string \<Rightarrow> side \<Rightarrow> relay_effect list \<Rightarrow> raw_data list" where
  "sent_to i d fx = concat (map (sent_frame i d) fx)"

lemma sent_to_simps [simp]:
  "sent_to i d [] = []"
  "sent_to i d (e # fx) = sent_frame i d e @ sent_to i d fx"
  "sent_to i d (fx @ fy) = sent_to i d fx @ sent_to i d fy"
  by (simp_all add: sent_to_def)

definition hears :: "relay \<Rightarrow> relay_session \<Rightarrow> bool" where
  "hears r s \<longleftrightarrow> rs_listening s \<and> \<not> rs_isClosing s \<and> \<not> rl_shuttingDown r"

definition taken :: "relay \<Rightarrow> relay_event \<Rightarrow> string \<Rightarrow> side \<Rightarrow> raw_data list" where
  "taken r ev i d =
     (case session_of r i of
        None \<Rightarrow> []
      | Some s \<Rightarrow>
          (if \<not> hears r s then []
           else case ev of
             Client_message j x \<Rightarrow> (if j = i \<and> d = Upstream_side then [x] else [])
           | Upstream_message j x \<Rightarrow> (if j = i \<and> d = Client_side \<and> rs_clientState s = OPEN then [x] else [])
           | _ \<Rightarrow> []))"

definition queued :: "relay_session \<Rightarrow> side \<Rightarrow> raw_data list" where
  "queued s d = (case d of Upstream_side \<Rightarrow> rs_pending s | Client_side \<Rightarrow> [])"

section \<open>One handler\<close>

definition queue_bytes :: "raw_data list \<Rightarrow> int" where
  "queue_bytes q = sum_list (map getByteLength q)"

definition session_ok :: "relay_session \<Rightarrow> bool" where
  "session_ok s \<longleftrightarrow> length (rs_pending s) \<le> MAX_UPSTREAM_PENDING_MESSAGES \<and> rs_queuedBytes s = queue_bytes (rs_pending s) \<and>
     rs_queuedBytes s \<le> MAX_UPSTREAM_PENDING_BYTES \<and> (rs_idleTimer s \<longrightarrow> rs_listening s) \<and>
     (rs_listening s \<longrightarrow> \<not> rs_isClosing s \<and> (rs_upstreamState s = OPEN \<longrightarrow> rs_pending s = []))"

text \<open>The handler replaced the object of session \<open>i\<close> by \<open>s'\<close> and removed it from the map if it does not listen any more.\<close>

definition touches :: "string \<Rightarrow> relay \<Rightarrow> relay_session \<Rightarrow> relay \<Rightarrow> bool" where
  "touches i r s' r' \<longleftrightarrow> session_of r' = (session_of r)(i \<mapsto> s') \<and>
     rl_sessions r' = (if rs_listening s' then rl_sessions r else sdelete (rl_sessions r) i) \<and>
     rl_active r' = int (length (rl_sessions r')) \<and> rl_shuttingDown r' = rl_shuttingDown r \<and>
     rl_inFlight r' = rl_inFlight r \<and> rl_reserved r' = rl_reserved r \<and> rl_total r' = rl_total r \<and> rl_peak r' = rl_peak r"

definition moves :: "string \<Rightarrow> relay_session \<Rightarrow> relay_session \<Rightarrow> (side \<Rightarrow> raw_data list) \<Rightarrow> relay_effect list \<Rightarrow> bool" where
  "moves i s s' tk fx \<longleftrightarrow> (\<forall>j d. j \<noteq> i \<longrightarrow> sent_to j d fx = []) \<and>
     (rs_listening s' \<longrightarrow> rs_listening s \<and> (\<forall>d. sent_to i d fx @ queued s' d = queued s d @ tk d)) \<and>
     (\<not> rs_listening s' \<longrightarrow> (\<forall>d. prefix (sent_to i d fx) (queued s d @ tk d))) \<and>
     (\<not> rs_listening s \<longrightarrow> (\<forall>d. sent_to i d fx = []))"

lemma session_of_put [simp]: "session_of (put_session r i s) = (session_of r)(i \<mapsto> s)"
  by (simp add: session_of_def put_session_def fun_eq_iff)

lemma session_of_update [simp]:
  "session_of (r\<lparr>rl_sessions := a\<rparr>) = session_of r" "session_of (r\<lparr>rl_active := b\<rparr>) = session_of r"
  "session_of (r\<lparr>rl_upstreamBytes := b\<rparr>) = session_of r" "session_of (r\<lparr>rl_downstreamBytes := b\<rparr>) = session_of r"
  "session_of (r\<lparr>rl_total := b\<rparr>) = session_of r" "session_of (r\<lparr>rl_peak := b\<rparr>) = session_of r"
  "session_of (r\<lparr>rl_inFlight := b\<rparr>) = session_of r" "session_of (r\<lparr>rl_reserved := a\<rparr>) = session_of r"
  "session_of (r\<lparr>rl_shuttingDown := c\<rparr>) = session_of r"
  by (simp_all add: session_of_def fun_eq_iff)

lemma put_session_simps [simp]:
  "rl_sessions (put_session r i s) = rl_sessions r" "rl_active (put_session r i s) = rl_active r"
  "rl_total (put_session r i s) = rl_total r" "rl_peak (put_session r i s) = rl_peak r"
  "rl_inFlight (put_session r i s) = rl_inFlight r" "rl_reserved (put_session r i s) = rl_reserved r"
  "rl_shuttingDown (put_session r i s) = rl_shuttingDown r" "rl_upstreamBytes (put_session r i s) = rl_upstreamBytes r"
  "rl_downstreamBytes (put_session r i s) = rl_downstreamBytes r"
  by (simp_all add: put_session_def)

lemma dispose_sends_nothing [simp]:
  "sent_to j d (disposeSocket w i s e) = []" "sent_to j d (disposeSocketWithCode w i s e code reason) = []"
  by (simp_all add: disposeSocket_def disposeSocketWithCode_def disposeSocketSafely_def)

text \<open>A session that closes: its object does not listen, the queue is kept, nothing is sent.\<close>

definition closed_form :: "relay_session \<Rightarrow> bool \<Rightarrow> relay_session" where
  "closed_form s immediate =
     s\<lparr>rs_isClosing := True, rs_idleTimer := False, rs_listening := False, rs_lateDispose := \<not> immediate\<rparr>"

lemma closeSession_touches:
  assumes "closeSession w i s reason imm r1 = (r', fx)" "\<not> rs_isClosing s" "touches i r s0 r1" "rs_listening s0"
  shows "touches i r (closed_form s imm) r' \<and> (\<forall>j d. sent_to j d fx = [])"
  using assms by (auto simp: closeSession_def Let_def touches_def closed_form_def fun_upd_idem_iff)

lemma closed_form_simps [simp]:
  "rs_listening (closed_form s imm) = False" "rs_pending (closed_form s imm) = rs_pending s"
  "rs_idleTimer (closed_form s imm) = False" "rs_queuedBytes (closed_form s imm) = rs_queuedBytes s" "queued (closed_form s imm) d = queued s d"
  by (simp_all add: closed_form_def queued_def split: side.splits)

lemma session_ok_closed: "session_ok s \<Longrightarrow> session_ok (closed_form s imm)"
  by (simp add: session_ok_def)

definition handled :: "string \<Rightarrow> relay \<Rightarrow> relay_session \<Rightarrow> (side \<Rightarrow> raw_data list) \<Rightarrow> relay \<times> relay_effect list \<Rightarrow> bool" where
  "handled i r s tk res \<longleftrightarrow> (\<exists>s'. touches i r s' (fst res) \<and> session_ok s' \<and> moves i s s' tk (snd res))"

lemma handledI: "touches i r s' r' \<Longrightarrow> session_ok s' \<Longrightarrow> moves i s s' tk fx \<Longrightarrow> handled i r s tk (r', fx)"
  unfolding handled_def by auto

lemma touches_self:
  assumes "rl_active r = int (length (rl_sessions r))" "rs_listening s'"
  shows "touches i r s' (put_session r i s')"
  using assms by (simp add: touches_def)

text \<open>Closing after nothing was sent, with whatever frames the event carried.\<close>

lemma handled_close:
  assumes "rs_listening s1" "\<not> rs_isClosing s1" "session_ok s1" "touches i r s1 r1" "\<And>d. queued s1 d = queued s d"
  shows "handled i r s tk (closeSession w i s1 reason imm r1)"
proof -
  obtain r' fx where c: "closeSession w i s1 reason imm r1 = (r', fx)" by fastforce
  from closeSession_touches [OF c assms(2,4,1)]
  have "touches i r (closed_form s1 imm) r'" and "\<forall>j d. sent_to j d fx = []" by auto
  then show ?thesis
    unfolding c using session_ok_closed [OF assms(3)] by (intro handledI) (auto simp: moves_def)
qed

lemma onClientMessage_handled:
  assumes "rs_listening s" "session_ok s" "session_of r i = Some s" "rl_active r = int (length (rl_sessions r))" "\<not> rl_shuttingDown r"
  shows "handled i r s (taken r (Client_message i x) i) (onClientMessage w i s x r)"
proof -
  have nc: "\<not> rs_isClosing s" using assms(1,2) by (simp add: session_ok_def)
  define s1 where "s1 = s\<lparr>rs_lastActivityAtMs := w_now w, rs_idleTimer := True, rs_upstreamBytes := rs_upstreamBytes s + getByteLength x\<rparr>"
  define r1 where "r1 = (put_session r i s1)\<lparr>rl_upstreamBytes := rl_upstreamBytes r + getByteLength x\<rparr>"
  have s1: "rs_listening s1" "\<not> rs_isClosing s1" "session_ok s1" "rs_pending s1 = rs_pending s" "queued s1 d = queued s d" for d
    using assms(1,2) nc by (auto simp: s1_def session_ok_def queued_def split: side.splits)
  have t1: "touches i r s1 r1" using assms(4) s1(1) by (simp add: touches_def r1_def)
  have tk: "taken r (Client_message i x) i d = (if d = Upstream_side then [x] else [])" for d
    using assms(1,3,5) nc by (simp add: taken_def hears_def)
  have run: "onClientMessage w i s x r =
    (if rs_upstreamState s1 \<noteq> OPEN then
       (if length (rs_pending s1) \<ge> MAX_UPSTREAM_PENDING_MESSAGES \<or> rs_queuedBytes s1 + getByteLength x > MAX_UPSTREAM_PENDING_BYTES
        then closeSession w i s1 ''upstream backlog full'' True r1
        else (put_session r1 i (s1\<lparr>rs_pending := rs_pending s1 @ [x], rs_queuedBytes := rs_queuedBytes s1 + getByteLength x\<rparr>), []))
     else snd (safeSend w 0 i s1 Upstream_side x ''upstream send failed'' r1))"
    using assms(5) nc by (simp add: onClientMessage_def Let_def s1_def r1_def)
  show ?thesis
  proof (cases "rs_upstreamState s1 = OPEN")
    case True
    then have q: "rs_pending s1 = []" using s1(1,3) by (simp add: session_ok_def)
    show ?thesis
    proof (cases "w_send_ok w 0")
      case ok: True
      then have "onClientMessage w i s x r = (r1, [Sent i Upstream_side x])"
        unfolding run using True by (simp add: safeSend_def state_of_def)
      moreover have "moves i s s1 (taken r (Client_message i x) i) [Sent i Upstream_side x]"
        using assms(1) s1 q by (auto simp: moves_def tk queued_def split: side.splits)
      ultimately show ?thesis using t1 s1(3) by (simp add: handledI)
    next
      case False
      then show ?thesis unfolding run using True handled_close [OF s1(1-3) t1 s1(5)] by (simp add: safeSend_def)
    qed
  next
    case False
    show ?thesis
    proof (cases "length (rs_pending s1) \<ge> MAX_UPSTREAM_PENDING_MESSAGES \<or> rs_queuedBytes s1 + getByteLength x > MAX_UPSTREAM_PENDING_BYTES")
      case True
      then show ?thesis unfolding run using False handled_close [OF s1(1-3) t1 s1(5)] by simp
    next
      case fits: False
      let ?s2 = "s1\<lparr>rs_pending := rs_pending s1 @ [x], rs_queuedBytes := rs_queuedBytes s1 + getByteLength x\<rparr>"
      have "session_ok ?s2" using fits False s1(1-3) by (auto simp: session_ok_def queue_bytes_def)
      moreover have "moves i s ?s2 (taken r (Client_message i x) i) []"
        using assms(1) s1 by (auto simp: moves_def tk queued_def split: side.splits)
      moreover have "touches i r ?s2 (put_session r1 i ?s2)" using t1 s1(1) by (simp add: touches_def)
      ultimately show ?thesis unfolding run using False fits by (simp add: handledI)
    qed
  qed
qed

text \<open>The loop over the queue sends a prefix of it, all of it when it succeeds.\<close>

lemma send_queued_run:
  assumes "rs_listening s" "\<not> rs_isClosing s" "touches i r s r1" "rs_upstreamState s = OPEN"
  shows "send_queued w n i s q r1 = (ok, r', fx) \<Longrightarrow>
    (\<forall>j d. (j \<noteq> i \<or> d \<noteq> Upstream_side) \<longrightarrow> sent_to j d fx = []) \<and> prefix (sent_to i Upstream_side fx) q \<and>
    (if ok then r' = r1 \<and> sent_to i Upstream_side fx = q else touches i r (closed_form s True) r')"
proof (induction q arbitrary: n ok r' fx)
  case (Cons x q)
  show ?case
  proof (cases "w_send_ok w n")
    case True
    obtain ok2 r2 fx2 where rest: "send_queued w (Suc n) i s q r1 = (ok2, r2, fx2)" by (metis prod_cases3)
    have "ok = ok2" "r' = r2" "fx = Sent i Upstream_side x # fx2"
      using Cons.prems True assms(4) rest by (auto simp: safeSend_def state_of_def)
    then show ?thesis using Cons.IH [OF rest] by auto
  next
    case False
    then have "ok = False" "closeSession w i s ''upstream queued send failed'' True r1 = (r', fx)"
      using Cons.prems by (auto simp: safeSend_def split: prod.splits)
    then show ?thesis using closeSession_touches [OF _ assms(2,3,1)] by auto
  qed
qed simp

lemma onUpstreamOpen_handled:
  assumes "rs_listening s" "session_ok s" "session_of r i = Some s" "rl_active r = int (length (rl_sessions r))"
    "rs_upstreamState s = CONNECTING" "s1 = s\<lparr>rs_upstreamState := OPEN\<rparr>"
  shows "handled i r s (taken r (Upstream_opened i) i) (onUpstreamOpen w i s1 (put_session r i s1))"
proof -
  have nc: "\<not> rs_isClosing s1" "rs_listening s1" "rs_upstreamState s1 = OPEN" using assms(1,2,6) by (auto simp: session_ok_def)
  have t1: "touches i r s1 (put_session r i s1)" by (rule touches_self [OF assms(4) nc(2)])
  obtain ok r' fx where q: "send_queued w 0 i s1 (rs_pending s1) (put_session r i s1) = (ok, r', fx)" by (metis prod_cases3)
  note run = send_queued_run [OF nc(2,1) t1 nc(3) q]
  have tk: "taken r (Upstream_opened i) i d = []" for d using assms(3) by (simp add: taken_def)
  have pend: "rs_pending s1 = rs_pending s" using assms(6) by simp
  show ?thesis
  proof (cases ok)
    case True
    let ?s2 = "s1\<lparr>rs_pending := [], rs_queuedBytes := 0, rs_lastActivityAtMs := w_now w, rs_idleTimer := True\<rparr>"
    have r': "r' = put_session r i s1" using run True by simp
    have "touches i r ?s2 (put_session r' i ?s2)" using assms(4) nc(2) by (simp add: touches_def r')
    moreover have "session_ok ?s2"
      using nc by (simp add: session_ok_def queue_bytes_def MAX_UPSTREAM_PENDING_BYTES_def MAX_WS_PAYLOAD_BYTES_def)
    moreover have "moves i s ?s2 (taken r (Upstream_opened i) i) fx"
      using run True assms(1) nc(2) pend by (auto simp: moves_def tk queued_def split: side.splits)
    ultimately show ?thesis using q True by (simp add: onUpstreamOpen_def handledI)
  next
    case False
    have "session_ok (closed_form s1 True)" using assms(2,6) by (simp add: session_ok_def)
    moreover have "moves i s (closed_form s1 True) (taken r (Upstream_opened i) i) fx"
      using run False assms(1) pend by (auto simp: moves_def tk queued_def split: side.splits)
    ultimately show ?thesis using q False run by (auto simp: onUpstreamOpen_def intro: handledI)
  qed
qed

lemma handled_ignored:
  assumes "session_of r i = Some s" "session_ok s" "rs_listening s" "rl_active r = int (length (rl_sessions r))" "\<And>d. tk d = []"
  shows "handled i r s tk (r, [])"
proof (rule handledI)
  show "touches i r s r" using assms(1,3,4) by (simp add: touches_def fun_upd_idem)
  show "moves i s s tk []" using assms(3,5) by (simp add: moves_def)
qed (rule assms(2))

lemma onUpstreamMessage_handled:
  assumes "rs_listening s" "session_ok s" "session_of r i = Some s" "rl_active r = int (length (rl_sessions r))" "\<not> rl_shuttingDown r"
  shows "handled i r s (taken r (Upstream_message i x) i) (onUpstreamMessage w i s x r)"
proof -
  have nc: "\<not> rs_isClosing s" using assms(1,2) by (simp add: session_ok_def)
  have tk: "taken r (Upstream_message i x) i d = (if d = Client_side \<and> rs_clientState s = OPEN then [x] else [])" for d
    using assms(1,3,5) nc by (simp add: taken_def hears_def)
  define s1 where "s1 = s\<lparr>rs_lastActivityAtMs := w_now w, rs_idleTimer := True, rs_downstreamBytes := rs_downstreamBytes s + getByteLength x\<rparr>"
  define r1 where "r1 = (put_session r i s1)\<lparr>rl_downstreamBytes := rl_downstreamBytes r + getByteLength x\<rparr>"
  have s1: "rs_listening s1" "\<not> rs_isClosing s1" "session_ok s1" "queued s1 d = queued s d" for d
    using assms(1,2) nc by (auto simp: s1_def session_ok_def queued_def split: side.splits)
  have t1: "touches i r s1 r1" using assms(4) s1(1) by (simp add: touches_def r1_def)
  have run: "onUpstreamMessage w i s x r = (if rs_clientState s \<noteq> OPEN then (r, []) else snd (safeSend w 0 i s1 Client_side x ''client send failed'' r1))"
    using assms(5) nc by (simp add: onUpstreamMessage_def Let_def s1_def r1_def)
  show ?thesis
  proof (cases "rs_clientState s = OPEN")
    case False
    then show ?thesis unfolding run using handled_ignored [OF assms(3,2,1,4)] by (simp add: tk)
  next
    case True
    show ?thesis
    proof (cases "w_send_ok w 0")
      case ok: True
      then have "onUpstreamMessage w i s x r = (r1, [Sent i Client_side x])"
        unfolding run using True by (simp add: safeSend_def state_of_def s1_def)
      moreover have "moves i s s1 (taken r (Upstream_message i x) i) [Sent i Client_side x]"
        using assms(1) s1 True by (auto simp: moves_def tk queued_def split: side.splits)
      ultimately show ?thesis using t1 s1(3) by (simp add: handledI)
    next
      case False
      then show ?thesis unfolding run using True handled_close [OF s1(1-3) t1 s1(4)] by (simp add: safeSend_def)
    qed
  qed
qed

lemma checkIdleTimeout_handled:
  assumes "rs_listening s" "session_ok s" "session_of r i = Some s" "rl_active r = int (length (rl_sessions r))"
  shows "handled i r s (taken r (Idle_timer i) i) (checkIdleTimeout cfg w i s r)"
proof -
  let ?s = "s\<lparr>rs_idleTimer := False\<rparr>"
  have s: "rs_listening ?s" "\<not> rs_isClosing ?s" "session_ok ?s" "queued ?s d = queued s d" for d
    using assms(1,2) by (auto simp: session_ok_def queued_def split: side.splits)
  have t: "touches i r ?s (put_session r i ?s)" by (rule touches_self [OF assms(4) s(1)])
  have tk: "taken r (Idle_timer i) i d = []" for d using assms(3) by (simp add: taken_def)
  have "handled i r s (taken r (Idle_timer i) i) (put_session r i ?s, [])"
    using assms(1) s by (intro handledI [OF t s(3)]) (simp add: moves_def tk)
  moreover have "handled i r s (taken r (Idle_timer i) i) (closeSession w i ?s ''idle timeout'' True (put_session r i ?s))"
    by (rule handled_close [OF s(1-3) t s(4)])
  ultimately show ?thesis using s(2) by (simp add: checkIdleTimeout_def Let_def)
qed

text \<open>Handlers that only change fields outside the queue, on a session that may have closed.\<close>

lemma handled_quiet:
  assumes "session_of r i = Some s" "session_ok s'" "rs_listening s' = rs_listening s" "rs_pending s' = rs_pending s"
    "rl_active r = int (length (rl_sessions r))" "rs_listening s \<or> i \<notin> set (rl_sessions r)"
    "\<And>d. tk d = []" "\<And>j d. sent_to j d fx = []"
  shows "handled i r s tk (put_session r i s', fx)"
proof (rule handledI [OF _ assms(2)])
  have "sdelete (rl_sessions r) i = rl_sessions r" if "i \<notin> set (rl_sessions r)"
    using that by (auto simp: sdelete_def filter_id_conv)
  then show "touches i r s' (put_session r i s')" using assms(3,5,6) by (auto simp: touches_def)
  show "moves i s s' tk fx" using assms(3,4,7,8) by (auto simp: moves_def queued_def split: side.splits)
qed

section \<open>The invariant of a run\<close>

definition relay_wf :: "int \<Rightarrow> relay \<Rightarrow> bool" where
  "relay_wf m r \<longleftrightarrow> distinct (rl_sessions r) \<and>
     (\<forall>i. i \<in> set (rl_sessions r) \<longleftrightarrow> (\<exists>s. session_of r i = Some s \<and> rs_listening s)) \<and>
     (\<forall>i s. session_of r i = Some s \<longrightarrow> session_ok s) \<and>
     rl_active r = int (length (rl_sessions r)) \<and> rl_active r \<le> rl_peak r \<and> rl_peak r \<le> rl_total r \<and> rl_peak r \<le> m \<and>
     distinct (rl_reserved r) \<and> rl_inFlight r = int (length (rl_reserved r)) \<and>
     rl_active r + rl_inFlight r \<le> m \<and> (rl_shuttingDown r \<longrightarrow> rl_sessions r = [])"

lemma length_sdelete: "distinct xs \<Longrightarrow> x \<in> set xs \<Longrightarrow> int (length (sdelete xs x)) = int (length xs) - 1"
  by (induction xs) (auto simp: sdelete_def, subst filter_True, auto)

lemma relay_wf_handled:
  assumes wf: "relay_wf m r" and s: "session_of r i = Some s" and h: "handled i r s tk (r', fx)"
  shows "relay_wf m r'"
proof -
  from h obtain s' where t: "touches i r s' r'" and ok: "session_ok s'" and mv: "moves i s s' tk fx" unfolding handled_def by auto
  have so: "session_of r' = (session_of r)(i \<mapsto> s')" using t by (simp add: touches_def)
  have ses: "rl_sessions r' = (if rs_listening s' then rl_sessions r else sdelete (rl_sessions r) i)" using t by (simp add: touches_def)
  have "rs_listening s' \<Longrightarrow> i \<in> set (rl_sessions r)" using mv wf s by (auto simp: moves_def relay_wf_def)
  then have live: "\<forall>j. j \<in> set (rl_sessions r') \<longleftrightarrow> (\<exists>s. session_of r' j = Some s \<and> rs_listening s)"
    using wf unfolding relay_wf_def so ses by auto
  have len: "length (rl_sessions r') \<le> length (rl_sessions r)" unfolding ses by (simp add: length_sdelete_le)
  have "distinct (rl_sessions r')" using wf unfolding relay_wf_def ses by simp
  moreover have "\<forall>j s. session_of r' j = Some s \<longrightarrow> session_ok s" using wf ok unfolding relay_wf_def so by auto
  moreover have "rl_shuttingDown r' \<longrightarrow> rl_sessions r' = []" using wf t by (auto simp: relay_wf_def touches_def sdelete_def)
  ultimately show ?thesis
    using wf live len t unfolding relay_wf_def by (simp add: touches_def)
qed

fun event_session :: "relay_event \<Rightarrow> string option" where
  "event_session (Client_message i x) = Some i" | "event_session (Client_closed i) = Some i" | "event_session (Client_error i) = Some i"
| "event_session (Upstream_opened i) = Some i" | "event_session (Upstream_message i x) = Some i" | "event_session (Upstream_closed i) = Some i"
| "event_session (Upstream_error i) = Some i" | "event_session (Idle_timer i) = Some i" | "event_session (Late_timer i) = Some i"
| "event_session (Socket_leaves i d st) = Some i" | "event_session _ = None"

lemma handled_noop:
  assumes "session_of r i = Some s" "session_ok s" "rl_active r = int (length (rl_sessions r))" "rs_listening s \<or> i \<notin> set (rl_sessions r)"
    "\<And>d. tk d = []"
  shows "handled i r s tk (r, [])"
proof (rule handledI)
  have "sdelete (rl_sessions r) i = rl_sessions r" if "i \<notin> set (rl_sessions r)"
    using that by (auto simp: sdelete_def filter_id_conv)
  then show "touches i r s r" using assms(1,3,4) by (auto simp: touches_def fun_upd_idem)
  show "moves i s s tk []" using assms(5) by (simp add: moves_def)
qed (rule assms(2))

lemma taken_deaf: "session_of r i = Some s \<Longrightarrow> \<not> rs_listening s \<Longrightarrow> taken r ev i d = []"
  by (simp add: taken_def hears_def)

lemma taken_quiet [simp]:
  "taken r (Client_closed j) i d = []" "taken r (Client_error j) i d = []" "taken r (Upstream_closed j) i d = []"
  "taken r (Upstream_error j) i d = []" "taken r (Late_timer j) i d = []" "taken r (Socket_leaves j e st) i d = []"
  "taken r (Upstream_opened j) i d = []" "taken r (Idle_timer j) i d = []" "taken r (Upgrade u rq) i d = []"
  "taken r (Upgraded u j st ok) i d = []" "taken r (Upgrade_threw u) i d = []" "taken r Shutdown i d = []"
  by (simp_all add: taken_def split: option.splits)

lemma session_event_handled:
  assumes wf: "relay_wf m r" and s: "session_of r i = Some s" and ev: "event_session ev = Some i"
  shows "handled i r s (taken r ev i) (relay_handle cfg pathname sha w ev r)"
proof -
  have ok: "session_ok s" and act: "rl_active r = int (length (rl_sessions r))" using wf s by (auto simp: relay_wf_def)
  have live: "rs_listening s \<or> i \<notin> set (rl_sessions r)" using wf s by (auto simp: relay_wf_def)
  have up: "\<not> rl_shuttingDown r" if "rs_listening s" using wf s that by (auto simp: relay_wf_def)
  have nc: "\<not> rs_isClosing s" if "rs_listening s" using ok that by (simp add: session_ok_def)
  have noop: "handled i r s (taken r ev i) (r, [])" if "\<And>d. taken r ev i d = []" using handled_noop [OF s ok act live that] .
  have close: "handled i r s (taken r ev i) (closeSession w i s reason imm r)" if "rs_listening s" for reason imm
    using handled_close [OF that nc [OF that] ok] that s act by (simp add: touches_def fun_upd_idem)
  note quiet = handled_quiet [OF s _ _ _ act live]
  show ?thesis
    using s ev noop close up ok act taken_deaf [OF s]
    by (cases ev; cases "rs_listening s")
      (auto simp: on_session_def Let_def session_ok_def queued_def
        intro: onClientMessage_handled onUpstreamMessage_handled onUpstreamOpen_handled checkIdleTimeout_handled quiet
        split: side.splits)
qed

subsection \<open>Upgrades and shutdown\<close>

lemma onUpgrade_wf:
  assumes wf: "relay_wf m r" and cap: "maxConnections cfg = Fin (of_int m)" and fresh: "u \<notin> set (rl_reserved r)"
    and run: "onUpgrade cfg pathname sha u rq r = (r', fx)"
  shows "relay_wf m r' \<and> session_of r' = session_of r \<and> (\<forall>j d. sent_to j d fx = [])"
proof (cases "r' = r")
  case True
  then show ?thesis using wf run by (auto simp: onUpgrade_def Let_def split: if_splits sum.splits)
next
  case False
  then have "r' = r\<lparr>rl_inFlight := rl_inFlight r + 1, rl_reserved := sadd (rl_reserved r) u\<rparr>" "fx = []"
    "\<not> int_ge_num (int (length (rl_sessions r)) + rl_inFlight r) (maxConnections cfg)"
    using run by (auto simp: onUpgrade_def Let_def split: if_splits sum.splits)
  then show ?thesis using wf cap fresh unfolding relay_wf_def by (simp add: sadd_def)
qed

lemma release_wf:
  assumes "relay_wf m r" shows "relay_wf m (releaseInFlightUpgrade u r)" "session_of (releaseInFlightUpgrade u r) = session_of r"
  using assms length_sdelete [of "rl_reserved r" u] by (auto simp: releaseInFlightUpgrade_def relay_wf_def)

lemma wire_release_wf:
  assumes wf: "relay_wf m r" and u: "u \<in> set (rl_reserved r)" and fresh: "session_of r i = None" and up: "\<not> rl_shuttingDown r"
  shows "relay_wf m (releaseInFlightUpgrade u (wireSession w i st r))"
proof -
  let ?r = "releaseInFlightUpgrade u (wireSession w i st r)"
  have new: "i \<notin> set (rl_sessions r)" using wf fresh by (auto simp: relay_wf_def)
  have fields: "rl_sessions ?r = rl_sessions r @ [i]" "rl_active ?r = rl_active r + 1" "rl_total ?r = rl_total r + 1"
    "rl_peak ?r = max (rl_active r + 1) (rl_peak r)" "rl_inFlight ?r = rl_inFlight r - 1"
    "rl_reserved ?r = sdelete (rl_reserved r) u" "rl_shuttingDown ?r = False"
    using u new up wf length_pos_if_in_set [OF u]
    by (auto simp: releaseInFlightUpgrade_def wireSession_def Let_def sadd_def relay_wf_def max_def)
  obtain s where so: "session_of ?r = (session_of r)(i \<mapsto> s)" and s: "session_ok s" "rs_listening s"
    using u by (auto simp: releaseInFlightUpgrade_def wireSession_def Let_def session_ok_def queue_bytes_def
        MAX_UPSTREAM_PENDING_BYTES_def MAX_WS_PAYLOAD_BYTES_def)
  have "\<forall>j. j \<in> set (rl_sessions ?r) \<longleftrightarrow> (\<exists>s. session_of ?r j = Some s \<and> rs_listening s)"
    using wf s(2) unfolding relay_wf_def fields so by auto
  moreover have "\<forall>j s. session_of ?r j = Some s \<longrightarrow> session_ok s" using wf s(1) unfolding relay_wf_def so by auto
  ultimately show ?thesis
    using wf new length_sdelete [OF _ u] unfolding relay_wf_def fields by auto
qed

lemma session_ok_deaf: "session_ok s \<Longrightarrow> session_ok (s\<lparr>rs_listening := False, rs_idleTimer := False\<rparr>)"
  by (simp add: session_ok_def)

lemma shutdown_sessions_run:
  assumes "shutdown_sessions w is r = (r', fx)" "list_all (\<lambda>i. \<exists>s. session_of r i = Some s) is"
  shows "session_of r' = (\<lambda>i. if i \<in> set is then map_option (\<lambda>s. s\<lparr>rs_listening := False, rs_idleTimer := False\<rparr>) (session_of r i) else session_of r i) \<and>
    rl_sessions r' = filter (\<lambda>i. i \<notin> set is) (rl_sessions r) \<and> rl_reserved r' = rl_reserved r \<and> rl_inFlight r' = rl_inFlight r \<and>
    rl_peak r' = rl_peak r \<and> rl_total r' = rl_total r \<and> rl_shuttingDown r' = rl_shuttingDown r \<and> (\<forall>j d. sent_to j d fx = [])"
  using assms
proof (induction "is" arbitrary: r r' fx)
  case (Cons i "is")
  from Cons.prems(2) obtain s where s: "session_of r i = Some s" by auto
  let ?r1 = "(put_session r i (s\<lparr>rs_listening := False, rs_idleTimer := False\<rparr>))\<lparr>rl_sessions := sdelete (rl_sessions r) i\<rparr>"
  obtain fx1 where rest: "shutdown_sessions w is ?r1 = (r', fx1)"
    and fx: "fx = disposeSocketWithCode w i s Client_side 1001 ''server shutdown'' @
      disposeSocketWithCode w i s Upstream_side 1001 ''server shutdown'' @ fx1"
    using Cons.prems(1) s by (auto simp: Let_def split: prod.splits)
  have "list_all (\<lambda>j. \<exists>s. session_of ?r1 j = Some s) is" using Cons.prems(2) by (auto simp: list_all_iff)
  from Cons.IH [OF rest this] show ?case
    using s fx by (auto simp: fun_eq_iff sdelete_def filter_filter conj_commute)
qed simp

lemma relay_close_wf:
  assumes wf: "relay_wf m r" and run: "relay_close w r = (r', fx)"
  shows "relay_wf m r' \<and> (\<forall>j d. sent_to j d fx = []) \<and>
    (\<forall>i. (session_of r' i = None) = (session_of r i = None)) \<and>
    (\<forall>i s'. session_of r' i = Some s' \<longrightarrow> \<not> rs_listening s') \<and> (\<forall>i. i \<notin> set (rl_sessions r'))"
proof (cases "rl_shuttingDown r")
  case True
  then have "r' = r" "fx = []" using run by (auto simp: relay_close_def)
  then show ?thesis using wf True by (auto simp: relay_wf_def)
next
  case False
  then obtain r1 where sh: "shutdown_sessions w (rl_sessions r) (r\<lparr>rl_shuttingDown := True\<rparr>) = (r1, fx)" and r': "r' = r1\<lparr>rl_active := 0\<rparr>"
    using run by (auto simp: relay_close_def split: prod.splits)
  have all: "list_all (\<lambda>i. \<exists>s. session_of (r\<lparr>rl_shuttingDown := True\<rparr>) i = Some s) (rl_sessions r)"
    using wf by (auto simp: list_all_iff relay_wf_def)
  note d = shutdown_sessions_run [OF sh all]
  have so: "session_of r' = (\<lambda>i. if i \<in> set (rl_sessions r) then map_option (\<lambda>s. s\<lparr>rs_listening := False, rs_idleTimer := False\<rparr>) (session_of r i) else session_of r i)"
    using d r' by (auto simp: fun_eq_iff)
  have none: "rl_sessions r' = []" using d r' by (simp add: filter_empty_conv)
  have deaf: "session_ok s' \<and> \<not> rs_listening s'" if "session_of r' i = Some s'" for i s'
    using that wf unfolding so relay_wf_def by (auto simp: session_ok_deaf split: if_splits)
  have counters: "rl_active r' = 0" "rl_peak r' = rl_peak r" "rl_total r' = rl_total r" "rl_reserved r' = rl_reserved r" "rl_inFlight r' = rl_inFlight r"
    using d r' by simp_all
  have nodes: "(\<exists>s. session_of r' i = Some s \<and> rs_listening s) = False" for i using deaf by auto
  have "relay_wf m r'"
    unfolding relay_wf_def none counters nodes using wf deaf by (simp add: relay_wf_def)
  moreover have "(session_of r' i = None) = (session_of r i = None)" for i unfolding so by simp
  ultimately show ?thesis using d none deaf by simp
qed

section \<open>Runs\<close>

text \<open>
  A run records, per session and direction, the frames taken from one socket and those handed to the other. The ids come from
  \<open>randomUUID\<close>: a new session has an id that no session had, and a new request its own reservation.
\<close>

type_synonym traffic = "string \<Rightarrow> side \<Rightarrow> raw_data list"

definition event_fresh :: "relay_event \<Rightarrow> relay \<Rightarrow> bool" where
  "event_fresh ev r = (case ev of Upgrade u rq \<Rightarrow> u \<notin> set (rl_reserved r) | Upgraded u i st dial_ok \<Rightarrow> session_of r i = None | _ \<Rightarrow> True)"

inductive relay_run ::
  "runtime_options \<Rightarrow> (string \<Rightarrow> string option) \<Rightarrow> (string \<Rightarrow> nat list) \<Rightarrow> relay \<Rightarrow> traffic \<Rightarrow> traffic \<Rightarrow> bool"
  for cfg pathname sha where
  relay_start: "relay_run cfg pathname sha new_relay (\<lambda>i d. []) (\<lambda>i d. [])"
| relay_next: "relay_run cfg pathname sha r tin tout \<Longrightarrow> event_fresh ev r \<Longrightarrow> relay_handle cfg pathname sha w ev r = (r', fx) \<Longrightarrow>
     relay_run cfg pathname sha r' (\<lambda>i d. tin i d @ taken r ev i d) (\<lambda>i d. tout i d @ sent_to i d fx)"

definition traffic_ok :: "relay \<Rightarrow> traffic \<Rightarrow> traffic \<Rightarrow> bool" where
  "traffic_ok r tin tout \<longleftrightarrow> (\<forall>i d. case session_of r i of
     None \<Rightarrow> tin i d = [] \<and> tout i d = []
   | Some s \<Rightarrow> prefix (tout i d) (tin i d) \<and> (rs_listening s \<longrightarrow> tout i d @ queued s d = tin i d))"

lemma traffic_at:
  "traffic_ok r tin tout \<Longrightarrow> (case session_of r i of None \<Rightarrow> tin i d = [] \<and> tout i d = []
     | Some s \<Rightarrow> prefix (tout i d) (tin i d) \<and> (rs_listening s \<longrightarrow> tout i d @ queued s d = tin i d))"
  unfolding traffic_ok_def by blast

lemma traffic_new:
  assumes "traffic_ok r tin tout" "session_of r i = None" "session_of r' = (session_of r)(i \<mapsto> s)" "rs_pending s = []"
  shows "traffic_ok r' tin tout"
  unfolding traffic_ok_def
proof (intro allI)
  fix j d
  show "case session_of r' j of None \<Rightarrow> tin j d = [] \<and> tout j d = []
     | Some s \<Rightarrow> prefix (tout j d) (tin j d) \<and> (rs_listening s \<longrightarrow> tout j d @ queued s d = tin j d)"
    using traffic_at [OF assms(1), of j d] assms(2-4) by (cases "j = i") (auto simp: queued_def split: side.splits)
qed

lemma traffic_unchanged:
  assumes "traffic_ok r tin tout" "\<And>i d. taken r ev i d = []" "\<And>i d. sent_to i d fx = []"
    "\<And>i. session_of r' i = None \<longleftrightarrow> session_of r i = None"
    "\<And>i s'. session_of r' i = Some s' \<Longrightarrow> rs_listening s' \<Longrightarrow> session_of r i = Some s'"
  shows "traffic_ok r' (\<lambda>i d. tin i d @ taken r ev i d) (\<lambda>i d. tout i d @ sent_to i d fx)"
  unfolding traffic_ok_def
proof (intro allI)
  fix i d
  have "case session_of r i of None \<Rightarrow> tin i d = [] \<and> tout i d = []
     | Some s \<Rightarrow> prefix (tout i d) (tin i d) \<and> (rs_listening s \<longrightarrow> tout i d @ queued s d = tin i d)"
    using traffic_at [OF assms(1)] .
  then show "case session_of r' i of None \<Rightarrow> tin i d @ taken r ev i d = [] \<and> tout i d @ sent_to i d fx = []
     | Some s \<Rightarrow> prefix (tout i d @ sent_to i d fx) (tin i d @ taken r ev i d) \<and>
         (rs_listening s \<longrightarrow> (tout i d @ sent_to i d fx) @ queued s d = tin i d @ taken r ev i d)"
    using assms(2-5) by (auto split: option.splits)
qed

lemma taken_other: "event_session ev = Some i \<Longrightarrow> j \<noteq> i \<Longrightarrow> taken r ev j d = []"
  by (cases ev) (auto simp: taken_def split: option.splits)

lemma traffic_handled:
  assumes tr: "traffic_ok r tin tout" and s: "session_of r i = Some s" and h: "handled i r s (taken r ev i) (r', fx)"
    and ev: "event_session ev = Some i"
  shows "traffic_ok r' (\<lambda>i d. tin i d @ taken r ev i d) (\<lambda>i d. tout i d @ sent_to i d fx)"
  unfolding traffic_ok_def
proof (intro allI)
  fix j d
  from h obtain s' where t: "touches i r s' r'" and mv: "moves i s s' (taken r ev i) fx" unfolding handled_def by auto
  have so: "session_of r' = (session_of r)(i \<mapsto> s')" using t by (simp add: touches_def)
  have old: "case session_of r j of None \<Rightarrow> tin j d = [] \<and> tout j d = []
     | Some s \<Rightarrow> prefix (tout j d) (tin j d) \<and> (rs_listening s \<longrightarrow> tout j d @ queued s d = tin j d)" for j d
    using traffic_at [OF tr] .
  show "case session_of r' j of None \<Rightarrow> tin j d @ taken r ev j d = [] \<and> tout j d @ sent_to j d fx = []
     | Some s \<Rightarrow> prefix (tout j d @ sent_to j d fx) (tin j d @ taken r ev j d) \<and>
         (rs_listening s \<longrightarrow> (tout j d @ sent_to j d fx) @ queued s d = tin j d @ taken r ev j d)"
  proof (cases "j = i")
    case False
    then show ?thesis using old [of j d] mv taken_other [OF ev False] so by (simp add: moves_def split: option.splits)
  next
    case True
    have o: "prefix (tout i d) (tin i d)" "rs_listening s \<Longrightarrow> tin i d = tout i d @ queued s d" using old [of i d] s by auto
    have "prefix (tout i d @ sent_to i d fx) (tin i d @ taken r ev i d) \<and>
      (rs_listening s' \<longrightarrow> (tout i d @ sent_to i d fx) @ queued s' d = tin i d @ taken r ev i d)"
    proof (cases "rs_listening s")
      case live: True
      then show ?thesis using mv o(2) by (cases "rs_listening s'") (auto simp: moves_def, metis prefixI)
    next
      case False
      then have "sent_to i d fx = []" "taken r ev i d = []" "\<not> rs_listening s'"
        using mv taken_deaf [OF s] by (auto simp: moves_def)
      then show ?thesis using o(1) by simp
    qed
    then show ?thesis using True so by simp
  qed
qed

lemma relay_step_ok:
  assumes wf: "relay_wf m r" and tr: "traffic_ok r tin tout" and cap: "maxConnections cfg = Fin (of_int m)"
    and fresh: "event_fresh ev r" and run: "relay_handle cfg pathname sha w ev r = (r', fx)"
  shows "relay_wf m r' \<and> traffic_ok r' (\<lambda>i d. tin i d @ taken r ev i d) (\<lambda>i d. tout i d @ sent_to i d fx)"
proof (cases "event_session ev")
  case (Some i)
  show ?thesis
  proof (cases "session_of r i")
    case None
    have "r' = r" "fx = []" using run Some None by (cases ev; auto simp: on_session_def)+
    moreover have "taken r ev j d = []" for j d using taken_other [OF Some] None by (cases "j = i") (auto simp: taken_def)
    ultimately show ?thesis using wf tr by simp
  next
    case s: (Some s)
    have h: "handled i r s (taken r ev i) (r', fx)" using session_event_handled [OF wf s Some] unfolding run [symmetric] .
    show ?thesis using relay_wf_handled [OF wf s h] traffic_handled [OF tr s h Some] by blast
  qed
next
  case None
  then consider (up) u rq where "ev = Upgrade u rq" | (completed) u i st ok where "ev = Upgraded u i st ok"
    | (threw) u where "ev = Upgrade_threw u" | (down) "ev = Shutdown"
    by (cases ev) auto
  moreover have released: "relay_wf m r' \<and> traffic_ok r' (\<lambda>i d. tin i d @ taken r ev i d) (\<lambda>i d. tout i d @ sent_to i d fx)"
    if "(r' = r \<or> r' = releaseInFlightUpgrade u r) \<and> (\<forall>j d. sent_to j d fx = [])" "\<And>i d. taken r ev i d = []" for u
  proof -
    have k: "session_of r' = session_of r" "relay_wf m r'" using that(1) release_wf [OF wf, of u] wf by auto
    have "traffic_ok r' (\<lambda>i d. tin i d @ taken r ev i d) (\<lambda>i d. tout i d @ sent_to i d fx)"
      using that k(1) by (intro traffic_unchanged [OF tr]) auto
    then show ?thesis using k(2) by blast
  qed
  ultimately show ?thesis
  proof cases
    case up
    have o: "relay_wf m r' \<and> session_of r' = session_of r \<and> (\<forall>j d. sent_to j d fx = [])"
      using onUpgrade_wf [OF wf cap] fresh run up by (simp add: event_fresh_def)
    then have "traffic_ok r' (\<lambda>i d. tin i d @ taken r ev i d) (\<lambda>i d. tout i d @ sent_to i d fx)"
      using up by (intro traffic_unchanged [OF tr]) auto
    then show ?thesis using o by blast
  next
    case completed
    show ?thesis
    proof (cases "u \<in> set (rl_reserved r) \<and> \<not> rl_shuttingDown r \<and> ok")
      case True
      have r': "r' = releaseInFlightUpgrade u (wireSession w i st r)" "fx = []" using run completed True by (auto simp: upgraded_def)
      have new: "session_of r i = None" using fresh completed by (simp add: event_fresh_def)
      obtain s where so: "session_of r' = (session_of r)(i \<mapsto> s)" and s: "rs_pending s = []"
        unfolding r' using True by (auto simp: releaseInFlightUpgrade_def wireSession_def Let_def)
      have "traffic_ok r' tin tout"
        by (rule traffic_new [OF tr new so s])
      then show ?thesis using wire_release_wf [OF wf _ new] True r' completed by simp
    next
      case False
      then have "(r' = r \<or> r' = releaseInFlightUpgrade u r) \<and> (\<forall>j d. sent_to j d fx = [])"
        using run completed by (auto simp: upgraded_def split: if_splits)
      then show ?thesis using completed by (intro released) auto
    qed
  next
    case threw
    then have "(r' = r \<or> r' = releaseInFlightUpgrade u r) \<and> (\<forall>j d. sent_to j d fx = [])"
      using run by (auto simp: upgrade_threw_def split: if_splits)
    then show ?thesis using threw by (intro released) auto
  next
    case down
    have c: "relay_close w r = (r', fx)" using run down by simp
    note cl = relay_close_wf [OF wf c]
    have "traffic_ok r' (\<lambda>i d. tin i d @ taken r ev i d) (\<lambda>i d. tout i d @ sent_to i d fx)"
      using cl down by (intro traffic_unchanged [OF tr]) auto
    then show ?thesis using cl by blast
  qed
qed

lemma new_relay_wf: "1 \<le> m \<Longrightarrow> relay_wf m new_relay"
  by (simp add: relay_wf_def new_relay_def session_of_def)

lemma relay_run_ok:
  assumes "maxConnections cfg = Fin (of_int m)" "1 \<le> m"
  shows "relay_run cfg pathname sha r tin tout \<Longrightarrow> relay_wf m r \<and> traffic_ok r tin tout"
proof (induction rule: relay_run.induct)
  case relay_start
  show ?case using new_relay_wf [OF assms(2)] by (simp add: traffic_ok_def new_relay_def session_of_def)
next
  case (relay_next r tin tout ev w r' fx)
  then show ?case using relay_step_ok assms(1) by blast
qed

section \<open>Properties\<close>

text \<open>
  C7: the relay keeps within its limits and its statistics are exact. In every reachable state the reported number of active
  connections is the number of sessions in the map; together with the handshakes under way it is at most the
  configured maximum, so is the reported peak, and active, peak and total are ordered. The map holds exactly the sessions that
  still listen; each queue holds at most 64 frames, its byte count is exact and at most 16 MiB; a
  closed session has no armed idle timer; and after a shutdown no session is left.
\<close>

theorem relay_state_invariant:
  assumes "relay_run cfg pathname sha r tin tout" and "runtime_options_wf cfg"
  shows "rl_active r = int (length (rl_sessions r)) \<and> distinct (rl_sessions r) \<and>
    \<not> int_ge_num (rl_active r + rl_inFlight r - 1) (maxConnections cfg) \<and> \<not> int_ge_num (rl_peak r - 1) (maxConnections cfg) \<and>
    rl_active r \<le> rl_peak r \<and> rl_peak r \<le> rl_total r \<and>
    (\<forall>i. i \<in> set (rl_sessions r) \<longleftrightarrow> (\<exists>s. session_of r i = Some s \<and> rs_listening s)) \<and>
    (\<forall>i s. session_of r i = Some s \<longrightarrow> length (rs_pending s) \<le> 64 \<and> rs_queuedBytes s = queue_bytes (rs_pending s) \<and>
       rs_queuedBytes s \<le> 16 * 1024 * 1024 \<and> (rs_idleTimer s \<longrightarrow> rs_listening s)) \<and>
    (rl_shuttingDown r \<longrightarrow> rl_sessions r = [])"
proof -
  from assms(2) obtain m where m: "maxConnections cfg = Fin (of_int m)" "1 \<le> m"
    by (auto simp: runtime_options_wf_def num_between_def simp del: num_as_int.simps split: option.splits)
  have wf: "relay_wf m r" using relay_run_ok [OF m assms(1)] by blast
  have s: "length (rs_pending s) \<le> 64 \<and> rs_queuedBytes s = queue_bytes (rs_pending s) \<and>
       rs_queuedBytes s \<le> 16 * 1024 * 1024 \<and> (rs_idleTimer s \<longrightarrow> rs_listening s)" if "session_of r i = Some s" for i s
  proof -
    have "session_ok s" using wf that by (auto simp: relay_wf_def)
    then show ?thesis
      by (simp add: session_ok_def MAX_UPSTREAM_PENDING_MESSAGES_def MAX_UPSTREAM_PENDING_BYTES_def MAX_WS_PAYLOAD_BYTES_def)
  qed
  have "\<not> int_ge_num (rl_active r + rl_inFlight r - 1) (maxConnections cfg)" "\<not> int_ge_num (rl_peak r - 1) (maxConnections cfg)"
    using wf unfolding m relay_wf_def by (simp_all del: of_int_add of_int_diff)
  then show ?thesis using wf s unfolding relay_wf_def by blast
qed

text \<open>
  C6: frames cross the relay in order, once, and unchanged. At every moment of a run and in both directions, what a session
  handed to the one socket is a prefix of what it took from the other. While the session is open nothing is missing
  except the frames that wait for the upstream connection: those handed on followed by those queued are exactly those
  taken.
\<close>

theorem relay_forwards_in_order:
  assumes "relay_run cfg pathname sha r tin tout" and "runtime_options_wf cfg"
  shows "prefix (tout i Upstream_side) (tin i Upstream_side) \<and> prefix (tout i Client_side) (tin i Client_side) \<and>
    (i \<in> set (rl_sessions r) \<longrightarrow> (\<exists>s. session_of r i = Some s \<and> tout i Upstream_side @ rs_pending s = tin i Upstream_side \<and>
       tout i Client_side = tin i Client_side))"
proof -
  from assms(2) obtain m where m: "maxConnections cfg = Fin (of_int m)" "1 \<le> m"
    by (auto simp: runtime_options_wf_def num_between_def simp del: num_as_int.simps split: option.splits)
  have wf: "relay_wf m r" and tr: "traffic_ok r tin tout" using relay_run_ok [OF m assms(1)] by auto
  have t: "case session_of r i of None \<Rightarrow> tin i d = [] \<and> tout i d = []
     | Some s \<Rightarrow> prefix (tout i d) (tin i d) \<and> (rs_listening s \<longrightarrow> tout i d @ queued s d = tin i d)" for d
    using traffic_at [OF tr] .
  show ?thesis
    using t [of Client_side] t [of Upstream_side] wf by (auto simp: relay_wf_def queued_def split: option.splits)
qed

text \<open>
  C11: only an authorised request gets a session. When the handler of an upgrade reserves a place, the method is GET, the path is the
  relay's, the origin is one of the configured ones if any are, the bearer token is the configured one if there is one, and there is room. The
  hypothesis is that the hash separates the configured token from others; otherwise the
  request is answered with an error line and the state does not change.
\<close>

theorem relay_admission:
  assumes "onUpgrade cfg pathname sha u rq r = (r', fx)" and "\<forall>t. sha t = sha (requiredToken cfg) \<longrightarrow> t = requiredToken cfg"
  shows "(r' = r\<lparr>rl_inFlight := rl_inFlight r + 1, rl_reserved := sadd (rl_reserved r) u\<rparr> \<and> fx = [] \<and> \<not> rl_shuttingDown r \<and>
      rq_method rq = ''GET'' \<and> pathname (rq_url rq) = Some (relayPath cfg) \<and>
      (allowedOrigins cfg = [] \<or> (\<exists>o1. rq_origin rq = Some o1 \<and> o1 \<in> set (allowedOrigins cfg))) \<and>
      (requiredToken cfg = [] \<or> extractBearerTokenFromRequest rq = requiredToken cfg) \<and>
      \<not> int_ge_num (int (length (rl_sessions r)) + rl_inFlight r) (maxConnections cfg))
    \<or> (r' = r \<and> (\<exists>line. fx = [Http_reply u line])) \<or> (r' = r \<and> pathname (rq_url rq) = None \<and> (\<exists>e. fx = [Escaped u e]))"
proof -
  have eq: "constantTimeEquals a b \<longleftrightarrow> a = b" for a b by (auto simp: constantTimeEquals_def list_all2_eq [symmetric])
  have tok: "isTokenValidFromRequest sha rq (requiredToken cfg) \<longleftrightarrow>
      requiredToken cfg = [] \<or> extractBearerTokenFromRequest rq = requiredToken cfg"
    using assms(2) by (auto simp: isTokenValidFromRequest_def eq)
  show ?thesis
    using assms(1) unfolding onUpgrade_def isRelayPath_def tok Let_def
    by (auto simp: isOriginAllowed_def split: if_splits option.splits)
qed

section \<open>A run\<close>

fun run_relay ::
  "runtime_options \<Rightarrow> (string \<Rightarrow> string option) \<Rightarrow> (string \<Rightarrow> nat list) \<Rightarrow> weather \<Rightarrow> relay_event list \<Rightarrow> relay \<Rightarrow> traffic \<Rightarrow> traffic \<Rightarrow> relay \<times> traffic \<times> traffic" where
  "run_relay cfg pathname sha w [] r tin tout = (r, tin, tout)"
| "run_relay cfg pathname sha w (ev # evs) r tin tout =
     (if \<not> event_fresh ev r then (r, tin, tout)
      else (let (r', fx) = relay_handle cfg pathname sha w ev r
            in run_relay cfg pathname sha w evs r' (\<lambda>i d. tin i d @ taken r ev i d) (\<lambda>i d. tout i d @ sent_to i d fx)))"

lemma run_relay_run:
  "relay_run cfg pathname sha r tin tout \<Longrightarrow> run_relay cfg pathname sha w evs r tin tout = (r', tin', tout') \<Longrightarrow>
   relay_run cfg pathname sha r' tin' tout'"
proof (induction evs arbitrary: r tin tout)
  case (Cons ev evs)
  show ?case
  proof (cases "event_fresh ev r")
    case True
    obtain r1 fx where h: "relay_handle cfg pathname sha w ev r = (r1, fx)" by fastforce
    show ?thesis using Cons.IH [OF relay_next [OF Cons.prems(1) True h]] Cons.prems(2) True h by simp
  next
    case False
    then show ?thesis using Cons.prems by simp
  qed
qed simp

definition fair_weather :: weather where
  "fair_weather = \<lparr>w_now = 0, w_send_ok = (\<lambda>_. True), w_close_ok = (\<lambda>_. True)\<rparr>"

definition plain_path :: "string \<Rightarrow> string option" where
  "plain_path u = (if startsWith u ''//'' then None else Some u)"

definition sample_request :: upgrade_request where
  "sample_request = \<lparr>rq_method = ''GET'', rq_url = ''/ws'', rq_origin = Some ''https://a.example'',
     rq_authorization = Some ''Bearer secret''\<rparr>"

definition sample_events :: "relay_event list" where
  "sample_events = [Upgrade ''u1'' sample_request, Upgraded ''u1'' ''s1'' OPEN True, Client_message ''s1'' (Raw_text ''a''),
     Client_message ''s1'' (Raw_view [1, 2]), Upstream_opened ''s1'', Client_message ''s1'' (Raw_text ''c''),
     Upgrade ''u2'' sample_request]"

definition sample_run :: "nat \<Rightarrow> relay \<times> traffic \<times> traffic" where
  "sample_run n = run_relay sample_options plain_path utf8_encode fair_weather (take n sample_events) new_relay (\<lambda>i d. []) (\<lambda>i d. [])"

lemma sample_run_reached:
  "relay_run sample_options plain_path utf8_encode (fst (sample_run n)) (fst (snd (sample_run n))) (snd (snd (sample_run n)))"
  by (rule run_relay_run [OF relay_start, of _ _ _ fair_weather "take n sample_events"]) (simp add: sample_run_def)

lemma sample_options_wf: "runtime_options_wf sample_options"
  by code_simp

theorem relay_state_invariant_witness:
  "rl_sessions (fst (sample_run 7)) = [''s1''] \<and> rl_inFlight (fst (sample_run 7)) = 1 \<and> rl_active (fst (sample_run 7)) = 1 \<and>
   \<not> int_ge_num (rl_active (fst (sample_run 7)) + rl_inFlight (fst (sample_run 7)) - 1) (maxConnections sample_options)"
proof -
  have "rl_sessions (fst (sample_run 7)) = [''s1''] \<and> rl_inFlight (fst (sample_run 7)) = 1" by code_simp
  then show ?thesis using relay_state_invariant [OF sample_run_reached [of 7] sample_options_wf] by (elim conjE) simp
qed

theorem relay_forwards_in_order_witness:
  "snd (snd (sample_run 4)) ''s1'' Upstream_side = [] \<and>
   snd (snd (sample_run 6)) ''s1'' Upstream_side = [Raw_text ''a'', Raw_view [1, 2], Raw_text ''c''] \<and>
   prefix (snd (snd (sample_run 6)) ''s1'' Upstream_side) (fst (snd (sample_run 6)) ''s1'' Upstream_side)"
proof -
  have "snd (snd (sample_run 4)) ''s1'' Upstream_side = [] \<and>
    snd (snd (sample_run 6)) ''s1'' Upstream_side = [Raw_text ''a'', Raw_view [1, 2], Raw_text ''c'']" by code_simp
  then show ?thesis using relay_forwards_in_order [OF sample_run_reached [of 6] sample_options_wf, of "''s1''"] by simp
qed

theorem relay_admission_witness:
  "onUpgrade sample_options plain_path utf8_encode ''u1'' sample_request new_relay =
     (new_relay\<lparr>rl_inFlight := 1, rl_reserved := [''u1'']\<rparr>, []) \<and>
   extractBearerTokenFromRequest sample_request = requiredToken sample_options"
proof -
  have inj: "\<forall>t. utf8_encode t = utf8_encode (requiredToken sample_options) \<longrightarrow> t = requiredToken sample_options"
    using utf8_encode_inj by blast
  have run: "onUpgrade sample_options plain_path utf8_encode ''u1'' sample_request new_relay =
     (new_relay\<lparr>rl_inFlight := 1, rl_reserved := [''u1'']\<rparr>, [])" and tok: "requiredToken sample_options \<noteq> []"
    by code_simp+
  show ?thesis using relay_admission [OF run inj] run tok by auto
qed

section \<open>Behaviours outside the promises\<close>

text \<open>
  A request target that \<open>new URL\<close> refuses makes the handler throw, before the origin and the token are looked at; nothing
  catches the exception in an event handler.
\<close>

lemma malformed_target_escapes:
  "\<not> rl_shuttingDown r \<Longrightarrow> rq_method rq = ''GET'' \<Longrightarrow> pathname (rq_url rq) = None \<Longrightarrow>
   onUpgrade cfg pathname sha u rq r = (r, [Escaped u (err ''Invalid URL'')])"
  by (simp add: onUpgrade_def isRelayPath_def Let_def)

text \<open>
  Only the callback of the handshake or an exception gives a reserved place back. \<open>handleUpgrade\<close> of the \<open>ws\<close> package
  answers a malformed handshake itself, without either; such a request occupies a connection for good.
\<close>

lemma touches_reserved: "touches i r s' r' \<Longrightarrow> rl_reserved r' = rl_reserved r"
  by (simp add: touches_def)

lemma closeSession_reserved: "closeSession w i s reason imm r = (r', fx) \<Longrightarrow> rl_reserved r' = rl_reserved r"
  by (auto simp: closeSession_def Let_def split: if_splits)

fun ends_upgrade :: "string \<Rightarrow> relay_event \<Rightarrow> bool" where
  "ends_upgrade u (Upgraded v i st dial_ok) = (v = u)"
| "ends_upgrade u (Upgrade_threw v) = (v = u)"
| "ends_upgrade u _ = False"

lemma reservation_persists:
  assumes "relay_wf m r" "u \<in> set (rl_reserved r)" "relay_handle cfg pathname sha w ev r = (r', fx)"
    and "\<not> ends_upgrade u ev"
  shows "u \<in> set (rl_reserved r')"
proof (cases "event_session ev")
  case (Some i)
  show ?thesis
  proof (cases "session_of r i")
    case None
    then have "r' = r" using assms(3) Some by (cases ev) (auto simp: on_session_def)
    then show ?thesis using assms(2) by simp
  next
    case s: (Some s)
    have "handled i r s (taken r ev i) (r', fx)" using session_event_handled [OF assms(1) s Some] unfolding assms(3) [symmetric] .
    then show ?thesis using assms(2) touches_reserved unfolding handled_def by fastforce
  qed
next
  case None
  have c: "rl_reserved r' = rl_reserved r" if "relay_close w r = (r', fx)"
  proof (cases "rl_shuttingDown r")
    case False
    have all: "list_all (\<lambda>i. \<exists>s. session_of (r\<lparr>rl_shuttingDown := True\<rparr>) i = Some s) (rl_sessions r)"
      using assms(1) by (auto simp: list_all_iff relay_wf_def)
    show ?thesis using that False shutdown_sessions_run [OF _ all] by (auto simp: relay_close_def split: prod.splits)
  qed (use that in \<open>simp add: relay_close_def\<close>)
  have d: "u \<in> set (rl_reserved (releaseInFlightUpgrade v x))" if "u \<noteq> v" "u \<in> set (rl_reserved x)" for v x
    using that by (simp add: releaseInFlightUpgrade_def)
  have "rl_reserved (wireSession w i st r) = rl_reserved r" for i st by (simp add: wireSession_def Let_def)
  then show ?thesis
    using None assms(2-4) c d
    by (cases ev) (auto simp: upgraded_def upgrade_threw_def onUpgrade_def Let_def split: if_splits sum.splits)
qed

text \<open>A session that closes while its upstream is connecting stops listening to it and does not close it.\<close>

lemma connecting_upstream_not_closed:
  assumes "closeSession w i s reason imm r = (r', fx)" "\<not> rs_isClosing s" "rs_upstreamState s = CONNECTING"
  shows "Destroy_transport i Upstream_side \<in> set fx \<and> Close_plain i Upstream_side \<notin> set fx \<and>
    (\<forall>c t. Close_code i Upstream_side c t \<notin> set fx) \<and> map_option rs_listening (session_of r' i) = Some False"
  using assms by (auto simp: closeSession_def Let_def disposeSocket_def disposeSocketWithCode_def disposeSocketSafely_def state_of_def
      split: if_splits)

text \<open>An idle check that comes before the idle time is over leaves the session without a timer.\<close>

lemma early_idle_check_disarms:
  assumes "session_of r i = Some s" "rs_listening s" "session_ok s" "\<not> rl_shuttingDown r"
    "int_less_num (w_now w - rs_lastActivityAtMs s) (idleTimeoutMs cfg)"
  shows "session_of (fst (checkIdleTimeout cfg w i s r)) i = Some (s\<lparr>rs_idleTimer := False\<rparr>)"
  using assms by (simp add: checkIdleTimeout_def Let_def session_ok_def)

end
