(* ===== verification/Relay_Tls_Watch.thy ===== *)
theory Relay_Tls_Watch
  imports Relay_Options
begin

text \<open>
  The watch on the TLS files of the relay proxy, \<^verbatim>\<open>packages/commandrelay-relay-proxy/src/index.ts\<close>. The
  relay reads its TLS material once; a timer compares the files with the previous snapshot and reports
  that a restart is needed. The file system is a parameter \<open>fs\<close> (content, modification time and size of a path, or
  the message of the failure), and so are the hash of a buffer, the hash of a snapshot and the
  locale's order of paths.
\<close>

type_synonym file_system = "string \<Rightarrow> (string, nat list \<times> rat \<times> int) result"

record source_state =
  ss_path :: string
  ss_digest :: string
  ss_mtimeMs :: rat
  ss_size :: int

datatype rotation_status = Disabled | Monitoring | Restart_required | Unavailable | Unsupported

datatype source_mode = File_mode | Memory_mode

record tls_watch =
  tw_status :: rotation_status
  tw_enabled :: bool
  tw_intervalMs :: int
  tw_autoRestartOnChange :: bool
  tw_sourcePaths :: "string list"
  tw_sourceMode :: source_mode
  tw_baselineFingerprint :: string
  tw_lastCheckedAtMs :: int
  tw_detectedAtMs :: "int option"
  tw_changedPaths :: "string list"
  tw_lastError :: "string option"
  tw_lastSnapshot :: "source_state list"

section \<open>Snapshots\<close>

definition safeReadFileDigest :: "(nat list \<Rightarrow> string) \<Rightarrow> file_system \<Rightarrow> string \<Rightarrow> (string, string) result" where
  "safeReadFileDigest sha fs p = bind_result (fs p) (\<lambda>(bytes, _, _). Inr (sha bytes))"

fun snapshotUpstreamTlsSources :: "(nat list \<Rightarrow> string) \<Rightarrow> file_system \<Rightarrow> string list \<Rightarrow> (string, source_state list) result" where
  "snapshotUpstreamTlsSources sha fs [] = Inr []"
| "snapshotUpstreamTlsSources sha fs (p # ps) =
     bind_result (safeReadFileDigest sha fs p) (\<lambda>digest.
     bind_result (fs p) (\<lambda>(_, mtime, len).
     bind_result (snapshotUpstreamTlsSources sha fs ps) (\<lambda>rest.
     Inr (\<lparr>ss_path = p, ss_digest = digest, ss_mtimeMs = mtime, ss_size = len\<rparr> # rest))))"

text \<open>A stable sort by path, as \<open>Array.prototype.sort\<close> is.\<close>

fun insert_by_path :: "(string \<Rightarrow> string \<Rightarrow> bool) \<Rightarrow> source_state \<Rightarrow> source_state list \<Rightarrow> source_state list" where
  "insert_by_path before x [] = [x]"
| "insert_by_path before x (y # ys) = (if before (ss_path y) (ss_path x) then y # insert_by_path before x ys else x # y # ys)"

definition computeUpstreamTlsFingerprint ::
  "(source_state list \<Rightarrow> string) \<Rightarrow> (string \<Rightarrow> string \<Rightarrow> bool) \<Rightarrow> source_state list \<Rightarrow> string" where
  "computeUpstreamTlsFingerprint hash before sources = hash (foldr (insert_by_path before) sources [])"

definition by_path :: "source_state list \<Rightarrow> (string \<times> source_state) list" where
  "by_path xs = fold (\<lambda>x m. mput m (ss_path x) x) xs []"

definition source_differs :: "source_state \<Rightarrow> source_state \<Rightarrow> bool" where
  "source_differs a b \<longleftrightarrow> ss_digest a \<noteq> ss_digest b \<or> ss_mtimeMs a \<noteq> ss_mtimeMs b \<or> ss_size a \<noteq> ss_size b"

definition computeChangedTlsMaterialPaths :: "source_state list \<Rightarrow> source_state list \<Rightarrow> string list" where
  "computeChangedTlsMaterialPaths previous current =
     map ss_path (filter (\<lambda>s. case map_of (by_path previous) (ss_path s) of None \<Rightarrow> True | Some prior \<Rightarrow> source_differs prior s) current) @
     map ss_path (filter (\<lambda>s. ss_path s \<notin> ss_path ` set current) previous)"

section \<open>The watch\<close>

definition createUpstreamTlsWatchState ::
  "(nat list \<Rightarrow> string) \<Rightarrow> (source_state list \<Rightarrow> string) \<Rightarrow> (string \<Rightarrow> string \<Rightarrow> bool) \<Rightarrow> file_system \<Rightarrow> int \<Rightarrow> runtime_options \<Rightarrow> tls_watch" where
  "createUpstreamTlsWatchState sha hash before fs now r =
     (let intervalMs = normalizeWatchInterval (Fin (of_int (upstreamTlsWatchIntervalMs r)));
          sourcePaths = normalizeUpstreamTlsSourcePaths (Some (upstreamTlsSourcePaths r));
          mode = (if length sourcePaths > 0 then File_mode else Memory_mode);
          w = \<lparr>tw_status = (if intervalMs > 0 then (if mode = File_mode then Monitoring else Unsupported) else Disabled),
               tw_enabled = (intervalMs > 0 \<and> mode = File_mode), tw_intervalMs = intervalMs,
               tw_autoRestartOnChange = upstreamTlsRestartOnChange r, tw_sourcePaths = sourcePaths, tw_sourceMode = mode,
               tw_baselineFingerprint = (if intervalMs > 0 then [] else ''disabled''), tw_lastCheckedAtMs = 0,
               tw_detectedAtMs = None, tw_changedPaths = [], tw_lastError = None, tw_lastSnapshot = []\<rparr>
      in if \<not> tw_enabled w then w
         else case snapshotUpstreamTlsSources sha fs sourcePaths of
           Inr s \<Rightarrow> w\<lparr>tw_lastSnapshot := s, tw_baselineFingerprint := computeUpstreamTlsFingerprint hash before s, tw_lastCheckedAtMs := now\<rparr>
         | Inl m \<Rightarrow> w\<lparr>tw_status := Unavailable, tw_lastError := Some m, tw_lastCheckedAtMs := now, tw_baselineFingerprint := []\<rparr>)"

definition updateUpstreamTlsWatchState ::
  "(nat list \<Rightarrow> string) \<Rightarrow> (source_state list \<Rightarrow> string) \<Rightarrow> (string \<Rightarrow> string \<Rightarrow> bool) \<Rightarrow> file_system \<Rightarrow> int \<Rightarrow> tls_watch \<Rightarrow> (string, tls_watch) result" where
  "updateUpstreamTlsWatchState sha hash before fs now w =
     (if \<not> tw_enabled w \<or> tw_sourceMode w \<noteq> File_mode then Inr w
      else bind_result (snapshotUpstreamTlsSources sha fs (tw_sourcePaths w)) (\<lambda>s.
        (let changed = computeChangedTlsMaterialPaths (tw_lastSnapshot w) s;
             w1 = w\<lparr>tw_lastCheckedAtMs := now, tw_lastSnapshot := s\<rparr>
         in if changed = [] then
              (if tw_status w1 = Restart_required then Inr w1
               else Inr (w1\<lparr>tw_status := Monitoring, tw_changedPaths := [], tw_lastError := None, tw_detectedAtMs := None,
                      tw_baselineFingerprint := computeUpstreamTlsFingerprint hash before s\<rparr>))
            else Inr (w1\<lparr>tw_changedPaths := changed,
                   tw_detectedAtMs := (case tw_detectedAtMs w1 of None \<Rightarrow> Some now | Some t \<Rightarrow> Some t),
                   tw_lastError := Some ''Upstream TLS material changed. Restart relay to apply updated certificate material.'',
                   tw_status := Restart_required\<rparr>))))"

definition refreshTlsWatchState ::
  "(nat list \<Rightarrow> string) \<Rightarrow> (source_state list \<Rightarrow> string) \<Rightarrow> (string \<Rightarrow> string \<Rightarrow> bool) \<Rightarrow> file_system \<Rightarrow> int \<Rightarrow> tls_watch \<Rightarrow> tls_watch" where
  "refreshTlsWatchState sha hash before fs now w =
     (case updateUpstreamTlsWatchState sha hash before fs now w of
        Inr w' \<Rightarrow> w'
      | Inl _ \<Rightarrow> w\<lparr>tw_status := Unavailable, tw_lastError := Some ''Unable to validate TLS material'', tw_lastCheckedAtMs := now\<rparr>)"

section \<open>What the watch reports\<close>

lemma by_path_snoc: "by_path (xs @ [x]) = mput (by_path xs) (ss_path x) x"
  by (simp add: by_path_def)

lemma by_path_lookup: "distinct (map ss_path xs) \<Longrightarrow> x \<in> set xs \<Longrightarrow> map_of (by_path xs) (ss_path x) = Some x"
  by (induction xs rule: rev_induct) (auto simp: by_path_snoc, metis imageI)

lemma snapshot_paths: "snapshotUpstreamTlsSources sha fs ps = Inr s \<Longrightarrow> map ss_path s = ps"
  by (induction ps arbitrary: s) (auto simp: bind_result_Inr)

lemma same_source: "ss_path a = ss_path b \<Longrightarrow> \<not> source_differs a b \<Longrightarrow> a = b"
  by (simp add: source_differs_def)

lemma changed_iff:
  assumes "map ss_path a = map ss_path b" and "distinct (map ss_path a)"
  shows "computeChangedTlsMaterialPaths a b = [] \<longleftrightarrow> a = b"
proof
  assume eq: "computeChangedTlsMaterialPaths a b = []"
  have len: "length a = length b" using assms(1) map_eq_imp_length_eq by blast
  show "a = b"
  proof (rule nth_equalityI [OF len])
    fix i
    assume i: "i < length a"
    have p: "ss_path (a ! i) = ss_path (b ! i)" using assms(1) i len by (metis nth_map)
    have "map_of (by_path a) (ss_path (b ! i)) = Some (a ! i)" using by_path_lookup [OF assms(2) nth_mem [OF i]] p by simp
    moreover have "\<not> (case map_of (by_path a) (ss_path (b ! i)) of None \<Rightarrow> True | Some prior \<Rightarrow> source_differs prior (b ! i))"
      using eq nth_mem [of i b] i len by (simp add: computeChangedTlsMaterialPaths_def filter_empty_conv)
    ultimately have "\<not> source_differs (a ! i) (b ! i)" by simp
    then show "a ! i = b ! i" by (rule same_source [OF p])
  qed
next
  assume "a = b"
  then show "computeChangedTlsMaterialPaths a b = []"
    using by_path_lookup assms(2) by (auto simp: computeChangedTlsMaterialPaths_def filter_empty_conv source_differs_def)
qed

lemma update_on_snapshot:
  assumes "tw_enabled w" "tw_sourceMode w = File_mode" "snapshotUpstreamTlsSources sha fs (tw_sourcePaths w) = Inr s"
    and "map ss_path (tw_lastSnapshot w) = tw_sourcePaths w" "distinct (tw_sourcePaths w)"
  shows "refreshTlsWatchState sha hash before fs now w =
    (let w1 = w\<lparr>tw_lastCheckedAtMs := now, tw_lastSnapshot := s\<rparr>
     in if s = tw_lastSnapshot w then
          (if tw_status w = Restart_required then w1
           else w1\<lparr>tw_status := Monitoring, tw_changedPaths := [], tw_lastError := None, tw_detectedAtMs := None,
                   tw_baselineFingerprint := computeUpstreamTlsFingerprint hash before s\<rparr>)
        else w1\<lparr>tw_changedPaths := computeChangedTlsMaterialPaths (tw_lastSnapshot w) s,
               tw_detectedAtMs := (case tw_detectedAtMs w of None \<Rightarrow> Some now | Some t \<Rightarrow> Some t),
               tw_lastError := Some ''Upstream TLS material changed. Restart relay to apply updated certificate material.'',
               tw_status := Restart_required\<rparr>)"
proof -
  have "computeChangedTlsMaterialPaths (tw_lastSnapshot w) s = [] \<longleftrightarrow> s = tw_lastSnapshot w"
    using changed_iff [of "tw_lastSnapshot w" s] assms(4,5) snapshot_paths [OF assms(3)] by auto
  then show ?thesis
    using assms(1-3) by (simp add: refreshTlsWatchState_def updateUpstreamTlsWatchState_def Let_def)
qed

text \<open>The timer's checks, each with the file system and the time it sees.\<close>

definition watch_run ::
  "(nat list \<Rightarrow> string) \<Rightarrow> (source_state list \<Rightarrow> string) \<Rightarrow> (string \<Rightarrow> string \<Rightarrow> bool) \<Rightarrow> (file_system \<times> int) list \<Rightarrow> tls_watch \<Rightarrow> tls_watch" where
  "watch_run sha hash before ticks w = fold (\<lambda>(fs, now). refreshTlsWatchState sha hash before fs now) ticks w"

definition watch_ready :: "tls_watch \<Rightarrow> bool" where
  "watch_ready w \<longleftrightarrow> tw_enabled w \<and> tw_sourceMode w = File_mode \<and> map ss_path (tw_lastSnapshot w) = tw_sourcePaths w \<and>
     distinct (tw_sourcePaths w)"

text \<open>The time of the first check that saw something else than \<open>s\<close>.\<close>

fun first_change :: "(nat list \<Rightarrow> string) \<Rightarrow> string list \<Rightarrow> source_state list \<Rightarrow> (file_system \<times> int) list \<Rightarrow> int option" where
  "first_change sha ps s [] = None"
| "first_change sha ps s ((fs, now) # ticks) =
     (if snapshotUpstreamTlsSources sha fs ps = Inr s then first_change sha ps s ticks else Some now)"

definition all_readable :: "(nat list \<Rightarrow> string) \<Rightarrow> string list \<Rightarrow> (file_system \<times> int) list \<Rightarrow> bool" where
  "all_readable sha ps ticks \<longleftrightarrow> list_all (\<lambda>(fs, _). \<not> Option.is_none (case snapshotUpstreamTlsSources sha fs ps of Inr s \<Rightarrow> Some s | Inl _ \<Rightarrow> None)) ticks"

lemma all_readable_Cons [simp]:
  "all_readable sha ps ((fs, now) # ticks) \<longleftrightarrow> (\<exists>s. snapshotUpstreamTlsSources sha fs ps = Inr s) \<and> all_readable sha ps ticks"
  by (auto simp: all_readable_def split: sum.splits)

lemma refresh_ready:
  assumes "watch_ready w" "snapshotUpstreamTlsSources sha fs (tw_sourcePaths w) = Inr s"
  shows "watch_ready (refreshTlsWatchState sha hash before fs now w) \<and>
    tw_sourcePaths (refreshTlsWatchState sha hash before fs now w) = tw_sourcePaths w"
  using update_on_snapshot [of w sha fs s hash before now] assms snapshot_paths [OF assms(2)]
  by (auto simp: watch_ready_def Let_def)

lemma watch_run_Cons [simp]:
  "watch_run sha hash before ((fs, now) # ticks) w = watch_run sha hash before ticks (refreshTlsWatchState sha hash before fs now w)"
  by (simp add: watch_run_def)

lemma restart_sticky:
  "watch_ready w \<Longrightarrow> all_readable sha (tw_sourcePaths w) ticks \<Longrightarrow> tw_status w = Restart_required \<Longrightarrow> tw_detectedAtMs w = Some t \<Longrightarrow>
   tw_status (watch_run sha hash before ticks w) = Restart_required \<and> tw_detectedAtMs (watch_run sha hash before ticks w) = Some t"
proof (induction ticks arbitrary: w)
  case Nil
  then show ?case by (simp add: watch_run_def)
next
  case (Cons tick ticks)
  obtain fs now where tick: "tick = (fs, now)" by (cases tick)
  from Cons.prems(2) tick obtain s where s: "snapshotUpstreamTlsSources sha fs (tw_sourcePaths w) = Inr s" by auto
  let ?w = "refreshTlsWatchState sha hash before fs now w"
  have k: "watch_ready ?w" "tw_sourcePaths ?w = tw_sourcePaths w" using refresh_ready [OF Cons.prems(1) s] by auto
  have "tw_status ?w = Restart_required" "tw_detectedAtMs ?w = Some t"
    using update_on_snapshot [of w sha fs s hash before now] Cons.prems s by (auto simp: watch_ready_def Let_def)
  then show ?case using Cons.IH [of ?w] k Cons.prems(2) tick by simp
qed

lemma watch_run_status:
  "watch_ready w \<Longrightarrow> all_readable sha (tw_sourcePaths w) ticks \<Longrightarrow> tw_status w = Monitoring \<Longrightarrow> tw_detectedAtMs w = None \<Longrightarrow>
   (let w' = watch_run sha hash before ticks w; c = first_change sha (tw_sourcePaths w) (tw_lastSnapshot w) ticks
    in tw_detectedAtMs w' = c \<and> tw_status w' = (if c = None then Monitoring else Restart_required))"
proof (induction ticks arbitrary: w)
  case Nil
  then show ?case by (simp add: watch_run_def)
next
  case (Cons tick ticks)
  obtain fs now where tick: "tick = (fs, now)" by (cases tick)
  from Cons.prems(2) tick obtain s where s: "snapshotUpstreamTlsSources sha fs (tw_sourcePaths w) = Inr s" by auto
  let ?w = "refreshTlsWatchState sha hash before fs now w"
  have k: "watch_ready ?w" "tw_sourcePaths ?w = tw_sourcePaths w" using refresh_ready [OF Cons.prems(1) s] by auto
  have u: "?w = (let w1 = w\<lparr>tw_lastCheckedAtMs := now, tw_lastSnapshot := s\<rparr>
     in if s = tw_lastSnapshot w then
          w1\<lparr>tw_status := Monitoring, tw_changedPaths := [], tw_lastError := None, tw_detectedAtMs := None,
                   tw_baselineFingerprint := computeUpstreamTlsFingerprint hash before s\<rparr>
        else w1\<lparr>tw_changedPaths := computeChangedTlsMaterialPaths (tw_lastSnapshot w) s, tw_detectedAtMs := Some now,
               tw_lastError := Some ''Upstream TLS material changed. Restart relay to apply updated certificate material.'',
               tw_status := Restart_required\<rparr>)"
    using update_on_snapshot [of w sha fs s hash before now] Cons.prems s by (simp add: watch_ready_def Let_def)
  show ?case
  proof (cases "s = tw_lastSnapshot w")
    case True
    then have "tw_status ?w = Monitoring" "tw_detectedAtMs ?w = None" "tw_lastSnapshot ?w = tw_lastSnapshot w"
      unfolding u by (simp_all add: Let_def)
    then show ?thesis using Cons.IH [of ?w] k Cons.prems(2) tick s True by simp
  next
    case False
    then have "tw_status ?w = Restart_required" "tw_detectedAtMs ?w = Some now" unfolding u by (simp_all add: Let_def)
    then show ?thesis using restart_sticky [of ?w sha ticks now hash before] k Cons.prems(2) tick s False by simp
  qed
qed

lemma created_ready:
  assumes "w = createUpstreamTlsWatchState sha hash before fs0 t0 r" and "tw_enabled w"
    and "snapshotUpstreamTlsSources sha fs0 (tw_sourcePaths w) = Inr s0"
  shows "watch_ready w \<and> tw_status w = Monitoring \<and> tw_detectedAtMs w = None \<and> tw_lastSnapshot w = s0"
  using assms source_paths_wf [of "Some (upstreamTlsSourcePaths r)"] snapshot_paths [OF assms(3)]
  by (auto simp: createUpstreamTlsWatchState_def watch_ready_def Let_def split: if_splits sum.splits)

text \<open>
  The watch reports a rotation exactly when there was one. For a watch that is enabled and could read
  its files at start and at every check, the status after any number of checks is \<open>restart_required\<close> when
  some check saw files other than those at start, and \<open>monitoring\<close> otherwise; the reported detection time is the
  time of the first such check, and stays.
\<close>

theorem rotation_reported_exactly:
  assumes "w = createUpstreamTlsWatchState sha hash before fs0 t0 r" and "tw_enabled w"
    and "snapshotUpstreamTlsSources sha fs0 (tw_sourcePaths w) = Inr s0" and "all_readable sha (tw_sourcePaths w) ticks"
  shows "tw_detectedAtMs (watch_run sha hash before ticks w) = first_change sha (tw_sourcePaths w) s0 ticks \<and>
    tw_status (watch_run sha hash before ticks w) =
      (if first_change sha (tw_sourcePaths w) s0 ticks = None then Monitoring else Restart_required)"
  using created_ready [OF assms(1-3)] watch_run_status [of w sha ticks hash before] assms(4) by (simp add: Let_def)

text \<open>A file whose content is the given bytes, at the given time.\<close>

definition one_file :: "nat list \<Rightarrow> rat \<Rightarrow> file_system" where
  "one_file bytes mtime p = (if p = ''/ca.pem'' then Inr (bytes, mtime, int (length bytes)) else Inl ''ENOENT'')"

definition plain_sha :: "nat list \<Rightarrow> string" where
  "plain_sha bytes = map char_of bytes"

definition plain_hash :: "source_state list \<Rightarrow> string" where
  "plain_hash s = concat (map ss_digest s)"

definition watched_options :: runtime_options where
  "watched_options = sample_options\<lparr>upstreamTlsWatchIntervalMs := 1000, upstreamTlsSourcePaths := [''/ca.pem'']\<rparr>"

definition sample_watch :: tls_watch where
  "sample_watch = createUpstreamTlsWatchState plain_sha plain_hash (\<lambda>a b. False) (one_file [1] 0) 5 watched_options"

lemma sample_watch_paths: "tw_enabled sample_watch \<and> tw_sourcePaths sample_watch = [''/ca.pem'']"
  by code_simp

theorem rotation_reported_exactly_witness:
  "tw_status (watch_run plain_sha plain_hash (\<lambda>a b. False) [(one_file [1] 0, 6), (one_file [2] 9, 7), (one_file [2] 9, 8)] sample_watch) = Restart_required
   \<and> tw_detectedAtMs (watch_run plain_sha plain_hash (\<lambda>a b. False) [(one_file [1] 0, 6), (one_file [2] 9, 7), (one_file [2] 9, 8)] sample_watch) = Some 7"
proof -
  let ?ticks = "[(one_file [1] 0, 6), (one_file [2] 9, 7), (one_file [2] 9, 8)]"
  let ?s0 = "[\<lparr>ss_path = ''/ca.pem'', ss_digest = plain_sha [1], ss_mtimeMs = 0, ss_size = 1\<rparr>]"
  have s0: "snapshotUpstreamTlsSources plain_sha (one_file [1] 0) (tw_sourcePaths sample_watch) = Inr ?s0"
    using sample_watch_paths by (simp add: safeReadFileDigest_def one_file_def)
  have ok: "all_readable plain_sha (tw_sourcePaths sample_watch) ?ticks"
    using sample_watch_paths by (simp add: safeReadFileDigest_def one_file_def all_readable_def)
  have c: "first_change plain_sha (tw_sourcePaths sample_watch) ?s0 ?ticks = Some 7"
    using sample_watch_paths by (simp add: safeReadFileDigest_def one_file_def)
  show ?thesis
    using rotation_reported_exactly [OF sample_watch_def _ s0 ok] sample_watch_paths c by simp
qed

text \<open>
  The readable files of the theorem are needed: a check that fails to read overwrites \<open>restart_required\<close>, and
  the next check, which compares with the already rotated files, reports \<open>monitoring\<close> and takes their
  fingerprint as the baseline, while the relay still uses the old material.
\<close>

lemma restart_notice_lost:
  "tw_status (watch_run plain_sha plain_hash (\<lambda>a b. False)
     [(one_file [2] 9, 7), (\<lambda>p. Inl ''EACCES'', 8), (one_file [2] 9, 9)] sample_watch) = Monitoring \<and>
   tw_baselineFingerprint (watch_run plain_sha plain_hash (\<lambda>a b. False)
     [(one_file [2] 9, 7), (\<lambda>p. Inl ''EACCES'', 8), (one_file [2] 9, 9)] sample_watch) = plain_sha [2]"
  by code_simp

end
