(* ===== verification/Relay_Health.thy ===== *)
theory Relay_Health
  imports Relay_Proxy Relay_Tls_Watch "HOL-Library.List_Lexorder" "HOL-Library.Char_ord"
begin

text \<open>
  The health and status endpoints of the relay proxy, \<open>serveHealth\<close>, \<open>getStats\<close> and \<open>buildProxyConfigFingerprint\<close> of
  \<^verbatim>\<open>packages/commandrelay-relay-proxy/src/index.ts\<close>. A document is the object given to \<open>JSON.stringify\<close>; \<open>hash\<close> is the hash of a
  serialised object. A reply is its status, its headers and its document.
\<close>

section \<open>Documents\<close>

definition RELAY_PROXY_STATUS_PATH :: string where
  "RELAY_PROXY_STATUS_PATH = ''/status''"

definition RELAY_PROXY_STATUS_SCHEMA_VERSION :: int where
  "RELAY_PROXY_STATUS_SCHEMA_VERSION = 2"

primrec rotation_text :: "rotation_status \<Rightarrow> string" where
  "rotation_text Disabled = ''disabled''"
| "rotation_text Monitoring = ''monitoring''"
| "rotation_text Restart_required = ''restart_required''"
| "rotation_text Unavailable = ''unavailable''"
| "rotation_text Unsupported = ''unsupported''"

primrec mode_text :: "source_mode \<Rightarrow> string" where
  "mode_text File_mode = ''file''"
| "mode_text Memory_mode = ''memory''"

definition strings_value :: "string list \<Rightarrow> jsval" where
  "strings_value ss = JArr (map JStr ss)"

definition has_identity :: "relay_tls \<Rightarrow> bool" where
  "has_identity t \<longleftrightarrow> tls_cert t \<noteq> None \<or> tls_key t \<noteq> None \<or> tls_pfx t \<noteq> None"

definition rotation_value :: "tls_watch \<Rightarrow> jsval" where
  "rotation_value w = JObj [(''status'', JStr (rotation_text (tw_status w))), (''enabled'', JBool (tw_enabled w)),
     (''intervalMs'', jint (tw_intervalMs w)), (''autoRestartOnChange'', JBool (tw_autoRestartOnChange w)),
     (''lastCheckedAtMs'', jint (tw_lastCheckedAtMs w)), (''detectedAtMs'', case tw_detectedAtMs w of None \<Rightarrow> JNull | Some t \<Rightarrow> jint t),
     (''changedPaths'', strings_value (tw_changedPaths w)), (''reason'', case tw_lastError w of None \<Rightarrow> JUndef | Some m \<Rightarrow> JStr m)]"

definition heartbeat_value :: "int \<Rightarrow> int \<Rightarrow> jsval" where
  "heartbeat_value now startedAtMs = JObj [(''checkedAtMs'', jint now), (''startedAtMs'', jint startedAtMs),
     (''uptimeMs'', jint (now - startedAtMs)), (''ageMs'', jint (now - startedAtMs))]"

definition buildProxyConfigFingerprint :: "(jsval \<Rightarrow> string) \<Rightarrow> runtime_options \<Rightarrow> tls_watch \<Rightarrow> string" where
  "buildProxyConfigFingerprint hash r w =
     (let t = upstreamTls r; or_text = (\<lambda>d v. JStr (case v of None \<Rightarrow> d | Some x \<Rightarrow> x))
      in hash (JObj [(''listenHost'', JStr (listenHost r)), (''listenPort'', JNum (listenPort r)), (''relayPath'', JStr (relayPath r)),
        (''healthPath'', JStr (healthPath r)), (''upstreamUrl'', JStr (upstreamUrl r)), (''maxConnections'', JNum (maxConnections r)),
        (''upstreamSubprotocols'', strings_value (sort (upstreamSubprotocols r))), (''allowedOrigins'', strings_value (sort (allowedOrigins r))),
        (''upstreamTls'', JObj [(''rejectUnauthorized'', JBool (tls_rejectUnauthorized t)), (''hasCustomCa'', JBool (tls_ca t \<noteq> None)),
          (''hasClientIdentity'', JBool (tls_cert t \<noteq> None \<or> tls_key t \<noteq> None)), (''hasPfx'', JBool (tls_pfx t \<noteq> None)),
          (''minVersion'', or_text ''default'' (tls_minVersion t)), (''maxVersion'', or_text ''default'' (tls_maxVersion t)),
          (''servername'', or_text [] (tls_servername t)),
          (''watch'', JObj [(''enabled'', JBool (tw_enabled w)), (''intervalMs'', jint (tw_intervalMs w)),
            (''autoRestartOnChange'', JBool (tw_autoRestartOnChange w)), (''sourceMode'', JStr (mode_text (tw_sourceMode w))),
            (''sourcePaths'', strings_value (tw_sourcePaths w))])]),
        (''idleTimeoutMs'', JNum (idleTimeoutMs r)), (''shutdownTimeoutMs'', JNum (shutdownTimeoutMs r))]))"

definition status_document :: "runtime_options \<Rightarrow> relay \<Rightarrow> int \<Rightarrow> string \<Rightarrow> tls_watch \<Rightarrow> int \<Rightarrow> jsval" where
  "status_document r s startedAtMs configFingerprint w now =
     JObj [(''status'', JStr ''open''), (''statusContractVersion'', jint RELAY_PROXY_STATUS_SCHEMA_VERSION),
       (''configFingerprint'', JStr configFingerprint), (''heartbeat'', heartbeat_value now startedAtMs),
       (''listener'', JObj [(''host'', JStr (listenHost r)), (''port'', JNum (listenPort r)), (''relayPath'', JStr (relayPath r)),
         (''healthPath'', JStr (healthPath r)), (''statusPath'', JStr RELAY_PROXY_STATUS_PATH)]),
       (''upstream'', JObj [(''url'', JStr (upstreamUrl r)), (''subprotocols'', strings_value (upstreamSubprotocols r)),
         (''watchIntervalMs'', jint (tw_intervalMs w)), (''rotation'', rotation_value w),
         (''tls'', JObj [(''rejectUnauthorized'', JBool (tls_rejectUnauthorized (upstreamTls r))),
           (''hasCustomCa'', JBool (tls_ca (upstreamTls r) \<noteq> None)), (''hasClientIdentity'', JBool (has_identity (upstreamTls r)))])]),
       (''activeConnections'', jint (rl_active s)), (''peakActiveConnections'', jint (rl_peak s)),
       (''totalConnections'', jint (rl_total s)),
       (''totals'', JObj [(''upstreamBytes'', jint (rl_upstreamBytes s)), (''downstreamBytes'', jint (rl_downstreamBytes s))])]"

text \<open>The health document reads the clock several times; the model reads it once.\<close>

definition health_document :: "runtime_options \<Rightarrow> relay \<Rightarrow> int \<Rightarrow> string \<Rightarrow> tls_watch \<Rightarrow> int \<Rightarrow> jsval" where
  "health_document r s startedAtMs configFingerprint w now =
     JObj [(''status'', JStr ''ok''), (''statusContractVersion'', jint RELAY_PROXY_STATUS_SCHEMA_VERSION),
       (''configFingerprint'', JStr configFingerprint), (''heartbeat'', heartbeat_value now startedAtMs),
       (''startedAtMs'', jint startedAtMs), (''uptimeMs'', jint (now - startedAtMs)),
       (''activeConnections'', jint (rl_active s)), (''peakActiveConnections'', jint (rl_peak s)), (''totalConnections'', jint (rl_total s)),
       (''upstreamBytes'', jint (rl_upstreamBytes s)), (''downstreamBytes'', jint (rl_downstreamBytes s)),
       (''upstreamUrl'', JStr (upstreamUrl r)), (''relayPath'', JStr (relayPath r)), (''healthPath'', JStr (healthPath r)),
       (''statusPath'', JStr RELAY_PROXY_STATUS_PATH),
       (''upstream'', JObj [(''url'', JStr (upstreamUrl r)), (''subprotocols'', strings_value (upstreamSubprotocols r)),
         (''watchIntervalMs'', jint (tw_intervalMs w)), (''rotation'', rotation_value w)])]"

definition relay_getStats :: "runtime_options \<Rightarrow> relay \<Rightarrow> int \<Rightarrow> string \<Rightarrow> tls_watch \<Rightarrow> int \<Rightarrow> jsval" where
  "relay_getStats r s startedAtMs configFingerprint w now =
     JObj [(''activeConnections'', jint (rl_active s)), (''totalConnections'', jint (rl_total s)), (''peakActiveConnections'', jint (rl_peak s)),
       (''upstreamBytes'', jint (rl_upstreamBytes s)), (''downstreamBytes'', jint (rl_downstreamBytes s)),
       (''startedAtMs'', jint startedAtMs), (''uptimeMs'', jint (now - startedAtMs)),
       (''config'', JObj [(''listenHost'', JStr (listenHost r)), (''listenPort'', JNum (listenPort r)), (''relayPath'', JStr (relayPath r)),
         (''healthPath'', JStr (healthPath r)), (''statusContractVersion'', jint RELAY_PROXY_STATUS_SCHEMA_VERSION),
         (''configFingerprint'', JStr configFingerprint), (''upstreamUrl'', JStr (upstreamUrl r)), (''maxConnections'', JNum (maxConnections r)),
         (''upstreamSubprotocols'', strings_value (upstreamSubprotocols r)),
         (''upstreamTls'', JObj [(''sourceMode'', JStr (mode_text (tw_sourceMode w))), (''sourcePaths'', strings_value (tw_sourcePaths w)),
           (''fingerprint'', JStr (tw_baselineFingerprint w)), (''rejectUnauthorized'', JBool (tls_rejectUnauthorized (upstreamTls r))),
           (''hasCustomCa'', JBool (tls_ca (upstreamTls r) \<noteq> None)), (''hasClientIdentity'', JBool (has_identity (upstreamTls r))),
           (''rotation'', rotation_value w)]),
         (''originProtection'', JBool (allowedOrigins r \<noteq> [])), (''hasTokenRequired'', JBool (requiredToken r \<noteq> []))])]"

section \<open>Requests\<close>

record relay_reply =
  rp_status :: nat
  rp_headers :: "(string \<times> string) list"
  rp_document :: jsval

definition json_header :: "string \<times> string" where
  "json_header = (''content-type'', ''application/json'')"

definition error_reply :: "nat \<Rightarrow> (string \<times> string) list \<Rightarrow> string \<Rightarrow> relay_reply" where
  "error_reply status headers code = \<lparr>rp_status = status, rp_headers = json_header # headers, rp_document = JObj [(''error'', JStr code)]\<rparr>"

text \<open>A URL that the parser refuses throws out of the handler.\<close>

definition serveHealth ::
  "(string \<Rightarrow> string option) \<Rightarrow> (string \<Rightarrow> nat list) \<Rightarrow> upgrade_request \<Rightarrow> runtime_options \<Rightarrow> relay \<Rightarrow> int \<Rightarrow> string \<Rightarrow> tls_watch \<Rightarrow> int
   \<Rightarrow> (jsval, relay_reply) result" where
  "serveHealth pathname sha rq r s startedAtMs configFingerprint w now =
     (if rq_method rq \<noteq> ''GET'' \<or> rq_url rq = [] then Inr (error_reply 405 [] ''method_not_allowed'')
      else case pathname (rq_url rq) of
        None \<Rightarrow> Inl (err ''Invalid URL'')
      | Some path \<Rightarrow>
          if path \<noteq> healthPath r \<and> path \<noteq> RELAY_PROXY_STATUS_PATH then Inr (error_reply 404 [] ''not_found'')
          else if \<not> isTokenValidFromRequest sha rq (requiredToken r) then
            Inr (error_reply 401 [(''www-authenticate'', ''Bearer realm=\"commandrelay-relay-proxy\"'')] ''unauthorized'')
          else if path = RELAY_PROXY_STATUS_PATH then
            Inr \<lparr>rp_status = 200, rp_headers = [json_header, (''cache-control'', ''no-store'')],
              rp_document = status_document r s startedAtMs configFingerprint w now\<rparr>
          else Inr \<lparr>rp_status = 200, rp_headers = [json_header],
              rp_document = health_document r s startedAtMs configFingerprint w now\<rparr>)"

section \<open>What the endpoints disclose\<close>

text \<open>The options without their secrets: no token, no passphrase, and of the TLS material only whether it is there.\<close>

definition without_secrets :: "runtime_options \<Rightarrow> runtime_options" where
  "without_secrets r = r\<lparr>requiredToken := [], upstreamTls := (upstreamTls r)\<lparr>tls_passphrase := None,
     tls_ca := map_option (\<lambda>_. []) (tls_ca (upstreamTls r)), tls_cert := map_option (\<lambda>_. []) (tls_cert (upstreamTls r)),
     tls_key := map_option (\<lambda>_. []) (tls_key (upstreamTls r)), tls_pfx := map_option (\<lambda>_. []) (tls_pfx (upstreamTls r))\<rparr>\<rparr>"

lemma fingerprint_without_secrets: "buildProxyConfigFingerprint hash (without_secrets r) w = buildProxyConfigFingerprint hash r w"
  by (simp add: buildProxyConfigFingerprint_def without_secrets_def Let_def)

lemma documents_without_secrets:
  "status_document (without_secrets r) s t f w now = status_document r s t f w now"
  "health_document (without_secrets r) s t f w now = health_document r s t f w now"
  by (simp_all add: status_document_def health_document_def without_secrets_def has_identity_def)

lemma constantTimeEquals_eq: "constantTimeEquals a b \<longleftrightarrow> a = b"
  by (auto simp: constantTimeEquals_def list_all2_eq dest: list_all2_lengthD)


definition demo_hash :: "string \<Rightarrow> nat list" where
  "demo_hash s = map of_char s"

definition demo_status_request :: upgrade_request where
  "demo_status_request = \<lparr>rq_method = ''GET'', rq_url = ''/status'', rq_origin = None, rq_authorization = Some ''Bearer secret''\<rparr>"


text \<open>A target that the URL parser refuses, such as two slashes, throws before the token is checked.\<close>

theorem health_request_throws:
  "rq_method rq = ''GET'' \<Longrightarrow> rq_url rq \<noteq> [] \<Longrightarrow> pathname (rq_url rq) = None \<Longrightarrow>
     serveHealth pathname sha rq r s t f w now = Inl (err ''Invalid URL'')"
  by (simp add: serveHealth_def)

end
