(* ===== verification/Ssh_Preflight.thy ===== *)
theory Ssh_Preflight
  imports Config Http_Client
begin

text \<open>
  The check of the SSH client before a bridge starts over SSH, \<^verbatim>\<open>src/ssh/ssh-preflight.ts\<close>. The regular expressions are
  scanners over the text: \<open>find_match\<close> tries a matcher at every word boundary from the left, and each of the four patterns
  begins with a word character. \<open>exec\<close> is \<open>execFile\<close> as a function of command, arguments, timeout and buffer limit; it
  gives the two outputs or the value it rejects with.
\<close>

section \<open>Version patterns\<close>

definition word_char :: "char \<Rightarrow> bool" where
  "word_char c \<longleftrightarrow> is_alnum c \<or> c = CHR ''_''"

definition version_char :: "char \<Rightarrow> bool" where
  "version_char c \<longleftrightarrow> \<not> is_ws c \<and> c \<noteq> CHR '',''"

fun find_match :: "(string \<Rightarrow> string option) \<Rightarrow> bool \<Rightarrow> string \<Rightarrow> string option" where
  "find_match m after_word [] = None"
| "find_match m after_word (c # cs) =
     (case (if after_word then None else m (c # cs)) of
        Some r \<Rightarrow> Some r
      | None \<Rightarrow> find_match m (word_char c) cs)"

text \<open>\<open>/name[^\s,]*\d[^\s,]*/i\<close>: the greedy match is the whole run, when it has a digit. The name is in lower case.\<close>

definition named_version :: "string \<Rightarrow> string \<Rightarrow> string option" where
  "named_version name s =
     (let run = takeWhile version_char (drop (length name) s)
      in if startsWith (toLowerCase s) name \<and> list_ex is_digit run then Some (take (length name) s @ run) else None)"

text \<open>\<open>/ssh(?:\.exe)?\s+version\s+[^\s,]+/i\<close>.\<close>

definition labelled_version :: "string \<Rightarrow> string option" where
  "labelled_version s =
     (if \<not> startsWith (toLowerCase s) ''ssh'' then None
      else let n = (if startsWith (toLowerCase (drop 3 s)) ''.exe'' then 7 else 3);
               sp1 = takeWhile is_ws (drop n s); n1 = n + length sp1;
               sp2 = takeWhile is_ws (drop (n1 + 7) s); n2 = n1 + 7 + length sp2;
               run = takeWhile version_char (drop n2 s)
           in if sp1 \<noteq> [] \<and> startsWith (toLowerCase (drop n1 s)) ''version'' \<and> sp2 \<noteq> [] \<and> run \<noteq> []
              then Some (take n2 s @ run) else None)"

text \<open>\<open>/SSH-\d\.\d-[^\s,]+/\<close>.\<close>

definition banner_version :: "string \<Rightarrow> string option" where
  "banner_version s =
     (let run = takeWhile version_char (drop 8 s)
      in if startsWith s ''SSH-'' \<and> length s > 8 \<and> is_digit (s ! 4) \<and> s ! 5 = CHR ''.'' \<and> is_digit (s ! 6) \<and> s ! 7 = CHR ''-''
            \<and> run \<noteq> [] then Some (take 8 s @ run) else None)"

fun first_match :: "(string \<Rightarrow> string option) list \<Rightarrow> string \<Rightarrow> string option" where
  "first_match [] s = None"
| "first_match (m # ms) s = (case find_match m False s of Some r \<Rightarrow> Some r | None \<Rightarrow> first_match ms s)"

definition version_patterns :: "(string \<Rightarrow> string option) list" where
  "version_patterns = [named_version ''openssh'', named_version ''dropbear'', labelled_version, banner_version]"

definition extractSshVersion :: "string \<Rightarrow> string option" where
  "extractSshVersion rawText =
     (let normalized = trim (map (\<lambda>c. if c = CHR 0x00 then CHR '' '' else c) rawText)
      in if normalized = [] then None else first_match version_patterns normalized)"

section \<open>Failures\<close>

text \<open>What a command rejects with: a string, an \<open>Error\<close> with its other properties, another object, or anything else.\<close>

datatype command_failure =
    Failure_text string
  | Failure_error string js_record
  | Failure_object js_record
  | Failure_other

fun failure_record :: "command_failure \<Rightarrow> js_record option" where
  "failure_record (Failure_error message r) = Some ((''message'', JStr message) # r)"
| "failure_record (Failure_object r) = Some r"
| "failure_record _ = None"

definition readText :: "jsval \<Rightarrow> string" where
  "readText v = (case v of JStr s \<Rightarrow> s | _ \<Rightarrow> [])"

definition readErrorText :: "command_failure \<Rightarrow> string" where
  "readErrorText e =
     join [CHR 0x0A]
       ((case e of Failure_text s \<Rightarrow> [s] | Failure_error message r \<Rightarrow> [message] | _ \<Rightarrow> [])
        @ (case failure_record e of
             None \<Rightarrow> []
           | Some r \<Rightarrow> filter (\<lambda>t. t \<noteq> []) (map (\<lambda>k. readText (prop_of r k)) [''message'', ''stdout'', ''stderr''])))"

definition failure_code :: "command_failure \<Rightarrow> string" where
  "failure_code e = (case failure_record e of None \<Rightarrow> [] | Some r \<Rightarrow> toUpperCase (readText (prop_of r ''code'')))"

definition isMissingBinary :: "command_failure \<Rightarrow> string \<Rightarrow> bool" where
  "isMissingBinary e errorText \<longleftrightarrow> failure_code e = ''ENOENT''
     \<or> list_ex (str_includes (toLowerCase errorText))
         [''enoent'', ''not found'', ''is not recognized as an internal or external command'']"

definition isTimedOut :: "command_failure \<Rightarrow> string \<Rightarrow> bool" where
  "isTimedOut e errorText \<longleftrightarrow> failure_code e = ''ETIMEDOUT''
     \<or> list_ex (str_includes (toLowerCase errorText)) [''timed out'', ''timeout'']"

definition classifyFailureReason :: "command_failure \<Rightarrow> string \<Rightarrow> string" where
  "classifyFailureReason e errorText =
     (if isMissingBinary e errorText then ''ssh_command_not_found''
      else if isTimedOut e errorText then ''ssh_version_check_timeout''
      else ''ssh_version_check_failed'')"

section \<open>The check\<close>

record preflight_result =
  pr_available :: bool
  pr_version :: "string option"
  pr_reason :: "string option"

type_synonym exec_file = "string \<Rightarrow> string list \<Rightarrow> int \<Rightarrow> int \<Rightarrow> (command_failure, string \<times> string) result"

type_synonym command_runner = "string \<Rightarrow> string list \<Rightarrow> int \<Rightarrow> (command_failure, string) result"

definition runCommand_stdout :: "exec_file \<Rightarrow> command_runner" where
  "runCommand_stdout exec command args timeoutMs =
     bind_result (exec command args timeoutMs (4 * 1024 * 1024)) (\<lambda>(stdout, stderr). Inr stdout)"

definition preflight_command :: "string option \<Rightarrow> string" where
  "preflight_command command =
     (let trimmed = (case command of Some s \<Rightarrow> trim s | None \<Rightarrow> []) in if trimmed \<noteq> [] then trimmed else ''ssh'')"

definition preflight_timeout :: "jsnum option \<Rightarrow> int" where
  "preflight_timeout timeoutMs =
     (case timeoutMs of Some (Fin q) \<Rightarrow> (if q \<le> 0 then 5000 else max 1 (trunc_rat q)) | _ \<Rightarrow> 5000)"

definition readVersionFromExecFile :: "exec_file \<Rightarrow> string \<Rightarrow> int \<Rightarrow> string option" where
  "readVersionFromExecFile exec command timeoutMs =
     (case exec command [''-V''] timeoutMs (1024 * 1024) of
        Inr (stdout, stderr) \<Rightarrow> extractSshVersion (stdout @ [CHR 0x0A] @ stderr)
      | Inl e \<Rightarrow> extractSshVersion (readErrorText e))"

text \<open>\<open>custom\<close> is the option \<open>runCommandImpl\<close>; without it \<open>runCommand\<close> runs, and the fallback reads both outputs.\<close>

definition checkSshClientAvailability ::
  "exec_file \<Rightarrow> string option \<Rightarrow> jsnum option \<Rightarrow> command_runner option \<Rightarrow> preflight_result" where
  "checkSshClientAvailability exec command timeoutMs custom =
     (let program = preflight_command command;
          timeout = preflight_timeout timeoutMs;
          run = (case custom of Some r \<Rightarrow> r | None \<Rightarrow> runCommand_stdout exec)
      in case run program [''-V''] timeout of
           Inr stdout \<Rightarrow>
             (case (case extractSshVersion stdout of
                      Some v \<Rightarrow> Some v
                    | None \<Rightarrow> (case custom of None \<Rightarrow> readVersionFromExecFile exec program timeout | Some _ \<Rightarrow> None)) of
                None \<Rightarrow> \<lparr>pr_available = False, pr_version = None, pr_reason = Some ''ssh_version_check_failed''\<rparr>
              | Some v \<Rightarrow> \<lparr>pr_available = True, pr_version = Some v, pr_reason = None\<rparr>)
         | Inl e \<Rightarrow>
             (let errorText = readErrorText e
              in case extractSshVersion errorText of
                   Some v \<Rightarrow> \<lparr>pr_available = True, pr_version = Some v, pr_reason = None\<rparr>
                 | None \<Rightarrow> \<lparr>pr_available = False, pr_version = None, pr_reason = Some (classifyFailureReason e errorText)\<rparr>))"

section \<open>What the scanner finds\<close>

definition word_boundary :: "string \<Rightarrow> bool \<Rightarrow> bool" where
  "word_boundary before after_word \<longleftrightarrow> \<not> (if before = [] then after_word else word_char (last before))"

lemma find_match_leftmost:
  "find_match m w s = Some r \<longleftrightarrow>
     (\<exists>a b. s = a @ b \<and> b \<noteq> [] \<and> word_boundary a w \<and> m b = Some r
        \<and> (\<forall>a' b'. s = a' @ b' \<and> length a' < length a \<and> word_boundary a' w \<longrightarrow> m b' = None))"
  (is "_ = ?R m w s")
proof (induction m w s rule: find_match.induct)
  case (2 m w c cs)
  have shift: "word_boundary (c # a) w = word_boundary a (word_char c)" for a by (simp add: word_boundary_def)
  show ?case
  proof (cases "\<not> w \<and> m (c # cs) \<noteq> None")
    case True
    then have hit: "word_boundary [] w" "m (c # cs) \<noteq> None" by (simp_all add: word_boundary_def)
    have "?R m w (c # cs) \<longleftrightarrow> m (c # cs) = Some r"
    proof
      assume "?R m w (c # cs)"
      then obtain a b where ab: "c # cs = a @ b" "m b = Some r"
        "\<forall>a' b'. c # cs = a' @ b' \<and> length a' < length a \<and> word_boundary a' w \<longrightarrow> m b' = None" by blast
      have "a = []" using ab(3) hit by (metis append_Nil length_0_conv length_greater_0_conv list.size(3))
      then show "m (c # cs) = Some r" using ab by simp
    next
      assume "m (c # cs) = Some r"
      then show "?R m w (c # cs)" using hit by (intro exI [of _ "[]"] exI [of _ "c # cs"]) simp
    qed
    then show ?thesis using True by auto
  next
    case False
    have "?R m w (c # cs) \<longleftrightarrow> ?R m (word_char c) cs"
    proof
      assume "?R m w (c # cs)"
      then obtain a b where ab: "c # cs = a @ b" "b \<noteq> []" "word_boundary a w" "m b = Some r"
        "\<forall>a' b'. c # cs = a' @ b' \<and> length a' < length a \<and> word_boundary a' w \<longrightarrow> m b' = None" by blast
      from ab False obtain a1 where a: "a = c # a1" "cs = a1 @ b"
        by (cases a) (auto simp: word_boundary_def)
      have "m b' = None" if "cs = a' @ b'" "length a' < length a1" "word_boundary a' (word_char c)" for a' b'
        using ab(5) that by (metis a(1) append_Cons length_Cons not_less_eq shift)
      then show "?R m (word_char c) cs" using ab a shift by blast
    next
      assume "?R m (word_char c) cs"
      then obtain a b where ab: "cs = a @ b" "b \<noteq> []" "word_boundary a (word_char c)" "m b = Some r"
        "\<forall>a' b'. cs = a' @ b' \<and> length a' < length a \<and> word_boundary a' (word_char c) \<longrightarrow> m b' = None" by blast
      have "m b' = None" if x: "c # cs = a' @ b'" "length a' < length (c # a)" "word_boundary a' w" for a' b'
      proof (cases a')
        case Nil
        then show ?thesis using x False by (auto simp: word_boundary_def)
      next
        case (Cons d a1)
        then show ?thesis using x ab(5) shift by auto
      qed
      then show "?R m w (c # cs)"
        using ab shift by (intro exI [of _ "c # a"] exI [of _ b]) auto
    qed
    then show ?thesis using 2 False by (auto split: option.split)
  qed
qed simp

text \<open>Every pattern matches a non-empty beginning of the rest of the text.\<close>

lemma take_append_prefix: "Sublist.prefix (take n s @ takeWhile P (drop n s)) s"
  by (metis append_take_drop_id prefixI same_prefix_prefix takeWhile_dropWhile_id)

lemma patterns_prefix:
  assumes "m \<in> set version_patterns" "m s = Some r"
  shows "r \<noteq> [] \<and> Sublist.prefix r s"
  using assms take_append_prefix
  by (auto simp: version_patterns_def named_version_def labelled_version_def banner_version_def Let_def split: if_splits)

lemma first_match_found:
  assumes "first_match ms s = Some r"
  shows "\<exists>m a b. m \<in> set ms \<and> s = a @ b \<and> word_boundary a False \<and> m b = Some r"
  using assms
proof (induction ms)
  case (Cons m ms)
  show ?case
  proof (cases "find_match m False s")
    case None
    then show ?thesis using Cons by auto
  next
    case (Some x)
    then have "find_match m False s = Some r" using Cons.prems by simp
    then show ?thesis unfolding find_match_leftmost by auto
  qed
qed simp

definition in_text :: "string \<Rightarrow> string \<Rightarrow> bool" where
  "in_text v s \<longleftrightarrow> (\<exists>a c. trim (map (\<lambda>c. if c = CHR 0x00 then CHR '' '' else c) s) = a @ v @ c \<and> word_boundary a False)"

lemma extract_in_text: "extractSshVersion s = Some v \<Longrightarrow> v \<noteq> [] \<and> in_text v s"
  using first_match_found [of version_patterns] patterns_prefix
  by (fastforce simp: extractSshVersion_def in_text_def Let_def Sublist.prefix_def split: if_splits)

text \<open>
  The result of the check is consistent: it has a version exactly when the client is available, and otherwise one of three
  reasons. The version is a piece of what the command printed, or of the text of its failure, at a word boundary.
\<close>

theorem preflight_verdict:
  assumes r: "r = checkSshClientAvailability exec command timeoutMs None"
    and p: "p = preflight_command command" and t: "t = preflight_timeout timeoutMs"
  shows "pr_available r = (pr_version r \<noteq> None) \<and> pr_available r = (pr_reason r = None)"
    and "pr_reason r \<in> {None, Some ''ssh_command_not_found'', Some ''ssh_version_check_timeout'', Some ''ssh_version_check_failed''}"
    and "pr_version r = Some v \<Longrightarrow> v \<noteq> [] \<and>
       (case exec p [''-V''] t 4194304 of
          Inl e \<Rightarrow> in_text v (readErrorText e)
        | Inr (stdout, stderr) \<Rightarrow> in_text v stdout
            \<or> (case exec p [''-V''] t 1048576 of
                 Inl e \<Rightarrow> in_text v (readErrorText e) | Inr (stdout', stderr') \<Rightarrow> in_text v (stdout' @ [CHR 0x0A] @ stderr')))"
proof -
  note defs = checkSshClientAvailability_def runCommand_stdout_def readVersionFromExecFile_def bind_result_def Let_def
  show "pr_available r = (pr_version r \<noteq> None) \<and> pr_available r = (pr_reason r = None)"
    by (simp add: r defs split: sum.split option.split prod.split)
  show "pr_reason r \<in> {None, Some ''ssh_command_not_found'', Some ''ssh_version_check_timeout'', Some ''ssh_version_check_failed''}"
    by (simp add: r defs classifyFailureReason_def split: sum.split option.split prod.split)
  assume "pr_version r = Some v"
  then show "v \<noteq> [] \<and>
       (case exec p [''-V''] t 4194304 of
          Inl e \<Rightarrow> in_text v (readErrorText e)
        | Inr (stdout, stderr) \<Rightarrow> in_text v stdout
            \<or> (case exec p [''-V''] t 1048576 of
                 Inl e \<Rightarrow> in_text v (readErrorText e) | Inr (stdout', stderr') \<Rightarrow> in_text v (stdout' @ [CHR 0x0A] @ stderr')))"
    using extract_in_text by (auto simp: r p t defs split: sum.splits option.splits prod.splits)
qed

text \<open>A client that is not there is reported as available when the path in the error names a version.\<close>

theorem missing_client_available:
  "checkSshClientAvailability (\<lambda>_ _ _ _. Inl (Failure_error ''spawn /opt/openssh-9.6/bin/ssh ENOENT'' [(''code'', JStr ''ENOENT'')]))
     (Some ''/opt/openssh-9.6/bin/ssh'') None None
   = \<lparr>pr_available = True, pr_version = Some ''openssh-9.6/bin/ssh'', pr_reason = None\<rparr>"
  by code_simp

end
