(* ===== verification/Ssh_Session.thy ===== *)
theory Ssh_Session
  imports Js_Prelude
begin

text \<open>
  The state machine of client-visible SSH sessions, \<^verbatim>\<open>src/ssh/session-state-machine.ts\<close>, and its abstract
  view: whether there is a live link to the host.
\<close>

section \<open>The machine\<close>

datatype control_state = Offline | Connecting | Connected | Attached | Reconnecting | Replaying

datatype transition_event =
    Start_connect | Connect_succeeded | Connect_failed | Disconnect | Attach | Connection_lost | Detach
  | Reconnect_succeeded | Reconnect_failed | Begin_replay | Replay_completed | Replay_failed

fun TRANSITIONS :: "control_state \<Rightarrow> transition_event \<Rightarrow> control_state option" where
  "TRANSITIONS Offline Start_connect = Some Connecting"
| "TRANSITIONS Connecting Connect_succeeded = Some Connected"
| "TRANSITIONS Connecting Connect_failed = Some Offline"
| "TRANSITIONS Connecting Disconnect = Some Offline"
| "TRANSITIONS Connected Attach = Some Attached"
| "TRANSITIONS Connected Disconnect = Some Offline"
| "TRANSITIONS Connected Connection_lost = Some Reconnecting"
| "TRANSITIONS Attached Detach = Some Connected"
| "TRANSITIONS Attached Disconnect = Some Offline"
| "TRANSITIONS Attached Connection_lost = Some Reconnecting"
| "TRANSITIONS Reconnecting Reconnect_succeeded = Some Connected"
| "TRANSITIONS Reconnecting Reconnect_failed = Some Offline"
| "TRANSITIONS Reconnecting Begin_replay = Some Replaying"
| "TRANSITIONS Reconnecting Disconnect = Some Offline"
| "TRANSITIONS Replaying Replay_completed = Some Attached"
| "TRANSITIONS Replaying Replay_failed = Some Connected"
| "TRANSITIONS Replaying Connection_lost = Some Reconnecting"
| "TRANSITIONS Replaying Disconnect = Some Offline"
| "TRANSITIONS _ _ = None"

record transition_context =
  tx_sequence :: int
  tx_atMs :: int

record log_entry =
  le_sequence :: int
  le_atMs :: int
  le_from :: control_state
  le_event :: transition_event
  le_to :: control_state
  le_accepted :: bool
  le_reason :: "string option"

record transition_result =
  tr_state :: control_state
  tr_changed :: bool
  tr_log :: log_entry

definition SSH_SESSION_INITIAL_STATE :: control_state where
  "SSH_SESSION_INITIAL_STATE = Offline"

definition isTransitionAllowed :: "control_state \<Rightarrow> transition_event \<Rightarrow> bool" where
  "isTransitionAllowed s ev \<longleftrightarrow> TRANSITIONS s ev \<noteq> None"

definition isInputEnabledState :: "control_state \<Rightarrow> bool" where
  "isInputEnabledState s \<longleftrightarrow> s = Attached"

definition canEnableInputFromState :: "control_state \<Rightarrow> bool" where
  "canEnableInputFromState s \<longleftrightarrow> s = Connected \<or> s = Attached \<or> s = Replaying"

definition transitionSshSessionState :: "control_state \<Rightarrow> transition_event \<Rightarrow> transition_context \<Rightarrow> transition_result" where
  "transitionSshSessionState s ev ctx =
     (case TRANSITIONS s ev of
        None \<Rightarrow> \<lparr>tr_state = s, tr_changed = False,
          tr_log = \<lparr>le_sequence = tx_sequence ctx, le_atMs = tx_atMs ctx, le_from = s, le_event = ev, le_to = s,
            le_accepted = False, le_reason = Some ''invalid_transition''\<rparr>\<rparr>
      | Some t \<Rightarrow> \<lparr>tr_state = t, tr_changed = (t \<noteq> s),
          tr_log = \<lparr>le_sequence = tx_sequence ctx, le_atMs = tx_atMs ctx, le_from = s, le_event = ev, le_to = t,
            le_accepted = True, le_reason = None\<rparr>\<rparr>)"

section \<open>Runs\<close>

inductive session_run :: "control_state \<Rightarrow> log_entry list \<Rightarrow> bool" where
  run_start: "session_run SSH_SESSION_INITIAL_STATE []"
| run_step: "session_run s lg \<Longrightarrow> r = transitionSshSessionState s ev ctx \<Longrightarrow> session_run (tr_state r) (lg @ [tr_log r])"

inductive_cases session_run_snocE: "session_run s (lg @ [e])"

section \<open>The abstract view\<close>

fun link_up :: "control_state \<Rightarrow> bool" where
  "link_up Offline = False" | "link_up Connecting = False" | "link_up Reconnecting = False"
| "link_up Connected = True" | "link_up Attached = True" | "link_up Replaying = True"

text \<open>What an event means for the link: it comes up, it goes down, or it is as before.\<close>

definition raises_link :: "transition_event \<Rightarrow> bool" where
  "raises_link ev \<longleftrightarrow> ev \<in> {Connect_succeeded, Reconnect_succeeded, Begin_replay}"

definition drops_link :: "transition_event \<Rightarrow> bool" where
  "drops_link ev \<longleftrightarrow> ev \<in> {Connect_failed, Disconnect, Connection_lost, Reconnect_failed}"

definition opens_input :: "transition_event \<Rightarrow> bool" where
  "opens_input ev \<longleftrightarrow> ev \<in> {Attach, Replay_completed}"

lemma link_simulation:
  "TRANSITIONS s ev = Some t \<Longrightarrow> link_up t = (if raises_link ev then True else if drops_link ev then False else link_up s)"
  by (cases s; cases ev) (auto simp: raises_link_def drops_link_def)

lemma attach_simulation:
  "TRANSITIONS s ev = Some t \<Longrightarrow> (t = Attached \<longleftrightarrow> opens_input ev) \<and> (opens_input ev \<longrightarrow> link_up s) \<and> \<not> (opens_input ev \<and> drops_link ev)"
  by (cases s; cases ev) (auto simp: opens_input_def drops_link_def)

definition live_since :: "log_entry list \<Rightarrow> bool" where
  "live_since lg \<longleftrightarrow> (\<exists>pre e post. lg = pre @ e # post \<and> le_accepted e \<and> raises_link (le_event e) \<and>
     list_all (\<lambda>x. le_accepted x \<longrightarrow> \<not> drops_link (le_event x)) post)"

lemma live_since_snoc:
  "live_since lg \<Longrightarrow> (le_accepted x \<longrightarrow> \<not> drops_link (le_event x)) \<Longrightarrow> live_since (lg @ [x])"
  unfolding live_since_def by (elim exE conjE) (rule exI, rule exI, rule_tac x = "post @ [x]" in exI, simp)

lemma live_since_raise: "le_accepted x \<Longrightarrow> raises_link (le_event x) \<Longrightarrow> live_since (lg @ [x])"
  unfolding live_since_def by (rule exI [of _ lg], rule exI [of _ x], rule exI [of _ "[]"]) simp

definition input_since :: "log_entry list \<Rightarrow> bool" where
  "input_since lg \<longleftrightarrow> (\<exists>pre e post. lg = pre @ e # post \<and> le_accepted e \<and> opens_input (le_event e) \<and> live_since pre \<and>
     list_all (\<lambda>x. \<not> le_accepted x) post)"

lemma input_since_rejected: "input_since lg \<Longrightarrow> \<not> le_accepted x \<Longrightarrow> input_since (lg @ [x])"
  unfolding input_since_def by (elim exE conjE) (rule exI, rule exI, rule_tac x = "post @ [x]" in exI, simp)

lemma input_since_open:
  "le_accepted x \<Longrightarrow> opens_input (le_event x) \<Longrightarrow> live_since lg \<Longrightarrow> input_since (lg @ [x])"
  unfolding input_since_def by (rule exI [of _ lg], rule exI [of _ x], rule exI [of _ "[]"]) simp

lemma session_run_live:
  "session_run s lg \<Longrightarrow> (link_up s \<longrightarrow> live_since lg) \<and> (s = Attached \<longrightarrow> input_since lg)"
proof (induction rule: session_run.induct)
  case run_start
  then show ?case by (simp add: SSH_SESSION_INITIAL_STATE_def)
next
  case (run_step s lg r ev ctx)
  show ?case
  proof (cases "TRANSITIONS s ev")
    case None
    then show ?thesis
      using run_step.hyps(2) run_step.IH input_since_rejected live_since_snoc
      by (auto simp: transitionSshSessionState_def)
  next
    case (Some t)
    let ?e = "tr_log r"
    have e: "le_accepted ?e" "le_event ?e = ev" and t: "tr_state r = t"
      using run_step.hyps(2) Some by (auto simp: transitionSshSessionState_def)
    have "link_up t \<longrightarrow> live_since (lg @ [?e])"
      using link_simulation [OF Some] live_since_raise [of ?e lg] live_since_snoc [of lg ?e] run_step.IH e
      by (auto split: if_splits)
    moreover have "t = Attached \<longrightarrow> input_since (lg @ [?e])"
    proof
      assume "t = Attached"
      then have "opens_input ev" "live_since lg" using attach_simulation [OF Some] run_step.IH by auto
      then show "input_since (lg @ [?e])" using input_since_open [of ?e lg] e by simp
    qed
    ultimately show ?thesis using t by simp
  qed
qed

lemma session_run_log:
  "session_run s lg \<Longrightarrow> (if lg = [] then s = Offline else le_to (last lg) = s \<and> le_from (hd lg) = Offline) \<and>
     (\<forall>i. Suc i < length lg \<longrightarrow> le_to (lg ! i) = le_from (lg ! Suc i))"
proof (induction rule: session_run.induct)
  case run_start
  then show ?case by (simp add: SSH_SESSION_INITIAL_STATE_def)
next
  case (run_step s lg r ev ctx)
  have e: "le_from (tr_log r) = s" "le_to (tr_log r) = tr_state r"
    using run_step.hyps(2) by (auto simp: transitionSshSessionState_def split: option.splits)
  have l: "le_to (lg ! i) = s" if "Suc i = length lg" for i
  proof -
    have "lg \<noteq> []" "i = length lg - 1" using that by auto
    then show ?thesis using run_step.IH by (simp add: last_conv_nth)
  qed
  have "le_to ((lg @ [tr_log r]) ! i) = le_from ((lg @ [tr_log r]) ! Suc i)" if "Suc i < length (lg @ [tr_log r])" for i
  proof (cases "Suc i = length lg")
    case True
    then show ?thesis using l [OF True] e by (simp add: nth_append)
  next
    case False
    then show ?thesis using that run_step.IH by (simp add: nth_append)
  qed
  then show ?case
    using run_step.IH e by (auto simp: hd_append)
qed

text \<open>
  C28: a session accepts input only on a live link. In every run, when the state allows input, the log
  shows an accepted \<open>attach\<close> or \<open>replay_completed\<close> as the last accepted event, and before it an
  accepted event that brought the link up with no accepted event after that which took it down. The
  log of a run is gapless: it starts offline, each entry starts where the previous one ended, and
  the last one ends in the current state. From every state but offline, \<open>disconnect\<close> leads offline.
\<close>

theorem input_only_on_live_link:
  assumes "session_run s lg"
  shows "(isInputEnabledState s \<longrightarrow> input_since lg) \<and>
    (if lg = [] then s = SSH_SESSION_INITIAL_STATE
     else le_from (hd lg) = SSH_SESSION_INITIAL_STATE \<and> le_to (last lg) = s) \<and>
    (\<forall>i. Suc i < length lg \<longrightarrow> le_to (lg ! i) = le_from (lg ! Suc i)) \<and>
    tr_state (transitionSshSessionState s Disconnect ctx) = Offline"
proof -
  have "tr_state (transitionSshSessionState s Disconnect ctx) = Offline"
    by (cases s) (simp_all add: transitionSshSessionState_def)
  then show ?thesis
    using session_run_live [OF assms] session_run_log [OF assms]
    by (auto simp: isInputEnabledState_def SSH_SESSION_INITIAL_STATE_def)
qed

fun run_events :: "control_state \<Rightarrow> log_entry list \<Rightarrow> transition_event list \<Rightarrow> control_state \<times> log_entry list" where
  "run_events s lg [] = (s, lg)"
| "run_events s lg (ev # evs) =
     (let r = transitionSshSessionState s ev \<lparr>tx_sequence = int (length lg), tx_atMs = 0\<rparr>
      in run_events (tr_state r) (lg @ [tr_log r]) evs)"

lemma run_events_run: "session_run s lg \<Longrightarrow> run_events s lg evs = (t, lg') \<Longrightarrow> session_run t lg'"
proof (induction evs arbitrary: s lg)
  case (Cons ev evs)
  then show ?case by (auto simp: Let_def intro: session_run.intros)
qed simp

theorem input_only_on_live_link_witness:
  "\<exists>lg. run_events Offline [] [Start_connect, Connect_succeeded, Detach, Attach] = (Attached, lg) \<and> input_since lg"
proof -
  obtain t lg where r: "run_events Offline [] [Start_connect, Connect_succeeded, Detach, Attach] = (t, lg)"
    by (cases "run_events Offline [] [Start_connect, Connect_succeeded, Detach, Attach]")
  have t: "t = Attached" using r by (auto simp: transitionSshSessionState_def)
  have "session_run Offline []" using run_start by (simp add: SSH_SESSION_INITIAL_STATE_def)
  from input_only_on_live_link [OF run_events_run [OF this r]] show ?thesis
    using r t by (simp add: isInputEnabledState_def)
qed

end
