(* ===== verification/Startup.thy ===== *)
theory Startup
  imports Ssh_Preflight Control_Plane Bridge_Client
begin

text \<open>
  How a bridge process starts: the startup profile (\<^verbatim>\<open>src/startup/startup-profile.ts\<close>), the audit log
  (\<^verbatim>\<open>src/server/audit-log.ts\<close>) and \<open>main\<close> of \<^verbatim>\<open>src/index.ts\<close> up to the call of \<open>startBridgeServer\<close>. The
  host is a record of what the checks ask it: \<open>stat\<close>, \<open>access\<close> (the message of its error, if any) and the path functions of
  the platform. A thrown error is \<open>err\<close> of its message.
\<close>

section \<open>Startup profile\<close>

datatype check_status = Check_pass | Check_fail | Check_skip

record profile_check =
  ck_id :: string
  ck_status :: check_status
  ck_detail :: string
  ck_remediation :: "string option"
  ck_metadata :: js_record

record profile_report =
  rp_profile :: string
  rp_nodeVersion :: string
  rp_checks :: "profile_check list"
  rp_passed :: nat
  rp_failed :: nat
  rp_skipped :: nat

datatype stat_outcome = Stats bool | Stat_missing | Stat_error jsval

datatype access_mode = Read_execute | Write_execute | Write_only

record host =
  h_stat :: "string \<Rightarrow> stat_outcome"
  h_access :: "string \<Rightarrow> access_mode \<Rightarrow> string option"
  h_resolve :: "string \<Rightarrow> string"
  h_dirname :: "string \<Rightarrow> string"

definition STARTUP_PROFILE_MIN_NODE_MAJOR :: int where
  "STARTUP_PROFILE_MIN_NODE_MAJOR = 22"

definition parseNodeMajorVersion :: "string \<Rightarrow> int option" where
  "parseNodeMajorVersion version =
     (let t = trim version; u = (if startsWith t ''v'' then tl t else t); ds = takeWhile is_digit u
      in if ds = [] then None else case parseInt ds of Fin q \<Rightarrow> Some \<lfloor>q\<rfloor> | _ \<Rightarrow> None)"

definition evaluateNodeRuntimeVersionPolicy :: "string \<Rightarrow> profile_check" where
  "evaluateNodeRuntimeVersionPolicy nodeVersion =
     (case parseNodeMajorVersion nodeVersion of
        None \<Rightarrow>
          \<lparr>ck_id = ''node_runtime_version'', ck_status = Check_fail,
           ck_detail = ''Unable to parse Node runtime version '' @ quoted nodeVersion,
           ck_remediation = Some ''Install Node 22+ and restart the bridge'',
           ck_metadata = [(''nodeVersion'', JStr nodeVersion), (''requiredMajor'', jint STARTUP_PROFILE_MIN_NODE_MAJOR)]\<rparr>
      | Some nodeMajor \<Rightarrow>
          (let metadata = [(''nodeVersion'', JStr nodeVersion), (''nodeMajor'', jint nodeMajor),
                           (''requiredMajor'', jint STARTUP_PROFILE_MIN_NODE_MAJOR)]
           in if nodeMajor < STARTUP_PROFILE_MIN_NODE_MAJOR then
                \<lparr>ck_id = ''node_runtime_version'', ck_status = Check_fail,
                 ck_detail = ''Detected Node '' @ nodeVersion @ ''; requires major version >= 22'',
                 ck_remediation = Some ''Upgrade Node runtime on the host to 22+'', ck_metadata = metadata\<rparr>
              else
                \<lparr>ck_id = ''node_runtime_version'', ck_status = Check_pass,
                 ck_detail = ''Node runtime '' @ nodeVersion @ '' satisfies startup policy'',
                 ck_remediation = None, ck_metadata = metadata\<rparr>))"

definition evaluateTmuxBackendSignalPolicy :: "string list \<Rightarrow> (string \<times> bool) list \<Rightarrow> profile_check" where
  "evaluateTmuxBackendSignalPolicy runtimeBackends availability =
     (if ''tmux'' \<notin> set runtimeBackends then
        \<lparr>ck_id = ''tmux_backend_signal'', ck_status = Check_skip,
         ck_detail = ''tmux backend is not configured in COMMANDRELAY_RUNTIME_BACKENDS'', ck_remediation = None,
         ck_metadata = [(''configured'', JBool False)]\<rparr>
      else case map_of availability ''tmux'' of
        None \<Rightarrow>
          \<lparr>ck_id = ''tmux_backend_signal'', ck_status = Check_fail,
           ck_detail = ''tmux backend availability signal is missing from startup probe results'',
           ck_remediation = Some ''Ensure tmux is included in runtime startup availability probing'',
           ck_metadata = [(''configured'', JBool True)]\<rparr>
      | Some available \<Rightarrow>
          (let metadata = [(''configured'', JBool True), (''signaled'', JBool True), (''available'', JBool available)]
           in if \<not> available then
                \<lparr>ck_id = ''tmux_backend_signal'', ck_status = Check_fail,
                 ck_detail = ''tmux backend reported unavailable during startup probe'',
                 ck_remediation = Some ''Install/start tmux on the host or remove tmux from COMMANDRELAY_RUNTIME_BACKENDS'',
                 ck_metadata = metadata\<rparr>
              else
                \<lparr>ck_id = ''tmux_backend_signal'', ck_status = Check_pass,
                 ck_detail = ''tmux backend availability signal is present and healthy'', ck_remediation = None,
                 ck_metadata = metadata\<rparr>))"

definition safeStat :: "host \<Rightarrow> string \<Rightarrow> (jsval, bool option) result" where
  "safeStat h path = (case h_stat h path of Stats isDirectory \<Rightarrow> Inr (Some isDirectory) | Stat_missing \<Rightarrow> Inr None | Stat_error e \<Rightarrow> Inl e)"

definition static_check :: "string \<Rightarrow> check_status \<Rightarrow> string \<Rightarrow> string option \<Rightarrow> bool \<Rightarrow> profile_check" where
  "static_check resolvedPath status detail remediation enabled =
     \<lparr>ck_id = ''app_static_dir_policy'', ck_status = status, ck_detail = detail, ck_remediation = remediation,
      ck_metadata = [(''enabled'', JBool enabled), (''resolvedPath'', JStr resolvedPath)]\<rparr>"

definition evaluateAppStaticDirPolicy :: "host \<Rightarrow> bool \<Rightarrow> string \<Rightarrow> (jsval, profile_check) result" where
  "evaluateAppStaticDirPolicy h appStaticEnabled appStaticDir =
     (let resolvedPath = h_resolve h appStaticDir
      in if \<not> appStaticEnabled then
           Inr (static_check resolvedPath Check_skip ''Static app hosting is disabled; app directory policy check skipped'' None False)
         else bind_result (safeStat h resolvedPath) (\<lambda>pathStats.
           case pathStats of
             None \<Rightarrow> Inr (static_check resolvedPath Check_fail (''Static app directory does not exist: '' @ resolvedPath)
                       (Some ''Create COMMANDRELAY_APP_STATIC_DIR or disable static hosting'') True)
           | Some isDirectory \<Rightarrow>
               (if \<not> isDirectory then
                  Inr (static_check resolvedPath Check_fail (''Static app path is not a directory: '' @ resolvedPath)
                    (Some ''Point COMMANDRELAY_APP_STATIC_DIR to a readable directory'') True)
                else case h_access h resolvedPath Read_execute of
                  Some message \<Rightarrow>
                    Inr (static_check resolvedPath Check_fail
                      (''Static app directory is not readable: '' @ resolvedPath @ '' ('' @ message @ '')'')
                      (Some ''Grant read/execute permissions for COMMANDRELAY_APP_STATIC_DIR'') True)
                | None \<Rightarrow> Inr (static_check resolvedPath Check_pass ''Static app directory policy check passed'' None True))))"

definition audit_check :: "string \<Rightarrow> string \<Rightarrow> check_status \<Rightarrow> string \<Rightarrow> string option \<Rightarrow> profile_check" where
  "audit_check auditPath parentPath status detail remediation =
     \<lparr>ck_id = ''audit_log_path_policy'', ck_status = status, ck_detail = detail, ck_remediation = remediation,
      ck_metadata = [(''configured'', JBool True), (''resolvedAuditPath'', JStr auditPath), (''parentPath'', JStr parentPath)]\<rparr>"

text \<open>The checks of the file itself, once its directory is known to be one.\<close>

definition audit_file_check :: "host \<Rightarrow> string \<Rightarrow> string \<Rightarrow> bool option \<Rightarrow> profile_check" where
  "audit_file_check h auditPath parentPath auditPathStats =
     (if auditPathStats = Some True then
        audit_check auditPath parentPath Check_fail (''Audit log path points to a directory: '' @ auditPath)
          (Some ''Set COMMANDRELAY_AUDIT_LOG to a file path, not a directory'')
      else case h_access h parentPath Write_execute of
        Some message \<Rightarrow>
          audit_check auditPath parentPath Check_fail
            (''Audit log parent directory is not writable: '' @ parentPath @ '' ('' @ message @ '')'')
            (Some ''Grant write permissions to the audit log parent directory'')
      | None \<Rightarrow>
          (case (if auditPathStats \<noteq> None then h_access h auditPath Write_only else None) of
             Some message \<Rightarrow>
               audit_check auditPath parentPath Check_fail
                 (''Audit log file is not writable: '' @ auditPath @ '' ('' @ message @ '')'')
                 (Some ''Grant write permissions to the audit log file or choose another path'')
           | None \<Rightarrow> audit_check auditPath parentPath Check_pass ''Audit log path policy check passed'' None))"

definition evaluateAuditLogPathPolicy :: "host \<Rightarrow> string option \<Rightarrow> (jsval, profile_check) result" where
  "evaluateAuditLogPathPolicy h auditLogPath =
     (if opt_empty auditLogPath then
        Inr \<lparr>ck_id = ''audit_log_path_policy'', ck_status = Check_skip,
          ck_detail = ''Audit log path is not configured; audit file policy check skipped'', ck_remediation = None,
          ck_metadata = [(''configured'', JBool False)]\<rparr>
      else let auditPath = h_resolve h (the auditLogPath); parentPath = h_dirname h auditPath
        in bind_result (safeStat h parentPath) (\<lambda>parentStats.
             case parentStats of
               None \<Rightarrow>
                 Inr (audit_check auditPath parentPath Check_fail (''Audit log parent directory does not exist: '' @ parentPath)
                   (Some ''Create the parent directory or set COMMANDRELAY_AUDIT_LOG to a valid writable path''))
             | Some isDirectory \<Rightarrow>
                 (if \<not> isDirectory then
                    Inr (audit_check auditPath parentPath Check_fail (''Audit log parent path is not a directory: '' @ parentPath)
                      (Some ''Set COMMANDRELAY_AUDIT_LOG to a path under a writable directory''))
                  else bind_result (safeStat h auditPath) (\<lambda>stats. Inr (audit_file_check h auditPath parentPath stats)))))"

definition count_status :: "check_status \<Rightarrow> profile_check list \<Rightarrow> nat" where
  "count_status st checks = length (filter (\<lambda>c. ck_status c = st) checks)"

definition evaluateStartupProfile ::
  "host \<Rightarrow> bridge_config \<Rightarrow> (string \<times> bool) list \<Rightarrow> string \<Rightarrow> (jsval, profile_report) result" where
  "evaluateStartupProfile h c availability nodeVersion =
     bind_result (evaluateAppStaticDirPolicy h (cfg_appStaticEnabled c) (cfg_appStaticDir c)) (\<lambda>static.
     bind_result (evaluateAuditLogPathPolicy h (cfg_auditLogPath c)) (\<lambda>audit.
       let checks = [evaluateNodeRuntimeVersionPolicy nodeVersion,
                     evaluateTmuxBackendSignalPolicy (cfg_runtimeBackends c) availability, static, audit]
       in Inr \<lparr>rp_profile = ''remote_host'', rp_nodeVersion = nodeVersion, rp_checks = checks,
               rp_passed = count_status Check_pass checks, rp_failed = count_status Check_fail checks,
               rp_skipped = count_status Check_skip checks\<rparr>))"

datatype log_level = Info | Warn

definition status_text :: "check_status \<Rightarrow> string" where
  "status_text st = (case st of Check_pass \<Rightarrow> ''pass'' | Check_fail \<Rightarrow> ''fail'' | Check_skip \<Rightarrow> ''skip'')"

text \<open>The logged payloads, before \<open>JSON.stringify\<close>.\<close>

definition logStartupProfileReport :: "profile_report \<Rightarrow> (log_level \<times> jsval) list" where
  "logStartupProfileReport report =
     (Info, JObj [(''event'', JStr ''startup_profile_summary''), (''profile'', JStr (rp_profile report)),
        (''nodeVersion'', JStr (rp_nodeVersion report)), (''passed'', jint (int (rp_passed report))),
        (''failed'', jint (int (rp_failed report))), (''skipped'', jint (int (rp_skipped report)))])
     # map (\<lambda>c. (if ck_status c = Check_fail then Warn else Info,
         JObj [(''event'', JStr ''startup_profile_check''), (''profile'', JStr (rp_profile report)), (''id'', JStr (ck_id c)),
           (''status'', JStr (status_text (ck_status c))), (''detail'', JStr (ck_detail c)),
           (''remediation'', case ck_remediation c of None \<Rightarrow> JNull | Some t \<Rightarrow> JStr t),
           (''metadata'', JObj (ck_metadata c))])) (rp_checks report)"

definition assertStartupProfilePass :: "profile_report \<Rightarrow> (jsval, unit) result" where
  "assertStartupProfilePass report =
     (if rp_failed report = 0 then Inr ()
      else let failedChecks = filter (\<lambda>c. ck_status c = Check_fail) (rp_checks report);
               reason = (\<lambda>c. ck_id c @ '': '' @ ck_detail c @ ''.'' @
                 (case ck_remediation c of Some t \<Rightarrow> (if t \<noteq> [] then '' Remediation: '' @ t else []) | None \<Rightarrow> []))
           in Inl (err (''Startup profile '' @ quoted (rp_profile report) @ '' failed with '' @ decimal (length failedChecks) @
                '' check(s). '' @ join '' '' (map reason failedChecks))))"

section \<open>Audit log\<close>

record audit_event =
  ae_ts :: int
  ae_action :: string
  ae_clientId :: string
  ae_details :: js_record

text \<open>The sink is a callback: the message of what it throws, if it throws.\<close>

record audit_logger =
  al_path :: "string option"
  al_sink :: "(audit_event \<Rightarrow> string option) option"

datatype audit_effect = To_sink audit_event | Append string string | Audit_warning string

definition audit_json :: "audit_event \<Rightarrow> jsval" where
  "audit_json e = JObj [(''ts'', jint (ae_ts e)), (''action'', JStr (ae_action e)), (''clientId'', JStr (ae_clientId e)),
     (''details'', JObj (ae_details e))]"

definition writeToSink :: "audit_logger \<Rightarrow> audit_event \<Rightarrow> audit_effect list" where
  "writeToSink l e =
     (case al_sink l of
        None \<Rightarrow> []
      | Some sink \<Rightarrow>
          To_sink e # (case sink e of Some m \<Rightarrow> [Audit_warning (''[bridge] audit sink failed: '' @ m)] | None \<Rightarrow> []))"

text \<open>\<open>append\<close> is \<open>appendFile\<close>: the message of its error, if any. \<open>stringify\<close> is \<open>JSON.stringify\<close>.\<close>

definition audit_write :: "(jsval \<Rightarrow> string) \<Rightarrow> (string \<Rightarrow> string \<Rightarrow> string option) \<Rightarrow> audit_logger \<Rightarrow> audit_event \<Rightarrow> audit_effect list" where
  "audit_write stringify append_file l e =
     writeToSink l e @
     (if opt_empty (al_path l) then []
      else let path = the (al_path l); line = stringify (audit_json e) @ [CHR 0x0A]
        in Append path line #
           (case append_file path line of Some m \<Rightarrow> [Audit_warning (''[bridge] audit write failed: '' @ m)] | None \<Rightarrow> []))"

section \<open>The entry point\<close>

text \<open>
  What \<open>main\<close> finds around it: the environment, the readable files, the outcomes of \<open>execFile\<close>, the behaviour of the
  adapters it creates, the host, and the version of Node.
\<close>

record surroundings =
  w_env :: environment
  w_readable :: "string \<Rightarrow> bool"
  w_exec :: exec_file
  w_behaviour :: "runtime_adapter \<Rightarrow> backend"
  w_host :: host
  w_nodeVersion :: string
  w_url :: full_url_parser

record started_bridge =
  st_config :: bridge_config
  st_adapter :: chosen_adapter
  st_log :: "(log_level \<times> jsval) list"
  st_proxyDetected :: bool

definition formatSshPreflightFailureReason :: "string option \<Rightarrow> string \<Rightarrow> string" where
  "formatSshPreflightFailureReason reason command =
     (if reason = Some ''ssh_command_not_found'' then ''SSH client binary '' @ quoted command @ '' was not found in PATH.''
      else if reason = Some ''ssh_version_check_timeout'' then ''SSH client version check timed out.''
      else if reason = Some ''ssh_version_check_failed'' then ''SSH client version check failed.''
      else ''unknown failure'')"

definition preflightSshTransport :: "exec_file \<Rightarrow> transport_config \<Rightarrow> (jsval, unit) result" where
  "preflightSshTransport exec tc =
     (if tc_mode tc \<noteq> ''ssh'' then Inr ()
      else let availability = checkSshClientAvailability exec (Some (tc_sshCommand tc)) None None
        in if \<not> pr_available availability then
             Inl (err (''SSH startup preflight failed: '' @ formatSshPreflightFailureReason (pr_reason availability) (tc_sshCommand tc)))
           else if opt_empty (pr_version availability) then
             Inl (err ''SSH startup preflight failed: SSH client version was unavailable.'')
           else Inr ())"

definition wrapRuntimeBackend :: "(runtime_adapter \<Rightarrow> backend) \<Rightarrow> string \<times> runtime_adapter \<Rightarrow> backend" where
  "wrapRuntimeBackend behaviour = (\<lambda>(b, adapter). (behaviour adapter)\<lparr>backendId := b\<rparr>)"

definition bridge_main :: "surroundings \<Rightarrow> (jsval, started_bridge) result" where
  "bridge_main w =
     bind_result (loadConfig (w_env w)) (\<lambda>config.
     bind_result (validateStartupConfig (w_readable w) config) (\<lambda>_.
     let tc = resolveStartupTransportConfig config in
     bind_result (preflightSshTransport (w_exec w) tc) (\<lambda>_.
     bind_result (createRuntimeBackends (cfg_runtimeBackends config) (cfg_cmuxCommand config) tc) (\<lambda>runtimeBackends.
     let availability = checkRuntimeBackendAvailability (map (wrapRuntimeBackend (w_behaviour w)) runtimeBackends) in
     if logRuntimeBackendAvailability availability = 0 \<and> \<not> isTmuxOnly (cfg_runtimeBackends config) then
       Inl (err (''No configured runtime backends are available ('' @ join '','' (cfg_runtimeBackends config) @ '')''))
     else
     bind_result (evaluateStartupProfile (w_host w) config availability (w_nodeVersion w)) (\<lambda>report.
     bind_result (assertStartupProfilePass report) (\<lambda>_.
     bind_result (createRuntimeAdapter (cfg_runtimeBackends config) runtimeBackends) (\<lambda>adapter.
     let settings = router_loadProxySettings (w_url w) (w_env w) in
     Inr \<lparr>st_config = config, st_adapter = adapter, st_log = logStartupProfileReport report,
          st_proxyDetected = ps_httpProxy settings \<noteq> None \<or> ps_httpsProxy settings \<noteq> None \<or> ps_allProxy settings \<noteq> None\<rparr>)))))))"

section \<open>When a bridge starts\<close>

definition static_dir_ok :: "host \<Rightarrow> bridge_config \<Rightarrow> bool" where
  "static_dir_ok h c \<longleftrightarrow> (cfg_appStaticEnabled c \<longrightarrow>
     (let p = h_resolve h (cfg_appStaticDir c) in h_stat h p = Stats True \<and> h_access h p Read_execute = None))"

definition audit_path_ok :: "host \<Rightarrow> bridge_config \<Rightarrow> bool" where
  "audit_path_ok h c \<longleftrightarrow> (\<not> opt_empty (cfg_auditLogPath c) \<longrightarrow>
     (let p = h_resolve h (the (cfg_auditLogPath c)); d = h_dirname h p
      in h_stat h d = Stats True \<and> h_access h d Write_execute = None
         \<and> (h_stat h p = Stat_missing \<or> h_stat h p = Stats False \<and> h_access h p Write_only = None)))"

lemma node_check_fails:
  "ck_status (evaluateNodeRuntimeVersionPolicy v) = Check_fail \<longleftrightarrow> \<not> (\<exists>m. parseNodeMajorVersion v = Some m \<and> 22 \<le> m)"
  by (auto simp: evaluateNodeRuntimeVersionPolicy_def STARTUP_PROFILE_MIN_NODE_MAJOR_def Let_def split: option.split)

lemma tmux_check_fails:
  "ck_status (evaluateTmuxBackendSignalPolicy bs av) = Check_fail \<longleftrightarrow> ''tmux'' \<in> set bs \<and> map_of av ''tmux'' \<noteq> Some True"
  by (auto simp: evaluateTmuxBackendSignalPolicy_def Let_def split: option.split)

lemma static_check_passes:
  "(\<exists>r. evaluateAppStaticDirPolicy h (cfg_appStaticEnabled c) (cfg_appStaticDir c) = Inr r \<and> ck_status r \<noteq> Check_fail) \<longleftrightarrow> static_dir_ok h c"
  by (auto simp: evaluateAppStaticDirPolicy_def static_dir_ok_def static_check_def safeStat_def bind_result_def Let_def
      split: option.splits stat_outcome.splits)

lemma audit_file_check_status:
  "ck_status (audit_file_check h p d st) \<noteq> Check_fail \<longleftrightarrow>
     st \<noteq> Some True \<and> h_access h d Write_execute = None \<and> (st = None \<or> h_access h p Write_only = None)"
  by (auto simp: audit_file_check_def audit_check_def split: option.splits)

lemma audit_check_passes:
  "(\<exists>r. evaluateAuditLogPathPolicy h (cfg_auditLogPath c) = Inr r \<and> ck_status r \<noteq> Check_fail) \<longleftrightarrow> audit_path_ok h c"
  by (cases "h_stat h (h_dirname h (h_resolve h (the (cfg_auditLogPath c))))";
      cases "h_stat h (h_resolve h (the (cfg_auditLogPath c)))")
    (auto simp: evaluateAuditLogPathPolicy_def audit_path_ok_def safeStat_def bind_result_def Let_def audit_file_check_status
      audit_check_def)

text \<open>The profile passes exactly when its four conditions hold.\<close>

lemma profile_passes:
  "(\<exists>r. evaluateStartupProfile h c av v = Inr r \<and> assertStartupProfilePass r = Inr ()) \<longleftrightarrow>
     (\<exists>m. parseNodeMajorVersion v = Some m \<and> 22 \<le> m) \<and> (''tmux'' \<in> set (cfg_runtimeBackends c) \<longrightarrow> map_of av ''tmux'' = Some True)
     \<and> static_dir_ok h c \<and> audit_path_ok h c"
proof -
  have "(\<exists>r. evaluateStartupProfile h c av v = Inr r \<and> assertStartupProfilePass r = Inr ()) \<longleftrightarrow>
    ck_status (evaluateNodeRuntimeVersionPolicy v) \<noteq> Check_fail
    \<and> ck_status (evaluateTmuxBackendSignalPolicy (cfg_runtimeBackends c) av) \<noteq> Check_fail
    \<and> (\<exists>r. evaluateAppStaticDirPolicy h (cfg_appStaticEnabled c) (cfg_appStaticDir c) = Inr r \<and> ck_status r \<noteq> Check_fail)
    \<and> (\<exists>r. evaluateAuditLogPathPolicy h (cfg_auditLogPath c) = Inr r \<and> ck_status r \<noteq> Check_fail)"
    by (cases "evaluateAppStaticDirPolicy h (cfg_appStaticEnabled c) (cfg_appStaticDir c)";
        cases "evaluateAuditLogPathPolicy h (cfg_auditLogPath c)")
      (auto simp: evaluateStartupProfile_def assertStartupProfilePass_def bind_result_def count_status_def Let_def)
  then show ?thesis by (simp add: node_check_fails tmux_check_fails static_check_passes audit_check_passes)
qed

subsection \<open>The runtime\<close>

lemma preflight_passes:
  "preflightSshTransport exec tc = Inr () \<longleftrightarrow>
     (tc_mode tc = ''ssh'' \<longrightarrow> pr_available (checkSshClientAvailability exec (Some (tc_sshCommand tc)) None None))"
proof -
  let ?r = "checkSshClientAvailability exec (Some (tc_sshCommand tc)) None None"
  have "pr_available ?r \<Longrightarrow> \<not> opt_empty (pr_version ?r)"
    using preflight_verdict(1,3) [OF refl refl refl, of exec "Some (tc_sshCommand tc)" None] by (auto simp: opt_empty_def)
  then show ?thesis by (auto simp: preflightSshTransport_def Let_def)
qed

definition adapter_of :: "bridge_config \<Rightarrow> tmux_kind \<Rightarrow> string \<Rightarrow> runtime_adapter" where
  "adapter_of c k b = (if b = ''tmux'' then TmuxRuntime k else CmuxRuntime (cfg_cmuxCommand c))"

lemma backends_created:
  assumes "createTmuxRuntimeAdapter tc = Inr k"
  shows "createRuntimeBackends bs (cfg_cmuxCommand c) tc = Inr (map (\<lambda>b. (b, adapter_of c k b)) bs)"
  using assms by (induction bs) (simp_all add: adapter_of_def bind_result_def)

lemma tmux_adapter_created:
  assumes "loadConfig env = Inr c" "validateStartupConfig readable c = Inr ()"
  shows "\<exists>k. createTmuxRuntimeAdapter (resolveStartupTransportConfig c) = Inr k"
proof (cases "cfg_transportMode c = ''ssh''")
  case True
  then have "\<not> opt_empty (cfg_sshTarget c)" using assms(2) by (auto simp: validateStartupConfig_def split: if_splits)
  from ssh_adapter_created [OF assms(1) True this] show ?thesis by blast
next
  case False
  then show ?thesis by (simp add: createTmuxRuntimeAdapter_def resolveStartupTransportConfig_def)
qed

lemma availability_rows:
  "checkRuntimeBackendAvailability (map (wrapRuntimeBackend f) (map (\<lambda>b. (b, adapter_of c k b)) bs))
     = map (\<lambda>b. (b, safeIsAvailable (f (adapter_of c k b)))) bs"
  by (simp add: checkRuntimeBackendAvailability_def wrapRuntimeBackend_def safeIsAvailable_def)

lemma map_of_tabulate: "map_of (map (\<lambda>b. (b, f b)) bs) x = (if x \<in> set bs then Some (f x) else None)"
  by (induction bs) auto

text \<open>With the backends a configuration can have, one is available: tmux when it is configured, otherwise cmux.\<close>

lemma decisive_backend:
  fixes rows :: "(string \<times> bool) list"
  assumes "bs \<noteq> []" "set bs \<subseteq> {''tmux'', ''cmux''}"
    and rows: "rows = map (\<lambda>b. (b, av b)) bs"
  shows "(logRuntimeBackendAvailability rows \<noteq> 0 \<or> isTmuxOnly bs) \<and> (''tmux'' \<in> set bs \<longrightarrow> map_of rows ''tmux'' = Some True)
    \<longleftrightarrow> (if ''tmux'' \<in> set bs then av ''tmux'' else av ''cmux'')"
proof -
  have "isTmuxOnly bs \<Longrightarrow> ''tmux'' \<in> set bs" by (cases bs) (auto simp: isTmuxOnly_def)
  moreover have "logRuntimeBackendAvailability rows \<noteq> 0 \<longleftrightarrow> (\<exists>b \<in> set bs. av b)"
    by (auto simp: logRuntimeBackendAvailability_def rows filter_empty_conv)
  moreover have "\<exists>b \<in> set bs. True" using assms(1) by (cases bs) auto
  ultimately show ?thesis using assms(2) by (auto simp: rows map_of_tabulate)
qed

text \<open>
  C27: a bridge process reaches \<open>startBridgeServer\<close> exactly when its configuration loads and is safe, over SSH the client
  reports a version, Node is at least version 22, the decisive backend answers (tmux when it is configured, even beside others,
  otherwise cmux), the static directory, if hosted, is a readable directory, and the audit file, if configured, can be
  written in an existing directory. Every other outcome is an error before anything listens.
\<close>

theorem bridge_starts_exactly_when:
  "(\<exists>st. bridge_main w = Inr st) \<longleftrightarrow>
   (\<exists>c k. loadConfig (w_env w) = Inr c \<and> validateStartupConfig (w_readable w) c = Inr ()
      \<and> (cfg_transportMode c = ''ssh'' \<longrightarrow> pr_available (checkSshClientAvailability (w_exec w) (Some (cfg_sshCommand c)) None None))
      \<and> (\<exists>m. parseNodeMajorVersion (w_nodeVersion w) = Some m \<and> 22 \<le> m)
      \<and> createTmuxRuntimeAdapter (resolveStartupTransportConfig c) = Inr k
      \<and> safeIsAvailable (w_behaviour w
          (if ''tmux'' \<in> set (cfg_runtimeBackends c) then TmuxRuntime k else CmuxRuntime (cfg_cmuxCommand c)))
      \<and> static_dir_ok (w_host w) c \<and> audit_path_ok (w_host w) c)"
  (is "?started \<longleftrightarrow> ?checks")
proof (cases "\<exists>c. loadConfig (w_env w) = Inr c \<and> validateStartupConfig (w_readable w) c = Inr ()")
  case False
  then show ?thesis by (auto simp: bridge_main_def bind_result_Inr)
next
  case True
  then obtain c where c: "loadConfig (w_env w) = Inr c" "validateStartupConfig (w_readable w) c = Inr ()" by blast
  from tmux_adapter_created [OF this] obtain k where k: "createTmuxRuntimeAdapter (resolveStartupTransportConfig c) = Inr k" by blast
  let ?bs = "cfg_runtimeBackends c"
  let ?av = "\<lambda>b. safeIsAvailable (w_behaviour w (adapter_of c k b))"
  let ?rows = "map (\<lambda>b. (b, ?av b)) ?bs"
  let ?adapters = "map (\<lambda>b. (b, adapter_of c k b)) ?bs"
  have bs: "?bs \<noteq> []" "set ?bs \<subseteq> {''tmux'', ''cmux''}"
    using parseRuntimeBackendsEnv_ok [OF loadConfig_parts(2) [OF c(1)]] by (auto simp: SUPPORTED_RUNTIME_BACKENDS_def)
  have made: "\<exists>a. createRuntimeAdapter ?bs ?adapters = Inr a" using bs(1) by (simp add: createRuntimeAdapter_def)
  have "?started \<longleftrightarrow> preflightSshTransport (w_exec w) (resolveStartupTransportConfig c) = Inr ()
      \<and> (logRuntimeBackendAvailability ?rows \<noteq> 0 \<or> isTmuxOnly ?bs)
      \<and> (\<exists>r. evaluateStartupProfile (w_host w) c ?rows (w_nodeVersion w) = Inr r \<and> assertStartupProfilePass r = Inr ())"
    using c made by (auto simp: bridge_main_def bind_result_Inr backends_created [OF k] availability_rows Let_def simp del: map_map split: if_splits)
  also have "\<dots> \<longleftrightarrow> ?checks"
    using c k decisive_backend [OF bs refl, of ?av]
    unfolding preflight_passes profile_passes by (auto simp: resolveStartupTransportConfig_def adapter_of_def)
  finally show ?thesis .
qed

definition demo_host :: host where
  "demo_host = \<lparr>h_stat = (\<lambda>_. Stats True), h_access = (\<lambda>_ _. None), h_resolve = (\<lambda>p. ''/srv/'' @ p), h_dirname = (\<lambda>_. ''/srv'')\<rparr>"

definition demo_world :: surroundings where
  "demo_world = \<lparr>w_env = (\<lambda>_. None), w_readable = (\<lambda>_. True), w_exec = (\<lambda>_ _ _ _. Inl Failure_other),
     w_behaviour = (\<lambda>_. demo_backend []), w_host = demo_host, w_nodeVersion = ''22.11.0'', w_url = (\<lambda>_. None)\<rparr>"

theorem bridge_starts_exactly_when_witness: "\<exists>st. bridge_main demo_world = Inr st"
proof -
  define c where "c = projr (loadConfig (w_env demo_world))"
  have l: "loadConfig (w_env demo_world) = Inr c" unfolding c_def by code_simp
  have v: "validateStartupConfig (w_readable demo_world) c = Inr ()" unfolding c_def by code_simp
  have f: "cfg_transportMode c = ''ws''" "cfg_runtimeBackends c = [''tmux'']" "cfg_auditLogPath c = None" unfolding c_def by code_simp+
  have n: "parseNodeMajorVersion (w_nodeVersion demo_world) = Some 22" by code_simp
  have k: "createTmuxRuntimeAdapter (resolveStartupTransportConfig c) = Inr LocalTmux"
    by (simp add: createTmuxRuntimeAdapter_def resolveStartupTransportConfig_def f)
  have h: "static_dir_ok (w_host demo_world) c" "audit_path_ok (w_host demo_world) c"
    by (simp_all add: static_dir_ok_def audit_path_ok_def demo_world_def demo_host_def opt_empty_def f Let_def)
  have a: "safeIsAvailable (w_behaviour demo_world x)" for x
    by (simp add: demo_world_def demo_backend_def safeIsAvailable_def)
  show ?thesis using bridge_starts_exactly_when [of demo_world] l v n k h a f by auto
qed

text \<open>The adapter a started bridge runs on: tmux itself when it is the only backend, otherwise all of them in their order.\<close>

theorem started_adapter:
  assumes "bridge_main w = Inr st"
  shows "case st_adapter st of
      Direct a \<Rightarrow> cfg_runtimeBackends (st_config st) = [''tmux''] \<and> (\<exists>k. a = TmuxRuntime k)
    | Multiplexed rows \<Rightarrow> map fst rows = cfg_runtimeBackends (st_config st) \<and> cfg_runtimeBackends (st_config st) \<noteq> [''tmux'']"
proof -
  from assms obtain c where c: "loadConfig (w_env w) = Inr c" "validateStartupConfig (w_readable w) c = Inr ()"
    by (auto simp: bridge_main_def bind_result_Inr)
  from tmux_adapter_created [OF this] obtain k where k: "createTmuxRuntimeAdapter (resolveStartupTransportConfig c) = Inr k" by blast
  have single: "isTmuxOnly bs \<longleftrightarrow> bs = [''tmux'']" for bs by (cases bs) (auto simp: isTmuxOnly_def)
  show ?thesis
    using assms c
    by (auto simp: bridge_main_def bind_result_Inr backends_created [OF k] createRuntimeAdapter_def single adapter_of_def Let_def
        o_def split: if_splits)
qed

section \<open>The audit file\<close>

fun appended :: "audit_effect list \<Rightarrow> string" where
  "appended [] = []"
| "appended (Append path line # fx) = line @ appended fx"
| "appended (_ # fx) = appended fx"

lemma appended_append: "appended (a @ b) = appended a @ appended b"
  by (induction a rule: appended.induct) simp_all

lemma appended_write:
  assumes "al_path l = Some p" "p \<noteq> []"
  shows "appended (audit_write stringify append_file l e) = stringify (audit_json e) @ [CHR 0x0A]"
  using assms by (auto simp: audit_write_def writeToSink_def opt_empty_def appended_append Let_def split: option.split)

text \<open>
  What is handed to \<open>appendFile\<close> is one line per event, in the order of the calls, whatever the sink and the disk answer:
  splitting it at the line ends gives back the JSON of the events, since \<open>JSON.stringify\<close> escapes line ends.
\<close>

theorem audit_file_lines:
  assumes "al_path l = Some p" "p \<noteq> []" "\<forall>v. CHR 0x0A \<notin> set (stringify v)"
  shows "split_on CHR 0x0A (appended (concat (map (audit_write stringify append_file l) es)))
    = map (\<lambda>e. stringify (audit_json e)) es @ [[]]"
proof (induction es)
  case Nil
  then show ?case by simp
next
  case (Cons e es)
  have line: "CHR 0x0A \<notin> set x \<Longrightarrow> split_on CHR 0x0A (x @ CHR 0x0A # y) = x # split_on CHR 0x0A y" for x y
    by (induction x) (auto split: list.splits)
  show ?case using Cons assms by (simp add: appended_append appended_write line)
qed

end
