(* ===== verification/Tui_Profiles.thy ===== *)
theory Tui_Profiles
  imports Bridge_Client Proxy_Core
begin

text \<open>
  The stored state of the terminal client: connection profiles (\<^verbatim>\<open>packages/commandrelay-tui/src/connection-profile.ts\<close>), the
  stored token (\<^verbatim>\<open>token.ts\<close>) and the choice of the local terminal (\<^verbatim>\<open>backend.ts\<close>). The profile file is its content, or
  nothing when it is missing. \<open>profile_codec\<close> holds \<open>JSON.parse\<close> (no value when it throws) and \<open>JSON.stringify\<close> with its
  indentation; the URL parser is the one of \<open>Proxy_Core\<close>. Objects list their properties in the order in which
  JavaScript enumerates them: array indices ascending, then the other keys by age. Profile names that are members of
  \<open>Object.prototype\<close> are outside the model.
\<close>

section \<open>Objects as dictionaries\<close>

definition is_array_index :: "string \<Rightarrow> bool" where
  "is_array_index s \<longleftrightarrow> s \<noteq> [] \<and> list_all is_digit s \<and> (hd s \<noteq> CHR ''0'' \<or> s = ''0'') \<and> digits_val 0 s < 4294967295"

fun insert_key :: "string \<Rightarrow> 'v \<Rightarrow> (string \<times> 'v) list \<Rightarrow> (string \<times> 'v) list" where
  "insert_key k v [] = [(k, v)]"
| "insert_key k v ((k', v') # es) =
     (if is_array_index k' \<and> digits_val 0 k' < digits_val 0 k then (k', v') # insert_key k v es else (k, v) # (k', v') # es)"

definition oput :: "(string \<times> 'v) list \<Rightarrow> string \<Rightarrow> 'v \<Rightarrow> (string \<times> 'v) list" where
  "oput es k v =
     (if k \<in> fst ` set es then mput es k v else if is_array_index k then insert_key k v es else es @ [(k, v)])"

definition enum_before :: "string \<Rightarrow> string \<Rightarrow> bool" where
  "enum_before a b \<longleftrightarrow> a \<noteq> b \<and> (is_array_index b \<longrightarrow> is_array_index a \<and> digits_val 0 a < digits_val 0 b)"

definition enum_ordered :: "(string \<times> 'v) list \<Rightarrow> bool" where
  "enum_ordered es \<longleftrightarrow> sorted_wrt enum_before (map fst es)"

section \<open>Backends\<close>

definition isBackend :: "string \<Rightarrow> bool" where
  "isBackend value \<longleftrightarrow> value = ''tmux'' \<or> value = ''ghostty'' \<or> value = ''console''"

text \<open>\<open>executable\<close> is \<open>hasExecutable\<close>, a search of the path; \<open>windows\<close> is \<open>process.platform === 'win32'\<close>.\<close>

definition hasBackendExecutable :: "bool \<Rightarrow> (string \<Rightarrow> bool) \<Rightarrow> string \<Rightarrow> bool" where
  "hasBackendExecutable windows executable backend =
     (if backend = ''console'' then True
      else if backend = ''tmux'' then \<not> windows \<and> executable ''tmux''
      else executable ''ghostty'')"

definition detectTerminalBackend :: "bool \<Rightarrow> (string \<Rightarrow> bool) \<Rightarrow> string option \<Rightarrow> string" where
  "detectTerminalBackend windows executable preferred =
     (case preferred of
        Some b \<Rightarrow>
          (if b \<noteq> [] \<and> hasBackendExecutable windows executable b then b
           else if hasBackendExecutable windows executable ''tmux'' then ''tmux''
           else if hasBackendExecutable windows executable ''ghostty'' then ''ghostty''
           else ''console'')
      | None \<Rightarrow>
          (if hasBackendExecutable windows executable ''tmux'' then ''tmux''
           else if hasBackendExecutable windows executable ''ghostty'' then ''ghostty''
           else ''console''))"

definition tui_shellQuote :: "string \<Rightarrow> string" where
  "tui_shellQuote value =
     (if CHR 0x27 \<notin> set value then CHR 0x27 # value @ [CHR 0x27]
      else CHR 0x27 # concat (map (\<lambda>c. if c = CHR 0x27 then [CHR 0x27, CHR 0x22, CHR 0x27, CHR 0x22, CHR 0x27] else [c]) value)
             @ [CHR 0x27])"

section \<open>Tokens\<close>

text \<open>\<open>read_file\<close> is \<open>readFileSync\<close> as text, no value when it throws.\<close>

fun first_file_token :: "(string \<Rightarrow> string option) \<Rightarrow> environment \<Rightarrow> string list \<Rightarrow> string option" where
  "first_file_token read_file env [] = None"
| "first_file_token read_file env (name # names) =
     (case env name of
        None \<Rightarrow> first_file_token read_file env names
      | Some path \<Rightarrow>
          (if path = [] then first_file_token read_file env names
           else case read_file path of
                  None \<Rightarrow> first_file_token read_file env names
                | Some text \<Rightarrow> (if trim text \<noteq> [] then Some (trim text) else first_file_token read_file env names)))"

fun first_env_token :: "environment \<Rightarrow> string list \<Rightarrow> string option" where
  "first_env_token env [] = None"
| "first_env_token env (name # names) =
     (case env name of
        None \<Rightarrow> first_env_token env names
      | Some v \<Rightarrow> (if trim v \<noteq> [] then Some (trim v) else first_env_token env names))"

definition resolveStoredAuthToken :: "(string \<Rightarrow> string option) \<Rightarrow> environment \<Rightarrow> string option" where
  "resolveStoredAuthToken read_file env =
     (case first_file_token read_file env [''CRC_TOKEN_FILE'', ''COMMANDRELAY_TOKEN_FILE''] of
        Some t \<Rightarrow> Some t
      | None \<Rightarrow> first_env_token env [''CRC_TOKEN'', ''COMMANDRELAY_TOKEN''])"

text \<open>
  The masked prompt, on a terminal: one chunk of typed characters, the characters collected before it, and either the
  characters collected after it or the finished answer.
\<close>

fun prompt_chunk :: "string \<Rightarrow> string \<Rightarrow> string + string option" where
  "prompt_chunk chars [] = Inl chars"
| "prompt_chunk chars (c # cs) =
     (let n = (of_char c :: nat)
      in if n = 13 \<or> n = 10 then Inr (if trim chars = [] then None else Some (trim chars))
         else if n = 3 \<or> n = 4 then Inr None
         else if n = 8 \<or> n = 127 then prompt_chunk (butlast chars) cs
         else if n \<ge> 32 then prompt_chunk (chars @ [c]) cs
         else prompt_chunk chars cs)"

fun promptToken :: "string \<Rightarrow> string list \<Rightarrow> string option option" where
  "promptToken chars [] = None"
| "promptToken chars (chunk # chunks) =
     (case prompt_chunk chars chunk of Inr answer \<Rightarrow> Some answer | Inl chars' \<Rightarrow> promptToken chars' chunks)"

section \<open>Profiles\<close>

record connection_profile =
  pf_name :: string
  pf_url :: string
  pf_backend :: "string option"
  pf_authToken :: "string option"
  pf_notes :: "string option"
  pf_createdAt :: jsnum
  pf_updatedAt :: jsnum
  pf_lastUsedAt :: "jsnum option"

record stored_profiles =
  sp_version :: jsnum
  sp_active :: "string option"
  sp_profiles :: "(string \<times> connection_profile) list"

record active_profile =
  ap_name :: "string option"
  ap_selected :: "connection_profile option"
  ap_hasStore :: bool

record profile_codec =
  pc_parse :: "string \<Rightarrow> jsval option"
  pc_stringify :: "jsval \<Rightarrow> string"

definition empty_store :: stored_profiles where
  "empty_store = \<lparr>sp_version = Fin 1, sp_active = None, sp_profiles = []\<rparr>"

definition profile_name_char :: "char \<Rightarrow> bool" where
  "profile_name_char c \<longleftrightarrow> is_alnum c \<or> c = CHR ''.'' \<or> c = CHR ''_'' \<or> c = CHR ''-''"

definition isValidProfileName :: "string \<Rightarrow> bool" where
  "isValidProfileName name \<longleftrightarrow>
     (let t = trim name in 1 \<le> length t \<and> length t \<le> 64 \<and> list_all profile_name_char t)"

definition isValidProfileUrl :: "full_url_parser \<Rightarrow> string \<Rightarrow> bool" where
  "isValidProfileUrl url u =
     (case url u of None \<Rightarrow> False | Some n \<Rightarrow> u_protocol n = ''ws:'' \<or> u_protocol n = ''wss:'')"

text \<open>\<open>object_fields\<close> is the record a value is read as when \<open>typeof\<close> is \<open>object\<close> and it is not null.\<close>

fun object_fields :: "jsval \<Rightarrow> js_record option" where
  "object_fields (JObj r) = Some r"
| "object_fields (JArr xs) = Some []"
| "object_fields _ = None"

fun object_entries :: "jsval \<Rightarrow> js_record" where
  "object_entries (JObj r) = r"
| "object_entries (JArr xs) = map (\<lambda>i. (decimal i, xs ! i)) [0..<length xs]"
| "object_entries _ = []"

definition number_field :: "js_record \<Rightarrow> string \<Rightarrow> jsnum option" where
  "number_field r k = (case prop_of r k of JNum n \<Rightarrow> Some n | _ \<Rightarrow> None)"

definition candidate_name :: "js_record \<Rightarrow> string option \<Rightarrow> string option" where
  "candidate_name r fallbackName =
     (let fallback = (case fallbackName of Some f \<Rightarrow> (if isValidProfileName f then Some f else None) | None \<Rightarrow> None)
      in case as_str (prop_of r ''name'') of
           Some n \<Rightarrow> (if isValidProfileName n then Some n else fallback)
         | None \<Rightarrow> fallback)"

definition backend_field :: "js_record \<Rightarrow> string option" where
  "backend_field r = (case as_str (prop_of r ''backend'') of Some b \<Rightarrow> (if isBackend b then Some b else None) | None \<Rightarrow> None)"

definition normalizeProfileCandidate ::
  "full_url_parser \<Rightarrow> jsnum \<Rightarrow> jsval \<Rightarrow> string option \<Rightarrow> connection_profile option" where
  "normalizeProfileCandidate url now raw fallbackName =
     (case object_fields raw of
        None \<Rightarrow> None
      | Some r \<Rightarrow>
          (let u = (case as_str (prop_of r ''url'') of Some t \<Rightarrow> trim t | None \<Rightarrow> []);
               createdAt = (case number_field r ''createdAt'' of Some n \<Rightarrow> n | None \<Rightarrow> now)
           in case candidate_name r fallbackName of
                None \<Rightarrow> None
              | Some n \<Rightarrow>
                  (if \<not> isValidProfileUrl url u then None
                   else Some \<lparr>pf_name = n, pf_url = u, pf_backend = backend_field r,
                     pf_authToken = as_str (prop_of r ''authToken''), pf_notes = as_str (prop_of r ''notes''),
                     pf_createdAt = createdAt,
                     pf_updatedAt = (case number_field r ''updatedAt'' of Some m \<Rightarrow> m | None \<Rightarrow> createdAt),
                     pf_lastUsedAt = number_field r ''lastUsedAt''\<rparr>)))"

definition at_least_one :: "jsnum \<Rightarrow> bool" where
  "at_least_one n = (case n of Fin q \<Rightarrow> 1 \<le> q | PInf \<Rightarrow> True | _ \<Rightarrow> False)"

definition normalizeProfileStore :: "full_url_parser \<Rightarrow> jsnum \<Rightarrow> jsval \<Rightarrow> stored_profiles" where
  "normalizeProfileStore url now candidate =
     (case object_fields candidate of
        None \<Rightarrow> empty_store
      | Some r \<Rightarrow>
          \<lparr>sp_version = (case number_field r ''version'' of Some n \<Rightarrow> (if at_least_one n then n else Fin 1) | None \<Rightarrow> Fin 1),
           sp_active = (case as_str (prop_of r ''activeProfileName'') of
                          Some n \<Rightarrow> (if isValidProfileName n then Some n else None) | None \<Rightarrow> None),
           sp_profiles = fold (\<lambda>(name, raw) ps.
               case normalizeProfileCandidate url now raw (Some name) of None \<Rightarrow> ps | Some p \<Rightarrow> oput ps name p)
             (object_entries (prop_of r ''profiles'')) []\<rparr>)"

definition loadProfiles :: "profile_codec \<Rightarrow> full_url_parser \<Rightarrow> jsnum \<Rightarrow> string option \<Rightarrow> stored_profiles" where
  "loadProfiles j url now file =
     (case file of
        None \<Rightarrow> empty_store
      | Some content \<Rightarrow>
          (let raw = trim content
           in if raw = [] then empty_store
              else case pc_parse j raw of None \<Rightarrow> empty_store | Some v \<Rightarrow> normalizeProfileStore url now v))"

text \<open>The value that is stringified; a property that is undefined is left out by \<open>JSON.stringify\<close>.\<close>

definition opt_field :: "string \<Rightarrow> jsval option \<Rightarrow> js_record" where
  "opt_field k v = (case v of None \<Rightarrow> [] | Some x \<Rightarrow> [(k, x)])"

definition nullable :: "string option \<Rightarrow> jsval" where
  "nullable v = (case v of None \<Rightarrow> JNull | Some s \<Rightarrow> JStr s)"

definition profile_json :: "connection_profile \<Rightarrow> jsval" where
  "profile_json p =
     JObj ([(''name'', JStr (pf_name p)), (''url'', JStr (pf_url p))] @ opt_field ''backend'' (map_option JStr (pf_backend p))
       @ [(''authToken'', nullable (pf_authToken p))] @ opt_field ''notes'' (map_option JStr (pf_notes p))
       @ [(''createdAt'', JNum (pf_createdAt p)), (''updatedAt'', JNum (pf_updatedAt p))]
       @ opt_field ''lastUsedAt'' (map_option JNum (pf_lastUsedAt p)))"

definition store_json :: "stored_profiles \<Rightarrow> jsval" where
  "store_json s = JObj [(''version'', JNum (sp_version s)), (''activeProfileName'', nullable (sp_active s)),
     (''profiles'', JObj (map (\<lambda>(n, p). (n, profile_json p)) (sp_profiles s)))]"

definition saveProfiles :: "profile_codec \<Rightarrow> stored_profiles \<Rightarrow> string option" where
  "saveProfiles j s = Some (pc_stringify j (store_json s))"

definition select_profile :: "stored_profiles \<Rightarrow> string option \<Rightarrow> active_profile" where
  "select_profile store preferred =
     (case (case preferred of Some n \<Rightarrow> (if n \<noteq> [] then map_of (sp_profiles store) n else None) | None \<Rightarrow> None) of
        Some p \<Rightarrow> \<lparr>ap_name = preferred, ap_selected = Some p, ap_hasStore = True\<rparr>
      | None \<Rightarrow>
          (case (case sp_active store of Some n \<Rightarrow> (if n \<noteq> [] then map_of (sp_profiles store) n else None) | None \<Rightarrow> None) of
             Some p \<Rightarrow> \<lparr>ap_name = sp_active store, ap_selected = Some p, ap_hasStore = True\<rparr>
           | None \<Rightarrow> \<lparr>ap_name = None, ap_selected = None, ap_hasStore = sp_profiles store \<noteq> []\<rparr>))"

definition resolveProfileSelection ::
  "profile_codec \<Rightarrow> full_url_parser \<Rightarrow> jsnum \<Rightarrow> string option \<Rightarrow> string option \<Rightarrow> active_profile" where
  "resolveProfileSelection j url now file preferred = select_profile (loadProfiles j url now file) preferred"

text \<open>
  The changes, first on the store, then on the file. \<open>upsert_store\<close> is the store after \<open>upsertProfile\<close> has found a valid
  candidate: of the existing entry only its creation time survives the spread, since the candidate has every field.
\<close>

definition upsert_store :: "jsnum \<Rightarrow> connection_profile \<Rightarrow> stored_profiles \<Rightarrow> stored_profiles" where
  "upsert_store now p store =
     store\<lparr>sp_profiles := oput (sp_profiles store) (pf_name p)
              (p\<lparr>pf_createdAt := (case map_of (sp_profiles store) (pf_name p) of Some e \<Rightarrow> pf_createdAt e | None \<Rightarrow> now),
                 pf_updatedAt := now\<rparr>),
           sp_active := (case sp_active store of Some n \<Rightarrow> (if n = [] then Some (pf_name p) else Some n) | None \<Rightarrow> Some (pf_name p))\<rparr>"

definition remove_store :: "string \<Rightarrow> stored_profiles \<Rightarrow> stored_profiles" where
  "remove_store name store =
     (let ps = mdelete (sp_profiles store) name
      in store\<lparr>sp_profiles := ps,
           sp_active := (if sp_active store = Some name then (case ps of [] \<Rightarrow> None | (n, _) # _ \<Rightarrow> Some n) else sp_active store)\<rparr>)"

definition activate_store :: "string option \<Rightarrow> stored_profiles \<Rightarrow> stored_profiles" where
  "activate_store name store =
     store\<lparr>sp_active := (case map_of (sp_profiles store) (case name of None \<Rightarrow> [] | Some n \<Rightarrow> n) of None \<Rightarrow> None | Some _ \<Rightarrow> name)\<rparr>"

definition token_store :: "jsnum \<Rightarrow> string \<Rightarrow> string option \<Rightarrow> stored_profiles \<Rightarrow> stored_profiles option" where
  "token_store now name token store =
     map_option (\<lambda>p. store\<lparr>sp_profiles := oput (sp_profiles store) name (p\<lparr>pf_authToken := token, pf_updatedAt := now\<rparr>)\<rparr>)
       (map_of (sp_profiles store) name)"

definition touch_store :: "jsnum \<Rightarrow> string \<Rightarrow> stored_profiles \<Rightarrow> stored_profiles option" where
  "touch_store now name store =
     map_option (\<lambda>p. store\<lparr>sp_profiles := oput (sp_profiles store) name (p\<lparr>pf_lastUsedAt := Some now, pf_updatedAt := now\<rparr>)\<rparr>)
       (map_of (sp_profiles store) name)"

datatype profile_op =
    UpsertProfile string string "string option"
  | RemoveProfile string
  | SetActiveProfile "string option"
  | SetProfileToken string "string option"
  | TouchProfile string

text \<open>The store after an operation; no value when the operation returns without saving.\<close>

definition store_step :: "full_url_parser \<Rightarrow> jsnum \<Rightarrow> profile_op \<Rightarrow> stored_profiles \<Rightarrow> stored_profiles option" where
  "store_step url now o1 store =
     (case o1 of
        UpsertProfile name u backend \<Rightarrow>
          map_option (\<lambda>p. upsert_store now p store)
            (normalizeProfileCandidate url now
               (JObj ([(''name'', JStr name), (''url'', JStr u)] @ opt_field ''backend'' (map_option JStr backend))) None)
      | RemoveProfile name \<Rightarrow> Some (remove_store name store)
      | SetActiveProfile name \<Rightarrow> Some (activate_store name store)
      | SetProfileToken name token \<Rightarrow> token_store now name token store
      | TouchProfile name \<Rightarrow> touch_store now name store)"

definition file_step ::
  "profile_codec \<Rightarrow> full_url_parser \<Rightarrow> jsnum \<Rightarrow> profile_op \<Rightarrow> string option \<Rightarrow> string option" where
  "file_step j url now o1 file =
     (case store_step url now o1 (loadProfiles j url now file) of None \<Rightarrow> file | Some store \<Rightarrow> saveProfiles j store)"

section \<open>Well-formed stores\<close>

definition wf_profile :: "full_url_parser \<Rightarrow> connection_profile \<Rightarrow> bool" where
  "wf_profile url p \<longleftrightarrow> isValidProfileName (pf_name p) \<and> trim (pf_url p) = pf_url p \<and> isValidProfileUrl url (pf_url p)
     \<and> (case pf_backend p of None \<Rightarrow> True | Some b \<Rightarrow> isBackend b)"

definition wf_store :: "full_url_parser \<Rightarrow> stored_profiles \<Rightarrow> bool" where
  "wf_store url s \<longleftrightarrow> at_least_one (sp_version s)
     \<and> (case sp_active s of None \<Rightarrow> True | Some n \<Rightarrow> isValidProfileName n)
     \<and> enum_ordered (sp_profiles s) \<and> list_all (\<lambda>(n, p). isValidProfileName n \<and> wf_profile url p) (sp_profiles s)"

lemma normalize_profile_json:
  "wf_profile url p \<Longrightarrow> normalizeProfileCandidate url now (profile_json p) f = Some p"
  by (cases p; cases "pf_backend p"; cases "pf_authToken p"; cases "pf_notes p"; cases "pf_lastUsedAt p")
    (simp_all add: wf_profile_def normalizeProfileCandidate_def candidate_name_def backend_field_def profile_json_def
      opt_field_def nullable_def number_field_def prop_of_def Let_def)

lemma candidate_name_valid: "candidate_name r f = Some n \<Longrightarrow> isValidProfileName n"
  by (auto simp: candidate_name_def Let_def split: option.splits if_splits)

lemma backend_field_valid: "case backend_field r of None \<Rightarrow> True | Some b \<Rightarrow> isBackend b"
  by (simp add: backend_field_def split: option.split)

lemma normalize_wf:
  assumes "normalizeProfileCandidate url now raw f = Some p"
  shows "wf_profile url p"
proof -
  obtain r where r: "object_fields raw = Some r" using assms by (auto simp: normalizeProfileCandidate_def split: option.splits)
  then obtain n where n: "candidate_name r f = Some n"
    using assms by (auto simp: normalizeProfileCandidate_def Let_def split: option.splits)
  have url: "trim (case as_str (prop_of r ''url'') of Some t \<Rightarrow> trim t | None \<Rightarrow> [])
      = (case as_str (prop_of r ''url'') of Some t \<Rightarrow> trim t | None \<Rightarrow> [])"
    by (simp add: trim_idem split: option.split)
  show ?thesis
    using assms r n url candidate_name_valid [OF n] backend_field_valid [of r]
    unfolding normalizeProfileCandidate_def Let_def wf_profile_def by (auto split: if_splits)
qed

lemma enum_ordered_distinct: "enum_ordered es \<Longrightarrow> keys_distinct es"
  unfolding enum_ordered_def by (induction es) (auto simp: enum_before_def)

lemma oput_last:
  assumes "enum_ordered (es @ [(k, v)])"
  shows "oput es k v = es @ [(k, v)]"
proof -
  have before: "\<forall>k' \<in> fst ` set es. enum_before k' k" using assms by (simp add: enum_ordered_def sorted_wrt_append)
  then have new: "k \<notin> fst ` set es" by (auto simp: enum_before_def)
  have "insert_key k v es = es @ [(k, v)]" if "is_array_index k"
    using before that by (induction es) (auto simp: enum_before_def)
  then show ?thesis using new by (simp add: oput_def)
qed

lemma mput_keys: "k \<in> fst ` set es \<Longrightarrow> map fst (mput es k v) = map fst es"
  by (induction es) auto

text \<open>Two array indices with the same value are the same text.\<close>

lemma digits_val_acc: "digits_val a s = a * 10 ^ length s + digits_val 0 s"
proof (induction s arbitrary: a)
  case (Cons c s)
  show ?case using Cons.IH [of "10 * a + (int (of_char c) - 48)"] Cons.IH [of "int (of_char c) - 48"]
    by (simp add: algebra_simps)
qed simp

lemma digits_val_bound: "list_all is_digit s \<Longrightarrow> 0 \<le> digits_val 0 s \<and> digits_val 0 s < 10 ^ length s"
proof (induction s)
  case (Cons c s)
  let ?d = "int (of_char c) - 48" and ?m = "(10::int) ^ length s"
  have d: "0 \<le> ?d" "?d \<le> 9" using Cons.prems by (auto simp: is_digit_def)
  have "?d * ?m \<le> 9 * ?m" using d(2) by (rule mult_right_mono) simp
  moreover have "0 \<le> ?d * ?m" using d(1) by simp
  moreover have "digits_val 0 (c # s) = ?d * ?m + digits_val 0 s" using digits_val_acc [of ?d s] by simp
  moreover have "0 \<le> digits_val 0 s \<and> digits_val 0 s < ?m" using Cons by simp
  moreover have "(10::int) ^ length (c # s) = 10 * ?m" by simp
  ultimately show ?case by linarith
qed simp

lemma digits_val_inj:
  "length s = length t \<Longrightarrow> list_all is_digit s \<Longrightarrow> list_all is_digit t \<Longrightarrow> digits_val 0 s = digits_val 0 t \<Longrightarrow> s = t"
proof (induction s t rule: list_induct2)
  case (Cons c s d t)
  let ?c = "int (of_char c) - 48" and ?d = "int (of_char d) - 48" and ?m = "(10::int) ^ length s"
  have b: "0 \<le> digits_val 0 s" "digits_val 0 s < ?m" "0 \<le> digits_val 0 t" "digits_val 0 t < ?m"
    using Cons.prems Cons.hyps digits_val_bound [of s] digits_val_bound [of t] by auto
  have eq: "?c * ?m + digits_val 0 s = ?d * ?m + digits_val 0 t"
    using Cons.prems(3) Cons.hyps digits_val_acc [of ?c s] digits_val_acc [of ?d t] by simp
  have "?c = (?c * ?m + digits_val 0 s) div ?m" using b by simp
  also have "\<dots> = ?d" unfolding eq using b by simp
  finally have "of_char c = (of_char d :: nat)" by simp
  then have "c = d" by (metis char_of_char)
  then show ?case using Cons eq by simp
qed simp

lemma array_index_big:
  assumes "is_array_index u" "u \<noteq> ''0''"
  shows "10 ^ (length u - 1) \<le> digits_val 0 u"
proof (cases u)
  case (Cons c cs)
  then have "is_digit c" "c \<noteq> CHR ''0''" "list_all is_digit cs" using assms by (auto simp: is_array_index_def)
  moreover have "of_char c \<noteq> (48::nat)" using of_char_eq_iff [of c "CHR ''0''"] \<open>c \<noteq> CHR ''0''\<close> by simp
  ultimately have "1 \<le> int (of_char c) - 48" by (auto simp: is_digit_def)
  then have "1 * 10 ^ length cs \<le> (int (of_char c) - 48) * 10 ^ length cs" by (rule mult_right_mono) simp
  moreover have "digits_val 0 u = (int (of_char c) - 48) * 10 ^ length cs + digits_val 0 cs"
    using Cons digits_val_acc [of "int (of_char c) - 48" cs] by simp
  moreover have "0 \<le> digits_val 0 cs" using digits_val_bound [OF \<open>list_all is_digit cs\<close>] by simp
  ultimately have "10 ^ length cs \<le> digits_val 0 u" by linarith
  then show ?thesis using Cons by simp
qed (use assms in \<open>simp add: is_array_index_def\<close>)

lemma array_index_inj:
  assumes "is_array_index s" "is_array_index t" "digits_val 0 s = digits_val 0 t"
  shows "s = t"
proof -
  have digits: "list_all is_digit s" "list_all is_digit t" "s \<noteq> []" "t \<noteq> []" using assms by (auto simp: is_array_index_def)
  have pos: "0 < digits_val 0 u" if "is_array_index u" "u \<noteq> ''0''" for u
    using array_index_big [OF that] by (meson less_le_trans zero_less_numeral zero_less_power)
  show ?thesis
  proof (cases "s = ''0'' \<or> t = ''0''")
    case True
    have "digits_val 0 ''0'' = 0" by simp
    then have "s = ''0''" "t = ''0''" using True pos [OF assms(1)] pos [OF assms(2)] assms(3) by (metis less_irrefl)+
    then show ?thesis by simp
  next
    case False
    have "(10::int) ^ (length s - 1) < 10 ^ length t" "(10::int) ^ (length t - 1) < 10 ^ length s"
      using array_index_big [OF assms(1)] array_index_big [OF assms(2)] False digits_val_bound [OF digits(1)]
        digits_val_bound [OF digits(2)] assms(3) by linarith+
    then have "length s - 1 < length t" "length t - 1 < length s" by simp_all
    then have "length s = length t" using digits(3,4) by (cases s; cases t) auto
    then show ?thesis using digits(1,2) assms(3) by (rule digits_val_inj)
  qed
qed

lemma enum_ordered_oput:
  assumes "enum_ordered es"
  shows "enum_ordered (oput es k v)"
proof (cases "k \<in> fst ` set es \<or> \<not> is_array_index k")
  case True
  then show ?thesis
    using assms by (auto simp: oput_def enum_ordered_def mput_keys sorted_wrt_append enum_before_def)
next
  case False
  have "set (insert_key k v es) = insert (k, v) (set es)" for es :: "(string \<times> 'a) list"
    by (induction es) (auto split: if_splits)
  then have keys: "fst ` set (insert_key k v es) = insert k (fst ` set es)" for es :: "(string \<times> 'a) list" by simp
  have "k \<notin> fst ` set es \<Longrightarrow> enum_ordered es \<Longrightarrow> enum_ordered (insert_key k v es)" for es
  proof (induction es)
    case (Cons e es)
    obtain k' v' where e: "e = (k', v')" by (cases e)
    have rest: "enum_ordered es" "\<forall>a \<in> fst ` set es. enum_before k' a" using Cons.prems e by (auto simp: enum_ordered_def)
    show ?case
    proof (cases "is_array_index k' \<and> digits_val 0 k' < digits_val 0 k")
      case True
      then have "enum_before k' k" using Cons.prems e by (auto simp: enum_before_def)
      then show ?thesis using True Cons rest e keys [of es] by (auto simp: enum_ordered_def)
    next
      case inner: False
      have "digits_val 0 k \<noteq> digits_val 0 k'" if "is_array_index k'"
        using that Cons.prems(1) False e array_index_inj [of k k'] by auto
      then have first: "enum_before k k'" using inner False Cons.prems(1) e by (auto simp: enum_before_def)
      have "enum_before k a" if "a \<in> fst ` set es" for a
        using first that rest(2) Cons.prems(1) False by (auto simp: enum_before_def)
      then show ?thesis using inner first Cons.prems(2) e by (auto simp: enum_ordered_def)
    qed
  qed (simp add: enum_ordered_def)
  then show ?thesis using assms False by (simp add: oput_def)
qed

section \<open>The file and the store\<close>

lemma load_saved:
  assumes wf: "wf_store url st" and parse: "pc_parse j (trim (pc_stringify j (store_json st))) = Some (store_json st)"
    and ne: "trim (pc_stringify j (store_json st)) \<noteq> []"
  shows "loadProfiles j url now (saveProfiles j st) = st"
proof -
  define step where "step = (\<lambda>(name, raw) ps. case normalizeProfileCandidate url now raw (Some name) of None \<Rightarrow> ps | Some p \<Rightarrow> oput ps name p)"
  have "fold step (map (\<lambda>(n, p). (n, profile_json p)) es) [] = es"
    if "enum_ordered es" "list_all (\<lambda>(n, p). isValidProfileName n \<and> wf_profile url p) es" for es
    using that
  proof (induction es rule: rev_induct)
    case (snoc e es)
    obtain n p where e: "e = (n, p)" by (cases e)
    have "fold step (map (\<lambda>(n, p). (n, profile_json p)) es) [] = es"
      using snoc by (simp add: enum_ordered_def sorted_wrt_append)
    then show ?case
      using snoc.prems oput_last [of es n p] by (simp add: e step_def normalize_profile_json)
  qed simp
  then have "fold step (map (\<lambda>(n, p). (n, profile_json p)) (sp_profiles st)) [] = sp_profiles st"
    using wf by (simp add: wf_store_def)
  moreover have "normalizeProfileStore url now (store_json st) =
      st\<lparr>sp_profiles := fold step (map (\<lambda>(n, p). (n, profile_json p)) (sp_profiles st)) []\<rparr>"
    using wf by (cases "sp_active st")
      (simp_all add: normalizeProfileStore_def store_json_def number_field_def prop_of_def nullable_def wf_store_def step_def)
  ultimately show ?thesis using parse ne by (simp add: loadProfiles_def saveProfiles_def Let_def)
qed


lemma insert_key_set: "set (insert_key k v es) = insert (k, v) (set es)"
  by (induction es) (auto split: if_splits)

lemma mput_set: "set (mput es k v) \<subseteq> insert (k, v) (set es)"
  by (induction es) auto

lemma set_oput: "set (oput es k v) \<subseteq> insert (k, v) (set es)"
  using mput_set [of k v es] by (auto simp: oput_def insert_key_set)

lemma oput_wf:
  assumes "list_all (\<lambda>(n, p). isValidProfileName n \<and> wf_profile url p) es" "isValidProfileName k" "wf_profile url v"
  shows "list_all (\<lambda>(n, p). isValidProfileName n \<and> wf_profile url p) (oput es k v)"
  using assms set_oput [of es k v] by (auto simp: list_all_iff)

lemma enum_ordered_delete: "enum_ordered es \<Longrightarrow> enum_ordered (mdelete es k)"
  unfolding enum_ordered_def by (induction es) (auto simp: AList.delete_eq)

lemma wf_profile_update [simp]:
  "wf_profile url (p\<lparr>pf_createdAt := a\<rparr>) = wf_profile url p" "wf_profile url (p\<lparr>pf_updatedAt := b\<rparr>) = wf_profile url p"
  "wf_profile url (p\<lparr>pf_authToken := c\<rparr>) = wf_profile url p" "wf_profile url (p\<lparr>pf_lastUsedAt := d\<rparr>) = wf_profile url p"
  by (simp_all add: wf_profile_def)

lemma store_step_wf:
  assumes wf: "wf_store url st" and st: "store_step url now o1 st = Some st'"
  shows "wf_store url st'"
proof -
  have entry: "isValidProfileName n \<and> wf_profile url p" if "map_of (sp_profiles st) n = Some p" for n p
    using that wf by (auto simp: wf_store_def list_all_iff dest!: map_of_SomeD)
  show ?thesis
  proof (cases o1)
    case (UpsertProfile name u backend)
    then obtain p where p: "wf_profile url p" "st' = upsert_store now p st"
      using st by (auto simp: store_step_def dest: normalize_wf)
    then have "isValidProfileName (pf_name p)" by (simp add: wf_profile_def)
    with p wf show ?thesis
      by (auto simp: upsert_store_def wf_store_def intro!: enum_ordered_oput oput_wf split: option.split)
  next
    case (RemoveProfile name)
    let ?ps = "mdelete (sp_profiles st) name"
    have ps: "list_all (\<lambda>(n, p). isValidProfileName n \<and> wf_profile url p) ?ps"
      using wf by (auto simp: wf_store_def list_all_iff AList.delete_eq)
    have "case (if sp_active st = Some name then (case ?ps of [] \<Rightarrow> None | (n, _) # _ \<Rightarrow> Some n) else sp_active st) of
        None \<Rightarrow> True | Some n \<Rightarrow> isValidProfileName n"
      using ps wf by (cases ?ps) (auto simp: wf_store_def)
    moreover have "st' = remove_store name st" using RemoveProfile st by (simp add: store_step_def)
    ultimately show ?thesis
      using wf ps enum_ordered_delete [of "sp_profiles st" name] by (simp add: remove_store_def Let_def wf_store_def)
  next
    case (SetActiveProfile name)
    with wf st show ?thesis
      using entry by (auto simp: store_step_def activate_store_def wf_store_def split: option.splits)
  next
    case (SetProfileToken name token)
    with wf st entry show ?thesis
      by (auto simp: store_step_def token_store_def wf_store_def intro!: enum_ordered_oput oput_wf)
  next
    case (TouchProfile name)
    with wf st entry show ?thesis
      by (auto simp: store_step_def touch_store_def wf_store_def intro!: enum_ordered_oput oput_wf)
  qed
qed

lemma empty_store_wf: "wf_store url empty_store"
  by (simp add: wf_store_def empty_store_def at_least_one_def enum_ordered_def)

text \<open>A sequence of operations, each with its time: the stores saved one after the other, and the file at the end.\<close>

primrec store_trace :: "full_url_parser \<Rightarrow> stored_profiles \<Rightarrow> (jsnum \<times> profile_op) list \<Rightarrow> stored_profiles list" where
  "store_trace url st [] = []"
| "store_trace url st (x # xs) =
     (case store_step url (fst x) (snd x) st of None \<Rightarrow> store_trace url st xs | Some st' \<Rightarrow> st' # store_trace url st' xs)"

primrec file_run :: "profile_codec \<Rightarrow> full_url_parser \<Rightarrow> string option \<Rightarrow> (jsnum \<times> profile_op) list \<Rightarrow> string option" where
  "file_run j url f [] = f"
| "file_run j url f (x # xs) = file_run j url (file_step j url (fst x) (snd x) f) xs"

definition codec_ok :: "profile_codec \<Rightarrow> stored_profiles \<Rightarrow> bool" where
  "codec_ok j st \<longleftrightarrow> trim (pc_stringify j (store_json st)) \<noteq> []
     \<and> pc_parse j (trim (pc_stringify j (store_json st))) = Some (store_json st)"

lemma file_run_store:
  assumes "wf_store url st" "\<And>t. loadProfiles j url t f = st" "list_all (codec_ok j) (store_trace url st xs)"
  shows "wf_store url (last (st # store_trace url st xs))
    \<and> loadProfiles j url t (file_run j url f xs) = last (st # store_trace url st xs)"
  using assms
proof (induction xs arbitrary: st f)
  case Nil
  then show ?case by simp
next
  case (Cons x xs)
  show ?case
  proof (cases "store_step url (fst x) (snd x) st")
    case None
    then have "file_step j url (fst x) (snd x) f = f" using Cons.prems(2) by (simp add: file_step_def)
    then show ?thesis using Cons.IH [OF Cons.prems(1,2)] Cons.prems(3) None by simp
  next
    case (Some st')
    have wf: "wf_store url st'" by (rule store_step_wf [OF Cons.prems(1) Some])
    have stored: "file_step j url (fst x) (snd x) f = saveProfiles j st'" using Cons.prems(2) Some by (simp add: file_step_def)
    have ok: "codec_ok j st'" "list_all (codec_ok j) (store_trace url st' xs)" using Cons.prems(3) Some by simp_all
    have load: "loadProfiles j url t (saveProfiles j st') = st'" for t
      by (rule load_saved [OF wf]) (use ok(1) in \<open>simp_all add: codec_ok_def\<close>)
    show ?thesis using Cons.IH [OF wf load ok(2)] Some stored by simp
  qed
qed

text \<open>
  C23: the profile file is the store. Starting without a file, after any sequence of adding, removing, selecting, touching
  profiles and setting tokens, reading the file back gives exactly the store that the operations compute, provided
  \<open>JSON.parse\<close> undoes \<open>JSON.stringify\<close> on the stores written. Every store has valid names, WebSocket URLs and backends.
\<close>

theorem profile_file_is_store:
  assumes "list_all (codec_ok j) (store_trace url empty_store xs)"
  shows "loadProfiles j url t (file_run j url None xs) = last (empty_store # store_trace url empty_store xs)
    \<and> wf_store url (last (empty_store # store_trace url empty_store xs))"
  using file_run_store [OF empty_store_wf _ assms, of None t] by (simp add: loadProfiles_def)

definition demo_ws_url :: full_url_parser where
  "demo_ws_url t = (if t = ''ws://a'' then Some \<lparr>u_protocol = ''ws:'', u_hostname = ''a'', u_port = [], u_href = ''ws://a/''\<rparr> else None)"

definition demo_profile_ops :: "(jsnum \<times> profile_op) list" where
  "demo_profile_ops = [(Fin 1, UpsertProfile ''home'' ''ws://a'' None), (Fin 2, SetProfileToken ''home'' (Some ''t'')),
     (Fin 3, UpsertProfile ''home'' ''ws://a'' (Some ''tmux''))]"

definition demo_codec :: profile_codec where
  "demo_codec =
     (let ss = map store_json (store_trace demo_ws_url empty_store demo_profile_ops)
      in \<lparr>pc_parse = (\<lambda>t. map_of (zip [''1'', ''2'', ''3''] ss) t),
          pc_stringify = (\<lambda>v. case map_of (zip ss [''1'', ''2'', ''3'']) v of Some t \<Rightarrow> t | None \<Rightarrow> [])\<rparr>)"

theorem profile_file_is_store_witness:
  "list_all (codec_ok demo_codec) (store_trace demo_ws_url empty_store demo_profile_ops)
   \<and> loadProfiles demo_codec demo_ws_url (Fin 9) (file_run demo_codec demo_ws_url None demo_profile_ops)
      = last (store_trace demo_ws_url empty_store demo_profile_ops)"
proof -
  have "list_all (codec_ok demo_codec) (store_trace demo_ws_url empty_store demo_profile_ops)" by code_simp
  moreover have "store_trace demo_ws_url empty_store demo_profile_ops \<noteq> []" by code_simp
  ultimately show ?thesis using profile_file_is_store [of demo_codec demo_ws_url demo_profile_ops "Fin 9"] by simp
qed

text \<open>Adding a profile again forgets the token stored with it.\<close>

theorem update_forgets_token:
  assumes "normalizeProfileCandidate url now (JObj ([(''name'', JStr n), (''url'', JStr u)] @ opt_field ''backend'' (map_option JStr b))) None = Some p"
    and "map_of (sp_profiles st) n = Some old" and "isValidProfileName n"
  shows "\<exists>st' p'. store_step url now (UpsertProfile n u b) st = Some st' \<and> map_of (sp_profiles st') n = Some p'
     \<and> pf_createdAt p' = pf_createdAt old \<and> pf_authToken p' = None \<and> pf_notes p' = None \<and> pf_lastUsedAt p' = None"
proof -
  have p: "pf_name p = n" "pf_authToken p = None" "pf_notes p = None" "pf_lastUsedAt p = None"
    using assms(1,3)
    by (cases b; auto simp: normalizeProfileCandidate_def candidate_name_def opt_field_def prop_of_def number_field_def
        Let_def split: if_splits)+
  moreover have "n \<in> fst ` set (sp_profiles st)" using assms(2) by (metis domI dom_map_of_conv_image_fst)
  ultimately show ?thesis
    using assms(1,2) by (simp add: store_step_def upsert_store_def oput_def update_conv')
qed

end
