(* ===== verification/Tui_Runtime.thy ===== *)
theory Tui_Runtime
  imports Tui_Profiles Promise_Ledger
begin

text \<open>
  The terminal client, \<^verbatim>\<open>packages/commandrelay-tui/src/cli-state.ts\<close>, \<^verbatim>\<open>cli-runtime.ts\<close>, \<open>connectAndBootstrap\<close> of \<^verbatim>\<open>cli.ts\<close> and the commands of
  \<^verbatim>\<open>cli-commands.ts\<close> that change its state. A bridge client object is a number, the number of the bootstrap that made
  it. \<open>connectAndBootstrap\<close> is cut at its awaits: a bootstrap in flight is its caller and the await it is at. Times
  are given by the events, in milliseconds; \<open>jitter\<close> is \<open>Math.floor(Math.random() * 250)\<close>; one event is handled at one time.
\<close>

section \<open>State\<close>

record cli_hello =
  ch_requiresAuth :: bool
  ch_inputEnabled :: bool
  ch_globalInputDisabled :: bool
  ch_maxInputBytes :: "jsnum option"

datatype timer_kind = Cooldown_wait | Reconnect_attempt

datatype boot_origin = From_main | From_timer | From_command | From_token string

datatype boot_stage = Loading | Connecting | Prompting | Authenticating string | Listing

record cli_state =
  cs_client :: "nat option"
  cs_backend :: string
  cs_connected :: bool
  cs_hello :: "cli_hello option"
  cs_activePane :: "string option"
  cs_lastSeqByPane :: "(string \<times> int) list"
  cs_heartbeatTimer :: bool
  cs_reconnectTimer :: "(timer_kind \<times> int) option"
  cs_reconnectAttempts :: nat
  cs_reconnectFailures :: nat
  cs_reconnectCooldownUntil :: int
  cs_userRequestedClose :: bool
  cs_authFailureBlocked :: bool
  cs_authToken :: "string option"
  cs_url :: string
  cs_activeProfile :: active_profile
  cs_boots :: "(nat \<times> boot_origin \<times> boot_stage) list"
  cs_next :: nat

definition createInitialCliState :: cli_state where
  "createInitialCliState =
     \<lparr>cs_client = None, cs_backend = ''console'', cs_connected = False, cs_hello = None, cs_activePane = None,
      cs_lastSeqByPane = [], cs_heartbeatTimer = False, cs_reconnectTimer = None, cs_reconnectAttempts = 0,
      cs_reconnectFailures = 0, cs_reconnectCooldownUntil = 0, cs_userRequestedClose = False, cs_authFailureBlocked = False,
      cs_authToken = None, cs_url = ''ws://127.0.0.1:8787/ws'',
      cs_activeProfile = \<lparr>ap_name = None, ap_selected = None, ap_hasStore = False\<rparr>, cs_boots = [], cs_next = 0\<rparr>"

datatype tui_effect =
    Out_line string
  | Out_chunk string
  | Timer_set timer_kind int
  | Client_new nat string
  | Client_connect nat
  | Client_close nat int string
  | Client_call nat api_call
  | Ask_token
  | Profile_change profile_op
  | Type_error
  | Exit_process

type_synonym tui_step = "cli_state \<times> tui_effect list"

section \<open>Reconnecting\<close>

definition RECONNECT_ATTEMPTS_MAX :: nat where
  "RECONNECT_ATTEMPTS_MAX = 6"

definition RECONNECT_COOLDOWN_MS :: int where
  "RECONNECT_COOLDOWN_MS = 45000"

definition RECONNECT_FAILURE_THRESHOLD :: nat where
  "RECONNECT_FAILURE_THRESHOLD = 3"

definition RECONNECT_BASE_MS :: int where
  "RECONNECT_BASE_MS = 1000"

definition RECONNECT_MAX_MS :: int where
  "RECONNECT_MAX_MS = 20000"

definition ceil_seconds :: "int \<Rightarrow> int" where
  "ceil_seconds ms = - ((- ms) div 1000)"

definition bool_text :: "bool \<Rightarrow> string" where
  "bool_text b = (if b then ''true'' else ''false'')"

definition getReconnectMetricsLine :: "int \<Rightarrow> cli_state \<Rightarrow> string" where
  "getReconnectMetricsLine now s =
     ''reconnect metrics: attempts='' @ decimal (cs_reconnectAttempts s) @ ''/'' @ decimal RECONNECT_ATTEMPTS_MAX
       @ '', failures='' @ decimal (cs_reconnectFailures s)
       @ '', cooldown='' @ number_text (ceil_seconds (max (cs_reconnectCooldownUntil s - now) 0))
       @ ''s, blocked='' @ bool_text (cs_authFailureBlocked s)
       @ '', timer='' @ (if cs_reconnectTimer s \<noteq> None then ''armed'' else ''idle'')"

definition stopHeartbeat :: "cli_state \<Rightarrow> cli_state" where
  "stopHeartbeat s = s\<lparr>cs_heartbeatTimer := False\<rparr>"

definition startHeartbeat :: "cli_state \<Rightarrow> cli_state" where
  "startHeartbeat s = (if cs_client s = None \<or> cs_heartbeatTimer s then s else s\<lparr>cs_heartbeatTimer := True\<rparr>)"

function scheduleReconnect :: "int \<Rightarrow> int \<Rightarrow> cli_state \<Rightarrow> tui_step" where
  "scheduleReconnect now jitter s =
     (if cs_userRequestedClose s then (s, [])
      else if cs_reconnectTimer s \<noteq> None then (s, [])
      else if cs_reconnectCooldownUntil s > now then
        (let remaining = ceil_seconds (cs_reconnectCooldownUntil s - now);
             delay = max (cs_reconnectCooldownUntil s - now) 0 + jitter
         in (s\<lparr>cs_reconnectTimer := Some (Cooldown_wait, now + delay)\<rparr>,
             [Out_line (''reconnect cooldown active: '' @ number_text remaining @ ''s remaining''),
              Out_line (getReconnectMetricsLine now s), Timer_set Cooldown_wait delay]))
      else if cs_reconnectAttempts s \<ge> RECONNECT_ATTEMPTS_MAX then
        (let s1 = s\<lparr>cs_reconnectCooldownUntil := now + RECONNECT_COOLDOWN_MS, cs_reconnectAttempts := 0, cs_reconnectFailures := 0\<rparr>;
             (s2, fx) = scheduleReconnect now jitter s1
         in (s2, Out_line ''reconnect attempts exhausted; cooling down for 45s'' # Out_line (getReconnectMetricsLine now s1) # fx))
      else
        (let delay = min RECONNECT_MAX_MS (RECONNECT_BASE_MS * 2 ^ cs_reconnectAttempts s) + jitter;
             s1 = s\<lparr>cs_reconnectAttempts := Suc (cs_reconnectAttempts s)\<rparr>
         in (s1\<lparr>cs_reconnectTimer := Some (Reconnect_attempt, now + delay)\<rparr>,
             [Out_line (''reconnecting in '' @ number_text (ceil_seconds delay) @ ''s (attempt ''
                @ decimal (cs_reconnectAttempts s1) @ ''/'' @ decimal RECONNECT_ATTEMPTS_MAX @ '')''),
              Out_line (getReconnectMetricsLine now s1), Timer_set Reconnect_attempt delay])))"
  by pat_completeness auto
termination by (relation "measure (\<lambda>(now, jitter, s). cs_reconnectAttempts s)") (auto simp: RECONNECT_ATTEMPTS_MAX_def)

declare scheduleReconnect.simps [simp del]

text \<open>\<open>connectAndBootstrap\<close> is called: it waits for the client module.\<close>

definition begin_boot :: "boot_origin \<Rightarrow> cli_state \<Rightarrow> cli_state" where
  "begin_boot origin s = s\<lparr>cs_boots := cs_boots s @ [(cs_next s, origin, Loading)], cs_next := Suc (cs_next s)\<rparr>"

definition reconnect_timer_fired :: "int \<Rightarrow> int \<Rightarrow> cli_state \<Rightarrow> tui_step" where
  "reconnect_timer_fired now jitter s =
     (case cs_reconnectTimer s of
        None \<Rightarrow> (s, [])
      | Some (kind, due) \<Rightarrow>
          (if now < due then (s, [])
           else let s1 = s\<lparr>cs_reconnectTimer := None\<rparr>
                in case kind of
                     Cooldown_wait \<Rightarrow> scheduleReconnect now jitter s1
                   | Reconnect_attempt \<Rightarrow>
                       (begin_boot From_timer
                          ((stopHeartbeat s1)\<lparr>cs_client := None, cs_hello := None, cs_activePane := None\<rparr>), [])))"

definition reconnectNow :: "cli_state \<Rightarrow> tui_step" where
  "reconnectNow s =
     (if cs_client s \<noteq> None \<or> cs_connected s
      then (s, [Out_line ''already connected; use /token for auth or /quit then /reconnect''])
      else (begin_boot From_command
              (s\<lparr>cs_reconnectTimer := None, cs_authFailureBlocked := False, cs_reconnectFailures := 0,
                 cs_reconnectAttempts := 0, cs_reconnectCooldownUntil := 0\<rparr>),
            [Out_line ''manual reconnect requested'']))"

definition isAuthenticationClose :: "string \<Rightarrow> int \<Rightarrow> bool" where
  "isAuthenticationClose reason code \<longleftrightarrow> code = 1008
     \<or> list_ex (str_includes (toLowerCase reason))
         [''auth'', ''token'', ''credential'', ''permission'', ''invalid token'', ''forbidden'', ''not authorized'']"

section \<open>Bootstrap\<close>

definition set_stage :: "nat \<Rightarrow> boot_stage \<Rightarrow> cli_state \<Rightarrow> cli_state" where
  "set_stage b st s = s\<lparr>cs_boots := map (\<lambda>(i, o1, x). if i = b then (i, o1, st) else (i, o1, x)) (cs_boots s)\<rparr>"

definition end_boot :: "nat \<Rightarrow> cli_state \<Rightarrow> cli_state" where
  "end_boot b s = s\<lparr>cs_boots := filter (\<lambda>(i, _). i \<noteq> b) (cs_boots s)\<rparr>"

text \<open>\<open>error instanceof Error ? error.message : String(error)\<close>; \<open>str\<close> is \<open>String\<close>.\<close>

definition cli_error_text :: "(jsval \<Rightarrow> string) \<Rightarrow> client_error \<Rightarrow> string" where
  "cli_error_text str e = (case e of Plain_error m \<Rightarrow> m | Protocol_error p \<Rightarrow> pe_message p | Other_thrown v \<Rightarrow> str v)"

text \<open>The \<open>catch\<close> of the caller: \<open>main\<close>, the timer, \<open>reconnectNow\<close> and \<open>runAuth\<close>.\<close>

definition boot_rejected :: "(jsval \<Rightarrow> string) \<Rightarrow> boot_origin \<Rightarrow> client_error \<Rightarrow> int \<Rightarrow> int \<Rightarrow> cli_state \<Rightarrow> tui_step" where
  "boot_rejected str origin e now jitter s =
     (case origin of
        From_main \<Rightarrow>
          (s, Out_line (''connect failure: '' @ cli_error_text str e) #
              (if isAuthenticationError e then [Out_line ''start disconnected; use /token to provide valid credentials'']
               else [Out_line ''connection unavailable; auto-reconnect is active when possible.'',
                     Out_line ''run /reconnect to retry immediately.'']))
      | From_timer \<Rightarrow>
          (let (s1, fx) = scheduleReconnect now jitter s in (s1, Out_line (''reconnect failed: '' @ cli_error_text str e) # fx))
      | From_command \<Rightarrow>
          (if isAuthenticationError e then (s, [])
           else let (s1, fx) = scheduleReconnect now jitter s in (s1, Out_line (''reconnect failed: '' @ cli_error_text str e) # fx))
      | From_token candidate \<Rightarrow>
          ((if isAuthenticationError e then s\<lparr>cs_authFailureBlocked := True\<rparr> else s)\<lparr>cs_authToken := None\<rparr>,
           [Out_line (''auth failed: '' @ cli_error_text str e)]))"

text \<open>The \<open>catch\<close> of \<open>connectAndBootstrap\<close> itself.\<close>

definition bootstrap_catch :: "client_error \<Rightarrow> int \<Rightarrow> cli_state \<Rightarrow> tui_step" where
  "bootstrap_catch e now s =
     (if isAuthenticationError e then
        (s\<lparr>cs_authFailureBlocked := True, cs_authToken := None, cs_reconnectFailures := 0, cs_reconnectAttempts := 0,
           cs_reconnectCooldownUntil := 0\<rparr>,
         [Out_line ''authentication failed; use /token to provide valid credentials''])
      else
        (let s1 = s\<lparr>cs_reconnectFailures := Suc (cs_reconnectFailures s)\<rparr>
         in if cs_reconnectFailures s1 \<ge> RECONNECT_FAILURE_THRESHOLD then
              (s1\<lparr>cs_reconnectCooldownUntil := now + RECONNECT_COOLDOWN_MS, cs_reconnectFailures := 0, cs_reconnectAttempts := 0\<rparr>,
               [Out_line ''temporary network issue; cooling down for 45s''])
            else (s1, [])))"

definition boot_failed :: "(jsval \<Rightarrow> string) \<Rightarrow> nat \<Rightarrow> boot_origin \<Rightarrow> client_error \<Rightarrow> int \<Rightarrow> int \<Rightarrow> cli_state \<Rightarrow> tui_step" where
  "boot_failed str b origin e now jitter s =
     (let (s1, fx) = bootstrap_catch e now s;
          (s2, fx2) = boot_rejected str origin e now jitter (end_boot b s1)
      in (s2, fx @ [Client_close b 1000 ''bootstrap failure''] @ fx2))"

definition boot_loaded :: "nat \<Rightarrow> cli_state \<Rightarrow> tui_step" where
  "boot_loaded b s =
     (set_stage b Connecting (s\<lparr>cs_userRequestedClose := False, cs_client := Some b\<rparr>), [Client_new b (cs_url s), Client_connect b])"

text \<open>From the greeting on: \<open>hello\<close> is \<open>client.hello\<close> when the code reads it, \<open>who\<close> its client id.\<close>

definition boot_ready :: "nat \<Rightarrow> cli_hello option \<Rightarrow> cli_state \<Rightarrow> tui_step" where
  "boot_ready b hello s =
     (set_stage b Listing
        (s\<lparr>cs_authFailureBlocked := False,
           cs_hello := Some (case hello of
             Some h \<Rightarrow> h | None \<Rightarrow> \<lparr>ch_requiresAuth = False, ch_inputEnabled = False, ch_globalInputDisabled = False, ch_maxInputBytes = None\<rparr>),
           cs_reconnectAttempts := 0, cs_reconnectFailures := 0, cs_reconnectCooldownUntil := 0\<rparr>),
      (case cs_client s of None \<Rightarrow> [] | Some c \<Rightarrow> [Client_call c Api_listSessions]))"

definition boot_connected :: "nat \<Rightarrow> cli_hello option \<Rightarrow> string option \<Rightarrow> cli_state \<Rightarrow> tui_step" where
  "boot_connected b hello who s =
     (if (case hello of Some h \<Rightarrow> ch_requiresAuth h | None \<Rightarrow> False) then
        (case cs_authToken s of
           Some t \<Rightarrow> (if t \<noteq> [] then (set_stage b (Authenticating t) s, [Client_call b (Api_authenticate t)])
                      else (set_stage b Prompting s, [Ask_token]))
         | None \<Rightarrow> (set_stage b Prompting s, [Ask_token]))
      else
        (let (s1, fx) = boot_ready b hello s
         in (s1, Out_line (''connected to '' @ (case who of Some w \<Rightarrow> w | None \<Rightarrow> ''server'')) # fx)))"

definition boot_token :: "(jsval \<Rightarrow> string) \<Rightarrow> nat \<Rightarrow> boot_origin \<Rightarrow> string option \<Rightarrow> int \<Rightarrow> int \<Rightarrow> cli_state \<Rightarrow> tui_step" where
  "boot_token str b origin answer now jitter s =
     (case answer of
        None \<Rightarrow> boot_failed str b origin (Plain_error ''auth token required'') now jitter s
      | Some t \<Rightarrow> (set_stage b (Authenticating t) s, [Client_call b (Api_authenticate t)]))"

definition boot_authenticated :: "nat \<Rightarrow> string \<Rightarrow> cli_hello option \<Rightarrow> cli_state \<Rightarrow> tui_step" where
  "boot_authenticated b t hello s =
     (let (s1, fx) = boot_ready b hello (s\<lparr>cs_authToken := Some t\<rparr>) in (s1, Out_line ''authenticated'' # fx))"

definition profile_effects :: "cli_state \<Rightarrow> (string \<Rightarrow> profile_op) \<Rightarrow> tui_effect list" where
  "profile_effects s f =
     (case ap_name (cs_activeProfile s) of Some n \<Rightarrow> (if n \<noteq> [] then [Profile_change (f n)] else []) | None \<Rightarrow> [])"

definition boot_listed :: "nat \<Rightarrow> boot_origin \<Rightarrow> cli_state \<Rightarrow> tui_step" where
  "boot_listed b origin s =
     (let s1 = startHeartbeat s; touched = profile_effects s TouchProfile
      in (end_boot b s1,
          touched @
          (case origin of
             From_timer \<Rightarrow> [Out_line ''reconnected'']
           | From_token t \<Rightarrow> profile_effects s (\<lambda>n. SetProfileToken n (Some t)) @ [Out_line ''authenticated'']
           | _ \<Rightarrow> [])))"

section \<open>Events of the client\<close>

definition client_policy_update :: "bool \<Rightarrow> bool \<Rightarrow> cli_state \<Rightarrow> cli_state" where
  "client_policy_update enabled disabled s =
     s\<lparr>cs_hello := map_option (\<lambda>h. h\<lparr>ch_inputEnabled := enabled, ch_globalInputDisabled := disabled\<rparr>) (cs_hello s)\<rparr>"

definition client_output :: "string \<Rightarrow> int \<Rightarrow> string \<Rightarrow> cli_state \<Rightarrow> tui_step" where
  "client_output paneId sq chunk s =
     (let s1 = (if sq \<ge> 0 then s\<lparr>cs_lastSeqByPane := mput (cs_lastSeqByPane s) paneId sq\<rparr> else s)
      in (s1, if cs_activePane s1 = Some paneId \<and> chunk \<noteq> [] then [Out_chunk chunk] else []))"

definition client_closed :: "int \<Rightarrow> string \<Rightarrow> int \<Rightarrow> int \<Rightarrow> cli_state \<Rightarrow> tui_step" where
  "client_closed code reason now jitter s =
     (let s1 = (stopHeartbeat (s\<lparr>cs_connected := False\<rparr>))\<lparr>cs_client := None, cs_hello := None, cs_activePane := None\<rparr>;
          auth = isAuthenticationClose reason code;
          s2 = (if auth then s1\<lparr>cs_authFailureBlocked := True, cs_authToken := None, cs_reconnectTimer := None\<rparr> else s1);
          fx = (if auth then [Out_line ''authentication closed connection; run /token''] else []);
          (s3, fx2) = (if \<not> cs_userRequestedClose s2 \<and> \<not> cs_authFailureBlocked s2 then scheduleReconnect now jitter s2 else (s2, []))
      in (s3, fx @ fx2 @ [Out_line (''closed '' @ number_text code @ '': '' @ reason)]))"

section \<open>Disconnecting\<close>

definition disconnectCleanly :: "cli_state \<Rightarrow> tui_step" where
  "disconnectCleanly s =
     (let s1 = stopHeartbeat (s\<lparr>cs_connected := False, cs_userRequestedClose := True, cs_reconnectTimer := None\<rparr>)
      in (s1, case cs_client s1 of None \<Rightarrow> [] | Some c \<Rightarrow> [Client_call c Api_disconnect]))"

text \<open>After the await; \<open>ok\<close> tells whether the call succeeded. The fallback calls \<open>close\<close> on \<open>state.client\<close> as it is then.\<close>

definition disconnect_settled :: "bool \<Rightarrow> cli_state \<Rightarrow> tui_step" where
  "disconnect_settled ok s =
     (if \<not> ok \<and> cs_client s = None then (s, [Type_error])
      else (s\<lparr>cs_client := None, cs_hello := None, cs_activePane := None\<rparr>,
            if ok then [] else [Client_close (the (cs_client s)) 1000 ''user exit'']))"

section \<open>Commands\<close>

datatype tui_command =
    Cmd_help | Cmd_list | Cmd_attach_usage | Cmd_attach_pane string | Cmd_detach_pane | Cmd_profiles | Cmd_profile string
  | Cmd_enable | Cmd_disable | Cmd_token | Cmd_token_usage | Cmd_reconnect | Cmd_health | Cmd_backend | Cmd_open string
  | Cmd_status | Cmd_quit | Cmd_unknown

definition command_of :: "string \<Rightarrow> tui_command" where
  "command_of raw =
     (if startsWith raw ''/help'' then Cmd_help
      else if startsWith raw ''/list'' then Cmd_list
      else if raw = ''/attach'' then Cmd_attach_usage
      else if startsWith raw ''/attach '' then
        (let pane = trim (drop 8 raw) in if pane = [] then Cmd_attach_usage else Cmd_attach_pane pane)
      else if raw = ''/detach'' then Cmd_detach_pane
      else if raw = ''/profiles'' then Cmd_profiles
      else if startsWith raw ''/profile'' then Cmd_profile raw
      else if raw = ''/enable'' then Cmd_enable
      else if raw = ''/disable'' then Cmd_disable
      else if raw = ''/token'' then Cmd_token
      else if startsWith raw ''/token '' then Cmd_token_usage
      else if startsWith raw ''/reconnect'' then Cmd_reconnect
      else if startsWith raw ''/health'' then Cmd_health
      else if raw = ''/backend'' then Cmd_backend
      else if raw = ''/open'' \<or> startsWith raw ''/open '' then Cmd_open (trim (drop 5 raw))
      else if startsWith raw ''/status'' then Cmd_status
      else if raw = ''/quit'' \<or> raw = ''/exit'' then Cmd_quit
      else Cmd_unknown)"

definition call_client :: "cli_state \<Rightarrow> api_call \<Rightarrow> tui_step" where
  "call_client s call = (s, case cs_client s of None \<Rightarrow> [Out_line ''not connected''] | Some c \<Rightarrow> [Client_call c call])"

definition attachPane :: "string \<Rightarrow> cli_state \<Rightarrow> tui_step" where
  "attachPane paneId s = call_client s (Api_attach paneId (map_option (\<lambda>n. Fin (of_int n)) (map_of (cs_lastSeqByPane s) paneId)))"

definition attach_settled :: "(jsval \<Rightarrow> string) \<Rightarrow> string \<Rightarrow> client_error option \<Rightarrow> cli_state \<Rightarrow> tui_step" where
  "attach_settled str paneId e s =
     (case e of
        None \<Rightarrow> (s\<lparr>cs_activePane := Some paneId\<rparr>, [Out_line (''attached '' @ paneId)])
      | Some failure \<Rightarrow> (s, [Out_line (''attach failed: '' @ cli_error_text str failure)]))"

definition detachCurrentPane :: "cli_state \<Rightarrow> tui_step" where
  "detachCurrentPane s =
     (case (cs_client s, cs_activePane s) of
        (Some c, Some pane) \<Rightarrow> (s, if pane = [] then [Out_line ''no attached pane''] else [Client_call c (Api_detach pane)])
      | _ \<Rightarrow> (s, [Out_line ''no attached pane'']))"

definition detach_settled :: "(jsval \<Rightarrow> string) \<Rightarrow> client_error option \<Rightarrow> cli_state \<Rightarrow> tui_step" where
  "detach_settled str e s =
     (case e of
        None \<Rightarrow> (s\<lparr>cs_activePane := None\<rparr>,
          [Out_line (''detached '' @ (case cs_activePane s of None \<Rightarrow> ''null'' | Some p \<Rightarrow> p))])
      | Some failure \<Rightarrow> (s, [Out_line (''detach failed: '' @ cli_error_text str failure)]))"

text \<open>\<open>enableInput\<close> and \<open>disableInput\<close> differ in the call and in the word they print.\<close>

definition input_policy_settled :: "(jsval \<Rightarrow> string) \<Rightarrow> bool \<Rightarrow> (client_error, bool \<times> bool) result \<Rightarrow> cli_state \<Rightarrow> tui_step" where
  "input_policy_settled str enable r s =
     (case r of
        Inr (enabled, disabled) \<Rightarrow>
          (client_policy_update enabled disabled s, [Out_line (if enable then ''input enabled'' else ''input disabled'')])
      | Inl failure \<Rightarrow> (s, [Out_line ((if enable then ''enable failed: '' else ''disable failed: '') @ cli_error_text str failure)]))"

definition runAuth_answer :: "string option \<Rightarrow> cli_state \<Rightarrow> tui_step" where
  "runAuth_answer answer s =
     (case answer of
        None \<Rightarrow> (s, [Out_line ''auth token cancelled''])
      | Some candidate \<Rightarrow>
          (case cs_client s of
             None \<Rightarrow> (begin_boot (From_token candidate) (s\<lparr>cs_authToken := Some candidate, cs_authFailureBlocked := False\<rparr>), [])
           | Some c \<Rightarrow> (s, [Client_call c (Api_authenticate candidate)])))"

definition runAuth_settled :: "(jsval \<Rightarrow> string) \<Rightarrow> string \<Rightarrow> client_error option \<Rightarrow> cli_state \<Rightarrow> tui_step" where
  "runAuth_settled str candidate e s =
     (case e of
        None \<Rightarrow> (s\<lparr>cs_authToken := Some candidate\<rparr>,
          profile_effects s (\<lambda>n. SetProfileToken n (Some candidate)) @ [Out_line ''authenticated''])
      | Some failure \<Rightarrow>
          ((if isAuthenticationError failure then s\<lparr>cs_authFailureBlocked := True\<rparr> else s)\<lparr>cs_authToken := None\<rparr>,
           [Out_line (''auth failed: '' @ cli_error_text str failure)]))"

definition exceeds :: "int \<Rightarrow> jsnum \<Rightarrow> bool" where
  "exceeds n m = (case m of Fin q \<Rightarrow> of_int n > q | NInf \<Rightarrow> True | _ \<Rightarrow> False)"

definition nonpositive :: "jsnum \<Rightarrow> bool" where
  "nonpositive m = (case m of Fin q \<Rightarrow> q \<le> 0 | NInf \<Rightarrow> True | _ \<Rightarrow> False)"

definition runInputCommand :: "string \<Rightarrow> cli_state \<Rightarrow> tui_step" where
  "runInputCommand raw s =
     (case (cs_client s, cs_activePane s) of
        (Some c, Some pane) \<Rightarrow>
          (if pane = [] then (s, [Out_line ''attach a pane first: /attach <pane-id>''])
           else case cs_hello s of
             None \<Rightarrow> (s, [Out_line ''input disabled; run /enable first''])
           | Some h \<Rightarrow>
               (let payload = raw @ [CHR 0x0A]
                in if \<not> ch_inputEnabled h \<or> ch_globalInputDisabled h then (s, [Out_line ''input disabled; run /enable first''])
                   else case ch_maxInputBytes h of
                     None \<Rightarrow> (s, [Client_call c (Api_sendInput pane payload False)])
                   | Some m \<Rightarrow>
                       (if nonpositive m then (s, [Out_line ''input disabled by remote limit''])
                        else if exceeds (byteLength payload) m then (s, [Out_line ''input too large''])
                        else (s, [Client_call c (Api_sendInput pane payload False)]))))
      | _ \<Rightarrow> (s, [Out_line ''attach a pane first: /attach <pane-id>'']))"

subsection \<open>Profiles\<close>

function words :: "string \<Rightarrow> string list" where
  "words s = (let t = dropWhile is_ws s in
     if t = [] then [] else takeWhile (\<lambda>c. \<not> is_ws c) t # words (dropWhile (\<lambda>c. \<not> is_ws c) t))"
  by pat_completeness auto
termination
proof (relation "measure length")
  fix s x
  assume x: "x = dropWhile is_ws s" "x \<noteq> []"
  from x(2) obtain c cs where c: "x = c # cs" by (meson neq_Nil_conv)
  then have "\<not> is_ws c" using x hd_dropWhile [of is_ws s] by auto
  then have "length (dropWhile (\<lambda>c. \<not> is_ws c) x) \<le> length cs" using c by (simp add: length_dropWhile_le)
  then have "length (dropWhile (\<lambda>c. \<not> is_ws c) x) < length x" using c by simp
  moreover have "length x \<le> length s" using x by (simp add: length_dropWhile_le)
  ultimately show "(dropWhile (\<lambda>c. \<not> is_ws c) x, s) \<in> measure length" by simp
qed simp

declare words.simps [simp del]

definition word_at :: "string list \<Rightarrow> nat \<Rightarrow> string option" where
  "word_at ws i = (if i < length ws \<and> ws ! i \<noteq> [] then Some (ws ! i) else None)"

text \<open>Taking over a selected profile: the URL, and the backend when the profile has one.\<close>

definition adopt_profile :: "active_profile \<Rightarrow> cli_state \<Rightarrow> cli_state" where
  "adopt_profile sel s =
     (case ap_selected sel of
        None \<Rightarrow> s\<lparr>cs_activeProfile := sel\<rparr>
      | Some p \<Rightarrow>
          s\<lparr>cs_activeProfile := sel, cs_url := pf_url p,
            cs_backend := (case pf_backend p of Some b \<Rightarrow> (if b \<noteq> [] then b else cs_backend s) | None \<Rightarrow> cs_backend s)\<rparr>)"

text \<open>\<open>store\<close> is what \<open>loadProfiles\<close> returns when the command runs.\<close>

definition profile_add :: "full_url_parser \<Rightarrow> jsnum \<Rightarrow> stored_profiles \<Rightarrow> string list \<Rightarrow> cli_state \<Rightarrow> tui_step" where
  "profile_add url now store ws s =
     (case (word_at ws 2, word_at ws 3) of
        (Some name, Some u) \<Rightarrow>
          (if \<not> isValidProfileName name then (s, [Out_line ''invalid profile name''])
           else if \<not> isValidProfileUrl url u then (s, [Out_line ''profile URL must be ws:// or wss://''])
           else if (case word_at ws 4 of Some b \<Rightarrow> \<not> isBackend b | None \<Rightarrow> False) then (s, [Out_line ''invalid backend''])
           else
             (let change = UpsertProfile name u (word_at ws 4);
                  store' = (case store_step url now change store of Some st \<Rightarrow> st | None \<Rightarrow> store)
              in (adopt_profile (select_profile store' (Some name)) s,
                  [Profile_change change, Out_line (''saved profile '' @ name)]
                    @ (if \<not> cs_connected s \<and> cs_client s = None then [Out_line (''active profile set to '' @ name)] else []))))
      | _ \<Rightarrow> (s, [Out_line ''usage: /profile add <name> <ws-url> [tmux|ghostty|console]'']))"

definition profile_remove :: "stored_profiles \<Rightarrow> string list \<Rightarrow> cli_state \<Rightarrow> tui_step" where
  "profile_remove store ws s =
     (case word_at ws 2 of
        None \<Rightarrow> (s, [Out_line ''usage: /profile rm <name>''])
      | Some name \<Rightarrow>
          ((if ap_name (cs_activeProfile s) = Some name
            then s\<lparr>cs_activeProfile := select_profile (remove_store name store) None\<rparr> else s),
           [Profile_change (RemoveProfile name), Out_line (''removed profile '' @ name)]))"

text \<open>\<open>use\<close>: with a client the reconnect follows the disconnect, at the event \<open>Switch_settled\<close>.\<close>

definition profile_use :: "stored_profiles \<Rightarrow> string list \<Rightarrow> cli_state \<Rightarrow> tui_step" where
  "profile_use store ws s =
     (case word_at ws 2 of
        None \<Rightarrow> (s, [Out_line ''usage: /profile use <name>''])
      | Some name \<Rightarrow>
          (let sel = select_profile store (Some name)
           in case ap_selected sel of
                None \<Rightarrow> (s, [Out_line (''profile not found: '' @ name)])
              | Some p \<Rightarrow>
                  (let s1 = (adopt_profile sel s)\<lparr>cs_authToken := pf_authToken p\<rparr>;
                       fx = [Profile_change (SetActiveProfile (Some name)), Profile_change (TouchProfile name),
                             Out_line (''switched profile '' @ name)];
                       (s2, fx2) = (if cs_client s1 \<noteq> None then disconnectCleanly s1 else reconnectNow s1)
                   in (s2, fx @ fx2))))"

definition switch_settled :: "bool \<Rightarrow> cli_state \<Rightarrow> tui_step" where
  "switch_settled ok s =
     (let (s1, fx) = disconnect_settled ok s
      in if fx = [Type_error] then (s1, fx)
         else let (s2, fx2) = reconnectNow (s1\<lparr>cs_userRequestedClose := False\<rparr>) in (s2, fx @ fx2))"

definition profile_token :: "stored_profiles \<Rightarrow> string list \<Rightarrow> cli_state \<Rightarrow> tui_step" where
  "profile_token store ws s =
     (case (if 2 < length ws then Some (ws ! 2) else ap_name (cs_activeProfile s)) of
        None \<Rightarrow> (s, [Out_line ''usage: /profile token [name]''])
      | Some name \<Rightarrow>
          (if name = [] then (s, [Out_line ''usage: /profile token [name]''])
           else if map_of (sp_profiles store) name = None then (s, [Out_line (''profile not found: '' @ name)])
           else (s, [Ask_token])))"

definition profile_token_answer :: "string \<Rightarrow> string option \<Rightarrow> cli_state \<Rightarrow> tui_step" where
  "profile_token_answer name answer s =
     (case answer of
        None \<Rightarrow> (s, [Out_line ''token cancelled''])
      | Some t \<Rightarrow>
          ((if ap_name (cs_activeProfile s) = Some name then s\<lparr>cs_authToken := Some t\<rparr> else s),
           [Profile_change (SetProfileToken name (Some t)), Out_line (''token saved for profile '' @ name)]))"

definition runProfile :: "full_url_parser \<Rightarrow> jsnum \<Rightarrow> stored_profiles \<Rightarrow> string \<Rightarrow> cli_state \<Rightarrow> tui_step" where
  "runProfile url now store raw s =
     (let ws = words (trim raw); action = (case word_at ws 1 of Some a \<Rightarrow> toLowerCase a | None \<Rightarrow> [])
      in if action = [] \<or> action = ''help'' then
           (s, [Out_line ''usage:'', Out_line ''  /profiles                       list profiles'',
                Out_line ''  /profile add <name> <ws-url> [tmux|ghostty|console]'', Out_line ''  /profile use <name>'',
                Out_line ''  /profile rm <name>'', Out_line ''  /profile token [name]''])
         else if action = ''add'' then profile_add url now store ws s
         else if action = ''rm'' \<or> action = ''remove'' then profile_remove store ws s
         else if action = ''use'' then profile_use store ws s
         else if action = ''token'' then profile_token store ws s
         else (s, [Out_line ''unknown /profile action; /profile help'']))"

subsection \<open>A line\<close>

text \<open>
  Of \<open>/help\<close>, \<open>/list\<close>, \<open>/profiles\<close>, \<open>/health\<close>, \<open>/open\<close> and \<open>/status\<close>, which leave the state alone, only the call of the client is
  an effect of the model.
\<close>

definition runCommand :: "full_url_parser \<Rightarrow> jsnum \<Rightarrow> stored_profiles \<Rightarrow> string \<Rightarrow> cli_state \<Rightarrow> tui_step" where
  "runCommand url now store raw s =
     (case command_of raw of
        Cmd_list \<Rightarrow> (s, case cs_client s of None \<Rightarrow> [] | Some c \<Rightarrow> [Client_call c Api_listSessions])
      | Cmd_attach_usage \<Rightarrow> (s, [Out_line ''usage: /attach <pane-id>''])
      | Cmd_attach_pane pane \<Rightarrow> attachPane pane s
      | Cmd_detach_pane \<Rightarrow> detachCurrentPane s
      | Cmd_profile r \<Rightarrow> runProfile url now store r s
      | Cmd_enable \<Rightarrow> call_client s Api_enableInput
      | Cmd_disable \<Rightarrow> call_client s Api_disableInput
      | Cmd_token \<Rightarrow> (s, [Ask_token])
      | Cmd_token_usage \<Rightarrow> (s, [Out_line ''usage: /token''])
      | Cmd_reconnect \<Rightarrow> reconnectNow s
      | Cmd_backend \<Rightarrow> (s, [Out_line (''local backend preference: '' @ cs_backend s)])
      | Cmd_quit \<Rightarrow> (let (s1, fx) = disconnectCleanly s in (s1, if cs_client s1 = None then fx @ [Exit_process] else fx))
      | Cmd_unknown \<Rightarrow> (s, [Out_line ''unknown command; /help for options''])
      | _ \<Rightarrow> (s, []))"

definition line_entered :: "full_url_parser \<Rightarrow> jsnum \<Rightarrow> stored_profiles \<Rightarrow> string \<Rightarrow> cli_state \<Rightarrow> tui_step" where
  "line_entered url now store rawLine s =
     (let trimmed = trim rawLine
      in if trimmed = [] then (s, [])
         else if startsWith trimmed ''/'' then runCommand url now store trimmed s
         else runInputCommand trimmed s)"

section \<open>Events\<close>

datatype tui_event =
    Started
  | Reconnect_timer
  | Boot_loaded nat
  | Boot_load_failed nat client_error
  | Boot_connected nat "cli_hello option" "string option"
  | Boot_connect_failed nat client_error
  | Boot_token nat "string option"
  | Boot_authenticated nat "cli_hello option"
  | Boot_auth_failed nat client_error
  | Boot_listed nat
  | Client_hello
  | Client_policy bool bool
  | Client_output string int string
  | Client_closed int string
  | Line_entered stored_profiles string
  | Attach_settled string "client_error option"
  | Detach_settled "client_error option"
  | Policy_settled bool "(client_error, bool \<times> bool) result"
  | Token_answered "string option"
  | Auth_settled string "client_error option"
  | Profile_token_answered string "string option"
  | Disconnect_called
  | Disconnect_settled bool bool
  | Switch_settled bool

definition on_boot :: "nat \<Rightarrow> cli_state \<Rightarrow> (boot_origin \<Rightarrow> boot_stage \<Rightarrow> tui_step) \<Rightarrow> tui_step" where
  "on_boot b s f = (case map_of (cs_boots s) b of None \<Rightarrow> (s, []) | Some (origin, stage) \<Rightarrow> f origin stage)"

definition at_stage :: "boot_stage \<Rightarrow> boot_stage \<Rightarrow> cli_state \<Rightarrow> tui_step \<Rightarrow> tui_step" where
  "at_stage stage expected s r = (if stage = expected then r else (s, []))"

fun tui_handle :: "(jsval \<Rightarrow> string) \<Rightarrow> full_url_parser \<Rightarrow> int \<Rightarrow> int \<Rightarrow> cli_state \<Rightarrow> tui_event \<Rightarrow> tui_step" where
  "tui_handle str url now jitter s Started =
     (begin_boot From_main (s\<lparr>cs_userRequestedClose := False, cs_reconnectAttempts := 0\<rparr>), [])"
| "tui_handle str url now jitter s Reconnect_timer = reconnect_timer_fired now jitter s"
| "tui_handle str url now jitter s (Boot_loaded b) = on_boot b s (\<lambda>o1 st. at_stage st Loading s (boot_loaded b s))"
| "tui_handle str url now jitter s (Boot_load_failed b e) =
     on_boot b s (\<lambda>o1 st. at_stage st Loading s (boot_rejected str o1 e now jitter (end_boot b s)))"
| "tui_handle str url now jitter s (Boot_connected b hello who) =
     on_boot b s (\<lambda>o1 st. at_stage st Connecting s (boot_connected b hello who s))"
| "tui_handle str url now jitter s (Boot_connect_failed b e) =
     on_boot b s (\<lambda>o1 st. at_stage st Connecting s (boot_failed str b o1 e now jitter s))"
| "tui_handle str url now jitter s (Boot_token b answer) =
     on_boot b s (\<lambda>o1 st. at_stage st Prompting s (boot_token str b o1 answer now jitter s))"
| "tui_handle str url now jitter s (Boot_authenticated b hello) =
     on_boot b s (\<lambda>o1 st. case st of Authenticating t \<Rightarrow> boot_authenticated b t hello s | _ \<Rightarrow> (s, []))"
| "tui_handle str url now jitter s (Boot_auth_failed b e) =
     on_boot b s (\<lambda>o1 st. case st of
       Authenticating t \<Rightarrow> boot_failed str b o1 e now jitter (s\<lparr>cs_authToken := None\<rparr>) | _ \<Rightarrow> (s, []))"
| "tui_handle str url now jitter s (Boot_listed b) = on_boot b s (\<lambda>o1 st. at_stage st Listing s (boot_listed b o1 s))"
| "tui_handle str url now jitter s Client_hello = (s\<lparr>cs_connected := True\<rparr>, [])"
| "tui_handle str url now jitter s (Client_policy enabled disabled) = (client_policy_update enabled disabled s, [])"
| "tui_handle str url now jitter s (Client_output paneId sq chunk) = client_output paneId sq chunk s"
| "tui_handle str url now jitter s (Client_closed code reason) = client_closed code reason now jitter s"
| "tui_handle str url now jitter s (Line_entered store raw) = line_entered url (Fin (of_int now)) store raw s"
| "tui_handle str url now jitter s (Attach_settled pane e) = attach_settled str pane e s"
| "tui_handle str url now jitter s (Detach_settled e) = detach_settled str e s"
| "tui_handle str url now jitter s (Policy_settled enable r) = input_policy_settled str enable r s"
| "tui_handle str url now jitter s (Token_answered answer) = runAuth_answer answer s"
| "tui_handle str url now jitter s (Auth_settled candidate e) = runAuth_settled str candidate e s"
| "tui_handle str url now jitter s (Profile_token_answered name answer) = profile_token_answer name answer s"
| "tui_handle str url now jitter s Disconnect_called = disconnectCleanly s"
| "tui_handle str url now jitter s (Disconnect_settled ok leave) =
     (let (s1, fx) = disconnect_settled ok s in (s1, if leave \<and> fx \<noteq> [Type_error] then fx @ [Exit_process] else fx))"
| "tui_handle str url now jitter s (Switch_settled ok) = switch_settled ok s"

primrec tui_run :: "(jsval \<Rightarrow> string) \<Rightarrow> full_url_parser \<Rightarrow> cli_state \<Rightarrow> (int \<times> int \<times> tui_event) list \<Rightarrow> tui_step" where
  "tui_run str url s [] = (s, [])"
| "tui_run str url s (x # xs) =
     (let (s1, fx) = tui_handle str url (fst x) (fst (snd x)) s (snd (snd x)); (s2, fx2) = tui_run str url s1 xs in (s2, fx @ fx2))"

section \<open>Discipline of reconnecting\<close>

text \<open>
  The reconnect counters are bounded, a cooldown ends at most 45 seconds from now, nothing is scheduled after the user has
  asked to close, and every timer set has a delay in its range.
\<close>

definition tui_ok :: "int \<Rightarrow> cli_state \<Rightarrow> bool" where
  "tui_ok now s \<longleftrightarrow> cs_reconnectAttempts s \<le> RECONNECT_ATTEMPTS_MAX \<and> cs_reconnectFailures s < RECONNECT_FAILURE_THRESHOLD
     \<and> cs_reconnectCooldownUntil s \<le> max 0 (now + RECONNECT_COOLDOWN_MS)
     \<and> (cs_userRequestedClose s \<longrightarrow> cs_reconnectTimer s = None)"

fun delay_ok :: "tui_effect \<Rightarrow> bool" where
  "delay_ok (Timer_set Reconnect_attempt d) \<longleftrightarrow> 1000 \<le> d \<and> d < 20250"
| "delay_ok (Timer_set Cooldown_wait d) \<longleftrightarrow> 0 < d \<and> d < 45250"
| "delay_ok _ \<longleftrightarrow> True"

definition tui_step_ok :: "int \<Rightarrow> tui_step \<Rightarrow> bool" where
  "tui_step_ok now r \<longleftrightarrow> tui_ok now (fst r) \<and> list_all delay_ok (snd r)"

lemmas reconnect_constants = RECONNECT_ATTEMPTS_MAX_def RECONNECT_COOLDOWN_MS_def RECONNECT_FAILURE_THRESHOLD_def
  RECONNECT_BASE_MS_def RECONNECT_MAX_MS_def

lemma backoff_range:
  assumes "0 \<le> jitter" "jitter < 250"
  shows "1000 \<le> min 20000 (1000 * 2 ^ n) + (jitter :: int) \<and> min 20000 (1000 * 2 ^ n) + jitter < 20250"
proof -
  have "(1000 :: int) \<le> 1000 * 2 ^ n" by simp
  then have "1000 \<le> min 20000 (1000 * 2 ^ n :: int)" "min 20000 (1000 * 2 ^ n :: int) \<le> 20000" by simp_all
  then show ?thesis using assms by linarith
qed

lemma scheduleReconnect_ok:
  assumes "tui_ok now s" "0 \<le> now" "0 \<le> jitter" "jitter < 250"
  shows "tui_step_ok now (scheduleReconnect now jitter s)"
    "\<not> cs_userRequestedClose s \<Longrightarrow> cs_reconnectTimer (fst (scheduleReconnect now jitter s)) \<noteq> None"
proof -
  have plain: "tui_step_ok now (scheduleReconnect now jitter t)
      \<and> (\<not> cs_userRequestedClose t \<longrightarrow> cs_reconnectTimer (fst (scheduleReconnect now jitter t)) \<noteq> None)"
    if "tui_ok now t" "cs_reconnectAttempts t < RECONNECT_ATTEMPTS_MAX \<or> now < cs_reconnectCooldownUntil t" for t
    using that assms(2-4) backoff_range [OF assms(3,4), of "cs_reconnectAttempts t"]
    by (subst (1 2) scheduleReconnect.simps) (auto simp: tui_step_ok_def tui_ok_def Let_def reconnect_constants)
  show "tui_step_ok now (scheduleReconnect now jitter s)"
    "\<not> cs_userRequestedClose s \<Longrightarrow> cs_reconnectTimer (fst (scheduleReconnect now jitter s)) \<noteq> None"
  proof -
    let ?s1 = "s\<lparr>cs_reconnectCooldownUntil := now + RECONNECT_COOLDOWN_MS, cs_reconnectAttempts := 0, cs_reconnectFailures := 0\<rparr>"
    have "tui_ok now ?s1" using assms(1) by (simp add: tui_ok_def reconnect_constants)
    then have s1: "tui_step_ok now (scheduleReconnect now jitter ?s1)
        \<and> (\<not> cs_userRequestedClose ?s1 \<longrightarrow> cs_reconnectTimer (fst (scheduleReconnect now jitter ?s1)) \<noteq> None)"
      by (rule plain) (simp add: reconnect_constants)
    have all: "tui_step_ok now (scheduleReconnect now jitter s)
        \<and> (\<not> cs_userRequestedClose s \<longrightarrow> cs_reconnectTimer (fst (scheduleReconnect now jitter s)) \<noteq> None)"
    proof (cases "cs_reconnectAttempts s < RECONNECT_ATTEMPTS_MAX \<or> now < cs_reconnectCooldownUntil s")
      case True
      then show ?thesis by (rule plain [OF assms(1)])
    next
      case False
      then show ?thesis
        using assms(1) s1 by (subst (1 2) scheduleReconnect.simps) (auto simp: tui_step_ok_def Let_def split: prod.split)
    qed
    then show "tui_step_ok now (scheduleReconnect now jitter s)"
      "\<not> cs_userRequestedClose s \<Longrightarrow> cs_reconnectTimer (fst (scheduleReconnect now jitter s)) \<noteq> None" by auto
  qed
qed

text \<open>Most handlers leave the state of reconnecting alone, or only disarm the timer or reset the counters.\<close>

definition calmer :: "cli_state \<Rightarrow> cli_state \<Rightarrow> bool" where
  "calmer s s' \<longleftrightarrow> cs_reconnectAttempts s' \<le> cs_reconnectAttempts s \<and> cs_reconnectFailures s' \<le> cs_reconnectFailures s
     \<and> cs_reconnectCooldownUntil s' \<le> max 0 (cs_reconnectCooldownUntil s)
     \<and> (cs_reconnectTimer s' = None \<or> cs_reconnectTimer s' = cs_reconnectTimer s \<and> cs_userRequestedClose s' \<le> cs_userRequestedClose s)"

lemma calmer_ok: "tui_ok now s \<Longrightarrow> calmer s s' \<Longrightarrow> tui_ok now s'"
  by (auto simp: tui_ok_def calmer_def)

lemma calmer_step: "tui_ok now s \<Longrightarrow> calmer s (fst r) \<Longrightarrow> list_all delay_ok (snd r) \<Longrightarrow> tui_step_ok now r"
  using calmer_ok by (simp add: tui_step_ok_def)

lemma bootstrap_catch_ok:
  assumes "tui_ok now s"
  shows "tui_step_ok now (bootstrap_catch e now s)"
  using assms by (auto simp: bootstrap_catch_def tui_step_ok_def tui_ok_def Let_def reconnect_constants)

lemma boot_rejected_ok:
  assumes "tui_ok now s" "0 \<le> now" "0 \<le> jitter" "jitter < 250"
  shows "tui_step_ok now (boot_rejected str origin e now jitter s)"
proof -
  have "tui_step_ok now (scheduleReconnect now jitter s)" by (rule scheduleReconnect_ok(1) [OF assms])
  then show ?thesis
    using assms(1) by (auto simp: boot_rejected_def tui_step_ok_def tui_ok_def split: boot_origin.split prod.split)
qed

lemma end_boot_ok [simp]: "tui_ok now (end_boot b s) = tui_ok now s"
  by (simp add: end_boot_def tui_ok_def)

lemma boot_failed_ok:
  assumes "tui_ok now s" "0 \<le> now" "0 \<le> jitter" "jitter < 250"
  shows "tui_step_ok now (boot_failed str b origin e now jitter s)"
proof -
  obtain s1 fx where c: "bootstrap_catch e now s = (s1, fx)" by fastforce
  then have "tui_ok now (end_boot b s1)" "list_all delay_ok fx"
    using bootstrap_catch_ok [OF assms(1), of e] by (simp_all add: tui_step_ok_def)
  with boot_rejected_ok [OF this(1) assms(2-4), of str origin e] show ?thesis
    by (auto simp: boot_failed_def c tui_step_ok_def split: prod.split)
qed

lemma profile_effects_ok [simp]: "list_all delay_ok (profile_effects s f)"
  by (simp add: profile_effects_def split: option.split)

lemmas quiet_defs = begin_boot_def set_stage_def end_boot_def stopHeartbeat_def startHeartbeat_def

lemma boot_calm:
  "calmer s (fst (boot_loaded b s))" "calmer s (fst (boot_ready b hello s))" "calmer s (fst (boot_connected b hello who s))"
  "calmer s (fst (boot_authenticated b t hello s))" "calmer s (fst (boot_listed b origin s))" "calmer s (begin_boot origin s)"
  "list_all delay_ok (snd (boot_loaded b s))" "list_all delay_ok (snd (boot_ready b hello s))"
  "list_all delay_ok (snd (boot_connected b hello who s))" "list_all delay_ok (snd (boot_authenticated b t hello s))"
  "list_all delay_ok (snd (boot_listed b origin s))"
  by (auto simp: calmer_def boot_loaded_def boot_ready_def boot_connected_def boot_authenticated_def boot_listed_def Let_def quiet_defs
      split: option.split prod.split boot_origin.split)

lemma reconnectNow_calm: "calmer s (fst (reconnectNow s))" "list_all delay_ok (snd (reconnectNow s))"
  by (auto simp: calmer_def reconnectNow_def quiet_defs)

lemma disconnect_calm: "calmer s (fst (disconnectCleanly s))" "list_all delay_ok (snd (disconnectCleanly s))"
  by (auto simp: calmer_def disconnectCleanly_def quiet_defs Let_def split: option.split)

lemma timer_ok:
  assumes "tui_ok now s" "0 \<le> now" "0 \<le> jitter" "jitter < 250"
  shows "tui_step_ok now (reconnect_timer_fired now jitter s)"
proof -
  have "tui_ok now (s\<lparr>cs_reconnectTimer := None\<rparr>)" using assms(1) by (simp add: tui_ok_def)
  from scheduleReconnect_ok(1) [OF this assms(2-4)] show ?thesis
    using assms(1) by (auto simp: reconnect_timer_fired_def Let_def tui_step_ok_def tui_ok_def quiet_defs
        split: option.split timer_kind.split)
qed

text \<open>The state just before \<open>client_closed\<close> may schedule.\<close>

definition after_close :: "int \<Rightarrow> string \<Rightarrow> cli_state \<Rightarrow> cli_state" where
  "after_close code reason s =
     (let s1 = (stopHeartbeat (s\<lparr>cs_connected := False\<rparr>))\<lparr>cs_client := None, cs_hello := None, cs_activePane := None\<rparr>
      in if isAuthenticationClose reason code
         then s1\<lparr>cs_authFailureBlocked := True, cs_authToken := None, cs_reconnectTimer := None\<rparr> else s1)"

lemma client_closed_ok:
  assumes "tui_ok now s" "0 \<le> now" "0 \<le> jitter" "jitter < 250"
  shows "tui_step_ok now (client_closed code reason now jitter s)"
    "\<not> cs_userRequestedClose s \<Longrightarrow> \<not> cs_authFailureBlocked s \<Longrightarrow> \<not> isAuthenticationClose reason code \<Longrightarrow>
       cs_reconnectTimer (fst (client_closed code reason now jitter s)) \<noteq> None"
proof -
  have "tui_ok now (after_close code reason s)" using assms(1) by (simp add: tui_ok_def after_close_def Let_def quiet_defs)
  note sched = scheduleReconnect_ok [OF this assms(2-4)]
  show "tui_step_ok now (client_closed code reason now jitter s)"
    using sched(1) \<open>tui_ok now (after_close code reason s)\<close>
    by (auto simp: client_closed_def after_close_def Let_def tui_step_ok_def split: prod.split if_splits)
  show "cs_reconnectTimer (fst (client_closed code reason now jitter s)) \<noteq> None"
    if "\<not> cs_userRequestedClose s" "\<not> cs_authFailureBlocked s" "\<not> isAuthenticationClose reason code"
    using sched(2) that by (auto simp: client_closed_def after_close_def Let_def quiet_defs split: prod.split)
qed

lemma calmer_refl [simp]: "calmer s s"
  by (auto simp: calmer_def)

lemma calmer_fields:
  assumes "cs_reconnectAttempts s' = cs_reconnectAttempts s" "cs_reconnectFailures s' = cs_reconnectFailures s"
    "cs_reconnectCooldownUntil s' = cs_reconnectCooldownUntil s" "cs_reconnectTimer s' = cs_reconnectTimer s"
    "cs_userRequestedClose s' = cs_userRequestedClose s"
  shows "calmer s s'"
  using assms by (simp add: calmer_def)

lemma calmer_trans:
  assumes "calmer s t" "calmer t u"
  shows "calmer s u"
  using assms unfolding calmer_def by auto

lemma adopt_calm: "calmer s (adopt_profile sel s)" "calmer s ((adopt_profile sel s)\<lparr>cs_authToken := x\<rparr>)"
  by (auto simp: adopt_profile_def intro!: calmer_fields split: option.split)

lemma profile_add_calm: "calmer s (fst (profile_add url t store ws s))" "list_all delay_ok (snd (profile_add url t store ws s))"
  by (auto simp: profile_add_def Let_def adopt_calm split: option.split)

lemma profile_use_calm: "calmer s (fst (profile_use store ws s))" "list_all delay_ok (snd (profile_use store ws s))"
proof -
  have "calmer s (fst (disconnectCleanly ((adopt_profile sel s)\<lparr>cs_authToken := x\<rparr>)))"
    "calmer s (fst (reconnectNow ((adopt_profile sel s)\<lparr>cs_authToken := x\<rparr>)))" for sel x
    using calmer_trans adopt_calm disconnect_calm(1) reconnectNow_calm(1) by blast+
  then show "calmer s (fst (profile_use store ws s))" "list_all delay_ok (snd (profile_use store ws s))"
    using disconnect_calm(2) reconnectNow_calm(2)
    by (auto simp: profile_use_def Let_def split: option.split prod.split) (metis fst_conv snd_conv)+
qed

lemma runProfile_calm: "calmer s (fst (runProfile url t store raw s))" "list_all delay_ok (snd (runProfile url t store raw s))"
  using profile_add_calm profile_use_calm
  by (auto simp: runProfile_def Let_def profile_remove_def profile_token_def intro!: calmer_fields split: option.split)

lemma runInput_calm: "fst (runInputCommand raw s) = s" "list_all delay_ok (snd (runInputCommand raw s))"
  by (simp_all add: runInputCommand_def Let_def split: option.split)

lemma line_entered_calm:
  "calmer s (fst (line_entered url t store raw s))" "list_all delay_ok (snd (line_entered url t store raw s))"
  using runProfile_calm reconnectNow_calm disconnect_calm
  by (auto simp: line_entered_def Let_def runInput_calm runCommand_def call_client_def attachPane_def detachCurrentPane_def
      split: tui_command.split option.split prod.split) (metis fst_conv snd_conv)+

lemma disconnect_settled_calm:
  "calmer s (fst (disconnect_settled ok s))" "list_all delay_ok (snd (disconnect_settled ok s))"
  "cs_reconnectTimer (fst (disconnect_settled ok s)) = cs_reconnectTimer s"
  by (auto simp: disconnect_settled_def intro!: calmer_fields)

lemma switch_settled_calm: "calmer s (fst (switch_settled ok s))" "list_all delay_ok (snd (switch_settled ok s))"
proof -
  obtain s1 fx where d: "disconnect_settled ok s = (s1, fx)" by fastforce
  have c: "calmer s s1" "list_all delay_ok fx" using disconnect_settled_calm(1,2) [where s = s and ok = ok] d by auto
  have "calmer s1 (s1\<lparr>cs_userRequestedClose := False\<rparr>)" by (auto simp: calmer_def)
  then have "calmer s (fst (reconnectNow (s1\<lparr>cs_userRequestedClose := False\<rparr>)))"
    using calmer_trans c(1) reconnectNow_calm(1) by blast
  then show "calmer s (fst (switch_settled ok s))" "list_all delay_ok (snd (switch_settled ok s))"
    using c reconnectNow_calm(2) [of "s1\<lparr>cs_userRequestedClose := False\<rparr>"]
    by (auto simp: switch_settled_def d Let_def split: prod.split)
qed

lemma answers_calm:
  "calmer s (fst (attach_settled str pane e s))" "calmer s (fst (detach_settled str e s))"
  "calmer s (fst (input_policy_settled str enable r s))" "calmer s (fst (runAuth_answer answer s))"
  "calmer s (fst (runAuth_settled str candidate e s))" "calmer s (fst (profile_token_answer name answer s))"
  "calmer s (fst (client_output pane n chunk s))" "calmer s (client_policy_update a b s)" "calmer s (s\<lparr>cs_connected := True\<rparr>)"
  by (auto simp: attach_settled_def detach_settled_def input_policy_settled_def runAuth_answer_def runAuth_settled_def
      profile_token_answer_def client_output_def client_policy_update_def begin_boot_def Let_def intro!: calmer_fields
      split: option.split sum.split prod.split)

lemma answers_delay:
  "list_all delay_ok (snd (attach_settled str pane e s))" "list_all delay_ok (snd (detach_settled str e s))"
  "list_all delay_ok (snd (input_policy_settled str enable r s))" "list_all delay_ok (snd (runAuth_answer answer s))"
  "list_all delay_ok (snd (runAuth_settled str candidate e s))" "list_all delay_ok (snd (profile_token_answer name answer s))"
  "list_all delay_ok (snd (client_output pane n chunk s))"
  by (simp_all add: attach_settled_def detach_settled_def input_policy_settled_def runAuth_answer_def runAuth_settled_def
      profile_token_answer_def client_output_def Let_def split: option.split sum.split prod.split)

lemma on_boot_ok:
  assumes "tui_ok now s" "\<And>o1 st. map_of (cs_boots s) b = Some (o1, st) \<Longrightarrow> tui_step_ok now (f o1 st)"
  shows "tui_step_ok now (on_boot b s f)"
  using assms by (auto simp: on_boot_def tui_step_ok_def split: option.split)

lemma at_stage_ok: "tui_ok now s \<Longrightarrow> tui_step_ok now r \<Longrightarrow> tui_step_ok now (at_stage st st' s r)"
  by (simp add: at_stage_def tui_step_ok_def)

lemma boot_token_ok:
  assumes "tui_ok now s" "0 \<le> now" "0 \<le> jitter" "jitter < 250"
  shows "tui_step_ok now (boot_token str b origin answer now jitter s)"
  using boot_failed_ok [OF assms] assms(1) by (auto simp: boot_token_def tui_step_ok_def tui_ok_def set_stage_def split: option.split)

lemma tui_handle_ok:
  assumes "tui_ok now s" "0 \<le> now" "0 \<le> jitter" "jitter < 250"
  shows "tui_step_ok now (tui_handle str url now jitter s e)"
proof -
  have calm: "tui_step_ok now r" if "calmer s (fst r)" "list_all delay_ok (snd r)" for r
    using calmer_step [OF assms(1) that] .
  have idle: "tui_step_ok now (s, [])" using assms(1) by (simp add: tui_step_ok_def)
  have start: "calmer s (begin_boot From_main (s\<lparr>cs_userRequestedClose := False, cs_reconnectAttempts := 0\<rparr>))"
    by (auto simp: calmer_def begin_boot_def)
  have token: "tui_ok now (s\<lparr>cs_authToken := None\<rparr>)" using assms(1) by (simp add: tui_ok_def)
  have left: "tui_step_ok now (case disconnect_settled ok s of (s1, fx) \<Rightarrow> (s1, if leave \<and> fx \<noteq> [Type_error] then fx @ [Exit_process] else fx))"
    for ok leave
    using disconnect_settled_calm(1,2) [where s = s and ok = ok] calmer_ok [OF assms(1)] by (auto simp: tui_step_ok_def split: prod.split)
  note boots = on_boot_ok [OF assms(1)] at_stage_ok [OF assms(1)]
  show ?thesis
  proof (cases e)
    case (Boot_authenticated b hello)
    then show ?thesis by (auto intro!: boots(1) calm boot_calm(4,10) idle split: boot_stage.split)
  next
    case (Boot_auth_failed b x)
    then show ?thesis
      by (auto intro!: boots(1) boot_failed_ok [OF token assms(2-4)] idle split: boot_stage.split)
  next
    case (Boot_load_failed b x)
    then show ?thesis using assms by (auto intro!: boots boot_rejected_ok)
  next
    case (Boot_connect_failed b x)
    then show ?thesis using assms by (auto intro!: boots boot_failed_ok)
  next
    case (Boot_token b answer)
    then show ?thesis using assms by (auto intro!: boots boot_token_ok)
  next
    case Reconnect_timer
    then show ?thesis using timer_ok [OF assms] by simp
  next
    case (Client_closed code reason)
    then show ?thesis using client_closed_ok(1) [OF assms] by simp
  qed (use assms start left in \<open>auto intro!: calm boots answers_calm answers_delay boot_calm
        line_entered_calm switch_settled_calm disconnect_calm simp: Let_def\<close>)
qed

fun clocked :: "int \<Rightarrow> (int \<times> int \<times> tui_event) list \<Rightarrow> bool" where
  "clocked t [] = True"
| "clocked t ((now, jitter, e) # xs) = (t \<le> now \<and> 0 \<le> jitter \<and> jitter < 250 \<and> clocked now xs)"

lemma tui_ok_later: "tui_ok t s \<Longrightarrow> t \<le> now \<Longrightarrow> tui_ok now s"
  by (auto simp: tui_ok_def)

lemma tui_run_ok:
  assumes "tui_ok t s" "0 \<le> t" "clocked t (xs @ [(now, jitter, e)])" "tui_run str url s xs = (s', fx)"
  shows "tui_ok now s' \<and> list_all delay_ok fx \<and> 0 \<le> now \<and> 0 \<le> jitter \<and> jitter < 250"
  using assms
proof (induction xs arbitrary: t s s' fx)
  case Nil
  then show ?case by (auto intro: tui_ok_later)
next
  case (Cons x xs)
  obtain n j e1 where x: "x = (n, j, e1)" by (cases x) auto
  obtain s1 fx1 where h: "tui_handle str url n j s e1 = (s1, fx1)" by fastforce
  obtain s2 fx2 where r: "tui_run str url s1 xs = (s2, fx2)" by fastforce
  have n: "t \<le> n" "0 \<le> n" "0 \<le> j" "j < 250" "clocked n (xs @ [(now, jitter, e)])" using Cons.prems x by auto
  have "tui_step_ok n (s1, fx1)"
    using tui_handle_ok [OF tui_ok_later [OF Cons.prems(1) n(1)] n(2-4), of str url e1] h by simp
  then have ok: "tui_ok n s1" "list_all delay_ok fx1" by (simp_all add: tui_step_ok_def)
  from Cons.IH [OF ok(1) n(2,5) r] show ?case using Cons.prems(4) ok(2) by (auto simp: x h r Let_def)
qed


definition demo_closes :: "(int \<times> int \<times> tui_event) list" where
  "demo_closes = [(0, 0, Started), (1, 0, Boot_loaded 0), (2, 0, Boot_connected 0 None None), (3, 0, Boot_listed 0),
     (10, 7, Client_closed 1006 ''gone''), (1017, 0, Reconnect_timer), (1018, 0, Boot_loaded 1),
     (1020, 9, Boot_connect_failed 1 (Plain_error ''refused''))]"


section \<open>Where the discipline has gaps\<close>

text \<open>
  When the first connection of a session fails, the announced automatic reconnect is not scheduled, and \<open>/reconnect\<close> is
  refused because \<open>state.client\<close> still holds the closed client.
\<close>

theorem first_failure_is_final:
  assumes "\<not> isAuthenticationError e"
    and s_def: "s = fst (tui_run str url createInitialCliState [(0, 0, Started), (0, 0, Boot_loaded 0), (t, 0, Boot_connect_failed 0 e)])"
  shows "cs_reconnectTimer s = None \<and> cs_boots s = []
    \<and> tui_handle str url now jitter s (Line_entered store ''/reconnect'')
        = (s, [Out_line ''already connected; use /token for auth or /quit then /reconnect''])"
proof -
  have c: "command_of ''/reconnect'' = Cmd_reconnect" "trim ''/reconnect'' = ''/reconnect''" "startsWith ''/reconnect'' ''/''"
    by code_simp+
  have "cs_reconnectTimer s = None" "cs_boots s = []" "cs_client s = Some 0"
    using assms(1)
    by (simp_all add: s_def createInitialCliState_def begin_boot_def on_boot_def at_stage_def boot_loaded_def set_stage_def
        boot_failed_def bootstrap_catch_def boot_rejected_def end_boot_def Let_def reconnect_constants)
  then show ?thesis using c by (simp add: line_entered_def Let_def runCommand_def reconnectNow_def)
qed

text \<open>A refused token blocks automatic reconnects only on paper: the timer is armed again.\<close>

theorem refused_token_still_retries:
  assumes "isAuthenticationError e" "map_of (cs_boots s) b = Some (From_timer, Authenticating t)" "cs_reconnectTimer s = None"
    "\<not> cs_userRequestedClose s" "0 \<le> now"
  shows "let s' = fst (tui_handle str url now 0 s (Boot_auth_failed b e))
    in cs_authFailureBlocked s' \<and> cs_reconnectTimer s' = Some (Reconnect_attempt, now + 1000)"
  using assms
  by (simp add: on_boot_def boot_failed_def bootstrap_catch_def boot_rejected_def end_boot_def scheduleReconnect.simps Let_def
      reconnect_constants split: prod.split)

text \<open>
  When the server closes the connection before the answer to \<open>disconnect\<close>, the close event has already dropped the client and
  the fallback of \<open>disconnectCleanly\<close> throws.
\<close>

theorem disconnect_after_close_throws:
  "snd (tui_handle str url now jitter (fst (tui_handle str url now jitter s (Client_closed code reason))) (Disconnect_settled False leave))
     = [Type_error]"
proof -
  have sched: "cs_client (fst (scheduleReconnect now jitter t)) = cs_client t" for t
    by (induction now jitter t rule: scheduleReconnect.induct)
      (subst scheduleReconnect.simps, auto simp: Let_def split: prod.split)
  have "cs_client (fst (client_closed code reason now jitter s)) = None"
    using sched [of "after_close code reason s"]
    by (auto simp: client_closed_def after_close_def Let_def split: prod.split if_splits)
  then show ?thesis by (simp add: disconnect_settled_def Let_def)
qed

end
