(* ===== verification/Tui_Args.thy ===== *)
theory Tui_Args
  imports Tui_Runtime
begin

text \<open>
  The start of the terminal client: the command line and the initial state of \<open>main\<close> (\<^verbatim>\<open>packages/commandrelay-tui/src/cli.ts\<close>) and the
  selection and the run of the QA sections (\<^verbatim>\<open>qa-mode.ts\<close>). The child processes of the QA mode are a function from a section and its
  arguments to an exit code, no value when the process could not be started; what is printed is left out.
\<close>

section \<open>QA sections\<close>

definition SECTION_ORDER :: "string list" where
  "SECTION_ORDER = [''deps'', ''ci'', ''release'', ''relay'', ''smoke'']"

definition tokenToSection :: "string \<Rightarrow> string option" where
  "tokenToSection token =
     (if token \<noteq> [] \<and> list_all is_digit token then
        (let i = digits_val 0 token in if 1 \<le> i \<and> i \<le> int (length SECTION_ORDER) then Some (SECTION_ORDER ! nat (i - 1)) else None)
      else if token = ''deps'' \<or> token = ''dependencies'' then Some ''deps''
      else if token = ''ci'' then Some ''ci''
      else if token = ''release'' then Some ''release''
      else if token = ''relay'' then Some ''relay''
      else if token = ''smoke'' then Some ''smoke''
      else None)"

fun section_loop :: "string list \<Rightarrow> string list \<Rightarrow> (string, string list) result" where
  "section_loop [] deduped = Inr deduped"
| "section_loop (token # tokens) deduped =
     (if token = ''all'' then Inr SECTION_ORDER
      else case tokenToSection token of
        None \<Rightarrow> Inl (''Unknown section: '' @ token @ ''. Use deps, ci, release, relay, smoke, all.'')
      | Some m \<Rightarrow> section_loop tokens (if m \<in> set deduped then deduped else deduped @ [m]))"

definition section_tokens :: "string \<Rightarrow> string list" where
  "section_tokens raw =
     filter (\<lambda>e. e \<noteq> []) (map (\<lambda>e. toLowerCase (trim e)) (concat (map (split_on CHR '' '') (split_on CHR '','' raw))))"

definition parseSections :: "string \<Rightarrow> (string, string list) result" where
  "parseSections raw = (if trim raw = [] then Inr [] else section_loop (section_tokens raw) [])"

definition resolveSelectedSections :: "string list \<Rightarrow> (string, string list) result" where
  "resolveSelectedSections raw =
     (if raw = [] then Inr SECTION_ORDER
      else bind_result (parseSections (join '','' raw)) (\<lambda>selected. Inr (if selected = [] then SECTION_ORDER else selected)))"

record runner_invocation =
  ri_command :: string
  ri_args :: "string list"
  ri_sectionArg :: string
  ri_skipInstallArg :: string

definition resolveRunnerInvocation ::
  "bool \<Rightarrow> bool \<Rightarrow> (string \<Rightarrow> bool) \<Rightarrow> string \<Rightarrow> string \<Rightarrow> (string, runner_invocation) result" where
  "resolveRunnerInvocation scripts windows commandExists bash_runner ps1_runner =
     (if \<not> scripts then Inl ''Production QA runner scripts are missing from scripts/ops.''
      else if windows then
        (case (if commandExists ''pwsh'' then Some ''pwsh'' else if commandExists ''powershell'' then Some ''powershell'' else None) of
           None \<Rightarrow> Inl ''No supported PowerShell executable found; install PowerShell 7+.''
         | Some c \<Rightarrow> Inr \<lparr>ri_command = c, ri_args = [''-NoProfile'', ''-NonInteractive'', ''-ExecutionPolicy'', ''Bypass'', ''-File'', ps1_runner],
             ri_sectionArg = ''-Section'', ri_skipInstallArg = ''-SkipInstall''\<rparr>)
      else Inr \<lparr>ri_command = ''bash'', ri_args = [bash_runner], ri_sectionArg = ''--section'', ri_skipInstallArg = ''--skip-install''\<rparr>)"

definition buildSectionInvocation :: "runner_invocation \<Rightarrow> string \<Rightarrow> bool \<Rightarrow> string list" where
  "buildSectionInvocation runner sect skipInstall =
     ri_args runner @ [ri_sectionArg runner, sect] @ (if skipInstall then [ri_skipInstallArg runner] else [])"

datatype qa_status = Qa_pass | Qa_fail

text \<open>The loop over the sections: the index decides whether the installation is skipped.\<close>

fun qa_loop ::
  "(string list \<Rightarrow> int option) \<Rightarrow> runner_invocation \<Rightarrow> bool \<Rightarrow> nat \<Rightarrow> string list \<Rightarrow> (string \<times> string list \<times> int option \<times> qa_status) list \<times> bool" where
  "qa_loop spawn runner skipInstall i [] = ([], True)"
| "qa_loop spawn runner skipInstall i (sect # sects) =
     (let args = buildSectionInvocation runner sect (skipInstall \<or> i > 0); exitCode = spawn args; passed = (exitCode = Some 0);
          (rest, all_passed) = qa_loop spawn runner skipInstall (Suc i) sects
      in ((sect, args, exitCode, if passed then Qa_pass else Qa_fail) # rest, passed \<and> all_passed))"

definition runProductionQaMode ::
  "(string list \<Rightarrow> int option) \<Rightarrow> (string, runner_invocation) result \<Rightarrow> string list \<Rightarrow> bool
   \<Rightarrow> (string, (string \<times> string list \<times> int option \<times> qa_status) list \<times> bool) result" where
  "runProductionQaMode spawn runner selectedSections skipInstall =
     bind_result (resolveSelectedSections selectedSections) (\<lambda>selected.
     bind_result runner (\<lambda>r. Inr (qa_loop spawn r skipInstall 0 selected)))"

section \<open>Command line\<close>

record cli_args =
  ca_explicitUrl :: bool
  ca_url :: string
  ca_profile :: "string option"
  ca_command :: string
  ca_backend :: "string option"
  ca_qaMode :: bool
  ca_qaSections :: "string list"
  ca_qaSkipInstall :: bool
  ca_qaArtifact :: "string option"

definition DEFAULT_WS_URL :: string where
  "DEFAULT_WS_URL = ''ws://127.0.0.1:8787/ws''"

definition default_args :: cli_args where
  "default_args = \<lparr>ca_explicitUrl = False, ca_url = DEFAULT_WS_URL, ca_profile = None, ca_command = [], ca_backend = None,
     ca_qaMode = False, ca_qaSections = [], ca_qaSkipInstall = False, ca_qaArtifact = None\<rparr>"

datatype args_outcome = Args cli_args | Args_error string | Args_help

text \<open>The leading separators a package runner leaves in front of the options.\<close>

fun skip_separators :: "string list \<Rightarrow> string list" where
  "skip_separators (a # b # rest) = (if a = ''--'' \<and> startsWith b ''--'' then skip_separators (b # rest) else a # b # rest)"
| "skip_separators argv = argv"

definition needs_value :: "string list \<Rightarrow> string \<Rightarrow> (string \<Rightarrow> args_outcome) \<Rightarrow> args_outcome" where
  "needs_value rest name k =
     (case rest of [] \<Rightarrow> Args_error (''missing '' @ name @ '' value'')
      | v # _ \<Rightarrow> if v = [] then Args_error (''missing '' @ name @ '' value'') else k v)"

function (sequential) parse_args :: "string list \<Rightarrow> cli_args \<Rightarrow> args_outcome" where
  "parse_args [] args = Args args"
| "parse_args (current # rest) args =
     (if current = ''--url'' then
        needs_value rest ''--url'' (\<lambda>v. parse_args (drop 1 rest) (args\<lparr>ca_url := v, ca_explicitUrl := True\<rparr>))
      else if current = ''--profile'' then
        needs_value rest ''--profile'' (\<lambda>v.
          if \<not> isValidProfileName v then Args_error (''invalid --profile '' @ [CHR 0x27] @ v @ [CHR 0x27])
          else parse_args (drop 1 rest) (args\<lparr>ca_profile := Some v\<rparr>))
      else if current = ''--backend'' then
        needs_value rest ''--backend'' (\<lambda>v.
          if \<not> isBackend v then Args_error (''invalid backend '' @ [CHR 0x27] @ v @ [CHR 0x27])
          else parse_args (drop 1 rest) (args\<lparr>ca_backend := Some v\<rparr>))
      else if current = ''--help'' \<or> current = ''-h'' then Args_help
      else if current = ''--qa'' then parse_args rest (args\<lparr>ca_qaMode := True\<rparr>)
      else if current = ''--qa-skip-install'' then parse_args rest (args\<lparr>ca_qaSkipInstall := True\<rparr>)
      else if current = ''--qa-artifact'' then
        needs_value rest ''--qa-artifact'' (\<lambda>v. parse_args (drop 1 rest) (args\<lparr>ca_qaArtifact := Some v\<rparr>))
      else if current = ''--qa-sections'' then
        needs_value rest ''--qa-sections'' (\<lambda>v.
          case resolveSelectedSections (ca_qaSections args @ [v]) of
            Inl e \<Rightarrow> Args_error e
          | Inr sects \<Rightarrow> parse_args (drop 1 rest) (args\<lparr>ca_qaSections := sects\<rparr>))
      else if current = ''--'' then Args (args\<lparr>ca_command := join '' '' rest\<rparr>)
      else if startsWith current ''--'' then Args_error (''unknown option '' @ [CHR 0x27] @ current @ [CHR 0x27])
      else Args (args\<lparr>ca_command := join '' '' (current # rest)\<rparr>))"
  by pat_completeness auto
termination by (relation "measure (\<lambda>(argv, args). length argv)") auto

definition parseArgs :: "string list \<Rightarrow> args_outcome" where
  "parseArgs argv = parse_args (skip_separators argv) default_args"

text \<open>The state \<open>main\<close> sets up before it connects; \<open>stored_token\<close> is \<open>resolveStoredAuthToken()\<close>.\<close>

definition main_state :: "bool \<Rightarrow> (string \<Rightarrow> bool) \<Rightarrow> stored_profiles \<Rightarrow> string option \<Rightarrow> cli_args \<Rightarrow> cli_state" where
  "main_state windows executable store stored_token args =
     (let sel = select_profile store (ca_profile args);
          s = createInitialCliState\<lparr>cs_activeProfile := sel, cs_backend := detectTerminalBackend windows executable (ca_backend args),
                cs_url := ca_url args\<rparr>;
          s1 = (case ap_selected sel of
                  None \<Rightarrow> s
                | Some p \<Rightarrow>
                    s\<lparr>cs_url := (if ca_explicitUrl args then cs_url s else pf_url p),
                      cs_backend := (case (ca_backend args, pf_backend p) of
                          (None, Some b) \<Rightarrow> (if b \<noteq> [] \<and> isBackend b then b else cs_backend s) | _ \<Rightarrow> cs_backend s),
                      cs_authToken := (case pf_authToken p of Some t \<Rightarrow> (if t \<noteq> [] then Some t else cs_authToken s) | None \<Rightarrow> cs_authToken s)\<rparr>)
      in case cs_authToken s1 of None \<Rightarrow> s1\<lparr>cs_authToken := stored_token\<rparr> | Some _ \<Rightarrow> s1)"

section \<open>What the parsers accept\<close>

lemma tokenToSection_known:
  assumes "tokenToSection t = Some m"
  shows "m \<in> set SECTION_ORDER"
proof (cases "t \<noteq> [] \<and> list_all is_digit t")
  case True
  then have "1 \<le> digits_val 0 t \<and> digits_val 0 t \<le> int (length SECTION_ORDER)" "m = SECTION_ORDER ! nat (digits_val 0 t - 1)"
    using assms by (simp_all add: tokenToSection_def Let_def split: if_splits)
  then show ?thesis using nth_mem [of "nat (digits_val 0 t - 1)" SECTION_ORDER] by auto
next
  case False
  then show ?thesis using assms by (auto simp: tokenToSection_def SECTION_ORDER_def split: if_splits)
qed

lemma section_loop_ok:
  "section_loop ts acc = Inr r \<Longrightarrow> distinct acc \<Longrightarrow> set acc \<subseteq> set SECTION_ORDER \<Longrightarrow> distinct r \<and> set r \<subseteq> set SECTION_ORDER"
proof (induction ts arbitrary: acc)
  case (Cons t ts)
  have order: "distinct SECTION_ORDER" by (simp add: SECTION_ORDER_def)
  show ?case
    using Cons order tokenToSection_known [of t] by (auto split: if_splits option.splits)
qed simp

theorem selected_sections_ok:
  assumes "resolveSelectedSections raw = Inr r"
  shows "r \<noteq> [] \<and> distinct r \<and> set r \<subseteq> set SECTION_ORDER"
proof -
  have order: "SECTION_ORDER \<noteq> [] \<and> distinct SECTION_ORDER" by (simp add: SECTION_ORDER_def)
  have "distinct x \<and> set x \<subseteq> set SECTION_ORDER" if "parseSections t = Inr x" for t x
    using that section_loop_ok [of "section_tokens t" "[]" x] by (auto simp: parseSections_def split: if_splits)
  then show ?thesis
    using assms order by (auto simp: resolveSelectedSections_def bind_result_Inr split: if_splits)
qed

text \<open>The QA mode runs the selected sections in order, passes exactly when every one exits with 0, and installs at most once.\<close>

theorem qa_mode_verdict:
  "map fst (fst (qa_loop spawn runner skip i sects)) = sects
   \<and> snd (qa_loop spawn runner skip i sects) = list_all (\<lambda>(_, _, code, status). code = Some 0) (fst (qa_loop spawn runner skip i sects))
   \<and> list_all (\<lambda>(sect, args, code, status). code = spawn args \<and> (status = Qa_pass \<longleftrightarrow> code = Some 0)) (fst (qa_loop spawn runner skip i sects))
   \<and> list_all (\<lambda>(sect, args, code, status). args = buildSectionInvocation runner sect True) (drop (if skip \<or> i > 0 then 0 else 1) (fst (qa_loop spawn runner skip i sects)))"
proof (induction sects arbitrary: i)
  case (Cons sect sects)
  show ?case using Cons.IH [of "Suc i"] by (auto simp: Let_def split: prod.split)
qed simp

subsection \<open>The options round trip\<close>

definition render_args :: "cli_args \<Rightarrow> string list" where
  "render_args a =
     (if ca_explicitUrl a then [''--url'', ca_url a] else [])
     @ (case ca_profile a of None \<Rightarrow> [] | Some p \<Rightarrow> [''--profile'', p])
     @ (case ca_backend a of None \<Rightarrow> [] | Some b \<Rightarrow> [''--backend'', b])
     @ (if ca_qaMode a then [''--qa''] else []) @ (if ca_qaSkipInstall a then [''--qa-skip-install''] else [])
     @ (case ca_qaArtifact a of None \<Rightarrow> [] | Some f \<Rightarrow> [''--qa-artifact'', f])
     @ [''--'', ca_command a]"

definition args_ok :: "cli_args \<Rightarrow> bool" where
  "args_ok a \<longleftrightarrow> (if ca_explicitUrl a then ca_url a \<noteq> [] else ca_url a = DEFAULT_WS_URL)
     \<and> (case ca_profile a of None \<Rightarrow> True | Some p \<Rightarrow> isValidProfileName p \<and> p \<noteq> [])
     \<and> (case ca_backend a of None \<Rightarrow> True | Some b \<Rightarrow> isBackend b)
     \<and> (case ca_qaArtifact a of None \<Rightarrow> True | Some f \<Rightarrow> f \<noteq> [])
     \<and> ca_qaSections a = [] \<and> \<not> startsWith (ca_command a) ''--''"

lemma isBackend_ne: "isBackend b \<Longrightarrow> b \<noteq> []"
  by (auto simp: isBackend_def)

lemma parse_option_steps:
  "u \<noteq> [] \<Longrightarrow> parse_args (''--url'' # u # r) a = parse_args r (a\<lparr>ca_url := u, ca_explicitUrl := True\<rparr>)"
  "p \<noteq> [] \<Longrightarrow> isValidProfileName p \<Longrightarrow> parse_args (''--profile'' # p # r) a = parse_args r (a\<lparr>ca_profile := Some p\<rparr>)"
  "isBackend b \<Longrightarrow> parse_args (''--backend'' # b # r) a = parse_args r (a\<lparr>ca_backend := Some b\<rparr>)"
  "parse_args (''--qa'' # r) a = parse_args r (a\<lparr>ca_qaMode := True\<rparr>)"
  "parse_args (''--qa-skip-install'' # r) a = parse_args r (a\<lparr>ca_qaSkipInstall := True\<rparr>)"
  "f \<noteq> [] \<Longrightarrow> parse_args (''--qa-artifact'' # f # r) a = parse_args r (a\<lparr>ca_qaArtifact := Some f\<rparr>)"
  "parse_args [''--'', c] a = Args (a\<lparr>ca_command := c\<rparr>)"
  by (simp_all add: needs_value_def isBackend_ne)

theorem args_roundtrip:
  assumes "args_ok a"
  shows "parseArgs (render_args a) = Args a"
proof -
  have skip: "skip_separators (render_args a) = render_args a"
    using assms by (auto simp: render_args_def args_ok_def startsWith_def split: option.split)
  show ?thesis
    using assms unfolding parseArgs_def skip
    by (cases a; cases "ca_profile a"; cases "ca_backend a"; cases "ca_qaArtifact a")
      (auto simp: render_args_def args_ok_def default_args_def parse_option_steps simp del: parse_args.simps split: if_splits)
qed

end
