(* ===== verification/Spec2Isabelle.thy ===== *)
theory Spec2Isabelle
  imports Agent_Brief Agent_Cache Agent_Dispatch Bridge_Client Bridge_Engine Bridge_Http Bridge_Server Bridge_Status Client_Guarantees Client_Server Client_Validation Cmux_Adapter Config Control_Plane Engine_Guarantees Engine_Replay Engine_Stream Engine_Sync Http_Client Js_Prelude Lane_Arbiter Message_Validation Orchestration_Tools Promise_Ledger Protocol Proxy_Adapters Proxy_Agent Proxy_Cli Proxy_Core Proxy_Dispatcher Proxy_Fetch Rate_Limiter Relay_Cli Relay_Guarantees Relay_Health Relay_Options Relay_Proxy Relay_Tls_Watch Runtime_Failures Runtime_Mux Server_Guarantees Server_Invariant Server_Lifecycle Server_Security Server_Utils Session_Metadata Ssh_Preflight Ssh_Session Ssh_Target Ssh_Tmux Startup Task_Capsule Telemetry Tmux_Adapter Tui_Args Tui_Profiles Tui_Runtime
begin

text \<open>
  CommandRelay: a verification of the bridge, its runtimes, its clients, the relay proxy and the proxy library.

  \<^bold>\<open>The program.\<close> CommandRelay lets remote clients watch and drive terminal panes. The \<^emph>\<open>bridge\<close> (\<^verbatim>\<open>src/\<close>) is a WebSocket
  server: clients authenticate, list sessions, attach to panes and type into them. Its \<^emph>\<open>engine\<close> polls the attached panes and streams
  snapshots and deltas with sequence numbers, so that a client can resume. \<^emph>\<open>Runtimes\<close> reach the panes: tmux on this host,
  tmux over SSH, cmux, or several of these behind a multiplexer. The \<^emph>\<open>client library\<close> (\<^verbatim>\<open>packages/commandrelay-client\<close>) speaks the
  protocol for programs, and the \<^emph>\<open>terminal client\<close> (\<^verbatim>\<open>packages/commandrelay-tui\<close>) uses it for a person. The \<^emph>\<open>relay proxy\<close>
  (\<^verbatim>\<open>packages/commandrelay-relay-proxy\<close>) forwards WebSocket connections to a bridge elsewhere. The \<^emph>\<open>proxy library\<close>
  (\<^verbatim>\<open>packages/proxy-*\<close>) chooses the outbound HTTP proxy from the environment for every HTTP client the project uses. The \<^emph>\<open>orchestration\<close> modules (\<^verbatim>\<open>src/orchestration\<close>) prepare tasks
  for agents that work on the repository.

  \<^bold>\<open>Theories and sources.\<close>
  \<^item> \<open>Js_Prelude\<close>: the part of JavaScript the code uses, with the lemmas all components share.
  \<^item> \<open>Bridge_Engine\<close>, \<open>Engine_Replay\<close>, \<open>Engine_Stream\<close>, \<open>Engine_Sync\<close>, \<open>Engine_Guarantees\<close>: \<^verbatim>\<open>src/bridge/bridge-engine.ts\<close>. Watchers live
    in a store of references, because asynchronous operations hold on to them; attach and poll are cut at their awaits and
    interleave. The lemmas: the event stream of a pane is gapless and the retained history a bounded suffix of it;
    what a replay delivers; that subscribers show the last captured text.
  \<^item> \<open>Protocol\<close>: \<^verbatim>\<open>packages/commandrelay-protocol/src/index.ts\<close>. Exactly which frames parse, and the round trip of envelopes.
  \<^item> \<open>Rate_Limiter\<close>, \<open>Message_Validation\<close>, \<open>Lane_Arbiter\<close>, \<open>Server_Utils\<close>, \<open>Runtime_Failures\<close>, \<open>Session_Metadata\<close>: the
    helpers under \<^verbatim>\<open>src/server/\<close>. The limiter against a reference that keeps the whole log, leases against the
    legacy map, and the functional behaviour of the rest.
  \<^item> \<open>Telemetry\<close>, \<open>Bridge_Status\<close>: \<^verbatim>\<open>src/telemetry/\<close>. Ring buffers against the sequence of samples; the layered status.
  \<^item> \<open>Bridge_Server\<close>, \<open>Server_Security\<close>, \<open>Server_Invariant\<close>, \<open>Server_Guarantees\<close>, \<open>Server_Lifecycle\<close>: \<^verbatim>\<open>src/server/bridge-server.ts\<close>, composed of all
    of the above. Connections, every message type, closing and polling are events of a run; the lemmas are the invariant of the
    state and the security properties (who may type, what an unauthenticated client can cause, what is audited, what a close leaves).
  \<^item> \<open>Tmux_Adapter\<close>, \<open>Ssh_Tmux\<close>, \<open>Cmux_Adapter\<close>: \<^verbatim>\<open>src/tmux/tmux-adapter.ts\<close>, \<^verbatim>\<open>src/runtime/ssh-tmux-adapter.ts\<close>,
    \<^verbatim>\<open>src/runtime/cmux-adapter.ts\<close>. The locale \<open>input_backend\<close> says what sending input means, \<open>tmux_transport\<close>
    how commands reach tmux; all three adapters interpret the first. The remote command line is split by a model of the POSIX shell's quoting
    into the words it was built from; the host key is verified before any ssh command.
  \<^item> \<open>Runtime_Mux\<close>: \<^verbatim>\<open>src/runtime/runtime-multiplexer.ts\<close>. Routing undoes namespacing.
  \<^item> \<open>Ssh_Target\<close>, \<open>Config\<close>, \<open>Ssh_Session\<close>: \<^verbatim>\<open>src/ssh/ssh-target.ts\<close>, \<^verbatim>\<open>src/config.ts\<close> with \<^verbatim>\<open>src/runtime/runtime-adapter-factory.ts\<close>,
    \<^verbatim>\<open>src/ssh/session-state-machine.ts\<close>. Which targets parse; what a configuration that passes the startup checks
    guarantees of the server and of the SSH adapter built from it; the runs of the session state machine.
  \<^item> \<open>Relay_Options\<close>, \<open>Relay_Tls_Watch\<close>, \<open>Relay_Proxy\<close>, \<open>Relay_Guarantees\<close>: \<^verbatim>\<open>packages/commandrelay-relay-proxy/src/index.ts\<close> and
    \<^verbatim>\<open>request-guards.ts\<close>. Options from the environment, the watch on TLS files, and the relay as handlers of events on a
    store of sessions: limits, exact statistics, order of frames, admission.
  \<^item> \<open>Proxy_Core\<close>, \<open>Agent_Cache\<close>, \<open>Proxy_Agent\<close>: \<^verbatim>\<open>packages/proxy-core\<close>, \<^verbatim>\<open>packages/proxy-agent\<close>, \<^verbatim>\<open>packages/proxy-runtime\<close>. \<open>NO_PROXY\<close> by labels; the
    cache behind the locale \<open>recency_cache\<close>; the factory and the controller as its client.
  \<^item> \<open>Proxy_Dispatcher\<close>, \<open>Proxy_Fetch\<close>, \<open>Proxy_Adapters\<close>, \<open>Http_Client\<close>: \<^verbatim>\<open>packages/proxy-undici\<close>, \<^verbatim>\<open>packages/proxy-fetch\<close>,
    \<^verbatim>\<open>packages/proxy-got\<close> and \<^verbatim>\<open>packages/proxy-axios\<close>, \<^verbatim>\<open>packages/proxy-http-client\<close>. Requests as machines over the events of
    the platform: each settles once, within its limits, and uses the agent or dispatcher of the resolved route. The locale
    \<open>agent_slots\<close> is what the adapters for got and axios share.
  \<^item> \<open>Proxy_Cli\<close>: \<^verbatim>\<open>packages/cli-proxy/src\<close>. The tool's explanation of a route is the route taken.
  \<^item> \<open>Control_Plane\<close>: \<^verbatim>\<open>src/control-plane/control-plane-client.ts\<close> and \<^verbatim>\<open>src/net\<close>. What a call sends and how each outcome is reported.
  \<^item> \<open>Promise_Ledger\<close>, \<open>Client_Validation\<close>, \<open>Bridge_Client\<close>, \<open>Client_Guarantees\<close>: \<^verbatim>\<open>packages/commandrelay-client/src\<close>. The event loop of the
    client as a run of callbacks; the locale of the ledger says that each promise is issued once, settled at most once and
    otherwise held, and the client interprets it. \<open>Client_Server\<close> composes the client with the server across the protocol.
  \<^item> \<open>Tui_Profiles\<close>, \<open>Tui_Runtime\<close>, \<open>Tui_Args\<close>: \<^verbatim>\<open>packages/commandrelay-tui/src\<close>. The profile file as a store, the
    discipline of reconnecting over every run of events, the command line and the QA sections.
  \<^item> \<open>Bridge_Http\<close>, \<open>Relay_Health\<close>: the HTTP endpoints in \<^verbatim>\<open>src/server/bridge-server.ts\<close> and \<^verbatim>\<open>packages/commandrelay-relay-proxy/src/index.ts\<close>. Served files
    stay below their root; the relay's documents need the token and contain no secret.
  \<^item> \<open>Relay_Cli\<close>: \<^verbatim>\<open>packages/commandrelay-relay-proxy/src/cli.ts\<close>. Flags and environment variables configure the relay alike.
  \<^item> \<open>Task_Capsule\<close>, \<open>Agent_Brief\<close>, \<open>Agent_Dispatch\<close>, \<open>Orchestration_Tools\<close>: \<^verbatim>\<open>src/orchestration\<close> and \<^verbatim>\<open>scripts/orchestration\<close>, the path of a
    task to an agent. A capsule stays within its limits and survives its file; a brief shows only owned files; a dispatch keeps the task and
    the files of its brief.
  \<^item> \<open>Ssh_Preflight\<close>, \<open>Startup\<close>: \<^verbatim>\<open>src/ssh/ssh-preflight.ts\<close>, \<^verbatim>\<open>src/startup/startup-profile.ts\<close>, \<^verbatim>\<open>src/server/audit-log.ts\<close>,
    \<^verbatim>\<open>src/index.ts\<close>. Exactly when a bridge process starts.

  \<^bold>\<open>Conventions.\<close> A class or closure state is a record, a union a datatype, a thrown exception the left part of a sum. The
  clock, the process runner, the file system, hashes, \<open>JSON.parse\<close>, the URL parser, the sockets and the agent classes are parameters or come with the
  events; where a property relies on one of them, the statement says so. Strings range over the Latin-1 block; numbers are exact
  rationals with the non-finite values, so the rounding of doubles beyond 2^53 is not represented. Handlers run to their end
  before the next event. Code with awaits is cut at them and interleaves where its interleavings matter: the engine, the client library, the
  request machines, the start of the terminal client's connection. Every \<open>Map\<close> and \<open>Set\<close> keeps its insertion order.

  \<^bold>\<open>Bounds and termination.\<close> No fuel is used. Loops over lists are structural recursion; the scan for fingerprints has a measure; the
  eviction loop of the cache is a partial function into options, and its termination is a property. The SSH adapter's runner may depend on the number of commands run before.

  \<^bold>\<open>Not modelled.\<close> Starting child processes and listening on sockets; the text the command-line tools print; the loaders that look for a package on disk; the web
  application and the other development scripts (benchmarks, soak runs, release checks), which are input and output.
\<close>

end
